(* ===== verification/Prelude.thy ===== *)
theory Prelude
  imports Main "HOL-Library.Word"
begin

unbundle bit_operations_syntax

text \<open>
  Shared vocabulary of the development: the C integer types of the sources, the error
  values that stand for \<open>crash()\<close>, the \<open>TRUNC\<close>/\<open>ROUND\<close> macros of \<open>startup.h\<close>, and
  the generic lemmas on words, lists and maps the components use.  Facts that move a
  word statement to natural numbers are collected in \<open>to_nat\<close>, the definitions that
  the component proofs unfold together in \<open>model_defs\<close>.
\<close>

named_theorems to_nat \<open>facts that read a word expression as a natural number\<close>
named_theorems model_defs \<open>non-recursive model definitions unfolded together\<close>

section \<open>C types\<close>

type_synonym u8 = "8 word"
type_synonym u16 = "16 word"
type_synonym u32 = "32 word"
type_synonym u64 = "64 word"

text \<open>\<open>paddr_t\<close>, \<open>paddr64_t\<close> and \<open>PADDR_T\<close> are all 64 bits wide on AArch64.\<close>

type_synonym paddr_t = u64

section \<open>Errors\<close>

text \<open>
  \<open>crash()\<close> prints and never returns.  A function that can crash returns a sum whose
  left side says which \<open>crash()\<close> call was reached (\<open>Crash\<close> carries the message).  \<open>Divide_by_zero\<close>, \<open>Out_of_bounds\<close>,
  \<open>Null_dereference\<close> and \<open>Undefined_shift\<close> stand for the undefined behaviour of C of that name; \<open>Diverges\<close> is the
  value of a fuelled loop that ran out of fuel and has no counterpart in the sources.
\<close>

datatype crash =
    Syspage_exceeded
  | Ram_entry_overflow
  | Avoid_entry_overflow
  | Remove_whole_sysram
  | No_memory_for_watcher
  | Could_not_reserve_top
  | Could_not_reserve
  | Month_out_of_bounds
  | Timer_frequency_zero
  | Alloca_failed
  | Null_name_argument
  | Divide_by_zero
  | Out_of_bounds
  | Null_dereference
  | Undefined_shift
  | Crash string
  | Diverges

type_synonym 'a result = "crash + 'a"

definition bind_result :: "'a result \<Rightarrow> ('a \<Rightarrow> 'b result) \<Rightarrow> 'b result" where
  "bind_result m f = (case m of Inl e \<Rightarrow> Inl e | Inr x \<Rightarrow> f x)"

lemma bind_result_Inr [simp]: "bind_result (Inr x) f = f x"
  and bind_result_Inl [simp]: "bind_result (Inl e) f = Inl e"
  by (simp_all add: bind_result_def)

lemma bind_result_eq_Inr [simp]:
  "bind_result m f = Inr y \<longleftrightarrow> (\<exists>x. m = Inr x \<and> f x = Inr y)"
  by (simp add: bind_result_def split: sum.splits)

definition is_ok :: "'a result \<Rightarrow> bool" where
  "is_ok m = (case m of Inl _ \<Rightarrow> False | Inr _ \<Rightarrow> True)"

lemma is_okE: "is_ok m \<Longrightarrow> (\<And>x. m = Inr x \<Longrightarrow> P) \<Longrightarrow> P"
  by (auto simp: is_ok_def split: sum.splits)

lemma is_ok_simps [simp]: "is_ok (Inr x)" "\<not> is_ok (Inl e)"
  by (simp_all add: is_ok_def)

text \<open>The drivers report errors as \<open>errno\<close> values; \<open>Errno_of_call\<close> is the error of a library call.\<close>

datatype errno =
    EINVAL | EBUSY | EIO | ECHRNG | ENOTSUP | ETIMEDOUT | ENOMEM | ENODEV | ENXIO | Errno_of_call

datatype 'a ret = Ok 'a | Fail errno

section \<open>Flag words\<close>

definition has :: "'a::len word \<Rightarrow> 'a word \<Rightarrow> bool" where
  "has flags f \<longleftrightarrow> flags AND f \<noteq> 0"

definition flag_if :: "bool \<Rightarrow> 'a::len word \<Rightarrow> 'a word" where
  "flag_if b f = (if b then f else 0)"

section \<open>Alignment macros\<close>

text \<open>\<open>TRUNC(_x,_a)\<close> and \<open>ROUND(_x,_a)\<close> of \<open>startup.h\<close>; both cast to \<open>paddr_t\<close> first.\<close>

definition TRUNC :: "paddr_t \<Rightarrow> paddr_t \<Rightarrow> paddr_t" where
  "TRUNC x a = x AND NOT (a - 1)"

definition ROUND :: "paddr_t \<Rightarrow> paddr_t \<Rightarrow> paddr_t" where
  "ROUND x a = TRUNC (x + (a - 1)) a"

text \<open>The macros are meant for powers of two.\<close>

definition is_pow2 :: "paddr_t \<Rightarrow> bool" where
  "is_pow2 a \<longleftrightarrow> (\<exists>k < 64. a = 2 ^ k)"

lemma is_pow2I [intro]: "k < 64 \<Longrightarrow> is_pow2 (2 ^ k)"
  unfolding is_pow2_def by blast

lemma unat_pow2_64: "k < 64 \<Longrightarrow> unat ((2 :: u64) ^ k) = 2 ^ k"
proof -
  assume "k < 64"
  then have "(2 :: nat) ^ k < 2 ^ 64" by (intro power_strict_increasing) simp_all
  then show ?thesis using unat_of_nat [of "2 ^ k", where ?'a = 64] by simp
qed

lemma and_not_mask_minus: "x AND NOT (mask k) = x - take_bit k (x :: 'a::len word)"
proof -
  have "(x AND NOT (mask k)) + (x AND mask k) = x"
    by (subst disjunctive_add) (auto simp: bit_simps intro: bit_word_eqI)
  then show ?thesis by (simp add: take_bit_eq_mask eq_diff_eq)
qed

lemma unat_TRUNC [to_nat]:
  assumes "k < 64"
  shows "unat (TRUNC x (2 ^ k)) = unat x div 2 ^ k * 2 ^ k"
proof -
  have "TRUNC x (2 ^ k) = x - take_bit k x"
    by (simp add: TRUNC_def and_not_mask_minus flip: mask_eq_exp_minus_1)
  moreover have "take_bit k x \<le> x" and "unat (take_bit k x) = unat x mod 2 ^ k"
    by (simp_all add: word_le_nat_alt unsigned_take_bit_eq take_bit_nat_eq_self_iff flip: take_bit_eq_mod)
  ultimately have "unat (TRUNC x (2 ^ k)) = unat x - unat x mod 2 ^ k"
    by (simp only: unat_sub)
  then show ?thesis by (simp add: minus_mod_eq_div_mult)
qed

lemma unat_ROUND [to_nat]:
  assumes "k < 64" and "unat x + 2 ^ k \<le> 2 ^ 64"
  shows "unat (ROUND x (2 ^ k)) = (unat x + (2 ^ k - 1)) div 2 ^ k * 2 ^ k"
proof -
  have one: "unat ((2 :: u64) ^ k - 1) = 2 ^ k - 1"
    using assms(1) by (simp add: unat_minus_one unat_pow2_64)
  have "unat x + (2 ^ k - 1) < 2 ^ 64"
    using assms(2) by (simp add: less_eq_Suc_le[symmetric] Suc_diff_le)
  then have "unat (x + (2 ^ k - 1)) = unat x + (2 ^ k - 1)"
    by (simp add: unat_word_ariths one)
  then show ?thesis by (simp add: ROUND_def unat_TRUNC [OF assms(1)])
qed

lemma round_up_ge: "0 < d \<Longrightarrow> n \<le> (n + (d - 1)) div d * (d :: nat)"
proof -
  assume d: "0 < d"
  let ?q = "(n + (d - 1)) div d * d"
  have "?q + (n + (d - 1)) mod d = n + (d - 1)" by (rule div_mult_mod_eq)
  moreover have "(n + (d - 1)) mod d < d" using d by (rule mod_less_divisor)
  ultimately show "n \<le> ?q" by linarith
qed

lemma round_up_less: "0 < d \<Longrightarrow> (n + (d - 1)) div d * (d :: nat) < n + d"
proof -
  assume d: "0 < d"
  have "(n + (d - 1)) div d * d \<le> n + (d - 1)" by simp
  also have "\<dots> < n + d" using d by simp
  finally show ?thesis .
qed

lemma TRUNC_le: "is_pow2 a \<Longrightarrow> unat (TRUNC x a) \<le> unat x"
  by (auto simp: is_pow2_def unat_TRUNC)

lemma TRUNC_dvd: "is_pow2 a \<Longrightarrow> unat a dvd unat (TRUNC x a)"
  by (auto simp: is_pow2_def unat_TRUNC unat_pow2_64)

lemma ROUND_bounds:
  assumes "is_pow2 a" and "unat x + unat a \<le> 2 ^ 64"
  shows "unat x \<le> unat (ROUND x a)" and "unat (ROUND x a) < unat x + unat a"
    and "unat a dvd unat (ROUND x a)"
proof -
  obtain k where k: "k < 64" "a = 2 ^ k" using assms(1) by (auto simp: is_pow2_def)
  have ua: "unat a = 2 ^ k" using k by (simp add: unat_pow2_64)
  then have eq: "unat (ROUND x a) = (unat x + (unat a - 1)) div unat a * unat a" and "0 < unat a"
    using assms(2) k unat_ROUND [of k x] by simp_all
  then show "unat x \<le> unat (ROUND x a)" and "unat (ROUND x a) < unat x + unat a"
    and "unat a dvd unat (ROUND x a)"
    by (simp_all only: eq round_up_ge round_up_less dvd_triv_right)
qed

section \<open>Words as naturals\<close>

lemma unat_add_noov [to_nat]:
  "unat x + unat y < 2 ^ 64 \<Longrightarrow> unat (x + y :: u64) = unat x + unat y"
  by (simp add: unat_word_ariths)

lemma unat_sub_le [to_nat]: "unat y \<le> unat x \<Longrightarrow> unat (x - y :: u64) = unat x - unat y"
  by (simp add: unat_sub word_le_nat_alt)

lemmas word_order_nat = word_le_nat_alt word_less_nat_alt

lemma unat_eq_0_iff: "unat x = 0 \<longleftrightarrow> x = (0 :: 'a::len word)"
  by (simp add: unat_eq_zero)

lemma word_eq_nat: "x = y \<longleftrightarrow> unat x = unat (y :: 'a::len word)"
  by (simp add: word_unat_eq_iff)

lemma word_plus1_le: "pe \<noteq> - 1 \<Longrightarrow> pe + 1 \<le> x \<longleftrightarrow> pe < (x :: 'a::len word)"
proof -
  assume "pe \<noteq> - 1"
  then have "1 + pe \<noteq> 0" by (metis add_eq_0_iff minus_equation_iff)
  then have "unat (pe + 1) = Suc (unat pe)" by (subst add.commute) (rule unatSuc)
  then show ?thesis by (simp add: word_order_nat Suc_le_eq)
qed

lemma word_le_minus1: "0 < ps \<Longrightarrow> x \<le> ps - 1 \<longleftrightarrow> x < (ps :: 'a::len word)"
proof -
  assume "0 < ps"
  then have "unat (ps - 1) = unat ps - 1" by (intro unat_minus_one) auto
  moreover have "0 < unat ps" using \<open>0 < ps\<close> by (simp add: word_less_nat_alt)
  ultimately show ?thesis by (auto simp: word_order_nat)
qed

section \<open>Lists\<close>

lemma list_update_append_mid: "(pre @ x # suf)[length pre := y] = pre @ y # suf"
  by simp

lemma nth_append_mid: "(pre @ x # suf) ! length pre = x"
  by simp

lemma remove_nth_mid: "take (length pre) (pre @ x # suf) @ drop (Suc (length pre)) (pre @ x # suf) = pre @ suf"
  by simp

section \<open>Small numbers in an \<open>int\<close>\<close>

lemma unat_small_nat: "n < 2 ^ 32 \<Longrightarrow> unat (of_nat n :: u32) = n"
  by (simp add: unat_of_nat)

lemma sint_of_nat32:
  assumes "n < 2 ^ 31"
  shows "sint (of_nat n :: u32) = int n"
proof -
  have "uint (of_nat n :: u32) = int n" using assms by (simp add: take_bit_nat_eq_self_iff unsigned_of_nat take_bit_int_eq_self_iff)
  moreover have "int n < int (2 ^ 31)" using assms by (simp only: of_nat_less_iff)
  then have "signed_take_bit 31 (int n) = int n" by (intro signed_take_bit_int_eq_self) simp_all
  ultimately show ?thesis unfolding sint_uint by simp
qed

lemma scast_of_nat32: "n < 2 ^ 31 \<Longrightarrow> (scast (of_nat n :: u32) :: u64) = of_nat n"
  by (metis of_int_of_nat_eq of_int_sint sint_of_nat32)

lemma ucast_of_nat32: "n < 2 ^ 32 \<Longrightarrow> (ucast (of_nat n :: u32) :: u64) = of_nat n"
  by (metis of_nat_unat unat_small_nat)

section \<open>Numbers in memory\<close>

text \<open>Little-endian bytes.\<close>

definition le_bytes :: "nat \<Rightarrow> u64 \<Rightarrow> u8 list" where
  "le_bytes n v = map (\<lambda>i. ucast (drop_bit (8 * i) v)) [0..<n]"

fun le_value :: "u8 list \<Rightarrow> u64" where
  "le_value [] = 0"
| "le_value (b # bs) = ucast b OR push_bit 8 (le_value bs)"

lemma length_le_bytes [simp]: "length (le_bytes n v) = n"
  by (simp add: le_bytes_def)

lemma le_bytes_Suc: "le_bytes (Suc n) v = ucast v # le_bytes n (drop_bit 8 v)"
  unfolding le_bytes_def upt_conv_Cons [OF zero_less_Suc] by (simp add: map_Suc_upt [symmetric] comp_def algebra_simps del: upt_Suc)

lemma le_value_le_bytes: "le_value (le_bytes n v) = take_bit (8 * n) v"
proof (induction n arbitrary: v)
  case (Suc n)
  show ?case unfolding le_bytes_Suc le_value.simps Suc
    by (rule bit_word_eqI) (auto simp: bit_simps)
qed (simp add: le_bytes_def)

lemma le_value_le_bytes_8 [simp]: "le_value (le_bytes 8 v) = v"
  by (simp add: le_value_le_bytes take_bit_length_eq [where 'a = 64, simplified])

end
