(* ===== verification/Syspage.thy ===== *)
theory Syspage
  imports Prelude
begin

text \<open>
  The temporary system page (\<open>startup/lib/syspage_memory.c\<close>, the relocation part of
  \<open>callouts.c\<close>): one contiguous block of bytes in which the sections of
  \<open>struct local_syspage\<close> lie one behind the other and are grown in place by shifting
  everything behind them.  Pointers are offsets from \<open>lsp.syspage.p\<close>; the byte list has
  \<open>total_size\<close> elements.  The lemmas show that growing keeps the layout invariant, moves
  no section's contents and appends zero bytes to the section grown.
\<close>

section \<open>State\<close>

text \<open>The members of \<open>struct local_syspage\<close> and of \<open>struct cpu_local_syspage\<close>, in order.\<close>

datatype sect =
    Sec_syspage | Sec_system_private | Sec_asinfo | Sec_hwinfo | Sec_cpuinfo
  | Sec_cacheattr | Sec_qtime | Sec_callout | Sec_typed_strings | Sec_strings
  | Sec_intrinfo | Sec_smp | Sec_hypinfo | Sec_cluster
  | Sec_aarch64_gic_map | Sec_aarch64_gicr_map | Sec_aarch64_idreg_dump

record local_section =
  sect_p :: nat
  sect_size :: u32

text \<open>
  \<open>max_size\<close> is \<open>lsp.syspage.p->size\<close>, which holds the growth limit until the page is
  written; \<open>patch_data\<close> is the list of \<open>struct co_info\<close> (owner, data) of \<open>callouts.c\<close>.
  In C \<open>total_size\<close> and \<open>size\<close> are members of the header at the start of the page, whose layout
  (\<open>sys/syspage.h\<close>) is not part of the repository; here they are fields of their own, and the bytes of
  the header in \<open>bytes\<close> stand for its other members, which the functions of this theory do not read.
\<close>

record syspage =
  total_size :: u32
  max_size :: u32
  sections :: "sect \<Rightarrow> local_section"
  bytes :: "u8 list"
  fixed_size :: u32
  patch_data :: "(nat \<times> u64) list"

section \<open>Operations\<close>

definition callout_reloc_data :: "nat \<Rightarrow> nat \<Rightarrow> nat \<Rightarrow> (nat \<times> u64) list \<Rightarrow> (nat \<times> u64) list" where
  "callout_reloc_data base len diff pds =
     map (\<lambda>(owner, data).
       (if base \<le> owner \<and> base + len > owner then owner + diff else owner, data)) pds"

definition round8 :: "u32 \<Rightarrow> u32" where
  "round8 add = ucast (ROUND (ucast add) 8)"

definition sect_bottom :: "syspage \<Rightarrow> sect \<Rightarrow> nat" where
  "sect_bottom sp s = sect_p (sections sp s) + unat (sect_size (sections sp s))"

definition shift_sections :: "sect \<Rightarrow> nat \<Rightarrow> nat \<Rightarrow> (sect \<Rightarrow> local_section) \<Rightarrow> sect \<Rightarrow> local_section" where
  "shift_sections s bottom add secs s2 =
     (if s2 \<noteq> s \<and> sect_p (secs s2) \<ge> bottom
      then (secs s2)\<lparr>sect_p := sect_p (secs s2) + add\<rparr> else secs s2)"

definition grow_syspage_section :: "sect \<Rightarrow> u32 \<Rightarrow> syspage \<Rightarrow> syspage result" where
  "grow_syspage_section s add0 sp =
     (if add0 > 0 then
        let add = round8 add0;
            new_size = total_size sp + add
        in if new_size > max_size sp then Inl Syspage_exceeded
        else
          let bottom = sect_bottom sp s;
              secs = shift_sections s bottom (unat add) (sections sp);
              len = unat (total_size sp) - bottom
          in Inr (sp\<lparr>
               sections := secs(s := (secs s)\<lparr>sect_size := sect_size (secs s) + add\<rparr>),
               bytes := take bottom (bytes sp) @ replicate (unat add) 0
                          @ take len (drop bottom (bytes sp)),
               patch_data := callout_reloc_data bottom len (unat add) (patch_data sp),
               total_size := new_size\<rparr>)
      else Inr sp)"

definition set_syspage_section :: "sect \<Rightarrow> u32 \<Rightarrow> syspage \<Rightarrow> syspage result" where
  "set_syspage_section s size0 sp =
     (let size = round8 size0
      in grow_syspage_section s size
           (sp\<lparr>sections := (sections sp)(s := (sections sp s)\<lparr>sect_p := unat (fixed_size sp)\<rparr>),
               fixed_size := fixed_size sp + size\<rparr>))"

text \<open>
  The section table that \<open>init_syspage_memory\<close> builds, up to and with the call of
  \<open>cpu_init_syspage_memory\<close>; \<open>hwi_default\<close>, which it calls last, needs the hardware information and
  stands with it.  The sizes of the C structures come from
  \<open>sys/syspage.h\<close>, which is not part of the repository, and are parameters: \<open>spsize0\<close> is
  \<open>sizeof(struct syspage_entry)\<close>, \<open>callout_sz\<close> \<open>sizeof(struct callout_entry)\<close> and
  \<open>prefix_sz\<close> \<open>sizeof(struct hwi_prefix)\<close>.
\<close>

text \<open>
  \<open>init_syspage_memory\<close> also sets the version, the sizes of the elements and the number of processors in the header, which
  are members that this model leaves out.
\<close>

definition empty_syspage :: "u32 \<Rightarrow> u32 \<Rightarrow> syspage" where
  "empty_syspage spsize mx =
     \<lparr>total_size = spsize, max_size = mx,
      sections = (\<lambda>_. \<lparr>sect_p = unat spsize, sect_size = 0\<rparr>)
                   (Sec_syspage := \<lparr>sect_p = 0, sect_size = spsize\<rparr>),
      bytes = replicate (unat spsize) 0, fixed_size = spsize, patch_data = []\<rparr>"

text \<open>\<open>aarch64_gic_map\<close> has eight bytes for each of the \<open>PROCESSORS_MAX\<close> processors.\<close>

definition PROCESSORS_MAX :: nat where "PROCESSORS_MAX = 64"

definition cpu_init_syspage_memory :: "syspage \<Rightarrow> syspage result" where
  "cpu_init_syspage_memory = set_syspage_section Sec_aarch64_gic_map (8 * of_nat PROCESSORS_MAX)"

definition init_sections :: "u32 \<Rightarrow> u32 \<Rightarrow> u32 \<Rightarrow> u32 \<Rightarrow> syspage result" where
  "init_sections spsize0 callout_sz prefix_sz mx =
     bind_result (set_syspage_section Sec_callout callout_sz (empty_syspage (round8 spsize0) mx))
       (\<lambda>sp. bind_result (grow_syspage_section Sec_typed_strings 4 sp)
       (\<lambda>sp. bind_result (grow_syspage_section Sec_strings 1 sp)
       (\<lambda>sp. bind_result (grow_syspage_section Sec_hwinfo prefix_sz sp)
       cpu_init_syspage_memory)))"

text \<open>
  \<open>reloc_syspage_memory\<close> copies the block to a new base and adds the same difference to
  every pointer; the offsets do not change.  The callout owners lie inside the block, so
  \<open>callout_reloc_data\<close> keeps their offsets too.
\<close>

definition reloc_syspage_memory :: "u32 \<Rightarrow> syspage \<Rightarrow> syspage" where
  "reloc_syspage_memory mx sp = sp\<lparr>max_size := mx\<rparr>"

section \<open>Contents and layout invariant\<close>

definition sect_bytes :: "syspage \<Rightarrow> sect \<Rightarrow> u8 list" where
  "sect_bytes sp s = take (unat (sect_size (sections sp s))) (drop (sect_p (sections sp s)) (bytes sp))"

definition disjoint_sects :: "(sect \<Rightarrow> local_section) \<Rightarrow> sect \<Rightarrow> sect \<Rightarrow> bool" where
  "disjoint_sects secs s t \<longleftrightarrow>
     sect_p (secs s) + unat (sect_size (secs s)) \<le> sect_p (secs t)
   \<or> sect_p (secs t) + unat (sect_size (secs t)) \<le> sect_p (secs s)"

definition sp_inv :: "syspage \<Rightarrow> bool" where
  "sp_inv sp \<longleftrightarrow>
     length (bytes sp) = unat (total_size sp)
   \<and> total_size sp \<le> max_size sp \<and> unat (max_size sp) \<le> 2 ^ 30
   \<and> (\<forall>s. sect_bottom sp s \<le> unat (total_size sp))
   \<and> (\<forall>s t. s \<noteq> t \<longrightarrow> disjoint_sects (sections sp) s t)"

section \<open>Lemmas\<close>

lemma unat_ucast_u32_u64: "unat (ucast (x :: u32) :: u64) = unat x"
  by (simp add: unsigned_ucast_eq take_bit_nat_eq_self_iff order_less_le_trans [OF unsigned_less])

lemma unat_round8:
  assumes "unat add \<le> 2 ^ 30"
  shows "unat (round8 add) = (unat add + 7) div 8 * 8"
proof -
  have u: "unat (ucast add :: u64) = unat add" by (rule unat_ucast_u32_u64)
  have "unat (ROUND (ucast add) (2 ^ 3)) = (unat add + (2 ^ 3 - 1)) div 2 ^ 3 * 2 ^ 3"
    using assms by (subst unat_ROUND) (simp_all add: u)
  then have r: "unat (ROUND (ucast add) 8) = (unat add + 7) div 8 * 8" by simp
  have "(unat add + 7) div 8 * 8 < 2 ^ 32" using assms by simp
  then show ?thesis
    by (simp add: round8_def unsigned_ucast_eq r take_bit_nat_eq_self)
qed

lemma round8_0 [simp]: "round8 0 = 0"
  by (simp add: round8_def ROUND_def TRUNC_def)

lemma round8_bounds:
  assumes "unat add \<le> 2 ^ 30"
  shows "unat add \<le> unat (round8 add)" and "unat (round8 add) < unat add + 8"
  using assms by (simp_all add: unat_round8)

lemma unat_add_u32: "unat x + unat y < 2 ^ 32 \<Longrightarrow> unat (x + y :: u32) = unat x + unat y"
  by (simp add: unat_word_ariths)

lemma take_drop_splice:
  assumes "n \<le> length xs" and "p + k \<le> length xs" and "p + k \<le> n \<or> n \<le> p"
  shows "take k (drop (if n \<le> p then p + a else p) (take n xs @ replicate a z @ drop n xs))
         = take k (drop p xs)"
proof (cases "n \<le> p")
  case True
  then have "drop (p + a) (take n xs @ replicate a z @ drop n xs) = drop (p - n) (drop n xs)"
    using assms(1) by simp
  then show ?thesis using True by simp
next
  case False
  with assms have le: "p + k \<le> n" by simp
  then have "take k (drop p (take n xs @ replicate a z @ drop n xs)) = take k (drop p (take n xs))"
    using assms by simp
  also have "\<dots> = take k (drop p xs)" using le by (simp add: drop_take min_absorb1)
  finally show ?thesis using False by simp
qed

text \<open>The shape of a successful growth, stated once for all the lemmas that follow.\<close>

lemma grow_syspage_section_cases:
  assumes "grow_syspage_section s add sp = Inr sp'" and "add > 0"
  defines "a \<equiv> round8 add" and "b \<equiv> sect_bottom sp s"
  shows "total_size sp + a \<le> max_size sp"
    and "total_size sp' = total_size sp + a" and "max_size sp' = max_size sp"
    and "fixed_size sp' = fixed_size sp"
    and "sections sp' = (shift_sections s b (unat a) (sections sp))
           (s := (sections sp s)\<lparr>sect_size := sect_size (sections sp s) + a\<rparr>)"
    and "bytes sp' = take b (bytes sp) @ replicate (unat a) 0
           @ take (unat (total_size sp) - b) (drop b (bytes sp))"
    and "patch_data sp' = callout_reloc_data b (unat (total_size sp) - b) (unat a) (patch_data sp)"
  using assms(1,2)
  by (auto simp: grow_syspage_section_def Let_def a_def b_def shift_sections_def
      not_less split: if_splits)

lemma grow_syspage_section_zero [simp]: "grow_syspage_section s 0 sp = Inr sp"
  by (simp add: grow_syspage_section_def)

text \<open>A growth that succeeded, from a page that satisfies the invariant.\<close>

definition grown :: "sect \<Rightarrow> u32 \<Rightarrow> syspage \<Rightarrow> syspage \<Rightarrow> bool" where
  "grown s add sp sp' \<longleftrightarrow>
     grow_syspage_section s add sp = Inr sp' \<and> add > 0 \<and> unat add \<le> 2 ^ 30 \<and> sp_inv sp"

lemma grownD:
  assumes "grown s add sp sp'"
  shows "grow_syspage_section s add sp = Inr sp'" and "add > 0" and "unat add \<le> 2 ^ 30"
    and "sp_inv sp"
  using assms by (simp_all add: grown_def)

lemma sp_inv_limit: "sp_inv sp \<Longrightarrow> unat (total_size sp) \<le> 2 ^ 30"
  by (auto simp: sp_inv_def word_le_nat_alt)

lemma grown_total:
  assumes g: "grown s add sp sp'"
  shows "unat (total_size sp') = unat (total_size sp) + unat (round8 add)"
proof -
  note small = grownD(3) [OF g]
  have "unat (total_size sp) \<le> 2 ^ 30" by (rule sp_inv_limit [OF grownD(4) [OF g]])
  then show ?thesis
    using small round8_bounds(2) [OF small] grow_syspage_section_cases(2) [OF grownD(1,2) [OF g]]
    by (simp add: unat_add_u32)
qed

lemma sp_inv_bottom: "sp_inv sp \<Longrightarrow> sect_bottom sp t \<le> unat (total_size sp)"
  and sp_inv_length: "sp_inv sp \<Longrightarrow> length (bytes sp) = unat (total_size sp)"
  and sp_inv_disjoint: "sp_inv sp \<Longrightarrow> t \<noteq> u \<Longrightarrow> disjoint_sects (sections sp) t u"
  by (auto simp: sp_inv_def)

lemma grown_bytes:
  assumes g: "grown s add sp sp'"
  shows "bytes sp' = take (sect_bottom sp s) (bytes sp) @ replicate (unat (round8 add)) 0
     @ drop (sect_bottom sp s) (bytes sp)"
  using grow_syspage_section_cases(6) [OF grownD(1,2) [OF g]] sp_inv_length [OF grownD(4) [OF g]]
  by simp

lemma grown_self:
  assumes g: "grown s add sp sp'"
  shows "unat (sect_size (sections sp' s)) = unat (sect_size (sections sp s)) + unat (round8 add)"
    and "sect_p (sections sp' s) = sect_p (sections sp s)"
proof -
  note small = grownD(3) [OF g] and secs = grow_syspage_section_cases(5) [OF grownD(1,2) [OF g]]
  have "unat (sect_size (sections sp s)) \<le> 2 ^ 30"
    using sp_inv_bottom [OF grownD(4) [OF g], of s] sp_inv_limit [OF grownD(4) [OF g]]
    by (simp add: sect_bottom_def)
  then show "unat (sect_size (sections sp' s)) = unat (sect_size (sections sp s)) + unat (round8 add)"
    using small round8_bounds(2) [OF small] secs by (simp add: unat_add_u32)
  show "sect_p (sections sp' s) = sect_p (sections sp s)" using secs by simp
qed

lemma grown_other:
  assumes g: "grown s add sp sp'" and "t \<noteq> s"
  shows "sect_size (sections sp' t) = sect_size (sections sp t)"
    and "sect_p (sections sp' t) =
      (if sect_bottom sp s \<le> sect_p (sections sp t) then sect_p (sections sp t) + unat (round8 add)
       else sect_p (sections sp t))"
  using grow_syspage_section_cases(5) [OF grownD(1,2) [OF g]] assms(2)
  by (simp_all add: shift_sections_def)

lemma before_or_behind:
  assumes "sp_inv sp" and "t \<noteq> s"
  shows "sect_bottom sp t \<le> sect_p (sections sp s) \<or> sect_bottom sp s \<le> sect_p (sections sp t)"
  using sp_inv_disjoint [OF assms(1), of s t] assms(2)
  by (auto simp: disjoint_sects_def sect_bottom_def)

lemma grown_contents_other:
  assumes g: "grown s add sp sp'" and "t \<noteq> s"
  shows "sect_bytes sp' t = sect_bytes sp t"
  unfolding sect_bytes_def grown_bytes [OF g] grown_other [OF g assms(2)]
  using before_or_behind [OF grownD(4) [OF g] assms(2)] sp_inv_length [OF grownD(4) [OF g]]
    sp_inv_bottom [OF grownD(4) [OF g], of t] sp_inv_bottom [OF grownD(4) [OF g], of s]
  by (subst take_drop_splice) (auto simp: sect_bottom_def)

lemma grown_contents:
  assumes g: "grown s add sp sp'"
  shows "sect_bytes sp' s = sect_bytes sp s @ replicate (unat (round8 add)) 0"
proof -
  let ?p = "sect_p (sections sp s)" and ?n = "unat (sect_size (sections sp s))"
  have le: "?p + ?n \<le> length (bytes sp)"
    using sp_inv_bottom [OF grownD(4) [OF g], of s] sp_inv_length [OF grownD(4) [OF g]]
    by (simp add: sect_bottom_def)
  have "drop ?p (bytes sp') = take ?n (drop ?p (bytes sp)) @ replicate (unat (round8 add)) 0
      @ drop (?p + ?n) (bytes sp)"
    using le by (simp add: grown_bytes [OF g] sect_bottom_def drop_take)
  then show ?thesis
    using le by (simp add: sect_bytes_def grown_self [OF g])
qed

lemma grown_disjoint:
  assumes g: "grown s add sp sp'" and tu: "t \<noteq> u"
  shows "disjoint_sects (sections sp') t u"
proof -
  note bb = before_or_behind [OF grownD(4) [OF g], of _ s] and d = sp_inv_disjoint [OF grownD(4) [OF g] tu]
  consider "t = s" | "u = s" | "t \<noteq> s" "u \<noteq> s" by blast
  then show ?thesis
  proof cases
    case 1
    then show ?thesis using tu bb [of u]
      by (auto simp: disjoint_sects_def grown_self [OF g] grown_other [OF g] sect_bottom_def)
  next
    case 2
    then show ?thesis using tu bb [of t]
      by (auto simp: disjoint_sects_def grown_self [OF g] grown_other [OF g] sect_bottom_def)
  next
    case 3
    then show ?thesis using d bb [of t] bb [of u]
      by (auto simp: disjoint_sects_def grown_other [OF g] sect_bottom_def)
  qed
qed

lemma grown_bottom:
  assumes g: "grown s add sp sp'"
  shows "sect_bottom sp' t \<le> unat (total_size sp')"
  using sp_inv_bottom [OF grownD(4) [OF g], of t] sp_inv_bottom [OF grownD(4) [OF g], of s]
  by (cases "t = s")
    (auto simp: sect_bottom_def grown_total [OF g] grown_self [OF g] grown_other [OF g])

lemma grown_inv:
  assumes g: "grown s add sp sp'"
  shows "sp_inv sp'"
proof -
  have "length (bytes sp') = unat (total_size sp')"
    using sp_inv_bottom [OF grownD(4) [OF g], of s] sp_inv_length [OF grownD(4) [OF g]]
    by (simp add: grown_bytes [OF g] grown_total [OF g])
  moreover have "total_size sp' \<le> max_size sp'" and "unat (max_size sp') \<le> 2 ^ 30"
    using grow_syspage_section_cases(1-3) [OF grownD(1,2) [OF g]] grownD(4) [OF g]
    by (simp_all add: sp_inv_def)
  ultimately show ?thesis
    by (simp add: sp_inv_def grown_disjoint [OF g] grown_bottom [OF g])
qed

lemma round8_idem: "unat add \<le> 2 ^ 29 \<Longrightarrow> round8 (round8 add) = round8 add"
proof -
  assume a: "unat add \<le> 2 ^ 29"
  then have le: "unat add \<le> 2 ^ 30" by simp
  have "unat (round8 add) \<le> 2 ^ 30" using round8_bounds(2) [OF le] a by simp
  then have "unat (round8 (round8 add)) = unat (round8 add)"
    by (simp add: unat_round8 [of "round8 add"] unat_round8 [OF le])
  then show ?thesis by (simp add: word_eq_nat)
qed

text \<open>Growing a section, successful or not, in the four facts its callers rely on.\<close>

lemma grow_keeps_inv:
  "grow_syspage_section s add sp = Inr sp' \<Longrightarrow> unat add \<le> 2 ^ 30 \<Longrightarrow> sp_inv sp \<Longrightarrow> sp_inv sp'"
  by (cases "add = 0") (auto intro: grown_inv simp: grown_def word_neq_0_conv)

lemma grow_keeps_others:
  "grow_syspage_section s add sp = Inr sp' \<Longrightarrow> unat add \<le> 2 ^ 30 \<Longrightarrow> sp_inv sp \<Longrightarrow> t \<noteq> s
   \<Longrightarrow> sect_bytes sp' t = sect_bytes sp t"
  by (cases "add = 0") (auto intro: grown_contents_other simp: grown_def word_neq_0_conv)

lemma grow_appends_zeros:
  "grow_syspage_section s add sp = Inr sp' \<Longrightarrow> unat add \<le> 2 ^ 30 \<Longrightarrow> sp_inv sp
   \<Longrightarrow> sect_bytes sp' s = sect_bytes sp s @ replicate (unat (round8 add)) 0"
  by (cases "add = 0") (auto intro: grown_contents simp: grown_def word_neq_0_conv)

section \<open>Interface: growable sections\<close>

text \<open>
  What the clients of the system page rely on: growing one section keeps the invariant,
  leaves every other section's bytes alone and appends zero bytes to its own.
\<close>

locale section_store =
  fixes grow :: "'s \<Rightarrow> u32 \<Rightarrow> 'm \<Rightarrow> 'm result"
    and contents :: "'m \<Rightarrow> 's \<Rightarrow> u8 list"
    and inv :: "'m \<Rightarrow> bool"
    and ok :: "u32 \<Rightarrow> bool"
  assumes grow_inv: "grow s add m = Inr m' \<Longrightarrow> ok add \<Longrightarrow> inv m \<Longrightarrow> inv m'"
    and grow_other: "grow s add m = Inr m' \<Longrightarrow> ok add \<Longrightarrow> inv m \<Longrightarrow> t \<noteq> s \<Longrightarrow> contents m' t = contents m t"
    and grow_self: "grow s add m = Inr m' \<Longrightarrow> ok add \<Longrightarrow> inv m \<Longrightarrow> \<exists>n. contents m' s = contents m s @ replicate n 0"
begin

primrec grow_seq :: "('s \<times> u32) list \<Rightarrow> 'm \<Rightarrow> 'm result" where
  "grow_seq [] m = Inr m"
| "grow_seq (r # rs) m = bind_result (grow (fst r) (snd r) m) (grow_seq rs)"

lemma grow_contents:
  "grow s add m = Inr m' \<Longrightarrow> ok add \<Longrightarrow> inv m \<Longrightarrow> \<exists>n. contents m' t = contents m t @ replicate n 0"
  by (cases "t = s") (auto simp: grow_other grow_self intro: exI [of _ 0])

lemma grow_seq_inv:
  "grow_seq rs m = Inr m' \<Longrightarrow> \<forall>r \<in> set rs. ok (snd r) \<Longrightarrow> inv m \<Longrightarrow> inv m'"
  by (induction rs arbitrary: m) (auto dest: grow_inv)

lemma grow_seq_contents:
  "grow_seq rs m = Inr m' \<Longrightarrow> \<forall>r \<in> set rs. ok (snd r) \<Longrightarrow> inv m
   \<Longrightarrow> \<exists>n. contents m' t = contents m t @ replicate n 0"
proof (induction rs arbitrary: m)
  case Nil
  then show ?case by (auto intro: exI [of _ 0])
next
  case (Cons r rs)
  then obtain m1 where m1: "grow (fst r) (snd r) m = Inr m1" and rest: "grow_seq rs m1 = Inr m'"
    by auto
  from Cons.prems m1 obtain n where "contents m1 t = contents m t @ replicate n 0"
    using grow_contents by fastforce
  moreover obtain n' where "contents m' t = contents m1 t @ replicate n' 0"
    using Cons.IH [OF rest] Cons.prems m1 grow_inv by fastforce
  ultimately show ?case by (auto simp flip: replicate_add)
qed

end

interpretation sys: section_store grow_syspage_section sect_bytes sp_inv "\<lambda>add. unat add \<le> 2 ^ 30"
  by unfold_locales (blast intro: grow_keeps_inv grow_keeps_others grow_appends_zeros)+

section \<open>Building the page\<close>

lemma empty_syspage_inv: "spsize \<le> mx \<Longrightarrow> unat mx \<le> 2 ^ 30 \<Longrightarrow> sp_inv (empty_syspage spsize mx)"
  by (auto simp: sp_inv_def empty_syspage_def sect_bottom_def disjoint_sects_def)

text \<open>A section that is still empty may be placed at the end of the page.\<close>

lemma place_at_end_inv:
  assumes "sp_inv sp" and "sect_size (sections sp s) = 0" and "fixed_size sp = total_size sp"
  shows "sp_inv (sp\<lparr>sections := (sections sp)(s := (sections sp s)\<lparr>sect_p := unat (fixed_size sp)\<rparr>), fixed_size := f\<rparr>)"
  using assms by (auto simp: sp_inv_def sect_bottom_def disjoint_sects_def)

text \<open>It may also be placed at an offset that lies inside no other section.\<close>

definition at_boundary :: "nat \<Rightarrow> syspage \<Rightarrow> bool" where
  "at_boundary f sp \<longleftrightarrow> (\<forall>t. f \<le> sect_p (sections sp t) \<or> sect_bottom sp t \<le> f)"

lemma place_at_boundary_inv:
  assumes "sp_inv sp" and "sect_size (sections sp s) = 0" and "at_boundary f sp" and "f \<le> unat (total_size sp)"
  shows "sp_inv (sp\<lparr>sections := (sections sp)(s := (sections sp s)\<lparr>sect_p := f\<rparr>), fixed_size := g\<rparr>)"
  using assms by (auto simp: sp_inv_def sect_bottom_def disjoint_sects_def at_boundary_def)

lemma grow_keeps_boundary:
  assumes g: "grow_syspage_section s add sp = Inr sp'" and b: "at_boundary f sp" and s: "f \<le> sect_p (sections sp s)"
  shows "at_boundary f sp'" and "f \<le> sect_p (sections sp t) \<Longrightarrow> f \<le> sect_p (sections sp' t)" and "fixed_size sp' = fixed_size sp"
    and "t \<noteq> s \<Longrightarrow> sect_size (sections sp' t) = sect_size (sections sp t)"
proof -
  have "at_boundary f sp' \<and> (f \<le> sect_p (sections sp t) \<longrightarrow> f \<le> sect_p (sections sp' t)) \<and> fixed_size sp' = fixed_size sp
    \<and> (t \<noteq> s \<longrightarrow> sect_size (sections sp' t) = sect_size (sections sp t))"
  proof (cases "add = 0")
    case True
    then show ?thesis using g b by simp
  next
    case False
    then have "add > 0" by (simp add: word_neq_0_conv)
    note c = grow_syspage_section_cases [OF g this]
    show ?thesis unfolding c(4) at_boundary_def sect_bottom_def c(5)
      using b s by (auto simp: at_boundary_def shift_sections_def sect_bottom_def)
  qed
  then show "at_boundary f sp'" and "f \<le> sect_p (sections sp t) \<Longrightarrow> f \<le> sect_p (sections sp' t)" and "fixed_size sp' = fixed_size sp"
    and "t \<noteq> s \<Longrightarrow> sect_size (sections sp' t) = sect_size (sections sp t)" by blast+
qed

lemma grow_succeeds:
  assumes "sp_inv sp" and "unat add \<le> 2 ^ 30" and "unat (total_size sp) + unat add + 7 \<le> unat (max_size sp)"
  obtains sp' where "grow_syspage_section s add sp = Inr sp'" and "sp_inv sp'" and "max_size sp' = max_size sp"
    and "unat (total_size sp') \<le> unat (total_size sp) + unat add + 7"
proof (cases "add = 0")
  case True
  then show ?thesis using that [of sp] assms by simp
next
  case False
  have lim: "unat (max_size sp) \<le> 2 ^ 30" using assms(1) by (simp add: sp_inv_def)
  have sum: "unat (total_size sp + round8 add) = unat (total_size sp) + unat (round8 add)"
    using round8_bounds(2) [OF assms(2)] assms(3) lim by (simp add: unat_add_u32)
  then have "\<not> total_size sp + round8 add > max_size sp"
    using round8_bounds(2) [OF assms(2)] assms(3) by (simp add: word_order_nat)
  then have "\<exists>sp'. grow_syspage_section s add sp = Inr sp'"
    using False by (simp add: grow_syspage_section_def Let_def)
  then obtain sp' where g: "grow_syspage_section s add sp = Inr sp'" ..
  then have gr: "grown s add sp sp'" using False assms by (simp add: grown_def word_neq_0_conv)
  show ?thesis
    using that [OF g grown_inv [OF gr]] grow_syspage_section_cases(3) [OF grownD(1,2) [OF gr]]
      grown_total [OF gr] round8_bounds(2) [OF assms(2)] by simp
qed

section \<open>Properties\<close>

text \<open>C4: A successful \<open>grow_syspage_section\<close> keeps the layout invariant (the sections lie
  inside the page and do not overlap), leaves the bytes of every other section as they were,
  and appends to the section grown nothing but zero bytes, as many as the request rounded up
  to a multiple of eight.\<close>

theorem grow_syspage_section_layout:
  assumes "sp_inv sp" and "unat add \<le> 2 ^ 30" and "grow_syspage_section s add sp = Inr sp'"
  shows "sp_inv sp' \<and> (\<forall>t. t \<noteq> s \<longrightarrow> sect_bytes sp' t = sect_bytes sp t)
    \<and> sect_bytes sp' s = sect_bytes sp s @ replicate ((unat add + 7) div 8 * 8) 0"
  using grow_keeps_inv [OF assms(3,2,1)] grow_keeps_others [OF assms(3,2,1)]
    grow_appends_zeros [OF assms(3,2,1)] unat_round8 [OF assms(2)] by simp

theorem grow_syspage_section_layout_witness:
  "\<exists>sp'. grow_syspage_section Sec_hwinfo 5 (empty_syspage 16 64) = Inr sp' \<and> sp_inv sp'
     \<and> sect_bytes sp' Sec_hwinfo = replicate 8 0"
proof -
  have inv: "sp_inv (empty_syspage 16 64)" by (rule empty_syspage_inv) simp_all
  obtain sp' where g: "grow_syspage_section Sec_hwinfo 5 (empty_syspage 16 64) = Inr sp'"
    by (rule grow_succeeds [OF inv, of 5]) (simp_all add: empty_syspage_def)
  show ?thesis
    using grow_syspage_section_layout [OF inv _ g] g by (simp add: sect_bytes_def empty_syspage_def)
qed

text \<open>\<open>grow_syspage_section\<close> crashes exactly when the page would exceed its limit; until
  then every request is satisfied.\<close>

theorem grow_syspage_section_error:
  assumes "sp_inv sp" and "unat add \<le> 2 ^ 30"
  shows "(grow_syspage_section s add sp = Inl Syspage_exceeded
           \<longleftrightarrow> unat (total_size sp) + (unat add + 7) div 8 * 8 > unat (max_size sp) \<and> add \<noteq> 0)
     \<and> (\<forall>e. grow_syspage_section s add sp = Inl e \<longrightarrow> e = Syspage_exceeded)"
proof -
  have "unat (total_size sp + round8 add) = unat (total_size sp) + unat (round8 add)"
    using round8_bounds(2) [OF assms(2)] sp_inv_limit [OF assms(1)] assms(2) by (simp add: unat_add_u32)
  then show ?thesis
    using unat_round8 [OF assms(2)]
    by (auto simp: grow_syspage_section_def Let_def word_order_nat unat_eq_0_iff split: if_splits)
qed

theorem grow_syspage_section_error_witness:
  "grow_syspage_section Sec_hwinfo 49 (empty_syspage 16 64) = Inl Syspage_exceeded"
  using grow_syspage_section_error [OF empty_syspage_inv [of 16 64], of 49 Sec_hwinfo]
  by (simp add: empty_syspage_def)

text \<open>The callout owners that \<open>callouts.c\<close> has registered as pointers into the page follow the
  bytes they point to: after a growth each of them designates the same byte as before.\<close>

theorem grow_syspage_section_owners:
  assumes "sp_inv sp" and "unat add \<le> 2 ^ 30" and "grow_syspage_section s add sp = Inr sp'"
    and "\<forall>(owner, d) \<in> set (patch_data sp). owner < unat (total_size sp)"
  shows "list_all2 (\<lambda>(owner, d) (owner', d'). d' = d \<and> bytes sp' ! owner' = bytes sp ! owner)
     (patch_data sp) (patch_data sp')"
proof (cases "add = 0")
  case True
  then show ?thesis using assms(3) by (auto intro: list.rel_refl_strong)
next
  case False
  then have g: "grown s add sp sp'" using assms by (simp add: grown_def word_neq_0_conv)
  note bot = sp_inv_bottom [OF assms(1), of s] and len = sp_inv_length [OF assms(1)]
  have "bytes sp' ! (if sect_bottom sp s \<le> owner then owner + unat (round8 add) else owner) = bytes sp ! owner"
    if "owner < unat (total_size sp)" for owner
    using that bot len by (auto simp: grown_bytes [OF g] nth_append)
  then show ?thesis
    using assms(4) bot
    by (fastforce simp: grow_syspage_section_cases(7) [OF grownD(1,2) [OF g]] callout_reloc_data_def
        list_all2_map2 intro: list.rel_refl_strong)
qed

theorem grow_syspage_section_owners_witness:
  "\<exists>sp' owner'. grow_syspage_section Sec_syspage 8 (empty_syspage 16 64 \<lparr>patch_data := [(3, 7)]\<rparr>) = Inr sp'
     \<and> patch_data sp' = [(owner', 7)] \<and> bytes sp' ! owner' = 0"
proof -
  let ?sp = "empty_syspage 16 64 \<lparr>patch_data := [(3, 7)]\<rparr>"
  have "sp_inv (empty_syspage 16 64)" by (rule empty_syspage_inv) simp_all
  then have inv: "sp_inv ?sp" by (simp add: sp_inv_def sect_bottom_def)
  obtain sp' where g: "grow_syspage_section Sec_syspage 8 ?sp = Inr sp'"
    by (rule grow_succeeds [OF inv, of 8]) (simp_all add: empty_syspage_def)
  show ?thesis
    using grow_syspage_section_owners [OF inv _ g] g by (auto simp: empty_syspage_def list_all2_Cons1)
qed

text \<open>Whatever sequence of sections is grown, the page keeps its invariant and no byte a
  section already holds is changed: every section afterwards is what it was before, followed by
  zero bytes.\<close>

theorem grow_sequence_preserves:
  assumes "sp_inv sp" and "sys.grow_seq reqs sp = Inr sp'" and "\<forall>r \<in> set reqs. unat (snd r) \<le> 2 ^ 30"
  shows "sp_inv sp' \<and> (\<exists>n. sect_bytes sp' t = sect_bytes sp t @ replicate n 0)"
  using sys.grow_seq_inv [OF assms(2,3,1)] sys.grow_seq_contents [OF assms(2,3,1)] by blast

theorem grow_sequence_preserves_witness:
  "\<exists>sp'. sys.grow_seq [(Sec_strings, 1), (Sec_hwinfo, 8)] (empty_syspage 16 64) = Inr sp' \<and> sp_inv sp'"
proof -
  have inv: "sp_inv (empty_syspage 16 64)" by (rule empty_syspage_inv) simp_all
  obtain sp1 where 1: "grow_syspage_section Sec_strings 1 (empty_syspage 16 64) = Inr sp1" "sp_inv sp1"
    "max_size sp1 = 64" "unat (total_size sp1) \<le> 24"
    by (rule grow_succeeds [OF inv, of 1]) (simp_all add: empty_syspage_def)
  obtain sp2 where "grow_syspage_section Sec_hwinfo 8 sp1 = Inr sp2"
    by (rule grow_succeeds [OF 1(2), of 8]) (use 1 in simp_all)
  then have seq: "sys.grow_seq [(Sec_strings, 1), (Sec_hwinfo, 8)] (empty_syspage 16 64) = Inr sp2" using 1 by simp
  show ?thesis using grow_sequence_preserves [OF inv seq, of Sec_asinfo] seq by auto
qed

end
