(* ===== verification/Strings_Table.thy ===== *)
theory Strings_Table
  imports Syspage
begin

text \<open>
  The string table of the system page (\<open>startup/lib/strings.c\<close>) at the level of bytes:
  zero-terminated strings one behind the other, closed by a zero byte, searched linearly
  and extended at the end.  A table is described by the list of its strings; \<open>add_string\<close>
  is shown to return an offset at which the string is found, to keep every other offset
  valid and to store no string twice.
\<close>

section \<open>C strings in a byte array\<close>

definition cstr :: "u8 list \<Rightarrow> u8 list" where
  "cstr xs = takeWhile (\<lambda>b. b \<noteq> 0) xs"

definition strlcpy_bytes :: "u8 list \<Rightarrow> nat \<Rightarrow> u8 list" where
  "strlcpy_bytes src n = (if n = 0 then [] else take (n - 1) src @ [0])"

definition put_bytes :: "nat \<Rightarrow> u8 list \<Rightarrow> syspage \<Rightarrow> syspage" where
  "put_bytes i xs sp = sp\<lparr>bytes := take i (bytes sp) @ xs @ drop (i + length xs) (bytes sp)\<rparr>"

section \<open>Operations\<close>

text \<open>
  The scan of \<open>add_string\<close>: the offset it stops at and whether the string was found there.
  The C loop has no bound of its own; it relies on the zero byte that ends the table, so
  the case \<open>i \<ge> length data\<close> is not reached from a well-formed table.
\<close>

function scan_strings :: "u8 list \<Rightarrow> u8 list \<Rightarrow> nat \<Rightarrow> nat \<times> bool" where
  "scan_strings data name i =
     (if i \<ge> length data \<or> data ! i = 0 then (i, False)
      else if cstr (drop i data) = name then (i, True)
      else scan_strings data name (i + length (cstr (drop i data)) + 1))"
  by pat_completeness auto
termination
  by (relation "measure (\<lambda>(data, name, i). length data - i)") auto

declare scan_strings.simps [simp del]

text \<open>Growing the section in steps of 128 bytes when fewer than \<open>len\<close> bytes are spare behind \<open>i\<close>.\<close>

definition strings_room :: "nat \<Rightarrow> nat \<Rightarrow> syspage \<Rightarrow> syspage result" where
  "strings_room len i sp =
     (let spare = unat (sect_size (sections sp Sec_strings)) - i in
      if len > spare
      then grow_syspage_section Sec_strings (ucast (ROUND (word_of_nat (len - spare)) 128)) sp
      else Inr sp)"

definition add_string :: "u8 list \<Rightarrow> syspage \<Rightarrow> (nat \<times> syspage) result" where
  "add_string name sp =
     (let (i, found) = scan_strings (sect_bytes sp Sec_strings) name 0 in
      if found then Inr (i, sp)
      else bind_result (strings_room (length name + 2) i sp)
             (\<lambda>sp. Inr (i, put_bytes (sect_p (sections sp Sec_strings) + i)
                           (strlcpy_bytes name (unat (sect_size (sections sp Sec_strings)) - i)) sp)))"

definition hwi_find_string :: "syspage \<Rightarrow> nat \<Rightarrow> u8 list" where
  "hwi_find_string sp off = cstr (drop off (sect_bytes sp Sec_strings))"

section \<open>Well-formed tables\<close>

definition packed :: "u8 list list \<Rightarrow> u8 list" where
  "packed strs = concat (map (\<lambda>s. s @ [0]) strs)"

definition c_string :: "u8 list \<Rightarrow> bool" where
  "c_string s \<longleftrightarrow> s \<noteq> [] \<and> 0 \<notin> set s"

definition table_of :: "u8 list list \<Rightarrow> nat \<Rightarrow> u8 list \<Rightarrow> bool" where
  "table_of strs k data \<longleftrightarrow>
     data = packed strs @ replicate k 0 \<and> 0 < k \<and> (\<forall>s \<in> set strs. c_string s) \<and> distinct strs"

definition st_inv :: "syspage \<Rightarrow> bool" where
  "st_inv sp \<longleftrightarrow> sp_inv sp \<and> (\<exists>strs k. table_of strs k (sect_bytes sp Sec_strings))"

text \<open>The strings stored, and the offset behind the last of them.\<close>

definition strings_end :: "syspage \<Rightarrow> nat" where
  "strings_end sp = fst (scan_strings (sect_bytes sp Sec_strings) [] 0)"

section \<open>Lemmas\<close>

lemma packed_Nil [simp]: "packed [] = []"
  and packed_Cons [simp]: "packed (s # strs) = s @ 0 # packed strs"
  and packed_append [simp]: "packed (as @ bs) = packed as @ packed bs"
  by (simp_all add: packed_def)

lemma cstr_append_zero [simp]: "0 \<notin> set s \<Longrightarrow> cstr (s @ 0 # xs) = s"
  by (induction s) (auto simp: cstr_def)

lemma cstr_0 [simp]: "cstr (0 # xs) = []"
  by (simp add: cstr_def)

lemma scan_step:
  assumes "c_string s"
  shows "scan_strings (pre @ s @ 0 # xs) name (length pre) =
     (if s = name then (length pre, True)
      else scan_strings ((pre @ s @ [0]) @ xs) name (length (pre @ s @ [0])))"
proof -
  obtain c cs where s: "s = c # cs" and c: "c \<noteq> 0" using assms by (cases s) (auto simp: c_string_def)
  have "cstr (drop (length pre) (pre @ s @ 0 # xs)) = s"
    using assms by (simp add: c_string_def)
  moreover have "(pre @ s @ 0 # xs) ! length pre \<noteq> 0" using s c by (simp add: nth_append)
  ultimately show ?thesis
    by (subst scan_strings.simps) (simp add: s)
qed

lemma scan_end: "scan_strings (pre @ 0 # xs) name (length pre) = (length pre, False)"
  by (subst scan_strings.simps) (simp add: nth_append)

lemma scan_table:
  assumes "\<forall>s \<in> set strs. c_string s"
  shows "scan_strings (pre @ packed strs @ 0 # xs) name (length pre) =
     (if name \<in> set strs
      then (length pre + length (packed (takeWhile (\<lambda>s. s \<noteq> name) strs)), True)
      else (length pre + length (packed strs), False))"
  using assms
proof (induction strs arbitrary: pre)
  case Nil
  then show ?case by (simp add: scan_end)
next
  case (Cons s strs)
  have "scan_strings (pre @ packed (s # strs) @ 0 # xs) name (length pre) =
     (if s = name then (length pre, True)
      else scan_strings ((pre @ s @ [0]) @ packed strs @ 0 # xs) name (length (pre @ s @ [0])))"
    using Cons.prems scan_step [of s pre "packed strs @ 0 # xs" name] by simp
  also have "\<dots> = (if name \<in> set (s # strs)
      then (length pre + length (packed (takeWhile (\<lambda>s. s \<noteq> name) (s # strs))), True)
      else (length pre + length (packed (s # strs)), False))"
    using Cons.IH [of "pre @ s @ [0]"] Cons.prems by (simp only: append_assoc) (auto split: if_splits)
  finally show ?case .
qed

lemma length_sect_bytes: "sp_inv sp \<Longrightarrow> length (sect_bytes sp s) = unat (sect_size (sections sp s))"
  using sp_inv_bottom [of sp s] sp_inv_length [of sp] by (simp add: sect_bytes_def sect_bottom_def)

lemma take_drop_put_other:
  assumes "q + length xs \<le> length ys" and "p + n \<le> length ys" and "p + n \<le> q \<or> q + length xs \<le> p"
  shows "take n (drop p (take q ys @ xs @ drop (q + length xs) ys)) = take n (drop p ys)"
  using assms(3)
proof
  assume le: "p + n \<le> q"
  then have "take n (drop p (take q ys @ xs @ drop (q + length xs) ys)) = take n (drop p (take q ys))"
    using assms by simp
  then show ?thesis using le by (simp add: drop_take min_absorb1)
next
  assume "q + length xs \<le> p"
  then show ?thesis using assms by (simp add: drop_append)
qed

lemma take_drop_put_self:
  assumes "p + n \<le> length ys" and "i + length xs \<le> n"
  shows "take n (drop p (take (p + i) ys @ xs @ drop (p + i + length xs) ys))
         = take i (take n (drop p ys)) @ xs @ drop (i + length xs) (take n (drop p ys))"
proof -
  define A where "A = take p ys"
  define B where "B = take n (drop p ys)"
  define C where "C = drop (p + n) ys"
  have ys: "ys = A @ B @ C" by (simp add: A_def B_def C_def flip: drop_drop) (metis add.commute append_take_drop_id drop_drop)
  have len: "length A = p" "length B = n" using assms(1) by (simp_all add: A_def B_def)
  show ?thesis using assms(2) len by (simp add: ys)
qed

lemma put_bytes_section:
  assumes inv: "sp_inv sp" and fits: "i + length xs \<le> unat (sect_size (sections sp s))"
  defines "sp' \<equiv> put_bytes (sect_p (sections sp s) + i) xs sp"
  shows "sp_inv sp'"
    and "t \<noteq> s \<Longrightarrow> sect_bytes sp' t = sect_bytes sp t"
    and "sect_bytes sp' s = take i (sect_bytes sp s) @ xs @ drop (i + length xs) (sect_bytes sp s)"
proof -
  let ?p = "sect_p (sections sp s)" and ?n = "unat (sect_size (sections sp s))"
  have le: "?p + ?n \<le> length (bytes sp)"
    using sp_inv_bottom [OF inv, of s] sp_inv_length [OF inv] by (simp add: sect_bottom_def)
  then have "length (bytes sp') = length (bytes sp)" using fits by (simp add: sp'_def put_bytes_def)
  then show "sp_inv sp'" using inv by (simp add: sp_inv_def sp'_def put_bytes_def sect_bottom_def)
  show "sect_bytes sp' s = take i (sect_bytes sp s) @ xs @ drop (i + length xs) (sect_bytes sp s)"
    using take_drop_put_self [OF le fits] by (simp add: sp'_def put_bytes_def sect_bytes_def add.assoc)
  assume "t \<noteq> s"
  then show "sect_bytes sp' t = sect_bytes sp t"
    using before_or_behind [OF inv, of t s] sp_inv_bottom [OF inv, of t] sp_inv_length [OF inv] le fits
    unfolding sp'_def put_bytes_def sect_bytes_def sect_bottom_def
    by (simp del: drop_append) (rule take_drop_put_other, auto)
qed

lemma scan_whole_table:
  assumes "table_of strs k data"
  shows "scan_strings data name 0 =
     (if name \<in> set strs then (length (packed (takeWhile (\<lambda>s. s \<noteq> name) strs)), True)
      else (length (packed strs), False))"
proof -
  obtain k' where "data = [] @ packed strs @ 0 # replicate k' 0"
    using assms by (cases k) (auto simp: table_of_def)
  then show ?thesis
    using assms scan_table [of strs "[]" "replicate k' 0" name] by (auto simp: table_of_def)
qed

lemma table_lookup:
  assumes "table_of strs k data" and "name \<in> set strs"
  shows "cstr (drop (length (packed (takeWhile (\<lambda>s. s \<noteq> name) strs))) data) = name"
proof -
  obtain as bs where split: "strs = as @ name # bs" "name \<notin> set as"
    using assms(2) split_list_first by fastforce
  then have "takeWhile (\<lambda>s. s \<noteq> name) strs = as" by (auto intro: takeWhile_eq_Nil_iff [THEN iffD2] simp: takeWhile_append)
  moreover have "0 \<notin> set name" using assms by (auto simp: table_of_def c_string_def)
  ultimately show ?thesis using assms(1) split by (simp add: table_of_def)
qed

lemma table_of_end:
  assumes "table_of strs k data"
  shows "fst (scan_strings data [] 0) = length (packed strs)"
proof -
  have "[] \<notin> set strs" using assms by (auto simp: table_of_def c_string_def)
  then show ?thesis using scan_whole_table [OF assms, of "[]"] by simp
qed

text \<open>A string that starts in the used part does not change when bytes behind it do.\<close>

lemma cstr_prefix:
  assumes "0 \<in> set xs"
  shows "cstr (xs @ ys) = cstr xs"
  using assms by (induction xs) (auto simp: cstr_def)

lemma packed_tail_zero: "off < length (packed strs) \<Longrightarrow> 0 \<in> set (drop off (packed strs))"
proof (induction strs arbitrary: off)
  case (Cons s strs)
  then show ?case by (cases "off \<le> length s") (auto simp: drop_Cons')
qed simp

lemma cstr_used:
  "off < length (packed strs) \<Longrightarrow> cstr (drop off (packed strs @ ys)) = cstr (drop off (packed strs @ zs))"
  by (simp add: cstr_prefix packed_tail_zero)

text \<open>Storing a new string behind the last one.\<close>

lemma table_extend:
  assumes "table_of strs k data" and "c_string name" and "name \<notin> set strs" and "length name + 2 \<le> k"
  shows "table_of (strs @ [name]) (k - Suc (length name))
     (take (length (packed strs)) data @ (name @ [0])
        @ drop (length (packed strs) + length (name @ [0])) data)"
  using assms by (auto simp: table_of_def)

lemma table_grow: "table_of strs k data \<Longrightarrow> table_of strs (k + n) (data @ replicate n 0)"
  by (simp add: table_of_def replicate_add)

lemma unat_round128:
  assumes "n \<le> 2 ^ 20"
  shows "n \<le> unat (ucast (ROUND (word_of_nat n) 128) :: u32)"
    and "unat (ucast (ROUND (word_of_nat n) 128) :: u32) \<le> 2 ^ 30"
proof -
  have n: "unat (word_of_nat n :: u64) = n" using assms by (simp add: unat_of_nat)
  have "is_pow2 (2 ^ 7)" by (rule is_pow2I) simp
  then have b: "n \<le> unat (ROUND (word_of_nat n) 128)" "unat (ROUND (word_of_nat n) 128) < n + 128"
    using ROUND_bounds(1,2) [of "2 ^ 7" "word_of_nat n"] assms by (simp_all add: n)
  then have "unat (ucast (ROUND (word_of_nat n) 128) :: u32) = unat (ROUND (word_of_nat n) 128)"
    using assms by (simp add: unsigned_ucast_eq take_bit_nat_eq_self)
  with b assms show "n \<le> unat (ucast (ROUND (word_of_nat n) 128) :: u32)"
    and "unat (ucast (ROUND (word_of_nat n) 128) :: u32) \<le> 2 ^ 30" by simp_all
qed

section \<open>Correctness of \<open>add_string\<close>\<close>

text \<open>The page just before the new string is stored: grown when it has to be.\<close>

lemma make_room:
  assumes "sp_inv sp" and "table_of strs k (sect_bytes sp Sec_strings)" and "len \<le> 2 ^ 20"
    and room: "strings_room len (length (packed strs)) sp = Inr sp1"
  shows "sp_inv sp1" and "\<exists>k1 \<ge> len. table_of strs k1 (sect_bytes sp1 Sec_strings)"
    and "t \<noteq> Sec_strings \<Longrightarrow> sect_bytes sp1 t = sect_bytes sp t"
proof -
  let ?spare = "unat (sect_size (sections sp Sec_strings)) - length (packed strs)"
  let ?add = "ucast (ROUND (word_of_nat (len - ?spare)) 128) :: u32"
  have k: "?spare = k"
    using length_sect_bytes [OF assms(1), of Sec_strings] assms(2) by (simp add: table_of_def)
  have "sp_inv sp1 \<and> (\<exists>k1 \<ge> len. table_of strs k1 (sect_bytes sp1 Sec_strings))
    \<and> (t \<noteq> Sec_strings \<longrightarrow> sect_bytes sp1 t = sect_bytes sp t)"
  proof (cases "len > ?spare")
    case True
    then have g: "grow_syspage_section Sec_strings ?add sp = Inr sp1"
      using room by (simp add: strings_room_def)
    have small: "unat ?add \<le> 2 ^ 30" and enough: "len - ?spare \<le> unat ?add"
      using assms(3) unat_round128 [of "len - ?spare"] by simp_all
    have "table_of strs (k + unat (round8 ?add)) (sect_bytes sp1 Sec_strings)"
      using grow_appends_zeros [OF g small assms(1)] table_grow [OF assms(2)] by simp
    moreover have "len \<le> k + unat (round8 ?add)"
      using enough round8_bounds(1) [OF small] k by linarith
    ultimately show ?thesis
      using grow_keeps_inv [OF g small assms(1)] grow_keeps_others [OF g small assms(1)] by blast
  next
    case False
    then have "sp1 = sp" using room by (simp add: strings_room_def)
    moreover have "len \<le> k" using False k by simp
    ultimately show ?thesis using assms(1,2) by blast
  qed
  then show "sp_inv sp1" and "\<exists>k1 \<ge> len. table_of strs k1 (sect_bytes sp1 Sec_strings)"
    and "t \<noteq> Sec_strings \<Longrightarrow> sect_bytes sp1 t = sect_bytes sp t" by blast+
qed

lemma add_string_table:
  assumes inv: "sp_inv sp" and tab: "table_of strs k (sect_bytes sp Sec_strings)"
    and name: "c_string name" and len: "length name + 2 \<le> 2 ^ 20"
    and add: "add_string name sp = Inr (off, sp')"
  shows "sp_inv sp' \<and> (t \<noteq> Sec_strings \<longrightarrow> sect_bytes sp' t = sect_bytes sp t)
    \<and> (\<exists>k'. table_of (if name \<in> set strs then strs else strs @ [name]) k' (sect_bytes sp' Sec_strings))
    \<and> off = length (packed (takeWhile (\<lambda>s. s \<noteq> name) strs))"
proof (cases "name \<in> set strs")
  case True
  then show ?thesis using inv tab add scan_whole_table [OF tab, of name] by (auto simp: add_string_def)
next
  case False
  let ?used = "length (packed strs)"
  have tw: "takeWhile (\<lambda>s. s \<noteq> name) strs = strs" using False by (auto simp: takeWhile_eq_all_conv)
  from add False obtain sp1 where
    room: "strings_room (length name + 2) ?used sp = Inr sp1"
    and off: "off = ?used"
    and sp': "sp' = put_bytes (sect_p (sections sp1 Sec_strings) + ?used)
       (strlcpy_bytes name (unat (sect_size (sections sp1 Sec_strings)) - ?used)) sp1"
    using scan_whole_table [OF tab, of name] by (auto simp: add_string_def)
  note mr = make_room [OF inv tab len room]
  from mr(2) obtain k1 where k1: "length name + 2 \<le> k1" and tab1: "table_of strs k1 (sect_bytes sp1 Sec_strings)"
    by blast
  have size1: "unat (sect_size (sections sp1 Sec_strings)) = ?used + k1"
    using length_sect_bytes [OF mr(1), of Sec_strings] tab1 by (simp add: table_of_def)
  then have cpy: "strlcpy_bytes name (unat (sect_size (sections sp1 Sec_strings)) - ?used) = name @ [0]"
    using k1 by (simp add: strlcpy_bytes_def)
  have fits: "?used + length (name @ [0]) \<le> unat (sect_size (sections sp1 Sec_strings))"
    using k1 size1 by simp
  note put = put_bytes_section [OF mr(1) fits, folded sp' [unfolded cpy]]
  show ?thesis
    using put(1) put(2) [of t] put(3) mr(3) [of t] False table_extend [OF tab1 name False k1]
    unfolding off tw by auto
qed

text \<open>The facts the users of the table need, with the strings of the table left implicit.\<close>

lemma add_string_inv:
  assumes "st_inv sp" and "c_string name" and "length name + 2 \<le> 2 ^ 20"
    and "add_string name sp = Inr (off, sp')"
  shows "st_inv sp'" and "t \<noteq> Sec_strings \<Longrightarrow> sect_bytes sp' t = sect_bytes sp t"
  using assms add_string_table [of sp _ _ name off sp' t] unfolding st_inv_def by blast+

lemma add_string_find:
  assumes "st_inv sp" and "c_string name" and "length name + 2 \<le> 2 ^ 20"
    and "add_string name sp = Inr (off, sp')"
  shows "hwi_find_string sp' off = name" and "off < strings_end sp'"
    and "o' < strings_end sp \<Longrightarrow> hwi_find_string sp' o' = hwi_find_string sp o'"
    and "strings_end sp \<le> strings_end sp'"
proof -
  obtain strs k where inv: "sp_inv sp" and tab: "table_of strs k (sect_bytes sp Sec_strings)"
    using assms(1) by (auto simp: st_inv_def)
  define strs' where "strs' = (if name \<in> set strs then strs else strs @ [name])"
  obtain k' where tab': "table_of strs' k' (sect_bytes sp' Sec_strings)"
    and off: "off = length (packed (takeWhile (\<lambda>s. s \<noteq> name) strs))"
    using add_string_table [OF inv tab assms(2-4)] by (auto simp: strs'_def)
  have name: "name \<in> set strs'" by (simp add: strs'_def)
  have tw: "takeWhile (\<lambda>s. s \<noteq> name) strs' = takeWhile (\<lambda>s. s \<noteq> name) strs"
    by (auto simp: strs'_def takeWhile_append intro!: takeWhile_eq_all_conv [THEN iffD2, symmetric])
  show "hwi_find_string sp' off = name"
    using table_lookup [OF tab' name] by (simp add: hwi_find_string_def off tw)
  have e: "strings_end sp = length (packed strs)" "strings_end sp' = length (packed strs')"
    using table_of_end [OF tab] table_of_end [OF tab'] by (simp_all add: strings_end_def)
  obtain as bs where "strs' = as @ name # bs" "takeWhile (\<lambda>s. s \<noteq> name) strs = as"
    using name split_list_first [of name strs'] by (fastforce simp: takeWhile_append simp flip: tw)
  then show "off < strings_end sp'" by (simp add: off e)
  show "strings_end sp \<le> strings_end sp'" by (simp add: e strs'_def)
  assume "o' < strings_end sp"
  then have "cstr (drop o' (packed strs @ ys)) = cstr (drop o' (packed strs @ zs))" for ys zs
    using cstr_used [of o' strs ys zs] by (simp only: e)
  then show "hwi_find_string sp' o' = hwi_find_string sp o'"
    using tab tab' by (simp add: hwi_find_string_def table_of_def strs'_def del: drop_append)
qed

section \<open>The sections \<open>init_syspage_memory\<close> builds\<close>

text \<open>One more growth from a page with room to spare.\<close>

lemma grow_next:
  assumes "sp_inv sp" and "unat add \<le> 2 ^ 29" and "unat (total_size sp) + unat add + 7 + rest \<le> unat (max_size sp)"
  shows "\<exists>sp'. grow_syspage_section s add sp = Inr sp' \<and> sp_inv sp' \<and> max_size sp' = max_size sp
    \<and> unat (total_size sp') + rest \<le> unat (max_size sp')
    \<and> sect_bytes sp' s = sect_bytes sp s @ replicate (unat (round8 add)) 0
    \<and> (\<forall>t. t \<noteq> s \<longrightarrow> sect_bytes sp' t = sect_bytes sp t)"
proof -
  have "unat add \<le> 2 ^ 30" using assms(2) by simp
  moreover obtain sp' where "grow_syspage_section s add sp = Inr sp'" "sp_inv sp'" "max_size sp' = max_size sp"
    "unat (total_size sp') \<le> unat (total_size sp) + unat add + 7"
    by (rule grow_succeeds [OF assms(1), of add]) (use assms in auto)
  ultimately show ?thesis
    using grow_appends_zeros [of s add sp sp'] grow_keeps_others [of s add sp sp'] assms by auto
qed

text \<open>The page with its first section, the callouts, behind the header.\<close>

lemma callout_section:
  assumes "unat spsize0 + unat callout_sz + rest + 30 \<le> unat mx" and "unat mx \<le> 2 ^ 29"
  shows "\<exists>sp f. set_syspage_section Sec_callout callout_sz (empty_syspage (round8 spsize0) mx) = Inr sp \<and> sp_inv sp \<and> max_size sp = mx
    \<and> unat (total_size sp) + rest \<le> unat mx \<and> at_boundary f sp \<and> f = unat (fixed_size sp)
    \<and> (\<forall>t. t \<noteq> Sec_syspage \<and> t \<noteq> Sec_callout \<longrightarrow> f \<le> sect_p (sections sp t) \<and> sect_size (sections sp t) = 0 \<and> sect_bytes sp t = [])
    \<and> sect_bytes sp Sec_callout = replicate (unat (round8 callout_sz)) 0"
proof -
  define spsize where "spsize = round8 spsize0"
  define r where "r = round8 callout_sz"
  have b: "unat spsize < unat spsize0 + 8" "unat r < unat callout_sz + 8"
    using assms by (auto simp: spsize_def r_def intro!: round8_bounds(2))
  define sp0 where "sp0 = empty_syspage spsize mx"
  define sp1 where "sp1 = sp0\<lparr>sections := (sections sp0)(Sec_callout := (sections sp0 Sec_callout)\<lparr>sect_p := unat (fixed_size sp0)\<rparr>),
      fixed_size := fixed_size sp0 + r\<rparr>"
  have "sp_inv sp0" unfolding sp0_def using assms b by (intro empty_syspage_inv) (auto simp: word_order_nat)
  then have inv1: "sp_inv sp1" unfolding sp1_def by (rule place_at_end_inv) (simp_all add: sp0_def empty_syspage_def)
  have s1: "sect_bytes sp1 t = []" if "t \<noteq> Sec_syspage" for t
    using that by (simp add: sp1_def sp0_def empty_syspage_def sect_bytes_def)
  have t1: "total_size sp1 = spsize" "max_size sp1 = mx" "fixed_size sp1 = spsize + r" by (simp_all add: sp1_def sp0_def empty_syspage_def)
  have f: "unat (spsize + r) = unat spsize + unat r" using assms b by (intro unat_add_lem [THEN iffD1]) simp
  have rr: "round8 r = r" unfolding r_def using assms by (intro round8_idem) simp
  obtain sp2 where 2: "grow_syspage_section Sec_callout r sp1 = Inr sp2" "sp_inv sp2" "max_size sp2 = mx"
    "unat (total_size sp2) + rest \<le> unat mx" "sect_bytes sp2 Sec_callout = replicate (unat r) 0"
    "\<forall>t. t \<noteq> Sec_callout \<longrightarrow> sect_bytes sp2 t = sect_bytes sp1 t"
    using grow_next [OF inv1, of r rest Sec_callout] assms b t1 rr s1 by auto
  have g: "set_syspage_section Sec_callout callout_sz (empty_syspage (round8 spsize0) mx) = Inr sp2"
    using 2(1) by (simp add: set_syspage_section_def Let_def spsize_def sp1_def sp0_def r_def)
  have sh: "at_boundary (unat spsize + unat r) sp2 \<and> fixed_size sp2 = spsize + r
      \<and> (\<forall>t. t \<noteq> Sec_syspage \<and> t \<noteq> Sec_callout \<longrightarrow> unat spsize + unat r \<le> sect_p (sections sp2 t) \<and> sect_size (sections sp2 t) = 0)"
  proof (cases "r = 0")
    case True
    then have "sp2 = sp1" using 2(1) by simp
    then show ?thesis using True by (auto simp: at_boundary_def sect_bottom_def sp1_def sp0_def empty_syspage_def)
  next
    case False
    then have "r > 0" by (simp add: word_neq_0_conv)
    note c = grow_syspage_section_cases [OF 2(1) this]
    show ?thesis unfolding c(4) at_boundary_def sect_bottom_def c(5) rr
      by (auto simp: sp1_def sp0_def empty_syspage_def shift_sections_def sect_bottom_def)
  qed
  show ?thesis
    by (intro exI [of _ sp2] exI [of _ "unat spsize + unat r"]) (use g 2 s1 sh f in \<open>simp add: r_def\<close>)
qed

lemma init_sections_steps:
  assumes "unat spsize0 + unat callout_sz + unat prefix_sz + 600 \<le> unat mx" and "unat mx \<le> 2 ^ 29"
  shows "\<exists>sp. init_sections spsize0 callout_sz prefix_sz mx = Inr sp \<and> sp_inv sp
    \<and> sect_bytes sp Sec_strings = replicate 8 0 \<and> sect_bytes sp Sec_typed_strings = replicate 8 0
    \<and> sect_bytes sp Sec_hwinfo = replicate (unat (round8 prefix_sz)) 0
    \<and> sect_bytes sp Sec_callout = replicate (unat (round8 callout_sz)) 0
    \<and> sect_bytes sp Sec_aarch64_gic_map = replicate 512 0"
proof -
  obtain sp2 f where 2: "set_syspage_section Sec_callout callout_sz (empty_syspage (round8 spsize0) mx) = Inr sp2" "sp_inv sp2"
    "max_size sp2 = mx" "unat (total_size sp2) + (unat prefix_sz + 560) \<le> unat mx" "at_boundary f sp2" "f = unat (fixed_size sp2)"
    "\<forall>t. t \<noteq> Sec_syspage \<and> t \<noteq> Sec_callout \<longrightarrow> f \<le> sect_p (sections sp2 t) \<and> sect_size (sections sp2 t) = 0 \<and> sect_bytes sp2 t = []"
    "sect_bytes sp2 Sec_callout = replicate (unat (round8 callout_sz)) 0"
    using callout_section [of spsize0 callout_sz "unat prefix_sz + 560" mx] assms by auto
  have p2: "f \<le> sect_p (sections sp2 t)" "sect_size (sections sp2 t) = 0" "sect_bytes sp2 t = []"
    if "t \<noteq> Sec_syspage" "t \<noteq> Sec_callout" for t using 2(7) that by blast+
  obtain sp3 where 3: "grow_syspage_section Sec_typed_strings 4 sp2 = Inr sp3" "sp_inv sp3" "max_size sp3 = mx"
    "unat (total_size sp3) + (unat prefix_sz + 545) \<le> unat mx" "sect_bytes sp3 Sec_typed_strings = replicate 8 0"
    "\<forall>t. t \<noteq> Sec_typed_strings \<longrightarrow> sect_bytes sp3 t = sect_bytes sp2 t"
    using grow_next [OF 2(2), of 4 "unat prefix_sz + 545" Sec_typed_strings] 2(3,4) p2 by (auto simp: unat_round8)
  have f2: "f \<le> sect_p (sections sp2 Sec_typed_strings)" by (rule p2(1)) simp_all
  note b3 = grow_keeps_boundary [OF 3(1) 2(5) f2]
  have f3: "f \<le> sect_p (sections sp3 Sec_strings)" by (rule b3(2), rule p2(1)) simp_all
  obtain sp4 where 4: "grow_syspage_section Sec_strings 1 sp3 = Inr sp4" "sp_inv sp4" "max_size sp4 = mx"
    "unat (total_size sp4) + (unat prefix_sz + 530) \<le> unat mx" "sect_bytes sp4 Sec_strings = replicate 8 0"
    "\<forall>t. t \<noteq> Sec_strings \<longrightarrow> sect_bytes sp4 t = sect_bytes sp3 t"
    using grow_next [OF 3(2), of 1 "unat prefix_sz + 530" Sec_strings] 3(3,4,6) p2 by (auto simp: unat_round8)
  note b4 = grow_keeps_boundary [OF 4(1) b3(1) f3]
  have f4: "f \<le> sect_p (sections sp4 Sec_hwinfo)" by (rule b4(2), rule b3(2), rule p2(1)) simp_all
  obtain sp5 where 5: "grow_syspage_section Sec_hwinfo prefix_sz sp4 = Inr sp5" "sp_inv sp5" "max_size sp5 = mx"
    "unat (total_size sp5) + 523 \<le> unat mx" "sect_bytes sp5 Sec_hwinfo = replicate (unat (round8 prefix_sz)) 0"
    "\<forall>t. t \<noteq> Sec_hwinfo \<longrightarrow> sect_bytes sp5 t = sect_bytes sp4 t"
    using grow_next [OF 4(2), of prefix_sz 523 Sec_hwinfo] 3(6) 4(3,4,6) assms p2 by auto
  note b5 = grow_keeps_boundary [OF 5(1) b4(1) f4]
  define sp6 where "sp6 = sp5\<lparr>sections := (sections sp5)(Sec_aarch64_gic_map := (sections sp5 Sec_aarch64_gic_map)\<lparr>sect_p := unat (fixed_size sp5)\<rparr>),
      fixed_size := fixed_size sp5 + 512\<rparr>"
  have fx: "unat (fixed_size sp5) = f" using b3(3) b4(3) b5(3) 2(6) by simp
  have z: "sect_size (sections sp5 Sec_aarch64_gic_map) = 0" using b3(4) b4(4) b5(4) p2(2) by simp
  have "f \<le> sect_p (sections sp5 Sec_aarch64_gic_map)" using b3(2) b4(2) b5(2) p2(1) by simp
  moreover have "sect_bottom sp5 Sec_aarch64_gic_map \<le> unat (total_size sp5)" using 5(2) by (simp add: sp_inv_def)
  ultimately have inv6: "sp_inv sp6" unfolding sp6_def fx
    by (intro place_at_boundary_inv [OF 5(2) z]) (use b5(1) in \<open>simp_all add: sect_bottom_def\<close>)
  have s6: "sect_bytes sp6 t = (if t = Sec_aarch64_gic_map then [] else sect_bytes sp5 t)" "max_size sp6 = mx"
    "total_size sp6 = total_size sp5" for t using z 5(3) by (simp_all add: sp6_def sect_bytes_def)
  obtain sp7 where 7: "grow_syspage_section Sec_aarch64_gic_map 512 sp6 = Inr sp7" "sp_inv sp7"
    "sect_bytes sp7 Sec_aarch64_gic_map = replicate 512 0" "\<forall>t. t \<noteq> Sec_aarch64_gic_map \<longrightarrow> sect_bytes sp7 t = sect_bytes sp6 t"
    using grow_next [OF inv6, of 512 0 Sec_aarch64_gic_map] 5(4) s6 by (auto simp: unat_round8)
  have r: "round8 512 = 512" by (simp add: word_unat_eq_iff unat_round8)
  have "init_sections spsize0 callout_sz prefix_sz mx = Inr sp7"
    using 2(1) 3(1) 4(1) 5(1) 7(1)
    by (simp add: init_sections_def cpu_init_syspage_memory_def PROCESSORS_MAX_def set_syspage_section_def [of Sec_aarch64_gic_map] Let_def r sp6_def)
  then show ?thesis using 2(8) 3(5,6) 4(5,6) 5(5,6) 7 s6 by simp
qed

section \<open>Properties\<close>

text \<open>The sections of \<open>init_syspage_memory\<close> are built when the sizes of the structures fit below the limit, and
  the page satisfies the layout invariant and holds an empty string table, an empty typed
  string table, a zeroed hardware information section and a zeroed map of the interrupt controllers.\<close>

theorem init_sections_ready:
  assumes "unat spsize + unat callout_sz + unat prefix_sz + 600 \<le> unat mx" and "unat mx \<le> 2 ^ 29"
  shows "\<exists>sp. init_sections spsize callout_sz prefix_sz mx = Inr sp \<and> st_inv sp
    \<and> strings_end sp = 0 \<and> sect_bytes sp Sec_typed_strings = replicate 8 0
    \<and> sect_bytes sp Sec_hwinfo = replicate (unat (round8 prefix_sz)) 0
    \<and> sect_bytes sp Sec_callout = replicate (unat (round8 callout_sz)) 0
    \<and> sect_bytes sp Sec_aarch64_gic_map = replicate 512 0"
proof -
  obtain sp where sp: "init_sections spsize callout_sz prefix_sz mx = Inr sp" "sp_inv sp"
    "sect_bytes sp Sec_strings = replicate 8 0" "sect_bytes sp Sec_typed_strings = replicate 8 0"
    "sect_bytes sp Sec_hwinfo = replicate (unat (round8 prefix_sz)) 0"
    "sect_bytes sp Sec_callout = replicate (unat (round8 callout_sz)) 0" "sect_bytes sp Sec_aarch64_gic_map = replicate 512 0"
    using init_sections_steps [OF assms] by blast
  have "table_of [] 8 (sect_bytes sp Sec_strings)" by (simp add: table_of_def sp)
  then show ?thesis using sp table_of_end [of "[]" 8] by (auto simp: st_inv_def strings_end_def)
qed

theorem init_sections_ready_witness:
  "\<exists>sp. init_sections 200 520 24 4096 = Inr sp \<and> st_inv sp \<and> strings_end sp = 0"
  using init_sections_ready [of 200 520 24 4096] by auto

text \<open>C5: \<open>add_string\<close> returns an offset at which the string can be read back, keeps the table
  well formed, changes no other section, and leaves every string readable at the offset where it
  was before.\<close>

theorem add_string_roundtrip:
  assumes "st_inv sp" and "c_string name" and "length name \<le> 2 ^ 16" and "add_string name sp = Inr (off, sp')"
  shows "hwi_find_string sp' off = name \<and> st_inv sp'
    \<and> (\<forall>o' < strings_end sp. hwi_find_string sp' o' = hwi_find_string sp o')
    \<and> (\<forall>t. t \<noteq> Sec_strings \<longrightarrow> sect_bytes sp' t = sect_bytes sp t)"
proof -
  have len: "length name + 2 \<le> 2 ^ 20" using assms(3) by simp
  show ?thesis
    using add_string_find(1,3) [OF assms(1,2) len assms(4)] add_string_inv [OF assms(1,2) len assms(4)] by blast
qed

text \<open>A page with an empty string table, for the concrete runs below.\<close>

definition small_page :: syspage where
  "small_page = \<lparr>total_size = 24, max_size = 1024,
     sections = (\<lambda>_. \<lparr>sect_p = 24, sect_size = 0\<rparr>)
       (Sec_syspage := \<lparr>sect_p = 0, sect_size = 16\<rparr>, Sec_strings := \<lparr>sect_p = 16, sect_size = 8\<rparr>),
     bytes = replicate 24 0, fixed_size = 16, patch_data = []\<rparr>"

lemma small_page_table: "table_of [] 8 (sect_bytes small_page Sec_strings)"
  by (simp add: table_of_def small_page_def sect_bytes_def)

lemma small_page_inv: "st_inv small_page"
proof -
  have "sp_inv small_page"
    by (auto simp: sp_inv_def small_page_def sect_bottom_def disjoint_sects_def)
  then show ?thesis using small_page_table unfolding st_inv_def by blast
qed

lemma small_page_end: "strings_end small_page = 0"
  by (simp add: strings_end_def table_of_end [OF small_page_table])

lemma small_page_add: "length name \<le> 6 \<Longrightarrow> \<exists>sp'. add_string name small_page = Inr (0, sp')"
  by (simp add: add_string_def strings_room_def scan_whole_table [OF small_page_table])
    (simp add: small_page_def)

theorem add_string_roundtrip_witness:
  "\<exists>sp'. add_string [104, 105] small_page = Inr (0, sp') \<and> hwi_find_string sp' 0 = [104, 105] \<and> st_inv sp'"
proof -
  have c: "c_string [104, 105]" by (simp add: c_string_def)
  obtain sp' where g: "add_string [104, 105] small_page = Inr (0, sp')"
    using small_page_add [of "[104, 105]"] by auto
  show ?thesis using add_string_roundtrip [OF small_page_inv c _ g] g by simp
qed

text \<open>A string is stored once: asking again for a string the table already holds changes
  nothing and returns the same offset.\<close>

theorem add_string_idempotent:
  assumes "st_inv sp" and "c_string name" and "length name \<le> 2 ^ 16" and "add_string name sp = Inr (off, sp')"
  shows "add_string name sp' = Inr (off, sp')"
proof -
  obtain strs k where inv: "sp_inv sp" and tab: "table_of strs k (sect_bytes sp Sec_strings)"
    using assms(1) by (auto simp: st_inv_def)
  define strs' where "strs' = (if name \<in> set strs then strs else strs @ [name])"
  obtain k' where tab': "table_of strs' k' (sect_bytes sp' Sec_strings)"
    and off: "off = length (packed (takeWhile (\<lambda>s. s \<noteq> name) strs))"
    using add_string_table [OF inv tab assms(2) _ assms(4)] assms(3) by (auto simp: strs'_def)
  have "takeWhile (\<lambda>s. s \<noteq> name) strs' = takeWhile (\<lambda>s. s \<noteq> name) strs"
    by (auto simp: strs'_def takeWhile_append intro!: takeWhile_eq_all_conv [THEN iffD2, symmetric])
  moreover have "name \<in> set strs'" by (simp add: strs'_def)
  ultimately show ?thesis using scan_whole_table [OF tab', of name] by (simp add: add_string_def off)
qed

theorem add_string_idempotent_witness:
  "\<exists>sp'. add_string [104, 105] small_page = Inr (0, sp') \<and> add_string [104, 105] sp' = Inr (0, sp')"
proof -
  have c: "c_string [104, 105]" by (simp add: c_string_def)
  obtain sp' where g: "add_string [104, 105] small_page = Inr (0, sp')"
    using small_page_add [of "[104, 105]"] by auto
  show ?thesis using add_string_idempotent [OF small_page_inv c _ g] g by simp
qed

end
