(* ===== verification/Asinfo.thy ===== *)
theory Asinfo
  imports Strings_Table
begin

text \<open>
  The address space table of the system page (\<open>startup/lib/as_*.c\<close>).  The entries are a
  list; an offset into the section is the index of the entry it points to (every offset in
  the sources is a multiple of \<open>sizeof(struct asinfo_entry)\<close>, and \<open>as + 1\<close> is the next
  entry), \<open>AS_NULL_OFF\<close> is \<open>None\<close>.  Names are offsets into the string table.  The layout of
  \<open>struct asinfo_entry\<close> and the flag values come from \<open>sys/syspage.h\<close>, which is not part
  of the repository; they are the fields of \<open>as_abi\<close>.
\<close>

section \<open>State\<close>

record as_abi =
  asinfo_entry_size :: u32
  AS_ATTR_KIDS :: u16
  AS_ATTR_CONTINUED :: u16
  AS_PRIORITY_DEFAULT :: u16

record asinfo_entry =
  as_start :: paddr_t
  as_end :: paddr_t
  as_owner :: "nat option"
  as_name :: nat
  as_attr :: u16
  as_priority :: u16

record lsp =
  page :: syspage
  asinfo :: "asinfo_entry list"

definition AS_OVERLAY_IO :: u32 where "AS_OVERLAY_IO = 0x80000000"
definition AS_ATTR_RAM :: u32 where "AS_ATTR_RAM = 0"

text \<open>A string literal of the sources as the bytes of a C string.\<close>

definition cs :: "string \<Rightarrow> u8 list" where
  "cs = map of_char"

section \<open>Adding entries\<close>

text \<open>The body of \<open>as_add64\<close> without the overlay at its end.\<close>

definition as_add_entry ::
    "as_abi \<Rightarrow> paddr_t \<Rightarrow> paddr_t \<Rightarrow> u32 \<Rightarrow> u8 list \<Rightarrow> nat option \<Rightarrow> 'a lsp_scheme
      \<Rightarrow> (nat \<times> 'a lsp_scheme) result" where
  "as_add_entry abi start en attr name owner st =
     bind_result (add_string name (page st)) (\<lambda>(name_off, pg).
     bind_result (grow_syspage_section Sec_asinfo (asinfo_entry_size abi) pg) (\<lambda>pg.
       let as = \<lparr>as_start = start, as_end = en, as_owner = owner, as_name = name_off,
                 as_attr = ucast (attr AND 0xffff), as_priority = AS_PRIORITY_DEFAULT abi\<rparr>;
           off = length (asinfo st);
           ents = asinfo st @ [as];
           ents = (case owner of None \<Rightarrow> ents
                   | Some o' \<Rightarrow> ents[o' := (ents ! o')\<lparr>as_attr := as_attr (ents ! o') OR AS_ATTR_KIDS abi\<rparr>])
       in Inr (off, st\<lparr>page := pg, asinfo := ents\<rparr>)))"

definition as_add64 ::
    "as_abi \<Rightarrow> paddr_t \<Rightarrow> paddr_t \<Rightarrow> u32 \<Rightarrow> u8 list \<Rightarrow> nat option \<Rightarrow> 'a lsp_scheme
      \<Rightarrow> (nat \<times> 'a lsp_scheme) result" where
  "as_add64 abi start en attr name owner st =
     bind_result (as_add_entry abi start en attr name owner st) (\<lambda>(off, st).
       if attr AND AS_OVERLAY_IO \<noteq> 0
       then bind_result (as_add_entry abi start en (attr AND NOT AS_OVERLAY_IO) (cs ''io'') (Some off) st)
              (\<lambda>(_, st). Inr (off, st))
       else Inr (off, st))"

definition as_add ::
    "as_abi \<Rightarrow> paddr_t \<Rightarrow> paddr_t \<Rightarrow> u32 \<Rightarrow> u8 list \<Rightarrow> nat option \<Rightarrow> 'a lsp_scheme
      \<Rightarrow> (nat \<times> 'a lsp_scheme) result" where
  "as_add = as_add64"

section \<open>Searching\<close>

definition as_name_is :: "'a lsp_scheme \<Rightarrow> nat \<Rightarrow> u8 list \<Rightarrow> bool" where
  "as_name_is st i name \<longleftrightarrow> hwi_find_string (page st) (as_name (asinfo st ! i)) = name"

text \<open>
  \<open>match_name\<close> and \<open>match_item\<close> follow the owner links.  An owner is always an earlier
  entry (\<open>owners_ok\<close> below, kept by every operation), so the walk ends; the test
  \<open>o' < i\<close> only makes that visible to the definition.
\<close>

function match_name :: "'a lsp_scheme \<Rightarrow> nat \<Rightarrow> u8 list \<Rightarrow> bool" where
  "match_name st i name =
     (if as_name_is st i name then True
      else case as_owner (asinfo st ! i) of
             None \<Rightarrow> False
           | Some o' \<Rightarrow> if o' < i then match_name st o' name else False)"
  by pat_completeness auto
termination
  by (relation "measure (\<lambda>(st, i, name). i)") auto

declare match_name.simps [simp del]

text \<open>The names come innermost first, as the list \<open>as_find\<close> builds from its arguments.\<close>

fun match_item :: "'a lsp_scheme \<Rightarrow> nat \<Rightarrow> u8 list list \<Rightarrow> bool" where
  "match_item st i [] = True"
| "match_item st i (name # names) =
     (if \<not> as_name_is st i name then False
      else if names = [] then True
      else case as_owner (asinfo st ! i) of
             None \<Rightarrow> False
           | Some o' \<Rightarrow> match_item st o' names)"

fun find_index_from :: "(nat \<Rightarrow> bool) \<Rightarrow> nat \<Rightarrow> nat \<Rightarrow> nat option" where
  "find_index_from P i 0 = None"
| "find_index_from P i (Suc n) = (if P i then Some i else find_index_from P (Suc i) n)"

definition first_index :: "nat option \<Rightarrow> nat" where
  "first_index off = (case off of None \<Rightarrow> 0 | Some i \<Rightarrow> Suc i)"

text \<open>The scan \<open>for(;;) { if(as >= stop) ...; ++as }\<close> from the entry behind \<open>off\<close>.\<close>

definition scan_entries :: "(nat \<Rightarrow> bool) \<Rightarrow> nat option \<Rightarrow> 'a lsp_scheme \<Rightarrow> nat option" where
  "scan_entries P off st = find_index_from P (first_index off) (length (asinfo st) - first_index off)"

definition as_find :: "nat option \<Rightarrow> u8 list list \<Rightarrow> 'a lsp_scheme \<Rightarrow> nat option result" where
  "as_find start names st =
     (if names = [] then Inl Null_name_argument
      else Inr (scan_entries (\<lambda>i. match_item st i (rev names)) start st))"

definition contains_range :: "paddr_t \<Rightarrow> paddr_t \<Rightarrow> asinfo_entry \<Rightarrow> bool" where
  "contains_range start en as \<longleftrightarrow>
     (start \<ge> as_start as \<and> start \<le> as_end as)
   \<or> (en \<ge> as_start as \<and> en \<le> as_end as)
   \<or> (start \<le> as_start as \<and> en \<ge> as_end as)"

definition as_find_containing ::
    "nat option \<Rightarrow> paddr_t \<Rightarrow> paddr_t \<Rightarrow> u8 list \<Rightarrow> 'a lsp_scheme \<Rightarrow> nat option" where
  "as_find_containing off start en container st =
     scan_entries (\<lambda>i. match_name st i container \<and> contains_range start en (asinfo st ! i)) off st"

definition hwi_find_as :: "paddr_t \<Rightarrow> bool \<Rightarrow> 'a lsp_scheme \<Rightarrow> nat option" where
  "hwi_find_as base mmap st =
     as_find_containing None base (base + 1) (if mmap then cs ''memory'' else cs ''io'') st"

section \<open>\<open>as_add_containing\<close>\<close>

record as_range =
  rg_start :: paddr_t
  rg_end :: paddr_t
  rg_owner :: nat

text \<open>The inner loop of \<open>as_add_containing\<close>: one piece into the list of ranges.\<close>

fun insert_piece :: "paddr_t \<Rightarrow> paddr_t \<Rightarrow> nat \<Rightarrow> as_range list \<Rightarrow> as_range list" where
  "insert_piece ps pe owner [] = [\<lparr>rg_start = ps, rg_end = pe, rg_owner = owner\<rparr>]"
| "insert_piece ps pe owner (cur # rest) =
     (if rg_start cur \<le> ps \<and> rg_end cur \<ge> ps then
        if rg_start cur = ps \<and> rg_end cur = pe then cur\<lparr>rg_owner := owner\<rparr> # rest
        else
          let new = \<lparr>rg_start = ps, rg_end = pe, rg_owner = owner\<rparr> in
          if rg_start cur = ps then new # cur\<lparr>rg_start := pe + 1\<rparr> # rest
          else cur\<lparr>rg_end := ps - 1\<rparr> # new #
                 (if rg_end cur \<noteq> pe
                  then [\<lparr>rg_start = pe + 1, rg_end = rg_end cur, rg_owner = rg_owner cur\<rparr>] else [])
                 @ rest
      else cur # insert_piece ps pe owner rest)"

definition piece_start :: "paddr_t \<Rightarrow> asinfo_entry \<Rightarrow> paddr_t" where
  "piece_start start as = (if as_start as > start then as_start as else start)"

definition piece_end :: "paddr_t \<Rightarrow> asinfo_entry \<Rightarrow> paddr_t" where
  "piece_end en as = (if as_end as < en then as_end as else en)"

text \<open>
  The outer loop: every container found from \<open>owner\<close> on contributes its piece.  \<open>n\<close> is the
  number of entries not yet looked at, which bounds the number of rounds.
\<close>

fun collect_pieces ::
    "nat \<Rightarrow> nat option \<Rightarrow> paddr_t \<Rightarrow> paddr_t \<Rightarrow> u8 list \<Rightarrow> 'a lsp_scheme \<Rightarrow> as_range list \<Rightarrow> as_range list" where
  "collect_pieces 0 owner start en container st rs = rs"
| "collect_pieces (Suc n) owner start en container st rs =
     (case as_find_containing owner start en container st of
        None \<Rightarrow> rs
      | Some o' \<Rightarrow> collect_pieces n (Some o') start en container st
          (insert_piece (piece_start start (asinfo st ! o')) (piece_end en (asinfo st ! o')) o' rs))"

fun add_pieces ::
    "as_abi \<Rightarrow> u32 \<Rightarrow> u8 list \<Rightarrow> as_range list \<Rightarrow> nat option \<times> nat \<times> 'a lsp_scheme
      \<Rightarrow> (nat option \<times> nat \<times> 'a lsp_scheme) result" where
  "add_pieces abi attr name [] acc = Inr acc"
| "add_pieces abi attr name (r # rs) (start_off, off, st) =
     (if rg_start r \<le> rg_end r then
        bind_result (as_add abi (rg_start r) (rg_end r) attr name (Some (rg_owner r)) st)
          (\<lambda>(off, st). add_pieces abi attr name rs
             (case start_off of None \<Rightarrow> Some off | Some so \<Rightarrow> Some so, off, st))
      else add_pieces abi attr name rs (start_off, off, st))"

text \<open>The loop over the continued entries that adds their I/O overlays.\<close>

fun overlay_pieces ::
    "nat \<Rightarrow> as_abi \<Rightarrow> u32 \<Rightarrow> u8 list \<Rightarrow> nat \<Rightarrow> 'a lsp_scheme \<Rightarrow> 'a lsp_scheme result" where
  "overlay_pieces 0 abi attr name off st = Inl Diverges"
| "overlay_pieces (Suc n) abi attr name off st =
     bind_result (as_add abi (as_start (asinfo st ! off)) (as_end (asinfo st ! off)) attr name (Some off) st)
       (\<lambda>(_, st). if as_attr (asinfo st ! off) AND AS_ATTR_CONTINUED abi = 0 then Inr st
                 else overlay_pieces n abi attr name (Suc off) st)"

definition as_add_containing ::
    "as_abi \<Rightarrow> paddr_t \<Rightarrow> paddr_t \<Rightarrow> u32 \<Rightarrow> u8 list \<Rightarrow> u8 list \<Rightarrow> 'a lsp_scheme
      \<Rightarrow> (nat option \<times> 'a lsp_scheme) result" where
  "as_add_containing abi start en attr name container st =
     (let rs = collect_pieces (length (asinfo st)) None start en container st [];
          piece_attr = (attr AND NOT AS_OVERLAY_IO) OR ucast (AS_ATTR_CONTINUED abi)
      in bind_result (add_pieces abi piece_attr name rs (None, 0, st)) (\<lambda>(start_off, off, st).
         case start_off of
           None \<Rightarrow> Inr (None, st)
         | Some so \<Rightarrow>
             let as = asinfo st ! off;
                 st = st\<lparr>asinfo := (asinfo st)[off := as\<lparr>as_attr := as_attr as AND NOT (AS_ATTR_CONTINUED abi)\<rparr>]\<rparr>
             in if attr AND AS_OVERLAY_IO \<noteq> 0
                then bind_result (overlay_pieces (length (asinfo st)) abi (attr AND NOT AS_OVERLAY_IO) name so st)
                       (\<lambda>st. Inr (Some so, st))
                else Inr (Some so, st)))"

section \<open>\<open>as_set_priority\<close>\<close>

text \<open>
  The loop steps to the next entry while the one just written is continued; reaching the
  end of the table (a continued last entry) is not excluded by the sources.
\<close>

fun set_priority_from :: "as_abi \<Rightarrow> u16 \<Rightarrow> asinfo_entry list \<Rightarrow> asinfo_entry list" where
  "set_priority_from abi prio [] = []"
| "set_priority_from abi prio (as # rest) =
     as\<lparr>as_priority := prio\<rparr> #
       (if as_attr as AND AS_ATTR_CONTINUED abi = 0 then rest else set_priority_from abi prio rest)"

definition as_set_priority :: "as_abi \<Rightarrow> nat \<Rightarrow> u16 \<Rightarrow> 'a lsp_scheme \<Rightarrow> 'a lsp_scheme" where
  "as_set_priority abi off prio st =
     st\<lparr>asinfo := take off (asinfo st) @ set_priority_from abi prio (drop off (asinfo st))\<rparr>"

section \<open>Invariant\<close>

definition owners_ok :: "asinfo_entry list \<Rightarrow> bool" where
  "owners_ok ents \<longleftrightarrow> (\<forall>i < length ents. \<forall>o'. as_owner (ents ! i) = Some o' \<longrightarrow> o' < i)"

definition as_inv :: "'a lsp_scheme \<Rightarrow> bool" where
  "as_inv st \<longleftrightarrow> st_inv (page st) \<and> owners_ok (asinfo st)
     \<and> (\<forall>e \<in> set (asinfo st). as_name e < strings_end (page st))"

text \<open>Two entries that differ at most in their attributes.\<close>

definition same_entry :: "asinfo_entry \<Rightarrow> asinfo_entry \<Rightarrow> bool" where
  "same_entry e e' \<longleftrightarrow> e' = e\<lparr>as_attr := as_attr e'\<rparr>"

lemma same_entryD [dest]:
  "same_entry e e' \<Longrightarrow> as_start e' = as_start e"
  "same_entry e e' \<Longrightarrow> as_end e' = as_end e"
  "same_entry e e' \<Longrightarrow> as_owner e' = as_owner e"
  "same_entry e e' \<Longrightarrow> as_name e' = as_name e"
  unfolding same_entry_def by (metis asinfo_entry.select_convs asinfo_entry.surjective asinfo_entry.update_convs)+

lemma same_entry_refl [simp]: "same_entry e e"
  by (simp add: same_entry_def)

lemma same_entry_attr [simp]: "same_entry e (e\<lparr>as_attr := a\<rparr>)"
  by (simp add: same_entry_def)

lemma same_entry_trans: "same_entry a b \<Longrightarrow> same_entry b c \<Longrightarrow> same_entry a c"
  by (cases a; cases b; cases c) (simp add: same_entry_def)

section \<open>Adding one entry\<close>

definition valid_name :: "u8 list \<Rightarrow> bool" where
  "valid_name name \<longleftrightarrow> c_string name \<and> length name \<le> 2 ^ 16"

lemma valid_nameD [dest]: "valid_name name \<Longrightarrow> c_string name" "valid_name name \<Longrightarrow> length name + 2 \<le> 2 ^ 20"
  by (simp_all add: valid_name_def)

lemma grow_keeps_strings:
  assumes "grow_syspage_section s n pg = Inr pg'" and "s \<noteq> Sec_strings" and "unat n \<le> 2 ^ 30" and "st_inv pg"
  shows "st_inv pg'" and "strings_end pg' = strings_end pg" and "hwi_find_string pg' = hwi_find_string pg"
proof -
  have "sp_inv pg" using assms(4) by (simp add: st_inv_def)
  then have eq: "sect_bytes pg' Sec_strings = sect_bytes pg Sec_strings" and inv: "sp_inv pg'"
    using grow_keeps_others [OF assms(1,3)] grow_keeps_inv [OF assms(1,3)] assms(2) by auto
  show "st_inv pg'" using eq inv assms(4) by (simp add: st_inv_def)
  show "strings_end pg' = strings_end pg" and "hwi_find_string pg' = hwi_find_string pg"
    by (simp_all add: strings_end_def hwi_find_string_def fun_eq_iff eq)
qed

lemma as_add_entry_spec:
  assumes add: "as_add_entry abi start en attr name owner st = Inr (off, st')"
    and inv: "as_inv st" and name: "valid_name name" and sz: "unat (asinfo_entry_size abi) \<le> 2 ^ 30"
    and own: "\<forall>o'. owner = Some o' \<longrightarrow> o' < length (asinfo st)"
  shows "as_inv st'" and "off = length (asinfo st)" and "length (asinfo st') = Suc off"
    and "\<And>i. i < off \<Longrightarrow> same_entry (asinfo st ! i) (asinfo st' ! i)"
    and "\<And>i. i < off \<Longrightarrow> owner \<noteq> Some i \<Longrightarrow> asinfo st' ! i = asinfo st ! i"
    and "as_start (asinfo st' ! off) = start" and "as_end (asinfo st' ! off) = en"
    and "as_owner (asinfo st' ! off) = owner" and "as_attr (asinfo st' ! off) = ucast (attr AND 0xffff)"
    and "hwi_find_string (page st') (as_name (asinfo st' ! off)) = name"
    and "\<And>o'. o' < strings_end (page st) \<Longrightarrow> hwi_find_string (page st') o' = hwi_find_string (page st) o'"
    and "strings_end (page st) \<le> strings_end (page st')"
    and "lsp.more st' = lsp.more st"
proof -
  from add obtain name_off pg pg' where
    str: "add_string name (page st) = Inr (name_off, pg)"
    and gr: "grow_syspage_section Sec_asinfo (asinfo_entry_size abi) pg = Inr pg'"
    and off: "off = length (asinfo st)"
    and st': "st' = st\<lparr>page := pg', asinfo := (case owner of None \<Rightarrow> asinfo st @
        [\<lparr>as_start = start, as_end = en, as_owner = owner, as_name = name_off,
          as_attr = ucast (attr AND 0xffff), as_priority = AS_PRIORITY_DEFAULT abi\<rparr>]
      | Some o' \<Rightarrow> (asinfo st @
        [\<lparr>as_start = start, as_end = en, as_owner = owner, as_name = name_off,
          as_attr = ucast (attr AND 0xffff), as_priority = AS_PRIORITY_DEFAULT abi\<rparr>])
          [o' := (asinfo st ! o')\<lparr>as_attr := as_attr (asinfo st ! o') OR AS_ATTR_KIDS abi\<rparr>])\<rparr>"
    using own by (auto simp: as_add_entry_def Let_def nth_append split: option.splits)
  have st: "st_inv (page st)" using inv by (simp add: as_inv_def)
  note a1 = add_string_inv [OF st valid_nameD [OF name] str]
    and a2 = add_string_find [OF st valid_nameD [OF name] str]
  note g = grow_keeps_strings [OF gr _ sz a1(1), simplified]
  show "off = length (asinfo st)" by (rule off)
  show "length (asinfo st') = Suc off" "lsp.more st' = lsp.more st"
    and "as_start (asinfo st' ! off) = start" and "as_end (asinfo st' ! off) = en"
    and "as_owner (asinfo st' ! off) = owner" and "as_attr (asinfo st' ! off) = ucast (attr AND 0xffff)"
    using own by (auto simp: st' off nth_append nth_list_update split: option.splits)
  show fs: "hwi_find_string (page st') (as_name (asinfo st' ! off)) = name"
    using own by (auto simp: st' off g(3) a2(1) nth_append nth_list_update split: option.splits)
  show se: "strings_end (page st) \<le> strings_end (page st')" by (simp add: st' g(2) a2(4))
  show "\<And>o'. o' < strings_end (page st) \<Longrightarrow> hwi_find_string (page st') o' = hwi_find_string (page st) o'"
    by (simp add: st' g(3) a2(3))
  show same: "\<And>i. i < off \<Longrightarrow> same_entry (asinfo st ! i) (asinfo st' ! i)"
    using own by (auto simp: st' off nth_append nth_list_update split: option.splits)
  show "\<And>i. i < off \<Longrightarrow> owner \<noteq> Some i \<Longrightarrow> asinfo st' ! i = asinfo st ! i"
    using own by (auto simp: st' off nth_append nth_list_update split: option.splits if_splits)
  have nm: "as_name (asinfo st' ! off) < strings_end (page st')"
    using own a2(2) by (auto simp: st' off g(2) nth_append nth_list_update split: option.splits)
  have ow: "as_owner (asinfo st' ! off) = owner"
    using own by (auto simp: st' off nth_append nth_list_update split: option.splits)
  have len: "length (asinfo st') = Suc off" by (auto simp: st' off split: option.splits)
  have "owners_ok (asinfo st')"
    using inv own ow len off same_entryD(3) [OF same]
    by (auto simp: owners_ok_def as_inv_def less_Suc_eq)
  moreover have "as_name e < strings_end (page st')" if "e \<in> set (asinfo st')" for e
  proof -
    from that obtain i where i: "i < Suc off" "e = asinfo st' ! i" by (metis in_set_conv_nth len)
    show ?thesis
    proof (cases "i = off")
      case True
      then show ?thesis using nm i by simp
    next
      case False
      then have "i < off" using i by simp
      then have "as_name e = as_name (asinfo st ! i)" and "asinfo st ! i \<in> set (asinfo st)"
        using same i off by auto
      then show ?thesis using inv se by (auto simp: as_inv_def)
    qed
  qed
  ultimately show "as_inv st'" using g(1) by (simp add: as_inv_def st')
qed

section \<open>The scans\<close>

lemma find_index_from_Some:
  "find_index_from P i n = Some j \<longleftrightarrow> i \<le> j \<and> j < i + n \<and> P j \<and> (\<forall>k. i \<le> k \<and> k < j \<longrightarrow> \<not> P k)"
proof (induction n arbitrary: i)
  case (Suc n)
  show ?case
  proof (cases "P i")
    case True
    then show ?thesis by (auto simp: le_less)
  next
    case False
    then have "find_index_from P i (Suc n) = Some j \<longleftrightarrow>
      Suc i \<le> j \<and> j < i + Suc n \<and> P j \<and> (\<forall>k. Suc i \<le> k \<and> k < j \<longrightarrow> \<not> P k)"
      by (simp add: Suc.IH)
    also have "\<dots> \<longleftrightarrow> i \<le> j \<and> j < i + Suc n \<and> P j \<and> (\<forall>k. i \<le> k \<and> k < j \<longrightarrow> \<not> P k)"
      using False by (metis Suc_leD Suc_leI le_neq_implies_less)
    finally show ?thesis .
  qed
qed simp

lemma find_index_from_None: "find_index_from P i n = None \<longleftrightarrow> (\<forall>k. i \<le> k \<and> k < i + n \<longrightarrow> \<not> P k)"
  by (induction n arbitrary: i) (auto simp: le_Suc_eq Suc_le_eq less_Suc_eq_le, metis le_eq_less_or_eq)

lemma scan_entries_Some:
  "scan_entries P off st = Some j \<longleftrightarrow>
     first_index off \<le> j \<and> j < length (asinfo st) \<and> P j
   \<and> (\<forall>k. first_index off \<le> k \<and> k < j \<longrightarrow> \<not> P k)"
  by (auto simp: scan_entries_def find_index_from_Some)

lemma scan_entries_None:
  "scan_entries P off st = None \<longleftrightarrow> (\<forall>k. first_index off \<le> k \<and> k < length (asinfo st) \<longrightarrow> \<not> P k)"
  by (auto simp: scan_entries_def find_index_from_None)

definition as_addrs :: "asinfo_entry \<Rightarrow> paddr_t set" where
  "as_addrs e = {as_start e .. as_end e}"

text \<open>For ranges that are not inverted the three tests of the sources mean overlap.\<close>

lemma contains_range_iff:
  "start \<le> en \<Longrightarrow> as_start e \<le> as_end e \<Longrightarrow>
     contains_range start en e \<longleftrightarrow> {start .. en} \<inter> as_addrs e \<noteq> {}"
  by (auto simp: contains_range_def as_addrs_def)

section \<open>The pieces of \<open>as_add_containing\<close>\<close>

definition rg_addrs :: "as_range \<Rightarrow> paddr_t set" where
  "rg_addrs r = {rg_start r .. rg_end r}"

lemma word_range_behind: "pe \<noteq> - 1 \<Longrightarrow> {pe + 1 .. e} = {pe <.. e :: paddr_t}"
  by (auto simp: word_plus1_le)

lemma word_range_before: "s < ps \<Longrightarrow> {s .. ps - 1} = {s ..< ps :: paddr_t}"
  by (auto simp: word_le_minus1 word_gt_0 dest: order.strict_trans1 [OF word_zero_le])

text \<open>Inserting a piece adds its addresses to those covered and takes none away.\<close>

lemma insert_piece_addrs:
  assumes "ps \<le> pe" and "pe \<noteq> - 1"
  shows "\<Union> (rg_addrs ` set (insert_piece ps pe owner rs)) = \<Union> (rg_addrs ` set rs) \<union> {ps .. pe}"
proof (induction rs)
  case Nil
  then show ?case by (simp add: rg_addrs_def)
next
  case (Cons cur rest)
  consider "\<not> (rg_start cur \<le> ps \<and> rg_end cur \<ge> ps)"
    | "rg_start cur = ps" "rg_end cur = pe" "ps \<le> rg_end cur"
    | "rg_start cur = ps" "rg_end cur \<noteq> pe" "ps \<le> rg_end cur"
    | "rg_start cur < ps" "ps \<le> rg_end cur" by fastforce
  then show ?case
  proof cases
    case 1
    then show ?thesis using Cons by auto
  next
    case 2
    then show ?thesis by (auto simp: rg_addrs_def)
  next
    case 3
    then show ?thesis using assms by (auto simp: rg_addrs_def word_range_behind Let_def)
  next
    case 4
    then show ?thesis using assms by (auto simp: rg_addrs_def word_range_behind word_range_before Let_def)
  qed
qed

text \<open>Every non-empty range stays inside the entry that owns it.\<close>

definition in_owner :: "'a lsp_scheme \<Rightarrow> as_range \<Rightarrow> bool" where
  "in_owner st r \<longleftrightarrow> rg_addrs r \<subseteq> as_addrs (asinfo st ! rg_owner r)"

lemma insert_piece_in_owner:
  assumes "{ps .. pe} \<subseteq> as_addrs (asinfo st ! owner)" and "\<forall>r \<in> set rs. in_owner st r" and "pe \<noteq> - 1"
    and "ps \<le> pe"
  shows "\<forall>r \<in> set (insert_piece ps pe owner rs). in_owner st r"
  using assms(2)
proof (induction rs)
  case Nil
  then show ?case using assms by (simp add: in_owner_def rg_addrs_def)
next
  case (Cons cur rest)
  then have cur: "rg_addrs cur \<subseteq> as_addrs (asinfo st ! rg_owner cur)" by (simp add: in_owner_def)
  consider "\<not> (rg_start cur \<le> ps \<and> rg_end cur \<ge> ps)"
    | "rg_start cur = ps" "ps \<le> rg_end cur"
    | "rg_start cur < ps" "ps \<le> rg_end cur" by fastforce
  then show ?case
  proof cases
    case 1
    then show ?thesis using Cons by auto
  next
    case 2
    then show ?thesis using Cons.prems cur assms(1,3,4)
      by (auto simp: in_owner_def rg_addrs_def word_plus1_le Let_def subset_iff)
  next
    case 3
    then show ?thesis using Cons.prems cur assms(1,3,4)
      by (auto simp: in_owner_def rg_addrs_def word_plus1_le Let_def subset_iff word_le_minus1 word_gt_0 dest: order.strict_trans1 [OF word_zero_le])
  qed
qed

lemma insert_piece_owners: "rg_owner ` set (insert_piece ps pe owner rs) \<subseteq> insert owner (rg_owner ` set rs)"
  by (induction rs) (auto simp: Let_def)

definition ranges_ok :: "'a lsp_scheme \<Rightarrow> bool" where
  "ranges_ok st \<longleftrightarrow> (\<forall>e \<in> set (asinfo st). as_start e \<le> as_end e)"

lemma piece_addrs: "{piece_start start e .. piece_end en e} = {start .. en} \<inter> as_addrs e"
  by (auto simp: piece_start_def piece_end_def as_addrs_def)

lemma as_find_containing_Some:
  "as_find_containing off start en container st = Some j \<longleftrightarrow>
     first_index off \<le> j \<and> j < length (asinfo st) \<and> match_name st j container
   \<and> contains_range start en (asinfo st ! j)
   \<and> (\<forall>k. first_index off \<le> k \<and> k < j
        \<longrightarrow> \<not> (match_name st k container \<and> contains_range start en (asinfo st ! k)))"
  by (auto simp: as_find_containing_def scan_entries_Some)

lemma as_find_containing_None:
  "as_find_containing off start en container st = None \<longleftrightarrow>
     (\<forall>k. first_index off \<le> k \<and> k < length (asinfo st)
        \<longrightarrow> \<not> (match_name st k container \<and> contains_range start en (asinfo st ! k)))"
  by (auto simp: as_find_containing_def scan_entries_None)

lemma first_index_Some [simp]: "first_index (Some i) = Suc i"
  and first_index_None [simp]: "first_index None = 0"
  by (simp_all add: first_index_def)

text \<open>The containers from index \<open>i\<close> on.\<close>

definition containers :: "'a lsp_scheme \<Rightarrow> nat \<Rightarrow> u8 list \<Rightarrow> nat set" where
  "containers st i container = {k. i \<le> k \<and> k < length (asinfo st) \<and> match_name st k container}"

lemma containers_step:
  assumes "as_find_containing off start en container st = Some j" and "start \<le> en" and "ranges_ok st"
  shows "{start .. en} \<inter> \<Union> (as_addrs ` (!) (asinfo st) ` containers st (first_index off) container) =
     ({start .. en} \<inter> as_addrs (asinfo st ! j))
   \<union> ({start .. en} \<inter> \<Union> (as_addrs ` (!) (asinfo st) ` containers st (Suc j) container))"
proof -
  note j = assms(1) [unfolded as_find_containing_Some]
  have skip: "{start .. en} \<inter> as_addrs (asinfo st ! k) = {}"
    if "first_index off \<le> k" "k < j" "match_name st k container" for k
    using that j assms(2,3) contains_range_iff [of start en "asinfo st ! k"] by (auto simp: ranges_ok_def)
  have "containers st (first_index off) container =
      {k. first_index off \<le> k \<and> k < j \<and> match_name st k container} \<union> {j} \<union> containers st (Suc j) container"
    using j by (auto simp: containers_def)
  then show ?thesis using skip by auto
qed

definition pieces_ok :: "'a lsp_scheme \<Rightarrow> as_range list \<Rightarrow> bool" where
  "pieces_ok st rs \<longleftrightarrow> (\<forall>r \<in> set rs. in_owner st r \<and> rg_owner r < length (asinfo st))"

lemma container_piece:
  assumes "as_find_containing off start en container st = Some j" and "start \<le> en" and "ranges_ok st"
  shows "j < length (asinfo st)"
    and "piece_start start (asinfo st ! j) \<le> piece_end en (asinfo st ! j)"
    and "en \<noteq> - 1 \<Longrightarrow> piece_end en (asinfo st ! j) \<noteq> - 1"
proof -
  note j = assms(1) [unfolded as_find_containing_Some]
  show "j < length (asinfo st)" using j by blast
  then have "{start .. en} \<inter> as_addrs (asinfo st ! j) \<noteq> {}"
    using j contains_range_iff [of start en "asinfo st ! j"] assms(2,3) by (auto simp: ranges_ok_def)
  then show "piece_start start (asinfo st ! j) \<le> piece_end en (asinfo st ! j)"
    by (simp flip: piece_addrs)
  show "piece_end en (asinfo st ! j) \<noteq> - 1" if "en \<noteq> - 1"
    using that by (auto simp: piece_end_def)
qed

lemma insert_piece_ok:
  assumes "{ps .. pe} \<subseteq> as_addrs (asinfo st ! owner)" and "pieces_ok st rs" and "pe \<noteq> - 1"
    and "ps \<le> pe" and "owner < length (asinfo st)"
  shows "pieces_ok st (insert_piece ps pe owner rs)"
  using insert_piece_in_owner [OF assms(1) _ assms(3,4), of rs] insert_piece_owners [of ps pe owner rs]
    assms(2,5) by (fastforce simp: pieces_ok_def)

lemma collect_pieces_ok:
  assumes "start \<le> en" and "en \<noteq> - 1" and "ranges_ok st" and "pieces_ok st rs"
  shows "pieces_ok st (collect_pieces n owner start en container st rs)"
  using assms(4)
proof (induction n arbitrary: owner rs)
  case (Suc n)
  show ?case
  proof (cases "as_find_containing owner start en container st")
    case None
    then show ?thesis using Suc.prems by simp
  next
    case (Some j)
    note c = container_piece [OF Some assms(1,3)]
    have "pieces_ok st (insert_piece (piece_start start (asinfo st ! j)) (piece_end en (asinfo st ! j)) j rs)"
      by (rule insert_piece_ok [OF _ Suc.prems c(3) c(2) c(1)]) (auto simp: piece_addrs assms(2))
    then show ?thesis using Some Suc.IH by simp
  qed
qed simp

lemma collect_pieces_addrs:
  assumes "start \<le> en" and "en \<noteq> - 1" and "ranges_ok st"
    and "length (asinfo st) - first_index owner \<le> n"
  shows "\<Union> (rg_addrs ` set (collect_pieces n owner start en container st rs)) = \<Union> (rg_addrs ` set rs)
      \<union> ({start .. en} \<inter> \<Union> (as_addrs ` (!) (asinfo st) ` containers st (first_index owner) container))"
  using assms(4)
proof (induction n arbitrary: owner rs)
  case 0
  then show ?case by (auto simp: containers_def)
next
  case (Suc n)
  show ?case
  proof (cases "as_find_containing owner start en container st")
    case None
    have "{start .. en} \<inter> as_addrs (asinfo st ! k) = {}" if "k \<in> containers st (first_index owner) container" for k
      using that None contains_range_iff [of start en "asinfo st ! k"] assms(1,3)
      by (auto simp: as_find_containing_None containers_def ranges_ok_def)
    then show ?thesis using None by auto
  next
    case (Some j)
    note c = container_piece [OF Some assms(1,3)]
    let ?rs = "insert_piece (piece_start start (asinfo st ! j)) (piece_end en (asinfo st ! j)) j rs"
    have "first_index owner \<le> j" using Some by (simp add: as_find_containing_Some)
    then have "length (asinfo st) - first_index (Some j) \<le> n" using Suc.prems by simp
    note IH = Suc.IH [OF this, of ?rs]
    show ?thesis
      using IH Some containers_step [OF Some assms(1,3)]
        insert_piece_addrs [OF c(2) c(3) [OF assms(2)], of j rs]
      by (simp add: piece_addrs Un_assoc)
  qed
qed

section \<open>Correctness of \<open>as_add_containing\<close>\<close>

lemma no_overlay_bit: "((attr AND NOT AS_OVERLAY_IO) OR ucast (c :: u16)) AND AS_OVERLAY_IO = 0"
proof (rule bit_word_eqI)
  fix n
  assume "n < LENGTH(32)"
  have "AS_OVERLAY_IO = push_bit 31 1" by (simp add: AS_OVERLAY_IO_def)
  moreover have "n = 31" if "bit (push_bit 31 (1 :: u32)) n"
    using that by (simp only: bit_push_bit_iff bit_1_iff) auto
  ultimately have "bit AS_OVERLAY_IO n \<Longrightarrow> n = 31" by metis
  moreover have "\<not> bit (ucast c :: u32) 31" by (auto simp: bit_simps dest: bit_imp_le_length)
  ultimately show "bit (((attr AND NOT AS_OVERLAY_IO) OR ucast c) AND AS_OVERLAY_IO) n = bit (0 :: u32) n"
    by (auto simp: bit_simps)
qed

lemma as_add_plain:
  "attr AND AS_OVERLAY_IO = 0 \<Longrightarrow> as_add abi start en attr name owner st = as_add_entry abi start en attr name owner st"
  by (auto simp: as_add_def as_add64_def bind_result_def split: sum.splits)

definition nonempty_range :: "as_range \<Rightarrow> bool" where
  "nonempty_range r \<longleftrightarrow> rg_start r \<le> rg_end r"

text \<open>The entry made from a range.\<close>

definition entry_of :: "'a lsp_scheme \<Rightarrow> u8 list \<Rightarrow> as_range \<Rightarrow> asinfo_entry \<Rightarrow> bool" where
  "entry_of st name r e \<longleftrightarrow> as_start e = rg_start r \<and> as_end e = rg_end r
     \<and> as_owner e = Some (rg_owner r) \<and> hwi_find_string (page st) (as_name e) = name"

text \<open>What a step that only adds entries keeps of the ones already there.\<close>

definition extends :: "'a lsp_scheme \<Rightarrow> 'a lsp_scheme \<Rightarrow> bool" where
  "extends st st' \<longleftrightarrow> length (asinfo st) \<le> length (asinfo st')
     \<and> (\<forall>i < length (asinfo st). same_entry (asinfo st ! i) (asinfo st' ! i))
     \<and> (\<forall>o' < strings_end (page st). hwi_find_string (page st') o' = hwi_find_string (page st) o')
     \<and> strings_end (page st) \<le> strings_end (page st') \<and> lsp.more st' = lsp.more st"

lemma extends_refl [simp]: "extends st st"
  by (simp add: extends_def)

lemma extends_trans:
  assumes "extends a b" and "extends b c"
  shows "extends a c"
  unfolding extends_def
proof (intro conjI allI impI)
  show "same_entry (asinfo a ! i) (asinfo c ! i)" if "i < length (asinfo a)" for i
    using assms that by (auto simp: extends_def intro: same_entry_trans [of _ "asinfo b ! i"])
qed (use assms in \<open>auto simp: extends_def\<close>)

lemma as_add_entry_extends:
  assumes "as_add_entry abi start en attr name owner st = Inr (off, st')" and "as_inv st"
    and "valid_name name" and "unat (asinfo_entry_size abi) \<le> 2 ^ 30"
    and "\<forall>o'. owner = Some o' \<longrightarrow> o' < length (asinfo st)"
  shows "extends st st'"
  using as_add_entry_spec [OF assms] by (auto simp: extends_def)

lemma entry_of_extends:
  assumes "entry_of st name r (asinfo st ! i)" and "extends st st'" and "i < length (asinfo st)" and "as_inv st"
  shows "entry_of st' name r (asinfo st' ! i)"
proof -
  have "same_entry (asinfo st ! i) (asinfo st' ! i)" using assms(2,3) by (simp add: extends_def)
  moreover have "as_name (asinfo st ! i) < strings_end (page st)" using assms(3,4) by (simp add: as_inv_def)
  ultimately show ?thesis using assms(1,2) by (auto simp: entry_of_def extends_def dest: same_entryD)
qed

lemma add_pieces_spec:
  assumes "add_pieces abi attr name rs (so, off, st) = Inr (so', off', st')" and "as_inv st"
    and "valid_name name" and "unat (asinfo_entry_size abi) \<le> 2 ^ 30" and "attr AND AS_OVERLAY_IO = 0"
    and "\<forall>r \<in> set rs. rg_owner r < length (asinfo st)"
  shows "as_inv st' \<and> extends st st'
    \<and> length (asinfo st') = length (asinfo st) + length (filter nonempty_range rs)
    \<and> (\<forall>k < length (filter nonempty_range rs).
         entry_of st' name (filter nonempty_range rs ! k) (asinfo st' ! (length (asinfo st) + k)))"
  using assms
proof (induction rs arbitrary: so off st)
  case (Cons r rs)
  show ?case
  proof (cases "nonempty_range r")
    case True
    then obtain o1 st1 where
      add: "as_add_entry abi (rg_start r) (rg_end r) attr name (Some (rg_owner r)) st = Inr (o1, st1)"
      and rest: "add_pieces abi attr name rs (case so of None \<Rightarrow> Some o1 | Some s \<Rightarrow> Some s, o1, st1)
          = Inr (so', off', st')"
      using Cons.prems(1,5) by (auto simp: nonempty_range_def as_add_plain)
    have own: "\<forall>o'. Some (rg_owner r) = Some o' \<longrightarrow> o' < length (asinfo st)" using Cons.prems(6) by simp
    note sp = as_add_entry_spec [OF add Cons.prems(2-4) own]
    note ex = as_add_entry_extends [OF add Cons.prems(2-4) own]
    have IH: "as_inv st' \<and> extends st1 st'
      \<and> length (asinfo st') = length (asinfo st1) + length (filter nonempty_range rs)
      \<and> (\<forall>k < length (filter nonempty_range rs).
         entry_of st' name (filter nonempty_range rs ! k) (asinfo st' ! (length (asinfo st1) + k)))"
      using Cons.IH [OF rest] sp(1) Cons.prems(3-6) sp(2,3) by fastforce
    have first: "entry_of st' name r (asinfo st' ! length (asinfo st))"
      using entry_of_extends [of st1 name r "length (asinfo st)" st'] IH sp by (simp add: entry_of_def)
    show ?thesis
      using IH first True sp(2,3) extends_trans [OF ex] by (auto simp: nth_Cons less_Suc_eq_0_disj split: nat.splits)
  next
    case False
    then show ?thesis using Cons by (simp add: nonempty_range_def)
  qed
qed simp

lemma same_entry_update: "same_entry (xs ! i) (xs[k := (xs ! k)\<lparr>as_attr := a\<rparr>] ! i)"
  by (cases "k < length xs"; cases "i = k") (auto simp: list_update_beyond)

text \<open>Attributes play no part in the invariant.\<close>

lemma as_inv_attrs:
  assumes "as_inv st" and "page st' = page st" and "length (asinfo st') = length (asinfo st)"
    and same: "\<And>i. i < length (asinfo st) \<Longrightarrow> same_entry (asinfo st ! i) (asinfo st' ! i)"
  shows "as_inv st'"
proof -
  have "as_name e < strings_end (page st')" if "e \<in> set (asinfo st')" for e
  proof -
    from that obtain i where i: "i < length (asinfo st)" "e = asinfo st' ! i" by (metis in_set_conv_nth assms(3))
    then show ?thesis using same_entryD(4) [OF same [OF i(1)]] assms(1,2) by (simp add: as_inv_def)
  qed
  moreover have "owners_ok (asinfo st')"
    using assms(1,3) same_entryD(3) [OF same] by (auto simp: as_inv_def owners_ok_def)
  ultimately show ?thesis using assms(1,2) by (simp add: as_inv_def)
qed

lemma extends_attrs:
  assumes "page st' = page st" and "length (asinfo st') = length (asinfo st)" and "lsp.more st' = lsp.more st"
    and "\<And>i. i < length (asinfo st) \<Longrightarrow> same_entry (asinfo st ! i) (asinfo st' ! i)"
  shows "extends st st'"
  using assms by (simp add: extends_def)

text \<open>
  The entries \<open>as_add_containing\<close> appends are those made from the non-empty pieces, in order.
\<close>

lemma as_add_containing_entries:
  assumes run: "as_add_containing abi start en attr name container st = Inr (so, st')"
    and inv: "as_inv st" and name: "valid_name name" and sz: "unat (asinfo_entry_size abi) \<le> 2 ^ 30"
    and plain: "attr AND AS_OVERLAY_IO = 0"
    and pok: "pieces_ok st (collect_pieces (length (asinfo st)) None start en container st [])"
  defines "rs \<equiv> filter nonempty_range (collect_pieces (length (asinfo st)) None start en container st [])"
  shows "as_inv st'" and "extends st st'" and "length (asinfo st') = length (asinfo st) + length rs"
    and "\<And>k. k < length rs \<Longrightarrow> entry_of st' name (rs ! k) (asinfo st' ! (length (asinfo st) + k))"
proof -
  let ?rs = "collect_pieces (length (asinfo st)) None start en container st []"
  define pa where "pa = (attr AND NOT AS_OVERLAY_IO) OR ucast (AS_ATTR_CONTINUED abi)"
  from run obtain so1 off st1 where
    add: "add_pieces abi pa name ?rs (None, 0, st) = Inr (so1, off, st1)"
    and fin: "st' = st1 \<or> st' = st1\<lparr>asinfo := (asinfo st1)[off := (asinfo st1 ! off)\<lparr>as_attr :=
         as_attr (asinfo st1 ! off) AND NOT (AS_ATTR_CONTINUED abi)\<rparr>]\<rparr>"
    using plain by (auto simp: as_add_containing_def Let_def pa_def split: option.splits)
  have own: "\<forall>r \<in> set ?rs. rg_owner r < length (asinfo st)" using pok by (simp add: pieces_ok_def)
  note sp = add_pieces_spec [OF add inv name sz _ own, unfolded pa_def, OF no_overlay_bit]
  have upd: "page st' = page st1" "length (asinfo st') = length (asinfo st1)" "lsp.more st' = lsp.more st1"
    "same_entry (asinfo st1 ! i) (asinfo st' ! i)" for i
    using fin by (auto simp: same_entry_update)
  show "as_inv st'" using as_inv_attrs [of st1 st'] sp upd by blast
  show "extends st st'" using extends_trans [of st st1 st'] extends_attrs [of st' st1] sp upd by blast
  show "length (asinfo st') = length (asinfo st) + length rs" using sp upd(2) by (simp add: rs_def)
  show "entry_of st' name (rs ! k) (asinfo st' ! (length (asinfo st) + k))" if "k < length rs" for k
    using sp that same_entryD [OF upd(4) [of "length (asinfo st) + k"]] by (simp add: entry_of_def upd(1) rs_def)
qed

lemma as_add_containing_plain:
  assumes run: "as_add_containing abi start en attr name container st = Inr (so, st')"
    and inv: "as_inv st" and name: "valid_name name" and sz: "unat (asinfo_entry_size abi) \<le> 2 ^ 30"
    and plain: "attr AND AS_OVERLAY_IO = 0"
    and rng: "start \<le> en" "en \<noteq> - 1" and ok: "ranges_ok st"
  defines "n \<equiv> length (asinfo st)"
  shows "as_inv st'" and "extends st st'"
    and "\<Union> (as_addrs ` set (drop n (asinfo st')))
         = {start .. en} \<inter> \<Union> (as_addrs ` (!) (asinfo st) ` containers st 0 container)"
    and "\<And>e. e \<in> set (drop n (asinfo st')) \<Longrightarrow> hwi_find_string (page st') (as_name e) = name
          \<and> as_start e \<le> as_end e
          \<and> (\<exists>o' < n. as_owner e = Some o' \<and> as_addrs e \<subseteq> as_addrs (asinfo st ! o'))"
proof -
  define rs where "rs = collect_pieces n None start en container st []"
  define fs where "fs = filter nonempty_range rs"
  have pok: "pieces_ok st rs" unfolding rs_def by (rule collect_pieces_ok [OF rng ok]) (simp add: pieces_ok_def)
  have addrs: "\<Union> (rg_addrs ` set rs) = {start .. en} \<inter> \<Union> (as_addrs ` (!) (asinfo st) ` containers st 0 container)"
    unfolding rs_def using collect_pieces_addrs [OF rng ok, of None n container "[]"] by (simp add: n_def)
  note en = as_add_containing_entries [OF run inv name sz plain pok [unfolded rs_def n_def],
    folded n_def, folded rs_def, folded fs_def]
  show "as_inv st'" "extends st st'" by (fact en(1), fact en(2))
  have made: "\<exists>r \<in> set fs. entry_of st' name r e" if e: "e \<in> set (drop n (asinfo st'))" for e
  proof -
    from e obtain k where "k < length fs" "e = asinfo st' ! (n + k)" by (auto simp: in_set_conv_nth en(3))
    then show ?thesis using en(4) nth_mem by blast
  qed
  have used: "\<exists>e \<in> set (drop n (asinfo st')). entry_of st' name r e" if r: "r \<in> set fs" for r
  proof -
    from r obtain k where k: "k < length fs" "fs ! k = r" by (auto simp: in_set_conv_nth)
    have "asinfo st' ! (n + k) \<in> set (drop n (asinfo st'))"
      using k(1) en(3) by (auto simp: in_set_conv_nth intro!: exI [of _ k])
    then show ?thesis using en(4) [OF k(1)] k(2) by blast
  qed
  have ea: "entry_of st' name r e \<Longrightarrow> as_addrs e = rg_addrs r" for r e
    by (simp add: entry_of_def as_addrs_def rg_addrs_def)
  have "\<Union> (as_addrs ` set (drop n (asinfo st'))) = \<Union> (rg_addrs ` set fs)"
    using made used ea by fastforce
  also have "\<dots> = \<Union> (rg_addrs ` set rs)" by (auto simp: fs_def rg_addrs_def nonempty_range_def) (metis order_trans)
  finally show "\<Union> (as_addrs ` set (drop n (asinfo st')))
         = {start .. en} \<inter> \<Union> (as_addrs ` (!) (asinfo st) ` containers st 0 container)"
    by (simp add: addrs)
  show "hwi_find_string (page st') (as_name e) = name \<and> as_start e \<le> as_end e
          \<and> (\<exists>o' < n. as_owner e = Some o' \<and> as_addrs e \<subseteq> as_addrs (asinfo st ! o'))"
    if "e \<in> set (drop n (asinfo st'))" for e
    using made [OF that] pok ea
    by (fastforce simp: pieces_ok_def in_owner_def entry_of_def nonempty_range_def n_def fs_def)
qed

section \<open>Properties\<close>

text \<open>
  A table with one entry, \<open>memory\<close>, for the concrete runs.  The flag values are those of
  QNX's \<open>sys/syspage.h\<close>; the model does not depend on them.
\<close>

definition sample_abi :: as_abi where
  "sample_abi = \<lparr>asinfo_entry_size = 48, AS_ATTR_KIDS = 0x20, AS_ATTR_CONTINUED = 0x40,
     AS_PRIORITY_DEFAULT = 100\<rparr>"

definition empty_lsp :: lsp where
  "empty_lsp = \<lparr>page = small_page, asinfo = []\<rparr>"

definition sample_lsp :: lsp where
  "sample_lsp = (case as_add sample_abi 0 0xfffffffff 0 (cs ''memory'') None empty_lsp of
     Inl _ \<Rightarrow> empty_lsp | Inr (_, st) \<Rightarrow> st)"

lemma empty_lsp_inv: "as_inv empty_lsp"
  by (simp add: as_inv_def empty_lsp_def small_page_inv owners_ok_def)

lemma valid_names [simp]:
  "valid_name (cs ''memory'')" "valid_name (cs ''ram'')" "valid_name (cs ''sysram'')" "valid_name (cs ''io'')"
  "valid_name (cs ''below4G'')" "valid_name (cs ''reserved'')"
  by (simp_all add: valid_name_def c_string_def cs_def of_char_def)

lemma sample_lsp_add: "as_add_entry sample_abi 0 0xfffffffff 0 (cs ''memory'') None empty_lsp = Inr (0, sample_lsp)"
proof -
  have "is_ok (as_add sample_abi 0 0xfffffffff 0 (cs ''memory'') None empty_lsp)" by code_simp
  then obtain off st where a: "as_add sample_abi 0 0xfffffffff 0 (cs ''memory'') None empty_lsp = Inr (off, st)"
    by (auto elim: is_okE)
  then have b: "as_add_entry sample_abi 0 0xfffffffff 0 (cs ''memory'') None empty_lsp = Inr (off, st)"
    by (simp add: as_add_plain)
  then have "off = 0" using as_add_entry_spec(2) [OF b empty_lsp_inv]
    by (simp add: sample_abi_def empty_lsp_def)
  then show ?thesis using a b by (simp add: sample_lsp_def)
qed

lemma sample_lsp_inv: "as_inv sample_lsp" "ranges_ok sample_lsp" "length (asinfo sample_lsp) = 1"
proof -
  have sz: "unat (asinfo_entry_size sample_abi) \<le> 2 ^ 30" by (simp add: sample_abi_def)
  note sp = as_add_entry_spec [OF sample_lsp_add empty_lsp_inv _ sz, simplified]
  show "as_inv sample_lsp" "length (asinfo sample_lsp) = 1" using sp(1,3) by simp_all
  then show "ranges_ok sample_lsp" using sp(6,7) by (auto simp: ranges_ok_def in_set_conv_nth)
qed

text \<open>\<open>as_add\<close> without the overlay flag appends one entry: its offset is the old end of the
  table, it has the range, owner and name asked for, the invariant is kept (names readable, owners
  earlier in the table), no other entry changes but for the attributes of the owner, and every
  name already in the table reads as before.\<close>

theorem as_add_appends:
  assumes "as_inv st" and "valid_name name" and "unat (asinfo_entry_size abi) \<le> 2 ^ 30"
    and "attr AND AS_OVERLAY_IO = 0" and "\<forall>o'. owner = Some o' \<longrightarrow> o' < length (asinfo st)"
    and "as_add abi start en attr name owner st = Inr (off, st')"
  shows "as_inv st' \<and> off = length (asinfo st) \<and> length (asinfo st') = Suc off
    \<and> as_addrs (asinfo st' ! off) = {start .. en} \<and> as_owner (asinfo st' ! off) = owner
    \<and> as_name_is st' off name
    \<and> (\<forall>i < off. same_entry (asinfo st ! i) (asinfo st' ! i)
         \<and> (\<forall>n. as_name_is st' i n \<longleftrightarrow> as_name_is st i n))"
proof -
  have add: "as_add_entry abi start en attr name owner st = Inr (off, st')"
    using assms(4,6) by (simp add: as_add_plain)
  note sp = as_add_entry_spec [OF add assms(1-3,5)]
  have "as_name_is st' i n \<longleftrightarrow> as_name_is st i n" if "i < off" for i n
  proof -
    have "as_name (asinfo st ! i) < strings_end (page st)" using that sp(2) assms(1) by (simp add: as_inv_def)
    then show ?thesis using sp(11) same_entryD(4) [OF sp(4) [OF that]] by (simp add: as_name_is_def)
  qed
  then show ?thesis using sp by (auto simp: as_addrs_def as_name_is_def)
qed

theorem as_add_appends_witness:
  "\<exists>st'. as_add sample_abi 0 0xfffffffff 0 (cs ''memory'') None empty_lsp = Inr (0, st') \<and> as_inv st'
     \<and> as_addrs (asinfo st' ! 0) = {0 .. 0xfffffffff} \<and> as_name_is st' 0 (cs ''memory'')"
proof -
  have "as_add sample_abi 0 0xfffffffff 0 (cs ''memory'') None empty_lsp = Inr (0, sample_lsp)"
    by (simp add: as_add_plain sample_lsp_add)
  from as_add_appends [OF empty_lsp_inv _ _ _ _ this] this show ?thesis by (simp add: sample_abi_def)
qed

text \<open>C3: \<open>as_add_containing\<close> adds entries that cover exactly the part of the range that the
  containers of the given name cover: no address is lost and none is added.  Every new entry
  carries the new name, is not inverted and lies inside the container that owns it; the
  invariant is kept and the old entries change at most in their attributes.\<close>

theorem as_add_containing_covers:
  assumes "as_inv st" and "ranges_ok st" and "valid_name name" and "unat (asinfo_entry_size abi) \<le> 2 ^ 30"
    and "attr AND AS_OVERLAY_IO = 0" and "start \<le> en" and "en \<noteq> - 1"
    and "as_add_containing abi start en attr name container st = Inr (so, st')"
  shows "as_inv st' \<and> ranges_ok st' \<and> extends st st'
    \<and> \<Union> (as_addrs ` set (drop (length (asinfo st)) (asinfo st')))
        = {start .. en} \<inter> \<Union> {as_addrs (asinfo st ! i) | i. i < length (asinfo st) \<and> match_name st i container}
    \<and> (\<forall>e \<in> set (drop (length (asinfo st)) (asinfo st')). hwi_find_string (page st') (as_name e) = name
         \<and> (\<exists>o' < length (asinfo st). as_owner e = Some o' \<and> as_addrs e \<subseteq> as_addrs (asinfo st ! o')))"
proof -
  note m = as_add_containing_plain [OF assms(8,1,3-7,2)]
  have "as_start e \<le> as_end e" if "e \<in> set (asinfo st')" for e
  proof -
    have "set (asinfo st') = set (take (length (asinfo st)) (asinfo st')) \<union> set (drop (length (asinfo st)) (asinfo st'))"
      by (simp flip: set_append)
    with that consider "e \<in> set (drop (length (asinfo st)) (asinfo st'))"
      | i where "i < length (asinfo st)" "e = asinfo st' ! i" by (auto simp: in_set_conv_nth)
    then show ?thesis
    proof cases
      case 2
      then have "same_entry (asinfo st ! i) e" using m(2) by (simp add: extends_def)
      then show ?thesis using 2(1) assms(2) by (auto simp: ranges_ok_def same_entryD(1,2))
    qed (use m(4) in blast)
  qed
  then have "ranges_ok st'" by (simp add: ranges_ok_def)
  moreover have "as_addrs ` (!) (asinfo st) ` containers st 0 container
      = {as_addrs (asinfo st ! i) | i. i < length (asinfo st) \<and> match_name st i container}"
    by (auto simp: containers_def)
  ultimately show ?thesis using m by metis
qed

theorem as_add_containing_covers_witness:
  "\<exists>so st'. as_add_containing sample_abi 0x1000 0x1fff 0 (cs ''ram'') (cs ''memory'') sample_lsp = Inr (so, st')
     \<and> as_inv st' \<and> extends sample_lsp st'"
proof -
  have "is_ok (as_add_containing sample_abi 0x1000 0x1fff 0 (cs ''ram'') (cs ''memory'') sample_lsp)" by code_simp
  then obtain so st' where
    run: "as_add_containing sample_abi 0x1000 0x1fff 0 (cs ''ram'') (cs ''memory'') sample_lsp = Inr (so, st')"
    by (auto elim: is_okE)
  show ?thesis
    using as_add_containing_covers [OF sample_lsp_inv(1,2) _ _ _ _ _ run] run by (auto simp: sample_abi_def)
qed

text \<open>What \<open>as_add\<close> stores \<open>as_find\<close> finds: when no earlier entry has the name, looking the
  name up from the start of the table returns the offset of the new entry.\<close>

theorem as_find_after_add:
  assumes "as_inv st" and "valid_name name" and "unat (asinfo_entry_size abi) \<le> 2 ^ 30"
    and "attr AND AS_OVERLAY_IO = 0" and "\<forall>o'. owner = Some o' \<longrightarrow> o' < length (asinfo st)"
    and "as_add abi start en attr name owner st = Inr (off, st')"
    and "\<forall>i < length (asinfo st). \<not> as_name_is st i name"
  shows "as_find None [name] st' = Inr (Some off)"
proof -
  have add: "as_add_entry abi start en attr name owner st = Inr (off, st')"
    using assms(4,6) by (simp add: as_add_plain)
  note sp = as_add_entry_spec [OF add assms(1-3,5)]
  have "\<not> as_name_is st' i name" if "i < off" for i
  proof -
    have "as_name (asinfo st ! i) < strings_end (page st)" using that sp(2) assms(1) by (simp add: as_inv_def)
    then show ?thesis
      using that sp(2,11) same_entryD(4) [OF sp(4) [OF that]] assms(7) by (simp add: as_name_is_def)
  qed
  then show ?thesis using sp(2,3,10) by (simp add: as_find_def scan_entries_Some as_name_is_def)
qed

theorem as_find_after_add_witness: "as_find None [cs ''memory''] sample_lsp = Inr (Some 0)"
  by (rule as_find_after_add [OF empty_lsp_inv, where name = "cs ''memory''" and abi = sample_abi and attr = 0
        and owner = None and start = 0 and en = "0xfffffffff"])
    (simp_all add: as_add_plain sample_lsp_add, simp_all add: sample_abi_def empty_lsp_def)

text \<open>\<open>as_find_containing\<close> returns the first entry behind \<open>off\<close> that carries the container's
  name, or has an ancestor that does, and shares an address with the range; it returns nothing
  exactly when there is none.\<close>

theorem as_find_containing_first:
  assumes "ranges_ok st" and "start \<le> en"
  shows "case as_find_containing off start en container st of
      Some j \<Rightarrow> first_index off \<le> j \<and> j < length (asinfo st) \<and> match_name st j container
        \<and> {start .. en} \<inter> as_addrs (asinfo st ! j) \<noteq> {}
        \<and> (\<forall>k < j. first_index off \<le> k \<and> match_name st k container
             \<longrightarrow> {start .. en} \<inter> as_addrs (asinfo st ! k) = {})
    | None \<Rightarrow> \<forall>k < length (asinfo st). first_index off \<le> k \<and> match_name st k container
             \<longrightarrow> {start .. en} \<inter> as_addrs (asinfo st ! k) = {}"
proof -
  have ov: "contains_range start en (asinfo st ! k) \<longleftrightarrow> {start .. en} \<inter> as_addrs (asinfo st ! k) \<noteq> {}"
    if "k < length (asinfo st)" for k
    using contains_range_iff [of start en "asinfo st ! k"] that assms by (auto simp: ranges_ok_def)
  show ?thesis
  proof (cases "as_find_containing off start en container st")
    case None
    then have "\<forall>k < length (asinfo st). first_index off \<le> k \<and> match_name st k container
       \<longrightarrow> {start .. en} \<inter> as_addrs (asinfo st ! k) = {}"
      using ov by (auto simp: as_find_containing_None)
    then show ?thesis by (simp add: None)
  next
    case (Some j)
    note j = Some [unfolded as_find_containing_Some]
    then have "\<forall>k < j. first_index off \<le> k \<and> match_name st k container
       \<longrightarrow> {start .. en} \<inter> as_addrs (asinfo st ! k) = {}"
      using ov by (metis order.strict_trans)
    moreover have "{start .. en} \<inter> as_addrs (asinfo st ! j) \<noteq> {}" using j ov by blast
    ultimately show ?thesis using j by (simp add: Some)
  qed
qed

theorem as_find_containing_first_witness:
  "as_find_containing None 0x1000 0x1fff (cs ''memory'') sample_lsp = Some 0 \<and> match_name sample_lsp 0 (cs ''memory'')"
proof -
  have "as_find_containing None 0x1000 0x1fff (cs ''memory'') sample_lsp = Some 0" by code_simp
  then show ?thesis
    using as_find_containing_first [OF sample_lsp_inv(2), where off = None and start = "0x1000" and en = "0x1fff"
        and container = "cs ''memory''"] by simp
qed

end
