(* ===== verification/Ram.thy ===== *)
theory Ram
  imports Asinfo
begin

text \<open>
  The RAM bookkeeping of the startup program (\<open>startup/lib/ram.c\<close>): a sorted list of free
  ranges, a list of ranges to avoid, first-fit and top-down searches, allocation by
  removing a range from the list, and the working-storage allocator.  The C arrays end
  with an entry of sz (end) zero; the model lists hold the entries before it, and every
  loop stops, as the C loops do, at an entry whose sz (end) is zero.
\<close>

section \<open>State\<close>

record ram_entry =
  ram_addr :: paddr_t
  ram_size :: paddr_t

record avoid_entry =
  av_start :: paddr_t
  av_end :: paddr_t

text \<open>
  \<open>avoid_set\<close> says that \<open>avoid_list\<close> is not NULL.  \<open>watch_list\<close> holds the watcher functions, newest first, and \<open>watch_calls\<close> the
  calls made to them.  \<open>mem\<close> is physical memory, which \<open>memset\<close> writes.
\<close>

record ram_state = lsp +
  ram_list :: "ram_entry list"
  avoid_list :: "avoid_entry list"
  avoid_set :: bool
  ws_early_next :: paddr_t
  sysram_added :: bool
  temp_syspage :: paddr_t
  watch_list :: "nat list"
  watch_calls :: "(nat \<times> paddr_t \<times> paddr_t) list"
  mem :: "paddr_t \<Rightarrow> u8"

text \<open>The startup header fields and globals the functions read.\<close>

record ram_env =
  abi :: as_abi
  full_ram_paddr :: paddr_t
  shdr_ram_size :: u32
  shdr_startup_size :: u32
  paddr_bias :: u32
  secure_system :: bool
  pagesize :: paddr_t

definition NULL_PADDR :: paddr_t where "NULL_PADDR = - 1"

definition ENTRY_BYTES :: nat where "ENTRY_BYTES = 16"
definition MAX_RAM_LIST_SIZE :: nat where "MAX_RAM_LIST_SIZE = 3 * 1024"
definition MAX_AVOID_LIST_SIZE :: nat where "MAX_AVOID_LIST_SIZE = 1024"
definition TEMP_SYSPAGE_SIZE :: u64 where "TEMP_SYSPAGE_SIZE = 48 * 1024"

text \<open>\<open>ram_list_size\<close> and \<open>avoid_list_size\<close> count the terminating entry too.\<close>

definition list_bytes :: "'a list \<Rightarrow> nat" where
  "list_bytes xs = ENTRY_BYTES * (length xs + 1)"

definition ram_end :: "ram_entry \<Rightarrow> paddr_t" where
  "ram_end r = ram_addr r + ram_size r"

section \<open>The free list\<close>

text \<open>The first loop of \<open>add_mem\<close>: the position before the first higher address.\<close>

fun insert_ram :: "ram_entry \<Rightarrow> ram_entry list \<Rightarrow> ram_entry list" where
  "insert_ram new [] = [new]"
| "insert_ram new (r # rs) =
     (if ram_size r = 0 \<or> ram_addr r > ram_addr new then new # r # rs
      else r # insert_ram new rs)"

text \<open>
  The second loop: \<open>prev\<close> is \<open>r[-1]\<close>.  When entry \<open>r\<close> is merged into it, \<open>r\<close> is deleted and
  the loop compares the merged entry with the one that follows.
\<close>

fun merge_ram :: "ram_entry \<Rightarrow> ram_entry list \<Rightarrow> ram_entry list" where
  "merge_ram prev [] = [prev]"
| "merge_ram prev (r # rs) =
     (if ram_size r = 0 then prev # r # rs
      else
        let e = ram_end prev; s = ram_addr r in
        if s \<le> e then
          merge_ram (prev\<lparr>ram_size := (if s + ram_size r > e then s + ram_size r else e) - ram_addr prev\<rparr>) rs
        else prev # merge_ram r rs)"

definition add_mem :: "paddr_t \<Rightarrow> paddr_t \<Rightarrow> ram_entry list \<Rightarrow> ram_entry list result" where
  "add_mem start sz ram =
     (if sz > 0 then
        if list_bytes ram > MAX_RAM_LIST_SIZE - ENTRY_BYTES then Inl Ram_entry_overflow
        else
          case insert_ram \<lparr>ram_addr = start, ram_size = sz\<rparr> ram of
            [] \<Rightarrow> Inr []
          | r # rs \<Rightarrow> Inr (merge_ram r rs)
      else Inr ram)"

section \<open>Avoided ranges\<close>

definition fix_size :: "paddr_t \<Rightarrow> paddr_t \<Rightarrow> paddr_t \<times> paddr_t \<Rightarrow> (paddr_t \<times> paddr_t) option" where
  "fix_size as ae se =
     (let s = fst se; e = snd se in
      if s \<ge> ae \<or> e \<le> as then Some (s, e)
      else if s \<ge> as then (if e \<le> ae then None else Some (ae, e))
      else if e < ae then Some (s, as)
      else if as - s > e - ae then Some (s, as)
      else Some (ae, e))"

fun fix_sizes :: "avoid_entry list \<Rightarrow> paddr_t \<times> paddr_t \<Rightarrow> (paddr_t \<times> paddr_t) option" where
  "fix_sizes [] se = Some se"
| "fix_sizes (a # as) se =
     (if av_end a = 0 then Some se
      else case fix_size (av_start a) (av_end a) se of
             None \<Rightarrow> None
           | Some se' \<Rightarrow> fix_sizes as se')"

section \<open>Searching\<close>

fun find_top_loop ::
    "paddr_t \<Rightarrow> paddr_t \<Rightarrow> paddr_t \<Rightarrow> avoid_entry list \<Rightarrow> ram_entry list \<Rightarrow> paddr_t \<Rightarrow> paddr_t" where
  "find_top_loop sz align limit av [] tp = tp"
| "find_top_loop sz align limit av (r # rs) tp =
     (if ram_size r = 0 then tp
      else case fix_sizes av (ram_addr r, ram_end r) of
        None \<Rightarrow> find_top_loop sz align limit av rs tp
      | Some (s, e) \<Rightarrow>
          if e - s \<ge> sz then
            let chk = (if align \<noteq> 0 then TRUNC (e - sz) align else e - sz) in
            if chk \<ge> s \<and> chk > tp then
              if chk + sz \<ge> limit then (if limit - sz < s then tp else limit - sz)
              else find_top_loop sz align limit av rs chk
            else find_top_loop sz align limit av rs tp
          else find_top_loop sz align limit av rs tp)"

definition find_top_ram_aligned_limit ::
    "paddr_t \<Rightarrow> u32 \<Rightarrow> u32 \<Rightarrow> paddr_t \<Rightarrow> 'a ram_state_scheme \<Rightarrow> paddr_t" where
  "find_top_ram_aligned_limit size0 align pgsize limit st =
     (if limit < size0 then NULL_PADDR
      else
        let sz = ROUND size0 (ucast pgsize);
            tp = find_top_loop sz (ucast align) limit (avoid_list st) (ram_list st) 0
        in if tp = 0 then NULL_PADDR else tp)"

definition find_top_ram_aligned :: "paddr_t \<Rightarrow> u32 \<Rightarrow> u32 \<Rightarrow> 'a ram_state_scheme \<Rightarrow> paddr_t" where
  "find_top_ram_aligned sz align pgsize st = find_top_ram_aligned_limit sz align pgsize (- 1) st"

definition find_top_ram :: "ram_env \<Rightarrow> paddr_t \<Rightarrow> 'a ram_state_scheme \<Rightarrow> paddr_t" where
  "find_top_ram env sz st = find_top_ram_aligned sz 0 (ucast (pagesize env)) st"

text \<open>
  The colour adjustment: \<open>mask\<close> and \<open>incr\<close> are 32-bit unsigned, so \<open>~mask\<close> is zero-extended
  when it meets the 64-bit address.
\<close>

definition adjust_colour :: "u32 \<Rightarrow> u32 \<Rightarrow> paddr_t \<Rightarrow> paddr_t" where
  "adjust_colour colour msk addr =
     (if addr AND ucast msk \<noteq> ucast colour
      then let incr = ((msk - 1) OR msk) + 1
           in ((addr + ucast incr) AND ucast (NOT msk)) OR ucast colour
      else addr)"

definition clip_start :: "paddr_t \<Rightarrow> paddr_t \<Rightarrow> paddr_t" where
  "clip_start range_start addr = (if range_start \<noteq> 0 \<and> addr < range_start then range_start else addr)"

definition clip_end :: "paddr_t \<Rightarrow> paddr_t \<Rightarrow> paddr_t" where
  "clip_end range_end e = (if range_end \<noteq> 0 \<and> e > range_end then range_end else e)"

fun find_in_range_loop ::
    "paddr_t \<Rightarrow> paddr_t \<Rightarrow> u64 \<Rightarrow> u32 \<Rightarrow> u32 \<Rightarrow> u32 \<Rightarrow> avoid_entry list \<Rightarrow> ram_entry list \<Rightarrow> paddr_t" where
  "find_in_range_loop rs re sz align colour msk av [] = NULL_PADDR"
| "find_in_range_loop rs re sz align colour msk av (r # ram) =
     (if ram_size r = 0 then NULL_PADDR
      else case fix_sizes av (ram_addr r, ram_end r) of
        None \<Rightarrow> find_in_range_loop rs re sz align colour msk av ram
      | Some (s, e0) \<Rightarrow>
          let addr = clip_start rs (adjust_colour colour msk (ROUND s (ucast align)));
              e = clip_end re e0
          in if addr \<ge> e then find_in_range_loop rs re sz align colour msk av ram
             else if sz \<le> e - addr then addr
             else find_in_range_loop rs re sz align colour msk av ram)"

definition find_ram_in_range ::
    "paddr_t \<Rightarrow> paddr_t \<Rightarrow> u64 \<Rightarrow> u32 \<Rightarrow> u32 \<Rightarrow> u32 \<Rightarrow> 'a ram_state_scheme \<Rightarrow> paddr_t" where
  "find_ram_in_range rs re sz align colour msk st =
     find_in_range_loop rs re sz align colour msk (avoid_list st) (ram_list st)"

definition find_ram :: "u64 \<Rightarrow> u32 \<Rightarrow> u32 \<Rightarrow> u32 \<Rightarrow> 'a ram_state_scheme \<Rightarrow> paddr_t" where
  "find_ram sz align colour msk st = find_ram_in_range 0 (- 1) sz align colour msk st"

section \<open>Allocating\<close>

definition memset :: "paddr_t \<Rightarrow> u8 \<Rightarrow> u64 \<Rightarrow> (paddr_t \<Rightarrow> u8) \<Rightarrow> paddr_t \<Rightarrow> u8" where
  "memset p v n m a = (if a - p < n then v else m a)"

text \<open>\<open>MAKE_1TO1_PTR(p)\<close>; the pointer is used as an address of the identity-mapped memory.\<close>

definition make_1to1 :: "ram_env \<Rightarrow> paddr_t \<Rightarrow> paddr_t" where
  "make_1to1 env p = p + ucast (paddr_bias env)"

text \<open>The test for an entry that meets the allocated range.\<close>

definition alloc_hits :: "paddr_t \<Rightarrow> paddr_t \<Rightarrow> paddr_t \<Rightarrow> paddr_t \<Rightarrow> bool" where
  "alloc_hits addr en s e \<longleftrightarrow> (addr \<le> s \<and> en > s) \<or> (addr \<ge> s \<and> addr < e) \<or> (en \<ge> s \<and> en < e)"

text \<open>
  The loop over the free list, by index because \<open>add_mem\<close> edits the list while the loop is
  running.  Deleting entry \<open>i\<close> keeps the index (\<open>--r\<close> then \<open>r++\<close>).  One round is spent on
  each entry and one more on each entry that \<open>add_mem\<close> inserts, so twice the length and one
  is enough fuel (\<open>alloc_ram_loop_spec\<close>).
\<close>

primrec alloc_ram_loop ::
    "nat \<Rightarrow> nat \<Rightarrow> paddr_t \<Rightarrow> paddr_t \<Rightarrow> ram_entry list \<Rightarrow> ram_entry list result" where
  "alloc_ram_loop 0 i addr en ram = Inl Diverges"
| "alloc_ram_loop (Suc fuel) i addr en ram =
     (if i \<ge> length ram \<or> ram_size (ram ! i) = 0 then Inr ram
      else
        let r = ram ! i; s0 = ram_addr r; e0 = ram_end r in
        if alloc_hits addr en s0 e0 then
          let e = (if en > e0 then en else e0);
              s = (if addr < s0 then addr else s0) in
          if addr = s \<and> en = e then
            alloc_ram_loop fuel i addr en (take i ram @ drop (Suc i) ram)
          else if addr = s then
            alloc_ram_loop fuel (Suc i) addr en (ram[i := \<lparr>ram_addr = en, ram_size = e - en\<rparr>])
          else
            let ram' = ram[i := r\<lparr>ram_size := addr - s\<rparr>] in
            if e \<noteq> en then
              bind_result (add_mem en (e - en) ram') (\<lambda>ram. alloc_ram_loop fuel (Suc i) addr en ram)
            else alloc_ram_loop fuel (Suc i) addr en ram'
        else alloc_ram_loop fuel (Suc i) addr en ram)"

text \<open>The adjustment of the \<open>sysram\<close> entries once \<open>add_sysram\<close> has been called.\<close>

primrec alloc_sysram_loop ::
    "nat \<Rightarrow> ram_env \<Rightarrow> nat option \<Rightarrow> paddr_t \<Rightarrow> paddr_t \<Rightarrow> 'a ram_state_scheme \<Rightarrow> 'a ram_state_scheme result" where
  "alloc_sysram_loop 0 env off addr en st = Inl Diverges"
| "alloc_sysram_loop (Suc fuel) env off addr en st =
     (case as_find_containing off addr en (cs ''sysram'') st of
        None \<Rightarrow> Inr st
      | Some i \<Rightarrow>
          let as = asinfo st ! i;
              e = (if en > as_end as then en else as_end as);
              s = (if addr < as_start as then addr else as_start as) in
          if addr = s \<and> en = e then Inl Remove_whole_sysram
          else if addr = s then
            alloc_sysram_loop fuel env (Some i) addr en
              (st\<lparr>asinfo := (asinfo st)[i := as\<lparr>as_start := en + 1\<rparr>]\<rparr>)
          else
            let st = st\<lparr>asinfo := (asinfo st)[i := as\<lparr>as_end := addr - 1\<rparr>]\<rparr> in
            if e \<noteq> en then
              bind_result (as_add (abi env) (en + 1) e AS_ATTR_RAM (cs ''sysram'') (as_owner as) st)
                (\<lambda>(_, st). alloc_sysram_loop fuel env (Some i) addr en st)
            else alloc_sysram_loop fuel env (Some i) addr en st)"

text \<open>The part of \<open>alloc_ram\<close> behind the choice of the address.\<close>

definition take_ram :: "ram_env \<Rightarrow> paddr_t \<Rightarrow> paddr_t \<Rightarrow> 'a ram_state_scheme \<Rightarrow> 'a ram_state_scheme result" where
  "take_ram env addr sz st =
     bind_result (alloc_ram_loop (2 * length (ram_list st) + 2) 0 addr (addr + sz) (ram_list st)) (\<lambda>ram.
       let st = st\<lparr>ram_list := ram\<rparr> in
       if sysram_added st
       then alloc_sysram_loop (2 * length (asinfo st) + 1) env None addr (addr + sz - 1) st
       else Inr st)"

definition alloc_ram ::
    "ram_env \<Rightarrow> paddr_t \<Rightarrow> paddr_t \<Rightarrow> u32 \<Rightarrow> 'a ram_state_scheme \<Rightarrow> (paddr_t \<times> 'a ram_state_scheme) result" where
  "alloc_ram env addr0 sz align st =
     (if addr0 = NULL_PADDR then
        let addr = find_ram sz align 0 0 st in
        if addr = NULL_PADDR then Inr (NULL_PADDR, st)
        else
          let st = (if secure_system env
                    then st\<lparr>mem := memset (make_1to1 env (ucast (ucast addr :: u32))) 0 sz (mem st)\<rparr> else st)
          in bind_result (take_ram env addr sz st) (\<lambda>st. Inr (addr, st))
      else bind_result (take_ram env addr0 sz st) (\<lambda>st. Inr (addr0, st)))"

definition calloc_ram ::
    "ram_env \<Rightarrow> u64 \<Rightarrow> u32 \<Rightarrow> 'a ram_state_scheme \<Rightarrow> (paddr_t \<times> 'a ram_state_scheme) result" where
  "calloc_ram env sz align st =
     bind_result (alloc_ram env NULL_PADDR sz align st) (\<lambda>(a, st).
       if a \<noteq> NULL_PADDR \<and> \<not> secure_system env
       then Inr (a, st\<lparr>mem := memset (make_1to1 env a) 0 sz (mem st)\<rparr>)
       else Inr (a, st))"

section \<open>Avoid list and working storage\<close>

text \<open>
  \<open>avoid_ram\<close> behind its NULL test.  \<open>avoid[-2]\<close> is the last entry of the list; \<open>ws_init\<close>
  puts a first entry there before anything else is added.
\<close>

definition avoid_more :: "paddr_t \<Rightarrow> u64 \<Rightarrow> 'a ram_state_scheme \<Rightarrow> 'a ram_state_scheme result" where
  "avoid_more start sz st =
     (let av = avoid_list st;
          av' = (if av \<noteq> [] \<and> av_end (last av) = start
                 then butlast av @ [(last av)\<lparr>av_end := av_end (last av) + sz\<rparr>]
                 else av @ [\<lparr>av_start = start, av_end = start + sz\<rparr>])
      in if list_bytes av' > MAX_AVOID_LIST_SIZE then Inl Avoid_entry_overflow
         else Inr (st\<lparr>avoid_list := av'\<rparr>))"

text \<open>\<open>ws_alloc\<close> behind its NULL test; \<open>None\<close> is a NULL result.\<close>

definition ws_take :: "u64 \<Rightarrow> 'a ram_state_scheme \<Rightarrow> (paddr_t option \<times> 'a ram_state_scheme) result" where
  "ws_take sz0 st =
     (let sz = ROUND sz0 8 in
      if list_bytes (ram_list st) \<le> ENTRY_BYTES then
        bind_result (avoid_more (ws_early_next st) sz (st\<lparr>ws_early_next := ws_early_next st + sz\<rparr>))
          (\<lambda>st'. Inr (Some (ws_early_next st), st'))
      else
        let paddr = find_ram sz 8 0 0 st in
        if paddr = NULL_PADDR then Inr (None, st)
        else bind_result (avoid_more paddr sz st) (\<lambda>st'. Inr (Some paddr, st')))"

definition ws_init :: "ram_env \<Rightarrow> 'a ram_state_scheme \<Rightarrow> 'a ram_state_scheme result" where
  "ws_init env st =
     (let next = ROUND (full_ram_paddr env + ucast (shdr_ram_size env)) 8;
          next' = next + ROUND (of_nat MAX_AVOID_LIST_SIZE) 8;
          st = st\<lparr>avoid_list := [\<lparr>av_start = next, av_end = next'\<rparr>], avoid_set := True,
                  ws_early_next := next', ram_list := []\<rparr>
      in bind_result (ws_take (of_nat MAX_RAM_LIST_SIZE) st) (\<lambda>(_, st).
         avoid_more (full_ram_paddr env) (ucast (shdr_startup_size env)) st))"

definition avoid_ram :: "ram_env \<Rightarrow> paddr_t \<Rightarrow> u64 \<Rightarrow> 'a ram_state_scheme \<Rightarrow> 'a ram_state_scheme result" where
  "avoid_ram env start sz st =
     bind_result (if avoid_set st then Inr st else ws_init env st) (avoid_more start sz)"

definition ws_alloc :: "ram_env \<Rightarrow> u64 \<Rightarrow> 'a ram_state_scheme \<Rightarrow> (paddr_t option \<times> 'a ram_state_scheme) result" where
  "ws_alloc env sz st =
     bind_result (if avoid_set st then Inr st else ws_init env st) (\<lambda>st.
     bind_result (ws_take sz st) (\<lambda>(p, st). Inr (map_option (make_1to1 env) p, st)))"

definition watch_add_ram :: "ram_env \<Rightarrow> nat \<Rightarrow> 'a ram_state_scheme \<Rightarrow> 'a ram_state_scheme result" where
  \<comment> \<open>16 is the size of \<open>struct watch_entry\<close>, two pointers.\<close>
  "watch_add_ram env func st =
     bind_result (ws_alloc env 16 st) (\<lambda>(p, st).
       if p = None then Inl No_memory_for_watcher
       else Inr (st\<lparr>watch_list := func # watch_list st\<rparr>))"

section \<open>Adding RAM\<close>

definition call_watchers :: "paddr_t \<Rightarrow> paddr_t \<Rightarrow> 'a ram_state_scheme \<Rightarrow> 'a ram_state_scheme" where
  "call_watchers start sz st =
     st\<lparr>watch_calls := watch_calls st @ map (\<lambda>w. (w, start, sz)) (watch_list st)\<rparr>"

text \<open>
  \<open>as_default\<close>: the whole physical address space, whose size the CPU reports in the low
  bits of \<open>id_aa64mmfr0_el1\<close> (\<open>mmfr0\<close>).
\<close>

definition pa_bits :: "u64 \<Rightarrow> nat" where
  "pa_bits mmfr0 = [32, 36, 40, 42, 44, 48, 48, 48] ! unat (mmfr0 AND 0x7)"

definition as_default :: "as_abi \<Rightarrow> u64 \<Rightarrow> 'a lsp_scheme \<Rightarrow> (nat \<times> 'a lsp_scheme) result" where
  "as_default a mmfr0 st = as_add a 0 (push_bit (pa_bits mmfr0) 1 - 1) 0 (cs ''memory'') None st"

definition add_default_as :: "ram_env \<Rightarrow> u64 \<Rightarrow> 'a ram_state_scheme \<Rightarrow> 'a ram_state_scheme result" where
  \<comment> \<open>The board's \<open>init_asinfo\<close> (\<open>boards/bcm2711/init_asinfo.c\<close>) is empty.\<close>
  "add_default_as env mmfr0 st =
     (if asinfo st = [] then
        bind_result (as_default (abi env) mmfr0 st) (\<lambda>(m, st).
        bind_result (as_add (abi env) 0 (0x100000000 - 1) 0 (cs ''below4G'') (Some m) st) (\<lambda>(_, st). Inr st))
      else Inr st)"

definition place_temp_syspage :: "ram_env \<Rightarrow> 'a ram_state_scheme \<Rightarrow> 'a ram_state_scheme result" where
  "place_temp_syspage env st =
     (if temp_syspage st = NULL_PADDR then
        let p = find_ram TEMP_SYSPAGE_SIZE 4096 0 0 st; st = st\<lparr>temp_syspage := p\<rparr> in
        if p \<noteq> NULL_PADDR then
          bind_result (avoid_ram env p TEMP_SYSPAGE_SIZE st) (\<lambda>st.
            Inr (st\<lparr>page := reloc_syspage_memory (ucast TEMP_SYSPAGE_SIZE) (page st)\<rparr>))
        else Inr st
      else Inr st)"

definition add_ram :: "ram_env \<Rightarrow> u64 \<Rightarrow> paddr_t \<Rightarrow> paddr_t \<Rightarrow> 'a ram_state_scheme \<Rightarrow> 'a ram_state_scheme result" where
  "add_ram env mmfr0 start sz st =
     bind_result (add_default_as env mmfr0 st) (\<lambda>st.
     bind_result (as_add_containing (abi env) start (start + sz - 1) AS_ATTR_RAM (cs ''ram'') (cs ''memory'') st) (\<lambda>(_, st).
     bind_result (add_mem start sz (ram_list st)) (\<lambda>ram.
     bind_result (alloc_ram env (full_ram_paddr env + ucast (shdr_startup_size env))
                    (ucast (shdr_ram_size env - shdr_startup_size env)) 1 (st\<lparr>ram_list := ram\<rparr>)) (\<lambda>(_, st).
     bind_result (place_temp_syspage env st) (\<lambda>st.
       Inr (call_watchers start sz st))))))"

fun add_sysram_entries :: "ram_env \<Rightarrow> ram_entry list \<Rightarrow> 'a ram_state_scheme \<Rightarrow> 'a ram_state_scheme result" where
  "add_sysram_entries env [] st = Inr st"
| "add_sysram_entries env (r # rs) st =
     (if ram_size r = 0 then Inr st
      else bind_result (as_add_containing (abi env) (ram_addr r) (ram_addr r + ram_size r - 1)
                          AS_ATTR_RAM (cs ''sysram'') (cs ''ram'') st)
             (\<lambda>(_, st). add_sysram_entries env rs st))"

definition add_sysram :: "ram_env \<Rightarrow> 'a ram_state_scheme \<Rightarrow> 'a ram_state_scheme result" where
  "add_sysram env st =
     (let st = call_watchers 0 0 st in
      bind_result (add_sysram_entries env (ram_list st) st) (\<lambda>st. Inr (st\<lparr>sysram_added := True\<rparr>)))"

definition reserve_ram ::
    "ram_env \<Rightarrow> u32 \<Rightarrow> u32 \<Rightarrow> u8 list \<Rightarrow> u32 \<Rightarrow> u32 \<Rightarrow> 'a ram_state_scheme \<Rightarrow> 'a ram_state_scheme result" where
  "reserve_ram env sz align name pgsize low_region st =
     (if sz = 0 then Inr st
      else
        let al = (if align \<noteq> 0 then align else pgsize);
            found = (if low_region = 0 then find_top_ram_aligned (ucast sz) al pgsize st else NULL_PADDR) in
        if low_region = 0 \<and> found = NULL_PADDR then Inl Could_not_reserve_top
        else bind_result (alloc_ram env found (ucast sz) al st) (\<lambda>(reserved, st).
          if reserved = NULL_PADDR then Inl Could_not_reserve
          else bind_result (as_add_containing (abi env) reserved (reserved + ucast sz - 1) AS_ATTR_RAM
                              (if name = [] then cs ''reserved'' else name) (cs ''ram'') st)
                 (\<lambda>(_, st). Inr st)))"

end
