(* ===== verification/Ram_List.thy ===== *)
theory Ram_List
  imports Ram
begin

text \<open>
  The free list of \<open>ram.c\<close> as a set of addresses.  A well-formed list is sorted, without
  empty entries and with a gap between neighbours.  \<open>add_mem\<close> adds a range to the set and
  merges what touches; the loop of \<open>alloc_ram\<close> takes a range out of it, whatever entries
  the range meets, and ends within the fuel the model gives it.
\<close>

section \<open>The free list as a set of addresses\<close>

definition ram_lo :: "ram_entry \<Rightarrow> nat" where "ram_lo r = unat (ram_addr r)"
definition ram_hi :: "ram_entry \<Rightarrow> nat" where "ram_hi r = unat (ram_addr r) + unat (ram_size r)"

definition ram_ivl :: "ram_entry \<Rightarrow> nat set" where
  "ram_ivl r = {ram_lo r ..< ram_hi r}"

definition ram_set :: "ram_entry list \<Rightarrow> nat set" where
  "ram_set l = (\<Union>r \<in> set l. ram_ivl r)"

definition ok_entry :: "ram_entry \<Rightarrow> bool" where
  "ok_entry r \<longleftrightarrow> ram_size r \<noteq> 0 \<and> ram_hi r < 2 ^ 64"

text \<open>The entries are sorted, and between two of them there is a gap.\<close>

definition wf_ram :: "ram_entry list \<Rightarrow> bool" where
  "wf_ram l \<longleftrightarrow> (\<forall>r \<in> set l. ok_entry r) \<and> sorted_wrt (\<lambda>a b. ram_hi a < ram_lo b) l"

lemma ram_set_simps [simp]:
  "ram_set [] = {}" "ram_set (r # l) = ram_ivl r \<union> ram_set l" "ram_set (l @ l') = ram_set l \<union> ram_set l'"
  by (auto simp: ram_set_def)

lemma ok_entryD:
  assumes "ok_entry r"
  shows "ram_size r \<noteq> 0" and "unat (ram_end r) = ram_hi r" and "ram_lo r < ram_hi r" and "ram_hi r < 2 ^ 64"
  using assms by (auto simp: ok_entry_def ram_hi_def ram_lo_def ram_end_def unat_add_noov unat_gt_0)

lemma ram_hi_lo: "ram_hi r = ram_lo r + unat (ram_size r)"
  by (simp add: ram_hi_def ram_lo_def)

lemma wf_ram_Nil [simp]: "wf_ram []"
  by (simp add: wf_ram_def)

lemma wf_ram_Cons:
  "wf_ram (r # l) \<longleftrightarrow> ok_entry r \<and> (\<forall>r' \<in> set l. ram_hi r < ram_lo r') \<and> wf_ram l"
  by (auto simp: wf_ram_def)

lemma wf_ram_append:
  "wf_ram (l @ l') \<longleftrightarrow> wf_ram l \<and> wf_ram l' \<and> (\<forall>a \<in> set l. \<forall>b \<in> set l'. ram_hi a < ram_lo b)"
  by (auto simp: wf_ram_def sorted_wrt_append)

subsection \<open>Merging and inserting\<close>

definition sorted_ram :: "ram_entry list \<Rightarrow> bool" where
  "sorted_ram l \<longleftrightarrow> (\<forall>r \<in> set l. ok_entry r) \<and> sorted_wrt (\<lambda>a b. ram_lo a \<le> ram_lo b) l"

text \<open>The entry two overlapping or touching neighbours are merged into.\<close>

lemma merge_two:
  assumes "ok_entry p" and "ok_entry r" and "ram_lo p \<le> ram_lo r" and le: "ram_addr r \<le> ram_end p"
  defines "m \<equiv> p\<lparr>ram_size := (if ram_addr r + ram_size r > ram_end p then ram_addr r + ram_size r else ram_end p) - ram_addr p\<rparr>"
  shows "ok_entry m" and "ram_lo m = ram_lo p" and "ram_ivl m = ram_ivl p \<union> ram_ivl r"
proof -
  note p = ok_entryD [OF assms(1)] and r = ok_entryD [OF assms(2)]
  have hi: "unat (if ram_addr r + ram_size r > ram_end p then ram_addr r + ram_size r else ram_end p)
      = max (ram_hi p) (ram_hi r)"
    using p(2) r(2) by (auto simp: ram_end_def word_order_nat max_def)
  have "unat (ram_addr p) \<le> max (ram_hi p) (ram_hi r)" using p(3) by (simp add: ram_lo_def)
  then have sz: "unat (ram_size m) = max (ram_hi p) (ram_hi r) - ram_lo p"
    using hi by (simp add: m_def unat_sub_le ram_lo_def)
  show lo: "ram_lo m = ram_lo p" by (simp add: m_def ram_lo_def)
  have hm: "ram_hi m = max (ram_hi p) (ram_hi r)"
    using sz p(3) lo by (simp add: ram_hi_lo [of m])
  show "ok_entry m" using hm sz p(3,4) r(4) by (auto simp: ok_entry_def simp flip: unat_eq_0_iff)
  have "ram_lo r \<le> ram_hi p" using le p(2) by (simp add: ram_lo_def word_order_nat)
  then show "ram_ivl m = ram_ivl p \<union> ram_ivl r"
    using assms(3) p(3) r(3) by (auto simp: ram_ivl_def lo hm)
qed

lemma merge_ram_spec:
  "sorted_ram (p # rs) \<Longrightarrow> wf_ram (merge_ram p rs) \<and> ram_set (merge_ram p rs) = ram_set (p # rs)
     \<and> (\<forall>r \<in> set (merge_ram p rs). ram_lo p \<le> ram_lo r) \<and> length (merge_ram p rs) \<le> Suc (length rs)"
proof (induction rs arbitrary: p)
  case Nil
  then show ?case by (simp add: sorted_ram_def wf_ram_def)
next
  case (Cons r rs)
  have ok: "ok_entry p" "ok_entry r" "ram_lo p \<le> ram_lo r" using Cons.prems by (simp_all add: sorted_ram_def)
  note p = ok_entryD [OF ok(1)] and r = ok_entryD [OF ok(2)]
  show ?case
  proof (cases "ram_addr r \<le> ram_end p")
    case True
    define m where "m = p\<lparr>ram_size := (if ram_addr r + ram_size r > ram_end p then ram_addr r + ram_size r else ram_end p) - ram_addr p\<rparr>"
    note mt = merge_two [OF ok True, folded m_def]
    have "sorted_ram (m # rs)" using Cons.prems mt(1,2) by (simp add: sorted_ram_def)
    note IH = Cons.IH [OF this]
    have "merge_ram p (r # rs) = merge_ram m rs" using True r(1) by (simp only: merge_ram.simps Let_def if_False if_True m_def)
    then show ?thesis using IH mt(2,3) by (simp add: Un_assoc)
  next
    case False
    then have eq: "merge_ram p (r # rs) = p # merge_ram r rs" using r(1) by (simp add: Let_def)
    have gap: "ram_hi p < ram_lo r" using False p(2) by (simp add: ram_lo_def word_order_nat)
    have "sorted_ram (r # rs)" using Cons.prems by (simp add: sorted_ram_def)
    note IH = Cons.IH [OF this]
    have "\<forall>r' \<in> set (merge_ram r rs). ram_hi p < ram_lo r' \<and> ram_lo p \<le> ram_lo r'"
      using IH gap ok(3) by (meson order.strict_trans2 order_trans)
    then show ?thesis using IH eq ok(1) by (simp add: wf_ram_Cons)
  qed
qed

lemma wf_ram_sorted: "wf_ram l \<Longrightarrow> sorted_ram l"
proof (induction l)
  case (Cons r l)
  then have "ram_lo r < ram_hi r" and "\<forall>r' \<in> set l. ram_hi r < ram_lo r'"
    by (auto simp: wf_ram_Cons dest: ok_entryD(3))
  then show ?case using Cons by (auto simp: wf_ram_Cons sorted_ram_def)
qed (simp add: sorted_ram_def)

lemma insert_ram_spec:
  assumes "wf_ram l" and "ok_entry new"
  shows "sorted_ram (insert_ram new l) \<and> ram_set (insert_ram new l) = ram_ivl new \<union> ram_set l
    \<and> set (insert_ram new l) = insert new (set l) \<and> length (insert_ram new l) = Suc (length l)"
  using assms(1)
proof (induction l)
  case Nil
  then show ?case using assms(2) by (simp add: sorted_ram_def)
next
  case (Cons r rs)
  then have ok: "ok_entry r" "wf_ram rs" "\<forall>r' \<in> set rs. ram_hi r < ram_lo r'" by (auto simp: wf_ram_Cons)
  have up: "\<forall>r' \<in> set rs. ram_lo r \<le> ram_lo r'" using ok(3) ok_entryD(3) [OF ok(1)] by fastforce
  have srt: "sorted_ram (r # rs)" by (rule wf_ram_sorted [OF Cons.prems])
  show ?case
  proof (cases "ram_addr r > ram_addr new")
    case True
    then have "ram_lo new < ram_lo r" by (simp add: ram_lo_def word_order_nat)
    then have "\<forall>r' \<in> set (r # rs). ram_lo new \<le> ram_lo r'" using up by fastforce
    then show ?thesis using True srt assms(2) by (simp add: sorted_ram_def)
  next
    case False
    then have "ram_lo r \<le> ram_lo new" by (simp add: ram_lo_def word_order_nat)
    then show ?thesis using False Cons.IH [OF ok(2)] up ok(1) ok_entryD(1) [OF ok(1)]
      by (simp add: sorted_ram_def Un_left_commute insert_commute)
  qed
qed

lemma add_mem_spec:
  assumes "wf_ram l" and "unat start + unat sz < 2 ^ 64"
  shows "add_mem start sz l = Inr l' \<Longrightarrow> wf_ram l' \<and> ram_set l' = ram_set l \<union> {unat start ..< unat start + unat sz}
      \<and> length l' \<le> Suc (length l)"
    and "add_mem start sz l = Inl e \<longleftrightarrow> e = Ram_entry_overflow \<and> sz \<noteq> 0 \<and> 191 \<le> length l"
proof -
  let ?new = "\<lparr>ram_addr = start, ram_size = sz\<rparr>"
  have iv: "ram_ivl ?new = {unat start ..< unat start + unat sz}" by (simp add: ram_ivl_def ram_lo_def ram_hi_def)
  show "wf_ram l' \<and> ram_set l' = ram_set l \<union> {unat start ..< unat start + unat sz} \<and> length l' \<le> Suc (length l)"
    if add: "add_mem start sz l = Inr l'"
  proof (cases "sz = 0")
    case True
    then show ?thesis using add assms by (simp add: add_mem_def)
  next
    case False
    have "ok_entry ?new" using False assms(2) by (simp add: ok_entry_def ram_hi_def)
    note ins = insert_ram_spec [OF assms(1) this]
    obtain r rs where rs: "insert_ram ?new l = r # rs" using ins by (cases "insert_ram ?new l") auto
    then have "l' = merge_ram r rs" using add False by (auto simp: add_mem_def word_neq_0_conv split: if_splits)
    then show ?thesis using merge_ram_spec [of r rs] ins rs iv by auto
  qed
  have "insert_ram ?new l \<noteq> []" by (cases l) auto
  then show "add_mem start sz l = Inl e \<longleftrightarrow> e = Ram_entry_overflow \<and> sz \<noteq> 0 \<and> 191 \<le> length l"
    by (auto simp: add_mem_def list_bytes_def MAX_RAM_LIST_SIZE_def ENTRY_BYTES_def word_neq_0_conv
        split: list.splits)
qed

subsection \<open>Removing a range\<close>

lemma merge_ram_id: "wf_ram (r # rs) \<Longrightarrow> merge_ram r rs = r # rs"
proof (induction rs arbitrary: r)
  case (Cons r' rs)
  have "ok_entry r" "ok_entry r'" "ram_hi r < ram_lo r'" using Cons.prems by (auto simp: wf_ram_Cons)
  then have "\<not> ram_addr r' \<le> ram_end r" "ram_size r' \<noteq> 0"
    by (auto simp: word_order_nat ram_lo_def dest: ok_entryD)
  then show ?case using Cons by (simp add: wf_ram_Cons Let_def)
qed simp

lemma insert_ram_at: "wf_ram (pre @ new # suf) \<Longrightarrow> insert_ram new (pre @ suf) = pre @ new # suf"
proof (induction pre)
  case Nil
  show ?case
  proof (cases suf)
    case (Cons r rs)
    then have "ok_entry new" "ram_hi new < ram_lo r" using Nil by (simp_all add: wf_ram_Cons)
    then show ?thesis using Cons by (auto simp: ram_lo_def word_order_nat dest: ok_entryD(3))
  qed simp
next
  case (Cons p pre)
  have "ok_entry p" "ram_hi p < ram_lo new" using Cons.prems by (simp_all add: wf_ram_Cons)
  then have "\<not> (ram_size p = 0 \<or> ram_addr p > ram_addr new)"
    by (auto simp: ram_lo_def word_order_nat dest: ok_entryD)
  then show ?case using Cons by (simp add: wf_ram_Cons)
qed

text \<open>An entry that fits into a gap is inserted there and merged with nothing.\<close>

lemma add_mem_at:
  assumes "wf_ram (pre @ new # suf)" and "length (pre @ suf) \<le> 190"
  shows "add_mem (ram_addr new) (ram_size new) (pre @ suf) = Inr (pre @ new # suf)"
proof -
  have nz: "ram_size new > 0" using assms(1) by (auto simp: wf_ram_def word_neq_0_conv dest: ok_entryD)
  obtain r rs where rs: "pre @ new # suf = r # rs" by (cases pre) auto
  have "insert_ram \<lparr>ram_addr = ram_addr new, ram_size = ram_size new\<rparr> (pre @ suf) = r # rs"
    using insert_ram_at [OF assms(1)] rs by (cases new) simp
  then show ?thesis
    using assms nz rs merge_ram_id [of r rs]
    by (simp add: add_mem_def list_bytes_def MAX_RAM_LIST_SIZE_def ENTRY_BYTES_def)
qed

text \<open>One round of the loop, by where the entry lies.\<close>

lemma alloc_round:
  fixes addr en :: paddr_t
  assumes "ram_size r \<noteq> 0"
  shows "\<not> alloc_hits addr en (ram_addr r) (ram_end r) \<Longrightarrow>
      alloc_ram_loop (Suc f) (length pre) addr en (pre @ r # suf)
      = alloc_ram_loop f (length (pre @ [r])) addr en ((pre @ [r]) @ suf)"
    and "addr \<le> ram_addr r \<Longrightarrow> ram_addr r < en \<Longrightarrow> ram_end r \<le> en \<Longrightarrow>
      alloc_ram_loop (Suc f) (length pre) addr en (pre @ r # suf) = alloc_ram_loop f (length pre) addr en (pre @ suf)"
    and "addr \<le> ram_addr r \<Longrightarrow> ram_addr r \<le> en \<Longrightarrow> en < ram_end r \<Longrightarrow>
      alloc_ram_loop (Suc f) (length pre) addr en (pre @ r # suf)
      = (let r' = \<lparr>ram_addr = en, ram_size = ram_end r - en\<rparr> in
         alloc_ram_loop f (length (pre @ [r'])) addr en ((pre @ [r']) @ suf))"
    and "ram_addr r < addr \<Longrightarrow> addr < ram_end r \<Longrightarrow> ram_end r \<le> en \<Longrightarrow>
      alloc_ram_loop (Suc f) (length pre) addr en (pre @ r # suf)
      = (let r' = r\<lparr>ram_size := addr - ram_addr r\<rparr> in
         alloc_ram_loop f (length (pre @ [r'])) addr en ((pre @ [r']) @ suf))"
    and "ram_addr r < addr \<Longrightarrow> addr < en \<Longrightarrow> en < ram_end r \<Longrightarrow>
      alloc_ram_loop (Suc f) (length pre) addr en (pre @ r # suf)
      = (let r' = r\<lparr>ram_size := addr - ram_addr r\<rparr> in
         bind_result (add_mem en (ram_end r - en) ((pre @ [r']) @ suf))
           (alloc_ram_loop f (length (pre @ [r'])) addr en))"
  using assms by (auto simp: alloc_hits_def Let_def)

text \<open>Nothing changes once the entries lie behind the range.\<close>

lemma alloc_tail:
  assumes "wf_ram suf" and "\<forall>r \<in> set suf. unat en \<le> ram_lo r" and "addr \<le> en" and "length suf < fuel"
  shows "alloc_ram_loop fuel (length pre) addr en (pre @ suf) = Inr (pre @ suf)"
  using assms(1,2,4)
proof (induction suf arbitrary: pre fuel)
  case Nil
  then show ?case by (cases fuel) simp_all
next
  case (Cons r suf)
  obtain f where fuel: "fuel = Suc f" and f: "length suf < f" using Cons.prems(3) by (cases fuel) auto
  have ok: "ok_entry r" and wf: "wf_ram suf" using Cons.prems(1) by (simp_all add: wf_ram_Cons)
  have le: "en \<le> ram_addr r" using Cons.prems(2) by (simp add: ram_lo_def word_order_nat)
  note IH = Cons.IH [OF wf _ f, of "pre @ [r]"]
  have lt: "ram_addr r < ram_end r" using ok_entryD(2,3) [OF ok] by (simp add: ram_lo_def word_order_nat)
  show ?case
  proof (cases "en = ram_addr r")
    case True
    have "ram_end r - en = ram_size r" by (simp add: True ram_end_def)
    then have "\<lparr>ram_addr = en, ram_size = ram_end r - en\<rparr> = r" using True by simp
    then show ?thesis
      using alloc_round(3) [OF ok_entryD(1) [OF ok], of addr en f pre suf] True lt assms(3) IH Cons.prems(2)
      by (simp add: fuel)
  next
    case False
    then have "\<not> alloc_hits addr en (ram_addr r) (ram_end r)" using le assms(3) by (auto simp: alloc_hits_def)
    then show ?thesis
      using alloc_round(1) [OF ok_entryD(1) [OF ok], of addr en f pre suf] IH Cons.prems(2) by (simp add: fuel)
  qed
qed

text \<open>The pieces of an entry that an allocation leaves behind.\<close>

lemma piece_behind:
  assumes "ok_entry r" and "ram_lo r \<le> unat en" and "unat en < ram_hi r"
  defines "r' \<equiv> \<lparr>ram_addr = en, ram_size = ram_end r - en\<rparr>"
  shows "ok_entry r'" and "ram_lo r' = unat en" and "ram_hi r' = ram_hi r"
proof -
  note r = ok_entryD [OF assms(1)]
  have sz: "unat (ram_end r - en) = ram_hi r - unat en" using r(2) assms(3) by (simp add: unat_sub_le)
  show "ram_lo r' = unat en" by (simp add: r'_def ram_lo_def)
  show hi: "ram_hi r' = ram_hi r" using sz assms(3) by (simp add: r'_def ram_hi_def)
  show "ok_entry r'" using hi sz assms(3) r(4) by (auto simp: ok_entry_def r'_def simp flip: unat_eq_0_iff)
qed

lemma piece_before:
  assumes "ok_entry r" and "ram_lo r < unat addr" and "unat addr < ram_hi r"
  defines "r' \<equiv> r\<lparr>ram_size := addr - ram_addr r\<rparr>"
  shows "ok_entry r'" and "ram_lo r' = ram_lo r" and "ram_hi r' = unat addr"
proof -
  note r = ok_entryD [OF assms(1)]
  have sz: "unat (addr - ram_addr r) = unat addr - ram_lo r" using assms(2) by (simp add: unat_sub_le ram_lo_def)
  show lo: "ram_lo r' = ram_lo r" by (simp add: r'_def ram_lo_def)
  show hi: "ram_hi r' = unat addr" using sz assms(2) lo by (simp add: ram_hi_lo r'_def)
  show "ok_entry r'" using hi sz assms(2,3) r(4) by (auto simp: ok_entry_def r'_def simp flip: unat_eq_0_iff)
qed

text \<open>
  What the loop does from position \<open>length pre\<close> on: it crashes in \<open>add_mem\<close>, which needs a full
  list, or it leaves \<open>pre\<close> alone and takes the range out of the rest.
\<close>

definition alloc_result :: "nat \<Rightarrow> nat \<Rightarrow> paddr_t \<Rightarrow> paddr_t \<Rightarrow> ram_entry list \<Rightarrow> ram_entry list \<Rightarrow> bool" where
  "alloc_result fuel n addr en pre suf \<longleftrightarrow>
     (alloc_ram_loop fuel (length pre) addr en (pre @ suf) = Inl Ram_entry_overflow \<and> 191 \<le> length (pre @ suf))
   \<or> (\<exists>suf'. alloc_ram_loop fuel (length pre) addr en (pre @ suf) = Inr (pre @ suf')
        \<and> wf_ram (pre @ suf') \<and> ram_set suf' = ram_set suf - {unat addr ..< unat en} \<and> length suf' \<le> n)"

lemma ram_set_diff_behind: "\<forall>r \<in> set l. n \<le> ram_lo r \<Longrightarrow> ram_set l - {a ..< n} = ram_set l"
  by (fastforce simp: ram_set_def ram_ivl_def)

lemma alloc_result_tail:
  assumes "wf_ram (pre @ suf)" and "\<forall>r \<in> set suf. unat en \<le> ram_lo r" and "addr \<le> en"
    and "length suf < fuel" and "length suf \<le> n"
  shows "alloc_result fuel n addr en pre suf"
  using alloc_tail [OF _ assms(2-4), of pre] ram_set_diff_behind [OF assms(2)] assms(1,5)
  by (auto simp: alloc_result_def wf_ram_append)

text \<open>A round that leaves one entry in the place of \<open>r\<close>.\<close>

lemma alloc_result_Cons:
  assumes "alloc_result f n addr en (pre @ [r']) suf"
    and "alloc_ram_loop fuel (length pre) addr en (pre @ r # suf)
         = alloc_ram_loop f (length (pre @ [r'])) addr en ((pre @ [r']) @ suf)"
    and "ram_ivl r' = ram_ivl r - {unat addr ..< unat en}"
  shows "alloc_result fuel (Suc n) addr en pre (r # suf)"
proof (cases "alloc_ram_loop f (length (pre @ [r'])) addr en ((pre @ [r']) @ suf) = Inl Ram_entry_overflow")
  case True
  then show ?thesis using assms(1,2) by (auto simp: alloc_result_def)
next
  case False
  with assms(1) obtain suf' where
    "alloc_ram_loop f (length (pre @ [r'])) addr en ((pre @ [r']) @ suf) = Inr ((pre @ [r']) @ suf')"
    "wf_ram ((pre @ [r']) @ suf')" "ram_set suf' = ram_set suf - {unat addr ..< unat en}" "length suf' \<le> n"
    unfolding alloc_result_def by blast
  then show ?thesis
    unfolding alloc_result_def using assms(2,3) by (intro disjI2 exI [of _ "r' # suf'"]) auto
qed

text \<open>The range lies strictly inside one entry, which is split.\<close>

lemma alloc_split:
  assumes wf: "wf_ram (pre @ r # suf)"
    and lo: "ram_lo r < unat addr" and hi: "unat en < ram_hi r" and ne: "unat addr < unat en"
    and f: "length suf + 2 \<le> f"
  shows "alloc_result (Suc f) (Suc (Suc (length suf))) addr en pre (r # suf)"
proof -
  have ok: "ok_entry r" using wf by (simp add: wf_ram_def)
  define r' where "r' = r\<lparr>ram_size := addr - ram_addr r\<rparr>"
  define new where "new = \<lparr>ram_addr = en, ram_size = ram_end r - en\<rparr>"
  have p1: "ok_entry r'" "ram_lo r' = ram_lo r" "ram_hi r' = unat addr"
    unfolding r'_def using piece_before [OF ok lo] hi ne by auto
  have p2: "ok_entry new" "ram_lo new = unat en" "ram_hi new = ram_hi r"
    unfolding new_def using piece_behind [OF ok _ hi] lo ne by auto
  have wf': "wf_ram ((pre @ [r']) @ new # suf)"
    using wf p1 p2 hi lo ne by (fastforce simp: wf_ram_append wf_ram_Cons)
  have run: "alloc_ram_loop (Suc f) (length pre) addr en (pre @ r # suf)
      = bind_result (add_mem (ram_addr new) (ram_size new) ((pre @ [r']) @ suf))
          (alloc_ram_loop f (length (pre @ [r'])) addr en)"
    using alloc_round(5) [OF ok_entryD(1) [OF ok], of addr en f pre suf] lo hi ne ok_entryD(2) [OF ok]
    by (simp add: word_order_nat ram_lo_def r'_def new_def Let_def)
  have tail: "\<forall>b \<in> set (new # suf). unat en \<le> ram_lo b"
    using wf p2 hi by (fastforce simp: wf_ram_append wf_ram_Cons)
  have rest: "alloc_ram_loop f (length (pre @ [r'])) addr en ((pre @ [r']) @ new # suf) = Inr ((pre @ [r']) @ new # suf)"
    using wf' f ne tail by (intro alloc_tail) (auto simp: wf_ram_append wf_ram_Cons word_order_nat)
  have "ram_set suf - {unat addr ..< unat en} = ram_set suf" using tail by (intro ram_set_diff_behind) simp
  moreover have "ram_ivl r' \<union> ram_ivl new = ram_ivl r - {unat addr ..< unat en}"
    using p1 p2 lo hi ne by (auto simp: ram_ivl_def)
  ultimately have set: "ram_set (r' # new # suf) = ram_set (r # suf) - {unat addr ..< unat en}"
    by (simp add: Un_Diff Un_assoc [symmetric])
  show ?thesis
  proof (cases "length (pre @ r # suf) \<le> 190")
    case True
    then show ?thesis
      unfolding alloc_result_def using wf' set run rest add_mem_at [OF wf'] 
      by (intro disjI2 exI [of _ "r' # new # suf"]) simp
  next
    case False
    have "add_mem (ram_addr new) (ram_size new) ((pre @ [r']) @ suf) = Inl Ram_entry_overflow"
      using False p2(1)
      by (auto simp: add_mem_def ok_entry_def word_neq_0_conv list_bytes_def MAX_RAM_LIST_SIZE_def ENTRY_BYTES_def)
    then show ?thesis using run False by (simp add: alloc_result_def)
  qed
qed

lemma alloc_ram_loop_suffix:
  assumes "wf_ram (pre @ suf)" and "unat addr < unat en" and "length suf + 2 \<le> fuel"
  shows "alloc_result fuel (Suc (length suf)) addr en pre suf"
  using assms(1,3)
proof (induction suf arbitrary: pre fuel)
  case Nil
  then show ?case by (cases fuel) (simp_all add: alloc_result_def)
next
  case (Cons r suf)
  obtain f where fuel: "fuel = Suc f" and f: "length suf + 2 \<le> f" using Cons.prems(2) by (cases fuel) auto
  have ok: "ok_entry r" and gap: "\<forall>b \<in> set suf. ram_hi r < ram_lo b"
    and before: "\<forall>a \<in> set pre. ram_hi a < ram_lo r \<and> (\<forall>b \<in> set suf. ram_hi a < ram_lo b)"
    and wf: "wf_ram suf" "wf_ram pre"
    using Cons.prems(1) by (auto simp: wf_ram_append wf_ram_Cons)
  note r = ok_entryD [OF ok] and round = alloc_round [OF ok_entryD(1) [OF ok], of addr en f pre suf]
  have conv: "addr \<le> ram_addr r \<longleftrightarrow> unat addr \<le> ram_lo r" "ram_addr r < addr \<longleftrightarrow> ram_lo r < unat addr"
    "ram_addr r < en \<longleftrightarrow> ram_lo r < unat en" "ram_addr r \<le> en \<longleftrightarrow> ram_lo r \<le> unat en"
    "ram_end r \<le> en \<longleftrightarrow> ram_hi r \<le> unat en" "en < ram_end r \<longleftrightarrow> unat en < ram_hi r"
    "addr < ram_end r \<longleftrightarrow> unat addr < ram_hi r" "addr < en"
    using r(2) assms(2) by (auto simp: word_order_nat ram_lo_def)
  consider "unat en \<le> ram_lo r" | "ram_hi r \<le> unat addr"
    | "unat addr \<le> ram_lo r" "ram_lo r < unat en" "ram_hi r \<le> unat en"
    | "unat addr \<le> ram_lo r" "ram_lo r < unat en" "unat en < ram_hi r"
    | "ram_lo r < unat addr" "unat addr < ram_hi r" "ram_hi r \<le> unat en"
    | "ram_lo r < unat addr" "unat en < ram_hi r" by linarith
  then show ?case
  proof cases
    case 1
    then have "\<forall>b \<in> set (r # suf). unat en \<le> ram_lo b" using gap r(3) by fastforce
    then show ?thesis using alloc_result_tail [OF Cons.prems(1)] f fuel conv(8) by (simp add: less_imp_le)
  next
    case 2
    then have "\<not> alloc_hits addr en (ram_addr r) (ram_end r)"
      using assms(2) r(2,3) by (auto simp: alloc_hits_def word_order_nat ram_lo_def)
    note eq = round(1) [OF this, folded fuel]
    show ?thesis using Cons.IH [of "pre @ [r]" f] Cons.prems(1) f 2
      by (intro alloc_result_Cons [OF _ eq]) (auto simp: ram_ivl_def)
  next
    case 3
    have "alloc_result f (Suc (length suf)) addr en pre suf"
      using Cons.IH [of pre f] f wf before by (auto simp: wf_ram_append)
    moreover have "ram_ivl r - {unat addr ..< unat en} = {}" using 3 by (auto simp: ram_ivl_def)
    ultimately show ?thesis
      using round(2) 3 by (fastforce simp: alloc_result_def conv fuel Un_Diff)
  next
    case 4
    define r' where "r' = \<lparr>ram_addr = en, ram_size = ram_end r - en\<rparr>"
    note p = piece_behind [OF ok _ 4(3), folded r'_def]
    have "wf_ram ((pre @ [r']) @ suf)" using p 4 wf before gap by (auto simp: wf_ram_append wf_ram_Cons)
    moreover have "\<forall>b \<in> set suf. unat en \<le> ram_lo b" using gap 4 by fastforce
    ultimately have "alloc_result f (Suc (length suf)) addr en (pre @ [r']) suf"
      using f conv(8) by (intro alloc_result_tail) auto
    then show ?thesis
      using round(3) 4 p by (intro alloc_result_Cons) (auto simp: conv fuel r'_def Let_def ram_ivl_def)
  next
    case 5
    define r' where "r' = r\<lparr>ram_size := addr - ram_addr r\<rparr>"
    note p = piece_before [OF ok 5(1,2), folded r'_def]
    have "wf_ram ((pre @ [r']) @ suf)" using p 5 wf before gap by (fastforce simp: wf_ram_append wf_ram_Cons)
    then have "alloc_result f (Suc (length suf)) addr en (pre @ [r']) suf"
      using Cons.IH [of "pre @ [r']" f] f by simp
    then show ?thesis
      using round(4) 5 p by (intro alloc_result_Cons) (auto simp: conv fuel r'_def Let_def ram_ivl_def)
  next
    case 6
    show ?thesis
      using alloc_split [OF Cons.prems(1) 6 assms(2), of f] f by (simp add: fuel)
  qed
qed

lemma alloc_ram_loop_spec:
  assumes "wf_ram l" and "unat addr + unat sz < 2 ^ 64" and "sz \<noteq> 0"
  shows "alloc_ram_loop (2 * length l + 2) 0 addr (addr + sz) l = Inr l' \<Longrightarrow>
      wf_ram l' \<and> ram_set l' = ram_set l - {unat addr ..< unat addr + unat sz} \<and> length l' \<le> Suc (length l)"
    and "alloc_ram_loop (2 * length l + 2) 0 addr (addr + sz) l = Inl e \<Longrightarrow>
      e = Ram_entry_overflow \<and> 191 \<le> length l"
proof -
  have en: "unat (addr + sz) = unat addr + unat sz" using assms(2) by (rule unat_add_noov)
  have "unat sz > 0" using assms(3) by (simp add: unat_gt_0)
  then have "alloc_result (2 * length l + 2) (Suc (length l)) addr (addr + sz) [] l"
    using assms(1) en by (intro alloc_ram_loop_suffix) simp_all
  then show "alloc_ram_loop (2 * length l + 2) 0 addr (addr + sz) l = Inr l' \<Longrightarrow>
      wf_ram l' \<and> ram_set l' = ram_set l - {unat addr ..< unat addr + unat sz} \<and> length l' \<le> Suc (length l)"
    and "alloc_ram_loop (2 * length l + 2) 0 addr (addr + sz) l = Inl e \<Longrightarrow>
      e = Ram_entry_overflow \<and> 191 \<le> length l"
    by (auto simp: alloc_result_def en)
qed

end
