(* ===== verification/Ram_Alloc.thy ===== *)
theory Ram_Alloc
  imports Ram_List
begin

text \<open>
  What \<open>find_ram\<close>, \<open>find_top_ram\<close>, \<open>alloc_ram\<close>, \<open>calloc_ram\<close>, \<open>avoid_ram\<close> and \<open>ws_alloc\<close>
  promise: the range found is RAM, outside every avoided range and aligned; what has been
  handed out, by whichever function, is never handed out again.
\<close>

section \<open>Avoided ranges\<close>

definition av_ok :: "avoid_entry list \<Rightarrow> bool" where
  "av_ok av \<longleftrightarrow> (\<forall>a \<in> set av. av_start a \<le> av_end a \<and> av_end a \<noteq> 0)"

definition av_set :: "avoid_entry list \<Rightarrow> nat set" where
  "av_set av = (\<Union>a \<in> set av. {unat (av_start a) ..< unat (av_end a)})"

lemma fix_size_spec:
  assumes "fix_size as ae (s, e) = Some (s', e')" and "s \<le> e" and "as \<le> ae"
  shows "s \<le> s'" and "e' \<le> e" and "s' \<le> e'"
    and "{unat s' ..< unat e'} \<inter> {unat as ..< unat ae} = {}"
  using assms by (auto simp: fix_size_def word_order_nat split: if_splits)

lemma fix_sizes_spec:
  assumes "fix_sizes av (s, e) = Some (s', e')" and "s \<le> e" and "av_ok av"
  shows "s \<le> s' \<and> e' \<le> e \<and> s' \<le> e' \<and> {unat s' ..< unat e'} \<inter> av_set av = {}"
  using assms
proof (induction av arbitrary: s e)
  case Nil
  then show ?case by (simp add: av_set_def)
next
  case (Cons a av)
  then obtain s1 e1 where f: "fix_size (av_start a) (av_end a) (s, e) = Some (s1, e1)"
    and rest: "fix_sizes av (s1, e1) = Some (s', e')"
    by (auto simp: av_ok_def split: option.splits)
  have ok: "av_start a \<le> av_end a" "av_ok av" using Cons.prems(3) by (auto simp: av_ok_def)
  note f1 = fix_size_spec [OF f Cons.prems(2) ok(1)]
  note IH = Cons.IH [OF rest f1(3) ok(2)]
  have "{unat s' ..< unat e'} \<subseteq> {unat s1 ..< unat e1}" using IH by (auto simp: word_order_nat)
  then have "{unat s' ..< unat e'} \<inter> {unat (av_start a) ..< unat (av_end a)} = {}" using f1(4) by blast
  then show ?case using IH f1(1,2) by (auto simp: av_set_def)
qed

text \<open>What is left of an entry once the avoided ranges are taken off.\<close>

lemma fix_entry:
  assumes "fix_sizes av (ram_addr r, ram_end r) = Some (s, e)" and "ok_entry r" and "av_ok av"
  shows "ram_lo r \<le> unat s" and "unat e \<le> ram_hi r" and "s \<le> e"
    and "{unat s ..< unat e} \<inter> av_set av = {}"
proof -
  note r = ok_entryD [OF assms(2)]
  have "ram_addr r \<le> ram_end r" using r(2,3) by (simp add: word_order_nat ram_lo_def)
  note f = fix_sizes_spec [OF assms(1) this assms(3)]
  show "ram_lo r \<le> unat s" "unat e \<le> ram_hi r" "s \<le> e" "{unat s ..< unat e} \<inter> av_set av = {}"
    using f r(2) by (auto simp: word_order_nat ram_lo_def)
qed

section \<open>Searching\<close>

text \<open>A free range: RAM, and not avoided.\<close>

definition usable :: "'a ram_state_scheme \<Rightarrow> nat set" where
  "usable st = ram_set (ram_list st) - av_set (avoid_list st)"

definition ram_inv :: "'a ram_state_scheme \<Rightarrow> bool" where
  "ram_inv st \<longleftrightarrow> wf_ram (ram_list st) \<and> ram_set (ram_list st) \<subseteq> {..< 2 ^ 63} \<and> av_ok (avoid_list st)"

lemma adjust_colour_none [simp]: "adjust_colour 0 0 addr = addr"
  by (simp add: adjust_colour_def)

lemma unat_ucast_align: "unat (ucast (align :: u32) :: u64) = unat align"
  by (rule unat_ucast_u32_u64)

lemma ok_entry_hi: "ok_entry r \<Longrightarrow> ram_ivl r \<subseteq> {..< n} \<Longrightarrow> ram_hi r \<le> n"
proof -
  assume "ok_entry r" "ram_ivl r \<subseteq> {..< n}"
  moreover from this have "ram_hi r - 1 \<in> ram_ivl r" by (auto simp: ram_ivl_def dest: ok_entryD(3))
  ultimately show ?thesis by fastforce
qed

lemma find_in_range_spec:
  assumes "find_in_range_loop rs re sz align 0 0 av ram = addr" and "addr \<noteq> NULL_PADDR"
    and "wf_ram ram" and "ram_set ram \<subseteq> {..< 2 ^ 63}" and "av_ok av" and "is_pow2 (ucast align)"
  shows "{unat addr ..< unat addr + unat sz} \<subseteq> ram_set ram - av_set av
    \<and> (rs \<noteq> 0 \<longrightarrow> rs \<le> addr) \<and> (re \<noteq> 0 \<longrightarrow> unat addr + unat sz \<le> unat re)
    \<and> (rs = 0 \<longrightarrow> unat align dvd unat addr) \<and> unat addr + unat sz \<le> 2 ^ 63"
  using assms(1,3,4)
proof (induction ram)
  case Nil
  then show ?case using assms(2) by simp
next
  case (Cons r ram)
  have ok: "ok_entry r" and wf: "wf_ram ram" using Cons.prems(2) by (auto simp: wf_ram_Cons)
  have bnd: "ram_set ram \<subseteq> {..< 2 ^ 63}" "ram_hi r \<le> 2 ^ 63"
    using Cons.prems(3) ok_entry_hi [OF ok] by auto
  show ?case
  proof (cases "find_in_range_loop rs re sz align 0 0 av ram = addr")
    case True
    then show ?thesis using Cons.IH [OF True wf bnd(1)] by auto
  next
    case False
    then obtain s e0 where f: "fix_sizes av (ram_addr r, ram_end r) = Some (s, e0)"
      and addr: "addr = clip_start rs (ROUND s (ucast align))"
      and room: "addr < clip_end re e0" "sz \<le> clip_end re e0 - addr"
      using Cons.prems(1) assms(2) by (auto simp: Let_def split: if_splits option.splits)
    note fe = fix_entry [OF f ok assms(5)]
    have al: "unat (ucast align :: u64) < 2 ^ 32" using unsigned_less [of align, where 'a = nat] by (simp add: unat_ucast_align)
    have sb: "unat s + unat (ucast align :: u64) \<le> 2 ^ 64" using fe(2,3) bnd(2) al by (simp add: word_order_nat)
    note rb = ROUND_bounds [OF assms(6) sb]
    have hi: "unat (clip_end re e0) \<le> unat e0" "re \<noteq> 0 \<Longrightarrow> unat (clip_end re e0) \<le> unat re"
      by (auto simp: clip_end_def word_order_nat)
    have fits: "unat addr + unat sz \<le> unat (clip_end re e0)"
      using room by (simp add: word_order_nat unat_sub_le)
    have lo: "unat s \<le> unat addr" using rb(1) by (auto simp: addr clip_start_def word_order_nat)
    have "{unat addr ..< unat addr + unat sz} \<subseteq> {unat s ..< unat e0}" using lo fits hi(1) by auto
    moreover have "{unat s ..< unat e0} \<subseteq> ram_ivl r - av_set av" using fe by (auto simp: ram_ivl_def)
    ultimately have "{unat addr ..< unat addr + unat sz} \<subseteq> ram_set (r # ram) - av_set av"
      unfolding ram_set_simps by blast
    moreover have "rs \<noteq> 0 \<Longrightarrow> rs \<le> addr" "rs = 0 \<Longrightarrow> unat align dvd unat addr"
      using rb(3) by (auto simp: addr clip_start_def unat_ucast_align)
    moreover have "re \<noteq> 0 \<Longrightarrow> unat addr + unat sz \<le> unat re" "unat addr + unat sz \<le> 2 ^ 63"
      using fits hi fe(2) bnd(2) by auto
    ultimately show ?thesis by blast
  qed
qed

lemma find_ram_spec:
  assumes "find_ram sz align 0 0 st = addr" and "addr \<noteq> NULL_PADDR" and "ram_inv st" and "is_pow2 (ucast align)"
  shows "{unat addr ..< unat addr + unat sz} \<subseteq> usable st" and "unat align dvd unat addr"
    and "unat addr + unat sz \<le> 2 ^ 63"
  using find_in_range_spec [OF assms(1) [unfolded find_ram_def find_ram_in_range_def] assms(2) _ _ _ assms(4)] assms(3)
  by (auto simp: ram_inv_def usable_def)

text \<open>
  \<open>find_top_ram_aligned\<close>: the limit of all ones is above every entry, so it is never reached.
  \<open>top_chk\<close> is the address tried in an entry trimmed to end at \<open>e\<close>.
\<close>

definition top_chk :: "paddr_t \<Rightarrow> paddr_t \<Rightarrow> paddr_t \<Rightarrow> paddr_t" where
  "top_chk sz align e = (if align \<noteq> 0 then TRUNC (e - sz) align else e - sz)"

definition top_fits :: "paddr_t \<Rightarrow> paddr_t \<Rightarrow> avoid_entry list \<Rightarrow> ram_entry \<Rightarrow> paddr_t \<Rightarrow> bool" where
  "top_fits sz align av r t \<longleftrightarrow> (\<exists>s e. fix_sizes av (ram_addr r, ram_end r) = Some (s, e)
     \<and> sz \<le> e - s \<and> s \<le> top_chk sz align e \<and> t = top_chk sz align e)"

lemma top_fits_spec:
  assumes "top_fits sz align av r t" and "ok_entry r" and "av_ok av" and "align = 0 \<or> is_pow2 align"
  shows "{unat t ..< unat t + unat sz} \<subseteq> ram_ivl r - av_set av" and "unat t + unat sz \<le> ram_hi r"
    and "align \<noteq> 0 \<Longrightarrow> unat align dvd unat t"
proof -
  from assms(1) obtain s e where f: "fix_sizes av (ram_addr r, ram_end r) = Some (s, e)"
    and room: "sz \<le> e - s" "s \<le> t" and t: "t = top_chk sz align e"
    by (auto simp: top_fits_def)
  note fe = fix_entry [OF f assms(2,3)]
  have sz: "unat sz \<le> unat e - unat s" "unat s \<le> unat e" using room(1) fe(3) by (simp_all add: word_order_nat unat_sub_le)
  have "unat t \<le> unat (e - sz)" using assms(4) by (auto simp: t top_chk_def TRUNC_le)
  then have top: "unat t + unat sz \<le> unat e" using sz by (simp add: unat_sub_le)
  then have "{unat t ..< unat t + unat sz} \<subseteq> {unat s ..< unat e}" using room(2) by (auto simp: word_order_nat)
  moreover have "{unat s ..< unat e} \<subseteq> ram_ivl r - av_set av" using fe by (auto simp: ram_ivl_def)
  ultimately show "{unat t ..< unat t + unat sz} \<subseteq> ram_ivl r - av_set av" by blast
  show "unat t + unat sz \<le> ram_hi r" using top fe(2) by simp
  show "align \<noteq> 0 \<Longrightarrow> unat align dvd unat t" using assms(4) by (auto simp: t top_chk_def TRUNC_dvd)
qed

text \<open>One round of the search.\<close>

lemma find_top_round:
  assumes "ok_entry r" and "ram_hi r \<le> 2 ^ 63" and "av_ok av" and "align = 0 \<or> is_pow2 align"
  shows "find_top_loop sz align (- 1) av (r # ram) t0 =
    (if \<exists>t. top_fits sz align av r t \<and> t0 < t
     then find_top_loop sz align (- 1) av ram (THE t. top_fits sz align av r t)
     else find_top_loop sz align (- 1) av ram t0)"
proof -
  have uniq: "top_fits sz align av r t \<Longrightarrow> (THE t. top_fits sz align av r t) = t" for t
    by (rule the_equality) (auto simp: top_fits_def)
  have "\<not> t + sz \<ge> - 1" if "top_fits sz align av r t" for t
  proof -
    note le = top_fits_spec(2) [OF that assms(1,3,4)]
    have "unat (- 1 :: u64) = 2 ^ 64 - 1" by (simp add: unsigned_minus_1_eq_mask mask_eq_exp_minus_1)
    moreover have "unat (t + sz) = unat t + unat sz" using le assms(2) by (intro unat_add_noov) simp
    ultimately show ?thesis using le assms(2) by (simp add: word_le_nat_alt)
  qed
  then show ?thesis
    using ok_entryD(1) [OF assms(1)] uniq
    by (cases "fix_sizes av (ram_addr r, ram_end r)")
      (auto simp: top_fits_def Let_def top_chk_def [symmetric] split: prod.splits if_splits)
qed

lemma find_top_spec:
  assumes "wf_ram ram" and "ram_set ram \<subseteq> {..< 2 ^ 63}" and "av_ok av" and "align = 0 \<or> is_pow2 align"
  shows "t0 \<le> find_top_loop sz align (- 1) av ram t0
    \<and> (find_top_loop sz align (- 1) av ram t0 \<noteq> t0 \<longrightarrow>
         (\<exists>r \<in> set ram. top_fits sz align av r (find_top_loop sz align (- 1) av ram t0)))
    \<and> (\<forall>r \<in> set ram. \<forall>t'. top_fits sz align av r t' \<longrightarrow> t' \<le> find_top_loop sz align (- 1) av ram t0)"
  using assms(1,2)
proof (induction ram arbitrary: t0)
  case (Cons r ram)
  have ok: "ok_entry r" and wf: "wf_ram ram" using Cons.prems(1) by (auto simp: wf_ram_Cons)
  have bnd: "ram_set ram \<subseteq> {..< 2 ^ 63}" "ram_hi r \<le> 2 ^ 63" using Cons.prems(2) ok_entry_hi [OF ok] by auto
  note round = find_top_round [OF ok bnd(2) assms(3,4), of sz ram t0] and IH = Cons.IH [OF wf bnd(1)]
  have uniq: "top_fits sz align av r a \<Longrightarrow> top_fits sz align av r b \<Longrightarrow> a = b" for a b
    by (auto simp: top_fits_def)
  show ?case
  proof (cases "\<exists>t. top_fits sz align av r t \<and> t0 < t")
    case True
    then obtain t1 where t1: "top_fits sz align av r t1" "t0 < t1" by blast
    then have "(THE t. top_fits sz align av r t) = t1" using uniq by blast
    then show ?thesis using round True IH [of t1] t1 uniq by auto
  next
    case False
    then have "\<forall>t'. top_fits sz align av r t' \<longrightarrow> t' \<le> t0" by (meson not_le)
    then show ?thesis using round False IH [of t0] by (auto dest: order_trans)
  qed
qed simp

section \<open>Allocating\<close>

lemma as_add_entry_shape:
  assumes "as_add_entry ab start en attr name owner st = Inr (off, st')"
  shows "lsp.more st' = lsp.more st" and "length (asinfo st') = Suc (length (asinfo st))"
    and "i < length (asinfo st) \<Longrightarrow> as_start (asinfo st' ! i) = as_start (asinfo st ! i)
           \<and> as_end (asinfo st' ! i) = as_end (asinfo st ! i)"
    and "as_start (asinfo st' ! length (asinfo st)) = start \<and> as_end (asinfo st' ! length (asinfo st)) = en"
proof -
  define e where "e n = \<lparr>as_start = start, as_end = en, as_owner = owner, as_name = n,
     as_attr = ucast (attr AND 0xffff), as_priority = AS_PRIORITY_DEFAULT ab\<rparr>" for n
  from assms obtain n pg where "st' = st\<lparr>page := pg, asinfo := (case owner of None \<Rightarrow> asinfo st @ [e n]
      | Some o' \<Rightarrow> (asinfo st @ [e n])[o' := ((asinfo st @ [e n]) ! o')\<lparr>as_attr :=
           as_attr ((asinfo st @ [e n]) ! o') OR AS_ATTR_KIDS ab\<rparr>])\<rparr>"
    by (auto simp: as_add_entry_def Let_def simp flip: e_def)
  note st' = this
  define ents where "ents = asinfo st @ [e n]"
  have eq: "asinfo st' = (case owner of None \<Rightarrow> ents
      | Some o' \<Rightarrow> ents[o' := (ents ! o')\<lparr>as_attr := as_attr (ents ! o') OR AS_ATTR_KIDS ab\<rparr>])"
    and more: "lsp.more st' = lsp.more st"
    unfolding st' ents_def by simp_all
  note ents = ents_def and e = e_def
  show "lsp.more st' = lsp.more st" by (rule more)
  show "length (asinfo st') = Suc (length (asinfo st))" by (simp add: eq ents split: option.splits)
  have same: "same_entry (ents ! i) (asinfo st' ! i)" for i
    by (auto simp: eq same_entry_update split: option.splits)
  show "i < length (asinfo st) \<Longrightarrow> as_start (asinfo st' ! i) = as_start (asinfo st ! i)
           \<and> as_end (asinfo st' ! i) = as_end (asinfo st ! i)"
    and "as_start (asinfo st' ! length (asinfo st)) = start \<and> as_end (asinfo st' ! length (asinfo st)) = en"
    using same_entryD(1,2) [OF same, of i] same_entryD(1,2) [OF same, of "length (asinfo st)"] e
    by (simp_all add: ents nth_append)
qed

lemma as_add_ram: "as_add ab start en AS_ATTR_RAM name owner st = as_add_entry ab start en AS_ATTR_RAM name owner st"
  by (rule as_add_plain) (simp add: AS_ATTR_RAM_def)

lemma grow_error: "grow_syspage_section s n sp = Inl e \<Longrightarrow> e = Syspage_exceeded"
  by (auto simp: grow_syspage_section_def Let_def split: if_splits)

lemma as_add_entry_error: "as_add_entry ab start en attr name owner st = Inl e \<Longrightarrow> e = Syspage_exceeded"
  by (auto simp: as_add_entry_def add_string_def strings_room_def bind_result_def Let_def
      split: sum.splits if_splits prod.splits dest: grow_error)

lemma ram_state_more:
  assumes "lsp.more st' = lsp.more (st :: 'a ram_state_scheme)"
  shows "ram_list st' = ram_list st" and "avoid_list st' = avoid_list st" and "avoid_set st' = avoid_set st"
    and "mem st' = mem st" and "sysram_added st' = sysram_added st" and "ws_early_next st' = ws_early_next st"
  using assms by (cases st; cases st'; simp)+

lemma alloc_sysram_round:
  assumes "as_find_containing off addr en (cs ''sysram'') st = Some i"
    and "ent = asinfo st ! i" and "en2 = (if en > as_end ent then en else as_end ent)"
    and "s2 = (if addr < as_start ent then addr else as_start ent)"
    and "st1 = st\<lparr>asinfo := (asinfo st)[i := ent\<lparr>as_end := addr - 1\<rparr>]\<rparr>"
  shows "alloc_sysram_loop (Suc fuel) env off addr en st =
      (if addr = s2 \<and> en = en2 then Inl Remove_whole_sysram
       else if addr = s2 then
         alloc_sysram_loop fuel env (Some i) addr en (st\<lparr>asinfo := (asinfo st)[i := ent\<lparr>as_start := en + 1\<rparr>]\<rparr>)
       else if en2 \<noteq> en then
           bind_result (as_add_entry (abi env) (en + 1) en2 AS_ATTR_RAM (cs ''sysram'') (as_owner ent) st1)
             (\<lambda>(_, st). alloc_sysram_loop fuel env (Some i) addr en st)
       else alloc_sysram_loop fuel env (Some i) addr en st1)"
  using assms by (simp add: Let_def as_add_ram)

lemma alloc_sysram_keeps:
  "alloc_sysram_loop fuel env off addr en st = Inr st' \<Longrightarrow> lsp.more st' = lsp.more st"
proof (induction fuel arbitrary: off addr en st)
  case (Suc fuel)
  show ?case
  proof (cases "as_find_containing off addr en (cs ''sysram'') st")
    case (Some i)
    show ?thesis
      using Suc.prems [unfolded alloc_sysram_round [OF Some refl refl refl refl]]
      by (simp split: if_splits) (auto dest!: Suc.IH as_add_entry_shape(1))
  qed (use Suc in simp)
qed simp

text \<open>
  The loop over the \<open>sysram\<close> entries ends: what it appends lies behind the range and is not
  found again, so every round uses up one of the first \<open>n\<close> entries.
\<close>

definition behind_from :: "nat \<Rightarrow> paddr_t \<Rightarrow> 'a lsp_scheme \<Rightarrow> bool" where
  "behind_from n en st \<longleftrightarrow> (\<forall>k. n \<le> k \<and> k < length (asinfo st)
     \<longrightarrow> en < as_start (asinfo st ! k) \<and> en < as_end (asinfo st ! k))"

lemma behind_from_update: "behind_from n en st \<Longrightarrow> i < n \<Longrightarrow> behind_from n en (st\<lparr>asinfo := (asinfo st)[i := x]\<rparr>)"
  by (simp add: behind_from_def)

lemma behind_from_add:
  assumes "behind_from n en st" and "en < en2"
    and "as_add_entry ab (en + 1) en2 attr name owner st = Inr (off, st')"
  shows "behind_from n en st'"
proof -
  have "en \<noteq> - 1" using assms(2) word_order.extremum_strict [of en2] by blast
  then have "en < en + 1" using word_plus1_le [of en "en + 1"] by simp
  then show ?thesis
    using assms(1,2) as_add_entry_shape(2-4) [OF assms(3)] by (auto simp: behind_from_def less_Suc_eq)
qed

lemma find_before:
  assumes "as_find_containing off addr en name st = Some i" and "behind_from n en st" and "addr \<le> en"
  shows "i < n" and "first_index off \<le> i"
proof -
  note found = assms(1) [unfolded as_find_containing_Some]
  show "first_index off \<le> i" using found by simp
  show "i < n"
  proof (rule ccontr)
    assume "\<not> i < n"
    then have "en < as_start (asinfo st ! i)" "en < as_end (asinfo st ! i)"
      using found assms(2) by (auto simp: behind_from_def)
    then show False using found assms(3) by (auto simp: contains_range_def)
  qed
qed

lemma alloc_sysram_error:
  assumes "behind_from n en st" and "addr \<le> en" and "n - first_index off < fuel"
    and "alloc_sysram_loop fuel env off addr en st = Inl e"
  shows "e = Remove_whole_sysram \<or> e = Syspage_exceeded"
  using assms(1,3,4)
proof (induction fuel arbitrary: off st)
  case (Suc fuel)
  show ?case
  proof (cases "as_find_containing off addr en (cs ''sysram'') st")
    case None
    then show ?thesis using Suc.prems(3) by simp
  next
    case (Some i)
    note i = find_before [OF Some Suc.prems(1) assms(2)]
    have fuel: "n - first_index (Some i) < fuel" using Suc.prems(2) i by auto
    define ent where "ent = asinfo st ! i"
    define en2 where "en2 = (if en > as_end ent then en else as_end ent)"
    define s2 where "s2 = (if addr < as_start ent then addr else as_start ent)"
    define st1 where "st1 = st\<lparr>asinfo := (asinfo st)[i := ent\<lparr>as_end := addr - 1\<rparr>]\<rparr>"
    note run = Suc.prems(3) [unfolded alloc_sysram_round [OF Some ent_def en2_def s2_def st1_def]]
    note IH = Suc.IH [OF _ fuel] and b1 = behind_from_update [OF Suc.prems(1) i(1)]
    have "en2 \<noteq> en \<Longrightarrow> en < en2" by (auto simp: en2_def split: if_splits)
    note b2 = behind_from_add [OF b1 [of "ent\<lparr>as_end := addr - 1\<rparr>", folded st1_def] this]
    show ?thesis
    proof (cases "\<not> (addr = s2 \<and> en = en2) \<and> addr \<noteq> s2 \<and> en2 \<noteq> en")
      case True
      then show ?thesis
        using run by (auto simp: bind_result_def split: sum.splits dest!: as_add_entry_error dest: IH [OF b2])
    next
      case False
      then show ?thesis using run IH b1 by (auto simp: st1_def split: if_splits)
    qed
  qed
qed simp

lemma last_addr: "unat addr + unat sz < 2 ^ 64 \<Longrightarrow> sz \<noteq> 0 \<Longrightarrow> addr \<le> addr + (sz :: paddr_t) - 1"
proof -
  assume a: "unat addr + unat sz < 2 ^ 64" "sz \<noteq> 0"
  then have s: "unat (addr + sz) = unat addr + unat sz" "0 < unat sz" by (simp_all add: unat_add_noov unat_gt_0)
  then have "unat (addr + sz - 1) = unat addr + unat sz - 1" by (subst unat_sub_le) simp_all
  then show ?thesis using s(2) by (simp add: word_le_nat_alt)
qed

declare alloc_ram_loop.simps [simp del] alloc_sysram_loop.simps [simp del]

lemma take_ram_spec:
  assumes "wf_ram (ram_list st)" and "unat addr + unat sz < 2 ^ 64" and "sz \<noteq> 0"
  shows "take_ram env addr sz st = Inr st' \<Longrightarrow>
      wf_ram (ram_list st') \<and> ram_set (ram_list st') = ram_set (ram_list st) - {unat addr ..< unat addr + unat sz}
      \<and> avoid_list st' = avoid_list st \<and> avoid_set st' = avoid_set st \<and> mem st' = mem st"
    and "take_ram env addr sz st = Inl e \<Longrightarrow>
      e = Ram_entry_overflow \<or> e = Remove_whole_sysram \<or> e = Syspage_exceeded"
proof -
  note spec = alloc_ram_loop_spec [OF assms]
  show "wf_ram (ram_list st') \<and> ram_set (ram_list st') = ram_set (ram_list st) - {unat addr ..< unat addr + unat sz}
      \<and> avoid_list st' = avoid_list st \<and> avoid_set st' = avoid_set st \<and> mem st' = mem st"
    if run: "take_ram env addr sz st = Inr st'"
  proof -
    from run obtain l where l: "alloc_ram_loop (2 * length (ram_list st) + 2) 0 addr (addr + sz) (ram_list st) = Inr l"
      and st': "lsp.more st' = lsp.more (st\<lparr>ram_list := l\<rparr>)"
      by (auto simp: take_ram_def Let_def split: if_splits dest: alloc_sysram_keeps)
    show ?thesis using spec(1) [OF l] ram_state_more [OF st'] by simp
  qed
  have le: "addr \<le> addr + sz - 1" by (rule last_addr [OF assms(2,3)])
  show "e = Ram_entry_overflow \<or> e = Remove_whole_sysram \<or> e = Syspage_exceeded"
    if run: "take_ram env addr sz st = Inl e"
  proof (cases "alloc_ram_loop (2 * length (ram_list st) + 2) 0 addr (addr + sz) (ram_list st)")
    case (Inl e')
    then show ?thesis using spec(2) run by (simp add: take_ram_def)
  next
    case (Inr l)
    then have run': "alloc_sysram_loop (2 * length (asinfo st) + 1) env None addr (addr + sz - 1) (st\<lparr>ram_list := l\<rparr>) = Inl e"
      using run by (simp add: take_ram_def Let_def split: if_splits)
    have "behind_from (length (asinfo st)) (addr + sz - 1) (st\<lparr>ram_list := l\<rparr>)" by (auto simp: behind_from_def)
    from alloc_sysram_error [OF this le _ run'] show ?thesis by simp
  qed
qed

lemma alloc_ram_found:
  assumes "alloc_ram env NULL_PADDR sz align st = Inr (a, st')" and "a \<noteq> NULL_PADDR"
    and "ram_inv st" and "is_pow2 (ucast align)" and "sz \<noteq> 0"
  shows "{unat a ..< unat a + unat sz} \<subseteq> usable st" and "unat align dvd unat a" and "unat a + unat sz \<le> 2 ^ 63"
    and "ram_inv st'" and "ram_set (ram_list st') = ram_set (ram_list st) - {unat a ..< unat a + unat sz}"
    and "avoid_list st' = avoid_list st" and "avoid_set st' = avoid_set st"
proof -
  from assms(1,2) obtain m where a: "find_ram sz align 0 0 st = a"
    and t: "take_ram env a sz (st\<lparr>mem := m\<rparr>) = Inr st'"
    by (auto simp: alloc_ram_def Let_def split: if_splits)
      (metis (no_types) ram_state.surjective ram_state.update_convs(9))+
  note f = find_ram_spec [OF a assms(2-4)]
  then show "{unat a ..< unat a + unat sz} \<subseteq> usable st" "unat align dvd unat a" "unat a + unat sz \<le> 2 ^ 63" by blast+
  have "unat a + unat sz < 2 ^ 64" using f(3) by simp
  note tk = take_ram_spec(1) [OF _ this assms(5) t]
  show set: "ram_set (ram_list st') = ram_set (ram_list st) - {unat a ..< unat a + unat sz}"
    and "avoid_list st' = avoid_list st" and "avoid_set st' = avoid_set st"
    using tk assms(3) by (simp_all add: ram_inv_def)
  then show "ram_inv st'" using tk assms(3) by (auto simp: ram_inv_def)
qed

section \<open>The avoid list and working storage\<close>

lemma avoid_more_spec:
  assumes "avoid_more start sz st = Inr st'" and "av_ok (avoid_list st)" and "unat start + unat sz < 2 ^ 64" and "sz \<noteq> 0"
  shows "av_ok (avoid_list st')"
    and "av_set (avoid_list st') = av_set (avoid_list st) \<union> {unat start ..< unat start + unat sz}"
    and "ram_list st' = ram_list st" and "avoid_set st' = avoid_set st"
proof -
  have en: "unat (start + sz) = unat start + unat sz" using assms(3) by (rule unat_add_noov)
  have pos: "0 < unat sz" using assms(4) by (simp add: unat_gt_0)
  then have ok: "start \<le> start + sz" "start + sz \<noteq> 0" using en by (auto simp: word_le_nat_alt word_eq_nat)
  show "ram_list st' = ram_list st" "avoid_set st' = avoid_set st"
    using assms(1) by (auto simp: avoid_more_def Let_def split: if_splits)
  have "av_ok (avoid_list st') \<and> av_set (avoid_list st') = av_set (avoid_list st) \<union> {unat start ..< unat start + unat sz}"
  proof (cases "avoid_list st \<noteq> [] \<and> av_end (last (avoid_list st)) = start")
    case True
    then obtain av a where av: "avoid_list st = av @ [a]" and a: "av_end a = start"
      by (metis append_butlast_last_id)
    have "avoid_list st' = av @ [a\<lparr>av_end := start + sz\<rparr>]"
      using assms(1) av a by (auto simp: avoid_more_def Let_def split: if_splits)
    moreover have "av_start a \<le> start" using assms(2) av a by (auto simp: av_ok_def)
    ultimately show ?thesis
      using assms(2) av a ok by (auto simp: av_ok_def av_set_def en word_le_nat_alt)
  next
    case False
    then have "avoid_list st' = avoid_list st @ [\<lparr>av_start = start, av_end = start + sz\<rparr>]"
      using assms(1) by (auto simp: avoid_more_def Let_def split: if_splits)
    then show ?thesis using assms(2) ok by (auto simp: av_ok_def av_set_def en)
  qed
  then show "av_ok (avoid_list st')"
    and "av_set (avoid_list st') = av_set (avoid_list st) \<union> {unat start ..< unat start + unat sz}" by blast+
qed

lemma ws_take_spec:
  assumes "ws_take sz st = Inr (Some p, st')" and "ram_list st \<noteq> []" and "ram_inv st"
    and "sz \<noteq> 0" and "unat sz \<le> 2 ^ 62"
  defines "n \<equiv> unat (ROUND sz 8)"
  shows "{unat p ..< unat p + n} \<subseteq> usable st" and "unat sz \<le> n" and "8 dvd unat p"
    and "ram_inv st'" and "usable st' = usable st - {unat p ..< unat p + n}" and "avoid_set st' = avoid_set st"
proof -
  have e8: "is_pow2 (8 :: paddr_t)" using is_pow2I [of 3] by simp
  have b: "unat sz \<le> n" unfolding n_def by (rule ROUND_bounds(1) [OF e8]) (use assms(5) in simp)
  have nz: "ROUND sz 8 \<noteq> 0" using b assms(4) by (auto simp: n_def word_eq_nat)
  from assms(1,2) have f: "find_ram (ROUND sz 8) 8 0 0 st = p" and ne: "p \<noteq> NULL_PADDR"
    and a: "avoid_more p (ROUND sz 8) st = Inr st'"
    by (auto simp: ws_take_def Let_def list_bytes_def ENTRY_BYTES_def split: if_splits)
  note fr = find_ram_spec [OF f ne assms(3), folded n_def]
  have in': "{unat p ..< unat p + n} \<subseteq> usable st" "8 dvd unat p" "unat p + n \<le> 2 ^ 63" using fr e8 by simp_all
  have "unat p + unat (ROUND sz 8) < 2 ^ 64" using in'(3) by (simp add: n_def)
  note am = avoid_more_spec [OF a _ this nz, folded n_def]
  show "{unat p ..< unat p + n} \<subseteq> usable st" "unat sz \<le> n" "8 dvd unat p" by (fact in' b)+
  show "ram_inv st'" using am assms(3) by (simp add: ram_inv_def)
  show "usable st' = usable st - {unat p ..< unat p + n}" using am assms(3) by (auto simp: usable_def ram_inv_def)
  show "avoid_set st' = avoid_set st" using am assms(3) by (simp add: ram_inv_def)
qed

end
