(* ===== verification/Ram_Pool.thy ===== *)
theory Ram_Pool
  imports Ram_Alloc
begin

text \<open>
  The allocators of \<open>ram.c\<close> as users of one pool of memory: the interface that makes the ranges handed out by any sequence of requests
  disjoint, and its two instances on the model, the free list and the early working storage behind the boot image.
\<close>

section \<open>Interface: a pool of memory\<close>

text \<open>
  A request changes the state and gives an answer, or crashes.  \<open>rng\<close> is the part of the answer taken from the pool, \<open>free\<close> what the
  pool has left.  \<open>inv\<close> speaks of the requests still to come as well, so it can bound what they may ask for.
\<close>

primrec serve_all :: "('q \<Rightarrow> 's \<Rightarrow> ('r \<times> 's) result) \<Rightarrow> 'q list \<Rightarrow> 's \<Rightarrow> ('r list \<times> 's) result" where
  "serve_all serve [] s = Inr ([], s)"
| "serve_all serve (q # qs) s =
     bind_result (serve q s) (\<lambda>(r, s). bind_result (serve_all serve qs s) (\<lambda>(rs, s). Inr (r # rs, s)))"

locale memory_pool =
  fixes serve :: "'q \<Rightarrow> 's \<Rightarrow> ('r \<times> 's) result"
    and rng :: "'r \<Rightarrow> nat set"
    and free :: "'s \<Rightarrow> nat set"
    and inv :: "'q list \<Rightarrow> 's \<Rightarrow> bool"
  assumes serve_inv: "serve q s = Inr (r, s') \<Longrightarrow> inv (q # qs) s \<Longrightarrow> inv qs s'"
    and serve_from: "serve q s = Inr (r, s') \<Longrightarrow> inv (q # qs) s \<Longrightarrow> rng r \<subseteq> free s"
    and serve_takes: "serve q s = Inr (r, s') \<Longrightarrow> inv (q # qs) s \<Longrightarrow> free s' = free s - rng r"
begin

lemma serve_all_spec:
  assumes "serve_all serve qs s = Inr (rs, s')" and "inv qs s"
  shows "inv [] s' \<and> (\<Union>r \<in> set rs. rng r) \<subseteq> free s \<and> free s' = free s - (\<Union>r \<in> set rs. rng r)
    \<and> sorted_wrt (\<lambda>a b. rng a \<inter> rng b = {}) rs \<and> length rs = length qs"
  using assms
proof (induction qs arbitrary: s rs)
  case (Cons q qs)
  from Cons.prems(1) obtain r s1 rs1 where q: "serve q s = Inr (r, s1)"
    and rest: "serve_all serve qs s1 = Inr (rs1, s')" and rs: "rs = r # rs1" by auto
  note s1 = serve_inv [OF q Cons.prems(2)] serve_from [OF q Cons.prems(2)] serve_takes [OF q Cons.prems(2)]
  show ?case using Cons.IH [OF rest s1(1)] s1(2,3) by (auto simp: rs)
qed simp

end

section \<open>The requests\<close>

text \<open>Requests to \<open>alloc_ram(NULL_PADDR, size, align)\<close> and to \<open>ws_alloc(size)\<close>.\<close>

datatype mem_req = Req_alloc paddr_t u32 | Req_ws u64

text \<open>
  The answer: the start and length of the physical range handed out, from the free list or, when that is empty, from \<open>ws_early_next\<close>;
  or nothing.
\<close>

datatype mem_answer = From_ram paddr_t u64 | From_early paddr_t u64 | Refused

fun serve_mem :: "ram_env \<Rightarrow> mem_req \<Rightarrow> 'a ram_state_scheme \<Rightarrow> (mem_answer \<times> 'a ram_state_scheme) result" where
  "serve_mem env (Req_alloc sz align) st =
     bind_result (alloc_ram env NULL_PADDR sz align st) (\<lambda>(a, st).
       Inr (if a = NULL_PADDR then Refused else From_ram a sz, st))"
| "serve_mem env (Req_ws sz) st =
     bind_result (ws_alloc env sz st) (\<lambda>(p, st').
       Inr (case p of None \<Rightarrow> Refused
            | Some p \<Rightarrow> if ram_list st = [] then From_early (p - ucast (paddr_bias env)) (ROUND sz 8)
                        else From_ram (p - ucast (paddr_bias env)) (ROUND sz 8), st'))"

fun ram_addrs :: "mem_answer \<Rightarrow> nat set" where
  "ram_addrs (From_ram a n) = {unat a ..< unat a + unat n}"
| "ram_addrs _ = {}"

fun early_addrs :: "mem_answer \<Rightarrow> nat set" where
  "early_addrs (From_early a n) = {unat a ..< unat a + unat n}"
| "early_addrs _ = {}"

fun ok_req :: "mem_req \<Rightarrow> bool" where
  "ok_req (Req_alloc sz align) \<longleftrightarrow> sz \<noteq> 0 \<and> is_pow2 (ucast align)"
| "ok_req (Req_ws sz) \<longleftrightarrow> sz \<noteq> 0 \<and> unat sz \<le> 2 ^ 62"

text \<open>The most that the requests can take from the early storage.\<close>

fun ws_size :: "mem_req \<Rightarrow> nat" where
  "ws_size (Req_alloc sz align) = 0"
| "ws_size (Req_ws sz) = unat (ROUND sz 8)"

definition pool_inv :: "'a ram_state_scheme \<Rightarrow> bool" where
  "pool_inv st \<longleftrightarrow> ram_inv st \<and> avoid_set st"

definition pool_ready :: "mem_req list \<Rightarrow> 'a ram_state_scheme \<Rightarrow> bool" where
  "pool_ready qs st \<longleftrightarrow> pool_inv st \<and> (\<forall>q \<in> set qs. ok_req q)
     \<and> unat (ws_early_next st) + sum_list (map ws_size qs) < 2 ^ 64"

section \<open>What each request does\<close>

lemma round8:
  fixes sz :: u64
  assumes "sz \<noteq> 0" and "unat sz \<le> 2 ^ 62"
  shows "unat sz \<le> unat (ROUND sz 8)" and "ROUND sz 8 \<noteq> 0"
proof -
  have e8: "is_pow2 (8 :: u64)" using is_pow2I [of 3] by simp
  show b: "unat sz \<le> unat (ROUND sz 8)" by (rule ROUND_bounds(1) [OF e8]) (use assms(2) in simp)
  show "ROUND sz 8 \<noteq> 0" using b assms(1) by (auto simp: word_eq_nat)
qed

lemma alloc_ram_early:
  assumes "alloc_ram env NULL_PADDR sz align st = Inr (a, st')"
  shows "ws_early_next st' = ws_early_next st"
proof -
  have keeps: "ws_early_next st1 = ws_early_next s" if "take_ram env x sz s = Inr st1" for x s st1
  proof -
    from that obtain l where "lsp.more st1 = lsp.more (s\<lparr>ram_list := l\<rparr>)"
      by (auto simp: take_ram_def Let_def split: if_splits dest: alloc_sysram_keeps)
    from ram_state_more(6) [OF this] show ?thesis by simp
  qed
  show ?thesis using assms by (auto simp: alloc_ram_def Let_def split: if_splits dest: keeps)
qed

lemma ws_take_early:
  assumes "ws_take sz st = Inr (p, st')" and "ram_list st = []" and "ram_inv st" and "sz \<noteq> 0" and "unat sz \<le> 2 ^ 62"
    and "unat (ws_early_next st) + unat (ROUND sz 8) < 2 ^ 64"
  shows "p = Some (ws_early_next st)" and "ram_list st' = []" and "ram_inv st'" and "avoid_set st' = avoid_set st"
    and "unat (ws_early_next st') = unat (ws_early_next st) + unat (ROUND sz 8)"
proof -
  define st0 where "st0 = st\<lparr>ws_early_next := ws_early_next st + ROUND sz 8\<rparr>"
  have a: "avoid_more (ws_early_next st) (ROUND sz 8) st0 = Inr st'" and p: "p = Some (ws_early_next st)"
    using assms(1,2) by (auto simp: ws_take_def Let_def list_bytes_def ENTRY_BYTES_def st0_def)
  then show "p = Some (ws_early_next st)" by simp
  have "av_ok (avoid_list st0)" using assms(3) by (simp add: st0_def ram_inv_def)
  note am = avoid_more_spec [OF a this assms(6) round8(2) [OF assms(4,5)]]
  show "ram_list st' = []" "avoid_set st' = avoid_set st" using am(3,4) assms(2) by (simp_all add: st0_def)
  show "ram_inv st'" using am(1,3) assms(2,3) by (simp add: ram_inv_def st0_def)
  have "ws_early_next st' = ws_early_next st0" using a by (auto simp: avoid_more_def Let_def split: if_splits)
  then show "unat (ws_early_next st') = unat (ws_early_next st) + unat (ROUND sz 8)"
    using assms(6) by (simp add: st0_def unat_add_noov)
qed

lemma ws_take_keeps:
  assumes "ws_take sz st = Inr (p, st')" and "ram_list st \<noteq> []"
  shows "ws_early_next st' = ws_early_next st" and "ram_list st' = ram_list st" and "p = None \<Longrightarrow> st' = st"
  using assms by (auto simp: ws_take_def Let_def list_bytes_def ENTRY_BYTES_def avoid_more_def split: if_splits)

text \<open>The answer to a request, the state behind it and what is left for the requests to come.\<close>

lemma serve_mem_spec:
  assumes "serve_mem env q st = Inr (r, st')" and "pool_ready (q # qs) st"
  shows "pool_ready qs st' \<and> ram_addrs r \<subseteq> usable st \<and> usable st' = usable st - ram_addrs r
    \<and> early_addrs r = {unat (ws_early_next st) ..< unat (ws_early_next st')}
    \<and> unat (ws_early_next st) \<le> unat (ws_early_next st')
    \<and> (ram_list st = [] \<longrightarrow> ram_list st' = []) \<and> (early_addrs r \<noteq> {} \<longrightarrow> ram_list st = [])"
proof (cases q)
  case (Req_alloc sz align)
  then obtain a where run: "alloc_ram env NULL_PADDR sz align st = Inr (a, st')"
    and r: "r = (if a = NULL_PADDR then Refused else From_ram a sz)" using assms(1) by auto
  have i: "ram_inv st" "is_pow2 (ucast align)" "sz \<noteq> 0" "avoid_set st" using assms(2) Req_alloc by (auto simp: pool_ready_def pool_inv_def)
  note ws = alloc_ram_early [OF run]
  show ?thesis
  proof (cases "a = NULL_PADDR")
    case True
    from run True consider "st' = st" | "find_ram sz align 0 0 st = NULL_PADDR" "st' = st"
      by (auto simp: alloc_ram_def Let_def split: if_splits)
    then have "st' = st" by cases
    then show ?thesis using assms(2) True Req_alloc by (auto simp: r pool_ready_def)
  next
    case False
    note sp = alloc_ram_found [OF run False i(1-3)]
    have "0 < unat sz" using i(3) by (simp add: unat_gt_0)
    then have "unat a \<in> usable st" using sp(1) by auto
    then have "ram_list st \<noteq> []" by (auto simp: usable_def)
    then show ?thesis using sp assms(2) False ws Req_alloc by (auto simp: r usable_def pool_ready_def pool_inv_def)
  qed
next
  case (Req_ws sz)
  have i: "ram_inv st" "avoid_set st" "sz \<noteq> 0" "unat sz \<le> 2 ^ 62" "unat (ws_early_next st) + unat (ROUND sz 8) < 2 ^ 64"
    using assms(2) Req_ws by (auto simp: pool_ready_def pool_inv_def)
  obtain p where run: "ws_take sz st = Inr (p, st')"
    and a: "r = (case map_option (make_1to1 env) p of None \<Rightarrow> Refused
      | Some p \<Rightarrow> if ram_list st = [] then From_early (p - ucast (paddr_bias env)) (ROUND sz 8)
                  else From_ram (p - ucast (paddr_bias env)) (ROUND sz 8))"
    using assms(1) i(2) Req_ws by (auto simp: ws_alloc_def)
  have r: "r = (case p of None \<Rightarrow> Refused | Some p \<Rightarrow> if ram_list st = [] then From_early p (ROUND sz 8) else From_ram p (ROUND sz 8))"
    by (cases p) (simp_all add: a make_1to1_def)
  show ?thesis
  proof (cases "ram_list st = []")
    case True
    note sp = ws_take_early [OF run True i(1,3-5)]
    show ?thesis using sp assms(2) True Req_ws by (simp add: r pool_ready_def pool_inv_def usable_def)
  next
    case ram: False
    note k = ws_take_keeps [OF run ram]
    show ?thesis
    proof (cases p)
      case None
      then show ?thesis using k(3) assms(2) Req_ws by (simp add: r pool_ready_def)
    next
      case (Some a)
      note sp = ws_take_spec [OF run [unfolded Some] ram i(1,3,4)]
      show ?thesis using sp k assms(2) ram Req_ws by (auto simp: r Some pool_ready_def pool_inv_def)
    qed
  qed
qed

text \<open>The free list is such a pool, and so is the storage from \<open>ws_early_next\<close> on.\<close>

interpretation ram_pool: memory_pool "serve_mem env" ram_addrs usable pool_ready for env
  by unfold_locales (use serve_mem_spec in blast)+

definition early_free :: "'a ram_state_scheme \<Rightarrow> nat set" where
  "early_free st = {unat (ws_early_next st) ..}"

interpretation early_pool: memory_pool "serve_mem env" early_addrs early_free pool_ready for env
proof
  fix q and s s' :: "'b ram_state_scheme" and r qs
  assume a: "serve_mem env q s = Inr (r, s')" "pool_ready (q # qs) s"
  note sp = serve_mem_spec [OF a]
  show "pool_ready qs s'" using sp by blast
  show "early_addrs r \<subseteq> early_free s" using sp by (auto simp: early_free_def)
  show "early_free s' = early_free s - early_addrs r" using sp by (auto simp: early_free_def)
qed

lemma early_only_when_empty:
  assumes "serve_all (serve_mem env) qs st = Inr (rs, st')" and "pool_ready qs st"
  shows "(\<exists>r \<in> set rs. early_addrs r \<noteq> {}) \<or> ram_list st = [] \<longrightarrow> ram_list st' = []"
  using assms
proof (induction qs arbitrary: st rs)
  case (Cons q qs)
  from Cons.prems(1) obtain r s1 rs1 where q: "serve_mem env q st = Inr (r, s1)"
    and rest: "serve_all (serve_mem env) qs s1 = Inr (rs1, st')" and rs: "rs = r # rs1" by auto
  from serve_mem_spec [OF q Cons.prems(2)] show ?case using Cons.IH [OF rest] by (auto simp: rs)
qed simp

end
