(* ===== verification/Ram_Props.thy ===== *)
theory Ram_Props
  imports Ram_Pool
begin

text \<open>
  The properties of the RAM bookkeeping, each with a concrete run: adding and removing
  ranges, the searches, the allocators together, zeroed memory, \<open>add_ram\<close> and
  \<open>reserve_ram\<close> as a whole, and two places where the code does not do what it means to.
\<close>

section \<open>Samples\<close>

text \<open>A small machine for the concrete runs: 64 KiB of RAM at 0x1000, the first page avoided.\<close>

definition sample_ram :: ram_state where
  "sample_ram = \<lparr>page = small_page, asinfo = [],
     ram_list = [\<lparr>ram_addr = 0x1000, ram_size = 0x10000\<rparr>],
     avoid_list = [\<lparr>av_start = 0x1000, av_end = 0x2000\<rparr>], avoid_set = True, ws_early_next = 0x20000,
     sysram_added = False, temp_syspage = NULL_PADDR, watch_list = [], watch_calls = [], mem = (\<lambda>_. 1)\<rparr>"

definition sample_env :: ram_env where
  "sample_env = \<lparr>abi = sample_abi, full_ram_paddr = 0x80000, shdr_ram_size = 0x4000, shdr_startup_size = 0x1000,
     paddr_bias = 0, secure_system = False, pagesize = 0x1000\<rparr>"

lemma sample_ram_inv: "ram_inv sample_ram" "pool_inv sample_ram"
  by (auto simp: ram_inv_def pool_inv_def sample_ram_def wf_ram_def ok_entry_def ram_hi_def ram_ivl_def ram_lo_def av_ok_def)

lemma pow2_samples [simp]: "is_pow2 (ucast (0x1000 :: u32))" "is_pow2 (ucast (8 :: u32))" "is_pow2 0x1000" "is_pow2 8"
  using is_pow2I [of 12] is_pow2I [of 3] by simp_all

section \<open>The free list, the searches, the allocators\<close>

text \<open>C7: \<open>add_mem\<close> keeps the free list sorted, without empty entries and with a gap between
  neighbours; the addresses it covers afterwards are those it covered before and the new range,
  whatever entries the range overlaps or touches.  It crashes only when the list is full.\<close>

theorem add_mem_adds_range:
  assumes "wf_ram l" and "unat start + unat sz < 2 ^ 64"
  shows "case add_mem start sz l of
      Inr l' \<Rightarrow> wf_ram l' \<and> ram_set l' = ram_set l \<union> {unat start ..< unat start + unat sz}
    | Inl e \<Rightarrow> e = Ram_entry_overflow \<and> 191 \<le> length l"
  using add_mem_spec [OF assms] by (auto split: sum.splits)

theorem add_mem_adds_range_witness:
  "add_mem 0x11000 0x1000 (ram_list sample_ram) = Inr [\<lparr>ram_addr = 0x1000, ram_size = 0x11000\<rparr>]
   \<and> wf_ram [\<lparr>ram_addr = 0x1000, ram_size = 0x11000\<rparr>]"
proof -
  have "add_mem 0x11000 0x1000 (ram_list sample_ram) = Inr [\<lparr>ram_addr = 0x1000, ram_size = 0x11000\<rparr>]" by code_simp
  then show ?thesis
    using add_mem_adds_range [of "ram_list sample_ram" "0x11000" "0x1000"] sample_ram_inv by (auto simp: ram_inv_def)
qed

text \<open>C6: \<open>alloc_ram\<close> at an address the caller chose takes exactly the range asked for out of the free
  list, splitting, shrinking or deleting whatever entries it meets, and keeps the list well formed.\<close>

theorem alloc_ram_removes_range:
  assumes "wf_ram (ram_list st)" and "unat addr + unat sz < 2 ^ 64" and "sz \<noteq> 0" and "addr \<noteq> NULL_PADDR"
    and "alloc_ram env addr sz align st = Inr (a, st')"
  shows "a = addr \<and> wf_ram (ram_list st')
    \<and> ram_set (ram_list st') = ram_set (ram_list st) - {unat addr ..< unat addr + unat sz}"
  using assms(4,5) take_ram_spec(1) [OF assms(1-3), of env st'] by (auto simp: alloc_ram_def)

theorem alloc_ram_removes_range_witness:
  "\<exists>st'. alloc_ram sample_env 0x3000 0x1000 1 sample_ram = Inr (0x3000, st')
     \<and> ram_set (ram_list st') = ram_set (ram_list sample_ram) - {0x3000 ..< 0x4000}"
proof -
  have "is_ok (alloc_ram sample_env 0x3000 0x1000 1 sample_ram)" by code_simp
  then obtain a st' where run: "alloc_ram sample_env 0x3000 0x1000 1 sample_ram = Inr (a, st')"
    by (auto elim: is_okE)
  have "wf_ram (ram_list sample_ram)" using sample_ram_inv by (simp add: ram_inv_def)
  from alloc_ram_removes_range [OF this _ _ _ run] run show ?thesis by (simp add: NULL_PADDR_def)
qed

text \<open>C8: \<open>alloc_ram\<close> always returns or crashes with one of three messages: its loops over the free
  list and over the \<open>sysram\<close> entries, both of which edit the list they walk, come to an end.\<close>

theorem alloc_ram_terminates:
  assumes "ram_inv st" and "is_pow2 (ucast align)" and "sz \<noteq> 0"
    and "addr \<noteq> NULL_PADDR \<longrightarrow> unat addr + unat sz < 2 ^ 64"
  shows "(\<exists>a st'. alloc_ram env addr sz align st = Inr (a, st'))
    \<or> alloc_ram env addr sz align st \<in> Inl ` {Ram_entry_overflow, Remove_whole_sysram, Syspage_exceeded}"
proof (cases "alloc_ram env addr sz align st")
  case (Inl e)
  have wf: "wf_ram (ram_list st)" using assms(1) by (simp add: ram_inv_def)
  have "e \<in> {Ram_entry_overflow, Remove_whole_sysram, Syspage_exceeded}"
  proof (cases "addr = NULL_PADDR")
    case True
    define a where "a = find_ram sz align 0 0 st"
    from True Inl obtain m where ne: "a \<noteq> NULL_PADDR" and t: "take_ram env a sz (st\<lparr>mem := m\<rparr>) = Inl e"
      by (auto simp: alloc_ram_def a_def Let_def bind_result_def split: if_splits sum.splits)
        (metis (no_types) ram_state.surjective ram_state.update_convs(9))+
    have "unat a + unat sz < 2 ^ 64" using find_ram_spec(3) [OF a_def [symmetric] ne assms(1,2)] by simp
    then show ?thesis using take_ram_spec(2) [OF _ _ assms(3) t] wf by auto
  next
    case False
    then show ?thesis
      using assms Inl take_ram_spec(2) [OF wf _ assms(3), of addr env e]
      by (auto simp: alloc_ram_def bind_result_def split: sum.splits)
  qed
  then show ?thesis using Inl by blast
qed auto

theorem alloc_ram_terminates_witness:
  "(\<exists>a st'. alloc_ram sample_env NULL_PADDR 0x3000 0x1000 sample_ram = Inr (a, st'))
    \<or> alloc_ram sample_env NULL_PADDR 0x3000 0x1000 sample_ram
        \<in> Inl ` {Ram_entry_overflow, Remove_whole_sysram, Syspage_exceeded}"
  by (rule alloc_ram_terminates [OF sample_ram_inv(1)]) simp_all

text \<open>\<open>find_ram_in_range\<close> without colouring returns either nothing or the start of a range that is
  RAM throughout, meets no avoided range and lies between the bounds given; without a lower bound the
  address is aligned as asked.\<close>

theorem find_ram_in_range_sound:
  assumes "ram_inv st" and "is_pow2 (ucast align)" and "find_ram_in_range rs re sz align 0 0 st \<noteq> NULL_PADDR"
  defines "a \<equiv> unat (find_ram_in_range rs re sz align 0 0 st)"
  shows "{a ..< a + unat sz} \<subseteq> ram_set (ram_list st) - av_set (avoid_list st)
    \<and> (rs \<noteq> 0 \<longrightarrow> unat rs \<le> a) \<and> (re \<noteq> 0 \<longrightarrow> a + unat sz \<le> unat re) \<and> (rs = 0 \<longrightarrow> unat align dvd a)"
  using find_in_range_spec [OF refl assms(3) [unfolded find_ram_in_range_def]] assms(1,2)
  by (simp add: a_def find_ram_in_range_def ram_inv_def word_le_nat_alt)

theorem find_ram_in_range_sound_witness:
  "find_ram_in_range 0x5000 0x9000 0x2000 0x1000 0 0 sample_ram = 0x5000
   \<and> {0x5000 ..< 0x7000} \<subseteq> ram_set (ram_list sample_ram) - av_set (avoid_list sample_ram)"
proof -
  have "find_ram_in_range 0x5000 0x9000 0x2000 0x1000 0 0 sample_ram = 0x5000" by code_simp
  then show ?thesis
    using find_ram_in_range_sound [OF sample_ram_inv(1), of "0x1000" "0x5000" "0x9000" "0x2000"]
    by (simp add: NULL_PADDR_def)
qed

lemma find_top_ram_aligned_fits:
  assumes "ram_inv st" and "is_pow2 (ucast align)" and "find_top_ram_aligned sz align pgsize st \<noteq> NULL_PADDR"
  defines "t \<equiv> find_top_ram_aligned sz align pgsize st" and "n \<equiv> ROUND sz (ucast pgsize)"
  shows "\<exists>r \<in> set (ram_list st). top_fits n (ucast align) (avoid_list st) r t"
    and "\<forall>r \<in> set (ram_list st). \<forall>t'. top_fits n (ucast align) (avoid_list st) r t' \<longrightarrow> t' \<le> t"
    and "{unat t ..< unat t + unat n} \<subseteq> usable st" and "unat align dvd unat t"
proof -
  define t0 where "t0 = find_top_loop n (ucast align) (- 1) (avoid_list st) (ram_list st) 0"
  have t: "t = t0" "t0 \<noteq> 0"
    using assms(3) by (auto simp: t_def t0_def n_def find_top_ram_aligned_def find_top_ram_aligned_limit_def Let_def split: if_splits)
  have inv: "wf_ram (ram_list st)" "ram_set (ram_list st) \<subseteq> {..< 2 ^ 63}" "av_ok (avoid_list st)"
    using assms(1) by (auto simp: ram_inv_def)
  have al: "ucast align = (0 :: u64) \<or> is_pow2 (ucast align)" using assms(2) by simp
  have nz: "ucast align \<noteq> (0 :: u64)" using assms(2) unat_pow2_64 by (fastforce simp: is_pow2_def)
  from find_top_spec [OF inv al, where sz = n and ?t0.0 = 0, folded t0_def] t(2) obtain r where r: "r \<in> set (ram_list st)"
    "top_fits n (ucast align) (avoid_list st) r t0"
    and high: "\<forall>r \<in> set (ram_list st). \<forall>t'. top_fits n (ucast align) (avoid_list st) r t' \<longrightarrow> t' \<le> t0" by blast
  then show "\<exists>r \<in> set (ram_list st). top_fits n (ucast align) (avoid_list st) r t"
    and "\<forall>r \<in> set (ram_list st). \<forall>t'. top_fits n (ucast align) (avoid_list st) r t' \<longrightarrow> t' \<le> t" by (auto simp: t)
  have "ok_entry r" using r(1) inv(1) by (simp add: wf_ram_def)
  note sp = top_fits_spec [OF r(2) this inv(3) al]
  have "ram_ivl r \<subseteq> ram_set (ram_list st)" using r(1) by (auto simp: ram_set_def)
  then show "{unat t ..< unat t + unat n} \<subseteq> usable st" using sp(1) by (auto simp: t(1) usable_def)
  show "unat align dvd unat t" using sp(3) nz by (simp add: t(1) unat_ucast_align)
qed

text \<open>\<open>find_top_ram_aligned\<close> returns the start of an aligned range of the size rounded up to whole
  pages that is RAM throughout and meets no avoided range, and no free-list entry offers a higher one.\<close>

theorem find_top_ram_aligned_highest:
  assumes "ram_inv st" and "is_pow2 (ucast align)" and "find_top_ram_aligned sz align pgsize st \<noteq> NULL_PADDR"
  defines "t \<equiv> find_top_ram_aligned sz align pgsize st" and "n \<equiv> ROUND sz (ucast pgsize)"
  shows "{unat t ..< unat t + unat n} \<subseteq> ram_set (ram_list st) - av_set (avoid_list st)
    \<and> unat align dvd unat t
    \<and> (\<forall>r \<in> set (ram_list st). \<forall>t'. top_fits n (ucast align) (avoid_list st) r t' \<longrightarrow> t' \<le> t)"
  using find_top_ram_aligned_fits [OF assms(1-3)] by (simp add: t_def n_def usable_def)

theorem find_top_ram_aligned_highest_witness:
  "find_top_ram_aligned 0x1800 0x1000 0x1000 sample_ram = 0xf000
   \<and> {0xf000 ..< 0x11000} \<subseteq> ram_set (ram_list sample_ram) - av_set (avoid_list sample_ram)"
proof -
  have "find_top_ram_aligned 0x1800 0x1000 0x1000 sample_ram = 0xf000"
    and "ROUND 0x1800 (ucast (0x1000 :: u32)) = 0x2000" by code_simp+
  then show ?thesis
    using find_top_ram_aligned_highest [OF sample_ram_inv(1), of "0x1000" "0x1800" "0x1000"]
    by (simp add: NULL_PADDR_def)
qed

text \<open>C1: However requests to \<open>alloc_ram\<close> and to \<open>ws_alloc\<close> are interleaved, refused ones included, the ranges answered from the free
  list are pairwise disjoint, were all usable RAM at the start and are not usable any more at the end.  The storage that \<open>ws_alloc\<close> hands
  out without a free list is taken piece by piece from \<open>ws_early_next\<close> on, so these ranges are pairwise disjoint too, and it is handed
  out only when no RAM is free any more.  Between the two kinds nothing is claimed: early storage may be RAM already handed out, see
  \<open>ws_alloc_after_exhaustion\<close>.  Sizes are not zero, alignments are powers of two, and the early storage does not run past
  the end of the addresses.\<close>

theorem allocations_disjoint:
  assumes "pool_ready qs st" and "serve_all (serve_mem env) qs st = Inr (rs, st')"
  shows "sorted_wrt (\<lambda>a b. ram_addrs a \<inter> ram_addrs b = {}) rs
    \<and> (\<Union>r \<in> set rs. ram_addrs r) \<subseteq> usable st \<and> usable st' = usable st - (\<Union>r \<in> set rs. ram_addrs r)
    \<and> sorted_wrt (\<lambda>a b. early_addrs a \<inter> early_addrs b = {}) rs
    \<and> (\<Union>r \<in> set rs. early_addrs r) \<subseteq> {unat (ws_early_next st) ..}
    \<and> ((\<exists>r \<in> set rs. early_addrs r \<noteq> {}) \<longrightarrow> ram_list st' = [])
    \<and> length rs = length qs \<and> pool_inv st'"
proof -
  note ram = ram_pool.serve_all_spec [OF assms(2,1)] and early = early_pool.serve_all_spec [OF assms(2,1), unfolded early_free_def]
  have inv: "pool_inv st'" using conjunct1 [OF ram] unfolding pool_ready_def by (rule conjunct1)
  have empty: "(\<exists>r \<in> set rs. early_addrs r \<noteq> {}) \<longrightarrow> ram_list st' = []" using early_only_when_empty [OF assms(2,1)] by blast
  show ?thesis using ram early inv empty by (elim conjE) (intro conjI)
qed

text \<open>A range of each kind of request, and one that is refused.\<close>

theorem allocations_disjoint_witness:
  "\<exists>rs st'. serve_all (serve_mem sample_env) [Req_ws 20, Req_alloc 0x1000 0x1000, Req_alloc 0x20000 8] sample_ram = Inr (rs, st')
     \<and> sorted_wrt (\<lambda>a b. ram_addrs a \<inter> ram_addrs b = {}) rs"
proof -
  let ?qs = "[Req_ws 20, Req_alloc 0x1000 0x1000, Req_alloc 0x20000 8]"
  have "is_ok (serve_all (serve_mem sample_env) ?qs sample_ram)" by code_simp
  then obtain rs st' where run: "serve_all (serve_mem sample_env) ?qs sample_ram = Inr (rs, st')" by (metis is_okE surj_pair)
  have "unat (ROUND 20 8 :: u64) = 24" by (simp add: ROUND_def TRUNC_def)
  then have "pool_ready ?qs sample_ram" using sample_ram_inv(2) by (simp add: pool_ready_def sample_ram_def)
  from run conjunct1 [OF allocations_disjoint [OF this run]] show ?thesis by (intro exI conjI)
qed

section \<open>Zeroed memory\<close>

lemma memset_range: "i < unat n \<Longrightarrow> memset p v n m (p + word_of_nat i) = v"
  by (simp add: memset_def word_less_nat_alt unat_of_nat order.strict_trans1 [OF mod_less_eq_dividend])

lemma ucast_low: "unat a < 2 ^ 32 \<Longrightarrow> ucast (ucast a :: u32) = (a :: u64)"
  by (simp add: word_eq_nat unsigned_ucast_eq unsigned_take_bit_eq take_bit_nat_eq_self)

text \<open>The memory \<open>calloc_ram\<close> returns is zero throughout; on a secure system this needs the memory
  to lie below 4 GiB.\<close>

theorem calloc_ram_zeroed:
  assumes "calloc_ram env sz align st = Inr (a, st')" and "a \<noteq> NULL_PADDR" and "ram_inv st"
    and "is_pow2 (ucast align)" and "sz \<noteq> 0" and "secure_system env \<longrightarrow> unat a < 2 ^ 32" and "i < unat sz"
  shows "mem st' (make_1to1 env a + word_of_nat i) = 0"
proof (cases "secure_system env")
  case False
  then show ?thesis using assms(1,2,7) by (auto simp: calloc_ram_def memset_range split: if_splits)
next
  case True
  then have "alloc_ram env NULL_PADDR sz align st = Inr (a, st')" using assms(1) by (auto simp: calloc_ram_def)
  with True assms(2) have a: "find_ram sz align 0 0 st = a"
    and t: "take_ram env a sz (st\<lparr>mem := memset (make_1to1 env (ucast (ucast a :: u32))) 0 sz (mem st)\<rparr>) = Inr st'"
    by (auto simp: alloc_ram_def Let_def split: if_splits)
  have "unat a + unat sz < 2 ^ 64" using find_ram_spec(3) [OF a assms(2-4)] by simp
  from take_ram_spec(1) [OF _ this assms(5) t] assms(3)
  have "mem st' = memset (make_1to1 env (ucast (ucast a :: u32))) 0 sz (mem st)" by (simp add: ram_inv_def)
  then show ?thesis using assms(6,7) True by (simp add: ucast_low memset_range)
qed

theorem calloc_ram_zeroed_witness:
  "\<exists>st'. calloc_ram sample_env 0x20 0x1000 sample_ram = Inr (0x2000, st') \<and> mem st' 0x201f = 0"
proof -
  have "is_ok (calloc_ram sample_env 0x20 0x1000 sample_ram)
    \<and> (case calloc_ram sample_env 0x20 0x1000 sample_ram of Inr (a, _) \<Rightarrow> a = 0x2000 | Inl _ \<Rightarrow> False)" by code_simp
  then obtain st' where run: "calloc_ram sample_env 0x20 0x1000 sample_ram = Inr (0x2000, st')"
    by (auto elim: is_okE)
  show ?thesis
    using calloc_ram_zeroed [OF run _ sample_ram_inv(1), of "0x1f"] run
    by (simp add: NULL_PADDR_def sample_env_def make_1to1_def)
qed

text \<open>
  On a secure system \<open>alloc_ram\<close> clears the memory itself, but truncates the address to 32
  bits first: with RAM at 4 GiB the memory \<open>calloc_ram\<close> returns keeps its old contents.
\<close>

theorem calloc_ram_secure_high_not_zeroed:
  "case calloc_ram (sample_env\<lparr>secure_system := True\<rparr>) 0x20 0x1000
      (sample_ram\<lparr>ram_list := [\<lparr>ram_addr = 0x100000000, ram_size = 0x10000\<rparr>]\<rparr>) of
     Inr (a, st') \<Rightarrow> a = 0x100000000 \<and> mem st' a = 1
   | Inl _ \<Rightarrow> False"
  by code_simp

text \<open>
  When the last free range has been allocated, \<open>ws_alloc\<close> takes the empty list to mean that no
  RAM was ever added, and hands out memory at \<open>ws_early_next\<close> whether or not there is RAM.
\<close>

theorem ws_alloc_after_exhaustion:
  "case alloc_ram sample_env 0x1000 0x10000 1 sample_ram of
     Inr (_, st) \<Rightarrow> (case ws_alloc sample_env 16 st of Inr (p, _) \<Rightarrow> ram_list st = [] \<and> p = Some 0x20000 | Inl _ \<Rightarrow> False)
   | Inl _ \<Rightarrow> False"
  by code_simp

section \<open>\<open>add_ram\<close> and \<open>reserve_ram\<close>\<close>

text \<open>The address space functions leave the fields of \<open>ram.c\<close> alone.\<close>

lemma as_add_more: "as_add ab start en attr name owner st = Inr (off, st') \<Longrightarrow> lsp.more st' = lsp.more st"
  by (auto simp: as_add_def as_add64_def dest!: as_add_entry_shape(1) split: if_splits)

lemma add_pieces_more: "add_pieces ab attr name rs acc = Inr (so, off, st') \<Longrightarrow> lsp.more st' = lsp.more (snd (snd acc))"
  by (induction ab attr name rs acc rule: add_pieces.induct) (auto split: if_splits dest!: as_add_more)

lemma overlay_pieces_more: "overlay_pieces n ab attr name off st = Inr st' \<Longrightarrow> lsp.more st' = lsp.more st"
  by (induction n ab attr name off st rule: overlay_pieces.induct) (auto split: if_splits dest!: as_add_more)

lemma as_add_containing_more:
  assumes "as_add_containing ab start en attr name container st = Inr (so, st')"
  shows "lsp.more st' = lsp.more st"
proof -
  let ?pa = "(attr AND NOT AS_OVERLAY_IO) OR ucast (AS_ATTR_CONTINUED ab)"
  let ?rs = "collect_pieces (length (asinfo st)) None start en container st []"
  from assms obtain so1 off st1 where 1: "add_pieces ab ?pa name ?rs (None, 0, st) = Inr (so1, off, st1)"
    by (auto simp: as_add_containing_def Let_def)
  then have m1: "lsp.more st1 = lsp.more st" by (auto dest: add_pieces_more)
  show ?thesis
  proof (cases so1)
    case None
    then show ?thesis using assms 1 m1 by (simp add: as_add_containing_def Let_def)
  next
    case (Some s)
    define st2 where "st2 = st1\<lparr>asinfo := (asinfo st1)[off := (asinfo st1 ! off)\<lparr>as_attr :=
      as_attr (asinfo st1 ! off) AND NOT (AS_ATTR_CONTINUED ab)\<rparr>]\<rparr>"
    have "lsp.more st2 = lsp.more st" by (simp add: st2_def m1)
    moreover from assms 1 Some have "st' = st2 \<or>
      overlay_pieces (length (asinfo st2)) ab (attr AND NOT AS_OVERLAY_IO) name s st2 = Inr st'"
      by (simp add: as_add_containing_def Let_def st2_def split: if_splits)
    ultimately show ?thesis by (auto dest: overlay_pieces_more)
  qed
qed

lemma add_default_as_more: "add_default_as env mmfr0 st = Inr st' \<Longrightarrow> lsp.more st' = lsp.more st"
  by (auto simp: add_default_as_def as_default_def split: if_splits dest!: as_add_more)

lemma ram_inv_more:
  assumes "lsp.more st' = lsp.more st"
  shows "ram_inv st' \<longleftrightarrow> ram_inv st"
  by (simp add: ram_inv_def ram_state_more [OF assms])

lemma place_temp_spec:
  assumes "place_temp_syspage env st = Inr st'" and "ram_inv st" and "avoid_set st"
  shows "ram_inv st' \<and> ram_list st' = ram_list st \<and> avoid_set st' \<and> av_set (avoid_list st) \<subseteq> av_set (avoid_list st')"
proof (cases "temp_syspage st = NULL_PADDR \<and> find_ram TEMP_SYSPAGE_SIZE 4096 0 0 st \<noteq> NULL_PADDR")
  case False
  then show ?thesis using assms by (auto simp: place_temp_syspage_def Let_def ram_inv_def split: if_splits)
next
  case True
  define p where "p = find_ram TEMP_SYSPAGE_SIZE 4096 0 0 st"
  from True assms(1,3) obtain st1 where a: "avoid_more p TEMP_SYSPAGE_SIZE (st\<lparr>temp_syspage := p\<rparr>) = Inr st1"
    and st': "st' = st1\<lparr>page := reloc_syspage_memory (ucast TEMP_SYSPAGE_SIZE) (page st1)\<rparr>"
    by (auto simp: place_temp_syspage_def Let_def p_def avoid_ram_def)
  have "p \<noteq> NULL_PADDR" using True by (simp add: p_def)
  note f = find_ram_spec(3) [OF p_def [symmetric] this assms(2)]
  have "unat p + unat TEMP_SYSPAGE_SIZE < 2 ^ 64" using f by (simp add: TEMP_SYSPAGE_SIZE_def)
  note am = avoid_more_spec [OF a _ this]
  show ?thesis using am assms(2,3) by (simp add: st' ram_inv_def TEMP_SYSPAGE_SIZE_def)
qed

text \<open>The part of the boot image behind the startup program, as \<open>add_ram\<close> passes it to \<open>alloc_ram\<close>.\<close>

definition image_start :: "ram_env \<Rightarrow> nat" where
  "image_start env = unat (full_ram_paddr env) + unat (shdr_startup_size env)"

definition image_end :: "ram_env \<Rightarrow> nat" where
  "image_end env = unat (full_ram_paddr env) + unat (shdr_ram_size env)"

lemma image_range:
  assumes "shdr_startup_size env < shdr_ram_size env" and "unat (full_ram_paddr env) + 2 ^ 33 < 2 ^ 64"
  defines "a \<equiv> full_ram_paddr env + ucast (shdr_startup_size env)"
    and "n \<equiv> ucast (shdr_ram_size env - shdr_startup_size env) :: u64"
  shows "unat a = image_start env" and "unat a + unat n = image_end env" and "unat a + unat n < 2 ^ 64"
    and "n \<noteq> 0" and "a \<noteq> NULL_PADDR"
proof -
  have u32: "unat (x :: u32) < 2 ^ 32" for x using unsigned_less [of x, where 'a = nat] by simp
  show a: "unat a = image_start env"
    unfolding a_def image_start_def using assms(2) u32 [of "shdr_startup_size env"]
    by (subst unat_add_noov) (simp_all add: unat_ucast_u32_u64)
  have n: "unat n = unat (shdr_ram_size env) - unat (shdr_startup_size env)"
    using assms(1) by (simp add: n_def unat_ucast_u32_u64 unat_sub word_order_nat)
  show en: "unat a + unat n = image_end env"
    using assms(1) by (simp add: a n image_start_def image_end_def word_order_nat)
  show "unat a + unat n < 2 ^ 64" unfolding en image_end_def using assms(2) u32 [of "shdr_ram_size env"] by simp
  show "n \<noteq> 0" using n assms(1) by (auto simp: word_eq_nat word_order_nat)
  show "a \<noteq> NULL_PADDR"
  proof
    assume "a = NULL_PADDR"
    then have "image_start env = 2 ^ 64 - 1"
      using a by (simp add: NULL_PADDR_def unsigned_minus_1_eq_mask mask_eq_exp_minus_1)
    then show False using assms(2) u32 [of "shdr_startup_size env"] by (simp add: image_start_def)
  qed
qed

lemma add_ram_spec:
  assumes "ram_inv st" and "avoid_set st" and "unat start + unat sz \<le> 2 ^ 63"
    and "shdr_startup_size env < shdr_ram_size env" and "unat (full_ram_paddr env) + 2 ^ 33 < 2 ^ 64"
    and "add_ram env mmfr0 start sz st = Inr st'"
  shows "ram_inv st' \<and> ram_set (ram_list st')
      = (ram_set (ram_list st) \<union> {unat start ..< unat start + unat sz}) - {image_start env ..< image_end env}
    \<and> avoid_set st' \<and> av_set (avoid_list st) \<subseteq> av_set (avoid_list st')"
proof -
  let ?ia = "full_ram_paddr env + ucast (shdr_startup_size env)"
  let ?is = "ucast (shdr_ram_size env - shdr_startup_size env) :: u64"
  note img = image_range [OF assms(4,5)]
  from assms(6) obtain st1 so st2 ram st3 st4 where
    1: "add_default_as env mmfr0 st = Inr st1"
    and 2: "as_add_containing (abi env) start (start + sz - 1) AS_ATTR_RAM (cs ''ram'') (cs ''memory'') st1 = Inr (so, st2)"
    and 3: "add_mem start sz (ram_list st2) = Inr ram"
    and 4: "take_ram env ?ia ?is (st2\<lparr>ram_list := ram\<rparr>) = Inr st3"
    and 5: "place_temp_syspage env st3 = Inr st4" and st': "st' = call_watchers start sz st4"
    using img(5) by (auto simp: add_ram_def alloc_ram_def)
  have "lsp.more st2 = lsp.more st" using add_default_as_more [OF 1] as_add_containing_more [OF 2] by simp
  note m2 = ram_state_more [OF this] and i2 = ram_inv_more [OF this]
  have wf: "wf_ram (ram_list st2)" using i2 assms(1) by (simp add: ram_inv_def)
  have nov: "unat start + unat sz < 2 ^ 64" using assms(3) by simp
  note am = add_mem_spec(1) [OF wf nov 3]
  note tk = take_ram_spec(1) [OF _ img(3,4) 4, unfolded img(1,2)]
  have set3: "ram_set (ram_list st3)
      = (ram_set (ram_list st) \<union> {unat start ..< unat start + unat sz}) - {image_start env ..< image_end env}"
    and wf3: "wf_ram (ram_list st3)" "avoid_list st3 = avoid_list st" "avoid_set st3"
    using tk am m2 img(1,2) assms(2) by simp_all
  have "ram_set (ram_list st3) \<subseteq> {..< 2 ^ 63}" using set3 assms(1,3) by (auto simp: ram_inv_def)
  then have "ram_inv st3" using wf3 assms(1) by (simp add: ram_inv_def)
  from place_temp_spec [OF 5 this wf3(3)] have "ram_inv st4" "ram_list st4 = ram_list st3" "avoid_set st4"
    "av_set (avoid_list st3) \<subseteq> av_set (avoid_list st4)" by blast+
  moreover have "ram_inv st' \<longleftrightarrow> ram_inv st4" "ram_list st' = ram_list st4" "avoid_set st' = avoid_set st4" "avoid_list st' = avoid_list st4"
    by (simp_all add: st' call_watchers_def ram_inv_def)
  ultimately show ?thesis using set3 wf3(2) by simp
qed

text \<open>C2: \<open>add_ram\<close> accounts for every address: afterwards the free list covers what it covered before
  and the new range, less the part of the boot image behind the startup program, and it is well formed.\<close>

theorem add_ram_accounts:
  assumes "ram_inv st" and "avoid_set st" and "unat start + unat sz \<le> 2 ^ 63"
    and "shdr_startup_size env < shdr_ram_size env" and "unat (full_ram_paddr env) + 2 ^ 33 < 2 ^ 64"
    and "add_ram env mmfr0 start sz st = Inr st'"
  shows "ram_inv st' \<and> ram_set (ram_list st')
      = (ram_set (ram_list st) \<union> {unat start ..< unat start + unat sz}) - {image_start env ..< image_end env}"
  using add_ram_spec [OF assms] by blast

theorem add_ram_accounts_witness:
  "\<exists>st'. add_ram sample_env 0 0x80000 0x100000 sample_ram = Inr st' \<and> ram_inv st'"
proof -
  have "is_ok (add_ram sample_env 0 0x80000 0x100000 sample_ram)" by code_simp
  then obtain st' where run: "add_ram sample_env 0 0x80000 0x100000 sample_ram = Inr st'" by (auto elim: is_okE)
  have "avoid_set sample_ram" by (simp add: sample_ram_def)
  from add_ram_accounts [OF sample_ram_inv(1) this _ _ _ run] run show ?thesis by (simp add: sample_env_def)
qed

text \<open>C9: \<open>reserve_ram\<close> takes one range of exactly the size asked for out of the free list, and nothing else.  The range was usable RAM
  and starts at a multiple of the alignment, or of the page size when that is 0; when the top of memory is asked for, it starts where
  \<open>find_top_ram_aligned\<close> finds room for the size rounded up to whole pages.  The comment before the function says that the block itself is
  rounded up to the page size and that 0 means no alignment; neither is so, and the rest of the last page stays free.\<close>

theorem reserve_ram_takes:
  assumes "ram_inv st" and "sz \<noteq> 0" and "is_pow2 (ucast (if align \<noteq> 0 then align else pgsize))" and "is_pow2 (ucast pgsize)"
    and "reserve_ram env sz align name pgsize low_region st = Inr st'"
  shows "\<exists>a. {a ..< a + unat sz} \<subseteq> usable st \<and> unat (if align \<noteq> 0 then align else pgsize) dvd a
    \<and> (low_region = 0 \<longrightarrow> a = unat (find_top_ram_aligned (ucast sz) (if align \<noteq> 0 then align else pgsize) pgsize st))
    \<and> wf_ram (ram_list st') \<and> ram_set (ram_list st') = ram_set (ram_list st) - {a ..< a + unat sz}"
proof -
  define al where "al = (if align \<noteq> 0 then align else pgsize)"
  have p2: "is_pow2 (ucast al)" using assms(3) by (simp add: al_def)
  have sz: "unat (ucast sz :: u64) = unat sz" "ucast sz \<noteq> (0 :: u64)"
    using assms(2) by (simp_all add: unat_ucast_u32_u64 word_eq_nat)
  define found where "found = (if low_region = 0 then find_top_ram_aligned (ucast sz) al pgsize st else NULL_PADDR)"
  from assms(2,5) obtain a st1 so where a: "alloc_ram env found (ucast sz) al st = Inr (a, st1)" and an: "a \<noteq> NULL_PADDR"
    and low: "low_region = 0 \<longrightarrow> found \<noteq> NULL_PADDR"
    and c: "as_add_containing (abi env) a (a + ucast sz - 1) AS_ATTR_RAM (if name = [] then cs ''reserved'' else name) (cs ''ram'') st1
        = Inr (so, st')"
    by (auto simp: reserve_ram_def Let_def al_def [symmetric] found_def split: if_splits)
  have m: "ram_list st' = ram_list st1" using ram_state_more(1) [OF as_add_containing_more [OF c]] .
  show ?thesis
  proof (cases "low_region = 0")
    case False
    then have "alloc_ram env NULL_PADDR (ucast sz) al st = Inr (a, st1)" using a by (simp add: found_def)
    from alloc_ram_found [OF this an assms(1) p2 sz(2)] show ?thesis
      by (intro exI [of _ "unat a"]) (simp add: m sz al_def ram_inv_def False)
  next
    case True
    then have f: "found = find_top_ram_aligned (ucast sz) al pgsize st" and fn: "found \<noteq> NULL_PADDR"
      using low by (simp_all add: found_def)
    note top = find_top_ram_aligned_fits(3,4) [OF assms(1) p2 fn [unfolded f], folded f]
    have le: "unat sz \<le> unat (ROUND (ucast sz) (ucast pgsize))"
      using ROUND_bounds(1) [OF assms(4), of "ucast sz"] unsigned_less [of sz, where 'a = nat]
        unsigned_less [of pgsize, where 'a = nat] by (simp add: unat_ucast_u32_u64)
    have sub: "{unat found ..< unat found + unat sz} \<subseteq> usable st" using top(1) le by fastforce
    then have "unat found + unat sz - 1 \<in> usable st" using assms(2) unat_gt_0 [of sz] by auto
    then have "unat found + unat sz - 1 < 2 ^ 63" using assms(1) by (auto simp: usable_def ram_inv_def)
    then have nov: "unat found + unat (ucast sz :: u64) < 2 ^ 64" by (simp add: sz)
    have "take_ram env found (ucast sz) st = Inr st1" "a = found" using a fn by (auto simp: alloc_ram_def)
    from take_ram_spec(1) [OF _ nov sz(2) this(1)] show ?thesis
      using sub top assms(1) True by (intro exI [of _ "unat found"]) (simp add: m sz al_def ram_inv_def found_def)
  qed
qed

theorem reserve_ram_takes_witness:
  "\<exists>st'. reserve_ram sample_env 0x1800 0 [] 0x1000 0 sample_ram = Inr st' \<and> {0xf000 ..< 0x10800} \<subseteq> usable sample_ram
     \<and> ram_set (ram_list st') = ram_set (ram_list sample_ram) - {0xf000 ..< 0x10800}"
proof -
  have "is_ok (reserve_ram sample_env 0x1800 0 [] 0x1000 0 sample_ram)" by code_simp
  then obtain st' where run: "reserve_ram sample_env 0x1800 0 [] 0x1000 0 sample_ram = Inr st'" by (auto elim: is_okE)
  have "find_top_ram_aligned (ucast (0x1800 :: u32)) 0x1000 0x1000 sample_ram = 0xf000" by code_simp
  then show ?thesis using reserve_ram_takes [OF sample_ram_inv(1) _ _ _ run] run by auto
qed

end
