(* ===== verification/Mmu.thy ===== *)
theory Mmu
  imports Ram
begin

text \<open>
  The page tables of the AArch64 start-up code: \<open>startup/lib/aarch64/aarch64_map.c\<close>, \<open>init_mmu.c\<close> and the wrappers
  around them.  The MMU is off, so a pointer is a physical address and the tables lie in the memory that \<open>calloc_ram\<close>
  hands out.  The bits of a descriptor, the index macros and the layout of the address space (\<open>aarch64/mmu.h\<close>) are
  not part of the repository; they are the fields of \<open>mmu_abi\<close>.
\<close>

section \<open>State and parameters\<close>

text \<open>The macros for 64 KiB pages are used when \<open>__PAGESIZE\<close> is larger than 4 KiB.\<close>

record mmu_abi =
  PTE_VALID :: u64
  PTE_AF :: u64
  PTE_URW :: u64
  PTE_KRW :: u64
  PTE_URO :: u64
  PTE_KRO :: u64
  PTE_UXN :: u64
  PTE_PXN :: u64
  PTE_SODEV :: u64
  PTE_DEV :: u64
  PTE_NC :: u64
  PTE_WBWA :: u64
  PTE_ISH :: u64
  PTE_nG :: u64
  PTE_CONTIG :: u64
  PTP_VALID :: u64
  PTP_BLOCK :: u64
  PTP_TYPE :: "u64 \<Rightarrow> u64"
  L1_IDX :: "u64 \<Rightarrow> nat"
  L2_IDX :: "u64 \<Rightarrow> nat"
  L3_IDX :: "u64 \<Rightarrow> nat"
  L2_IDX_64K :: "u64 \<Rightarrow> nat"
  L3_IDX_64K :: "u64 \<Rightarrow> nat"
  L1_VOFF :: "u64 \<Rightarrow> u64"
  L2_VOFF :: "u64 \<Rightarrow> u64"
  L3_VOFF :: "u64 \<Rightarrow> u64"
  L2_VOFF_64K :: "u64 \<Rightarrow> u64"
  L3_VOFF_64K :: "u64 \<Rightarrow> u64"
  L1_L1_IDX :: nat
  L1_L2_IDX :: nat
  L2_L2_IDX :: nat
  USER_END :: u64
  STARTUP_BASE :: u64
  STARTUP_BASE_64K :: u64
  PROT_READ :: u32
  PROT_WRITE :: u32
  PROT_EXEC :: u32
  PROT_NOCACHE :: u32
  PROT_DEVICE :: u32
  PROT_USER :: u32
  PF_R :: u32
  PF_W :: u32
  PF_X :: u32

text \<open>The variables of other files that are read here.\<close>

record mmu_env = ram_env +
  mmu :: mmu_abi
  hdr_virtual :: bool
  num_cpu :: nat
  meltdown_active :: int

record mmu_state = ram_state +
  L0_vaddr :: u64
  L1_ttbr0 :: paddr_t
  L1_ttbr1 :: paddr_t
  map_free_vaddr :: u64
  ttbr0 :: u64
  ttbr1 :: "u64 list"

definition CONTIG_PAGES :: nat where "CONTIG_PAGES = 16"
definition CONTIG_PAGES_64K :: nat where "CONTIG_PAGES_64K = 32"

section \<open>Words in memory\<close>

definition rd64 :: "paddr_t \<Rightarrow> (paddr_t \<Rightarrow> u8) \<Rightarrow> u64" where
  "rd64 a m = le_value (map (\<lambda>i. m (a + of_nat i)) [0..<8])"

definition wr64 :: "paddr_t \<Rightarrow> u64 \<Rightarrow> (paddr_t \<Rightarrow> u8) \<Rightarrow> paddr_t \<Rightarrow> u8" where
  "wr64 a v m = (\<lambda>b. if unat (b - a) < 8 then le_bytes 8 v ! unat (b - a) else m b)"

text \<open>The entry with index \<open>i\<close> of a table.\<close>

definition entry :: "paddr_t \<Rightarrow> nat \<Rightarrow> 'a ram_state_scheme \<Rightarrow> u64" where
  "entry t i st = rd64 (t + 8 * of_nat i) (mem st)"

definition put_entry :: "paddr_t \<Rightarrow> nat \<Rightarrow> u64 \<Rightarrow> 'a ram_state_scheme \<Rightarrow> 'a ram_state_scheme" where
  "put_entry t i v st = st\<lparr>mem := wr64 (t + 8 * of_nat i) v (mem st)\<rparr>"

section \<open>Descriptors\<close>

definition page_mask :: "'b mmu_env_scheme \<Rightarrow> u64" where
  "page_mask env = pagesize env - 1"

definition TRUNCPG :: "'b mmu_env_scheme \<Rightarrow> u64 \<Rightarrow> u64" where
  "TRUNCPG env x = x AND NOT (page_mask env)"

definition ROUNDPG :: "'b mmu_env_scheme \<Rightarrow> u64 \<Rightarrow> u64" where
  "ROUNDPG env x = TRUNCPG env (x + page_mask env)"

definition PTP_PADDR :: "'b mmu_env_scheme \<Rightarrow> u64 \<Rightarrow> paddr_t" where
  "PTP_PADDR env p = (p AND 0x0000fffffffff000) AND NOT (page_mask env)"

definition USE_LARGE_PAGE :: "'b mmu_env_scheme \<Rightarrow> bool" where
  "USE_LARGE_PAGE env \<longleftrightarrow> pagesize env > 0x1000"

definition NPTE_PTBL :: "'b mmu_env_scheme \<Rightarrow> nat" where
  "NPTE_PTBL env = unat (pagesize env) div 8"

definition USE_CONTIG :: "u64 \<Rightarrow> u64 \<Rightarrow> u64 \<Rightarrow> u64 \<Rightarrow> bool" where
  "USE_CONTIG v p s c \<longleftrightarrow> s \<ge> c \<and> (v OR p) AND (c - 1) = 0"

definition set_pte :: "'b mmu_env_scheme \<Rightarrow> paddr_t \<Rightarrow> u32 \<Rightarrow> u64" where
  "set_pte env paddr flags =
     (let a = mmu env;
          pte = paddr OR PTE_VALID a OR PTE_AF a;
          pte = pte OR (if has flags (PROT_WRITE a)
                        then if has flags (PROT_USER a) then PTE_URW a else PTE_KRW a
                        else if has flags (PROT_USER a) then PTE_URO a else PTE_KRO a);
          pte = pte OR (if \<not> has flags (PROT_EXEC a) then PTE_UXN a OR PTE_PXN a else 0);
          pte = pte OR (if has flags (PROT_DEVICE a)
                        then if has flags (PROT_NOCACHE a) then PTE_SODEV a else PTE_DEV a
                        else (if has flags (PROT_NOCACHE a) then PTE_NC a else PTE_WBWA a)
                             OR (if num_cpu env > 1 then PTE_ISH a else 0))
      in if meltdown_active env > 0 then pte OR PTE_nG a else pte)"

definition pt_alloc :: "'b mmu_env_scheme \<Rightarrow> 'a ram_state_scheme \<Rightarrow> (u64 \<times> 'a ram_state_scheme) result" where
  "pt_alloc env st =
     bind_result (calloc_ram (ram_env.truncate env) (pagesize env) (ucast (pagesize env)) st) (\<lambda>(pa, st).
       if pa = NULL_PADDR then Inl (Crash ''pt_alloc: calloc_ram failed'')
       else Inr (set_pte env pa (PROT_READ (mmu env) OR PROT_WRITE (mmu env)), st))"

text \<open>The entry is filled with a new table when it is zero; the result is the table it refers to.\<close>

definition next_table :: "'b mmu_env_scheme \<Rightarrow> paddr_t \<Rightarrow> nat \<Rightarrow> 'a ram_state_scheme \<Rightarrow> (paddr_t \<times> 'a ram_state_scheme) result" where
  "next_table env t i st =
     (if entry t i st = 0 then
        bind_result (pt_alloc env st) (\<lambda>(pte, st).
          let st = put_entry t i pte st in Inr (PTP_PADDR env (entry t i st), st))
      else Inr (PTP_PADDR env (entry t i st), st))"

section \<open>Mapping\<close>

definition contig_pages :: "'b mmu_env_scheme \<Rightarrow> nat" where
  "contig_pages env = (if USE_LARGE_PAGE env then CONTIG_PAGES_64K else CONTIG_PAGES)"

text \<open>The inner loop: \<open>n\<close> entries are written, \<open>va\<close> and \<open>pte\<close> advance by a page each.\<close>

primrec put_entries :: "nat \<Rightarrow> 'b mmu_env_scheme \<Rightarrow> paddr_t \<Rightarrow> nat \<Rightarrow> u64 \<Rightarrow> 'a ram_state_scheme \<Rightarrow> 'a ram_state_scheme" where
  "put_entries 0 env L3 L3i pte st = st"
| "put_entries (Suc n) env L3 L3i pte st = put_entries n env L3 (Suc L3i) (pte + pagesize env) (put_entry L3 L3i pte st)"

text \<open>The loop over a last-level table; the result is the address and the descriptor it got to.\<close>

definition contig_step :: "'b mmu_env_scheme \<Rightarrow> u64 \<Rightarrow> u64 \<Rightarrow> u64 \<Rightarrow> nat" where
  "contig_step env va en pte =
     (if USE_CONTIG va (TRUNCPG env pte) (en - va) (of_nat (contig_pages env) * pagesize env) then contig_pages env else 1)"

lemma contig_step_pos: "0 < contig_step env va en pte"
  by (simp add: contig_step_def contig_pages_def CONTIG_PAGES_def CONTIG_PAGES_64K_def)

function map_L3 ::
    "'b mmu_env_scheme \<Rightarrow> paddr_t \<Rightarrow> nat \<Rightarrow> u64 \<Rightarrow> u64 \<Rightarrow> u64 \<Rightarrow> 'a ram_state_scheme \<Rightarrow> u64 \<times> u64 \<times> 'a ram_state_scheme" where
  "map_L3 env L3 L3i va en pte st =
     (if L3i < NPTE_PTBL env \<and> va < en then
        let n = contig_step env va en pte;
            pte = (if n = contig_pages env then pte OR PTE_CONTIG (mmu env) else pte);
            st = put_entries n env L3 L3i pte st;
            va = va + of_nat n * pagesize env;
            pte = pte + of_nat n * pagesize env;
            pte = (if n = contig_pages env then pte AND NOT (PTE_CONTIG (mmu env)) else pte)
        in map_L3 env L3 (L3i + n) va en pte st
      else (va, pte, st))"
  by pat_completeness auto

termination
  by (relation "measure (\<lambda>(env, L3, L3i, _). NPTE_PTBL env - L3i)") (auto simp: contig_step_pos diff_less_mono2)

text \<open>The loop over a second-level table, and the loop over the first-level table.\<close>

function map_L2 ::
    "'b mmu_env_scheme \<Rightarrow> paddr_t \<Rightarrow> nat \<Rightarrow> u64 \<Rightarrow> u64 \<Rightarrow> u64 \<Rightarrow> 'a ram_state_scheme \<Rightarrow> (u64 \<times> u64 \<times> 'a ram_state_scheme) result" where
  "map_L2 env L2 L2i va en pte st =
     (if L2i < NPTE_PTBL env \<and> va < en then
        bind_result (next_table env L2 L2i st) (\<lambda>(L3, st).
          let L3i = (if USE_LARGE_PAGE env then L3_IDX_64K (mmu env) va else L3_IDX (mmu env) va);
              (va, pte, st) = map_L3 env L3 L3i va en pte st
          in map_L2 env L2 (Suc L2i) va en pte st)
      else Inr (va, pte, st))"
  by pat_completeness auto

termination
  by (relation "measure (\<lambda>(env, L2, L2i, _). NPTE_PTBL env - L2i)") auto

function map_L1 ::
    "'b mmu_env_scheme \<Rightarrow> paddr_t \<Rightarrow> nat \<Rightarrow> u64 \<Rightarrow> u64 \<Rightarrow> u64 \<Rightarrow> 'a ram_state_scheme \<Rightarrow> (u64 \<times> u64 \<times> 'a ram_state_scheme) result" where
  "map_L1 env L1 L1i va en pte st =
     (if L1i < NPTE_PTBL env \<and> va < en then
        bind_result
          (if USE_LARGE_PAGE env then Inr (L1, st) else next_table env L1 L1i st) (\<lambda>(L2, st).
        let L2i = (if USE_LARGE_PAGE env then L2_IDX_64K (mmu env) va else L2_IDX (mmu env) va)
        in bind_result (map_L2 env L2 L2i va en pte st) (\<lambda>(va, pte, st).
             map_L1 env L1 (Suc L1i) va en pte st))
      else Inr (va, pte, st))"
  by pat_completeness auto

termination
  by (relation "measure (\<lambda>(env, L1, L1i, _). NPTE_PTBL env - L1i)") auto

definition startup_base :: "'b mmu_env_scheme \<Rightarrow> u64" where
  "startup_base env = (if USE_LARGE_PAGE env then STARTUP_BASE_64K (mmu env) else STARTUP_BASE (mmu env))"

text \<open>Which first-level table an address range belongs to.\<close>

definition select_L1 :: "'b mmu_env_scheme \<Rightarrow> u64 \<Rightarrow> u64 \<Rightarrow> 'a mmu_state_scheme \<Rightarrow> paddr_t result" where
  "select_L1 env va en st =
     (if va < USER_END (mmu env) then
        if en \<ge> USER_END (mmu env) then Inl (Crash ''aarch64_map: %v >= %v'') else Inr (L1_ttbr0 st)
      else if va < startup_base env then Inl (Crash ''aarch64_map: %v < %v'')
      else Inr (L1_ttbr1 st))"

text \<open>The address \<open>~0\<close> asks for the next free range of addresses.\<close>

definition aarch64_map ::
    "'b mmu_env_scheme \<Rightarrow> u64 \<Rightarrow> paddr_t \<Rightarrow> u64 \<Rightarrow> u32 \<Rightarrow> 'a mmu_state_scheme \<Rightarrow> (paddr_t \<times> 'a mmu_state_scheme) result" where
  "aarch64_map env vaddr paddr sz flags st =
     (if \<not> hdr_virtual env then Inr (paddr, st)
      else
        let off = paddr AND page_mask env;
            paddr = paddr AND NOT (page_mask env);
            sz = ROUNDPG env (sz + off)
        in bind_result
             (if vaddr = - 1 then Inr (map_free_vaddr st, st\<lparr>map_free_vaddr := map_free_vaddr st + sz\<rparr>)
              else if vaddr AND page_mask env \<noteq> off then Inl (Crash ''aarch64_map: bad alignment va=%v pa=%v'')
              else Inr (vaddr, st)) (\<lambda>(vaddr, st).
           let va = TRUNCPG env vaddr;
               en = va + sz
           in if en < va then Inl (Crash ''aarch64_map: %v < %v, vaddr=%v, size=%d'')
              else bind_result (select_L1 env va en st) (\<lambda>L1.
                   let L1i = (if USE_LARGE_PAGE env then 0 else L1_IDX (mmu env) va)
                   in bind_result (map_L1 env L1 L1i va en (set_pte env paddr flags) st) (\<lambda>(_, _, st).
                        Inr (vaddr + off, st)))))"

section \<open>Looking an address up\<close>

definition elf_vaddr_to_paddr :: "'b mmu_env_scheme \<Rightarrow> u64 \<Rightarrow> 'a mmu_state_scheme \<Rightarrow> paddr_t result" where
  "elf_vaddr_to_paddr env vaddr st =
     (let a = mmu env;
          large = USE_LARGE_PAGE env
      in bind_result
           (if vaddr < USER_END a then Inr (L1_ttbr0 st)
            else if vaddr < startup_base env then Inl (Crash ''elf_vaddr_to_paddr: bad address %v'')
            else Inr (L1_ttbr1 st)) (\<lambda>L1.
         let pa1 = entry L1 (L1_IDX a vaddr) st
         in if \<not> large \<and> pa1 AND PTP_VALID a = 0 then Inr NULL_PADDR
            else if \<not> large \<and> PTP_TYPE a pa1 = PTP_BLOCK a then Inr (PTP_PADDR env pa1 OR L1_VOFF a vaddr)
            else
              let L2 = (if large then L1 else PTP_PADDR env pa1);
                  pa2 = entry L2 (if large then L2_IDX_64K a vaddr else L2_IDX a vaddr) st
              in if pa2 AND PTP_VALID a = 0 then Inr NULL_PADDR
                 else if PTP_TYPE a pa2 = PTP_BLOCK a
                 then Inr (PTP_PADDR env pa2 OR (if large then L2_VOFF_64K a vaddr else L2_VOFF a vaddr))
                 else
                   let pa3 = entry (PTP_PADDR env pa2) (if large then L3_IDX_64K a vaddr else L3_IDX a vaddr) st
                   in if pa3 AND PTE_VALID a \<noteq> PTE_VALID a then Inr NULL_PADDR
                      else Inr (PTP_PADDR env pa3 OR (if large then L3_VOFF_64K a vaddr else L3_VOFF a vaddr))))"

section \<open>Initialisation\<close>

text \<open>\<open>L0[1] = L1pte\<close> for every processor; the slots of a processor take 64 bytes.\<close>

definition l0_slots :: "paddr_t \<Rightarrow> u64 list" where
  "l0_slots L0 = map (\<lambda>i. L0 + 64 * of_nat i) [0..<PROCESSORS_MAX]"

definition aarch64_map_init :: "'b mmu_env_scheme \<Rightarrow> 'a mmu_state_scheme \<Rightarrow> 'a mmu_state_scheme result" where
  "aarch64_map_init env st =
     bind_result (calloc_ram (ram_env.truncate env) (pagesize env) (ucast (pagesize env)) st) (\<lambda>(t0, st).
     let st = st\<lparr>ttbr0 := t0, L1_ttbr0 := PTP_PADDR env t0\<rparr>
     in bind_result (pt_alloc env st) (\<lambda>(L1pte, st).
        let L1 = PTP_PADDR env L1pte;
            st = put_entry L1 (L1_L1_IDX (mmu env)) L1pte (st\<lparr>L1_ttbr1 := L1\<rparr>)
        in bind_result
             (if USE_LARGE_PAGE env then Inr (st\<lparr>map_free_vaddr := STARTUP_BASE_64K (mmu env)\<rparr>)
              else bind_result (pt_alloc env st) (\<lambda>(L2pte, st).
                     let st = put_entry L1 (L1_L2_IDX (mmu env)) L2pte st;
                         st = put_entry (PTP_PADDR env L2pte) (L2_L2_IDX (mmu env)) L1pte st
                     in Inr (st\<lparr>map_free_vaddr := STARTUP_BASE (mmu env)\<rparr>))) (\<lambda>st.
           let l0size = ROUNDPG env (64 * of_nat PROCESSORS_MAX)
           in bind_result (calloc_ram (ram_env.truncate env) l0size (ucast (pagesize env)) st) (\<lambda>(L0, st).
              bind_result (aarch64_map env (- 1) L0 l0size (PROT_READ (mmu env) OR PROT_WRITE (mmu env)) st) (\<lambda>(v, st).
                Inr (fold (\<lambda>a. put_entry a 1 L1pte) (l0_slots L0) (st\<lparr>L0_vaddr := v, ttbr1 := l0_slots L0\<rparr>)))))))"

definition callout_io_map :: "'b mmu_env_scheme \<Rightarrow> u32 \<Rightarrow> paddr_t \<Rightarrow> 'a mmu_state_scheme \<Rightarrow> (u64 \<times> 'a mmu_state_scheme) result" where
  "callout_io_map env sz phys =
     aarch64_map env (- 1) phys (ucast sz) (PROT_READ (mmu env) OR PROT_WRITE (mmu env) OR PROT_NOCACHE (mmu env) OR PROT_DEVICE (mmu env))"

definition callout_memory_map :: "'b mmu_env_scheme \<Rightarrow> u32 \<Rightarrow> paddr_t \<Rightarrow> u32 \<Rightarrow> 'a mmu_state_scheme \<Rightarrow> (u64 \<times> 'a mmu_state_scheme) result" where
  "callout_memory_map env sz phys prot = aarch64_map env (- 1) phys (ucast sz) prot"

definition elf_map :: "'b mmu_env_scheme \<Rightarrow> u64 \<Rightarrow> paddr_t \<Rightarrow> u64 \<Rightarrow> u32 \<Rightarrow> 'a mmu_state_scheme \<Rightarrow> 'a mmu_state_scheme result" where
  "elf_map env vaddr paddr sz flags st =
     (let a = mmu env;
          prot = flag_if (has flags (PF_R a)) (PROT_READ a) OR flag_if (has flags (PF_W a)) (PROT_WRITE a)
                 OR flag_if (has flags (PF_X a)) (PROT_EXEC a)
      in bind_result (aarch64_map env vaddr paddr sz prot st) (\<lambda>(_, st). Inr st))"

section \<open>The registers of the MMU\<close>

text \<open>The fields of \<open>TCR_EL1\<close> (\<open>aarch64/mmu.h\<close>) and the bits of \<open>SCTLR_EL1\<close> are parameters as well.\<close>

record tcr_abi =
  TCR_T0SZ :: "nat \<Rightarrow> u64"
  TCR_T1SZ :: "nat \<Rightarrow> u64"
  TCR_TG1_4K :: u64
  TCR_TG0_4K :: u64
  TCR_TG1_64K :: u64
  TCR_TG0_64K :: u64
  TCR_ORGN1_WBWA :: u64
  TCR_ORGN0_WBWA :: u64
  TCR_IRGN1_WBWA :: u64
  TCR_IRGN0_WBWA :: u64
  TCR_AS :: u64
  TCR_IPS :: "u64 \<Rightarrow> u64"
  TCR_SH1_ISH :: u64
  TCR_SH0_ISH :: u64

definition tcr_default :: "tcr_abi \<Rightarrow> u64" where
  "tcr_default t = TCR_T0SZ t 39 OR TCR_TG1_4K t OR TCR_TG0_4K t OR TCR_ORGN1_WBWA t OR TCR_ORGN0_WBWA t
     OR TCR_IRGN1_WBWA t OR TCR_IRGN0_WBWA t"

definition MMFR0_ASIDBITS :: "u64 \<Rightarrow> u64" where "MMFR0_ASIDBITS x = drop_bit 4 x AND 15"
definition MMFR0_PARANGE :: "u64 \<Rightarrow> u64" where "MMFR0_PARANGE x = x AND 7"

text \<open>The value of \<open>tcr_el1\<close> that \<open>init_mmu\<close> computes from the default and \<open>id_aa64mmfr0_el1\<close>.\<close>

definition init_tcr :: "tcr_abi \<Rightarrow> 'b mmu_env_scheme \<Rightarrow> u64 \<Rightarrow> u64 \<Rightarrow> u64" where
  "init_tcr t env mmfr0 tcr =
     (let tcr = (if pagesize env > 0x1000
                 then (tcr AND NOT (0x3f OR push_bit 30 3 OR push_bit 14 3))
                      OR TCR_T0SZ t 42 OR TCR_T1SZ t 43 OR TCR_TG1_64K t OR TCR_TG0_64K t
                 else tcr OR TCR_T1SZ t 40);
          tcr = (if MMFR0_ASIDBITS mmfr0 \<noteq> 0 then tcr OR TCR_AS t else tcr);
          tcr = tcr OR TCR_IPS t (MMFR0_PARANGE mmfr0)
      in tcr OR (TCR_SH1_ISH t OR TCR_SH0_ISH t))"

text \<open>
  \<open>init_mmu\<close>: the tables, then the identity mapping of the startup program.  The message behind \<open>debug_flag\<close> is left out.
\<close>

definition init_mmu ::
    "tcr_abi \<Rightarrow> 'b mmu_env_scheme \<Rightarrow> paddr_t \<Rightarrow> u64 \<Rightarrow> u64 \<Rightarrow> 'a mmu_state_scheme \<Rightarrow> (u64 \<times> 'a mmu_state_scheme) result" where
  "init_mmu t env full_image_paddr mmfr0 tcr st =
     (let tcr = init_tcr t env mmfr0 tcr in
      bind_result (aarch64_map_init env st) (\<lambda>st.
        let start = TRUNCPG env full_image_paddr;
            en = ROUNDPG env (full_image_paddr + ucast (shdr_startup_size env))
        in bind_result (aarch64_map env start start (en - start) (PROT_READ (mmu env) OR PROT_WRITE (mmu env) OR PROT_EXEC (mmu env)) st)
             (\<lambda>(_, st). Inr (tcr, st))))"

end
