(* ===== verification/Text.thy ===== *)
theory Text
  imports Prelude
begin

text \<open>
  Numbers, formatted output and the command line of the startup library: \<open>strtoul.c\<close>, \<open>getsize.c\<close>,
  \<open>ultoa_end.c\<close>, \<open>kprintf.c\<close>, \<open>getopt.c\<close>, \<open>bootstrap_cmdline.c\<close>.  A C string is the list of its bytes without the
  final zero, a pointer into it the suffix it points to; reading at the end of the string gives zero.
\<close>

section \<open>Strings and pointers into them\<close>

definition str :: "string \<Rightarrow> u8 list" where
  "str s = map of_char s"

definition at0 :: "u8 list \<Rightarrow> u8" where
  "at0 p = (case p of [] \<Rightarrow> 0 | c # _ \<Rightarrow> c)"

lemma at0_simps [simp]: "at0 [] = 0" "at0 (c # p) = c"
  by (simp_all add: at0_def)

section \<open>Reading numbers\<close>

definition hexstr :: "u8 list \<Rightarrow> bool" where
  "hexstr p \<longleftrightarrow> at0 p = of_char CHR ''0'' \<and> (at0 (tl p) = of_char CHR ''x'' \<or> at0 (tl p) = of_char CHR ''X'')"

definition radix_value :: "u8 \<Rightarrow> int" where
  "radix_value c =
     (if of_char CHR ''0'' \<le> c \<and> c \<le> of_char CHR ''9'' then uint c - of_char CHR ''0''
      else if of_char CHR ''a'' \<le> c \<and> c \<le> of_char CHR ''f'' then uint c - of_char CHR ''a'' + 10
      else if of_char CHR ''A'' \<le> c \<and> c \<le> of_char CHR ''F'' then uint c - of_char CHR ''A'' + 10
      else 37)"

text \<open>The loop over the digits; in a base above 37 it does not stop at the end of the string.\<close>

fun digit_loop :: "int \<Rightarrow> u64 \<Rightarrow> u8 list \<Rightarrow> (u64 \<times> u8 list) result" where
  "digit_loop base value [] = (if 37 \<ge> base then Inr (value, []) else Inl Out_of_bounds)"
| "digit_loop base value (c # p) =
     (let digit = radix_value c
      in if digit \<ge> base then Inr (value, c # p)
         else digit_loop base (value * of_int base + of_int digit) p)"

text \<open>The value and the rest of the string behind it (\<open>*endptr\<close>).\<close>

definition strtopaddr :: "u8 list \<Rightarrow> int \<Rightarrow> (u64 \<times> u8 list) result" where
  "strtopaddr nptr base =
     (let base = (if base = 0
                  then (if hexstr nptr then 16 else if at0 nptr = of_char CHR ''0'' then 8 else 10)
                  else base);
          startp = (if base = 16 \<and> hexstr nptr then drop 2 nptr else nptr)
      in bind_result (digit_loop base 0 startp) (\<lambda>(value, p).
           Inr (value, if length p = length startp then nptr else p)))"

definition strtoul :: "u8 list \<Rightarrow> int \<Rightarrow> (u64 \<times> u8 list) result" where
  "strtoul nptr base = strtopaddr nptr base"

definition getsize :: "u8 list \<Rightarrow> (u64 \<times> u8 list) result" where
  "getsize s =
     bind_result (strtopaddr s 0) (\<lambda>(v, s).
       if at0 s \<in> {of_char CHR ''G'', of_char CHR ''g''} then Inr (v * 1024 * 1024 * 1024, tl s)
       else if at0 s \<in> {of_char CHR ''M'', of_char CHR ''m''} then Inr (v * 1024 * 1024, tl s)
       else if at0 s \<in> {of_char CHR ''K'', of_char CHR ''k''} then Inr (v * 1024, tl s)
       else Inr (v, s))"

section \<open>Writing numbers\<close>

text \<open>The digits and the zero byte that ends their array.\<close>

definition digit_chars :: "u8 list" where
  "digit_chars = str ''0123456789abcdef'' @ [0]"

text \<open>
  The digits of \<open>v\<close> are stored backwards from the end of an array; \<open>n\<close> bytes are left in front of those
  stored.  With more digits than that the loop writes before the array.
\<close>

primrec digits_back :: "nat \<Rightarrow> u64 \<Rightarrow> u64 \<Rightarrow> u8 list \<Rightarrow> u8 list result" where
  "digits_back 0 v radix acc = Inl Out_of_bounds"
| "digits_back (Suc n) v radix acc =
     (if radix = 0 then Inl Divide_by_zero
      else if unat (v mod radix) \<ge> length digit_chars then Inl Out_of_bounds
      else
        let acc = digit_chars ! unat (v mod radix) # acc;
            v = v div radix
        in if v = 0 then Inr acc else digits_back n v radix acc)"

text \<open>The string stored at \<open>d\<close>; \<open>radix\<close> is an \<open>int\<close>, sign extended by the division.\<close>

definition ultoa_end :: "u64 \<Rightarrow> u32 \<Rightarrow> u8 list result" where
  "ultoa_end v radix = bind_result (digits_back 32 v (scast radix) []) (\<lambda>p. Inr (takeWhile (\<lambda>c. c \<noteq> 0) p))"

section \<open>Formatted output\<close>

text \<open>
  The arguments behind the format by the type \<open>va_arg\<close> takes them with; taking one that is missing or has
  another type is undefined.  \<open>vmsg\<close> is modelled by the list of characters it passes to \<open>print_char\<close>.
\<close>

datatype karg = Arg_unsigned u32 | Arg_long u64 | Arg_string "u8 list"

definition one_char :: "u8 \<Rightarrow> u8 list" where
  "one_char c = (if c = 0x0a then [0x0d, c] else [c])"

text \<open>The kinds of conversions: width of the argument, least number of digits and radix.\<close>

datatype conversion = Conv_unsigned nat u64 | Conv_long nat u64 | Conv_string | Conv_char

definition conversion_of :: "u8 \<Rightarrow> conversion" where
  "conversion_of c =
     (if c = of_char CHR ''b'' then Conv_unsigned 2 16
      else if c = of_char CHR ''w'' then Conv_unsigned 4 16
      else if c = of_char CHR ''P'' then Conv_long 16 16
      else if c = of_char CHR ''x'' then Conv_unsigned 8 16
      else if c = of_char CHR ''l'' then Conv_long 16 16
      else if c = of_char CHR ''L'' then Conv_long 16 16
      else if c = of_char CHR ''v'' then Conv_long 16 16
      else if c = of_char CHR ''d'' \<or> c = of_char CHR ''u'' then Conv_unsigned 0 10
      else if c = of_char CHR ''s'' then Conv_string
      else Conv_char)"

text \<open>A number with leading zeros; \<open>buf\<close> has 64 bytes, the last of which is the final zero.\<close>

definition print_number :: "u64 \<Rightarrow> nat \<Rightarrow> u64 \<Rightarrow> u8 list result" where
  "print_number num dig radix =
     bind_result (digits_back 63 num radix []) (\<lambda>vs.
       Inr (replicate (dig - length vs) (of_char CHR ''0'') @ vs))"

fun vmsg :: "u8 list \<Rightarrow> karg list \<Rightarrow> u8 list result" where
  "vmsg [] args = Inr []"
| "vmsg [c] args =
     (if c \<noteq> of_char CHR ''%'' then Inr (one_char c)
      else Inl Out_of_bounds)"
| "vmsg (c # d # fmt) args =
     (if c \<noteq> of_char CHR ''%'' then bind_result (vmsg (d # fmt) args) (\<lambda>out. Inr (one_char c @ out))
      else case conversion_of d of
        Conv_char \<Rightarrow> bind_result (vmsg fmt args) (\<lambda>out. Inr (one_char d @ out))
      | Conv_string \<Rightarrow>
          (case args of
             Arg_string s # args \<Rightarrow> bind_result (vmsg fmt args) (\<lambda>out. Inr (concat (map one_char s) @ out))
           | _ \<Rightarrow> Inl Out_of_bounds)
      | Conv_unsigned dig radix \<Rightarrow>
          (case args of
             Arg_unsigned num # args \<Rightarrow>
               bind_result (print_number (ucast num) dig radix) (\<lambda>n.
               bind_result (vmsg fmt args) (\<lambda>out. Inr (concat (map one_char n) @ out)))
           | _ \<Rightarrow> Inl Out_of_bounds)
      | Conv_long dig radix \<Rightarrow>
          (case args of
             Arg_long num # args \<Rightarrow>
               bind_result (print_number num dig radix) (\<lambda>n.
               bind_result (vmsg fmt args) (\<lambda>out. Inr (concat (map one_char n) @ out)))
           | _ \<Rightarrow> Inl Out_of_bounds))"

text \<open>
  A format that ends in a single percent sign makes the loop read behind its zero byte.  \<open>ksprintf\<close> and
  \<open>ksnprintf\<close> store into \<open>buff\<close>, here the bytes of the destination; the zero byte at the end of the output is stored in
  addition to the \<open>num\<close> characters.
\<close>

definition store_string :: "u8 list \<Rightarrow> u8 list \<Rightarrow> u8 list result" where
  "store_string buff out =
     (if length out + 1 > length buff then Inl Out_of_bounds
      else Inr (out @ [0] @ drop (length out + 1) buff))"

definition ksprintf :: "u8 list \<Rightarrow> u8 list \<Rightarrow> karg list \<Rightarrow> u8 list result" where
  "ksprintf buff fmt args = bind_result (vmsg fmt args) (store_string buff)"

definition ksnprintf :: "u8 list \<Rightarrow> nat \<Rightarrow> u8 list \<Rightarrow> karg list \<Rightarrow> u8 list result" where
  "ksnprintf buff num fmt args = bind_result (vmsg fmt args) (\<lambda>out. store_string buff (take num out))"

section \<open>Options\<close>

text \<open>
  The static and global variables of \<open>getopt.c\<close>.  \<open>opts_str\<close> only supplies the option list when the caller
  passes none, so the list is an argument here.  The result is a character, or -1 when there is no further option.
\<close>

record getopt_state =
  optind :: nat
  last_optind :: nat
  go_cp :: "u8 list"
  optarg :: "u8 list"

text \<open>The search for the option: the rest of the list from the option on.\<close>

fun find_opt :: "u8 \<Rightarrow> u8 list \<Rightarrow> u8 list" where
  "find_opt c [] = []"
| "find_opt c (x # opts) =
     (if x = of_char CHR '':'' then find_opt c opts
      else if c = x then x # opts
      else find_opt c opts)"

text \<open>The part behind the search: \<open>cp\<close> points to the option.\<close>

definition getopt_option :: "u8 list list \<Rightarrow> u8 list \<Rightarrow> getopt_state \<Rightarrow> int \<times> getopt_state" where
  "getopt_option argv opts st =
     (let opts = find_opt (at0 (go_cp st)) opts;
          st = st\<lparr>optarg := go_cp st, optind := optind st + 1\<rparr>
      in if at0 opts = 0 then (of_char CHR ''?'', st)
         else
           let opt = uint (at0 opts);
               st = st\<lparr>go_cp := tl (go_cp st)\<rparr>;
               wants_arg = (at0 (tl opts) = of_char CHR '':'')
           in if at0 (go_cp st) \<noteq> 0 then
                (if wants_arg then (opt, st\<lparr>optarg := go_cp st\<rparr>)
                 else (opt, st\<lparr>optind := optind st - 1\<rparr>))
              else if wants_arg then
                (if optind st < length argv
                 then (opt, st\<lparr>optarg := argv ! optind st, optind := optind st + 1\<rparr>)
                 else (of_char CHR ''?'', st))
              else (opt, st))"

definition getopt :: "u8 list list \<Rightarrow> u8 list \<Rightarrow> getopt_state \<Rightarrow> int \<times> getopt_state" where
  "getopt argv opts st =
     (let st = (if optind st = 0 then st\<lparr>optind := 1, last_optind := 0\<rparr> else st)
      in if optind st \<ge> length argv then (- 1, st)
         else
           let fresh = last_optind st \<noteq> optind st;
               arg = argv ! optind st;
               st = (if fresh then st\<lparr>go_cp := tl arg, last_optind := optind st\<rparr> else st)
           in if fresh \<and> (at0 arg \<noteq> of_char CHR ''-'' \<or> at0 (go_cp st) = 0) then (- 1, st)
              else if at0 (go_cp st) = of_char CHR ''-'' then (- 1, st\<lparr>optind := optind st + 1\<rparr>)
              else getopt_option argv opts st)"

section \<open>Boot arguments\<close>

text \<open>
  \<open>struct bootargs_entry\<close> as the bytes from its start: the size in two bytes, \<open>argc\<close>, \<open>envc\<close>, four bytes of header address, and
  the strings from byte 8 on; the list goes on behind the structure with the memory there.
\<close>

definition strlen_at :: "u8 list \<Rightarrow> nat \<Rightarrow> nat result" where
  "strlen_at m p =
     (if 0 \<in> set (drop p m) then Inr (length (takeWhile (\<lambda>c. c \<noteq> 0) (drop p m))) else Inl Out_of_bounds)"

primrec skip_strings :: "nat \<Rightarrow> u8 list \<Rightarrow> nat \<Rightarrow> nat result" where
  "skip_strings 0 m p = Inr p"
| "skip_strings (Suc start) m p =
     bind_result (strlen_at m p) (\<lambda>n. skip_strings start m (p + (n + 1)))"

text \<open>The search: the position reached, and the size of the string when it is the one sought.\<close>

primrec find_string :: "nat \<Rightarrow> u8 list \<Rightarrow> u8 list option \<Rightarrow> nat \<Rightarrow> (nat \<times> nat option) result" where
  "find_string 0 m old p = Inr (p, None)"
| "find_string (Suc num) m old p =
     bind_result (strlen_at m p) (\<lambda>n.
       if old = Some (take n (drop p m)) then Inr (p, Some (n + 1))
       else find_string num m old (p + (n + 1)))"

text \<open>\<open>memmove\<close> of \<open>len\<close> bytes to the index \<open>p\<close> from the index \<open>src\<close>, which can come out before the structure.\<close>

definition move_bytes :: "u8 list \<Rightarrow> nat \<Rightarrow> int \<Rightarrow> int \<Rightarrow> u8 list result" where
  "move_bytes m p src len =
     (if src < 0 \<or> len < 0 \<or> src + len > int (length m) \<or> int p + len > int (length m) then Inl Out_of_bounds
      else Inr (take p m @ take (nat len) (drop (nat src) m) @ drop (p + nat len) m))"

definition copy_bytes :: "u8 list \<Rightarrow> nat \<Rightarrow> u8 list \<Rightarrow> u8 list result" where
  "copy_bytes m p xs =
     (if p + length xs > length m then Inl Out_of_bounds
      else Inr (take p m @ xs @ drop (p + length xs) m))"

text \<open>The bytes \<open>argc\<close> and \<open>envc\<close> are signed; \<open>count\<close> is the index of the one to change.\<close>

definition do_adjust :: "u8 list \<Rightarrow> u8 list option \<Rightarrow> u8 list option \<Rightarrow> u32 \<Rightarrow> nat \<Rightarrow> (bool \<times> u8 list) result" where
  "do_adjust m old new start count =
     (let num = (scast (m ! count) :: u32)
      in bind_result (skip_strings (unat start) m 8) (\<lambda>p.
         bind_result (find_string (unat num) m old p) (\<lambda>(p, found).
           if found = None \<and> old \<noteq> None then Inr (False, m)
           else
             let sub_len = (case found of None \<Rightarrow> 0 | Some n \<Rightarrow> n);
                 add_len = (case new of None \<Rightarrow> 0 | Some s \<Rightarrow> length s + 1);
                 m = (if new = None then m[count := m ! count - 1]
                      else if old = None then m[count := m ! count + 1]
                      else m);
                 total_len = uint (m ! 0) + 256 * uint (m ! 1);
                 diff = int add_len - int sub_len;
                 src = int p - diff
             in bind_result (move_bytes m p src (total_len - src)) (\<lambda>m.
                bind_result (case new of None \<Rightarrow> Inr m | Some s \<Rightarrow> copy_bytes m p (s @ [0])) (\<lambda>m.
                  let total_len = (of_int (total_len + diff) :: u32)
                  in Inr (True, m[0 := ucast (total_len AND 0xff), 1 := ucast (drop_bit 8 total_len)]))))))"

definition bootstrap_arg_adjust :: "u8 list \<Rightarrow> u8 list option \<Rightarrow> u8 list option \<Rightarrow> (bool \<times> u8 list) result" where
  "bootstrap_arg_adjust m old new = do_adjust m old new 0 2"

definition bootstrap_env_adjust :: "u8 list \<Rightarrow> u8 list option \<Rightarrow> u8 list option \<Rightarrow> (bool \<times> u8 list) result" where
  "bootstrap_env_adjust m old new = do_adjust m old new (scast (m ! 2)) 3"

end
