(* ===== verification/Port.thy ===== *)
theory Port
  imports Prelude
begin

text \<open>
  Device registers of the I2C and SPI drivers.  The history lists the register accesses of the
  driver, oldest first; what a read returns is the parameter \<open>port\<close>, a function of the history
  and of the register, so that it covers every device whose answers depend on the accesses so
  far and on time.  Registers are offsets from the register base.
\<close>

datatype reg_access = Rd nat u32 | Wr nat u32

type_synonym history = "reg_access list"
type_synonym port = "history \<Rightarrow> nat \<Rightarrow> u32"

definition in32 :: "port \<Rightarrow> nat \<Rightarrow> history \<Rightarrow> u32 \<times> history" where
  "in32 p r h = (p h r, h @ [Rd r (p h r)])"

definition out32 :: "nat \<Rightarrow> u32 \<Rightarrow> history \<Rightarrow> history" where
  "out32 r v h = h @ [Wr r v]"

text \<open>The values written to and read from a register.\<close>

fun written :: "nat \<Rightarrow> history \<Rightarrow> u32 list" where
  "written r [] = []"
| "written r (Wr q v # h) = (if q = r then v # written r h else written r h)"
| "written r (Rd q v # h) = written r h"

fun fetched :: "nat \<Rightarrow> history \<Rightarrow> u32 list" where
  "fetched r [] = []"
| "fetched r (Rd q v # h) = (if q = r then v # fetched r h else fetched r h)"
| "fetched r (Wr q v # h) = fetched r h"

lemma written_append [simp]: "written r (h @ k) = written r h @ written r k"
  by (induction r h rule: written.induct) auto

lemma fetched_append [simp]: "fetched r (h @ k) = fetched r h @ fetched r k"
  by (induction r h rule: fetched.induct) auto

lemma in32_simps [simp]: "fst (in32 p r h) = p h r" "snd (in32 p r h) = h @ [Rd r (p h r)]"
  by (simp_all add: in32_def)

section \<open>Prefixes of a buffer\<close>

lemma unat_Suc_less: "c < t \<Longrightarrow> unat (c + 1) = Suc (unat (c :: 'a::len word))"
  by (metis add.commute add_eq_0_iff unatSuc word_less_nat_alt leD word_n1_ge add.inverse_inverse)

lemma take_Suc_nth: "n < length xs \<Longrightarrow> take (Suc n) xs = take n xs @ [xs ! n]"
  by (rule take_Suc_conv_app_nth)

text \<open>Storing behind the part already received.\<close>

lemma update_received:
  assumes "n < length bs" and "xs = ys @ drop n bs" and "length ys = n"
  shows "xs[n := b] = (ys @ [b]) @ drop (Suc n) bs"
proof -
  have "drop n bs = bs ! n # drop (Suc n) bs" using assms(1) by (simp add: Cons_nth_drop_Suc)
  then show ?thesis using assms by (simp add: list_update_append)
qed

end
