(* ===== verification/Board.thy ===== *)
theory Board
  imports Mmu Text Port
begin

text \<open>
  The board code of the Raspberry Pi 4 (\<open>startup/boards/bcm2711\<close>): the mailbox to the VideoCore, the detection of RAM, the
  pins, the watchdog, the start of the other processors, the mini UART and the arguments taken from the firmware's command
  line.  Registers are read and written through \<open>Port\<close> at their physical addresses.
\<close>

section \<open>State\<close>

text \<open>\<open>mbox_buf\<close> is the message buffer at \<open>MBOX_BUFFER_ADDR\<close> in words of 32 bits.\<close>

record board_state = mmu_state +
  io :: history
  mbox_buf :: "nat \<Rightarrow> u32"

text \<open>
  What registers return, what the VideoCore makes of a message (the buffer when its answer arrives), and the number of rounds a
  wait is given.
\<close>

record board_env =
  bport :: port
  vc :: "history \<Rightarrow> (nat \<Rightarrow> u32) \<Rightarrow> nat \<Rightarrow> u32"
  spins :: nat

definition io_read :: "board_env \<Rightarrow> nat \<Rightarrow> 'a board_state_scheme \<Rightarrow> u32 \<times> 'a board_state_scheme" where
  "io_read b r st = (let (v, h) = in32 (bport b) r (io st) in (v, st\<lparr>io := h\<rparr>))"

definition io_write :: "nat \<Rightarrow> u32 \<Rightarrow> 'a board_state_scheme \<Rightarrow> 'a board_state_scheme" where
  "io_write r v st = st\<lparr>io := out32 r v (io st)\<rparr>"

section \<open>The mailbox\<close>

definition MBOX_REG_BASE :: nat where "MBOX_REG_BASE = 0xfe00b880"
definition MBOX_BUFFER_ADDR :: u32 where "MBOX_BUFFER_ADDR = 0x100"
definition MBOX_SEND_CHANNEL :: u32 where "MBOX_SEND_CHANNEL = 8"
definition MBOX0_READ :: nat where "MBOX0_READ = 0"
definition MBOX0_STATUS :: nat where "MBOX0_STATUS = 0x18"
definition MBOX1_WRITE :: nat where "MBOX1_WRITE = 0x20"
definition MBOX_STATUS_FULL :: u32 where "MBOX_STATUS_FULL = 0x80000000"
definition MBOX_STATUS_EMPTY :: u32 where "MBOX_STATUS_EMPTY = 0x40000000"
definition MBOX_PROCESS_REQUEST :: u32 where "MBOX_PROCESS_REQUEST = 0"
definition MBOX_TAG_REQUEST :: u32 where "MBOX_TAG_REQUEST = 0"
definition MBOX_TAG_RESPONSE :: u32 where "MBOX_TAG_RESPONSE = 0x80000000"
definition MBOX_TAG_NULL :: u32 where "MBOX_TAG_NULL = 0"
definition MBOX_TAG_GET_BOARDREVISION :: u32 where "MBOX_TAG_GET_BOARDREVISION = 0x00010002"
definition MBOX_TAG_GET_MACADDRESS :: u32 where "MBOX_TAG_GET_MACADDRESS = 0x00010003"
definition MBOX_TAG_GET_BOARDSERIAL :: u32 where "MBOX_TAG_GET_BOARDSERIAL = 0x00010004"
definition MBOX_TAG_GET_ARMMEMORY :: u32 where "MBOX_TAG_GET_ARMMEMORY = 0x00010005"
definition MBOX_TAG_GET_VCMEMORY :: u32 where "MBOX_TAG_GET_VCMEMORY = 0x00010006"
definition MBOX_TAG_GET_POWERSTATE :: u32 where "MBOX_TAG_GET_POWERSTATE = 0x00020001"
definition MBOX_TAG_SET_POWERSTATE :: u32 where "MBOX_TAG_SET_POWERSTATE = 0x00028001"
definition MBOX_TAG_GET_CLOCKRATE :: u32 where "MBOX_TAG_GET_CLOCKRATE = 0x00030002"
definition MBOX_TAG_SET_CLOCKRATE :: u32 where "MBOX_TAG_SET_CLOCKRATE = 0x00038002"
definition MBOX_TAG_GET_VOLTAGE :: u32 where "MBOX_TAG_GET_VOLTAGE = 0x00030003"
definition MBOX_TAG_GET_TEMPERATURE :: u32 where "MBOX_TAG_GET_TEMPERATURE = 0x00030006"
definition MBOX_TAG_GET_GPIO_STATE :: u32 where "MBOX_TAG_GET_GPIO_STATE = 0x00030041"
definition MBOX_TAG_SET_GPIO_STATE :: u32 where "MBOX_TAG_SET_GPIO_STATE = 0x00038041"
definition MBOX_TAG_GET_CMDLINE :: u32 where "MBOX_TAG_GET_CMDLINE = 0x00050001"

text \<open>The two waits of \<open>mbox_send_message\<close>; what arrives on another channel is dropped.\<close>

primrec mbox_wait_ready :: "nat \<Rightarrow> board_env \<Rightarrow> 'a board_state_scheme \<Rightarrow> 'a board_state_scheme result" where
  "mbox_wait_ready 0 b st = Inl Diverges"
| "mbox_wait_ready (Suc n) b st =
     (let (rdata, st) = io_read b (MBOX_REG_BASE + MBOX0_STATUS) st
      in if \<not> has rdata MBOX_STATUS_FULL then Inr st else mbox_wait_ready n b st)"

primrec mbox_wait_response :: "nat \<Rightarrow> board_env \<Rightarrow> 'a board_state_scheme \<Rightarrow> (u32 \<times> 'a board_state_scheme) result" where
  "mbox_wait_response 0 b st = Inl Diverges"
| "mbox_wait_response (Suc n) b st =
     (let (rdata, st) = io_read b (MBOX_REG_BASE + MBOX0_STATUS) st
      in if has rdata MBOX_STATUS_EMPTY then mbox_wait_response n b st
         else let (rdata, st) = io_read b (MBOX_REG_BASE + MBOX0_READ) st
              in if rdata AND 0xf = MBOX_SEND_CHANNEL then Inr (rdata AND NOT 0xf, st)
                 else mbox_wait_response n b st)"

definition mbox_send_message :: "board_env \<Rightarrow> 'a board_state_scheme \<Rightarrow> (u32 \<times> 'a board_state_scheme) result" where
  "mbox_send_message b st =
     bind_result (mbox_wait_ready (spins b) b st) (\<lambda>st.
     let st = io_write (MBOX_REG_BASE + MBOX1_WRITE) ((MBOX_BUFFER_ADDR AND NOT 0xf) OR MBOX_SEND_CHANNEL) st
     in bind_result (mbox_wait_response (spins b) b st) (\<lambda>(r, st).
          Inr (r, st\<lparr>mbox_buf := vc b (io st) (mbox_buf st)\<rparr>)))"

text \<open>\<open>MSG_INIT\<close> of a message with \<open>n\<close> words in its body: two words of header, three of the tag, the body, the end.\<close>

definition MSG_INIT :: "nat \<Rightarrow> u32 \<Rightarrow> (nat \<Rightarrow> u32) \<Rightarrow> nat \<Rightarrow> u32" where
  "MSG_INIT n tagid m =
     m(0 := of_nat (4 * (n + 6)), 1 := MBOX_PROCESS_REQUEST, 2 := tagid, 3 := of_nat (4 * n), 4 := MBOX_TAG_REQUEST,
       n + 5 := MBOX_TAG_NULL)"

text \<open>Filling in the first words of the body; the rest keeps what the buffer held.\<close>

definition set_body :: "u32 list \<Rightarrow> (nat \<Rightarrow> u32) \<Rightarrow> nat \<Rightarrow> u32" where
  "set_body vs m = (\<lambda>k. if 5 \<le> k \<and> k < 5 + length vs then vs ! (k - 5) else m k)"

definition mbox_call :: "board_env \<Rightarrow> nat \<Rightarrow> u32 \<Rightarrow> u32 list \<Rightarrow> 'a board_state_scheme \<Rightarrow> 'a board_state_scheme result" where
  "mbox_call b n tagid vs st =
     bind_result (mbox_send_message b (st\<lparr>mbox_buf := set_body vs (MSG_INIT n tagid (mbox_buf st))\<rparr>)) (\<lambda>(_, st). Inr st)"

definition mbox_word :: "board_env \<Rightarrow> nat \<Rightarrow> u32 \<Rightarrow> u32 list \<Rightarrow> nat \<Rightarrow> 'a board_state_scheme \<Rightarrow> (u32 \<times> 'a board_state_scheme) result" where
  "mbox_word b n tagid vs i st = bind_result (mbox_call b n tagid vs st) (\<lambda>st. Inr (mbox_buf st (5 + i), st))"

definition mbox_get_board_revision :: "board_env \<Rightarrow> 'a board_state_scheme \<Rightarrow> (u32 \<times> 'a board_state_scheme) result" where
  "mbox_get_board_revision b = mbox_word b 1 MBOX_TAG_GET_BOARDREVISION [] 0"

definition mbox_get_board_mac_address :: "board_env \<Rightarrow> 'a board_state_scheme \<Rightarrow> (u8 list \<times> 'a board_state_scheme) result" where
  "mbox_get_board_mac_address b st =
     bind_result (mbox_call b 2 MBOX_TAG_GET_MACADDRESS [] st) (\<lambda>st.
       Inr (take 6 (le_bytes 4 (ucast (mbox_buf st 5)) @ le_bytes 4 (ucast (mbox_buf st 6))), st))"

definition mbox_get_board_serial :: "board_env \<Rightarrow> 'a board_state_scheme \<Rightarrow> (u64 \<times> 'a board_state_scheme) result" where
  "mbox_get_board_serial b st =
     bind_result (mbox_call b 2 MBOX_TAG_GET_BOARDSERIAL [] st) (\<lambda>st.
       Inr (push_bit 32 (ucast (mbox_buf st 6)) OR ucast (mbox_buf st 5), st))"

definition mbox_get_arm_memory :: "board_env \<Rightarrow> 'a board_state_scheme \<Rightarrow> (u32 \<times> 'a board_state_scheme) result" where
  "mbox_get_arm_memory b = mbox_word b 2 MBOX_TAG_GET_ARMMEMORY [] 1"

definition mbox_get_vc_memory :: "board_env \<Rightarrow> 'a board_state_scheme \<Rightarrow> (u32 \<times> 'a board_state_scheme) result" where
  "mbox_get_vc_memory b = mbox_word b 2 MBOX_TAG_GET_VCMEMORY [] 1"

text \<open>The line is the body of 488 bytes; the result is the memory from its start, \<open>None\<close> for NULL.\<close>

definition LINE_SIZE :: nat where "LINE_SIZE = 488"

definition line_bytes :: "(nat \<Rightarrow> u32) \<Rightarrow> u8 list" where
  "line_bytes m = concat (map (\<lambda>i. le_bytes 4 (ucast (m (5 + i)))) [0..<LINE_SIZE div 4])"

definition mbox_get_cmdline :: "board_env \<Rightarrow> 'a board_state_scheme \<Rightarrow> (u8 list option \<times> 'a board_state_scheme) result" where
  "mbox_get_cmdline b st =
     bind_result (mbox_call b (LINE_SIZE div 4) MBOX_TAG_GET_CMDLINE [] st) (\<lambda>st.
       let len = unat (mbox_buf st 4 AND NOT MBOX_TAG_RESPONSE)
       in if len \<ge> LINE_SIZE then Inr (None, st)
          else let w = 5 + len div 4;
                   st = st\<lparr>mbox_buf := (mbox_buf st)(w := mbox_buf st w AND NOT (push_bit (8 * (len mod 4)) 0xff))\<rparr>
               in Inr (Some (line_bytes (mbox_buf st)), st))"

definition mbox_get_power_state :: "board_env \<Rightarrow> u32 \<Rightarrow> 'a board_state_scheme \<Rightarrow> (u32 \<times> 'a board_state_scheme) result" where
  "mbox_get_power_state b i = mbox_word b 2 MBOX_TAG_GET_POWERSTATE [i] 1"

definition mbox_set_power_state :: "board_env \<Rightarrow> u32 \<Rightarrow> u32 \<Rightarrow> 'a board_state_scheme \<Rightarrow> (u32 \<times> 'a board_state_scheme) result" where
  "mbox_set_power_state b i state = mbox_word b 2 MBOX_TAG_SET_POWERSTATE [i, state] 1"

definition mbox_get_clock_rate :: "board_env \<Rightarrow> u32 \<Rightarrow> 'a board_state_scheme \<Rightarrow> (u32 \<times> 'a board_state_scheme) result" where
  "mbox_get_clock_rate b i = mbox_word b 2 MBOX_TAG_GET_CLOCKRATE [i] 1"

definition mbox_set_clock_rate :: "board_env \<Rightarrow> u32 \<Rightarrow> u32 \<Rightarrow> 'a board_state_scheme \<Rightarrow> (u32 \<times> 'a board_state_scheme) result" where
  "mbox_set_clock_rate b i rate = mbox_word b 3 MBOX_TAG_SET_CLOCKRATE [i, rate, 0] 1"

definition mbox_get_voltage :: "board_env \<Rightarrow> u32 \<Rightarrow> 'a board_state_scheme \<Rightarrow> (u32 \<times> 'a board_state_scheme) result" where
  "mbox_get_voltage b i st =
     bind_result (mbox_word b 2 MBOX_TAG_GET_VOLTAGE [i] 1 st) (\<lambda>(off, st). Inr (if off <s 0 then 0 else off, st))"

definition mbox_get_temperature :: "board_env \<Rightarrow> u32 \<Rightarrow> 'a board_state_scheme \<Rightarrow> (u32 \<times> 'a board_state_scheme) result" where
  "mbox_get_temperature b i = mbox_word b 2 MBOX_TAG_GET_TEMPERATURE [i] 1"

definition mbox_get_expgpio :: "board_env \<Rightarrow> u32 \<Rightarrow> 'a board_state_scheme \<Rightarrow> (u32 \<times> 'a board_state_scheme) result" where
  "mbox_get_expgpio b gpio = mbox_word b 2 MBOX_TAG_GET_GPIO_STATE [gpio, 0] 1"

definition mbox_set_expgpio :: "board_env \<Rightarrow> u32 \<Rightarrow> u32 \<Rightarrow> 'a board_state_scheme \<Rightarrow> (u32 \<times> 'a board_state_scheme) result" where
  "mbox_set_expgpio b gpio state = mbox_word b 2 MBOX_TAG_SET_GPIO_STATE [gpio, state] 1"

section \<open>Revision codes\<close>

definition table_entry :: "'a list \<Rightarrow> 'a \<Rightarrow> u32 \<Rightarrow> 'a" where
  "table_entry xs d idx = (if unat idx < length xs then xs ! unat idx else d)"

definition get_soc_name :: "u32 \<Rightarrow> string" where
  "get_soc_name rv = table_entry [''BCM2835'', ''BCM2836'', ''BCM2837'', ''BCM2711''] ''Unknown'' (drop_bit 12 rv AND 0xf)"

definition get_memory_size :: "u32 \<Rightarrow> u32" where
  "get_memory_size rv = table_entry [256, 512, 1024, 2048, 4096, 8192] 0 (drop_bit 20 rv AND 0x7)"

definition get_mfr_name :: "u32 \<Rightarrow> string" where
  "get_mfr_name rv =
     table_entry [''Sony UK'', ''Egoman'', ''Embest'', ''Sony Japan'', ''Embest'', ''Stadium''] ''Unknown'' (drop_bit 16 rv AND 0xf)"

definition get_board_name :: "u32 \<Rightarrow> string" where
  "get_board_name rv =
     table_entry [''RaspberryPi1A'', ''RaspberryPi1B'', ''RaspberryPi1A+'', ''RaspberryPi1B+'', ''RaspberryPi2B'', ''RaspberryPiAlpha'',
       ''RaspberryPiCM1'', ''Unknown'', ''RaspberryPi3B'', ''RaspberryPi0'', ''RaspberryPiCM3'', ''Unknown'', ''RaspberryPi0W'',
       ''RaspberryPi3B+'', ''RaspberryPi3A+'', ''Unknown'', ''RaspberryPiCM3+'', ''RaspberryPi4B'', ''RaspberryPi02W'', ''RaspberryPi400'',
       ''RaspberryPiCM4''] ''Unknown'' (drop_bit 4 rv AND 0xff)"

section \<open>RAM\<close>

definition KILO :: "u64 \<Rightarrow> u64" where "KILO k = k * 1024"
definition MEG :: "u64 \<Rightarrow> u64" where "MEG m = m * (1024 * 1024)"
definition GIG :: "u64 \<Rightarrow> u64" where "GIG m = m * (1024 * 1024 * 1024)"

definition BCM2711_DRAM_BASE :: paddr_t where "BCM2711_DRAM_BASE = 0"
definition BCM2711_DRAM_STUB_SIZE :: u64 where "BCM2711_DRAM_STUB_SIZE = KILO 4"
definition BCM2711_DRAM_BASE_1 :: paddr_t where "BCM2711_DRAM_BASE_1 = 0x100000000"

text \<open>The size of the RAM from the revision code, 256 MB when the code names none.\<close>

definition ram_size_of :: "u32 \<Rightarrow> u64" where
  "ram_size_of rv = (let s = MEG (ucast (get_memory_size rv)) in if s = 0 then MEG 256 else s)"

definition add_all_ram :: "ram_env \<Rightarrow> u64 \<Rightarrow> u64 \<Rightarrow> 'a board_state_scheme \<Rightarrow> 'a board_state_scheme result" where
  "add_all_ram env mmfr0 ramsize st =
     (if ramsize \<ge> GIG 4 then
        bind_result (add_ram env mmfr0 BCM2711_DRAM_BASE (GIG 4 - MEG 64) st) (\<lambda>st.
          if ramsize \<ge> GIG 8 then add_ram env mmfr0 BCM2711_DRAM_BASE_1 (GIG 4) st else Inr st)
      else add_ram env mmfr0 BCM2711_DRAM_BASE ramsize st)"

definition bcm2711_init_raminfo :: "ram_env \<Rightarrow> board_env \<Rightarrow> u64 \<Rightarrow> 'a board_state_scheme \<Rightarrow> 'a board_state_scheme result" where
  "bcm2711_init_raminfo env b mmfr0 st =
     bind_result (mbox_get_vc_memory b st) (\<lambda>(vcram_size, st).
     let vcram_size = ucast vcram_size; vcram_start = GIG 1 - vcram_size
     in bind_result (mbox_get_board_revision b st) (\<lambda>(rv, st).
        bind_result (avoid_ram env BCM2711_DRAM_BASE BCM2711_DRAM_STUB_SIZE st) (\<lambda>st.
        bind_result (avoid_ram env vcram_start vcram_size st) (\<lambda>st.
        let ramsize = ram_size_of rv
        in bind_result (add_all_ram env mmfr0 ramsize st) (\<lambda>st.
           bind_result (alloc_ram env vcram_start vcram_size 0 st) (\<lambda>(_, st).
           bind_result (as_add_containing (abi env) vcram_start (vcram_start + vcram_size - 1) AS_ATTR_RAM (cs ''vcram'') (cs ''ram'') st) (\<lambda>(_, st).
             if ramsize > GIG 1 then
               bind_result (as_add_containing (abi env) BCM2711_DRAM_BASE (vcram_start - 1) AS_ATTR_RAM (cs ''below1G'') (cs ''ram'') st)
                 (\<lambda>(_, st). Inr st)
             else Inr st)))))))"

section \<open>Pins\<close>

record bcm2711_pinmux =
  pin_num :: u8
  fsel :: u8
  pull :: u8
  gpio_lvl :: u8
  is_last :: u8

definition BCM2711_GPIO_BASE :: nat where "BCM2711_GPIO_BASE = 0xfe200000"
definition GPIO_MAX :: nat where "GPIO_MAX = 53"
definition GPSET0 :: nat where "GPSET0 = 0x1c"
definition GPSET1 :: nat where "GPSET1 = 0x20"
definition GPCLR0 :: nat where "GPCLR0 = 0x28"
definition GPCLR1 :: nat where "GPCLR1 = 0x2c"
definition GPLEV0 :: nat where "GPLEV0 = 0x34"
definition GPLEV1 :: nat where "GPLEV1 = 0x38"
definition GPPUPPDN0 :: nat where "GPPUPPDN0 = 0xe4"
definition FUNC_OP :: u8 where "FUNC_OP = 1"
definition FUNC_A0 :: u8 where "FUNC_A0 = 4"
definition FUNC_A4 :: u8 where "FUNC_A4 = 3"
definition FUNC_A5 :: u8 where "FUNC_A5 = 2"
definition PULL_NONE :: u8 where "PULL_NONE = 0"
definition PULL_UP :: u8 where "PULL_UP = 1"

text \<open>\<open>gpio\<close> is unsigned, so the test against \<open>GPIO_MIN\<close> (0) never fails; so is \<open>type\<close>.\<close>

definition bcm2711_set_gpio_fsel :: "board_env \<Rightarrow> u32 \<Rightarrow> u32 \<Rightarrow> 'a board_state_scheme \<Rightarrow> 'a board_state_scheme" where
  "bcm2711_set_gpio_fsel b gpio fs st =
     (let reg = unat gpio div 10 * 4; sel = unat gpio mod 10
      in if unat gpio > GPIO_MAX then st
         else let (val, st) = io_read b (BCM2711_GPIO_BASE + reg) st;
                  val = val AND NOT (push_bit (3 * sel) 0x7);
                  val = val OR push_bit (3 * sel) (fs AND 0x7)
              in io_write (BCM2711_GPIO_BASE + reg) val st)"

text \<open>The three functions for debugging; \<open>None\<close> is the result -1.\<close>

definition bcm2711_get_gpio_fsel :: "board_env \<Rightarrow> u32 \<Rightarrow> 'a board_state_scheme \<Rightarrow> u32 option \<times> 'a board_state_scheme" where
  "bcm2711_get_gpio_fsel b gpio st =
     (if unat gpio > GPIO_MAX then (None, st)
      else let (val, st) = io_read b (BCM2711_GPIO_BASE + unat gpio div 10 * 4) st
           in (Some (drop_bit (3 * (unat gpio mod 10)) val AND 0x7), st))"

definition bcm2711_get_gpio_level :: "board_env \<Rightarrow> u32 \<Rightarrow> 'a board_state_scheme \<Rightarrow> u32 option \<times> 'a board_state_scheme" where
  "bcm2711_get_gpio_level b gpio st =
     (if unat gpio > GPIO_MAX then (None, st)
      else let (val, st) = io_read b (BCM2711_GPIO_BASE + (if gpio < 32 then GPLEV0 else GPLEV1)) st
           in (Some (drop_bit (unat (if gpio < 32 then gpio else gpio - 32)) val AND 0x1), st))"

definition bcm2711_get_gpio_pull :: "board_env \<Rightarrow> u32 \<Rightarrow> 'a board_state_scheme \<Rightarrow> u32 option \<times> 'a board_state_scheme" where
  "bcm2711_get_gpio_pull b gpio st =
     (if unat gpio > GPIO_MAX then (None, st)
      else let (val, st) = io_read b (BCM2711_GPIO_BASE + (GPPUPPDN0 + unat (drop_bit 4 gpio) * 4)) st
           in (Some (drop_bit (2 * unat (gpio AND 0xf)) val AND 0x3), st))"

definition bcm2711_set_gpio_level :: "u32 \<Rightarrow> u32 \<Rightarrow> 'a board_state_scheme \<Rightarrow> 'a board_state_scheme" where
  "bcm2711_set_gpio_level gpio level st =
     (if unat gpio > GPIO_MAX then st
      else let reg = (if level \<noteq> 0 then (if gpio < 32 then GPSET0 else GPSET1) else (if gpio < 32 then GPCLR0 else GPCLR1));
               gpio = (if gpio < 32 then gpio else gpio - 32)
           in io_write (BCM2711_GPIO_BASE + reg) (push_bit (unat gpio) 1) st)"

definition bcm2711_gpio_set_pull :: "board_env \<Rightarrow> u32 \<Rightarrow> u32 \<Rightarrow> 'a board_state_scheme \<Rightarrow> 'a board_state_scheme" where
  "bcm2711_gpio_set_pull b gpio ty st =
     (let reg = GPPUPPDN0 + unat (drop_bit 4 gpio) * 4; shift = 2 * unat (gpio AND 0xf)
      in if unat gpio > GPIO_MAX then st
         else if ty > 2 then st
         else let (val, st) = io_read b (BCM2711_GPIO_BASE + reg) st;
                  val = val AND NOT (push_bit shift 3);
                  val = val OR push_bit shift ty
              in io_write (BCM2711_GPIO_BASE + reg) val st)"

definition set_pin :: "board_env \<Rightarrow> bcm2711_pinmux \<Rightarrow> 'a board_state_scheme \<Rightarrow> 'a board_state_scheme" where
  "set_pin b p st =
     (let st = bcm2711_set_gpio_fsel b (ucast (pin_num p)) (ucast (fsel p)) st;
          st = bcm2711_gpio_set_pull b (ucast (pin_num p)) (ucast (pull p)) st
      in if fsel p = FUNC_OP then bcm2711_set_gpio_level (ucast (pin_num p)) (ucast (gpio_lvl p)) st else st)"

text \<open>An array of pins ends with an entry whose \<open>is_last\<close> is set; without one the loop reads behind the array.\<close>

primrec module_pinmux :: "board_env \<Rightarrow> bcm2711_pinmux list \<Rightarrow> 'a board_state_scheme \<Rightarrow> 'a board_state_scheme result" where
  "module_pinmux b [] st = Inl Out_of_bounds"
| "module_pinmux b (p # ps) st = (if is_last p \<noteq> 0 then Inr st else module_pinmux b ps (set_pin b p st))"

text \<open>\<open>None\<close> is a NULL pointer.\<close>

definition module_setup :: "board_env \<Rightarrow> bcm2711_pinmux list option \<Rightarrow> 'a board_state_scheme \<Rightarrow> 'a board_state_scheme result" where
  "module_setup b config st = (case config of None \<Rightarrow> Inr st | Some ps \<Rightarrow> module_pinmux b ps st)"

definition pin :: "u8 \<Rightarrow> u8 \<Rightarrow> u8 \<Rightarrow> u8 \<Rightarrow> bcm2711_pinmux" where
  "pin n f p l = \<lparr>pin_num = n, fsel = f, pull = p, gpio_lvl = l, is_last = 0\<rparr>"

definition last_pin :: bcm2711_pinmux where
  "last_pin = \<lparr>pin_num = 0, fsel = 0, pull = 0, gpio_lvl = 0, is_last = 1\<rparr>"

definition rpi_board_config :: "bcm2711_pinmux list list" where
  "rpi_board_config =
     [[pin 14 FUNC_A5 PULL_UP 0, pin 15 FUNC_A5 PULL_UP 0, pin 4 FUNC_A4 PULL_UP 0, pin 5 FUNC_A4 PULL_UP 0, last_pin],
      [pin 7 FUNC_A0 PULL_UP 0, pin 8 FUNC_A0 PULL_UP 0, pin 9 FUNC_A0 PULL_NONE 0, pin 10 FUNC_A0 PULL_NONE 0, pin 11 FUNC_A0 PULL_NONE 0, last_pin],
      [pin 0 FUNC_A0 PULL_UP 0, pin 1 FUNC_A0 PULL_UP 0, pin 2 FUNC_A0 PULL_UP 0, pin 3 FUNC_A0 PULL_UP 0, last_pin]]"

primrec setup_modules :: "board_env \<Rightarrow> bcm2711_pinmux list list \<Rightarrow> 'a board_state_scheme \<Rightarrow> 'a board_state_scheme result" where
  "setup_modules b [] st = Inr st"
| "setup_modules b (c # ms) st = bind_result (module_setup b (Some c) st) (setup_modules b ms)"

definition init_board :: "board_env \<Rightarrow> 'a board_state_scheme \<Rightarrow> 'a board_state_scheme result" where
  "init_board b = setup_modules b rpi_board_config"

section \<open>Watchdog and processors\<close>

definition BCM2711_PM_BASE :: nat where "BCM2711_PM_BASE = 0xfe100000"
definition BCM2711_PM_RSTC :: nat where "BCM2711_PM_RSTC = 0x1c"
definition BCM2711_PM_WDOG :: nat where "BCM2711_PM_WDOG = 0x24"
definition PM_PASSWORD :: u32 where "PM_PASSWORD = 0x5a000000"
definition PM_RSTC_WRCFG_CLR :: u32 where "PM_RSTC_WRCFG_CLR = 0xffffffcf"
definition PM_RSTC_WRCFG_FULL_RESET :: u32 where "PM_RSTC_WRCFG_FULL_RESET = 0x20"
definition PM_RSTC_STOP :: u32 where "PM_RSTC_STOP = 0x102"
definition PM_WDOG_MS_TO_TICKS :: u64 where "PM_WDOG_MS_TO_TICKS = 67"
definition WDT_MAX_TICKS :: u64 where "WDT_MAX_TICKS = 0xfffff"
definition WDT_DEFAULT_TICKS :: u32 where "WDT_DEFAULT_TICKS = 0x10000"

definition wdt_ticks :: "u32 \<Rightarrow> u32" where
  "wdt_ticks timeout =
     (if timeout \<le> 1000 then WDT_DEFAULT_TICKS
      else let ticks = ucast timeout * PM_WDOG_MS_TO_TICKS;
               ticks = (if ticks > WDT_MAX_TICKS then WDT_MAX_TICKS else ticks)
           in ucast ticks)"

definition bcm2711_wdt_enable :: "board_env \<Rightarrow> u32 \<Rightarrow> 'a board_state_scheme \<Rightarrow> 'a board_state_scheme" where
  "bcm2711_wdt_enable b timeout st =
     (let st = io_write (BCM2711_PM_BASE + BCM2711_PM_RSTC) (PM_PASSWORD OR PM_RSTC_STOP) st;
          st = io_write (BCM2711_PM_BASE + BCM2711_PM_WDOG) (PM_PASSWORD OR wdt_ticks timeout) st;
          (val, st) = io_read b (BCM2711_PM_BASE + BCM2711_PM_RSTC) st;
          val = val AND PM_RSTC_WRCFG_CLR;
          val = val OR (PM_PASSWORD OR PM_RSTC_WRCFG_FULL_RESET)
      in io_write (BCM2711_PM_BASE + BCM2711_PM_RSTC) val st)"

definition board_smp_num_cpu :: u32 where "board_smp_num_cpu = 4"

text \<open>The interrupt of mailbox 0 on every processor; \<open>smp->send_ipi\<close> is a callout and left out.\<close>

primrec board_smp_init :: "board_env \<Rightarrow> nat \<Rightarrow> nat \<Rightarrow> 'a board_state_scheme \<Rightarrow> 'a board_state_scheme" where
  "board_smp_init b 0 cpu st = st"
| "board_smp_init b (Suc n) cpu st =
     (let mbic_addr = 0x40000050 + 0x4 * cpu;
          (mbic, st) = io_read b mbic_addr st;
          st = io_write mbic_addr (mbic OR 0x1) st
      in board_smp_init b n (Suc cpu) st)"

definition board_smp_start :: "u32 \<Rightarrow> u64 \<Rightarrow> 'a board_state_scheme \<Rightarrow> 'a board_state_scheme" where
  "board_smp_start cpu start st = st\<lparr>mem := wr64 (0xd8 + ucast (cpu * 8)) start (mem st)\<rparr>"

definition board_smp_adjust_num :: "u32 \<Rightarrow> u32" where "board_smp_adjust_num cpu = cpu"

section \<open>The mini UART\<close>

record chip_info =
  ch_base :: paddr_t
  ch_shift :: u32

definition AUX_MU_IO_REG :: nat where "AUX_MU_IO_REG = 0x40"
definition AUX_MU_LSR_REG :: nat where "AUX_MU_LSR_REG = 0x54"

text \<open>\<open>line\<close> is the rest of the string; reading at its end gives the terminating zero.\<close>

definition line_goes_on :: "u8 list \<Rightarrow> bool" where
  "line_goes_on line \<longleftrightarrow> at0 line \<noteq> of_char CHR ''.'' \<and> at0 line \<noteq> 0"

definition parse_line :: "u8 list \<Rightarrow> chip_info \<Rightarrow> u32 \<Rightarrow> (chip_info \<times> u32) result" where
  "parse_line line dev baud =
     bind_result
       (if line_goes_on line then
          bind_result (strtopaddr line 16) (\<lambda>(a, line).
            let dev = dev\<lparr>ch_base := a\<rparr>
            in if at0 line = of_char CHR ''^'' then
                 bind_result (strtoul (tl line) 0) (\<lambda>(s, line). Inr (line, dev\<lparr>ch_shift := ucast s\<rparr>))
               else Inr (line, dev))
        else Inr (line, dev)) (\<lambda>(line, dev).
     let line = (if at0 line = of_char CHR ''.'' then tl line else line)
     in if line_goes_on line then
          bind_result (strtoul line 0) (\<lambda>(v, _). Inr (dev, if (ucast v :: u32) \<noteq> 0 then ucast v else baud))
        else Inr (dev, baud))"

text \<open>\<open>baud\<close> is an uninitialised local variable, \<open>garbage\<close> its first value; it is not used.\<close>

definition init_miniuart :: "u8 list \<Rightarrow> u8 list \<Rightarrow> u32 \<Rightarrow> chip_info \<Rightarrow> chip_info result" where
  "init_miniuart ini defaults garbage dev =
     bind_result (parse_line defaults dev garbage) (\<lambda>(dev, baud).
     bind_result (parse_line ini dev baud) (\<lambda>(dev, _). Inr dev))"

primrec miniuart_wait :: "nat \<Rightarrow> board_env \<Rightarrow> nat \<Rightarrow> 'a board_state_scheme \<Rightarrow> 'a board_state_scheme result" where
  "miniuart_wait 0 b base st = Inl Diverges"
| "miniuart_wait (Suc n) b base st =
     (let (lsr, st) = io_read b (base + AUX_MU_LSR_REG) st in if has lsr 0x20 then Inr st else miniuart_wait n b base st)"

definition put_miniuart :: "board_env \<Rightarrow> chip_info \<Rightarrow> u32 \<Rightarrow> 'a board_state_scheme \<Rightarrow> 'a board_state_scheme result" where
  "put_miniuart b dev character st =
     bind_result (miniuart_wait (spins b) b (unat (ch_base dev)) st) (\<lambda>st.
       Inr (io_write (unat (ch_base dev) + AUX_MU_IO_REG) character st))"

section \<open>Arguments from the firmware\<close>

text \<open>A string is the memory from its start; positions are indices into it.\<close>

definition SPACE :: u8 where "SPACE = 0x20"
definition DASH :: u8 where "DASH = 0x2d"

text \<open>The position of the first byte from \<open>p\<close> on that is no space, and of the first that is a space or zero.\<close>

definition skip_spaces :: "u8 list \<Rightarrow> nat \<Rightarrow> nat" where
  "skip_spaces m p = p + length (takeWhile (\<lambda>c. c = SPACE) (drop p m))"

definition skip_word :: "u8 list \<Rightarrow> nat \<Rightarrow> nat" where
  "skip_word m p = p + length (takeWhile (\<lambda>c. c \<noteq> SPACE \<and> c \<noteq> 0) (drop p m))"

text \<open>The result is the start of the argument, the position behind it (\<open>*end\<close>) and the memory.\<close>

definition find_next_arg :: "u8 list \<Rightarrow> nat \<Rightarrow> bool \<Rightarrow> (nat \<times> nat \<times> u8 list) result" where
  "find_next_arg m p terminate =
     (let pos = skip_spaces m p in
      if pos \<ge> length m then Inl Out_of_bounds
      else if m ! pos = 0 then Inr (pos, pos, m)
      else let nxt = skip_word m pos in
           if nxt \<ge> length m then Inl Out_of_bounds
           else if m ! nxt \<noteq> 0 then Inr (pos, nxt + 1, if terminate then m[nxt := 0] else m)
           else Inr (pos, nxt, m))"

text \<open>The loop that skips the arguments of the VideoCore.\<close>

primrec skip_vpu_args :: "nat \<Rightarrow> u8 list \<Rightarrow> nat \<Rightarrow> (nat \<times> nat) result" where
  "skip_vpu_args 0 m pos = Inl Diverges"
| "skip_vpu_args (Suc n) m pos =
     bind_result (find_next_arg m pos False) (\<lambda>(next_arg, pos, _).
       if m ! next_arg = 0 then Inr (next_arg, pos)
       else if m ! next_arg = DASH then Inr (next_arg, pos)
       else if m ! next_arg = SPACE \<and> m ! (next_arg + 1) = SPACE then Inr (next_arg, pos)
       else skip_vpu_args n m pos)"

text \<open>The string at a position, as it is passed to \<open>bootstrap_arg_adjust\<close>.\<close>

definition string_at :: "u8 list \<Rightarrow> nat \<Rightarrow> u8 list result" where
  "string_at m p = bind_result (strlen_at m p) (\<lambda>n. Inr (take n (drop p m)))"

text \<open>The loop over the arguments; \<open>bap\<close> is the memory of the boot arguments.  The result is the last \<open>next_arg\<close> as well.\<close>

primrec add_vpu_args :: "nat \<Rightarrow> u8 list \<Rightarrow> nat \<Rightarrow> nat \<Rightarrow> u8 list \<Rightarrow> (nat \<times> u8 list) result" where
  "add_vpu_args 0 m next_arg pos bap = Inl Diverges"
| "add_vpu_args (Suc n) m next_arg pos bap =
     (if m ! next_arg = 0 then Inr (next_arg, bap)
      else if m ! next_arg = DASH \<and> m ! (next_arg + 1) = DASH then Inr (next_arg, bap)
      else bind_result (string_at m next_arg) (\<lambda>arg.
           bind_result (bootstrap_arg_adjust bap None (Some arg)) (\<lambda>(_, bap).
           bind_result (find_next_arg m pos True) (\<lambda>(next_arg, pos, m).
             add_vpu_args n m next_arg pos bap))))"

text \<open>
  The command line ends with a zero byte, and each round passes at least one byte, so as many rounds as the memory has bytes are enough.
  \<open>next_arg\<close> is static: \<open>None\<close> is its first value, NULL.
\<close>

definition tweak_line :: "u8 list \<Rightarrow> u8 list \<Rightarrow> (nat \<times> u8 list) result" where
  "tweak_line m bap =
     bind_result (skip_vpu_args (Suc (length m)) m 0) (\<lambda>(next_arg, pos).
       add_vpu_args (Suc (length m)) m next_arg pos bap)"

definition cpu_tweak_cmdline ::
    "board_env \<Rightarrow> nat option \<Rightarrow> u8 list \<Rightarrow> 'a board_state_scheme \<Rightarrow> (nat option \<times> u8 list \<times> 'a board_state_scheme) result" where
  "cpu_tweak_cmdline b next_arg bap st =
     (if next_arg \<noteq> None then Inr (next_arg, bap, st)
      else bind_result (mbox_get_cmdline b st) (\<lambda>(pos, st).
        case pos of None \<Rightarrow> Inr (None, bap, st)
        | Some m \<Rightarrow> bind_result (tweak_line m bap) (\<lambda>(p, bap). Inr (Some p, bap, st))))"

end
