(* ===== verification/Board_Props.thy ===== *)
theory Board_Props
  imports Board Ram_Props
begin


text \<open>
  Properties of \<open>Board\<close>: the RAM that \<open>bcm2711_init_raminfo\<close> leaves for allocation, the pins that \<open>init_board\<close> sets up, and the
  arguments taken from the firmware.
\<close>

section \<open>The mailbox\<close>

text \<open>A message changes only the accesses and the buffer.\<close>

definition only_io :: "'a board_state_scheme \<Rightarrow> 'a board_state_scheme \<Rightarrow> bool" where
  "only_io st st' \<longleftrightarrow> (\<exists>h m. st' = st\<lparr>io := h, mbox_buf := m\<rparr>)"

lemma only_io_refl [simp]: "only_io st st"
proof -
  have "st = st\<lparr>io := io st, mbox_buf := mbox_buf st\<rparr>" by simp
  then show ?thesis unfolding only_io_def by blast
qed

lemma only_io_trans: "only_io a b \<Longrightarrow> only_io b c \<Longrightarrow> only_io a c"
  by (auto simp: only_io_def) blast

lemma only_io_steps [simp]: "only_io st (snd (io_read b r st))" "only_io st (io_write r v st)" "only_io st (st\<lparr>mbox_buf := m\<rparr>)"
proof -
  have "st\<lparr>io := h\<rparr> = st\<lparr>io := h, mbox_buf := mbox_buf st\<rparr>" for h by simp
  then have "only_io st (st\<lparr>io := h\<rparr>)" for h unfolding only_io_def by blast
  then show "only_io st (snd (io_read b r st))" "only_io st (io_write r v st)" by (simp_all add: io_read_def io_write_def in32_def)
  have "st\<lparr>mbox_buf := m\<rparr> = st\<lparr>io := io st, mbox_buf := m\<rparr>" by simp
  then show "only_io st (st\<lparr>mbox_buf := m\<rparr>)" unfolding only_io_def by blast
qed

lemma only_io_same:
  assumes "only_io st st'"
  shows "ram_list st' = ram_list st" "avoid_list st' = avoid_list st" "avoid_set st' = avoid_set st" "ram_inv st' = ram_inv st"
  using assms by (auto simp: only_io_def ram_inv_def)

lemma wait_ready_io: "mbox_wait_ready n b st = Inr st' \<Longrightarrow> only_io st st'"
proof (induction n arbitrary: st)
  case (Suc n)
  have s: "only_io st (snd (io_read b (MBOX_REG_BASE + MBOX0_STATUS) st))" by simp
  show ?case using Suc.prems Suc.IH only_io_trans [OF s] s by (auto simp: case_prod_beta split: if_splits)
qed simp

lemma wait_response_io: "mbox_wait_response n b st = Inr (r, st') \<Longrightarrow> only_io st st'"
proof (induction n arbitrary: st)
  case (Suc n)
  let ?s = "snd (io_read b (MBOX_REG_BASE + MBOX0_STATUS) st)"
  let ?t = "snd (io_read b (MBOX_REG_BASE + MBOX0_READ) ?s)"
  have s: "only_io st ?s" "only_io ?s ?t" by simp_all
  show ?case using Suc.prems Suc.IH only_io_trans [OF s(1)] only_io_trans [OF s] only_io_trans [OF only_io_trans [OF s]] s
    by (auto simp: case_prod_beta Let_def split: if_splits)
qed simp

lemma mbox_word_io:
  assumes "mbox_word b n tagid vs i st = Inr (v, st')"
  shows "only_io st st'"
proof -
  obtain st1 st2 r where 1: "mbox_wait_ready (spins b) b (st\<lparr>mbox_buf := set_body vs (MSG_INIT n tagid (mbox_buf st))\<rparr>) = Inr st1"
    and 2: "mbox_wait_response (spins b) b (io_write (MBOX_REG_BASE + MBOX1_WRITE) ((MBOX_BUFFER_ADDR AND NOT 0xf) OR MBOX_SEND_CHANNEL) st1) = Inr (r, st2)"
    and st': "st' = st2\<lparr>mbox_buf := vc b (io st2) (mbox_buf st2)\<rparr>"
    using assms by (auto simp: mbox_word_def mbox_call_def mbox_send_message_def Let_def)
  have "only_io st st2"
    using only_io_trans [OF only_io_trans [OF only_io_trans [OF only_io_steps(3) wait_ready_io [OF 1]] only_io_steps(2)] wait_response_io [OF 2]] .
  then show ?thesis unfolding st' by (rule only_io_trans) simp
qed

section \<open>RAM\<close>

text \<open>The first entries of the avoid list, before any RAM is known.\<close>

lemma ws_init_spec:
  assumes "ws_init env st = Inr st'" and "unat (full_ram_paddr env) + 2 ^ 33 < 2 ^ 64" and "0 < shdr_startup_size env"
  shows "ram_list st' = [] \<and> ram_inv st' \<and> avoid_set st'"
proof -
  have u32: "unat (x :: u32) < 2 ^ 32" for x using unsigned_less [of x, where 'a = nat] by simp
  define first where "first = ROUND (full_ram_paddr env + ucast (shdr_ram_size env)) 8"
  have p8: "is_pow2 8" using is_pow2I [of 3] by simp
  have sum: "unat (full_ram_paddr env + ucast (shdr_ram_size env)) = unat (full_ram_paddr env) + unat (shdr_ram_size env)"
    using assms(2) u32 [of "shdr_ram_size env"] by (simp add: unat_add_noov unat_ucast_u32_u64)
  have up: "unat first < unat (full_ram_paddr env) + unat (shdr_ram_size env) + 8"
    using ROUND_bounds(2) [OF p8, of "full_ram_paddr env + ucast (shdr_ram_size env)"] assms(2) u32 [of "shdr_ram_size env"]
    unfolding first_def sum by simp
  define st0 where "st0 = st\<lparr>avoid_list := [\<lparr>av_start = first, av_end = first + 1024\<rparr>], avoid_set := True, ws_early_next := first + 1024, ram_list := []\<rparr>"
  have early: "list_bytes (ram_list st0) \<le> ENTRY_BYTES" by (simp add: st0_def list_bytes_def ENTRY_BYTES_def)
  have kilo: "ROUND (of_nat MAX_AVOID_LIST_SIZE) 8 = 1024" "ROUND (of_nat MAX_RAM_LIST_SIZE) 8 = 3072"
    by (simp_all add: ROUND_def TRUNC_def MAX_AVOID_LIST_SIZE_def MAX_RAM_LIST_SIZE_def)
  have run: "bind_result (ws_take (of_nat MAX_RAM_LIST_SIZE) st0) (\<lambda>(_, st). avoid_more (full_ram_paddr env) (ucast (shdr_startup_size env)) st) = Inr st'"
    using assms(1) unfolding ws_init_def Let_def first_def [symmetric] kilo(1) st0_def [symmetric] .
  obtain st1 where 1: "avoid_more (first + 1024) 3072 (st0\<lparr>ws_early_next := first + 1024 + 3072\<rparr>) = Inr st1"
    and 2: "avoid_more (full_ram_paddr env) (ucast (shdr_startup_size env)) st1 = Inr st'"
    using run early unfolding ws_take_def Let_def kilo(2) by (auto simp: st0_def)
  have f: "unat first + 1024 < 2 ^ 64" "unat (first + 1024) = unat first + 1024"
    using up assms(2) u32 [of "shdr_ram_size env"] by (simp_all add: unat_add_noov)
  have "av_ok (avoid_list st0)" using f by (auto simp: st0_def av_ok_def word_le_nat_alt word_eq_nat)
  then have ok0: "av_ok (avoid_list (st0\<lparr>ws_early_next := first + 1024 + 3072\<rparr>))" by (simp add: st0_def)
  have b1: "unat (first + 1024) + unat (3072 :: u64) < 2 ^ 64" using up assms(2) u32 [of "shdr_ram_size env"] by (simp add: f)
  have b2: "unat (full_ram_paddr env) + unat (ucast (shdr_startup_size env) :: u64) < 2 ^ 64"
    using assms(2) u32 [of "shdr_startup_size env"] by (simp add: unat_ucast_u32_u64)
  have nz: "(ucast (shdr_startup_size env) :: u64) \<noteq> 0" using assms(3) by (simp add: word_eq_nat unat_ucast_u32_u64 word_less_nat_alt)
  note s1 = avoid_more_spec [OF 1 ok0 b1]
  note s2 = avoid_more_spec [OF 2 s1(1) b2 nz]
  show ?thesis using s1 s2 by (simp add: st0_def ram_inv_def)
qed

lemma avoid_ram_spec:
  assumes "avoid_ram env start sz st = Inr st'" and "avoid_set st \<Longrightarrow> ram_inv st"
    and "unat (full_ram_paddr env) + 2 ^ 33 < 2 ^ 64" and "0 < shdr_startup_size env"
    and "unat start + unat sz < 2 ^ 64" and "sz \<noteq> 0"
  shows "ram_inv st' \<and> avoid_set st' \<and> ram_list st' = (if avoid_set st then ram_list st else [])
    \<and> {unat start ..< unat start + unat sz} \<subseteq> av_set (avoid_list st')
    \<and> (avoid_set st \<longrightarrow> av_set (avoid_list st) \<subseteq> av_set (avoid_list st'))"
proof -
  obtain st1 where 1: "(if avoid_set st then Inr st else ws_init env st) = Inr st1" and 2: "avoid_more start sz st1 = Inr st'"
    using assms(1) by (auto simp: avoid_ram_def)
  have st1: "ram_inv st1" "avoid_set st1" "ram_list st1 = (if avoid_set st then ram_list st else [])" "avoid_set st \<longrightarrow> st1 = st"
    using 1 assms(2) ws_init_spec [OF _ assms(3,4), of st st1] by (auto split: if_splits)
  note s = avoid_more_spec [OF 2 _ assms(5,6)]
  show ?thesis using s st1 by (auto simp: ram_inv_def)
qed

text \<open>The RAM a board has for its revision code.\<close>

definition board_ram :: "u64 \<Rightarrow> nat set" where
  "board_ram s = (if unat s < 2 ^ 32 then {0 ..< unat s}
     else {0 ..< 2 ^ 32 - 2 ^ 26} \<union> (if unat s < 2 ^ 33 then {} else {2 ^ 32 ..< 2 ^ 33}))"

lemma sizes: "GIG 4 = 0x100000000" "GIG 8 = 0x200000000" "GIG 1 = 0x40000000" "MEG 64 = 0x4000000" "KILO 4 = 0x1000" "MEG 256 = 0x10000000"
  by (simp_all add: GIG_def MEG_def KILO_def)

lemma memory_size_cases: "get_memory_size rv \<in> {0, 256, 512, 1024, 2048, 4096, 8192}"
  by (auto simp: get_memory_size_def table_entry_def less_Suc_eq numeral_eq_Suc)

lemma ram_size_pos: "0 < ram_size_of rv"
  using memory_size_cases [of rv] by (auto simp: ram_size_of_def MEG_def Let_def)

lemma add_all_ram_spec:
  assumes "add_all_ram env mmfr0 s st = Inr st'" and "ram_inv st" and "avoid_set st" and "ram_list st = []" and "s \<le> GIG 8"
    and "shdr_startup_size env < shdr_ram_size env" and "unat (full_ram_paddr env) + 2 ^ 33 < 2 ^ 64"
  shows "ram_inv st' \<and> avoid_set st' \<and> av_set (avoid_list st) \<subseteq> av_set (avoid_list st')
    \<and> ram_set (ram_list st') = board_ram s - {image_start env ..< image_end env}"
proof -
  note add = add_ram_spec [OF _ _ _ assms(6,7)]
  show ?thesis
  proof (cases "s \<ge> GIG 4")
    case False
    then have lt: "unat s < 2 ^ 32" by (simp add: sizes word_le_nat_alt)
    then have "unat BCM2711_DRAM_BASE + unat s \<le> 2 ^ 63" by (simp add: BCM2711_DRAM_BASE_def)
    from add [OF assms(2,3) this, of mmfr0 st'] show ?thesis using assms(1,4) False lt
      by (simp add: add_all_ram_def board_ram_def BCM2711_DRAM_BASE_def)
  next
    case True
    then obtain st1 where 1: "add_ram env mmfr0 BCM2711_DRAM_BASE (GIG 4 - MEG 64) st = Inr st1"
      and 2: "(if s \<ge> GIG 8 then add_ram env mmfr0 BCM2711_DRAM_BASE_1 (GIG 4) st1 else Inr st1) = Inr st'"
      using assms(1) by (auto simp: add_all_ram_def)
    have "unat BCM2711_DRAM_BASE + unat (GIG 4 - MEG 64) \<le> 2 ^ 63" by (simp add: BCM2711_DRAM_BASE_def sizes)
    from add [OF assms(2,3) this 1] have r1: "ram_inv st1" "avoid_set st1" "av_set (avoid_list st) \<subseteq> av_set (avoid_list st1)"
      "ram_set (ram_list st1) = {0 ..< 2 ^ 32 - 2 ^ 26} - {image_start env ..< image_end env}"
      using assms(4) by (simp_all add: BCM2711_DRAM_BASE_def sizes)
    have s4: "\<not> unat s < 2 ^ 32" using True by (simp add: sizes word_le_nat_alt)
    show ?thesis
    proof (cases "s \<ge> GIG 8")
      case False
      then show ?thesis using 2 r1 s4 by (simp add: board_ram_def sizes word_le_nat_alt)
    next
      case True
      then have second: "add_ram env mmfr0 BCM2711_DRAM_BASE_1 (GIG 4) st1 = Inr st'" using 2 by simp
      have "unat BCM2711_DRAM_BASE_1 + unat (GIG 4) \<le> 2 ^ 63" by (simp add: BCM2711_DRAM_BASE_1_def sizes)
      from add [OF r1(1,2) this second] show ?thesis using r1 s4 True
        by (auto simp: board_ram_def BCM2711_DRAM_BASE_1_def sizes word_le_nat_alt)
    qed
  qed
qed

text \<open>After \<open>bcm2711_init_raminfo\<close> the free list is well formed and covers exactly the RAM that the revision code announces (the
  gap of the peripherals below 4 GB left out), less the boot image and less the memory of the VideoCore; nothing in the
  VideoCore's memory or in the firmware's stub can be allocated.\<close>

theorem init_raminfo_ram:
  assumes run: "bcm2711_init_raminfo env b mmfr0 st = Inr st'" and fresh: "\<not> avoid_set st"
    and vc: "mbox_get_vc_memory b st = Inr (vcs, st1)" "0 < vcs" "vcs \<le> 0x40000000"
    and rv: "mbox_get_board_revision b st1 = Inr (rv, st2)"
    and img: "0 < shdr_startup_size env" "shdr_startup_size env < shdr_ram_size env" "unat (full_ram_paddr env) + 2 ^ 33 < 2 ^ 64"
  shows "ram_inv st' \<and> ram_set (ram_list st')
      = board_ram (ram_size_of rv) - {image_start env ..< image_end env} - {2 ^ 30 - unat vcs ..< 2 ^ 30}
    \<and> usable st' \<inter> ({0 ..< 2 ^ 12} \<union> {2 ^ 30 - unat vcs ..< 2 ^ 30}) = {}"
proof -
  define start where "start = GIG 1 - ucast vcs"
  have v: "unat (ucast vcs :: u64) = unat vcs" "0 < unat vcs" "unat vcs \<le> 2 ^ 30"
    using vc(2,3) by (simp_all add: unat_ucast_u32_u64 word_le_nat_alt word_less_nat_alt)
  then have start: "unat start = 2 ^ 30 - unat vcs" "ucast vcs \<noteq> (0 :: u64)"
    by (auto simp: start_def sizes unat_sub_le word_eq_nat)
  obtain st3 st4 st5 st6 st7 a so where 3: "avoid_ram env BCM2711_DRAM_BASE BCM2711_DRAM_STUB_SIZE st2 = Inr st3"
    and 4: "avoid_ram env start (ucast vcs) st3 = Inr st4" and 5: "add_all_ram env mmfr0 (ram_size_of rv) st4 = Inr st5"
    and 6: "alloc_ram env start (ucast vcs) 0 st5 = Inr (a, st6)"
    and 7: "as_add_containing (abi env) start (start + ucast vcs - 1) AS_ATTR_RAM (cs ''vcram'') (cs ''ram'') st6 = Inr (so, st7)"
    and 8: "st' = st7 \<or> (\<exists>so. as_add_containing (abi env) BCM2711_DRAM_BASE (start - 1) AS_ATTR_RAM (cs ''below1G'') (cs ''ram'') st7 = Inr (so, st'))"
    using run vc(1) rv unfolding bcm2711_init_raminfo_def Let_def by (auto simp: start_def split: if_splits)
  have "only_io st st2"
    using only_io_trans [OF mbox_word_io [OF vc(1) [unfolded mbox_get_vc_memory_def]] mbox_word_io [OF rv [unfolded mbox_get_board_revision_def]]] .
  then have fresh2: "\<not> avoid_set st2" using fresh only_io_same by metis
  have stub: "unat BCM2711_DRAM_BASE + unat BCM2711_DRAM_STUB_SIZE < 2 ^ 64" "BCM2711_DRAM_STUB_SIZE \<noteq> 0" "unat BCM2711_DRAM_BASE = 0"
    "unat BCM2711_DRAM_STUB_SIZE = 2 ^ 12"
    by (simp_all add: BCM2711_DRAM_BASE_def BCM2711_DRAM_STUB_SIZE_def sizes)
  have r3: "ram_inv st3" "avoid_set st3" "ram_list st3 = []" "{0 ..< 2 ^ 12} \<subseteq> av_set (avoid_list st3)"
    using avoid_ram_spec [OF 3 _ img(3,1) stub(1,2)] fresh2 by (simp_all add: stub(3,4))
  have vb: "unat start + unat (ucast vcs :: u64) < 2 ^ 64" using start(1) v by simp
  have r4: "ram_inv st4" "avoid_set st4" "ram_list st4 = []" "av_set (avoid_list st3) \<subseteq> av_set (avoid_list st4)"
    using avoid_ram_spec [OF 4 r3(1) img(3,1) vb start(2)] r3(2,3) by simp_all
  have "ram_size_of rv \<le> GIG 8"
    using memory_size_cases [of rv] by (auto simp: ram_size_of_def MEG_def Let_def sizes)
  from add_all_ram_spec [OF 5 r4(1-3) this img(2,3)]
  have r5: "ram_inv st5" "av_set (avoid_list st4) \<subseteq> av_set (avoid_list st5)"
    "ram_set (ram_list st5) = board_ram (ram_size_of rv) - {image_start env ..< image_end env}" by simp_all
  have "start \<noteq> NULL_PADDR"
  proof
    assume "start = NULL_PADDR"
    then have "unat start = 2 ^ 64 - 1" by (simp add: NULL_PADDR_def unsigned_minus_1_eq_mask mask_eq_exp_minus_1)
    then show False using start(1) by simp
  qed
  then have t: "take_ram env start (ucast vcs) st5 = Inr st6" using 6 by (auto simp: alloc_ram_def)
  have "wf_ram (ram_list st5)" using r5(1) by (simp add: ram_inv_def)
  from take_ram_spec(1) [OF this vb start(2) t]
  have r6: "wf_ram (ram_list st6)" "ram_set (ram_list st6) = ram_set (ram_list st5) - {unat start ..< 2 ^ 30}" "avoid_list st6 = avoid_list st5"
    using start(1) v by simp_all
  have inv6: "ram_inv st6" using r5(1) r6 by (auto simp: ram_inv_def)
  have "lsp.more st' = lsp.more st6" using 8 as_add_containing_more [OF 7] as_add_containing_more by metis
  note same = ram_state_more [OF this] ram_inv_more [OF this]
  have "{0 ..< 2 ^ 12} \<subseteq> av_set (avoid_list st')" using r3(4) r4(4) r5(2) r6(3) same(2) by auto
  then show ?thesis using inv6 r6(2) r5(3) start(1) same by (auto simp: usable_def)
qed

text \<open>A board with 4 GB of RAM, 64 MB of it for the VideoCore.\<close>

definition sample_board_env :: board_env where
  "sample_board_env = \<lparr>bport = (\<lambda>h r. if r = MBOX_REG_BASE then 8 else 0),
     vc = (\<lambda>h m k. if m 2 = MBOX_TAG_GET_VCMEMORY \<and> k = 6 then 0x4000000
                   else if m 2 = MBOX_TAG_GET_BOARDREVISION \<and> k = 5 then 0xc03111 else m k), spins = 2\<rparr>"

definition sample_board :: board_state where
  "sample_board = \<lparr>page = small_page, asinfo = [], ram_list = [], avoid_list = [], avoid_set = False,
     ws_early_next = 0, sysram_added = False, temp_syspage = NULL_PADDR, watch_list = [], watch_calls = [], mem = (\<lambda>_. 0),
     L0_vaddr = 0, L1_ttbr0 = 0, L1_ttbr1 = 0, map_free_vaddr = 0, ttbr0 = 0, ttbr1 = [], io = [], mbox_buf = (\<lambda>_. 0)\<rparr>"

lemma sample_board_call:
  "\<exists>h. mbox_call sample_board_env n tagid vs st
     = Inr (st\<lparr>io := h, mbox_buf := vc sample_board_env h (set_body vs (MSG_INIT n tagid (mbox_buf st)))\<rparr>)"
proof -
  let ?E = sample_board_env
  have two: "spins ?E = Suc (Suc 0)" by (simp add: sample_board_env_def)
  have p: "bport ?E h (MBOX_REG_BASE + MBOX0_STATUS) = 0" "bport ?E h (MBOX_REG_BASE + MBOX0_READ) = 8" for h
    by (simp_all add: sample_board_env_def MBOX0_STATUS_def MBOX0_READ_def)
  have r: "mbox_wait_ready (Suc (Suc 0)) ?E s = Inr (s\<lparr>io := io s @ [Rd (MBOX_REG_BASE + MBOX0_STATUS) 0]\<rparr>)" for s :: "'a board_state_scheme"
    by (simp add: io_read_def in32_def p has_def)
  have a: "mbox_wait_response (Suc (Suc 0)) ?E s
      = Inr (0, s\<lparr>io := io s @ [Rd (MBOX_REG_BASE + MBOX0_STATUS) 0, Rd (MBOX_REG_BASE + MBOX0_READ) 8]\<rparr>)" for s :: "'a board_state_scheme"
    by (simp add: io_read_def in32_def p has_def MBOX_SEND_CHANNEL_def)
  show ?thesis unfolding mbox_call_def mbox_send_message_def two r a Let_def io_write_def bind_result_Inr prod.case by (rule exI) simp
qed

lemma sample_board_mail:
  "\<exists>h m. mbox_get_vc_memory sample_board_env st = Inr (0x4000000, st\<lparr>io := h, mbox_buf := m\<rparr>)"
  "\<exists>h m. mbox_get_board_revision sample_board_env st = Inr (0xc03111, st\<lparr>io := h, mbox_buf := m\<rparr>)"
proof -
  have tags: "MBOX_TAG_GET_BOARDREVISION \<noteq> MBOX_TAG_GET_VCMEMORY" by (simp add: MBOX_TAG_GET_BOARDREVISION_def MBOX_TAG_GET_VCMEMORY_def)
  have vc: "vc sample_board_env h (set_body [] (MSG_INIT 2 MBOX_TAG_GET_VCMEMORY m)) (5 + 1) = 0x4000000"
    "vc sample_board_env h (set_body [] (MSG_INIT 1 MBOX_TAG_GET_BOARDREVISION m)) (5 + 0) = 0xc03111" for h m
    using tags by (simp_all add: sample_board_env_def set_body_def MSG_INIT_def)
  have w: "\<exists>h m. mbox_word sample_board_env n tagid vs i st = Inr (v, st\<lparr>io := h, mbox_buf := m\<rparr>)"
    if "\<And>h. vc sample_board_env h (set_body vs (MSG_INIT n tagid (mbox_buf st))) (5 + i) = v" for n tagid vs i v
    using sample_board_call [of n tagid vs st] that unfolding mbox_word_def by (elim exE) (simp, blast)
  show "\<exists>h m. mbox_get_vc_memory sample_board_env st = Inr (0x4000000, st\<lparr>io := h, mbox_buf := m\<rparr>)"
    unfolding mbox_get_vc_memory_def by (rule w [OF vc(1)])
  show "\<exists>h m. mbox_get_board_revision sample_board_env st = Inr (0xc03111, st\<lparr>io := h, mbox_buf := m\<rparr>)"
    unfolding mbox_get_board_revision_def by (rule w [OF vc(2)])
qed

lemma sample_raminfo_runs:
  "is_ok (bind_result (avoid_ram sample_env BCM2711_DRAM_BASE BCM2711_DRAM_STUB_SIZE (sample_board\<lparr>io := h, mbox_buf := m\<rparr>)) (\<lambda>st.
     bind_result (avoid_ram sample_env 0x3c000000 0x4000000 st) (\<lambda>st.
     bind_result (add_all_ram sample_env 0 (GIG 4) st) (\<lambda>st.
     bind_result (alloc_ram sample_env 0x3c000000 0x4000000 0 st) (\<lambda>(_, st).
     bind_result (as_add_containing (abi sample_env) 0x3c000000 0x3fffffff AS_ATTR_RAM (cs ''vcram'') (cs ''ram'') st) (\<lambda>(_, st).
     bind_result (as_add_containing (abi sample_env) BCM2711_DRAM_BASE 0x3bffffff AS_ATTR_RAM (cs ''below1G'') (cs ''ram'') st)
       (\<lambda>(_, st). Inr st)))))))"
  by code_simp

theorem init_raminfo_ram_witness:
  "\<exists>st'. bcm2711_init_raminfo sample_env sample_board_env 0 sample_board = Inr st' \<and> 0x30000000 \<in> ram_set (ram_list st')
     \<and> 0xfc000000 \<notin> ram_set (ram_list st') \<and> 0x800 \<notin> usable st' \<and> 0x3c001000 \<notin> usable st'"
proof -
  obtain h m where v: "mbox_get_vc_memory sample_board_env sample_board = Inr (0x4000000, sample_board\<lparr>io := h, mbox_buf := m\<rparr>)"
    using sample_board_mail(1) [of sample_board] by blast
  obtain h' m' where "mbox_get_board_revision sample_board_env (sample_board\<lparr>io := h, mbox_buf := m\<rparr>)
      = Inr (0xc03111, sample_board\<lparr>io := h, mbox_buf := m, io := h', mbox_buf := m'\<rparr>)"
    using sample_board_mail(2) [of "sample_board\<lparr>io := h, mbox_buf := m\<rparr>"] by blast
  then have r: "mbox_get_board_revision sample_board_env (sample_board\<lparr>io := h, mbox_buf := m\<rparr>) = Inr (0xc03111, sample_board\<lparr>io := h', mbox_buf := m'\<rparr>)"
    by simp
  have size: "ram_size_of 0xc03111 = GIG 4"
    by (simp add: ram_size_of_def get_memory_size_def table_entry_def MEG_def GIG_def)
  have start: "GIG 1 - ucast (0x4000000 :: u32) = 0x3c000000" by (simp add: sizes)
  have four: "GIG 1 < GIG 4" by (simp add: sizes)
  obtain st' where run: "bcm2711_init_raminfo sample_env sample_board_env 0 sample_board = Inr st'"
    using sample_raminfo_runs [where h = h' and m = m'] unfolding bcm2711_init_raminfo_def v r bind_result_Inr prod.case Let_def size start
    by (auto elim!: is_okE simp: four)
  have "\<not> avoid_set sample_board" by (simp add: sample_board_def)
  from init_raminfo_ram [OF run this v _ _ r]
  have sp: "ram_set (ram_list st') = board_ram (GIG 4) - {image_start sample_env ..< image_end sample_env} - {2 ^ 30 - 2 ^ 26 ..< 2 ^ 30}"
    "usable st' \<inter> ({0 ..< 2 ^ 12} \<union> {2 ^ 30 - 2 ^ 26 ..< 2 ^ 30}) = {}"
    by (simp_all add: size sample_env_def)
  have img: "image_start sample_env = 0x81000" "image_end sample_env = 0x84000" by (simp_all add: image_start_def image_end_def sample_env_def)
  have "0x30000000 \<in> ram_set (ram_list st') \<and> 0xfc000000 \<notin> ram_set (ram_list st')" unfolding sp(1) img by (simp add: board_ram_def sizes)
  moreover have "0x800 \<notin> usable st'" "0x3c001000 \<notin> usable st'" using sp(2) by auto
  ultimately show ?thesis using run by blast
qed

section \<open>Pins\<close>

text \<open>A register that reads back the last value written to it, as the function and pull registers of the pins do.\<close>

definition holds :: "port \<Rightarrow> nat \<Rightarrow> bool" where
  "holds p r \<longleftrightarrow> (\<forall>h v. p (h @ [Wr r v]) r = v) \<and> (\<forall>h q v. q \<noteq> r \<longrightarrow> p (h @ [Wr q v]) r = p h r) \<and> (\<forall>h q v. p (h @ [Rd q v]) r = p h r)"

definition gpio_port :: "port \<Rightarrow> bool" where
  "gpio_port p \<longleftrightarrow> (\<forall>k < 6. holds p (BCM2711_GPIO_BASE + k * 4)) \<and> (\<forall>k < 4. holds p (BCM2711_GPIO_BASE + (GPPUPPDN0 + k * 4)))"

text \<open>The function and the pull of a pin.\<close>

definition pin_func :: "board_env \<Rightarrow> 'a board_state_scheme \<Rightarrow> nat \<Rightarrow> u32" where
  "pin_func b st n = drop_bit (3 * (n mod 10)) (bport b (io st) (BCM2711_GPIO_BASE + n div 10 * 4)) AND mask 3"

definition pin_pull :: "board_env \<Rightarrow> 'a board_state_scheme \<Rightarrow> nat \<Rightarrow> u32" where
  "pin_pull b st n = drop_bit (2 * (n mod 16)) (bport b (io st) (BCM2711_GPIO_BASE + (GPPUPPDN0 + n div 16 * 4))) AND mask 2"

lemma field_put:
  fixes v f :: u32
  assumes "s + w \<le> 32"
  shows "drop_bit s ((v AND NOT (push_bit s (mask w))) OR push_bit s (f AND mask w)) AND mask w = f AND mask w"
    and "s' + w \<le> s \<or> s + w \<le> s' \<Longrightarrow> s' + w \<le> 32 \<Longrightarrow>
      drop_bit s' ((v AND NOT (push_bit s (mask w))) OR push_bit s (f AND mask w)) AND mask w = drop_bit s' v AND mask w"
proof -
  show "drop_bit s ((v AND NOT (push_bit s (mask w))) OR push_bit s (f AND mask w)) AND mask w = f AND mask w"
    using assms by (auto intro!: bit_word_eqI simp: bit_simps)
  assume a: "s' + w \<le> s \<or> s + w \<le> s'" "s' + w \<le> 32"
  show "drop_bit s' ((v AND NOT (push_bit s (mask w))) OR push_bit s (f AND mask w)) AND mask w = drop_bit s' v AND mask w"
  proof (rule bit_word_eqI)
    fix n assume "n < LENGTH(32)"
    have "n < w \<Longrightarrow> \<not> (s \<le> s' + n \<and> s' + n - s < w)" using a(1) by linarith
    then show "bit (drop_bit s' ((v AND NOT (push_bit s (mask w))) OR push_bit s (f AND mask w)) AND mask w) n = bit (drop_bit s' v AND mask w) n"
      using a(2) by (auto simp: bit_simps)
  qed
qed

lemma reg_write:
  "holds (bport b) q \<Longrightarrow> bport b (io (io_write r v st)) q = (if q = r then v else bport b (io st) q)"
  "holds (bport b) q \<Longrightarrow> bport b (io (snd (io_read b r st))) q = bport b (io st) q"
  "fst (io_read b r st) = bport b (io st) r"
  by (auto simp: holds_def io_write_def out32_def io_read_def in32_def)

lemma gpio_holds:
  assumes "gpio_port p" and "n \<le> GPIO_MAX"
  shows "holds p (BCM2711_GPIO_BASE + n div 10 * 4)" "holds p (BCM2711_GPIO_BASE + (GPPUPPDN0 + n div 16 * 4))"
proof -
  have "n div 10 < 6" "n div 16 < 4" using assms(2) by (simp_all add: GPIO_MAX_def less_mult_imp_div_less)
  then show "holds p (BCM2711_GPIO_BASE + n div 10 * 4)" "holds p (BCM2711_GPIO_BASE + (GPPUPPDN0 + n div 16 * 4))"
    using assms(1) unfolding gpio_port_def by blast+
qed

lemma digit_apart:
  fixes m n d :: nat
  assumes "m div d = n div d" and "m \<noteq> n"
  shows "m mod d < n mod d \<or> n mod d < m mod d"
  using assms by (metis div_mult_mod_eq linorder_neqE_nat)

text \<open>What the two setters do to the view of the pins.\<close>

lemma set_fsel_view:
  assumes gp: "gpio_port (bport b)" and g: "unat g \<le> GPIO_MAX" and m: "m \<le> GPIO_MAX"
  shows "pin_func b (bcm2711_set_gpio_fsel b g fs st) m = (if m = unat g then fs AND mask 3 else pin_func b st m)"
    and "pin_pull b (bcm2711_set_gpio_fsel b g fs st) m = pin_pull b st m"
proof -
  define n where "n = unat g"
  define r where "r = BCM2711_GPIO_BASE + n div 10 * 4"
  define v where "v = bport b (io st) r"
  define w where "w = (v AND NOT (push_bit (3 * (n mod 10)) (mask 3))) OR push_bit (3 * (n mod 10)) (fs AND mask 3)"
  have "(0x7 :: u32) = mask 3" by (simp add: mask_eq_exp_minus_1)
  then have e: "bcm2711_set_gpio_fsel b g fs st = io_write r w (snd (io_read b r st))"
    using g by (simp add: bcm2711_set_gpio_fsel_def case_prod_beta Let_def reg_write(3) r_def w_def v_def n_def)
  note h = gpio_holds [OF gp m]
  have v2: "bport b (io (bcm2711_set_gpio_fsel b g fs st)) q = (if q = r then w else bport b (io st) q)" if "holds (bport b) q" for q
    unfolding e by (simp add: reg_write(1,2) [OF that])
  have "n mod 10 \<le> 9" "m mod 10 \<le> 9" by simp_all
  then have s: "3 * (n mod 10) + 3 \<le> 32" and s': "3 * (m mod 10) + 3 \<le> 32" by linarith+
  note fp = field_put [OF s, where v = v and f = fs]
  show "pin_func b (bcm2711_set_gpio_fsel b g fs st) m = (if m = unat g then fs AND mask 3 else pin_func b st m)"
  proof (cases "m div 10 = n div 10")
    case True
    then have rm: "BCM2711_GPIO_BASE + m div 10 * 4 = r" by (simp add: r_def)
    show ?thesis
    proof (cases "m = n")
      case True
      then show ?thesis using v2 [OF h(1)] rm fp(1) by (simp add: pin_func_def w_def n_def)
    next
      case False
      then have "3 * (m mod 10) + 3 \<le> 3 * (n mod 10) \<or> 3 * (n mod 10) + 3 \<le> 3 * (m mod 10)"
        using digit_apart [OF True] by linarith
      from fp(2) [OF this s'] show ?thesis using v2 [OF h(1)] rm False by (simp add: pin_func_def w_def v_def n_def)
    qed
  next
    case False
    then have "BCM2711_GPIO_BASE + m div 10 * 4 \<noteq> r" "m \<noteq> n" by (auto simp: r_def)
    then show ?thesis using v2 [OF h(1)] by (simp add: pin_func_def n_def)
  qed
  have "n div 10 * 4 < GPPUPPDN0" using g by (simp add: n_def GPIO_MAX_def GPPUPPDN0_def)
  then have "BCM2711_GPIO_BASE + (GPPUPPDN0 + m div 16 * 4) \<noteq> r" by (simp add: r_def)
  then show "pin_pull b (bcm2711_set_gpio_fsel b g fs st) m = pin_pull b st m" using v2 [OF h(2)] by (simp add: pin_pull_def)
qed

lemma set_pull_view:
  assumes gp: "gpio_port (bport b)" and g: "unat g \<le> GPIO_MAX" and m: "m \<le> GPIO_MAX"
  shows "pin_pull b (bcm2711_gpio_set_pull b g ty st) m = (if m = unat g \<and> ty \<le> 2 then ty else pin_pull b st m)"
    and "pin_func b (bcm2711_gpio_set_pull b g ty st) m = pin_func b st m"
proof -
  define n where "n = unat g"
  define r where "r = BCM2711_GPIO_BASE + (GPPUPPDN0 + n div 16 * 4)"
  define v where "v = bport b (io st) r"
  define w where "w = (v AND NOT (push_bit (2 * (n mod 16)) (mask 2))) OR push_bit (2 * (n mod 16)) (ty AND mask 2)"
  have idx: "unat (drop_bit 4 g) = n div 16" "unat (g AND 0xf) = n mod 16"
  proof -
    show "unat (drop_bit 4 g) = n div 16" by (simp add: n_def drop_bit_eq_div unat_div)
    have "g AND 0xf = take_bit 4 g" by (simp add: take_bit_eq_mask mask_eq_exp_minus_1)
    moreover have "unat (take_bit 4 g) = unat g mod 2 ^ 4" unfolding unsigned_take_bit_eq by (rule take_bit_eq_mod)
    ultimately show "unat (g AND 0xf) = n mod 16" by (simp add: n_def)
  qed
  have small: "ty AND mask 2 = ty" if "ty \<le> 2"
  proof -
    have "unat ty < 2 ^ 2" using that by (simp add: word_le_nat_alt)
    then have "take_bit 2 ty = ty" by (simp add: word_eq_nat unsigned_take_bit_eq take_bit_nat_eq_self_iff)
    then show ?thesis by (simp add: take_bit_eq_mask)
  qed
  have "(3 :: u32) = mask 2" by (simp add: mask_eq_exp_minus_1)
  then have e: "bcm2711_gpio_set_pull b g ty st = (if ty \<le> 2 then io_write r w (snd (io_read b r st)) else st)"
    using g small by (auto simp: bcm2711_gpio_set_pull_def case_prod_beta Let_def reg_write(3) r_def w_def v_def n_def idx [unfolded n_def])
  note h = gpio_holds [OF gp m]
  show "pin_pull b (bcm2711_gpio_set_pull b g ty st) m = (if m = unat g \<and> ty \<le> 2 then ty else pin_pull b st m)"
    and "pin_func b (bcm2711_gpio_set_pull b g ty st) m = pin_func b st m"
  proof -
    have v2: "bport b (io (bcm2711_gpio_set_pull b g ty st)) q = (if ty \<le> 2 \<and> q = r then w else bport b (io st) q)" if "holds (bport b) q" for q
      unfolding e by (cases "ty \<le> 2") (simp_all add: reg_write(1,2) [OF that] cong: if_cong split del: if_split)
    have "n mod 16 \<le> 15" "m mod 16 \<le> 15" by simp_all
    then have s: "2 * (n mod 16) + 2 \<le> 32" and s': "2 * (m mod 16) + 2 \<le> 32" by linarith+
    note fp = field_put [OF s, where v = v and f = ty]
    show "pin_pull b (bcm2711_gpio_set_pull b g ty st) m = (if m = unat g \<and> ty \<le> 2 then ty else pin_pull b st m)"
    proof (cases "m div 16 = n div 16")
      case True
      then have rm: "BCM2711_GPIO_BASE + (GPPUPPDN0 + m div 16 * 4) = r" by (simp add: r_def)
      show ?thesis
      proof (cases "m = n")
        case True
        have "drop_bit (2 * (n mod 16)) w AND mask 2 = ty AND mask 2" unfolding w_def by (rule fp(1))
        then show ?thesis using v2 [OF h(2)] rm small \<open>m = n\<close> by (cases "ty \<le> 2") (simp_all add: pin_pull_def n_def)
      next
        case False
        then have "2 * (m mod 16) + 2 \<le> 2 * (n mod 16) \<or> 2 * (n mod 16) + 2 \<le> 2 * (m mod 16)"
          using digit_apart [OF True] by linarith
        from fp(2) [OF this s'] show ?thesis using v2 [OF h(2)] rm False by (simp add: pin_pull_def w_def v_def n_def)
      qed
    next
      case False
      then have "BCM2711_GPIO_BASE + (GPPUPPDN0 + m div 16 * 4) \<noteq> r" "m \<noteq> n" by (auto simp: r_def)
      then show ?thesis using v2 [OF h(2)] by (simp add: pin_pull_def n_def)
    qed
    have "m div 10 * 4 < GPPUPPDN0" using m by (simp add: GPIO_MAX_def GPPUPPDN0_def)
    then have "BCM2711_GPIO_BASE + m div 10 * 4 \<noteq> r" by (simp add: r_def)
    then show "pin_func b (bcm2711_gpio_set_pull b g ty st) m = pin_func b st m" using v2 [OF h(1)] by (simp add: pin_func_def)
  qed
qed

lemma set_level_view:
  assumes gp: "gpio_port (bport b)" and m: "m \<le> GPIO_MAX"
  shows "pin_pull b (bcm2711_set_gpio_level g l st) m = pin_pull b st m" "pin_func b (bcm2711_set_gpio_level g l st) m = pin_func b st m"
proof -
  have r: "(if l \<noteq> 0 then if g < 32 then GPSET0 else GPSET1 else if g < 32 then GPCLR0 else GPCLR1) \<in> {0x18 <..< GPPUPPDN0}"
    by (simp add: GPSET0_def GPSET1_def GPCLR0_def GPCLR1_def GPPUPPDN0_def)
  have "m div 10 * 4 \<le> 0x18" using m by (simp add: GPIO_MAX_def)
  then show "pin_pull b (bcm2711_set_gpio_level g l st) m = pin_pull b st m" "pin_func b (bcm2711_set_gpio_level g l st) m = pin_func b st m"
    using r by (auto simp: bcm2711_set_gpio_level_def pin_pull_def pin_func_def Let_def reg_write(1) [OF gpio_holds(1) [OF gp m]]
        reg_write(1) [OF gpio_holds(2) [OF gp m]])
qed

text \<open>The abstract view: function and pull of every pin.\<close>

definition pins :: "board_env \<Rightarrow> 'a board_state_scheme \<Rightarrow> nat \<Rightarrow> u32 \<times> u32" where
  "pins b st = (\<lambda>n. if n \<le> GPIO_MAX then (pin_func b st n, pin_pull b st n) else (0, 0))"

definition configure :: "bcm2711_pinmux \<Rightarrow> (nat \<Rightarrow> u32 \<times> u32) \<Rightarrow> nat \<Rightarrow> u32 \<times> u32" where
  "configure p v = v(unat (pin_num p) := (ucast (fsel p), ucast (pull p)))"

definition pin_ok :: "bcm2711_pinmux \<Rightarrow> bool" where
  "pin_ok p \<longleftrightarrow> unat (pin_num p) \<le> GPIO_MAX \<and> fsel p < 8 \<and> pull p \<le> 2 \<and> is_last p = 0"

lemma set_pin_view:
  fixes st :: "'a board_state_scheme"
  assumes gp: "gpio_port (bport b)" and ok: "pin_ok p"
  shows "pins b (set_pin b p st) = configure p (pins b st)"
proof
  fix n
  have u: "unat (ucast x :: u32) = unat x" for x :: u8
  proof -
    have "unat x < 2 ^ 8" using unsigned_less [of x] by simp
    then show ?thesis by (simp add: unsigned_ucast_eq take_bit_nat_eq_self_iff)
  qed
  have g: "unat (ucast (pin_num p) :: u32) \<le> GPIO_MAX" using ok by (simp add: pin_ok_def u)
  have f: "ucast (fsel p) AND mask 3 = (ucast (fsel p) :: u32)"
  proof -
    have "unat (ucast (fsel p) :: u32) < 2 ^ 3" using ok by (simp add: pin_ok_def u word_less_nat_alt)
    then have "take_bit 3 (ucast (fsel p) :: u32) = ucast (fsel p)" by (simp add: word_eq_nat unsigned_take_bit_eq take_bit_nat_eq_self_iff)
    then show ?thesis by (simp add: take_bit_eq_mask)
  qed
  have pl: "(ucast (pull p) :: u32) \<le> 2" using ok by (simp add: pin_ok_def u word_le_nat_alt)
  show "pins b (set_pin b p st) n = configure p (pins b st) n"
  proof (cases "n \<le> GPIO_MAX")
    case True
    note views = set_fsel_view [OF gp g True] set_pull_view [OF gp g True] set_level_view [OF gp True]
    have lv: "pin_func b (if c then bcm2711_set_gpio_level x l s else s) n = pin_func b s n"
      "pin_pull b (if c then bcm2711_set_gpio_level x l s else s) n = pin_pull b s n" for c x l and s :: "'a board_state_scheme"
      by (simp_all add: set_level_view [OF gp True])
    have "pin_func b (set_pin b p st) n = (if n = unat (pin_num p) then ucast (fsel p) else pin_func b st n)"
      "pin_pull b (set_pin b p st) n = (if n = unat (pin_num p) then ucast (pull p) else pin_pull b st n)"
      unfolding set_pin_def Let_def lv views f u using pl by simp_all
    then show ?thesis using True by (simp add: pins_def configure_def)
  next
    case False
    then have "n \<noteq> unat (pin_num p)" using ok by (auto simp: pin_ok_def)
    then show ?thesis using False by (simp add: pins_def configure_def)
  qed
qed

lemma module_pinmux_view:
  assumes "gpio_port (bport b)" and "\<forall>p \<in> set ps. pin_ok p" and "is_last e \<noteq> 0"
  shows "\<exists>st'. module_pinmux b (ps @ [e]) st = Inr st' \<and> pins b st' = fold configure ps (pins b st)"
  using assms(2)
proof (induction ps arbitrary: st)
  case Nil
  then show ?case using assms(3) by simp
next
  case (Cons p ps)
  from Cons.prems have "is_last p = 0" "pin_ok p" by (simp_all add: pin_ok_def)
  then show ?case using Cons.IH [of "set_pin b p st"] Cons.prems by (simp add: set_pin_view [OF assms(1)])
qed

lemma last_marks: "is_last last_pin \<noteq> 0"
  by (simp add: last_pin_def)

text \<open>When the registers read back what was written, \<open>init_board\<close> succeeds, and seen as functions and pulls of pins it applies
  the entries of the configuration tables one after the other: the pins of the tables get their function and pull, no other pin changes,
  although several pins share each register.\<close>

theorem init_board_configures:
  assumes gp: "gpio_port (bport b)"
  shows "\<exists>st'. init_board b st = Inr st' \<and> pins b st' = fold configure (concat (map butlast rpi_board_config)) (pins b st)"
proof -
  note view = module_pinmux_view [OF gp _ last_marks]
  have tables: "\<exists>st'. setup_modules b ms st = Inr st' \<and> pins b st' = fold configure (concat (map butlast ms)) (pins b st)"
    if "\<forall>m \<in> set ms. \<exists>ps. m = ps @ [last_pin] \<and> (\<forall>p \<in> set ps. pin_ok p)" for ms and st
    using that
  proof (induction ms arbitrary: st)
    case (Cons m ms)
    then obtain ps where m: "m = ps @ [last_pin]" "\<forall>p \<in> set ps. pin_ok p" by auto
    obtain st1 where 1: "module_pinmux b (ps @ [last_pin]) st = Inr st1" "pins b st1 = fold configure ps (pins b st)"
      using view [OF m(2)] by blast
    obtain st' where 2: "setup_modules b ms st1 = Inr st'" "pins b st' = fold configure (concat (map butlast ms)) (pins b st1)"
      using Cons.IH [of st1] Cons.prems by auto
    show ?case using 1 2 by (simp add: module_setup_def m(1))
  qed simp
  have "\<forall>m \<in> set rpi_board_config. \<exists>ps. m = ps @ [last_pin] \<and> (\<forall>p \<in> set ps. pin_ok p)"
  proof
    fix m assume "m \<in> set rpi_board_config"
    moreover have "\<forall>m \<in> set rpi_board_config. m = butlast m @ [last_pin] \<and> (\<forall>p \<in> set (butlast m). pin_ok p)"
      by (simp add: rpi_board_config_def pin_ok_def pin_def GPIO_MAX_def FUNC_A0_def FUNC_A4_def FUNC_A5_def PULL_UP_def PULL_NONE_def)
    ultimately show "\<exists>ps. m = ps @ [last_pin] \<and> (\<forall>p \<in> set ps. pin_ok p)" by blast
  qed
  from tables [OF this] show ?thesis unfolding init_board_def .
qed

text \<open>Registers that keep their values.\<close>

definition kept_port :: port where
  "kept_port h r = (if written r h = [] then 0 else last (written r h))"

lemma kept_port_holds: "gpio_port kept_port"
  by (simp add: gpio_port_def holds_def kept_port_def)

theorem init_board_configures_witness:
  "\<exists>st'. init_board (sample_board_env\<lparr>bport := kept_port\<rparr>) sample_board = Inr st'
     \<and> pins (sample_board_env\<lparr>bport := kept_port\<rparr>) st' 14 = (2, 1) \<and> pins (sample_board_env\<lparr>bport := kept_port\<rparr>) st' 10 = (4, 0)
     \<and> pins (sample_board_env\<lparr>bport := kept_port\<rparr>) st' 17 = pins (sample_board_env\<lparr>bport := kept_port\<rparr>) sample_board 17"
proof -
  let ?E = "sample_board_env\<lparr>bport := kept_port\<rparr>"
  have "gpio_port (bport ?E)" using kept_port_holds by simp
  from init_board_configures [OF this, of sample_board]
  obtain st' where run: "init_board ?E sample_board = Inr st'"
    and view: "pins ?E st' = fold configure (concat (map butlast rpi_board_config)) (pins ?E sample_board)" by blast
  have nums: "fold configure (concat (map butlast rpi_board_config)) v 14 = (2, 1)"
    "fold configure (concat (map butlast rpi_board_config)) v 10 = (4, 0)"
    "fold configure (concat (map butlast rpi_board_config)) v 17 = v 17" for v
    by (simp_all add: rpi_board_config_def configure_def pin_def FUNC_A0_def FUNC_A4_def FUNC_A5_def PULL_UP_def PULL_NONE_def)
  show ?thesis using run nums [of "pins ?E sample_board"] unfolding view [symmetric] by blast
qed

section \<open>Arguments from the firmware\<close>

text \<open>
  The VideoCore's own arguments before the first dash are skipped; the first argument passed on is the whole rest of the line, because only
  the calls after it end their argument with a zero byte.
\<close>

definition sample_line :: "u8 list" where
  "sample_line = cs ''vc -v -r'' @ [0]"

lemma sample_line_args:
  "skip_vpu_args (Suc (length sample_line)) sample_line 0 = Inr (3, 6)"
  "find_next_arg sample_line 6 True = Inr (6, 8, sample_line)"
  "find_next_arg sample_line 8 True = Inr (8, 8, sample_line)"
  "string_at sample_line 3 = Inr (cs ''-v -r'')" "string_at sample_line 6 = Inr (cs ''-r'')"
  "sample_line ! 3 = 0x2d" "sample_line ! 4 = 0x76" "sample_line ! 6 = 0x2d" "sample_line ! 7 = 0x72" "sample_line ! 8 = 0"
  by code_simp+

lemma vpu_args_passed:
  "tweak_line sample_line bap =
     bind_result (bootstrap_arg_adjust bap None (Some (cs ''-v -r''))) (\<lambda>(_, bap).
     bind_result (bootstrap_arg_adjust bap None (Some (cs ''-r''))) (\<lambda>(_, bap). Inr (8, bap)))"
proof -
  obtain k where n: "Suc (length sample_line) = Suc (Suc (Suc k))" by (simp add: sample_line_def cs_def eval_nat_numeral)
  show ?thesis unfolding tweak_line_def sample_line_args(1) bind_result_Inr prod.case unfolding n
    by (simp add: sample_line_args(2-) DASH_def)
qed

end
