(* ===== verification/Dma.thy ===== *)
theory Dma
  imports Prelude
begin

text \<open>
  The DMA library (\<open>lib/dma/bcm2711/bcm2711_dmac.c\<close>): channels of three kinds (DMA, DMA lite and
  DMA4), transfers described by scatter-gather lists, control blocks chained in memory,
  register accesses.  A register read is an input of the model: \<open>dev\<close> gives the value a read of
  an address returns at a given point in time.  Writes and calls into the operating system
  are kept in a log.  What the operating system answers (\<open>mmap\<close>, \<open>rsrcdbmgr_attach\<close>,
  \<open>InterruptAttachEvent\<close>, locks) is the parameter \<open>dma_os\<close>.
\<close>

section \<open>Constants\<close>

text \<open>\<open>public/hw/dma.h\<close>\<close>

definition DMA_ATTACH_ANY_CHANNEL :: u32 where "DMA_ATTACH_ANY_CHANNEL = 0x1"
definition DMA_ATTACH_PRIORITY_STRICT :: u32 where "DMA_ATTACH_PRIORITY_STRICT = 0x2"
definition DMA_ATTACH_PRIORITY_ATLEAST :: u32 where "DMA_ATTACH_PRIORITY_ATLEAST = 0x4"
definition DMA_ATTACH_PRIORITY_HIGHEST :: u32 where "DMA_ATTACH_PRIORITY_HIGHEST = 0x8"
definition DMA_ATTACH_EVENT_ON_COMPLETE :: u32 where "DMA_ATTACH_EVENT_ON_COMPLETE = 0x10"
definition DMA_ATTACH_EVENT_PER_SEGMENT :: u32 where "DMA_ATTACH_EVENT_PER_SEGMENT = 0x20"
definition DMA_MODE_FLAG_REPEAT :: u32 where "DMA_MODE_FLAG_REPEAT = 0x1"
definition DMA_ADDR_FLAG_IO :: u32 where "DMA_ADDR_FLAG_IO = 0x1"
definition DMA_ADDR_FLAG_MEMORY :: u32 where "DMA_ADDR_FLAG_MEMORY = 0x2"
definition DMA_ADDR_FLAG_DEVICE :: u32 where "DMA_ADDR_FLAG_DEVICE = 0x4"
definition DMA_ADDR_FLAG_NO_INCREMENT :: u32 where "DMA_ADDR_FLAG_NO_INCREMENT = 0x8"

text \<open>\<open>bcm2711_dmac.h\<close>\<close>

definition DMA_DEFAULT_NUM_CBS :: u32 where "DMA_DEFAULT_NUM_CBS = 32"
definition DMA_CB_SIZE :: u32 where "DMA_CB_SIZE = 32"
definition MAX_DMA_LEN :: u32 where "MAX_DMA_LEN = 1024 * 1024 * 1024"
definition MAX_LITE_DMA_LEN :: u32 where "MAX_LITE_DMA_LEN = 64 * 1024 - 4"
definition DMA4_UNIT_SIZE_BITMAP :: u32 where "DMA4_UNIT_SIZE_BITMAP = 0x4 OR 0x8 OR 0x10"
definition DMA_UNIT_SIZE_BITMAP :: u32 where "DMA_UNIT_SIZE_BITMAP = 0x4 OR 0x10"
definition DMA_MAX_NUM_CBS :: u32 where "DMA_MAX_NUM_CBS = 4096"
definition DMA_MAX_DREQ_NUM :: u32 where "DMA_MAX_DREQ_NUM = 31"
definition DMA_ENABLE :: u64 where "DMA_ENABLE = 0xff0"

definition DMA_CS :: u64 where "DMA_CS = 0x000"
definition DMA_CS_RESET :: u32 where "DMA_CS_RESET = push_bit 31 1"
definition DMA_CS_ERROR :: u32 where "DMA_CS_ERROR = push_bit 8 1"
definition DMA_CS_WAITING_FOR_WRITES :: u32 where "DMA_CS_WAITING_FOR_WRITES = push_bit 6 1"
definition DMA_CS_INT :: u32 where "DMA_CS_INT = push_bit 2 1"
definition DMA_CS_END :: u32 where "DMA_CS_END = push_bit 1 1"
definition DMA_CS_ACTIVE :: u32 where "DMA_CS_ACTIVE = 1"
definition DMA_CS_FLAGS_DEVICE :: u32 where
  "DMA_CS_FLAGS_DEVICE = push_bit 16 15 OR push_bit 20 15 OR push_bit 28 1"
definition DMA_CS_FLAGS_MEMCPY :: u32 where "DMA_CS_FLAGS_MEMCPY = push_bit 28 1"
definition DMA_CONBLK_AD :: u64 where "DMA_CONBLK_AD = 0x004"
definition DMA_DEBUG :: u64 where "DMA_DEBUG = 0x020"
definition DMA_DEBUG_OUTSTANDING_WRITES :: u32 where "DMA_DEBUG_OUTSTANDING_WRITES = push_bit 4 0xf"

definition DMA_TI_WAITS :: "u32 \<Rightarrow> u32" where "DMA_TI_WAITS n = push_bit 21 n"
definition DMA_TI_PERMAP :: "u32 \<Rightarrow> u32" where "DMA_TI_PERMAP n = push_bit 16 n"
definition DMA_TI_BURST :: "u32 \<Rightarrow> u32" where "DMA_TI_BURST n = push_bit 12 ((if n < 16 then n else 16) - 1)"
definition DMA_TI_SRC_DREQ :: u32 where "DMA_TI_SRC_DREQ = push_bit 10 1"
definition DMA_TI_SRC_WIDTH_128 :: u32 where "DMA_TI_SRC_WIDTH_128 = push_bit 9 1"
definition DMA_TI_SRC_WIDTH_32 :: u32 where "DMA_TI_SRC_WIDTH_32 = 0"
definition DMA_TI_SRC_INC :: u32 where "DMA_TI_SRC_INC = push_bit 8 1"
definition DMA_TI_DST_DREQ :: u32 where "DMA_TI_DST_DREQ = push_bit 6 1"
definition DMA_TI_DST_WIDTH_128 :: u32 where "DMA_TI_DST_WIDTH_128 = push_bit 5 1"
definition DMA_TI_DST_WIDTH_32 :: u32 where "DMA_TI_DST_WIDTH_32 = 0"
definition DMA_TI_DST_INC :: u32 where "DMA_TI_DST_INC = push_bit 4 1"
definition DMA_TI_WAIT_RESP :: u32 where "DMA_TI_WAIT_RESP = push_bit 3 1"
definition DMA_TI_INTEN :: u32 where "DMA_TI_INTEN = 1"

definition DMA4_CS :: u64 where "DMA4_CS = 0x000"
definition DMA4_CS_ERROR :: u32 where "DMA4_CS_ERROR = push_bit 10 1"
definition DMA4_CS_WAITING_FOR_WRITES :: u32 where "DMA4_CS_WAITING_FOR_WRITES = push_bit 7 1"
definition DMA4_CS_INT :: u32 where "DMA4_CS_INT = push_bit 2 1"
definition DMA4_CS_END :: u32 where "DMA4_CS_END = push_bit 1 1"
definition DMA4_CS_ACTIVE :: u32 where "DMA4_CS_ACTIVE = 1"
definition DMA4_CS_FLAGS_DEVICE :: u32 where
  "DMA4_CS_FLAGS_DEVICE = push_bit 16 15 OR push_bit 20 15 OR push_bit 28 1"
definition DMA4_CS_FLAGS_MEMCPY :: u32 where "DMA4_CS_FLAGS_MEMCPY = push_bit 28 1"
definition DMA4_CB :: u64 where "DMA4_CB = 0x004"
definition DMA4_DEBUG :: u64 where "DMA4_DEBUG = 0x00C"
definition DMA4_DEBUG_RESET :: u32 where "DMA4_DEBUG_RESET = push_bit 23 1"
definition DMA4_DEBUG2 :: u64 where "DMA4_DEBUG2 = 0x02C"
definition DMA4_DEBUG2_OUTSTANDING_WRITES_MSK :: u32 where "DMA4_DEBUG2_OUTSTANDING_WRITES_MSK = 0x1ff"
definition DMA4_TI_D_WAITS :: "u32 \<Rightarrow> u32" where "DMA4_TI_D_WAITS n = push_bit 24 n"
definition DMA4_TI_S_WAITS :: "u32 \<Rightarrow> u32" where "DMA4_TI_S_WAITS n = push_bit 16 n"
definition DMA4_TI_D_DREQ :: u32 where "DMA4_TI_D_DREQ = push_bit 15 1"
definition DMA4_TI_S_DREQ :: u32 where "DMA4_TI_S_DREQ = push_bit 14 1"
definition DMA4_TI_PERMAP :: "u32 \<Rightarrow> u32" where "DMA4_TI_PERMAP n = push_bit 9 n"
definition DMA4_TI_WAIT_RD_RESP :: u32 where "DMA4_TI_WAIT_RD_RESP = push_bit 3 1"
definition DMA4_TI_WAIT_WR_RESP :: u32 where "DMA4_TI_WAIT_WR_RESP = push_bit 2 1"
definition DMA4_TI_INTEN :: u32 where "DMA4_TI_INTEN = 1"
definition DMA4_SIZE_32 :: u32 where "DMA4_SIZE_32 = 0"
definition DMA4_SIZE_64 :: u32 where "DMA4_SIZE_64 = push_bit 13 1"
definition DMA4_SIZE_128 :: u32 where "DMA4_SIZE_128 = push_bit 13 2"
definition DMA4_INC :: u32 where "DMA4_INC = push_bit 12 1"
definition DMA4_BURST_LEN :: "u32 \<Rightarrow> u32" where "DMA4_BURST_LEN n = push_bit 8 ((if n < 16 then n else 16) - 1)"

definition SRC_INC :: u32 where "SRC_INC = push_bit 4 1"
definition DST_INC :: u32 where "DST_INC = push_bit 3 1"
definition SRC_DREQ :: u32 where "SRC_DREQ = push_bit 2 1"
definition DST_DREQ :: u32 where "DST_DREQ = push_bit 1 1"
definition INT_EN :: u32 where "INT_EN = 1"
definition DMACH_BUSY :: u32 where "DMACH_BUSY = 1"

section \<open>State\<close>

datatype dma_xfer_types =
    IO_TO_IO | IO_TO_MEMORY | IO_TO_DEVICE
  | MEMORY_TO_IO | MEMORY_TO_MEMORY | MEMORY_TO_DEVICE
  | DEVICE_TO_IO | DEVICE_TO_MEMORY | DEVICE_TO_DEVICE
  | UNKNOWN_XFER_TYPE

record dma_ch_info =
  ci_offset :: u32
  ci_irq :: u32
  ci_is_dma4 :: bool
  ci_is_dmalite :: bool

definition ch_info_of :: "nat \<Rightarrow> u32 \<Rightarrow> bool \<Rightarrow> bool \<Rightarrow> dma_ch_info" where
  "ch_info_of i irq d4 lite =
     \<lparr>ci_offset = push_bit 8 (of_nat i), ci_irq = irq, ci_is_dma4 = d4, ci_is_dmalite = lite\<rparr>"

definition chs_info :: "dma_ch_info list" where
  "chs_info =
    [ch_info_of 0 112 False False, ch_info_of 1 113 False False, ch_info_of 2 114 False False,
     ch_info_of 3 115 False False, ch_info_of 4 116 False False, ch_info_of 5 117 False False,
     ch_info_of 6 118 False False, ch_info_of 7 119 False True, ch_info_of 8 119 False True,
     ch_info_of 9 120 False True, ch_info_of 10 120 False True, ch_info_of 11 121 True False,
     ch_info_of 12 122 True False, ch_info_of 13 123 True False, ch_info_of 14 124 True False]"

record dma_addr =
  da_vaddr :: u64
  da_paddr :: u64
  da_len :: u32

text \<open>
  \<open>dma_transfer_t\<close>.  The number of fragments is the size of the address array
  (\<open>public/hw/dma.h\<close>), so the arrays are lists.
\<close>

record dma_transfer =
  src_addrs :: "dma_addr list"
  dst_addrs :: "dma_addr list"
  src_flags :: u32
  dst_flags :: u32
  ti_unit_size :: u32
  xfer_bytes :: u32
  mode_flags :: u32
  req_id :: u32

definition src_fragments :: "dma_transfer \<Rightarrow> nat" where "src_fragments t = length (src_addrs t)"
definition dst_fragments :: "dma_transfer \<Rightarrow> nat" where "dst_fragments t = length (dst_addrs t)"

record dma_cb_params =
  cp_info :: u32
  cp_len :: u32
  cp_dreq :: u32
  cp_src_paddr :: u64
  cp_dst_paddr :: u64
  cp_nextcb :: u64

text \<open>The two layouts of a control block.\<close>

record dma_cb =
  cb_ti :: u32
  cb_source_ad :: u32
  cb_dest_ad :: u32
  cb_txfr_len :: u32
  cb_stride :: u32
  cb_nextconbk :: u32

record dma4_cb =
  c4_ti :: u32
  c4_src :: u32
  c4_srci :: u32
  c4_dest :: u32
  c4_desti :: u32
  c4_len :: u32
  c4_next_cb :: u32

datatype ctl_block = Blank | Legacy dma_cb | Dma4 dma4_cb

text \<open>\<open>cb_mem\<close> is the control block memory at \<open>cb.vaddr\<close>, by block index.\<close>

record dma_channel =
  chan_idx :: u32
  status :: u32
  ch_regs :: u64
  xfer_unit_size :: u32
  iid :: int
  typed_mem_fd :: int
  range_min :: int
  range_max :: int
  num_cbs :: u32
  frgs_num :: u32
  frg_count :: u32
  debug :: u32
  mflags :: u32
  aflags :: u32
  cb :: dma_addr
  cb_params :: dma_cb_params
  xfer_type :: dma_xfer_types
  cb_mem :: "nat \<Rightarrow> ctl_block"

definition ch_info :: "dma_channel \<Rightarrow> dma_ch_info" where
  "ch_info chan = chs_info ! unat (chan_idx chan)"

datatype os_event =
    Out32 u64 u32
  | Rsrc_detach u32
  | Close_fd int
  | Munmap u64 u32
  | Intr_unmask u32 int
  | Intr_detach int

record hw =
  now :: nat
  log :: "os_event list"

type_synonym device = "u64 \<Rightarrow> nat \<Rightarrow> u32"

definition in32 :: "device \<Rightarrow> u64 \<Rightarrow> hw \<Rightarrow> u32 \<times> hw" where
  "in32 dev a h = (dev a (now h), h\<lparr>now := Suc (now h)\<rparr>)"

definition event :: "os_event \<Rightarrow> hw \<Rightarrow> hw" where
  "event ev h = h\<lparr>log := log h @ [ev]\<rparr>"

definition out32 :: "u64 \<Rightarrow> u32 \<Rightarrow> hw \<Rightarrow> hw" where
  "out32 a v h = event (Out32 a v) h"

text \<open>The answers of the operating system.  \<open>None\<close> and \<open>- 1\<close> are failures.\<close>

record dma_os =
  os_mmap :: "u32 \<Rightarrow> u64 option"
  os_mem_offset :: "u64 \<Rightarrow> u64 option"
  os_attach :: "u64 \<Rightarrow> u64 \<Rightarrow> bool \<Rightarrow> u64 option"
  os_strdup_ok :: bool
  os_calloc_ok :: bool
  os_lock_ok :: bool
  os_typed_mem_default :: int
  os_intr_attach :: "u32 \<Rightarrow> int"

section \<open>Channel allocation\<close>

text \<open>
  The request \<open>rsrcdb_attach_channel\<close> makes: the range and whether it is searched from the
  top.  \<open>nch\<close> is \<open>bcm2711_dmac.num_channels\<close>.
\<close>

definition attach_range :: "u32 \<Rightarrow> dma_channel \<Rightarrow> u32 option \<Rightarrow> u64 \<Rightarrow> u32 \<Rightarrow> (u64 \<times> u64 \<times> bool) option" where
  "attach_range nch chan channel priority flags =
     (let (s, e) = (if range_min chan \<noteq> - 1 \<and> range_max chan \<noteq> - 1
                    then (word_of_int (range_min chan), word_of_int (range_max chan))
                    else (0, ucast (nch - 1))) in
      if flags AND DMA_ATTACH_PRIORITY_HIGHEST \<noteq> 0 then Some (s, e, True)
      else if flags AND (DMA_ATTACH_PRIORITY_STRICT OR DMA_ATTACH_PRIORITY_ATLEAST) \<noteq> 0 then
        if priority < s \<or> priority > e then None
        else Some (priority, if flags AND DMA_ATTACH_PRIORITY_STRICT \<noteq> 0 then priority else ucast (nch - 1), False)
      else if flags AND DMA_ATTACH_ANY_CHANNEL \<noteq> 0 then Some (s, e, False)
      else case channel of
          Some c \<Rightarrow> if ucast c \<ge> s \<and> ucast c \<le> e then Some (ucast c, ucast c, False) else None
        | None \<Rightarrow> None)"

definition rsrcdb_attach_channel :: "dma_os \<Rightarrow> u32 \<Rightarrow> dma_channel \<Rightarrow> u32 option \<Rightarrow> u64 \<Rightarrow> u32 \<Rightarrow> u64 ret" where
  "rsrcdb_attach_channel os nch chan channel priority flags =
     (case attach_range nch chan channel priority flags of
        None \<Rightarrow> Fail EINVAL
      | Some (s, e, topdown) \<Rightarrow>
          (case os_attach os s e topdown of None \<Rightarrow> Fail Errno_of_call | Some start \<Rightarrow> Ok start))"

definition rsrcdb_detach_resources :: "dma_channel \<Rightarrow> hw \<Rightarrow> hw" where
  "rsrcdb_detach_resources chan h = event (Rsrc_detach (chan_idx chan)) h"

text \<open>
  The options as \<open>getsubopt\<close> and \<open>strtoul\<close> deliver them; \<open>Opt_typed_mem\<close> carries the result
  of \<open>posix_typed_mem_open\<close>, \<open>Opt_bad\<close> is an unknown option.
\<close>

datatype dma_opt =
    Opt_num_cbs u64 | Opt_range_min u64 | Opt_range_max u64 | Opt_typed_mem int | Opt_debug u64 | Opt_bad

definition to_int16 :: "u64 \<Rightarrow> int" where
  "to_int16 v = sint (ucast v :: u16)"

fun parse_option_list :: "dma_opt list \<Rightarrow> dma_channel \<Rightarrow> errno option \<times> dma_channel" where
  "parse_option_list [] chan = (None, chan)"
| "parse_option_list (opt # opts) chan =
     (case opt of
        Opt_num_cbs v \<Rightarrow> parse_option_list opts (chan\<lparr>num_cbs := ucast v\<rparr>)
      | Opt_range_min v \<Rightarrow> parse_option_list opts (chan\<lparr>range_min := to_int16 v\<rparr>)
      | Opt_range_max v \<Rightarrow> parse_option_list opts (chan\<lparr>range_max := to_int16 v\<rparr>)
      | Opt_typed_mem fd \<Rightarrow>
          if fd = - 1 then (Some Errno_of_call, chan\<lparr>typed_mem_fd := fd\<rparr>)
          else parse_option_list opts (chan\<lparr>typed_mem_fd := fd\<rparr>)
      | Opt_debug v \<Rightarrow> parse_option_list opts (chan\<lparr>debug := ucast v\<rparr>)
      | Opt_bad \<Rightarrow> (Some EINVAL, chan))"

definition parse_options :: "dma_os \<Rightarrow> dma_channel \<Rightarrow> dma_opt list \<Rightarrow> errno option \<times> dma_channel" where
  "parse_options os chan options =
     (let (err, chan) = parse_option_list options (chan\<lparr>typed_mem_fd := - 1, num_cbs := DMA_DEFAULT_NUM_CBS\<rparr>) in
      if err \<noteq> None then (err, chan)
      else if (range_min chan = - 1) \<noteq> (range_max chan = - 1) then (Some EINVAL, chan)
      else if typed_mem_fd chan = - 1 then
        let chan = chan\<lparr>typed_mem_fd := os_typed_mem_default os\<rparr>
        in (if typed_mem_fd chan = - 1 then Some Errno_of_call else None, chan)
      else (None, chan))"

section \<open>Buffers\<close>

text \<open>The flags (\<open>PROT_NOCACHE\<close>) only choose the mapping's attributes.\<close>

definition dma_alloc_buffer :: "dma_os \<Rightarrow> dma_channel option \<Rightarrow> u32 \<Rightarrow> dma_addr \<Rightarrow> unit ret \<times> dma_addr" where
  "dma_alloc_buffer os handle sz addr =
     (case handle of
        None \<Rightarrow> (Fail EINVAL, addr)
      | Some chan \<Rightarrow>
          if typed_mem_fd chan = - 1 then (Fail EINVAL, addr)
          else case os_mmap os sz of
            None \<Rightarrow> (Fail Errno_of_call, addr\<lparr>da_vaddr := - 1\<rparr>)
          | Some v \<Rightarrow>
              (case os_mem_offset os v of
                 None \<Rightarrow> (Fail Errno_of_call, addr\<lparr>da_vaddr := v\<rparr>)
               | Some p \<Rightarrow> (Ok (), \<lparr>da_vaddr = v, da_paddr = p, da_len = sz\<rparr>)))"

definition dma_free_buffer :: "dma_addr \<Rightarrow> hw \<Rightarrow> dma_addr \<times> hw" where
  "dma_free_buffer addr h =
     (addr\<lparr>da_vaddr := 0, da_len := 0\<rparr>,
      if da_len addr \<noteq> 0 then event (Munmap (da_vaddr addr) (da_len addr)) h else h)"

section \<open>Bus addresses and control blocks\<close>

definition dma_legacy_addr :: "u32 \<Rightarrow> u32" where
  "dma_legacy_addr phys =
     (if phys AND 0xfc000000 = 0xfc000000 then phys AND NOT (push_bit 28 0x8)
      else phys OR push_bit 28 0xc)"

definition dma4_full_addr :: "u64 \<Rightarrow> u64" where
  "dma4_full_addr phys =
     (if phys AND 0xfffffffffc000000 = 0xfc000000 then 0x400000000 OR (phys AND NOT (push_bit 28 0x8))
      else phys AND 0xffffffffff)"

definition per_segment_m2m :: "dma_channel \<Rightarrow> bool" where
  "per_segment_m2m chan \<longleftrightarrow>
     has (aflags chan) DMA_ATTACH_EVENT_PER_SEGMENT \<and> xfer_type chan = MEMORY_TO_MEMORY"

definition dma4_setcb :: "dma_channel \<Rightarrow> dma4_cb option" where
  "dma4_setcb chan =
     (let p = cb_params chan in
      case (if xfer_unit_size chan = 4 then Some DMA4_SIZE_32
            else if xfer_unit_size chan = 8 then Some DMA4_SIZE_64
            else if xfer_unit_size chan = 16 then Some DMA4_SIZE_128 else None) of
        None \<Rightarrow> None
      | Some width \<Rightarrow>
          let burst = flag_if (xfer_type chan = MEMORY_TO_MEMORY) (DMA4_BURST_LEN 16);
              srci = width OR flag_if (has (cp_info p) SRC_INC) DMA4_INC OR burst;
              desti = width OR flag_if (has (cp_info p) DST_INC) DMA4_INC OR burst;
              ti = DMA4_TI_PERMAP (cp_dreq p) OR DMA4_TI_WAIT_WR_RESP
                   OR (if has (cp_info p) SRC_DREQ then DMA4_TI_S_DREQ OR DMA4_TI_WAIT_RD_RESP
                       else if has (cp_info p) DST_DREQ then DMA4_TI_D_DREQ else 0)
                   OR flag_if (has (cp_info p) INT_EN) DMA4_TI_INTEN
                   OR flag_if (per_segment_m2m chan \<and> chan_idx chan = 11)
                        (DMA4_TI_D_WAITS 1 OR DMA4_TI_S_WAITS 1);
              src = dma4_full_addr (cp_src_paddr p);
              dst = dma4_full_addr (cp_dst_paddr p)
          in Some \<lparr>c4_ti = ti, c4_src = ucast src,
                   c4_srci = srci OR (ucast (drop_bit 32 src) AND 0xff),
                   c4_dest = ucast dst,
                   c4_desti = desti OR (ucast (drop_bit 32 dst) AND 0xff),
                   c4_len = cp_len p,
                   c4_next_cb = (if cp_nextcb p \<noteq> 0 then ucast (drop_bit 5 (dma4_full_addr (cp_nextcb p))) else 0)\<rparr>)"

definition dma_setcb :: "dma_channel \<Rightarrow> dma_cb option" where
  "dma_setcb chan =
     (let p = cb_params chan in
      case (if xfer_unit_size chan = 4 then Some (DMA_TI_SRC_WIDTH_32 OR DMA_TI_DST_WIDTH_32)
            else if xfer_unit_size chan = 16 then Some (DMA_TI_SRC_WIDTH_128 OR DMA_TI_DST_WIDTH_128)
            else None) of
        None \<Rightarrow> None
      | Some width \<Rightarrow>
          let ti = width OR flag_if (has (cp_info p) SRC_INC) DMA_TI_SRC_INC
                   OR flag_if (has (cp_info p) DST_INC) DMA_TI_DST_INC
                   OR flag_if (xfer_type chan = MEMORY_TO_MEMORY) (DMA_TI_BURST 16)
                   OR (DMA_TI_PERMAP (cp_dreq p) OR DMA_TI_WAIT_RESP)
                   OR (if has (cp_info p) SRC_DREQ then DMA_TI_SRC_DREQ
                       else if has (cp_info p) DST_DREQ then DMA_TI_DST_DREQ else 0)
                   OR flag_if (has (cp_info p) INT_EN) DMA_TI_INTEN
                   OR flag_if (per_segment_m2m chan \<and> chan_idx chan = 3) (DMA_TI_WAITS 1)
          in Some \<lparr>cb_ti = ti, cb_source_ad = dma_legacy_addr (ucast (cp_src_paddr p)),
                   cb_dest_ad = dma_legacy_addr (ucast (cp_dst_paddr p)),
                   cb_txfr_len = cp_len p, cb_stride = 0,
                   cb_nextconbk = (if cp_nextcb p \<noteq> 0 then dma_legacy_addr (ucast (cp_nextcb p)) else 0)\<rparr>)"

section \<open>Checking a transfer\<close>

text \<open>\<open>off64_t\<close> is signed; its remainder is zero exactly when the divisor divides it.\<close>

definition check_segment_params :: "dma_ch_info \<Rightarrow> u32 \<Rightarrow> dma_addr \<Rightarrow> bool result" where
  "check_segment_params ci unit_size a =
     (if sint (da_paddr a) > 0xffffffff \<and> \<not> ci_is_dma4 ci then Inr False
      else if unit_size = 0 then Inl Divide_by_zero
      else if da_len a mod unit_size \<noteq> 0 then Inr False
      else if ci_is_dmalite ci \<and> da_len a > MAX_LITE_DMA_LEN then Inr False
      else Inr (\<not> da_len a > MAX_DMA_LEN))"

definition get_xfer_type :: "u32 \<Rightarrow> u32 \<Rightarrow> dma_xfer_types" where
  "get_xfer_type sf df =
     (let xfer_types = [[IO_TO_IO, IO_TO_MEMORY, IO_TO_DEVICE],
                        [MEMORY_TO_IO, MEMORY_TO_MEMORY, MEMORY_TO_DEVICE],
                        [DEVICE_TO_IO, DEVICE_TO_MEMORY, DEVICE_TO_DEVICE]];
          m = DMA_ADDR_FLAG_IO OR DMA_ADDR_FLAG_MEMORY OR DMA_ADDR_FLAG_DEVICE;
          sf = sf AND m; df = df AND m;
          popcount = (\<lambda>w :: u32. length (filter (bit w) [0 ..< 32]));
          src_type = unat (drop_bit 1 sf);
          dst_type = unat (drop_bit 1 df)
      in if popcount sf \<noteq> 1 \<or> popcount df \<noteq> 1 \<or> src_type \<ge> 3 \<or> dst_type \<ge> 3 then UNKNOWN_XFER_TYPE
         else xfer_types ! src_type ! dst_type)"

text \<open>One of the two loops of \<open>check_tinfo_params\<close>; the result is the wrapped sum of the lengths.\<close>

fun check_frags :: "dma_ch_info \<Rightarrow> u32 \<Rightarrow> bool \<Rightarrow> dma_addr list \<Rightarrow> u32 \<Rightarrow> u32 option result" where
  "check_frags ci unit_size fixed [] tot = Inr (Some tot)"
| "check_frags ci unit_size fixed (a # as) tot =
     bind_result (check_segment_params ci unit_size a) (\<lambda>ok.
       if \<not> ok then Inr None
       else if fixed \<and> sint (da_paddr a) mod sint unit_size \<noteq> 0 then Inr None
       else check_frags ci unit_size fixed as (tot + da_len a))"

definition lengths_ok :: "dma_transfer \<Rightarrow> u32 \<Rightarrow> u32 \<Rightarrow> bool" where
  "lengths_ok t src_total dst_total =
     (if has (src_flags t) DMA_ADDR_FLAG_DEVICE then dst_total = xfer_bytes t
      else if has (dst_flags t) DMA_ADDR_FLAG_DEVICE then src_total = xfer_bytes t
      else if src_fragments t = dst_fragments t then src_total = xfer_bytes t \<and> dst_total = xfer_bytes t
      else if src_fragments t = 1 then dst_total = xfer_bytes t
      else if dst_fragments t = 1 then src_total = xfer_bytes t
      else False)"

definition check_tinfo_params :: "dma_channel \<Rightarrow> dma_transfer \<Rightarrow> bool result" where
  "check_tinfo_params chan t =
     (let ty = get_xfer_type (src_flags t) (dst_flags t) in
      if ty = UNKNOWN_XFER_TYPE \<or> ty = DEVICE_TO_DEVICE then Inr False
      else if ti_unit_size t = 0 then Inl Divide_by_zero
      else if xfer_bytes t mod ti_unit_size t \<noteq> 0 then Inr False
      else
        bind_result (check_frags (ch_info chan) (ti_unit_size t)
                       (has (src_flags t) DMA_ADDR_FLAG_NO_INCREMENT) (src_addrs t) 0) (\<lambda>src.
        case src of None \<Rightarrow> Inr False
        | Some src_total \<Rightarrow>
            bind_result (check_frags (ch_info chan) (ti_unit_size t)
                           (has (dst_flags t) DMA_ADDR_FLAG_NO_INCREMENT) (dst_addrs t) 0) (\<lambda>dst.
            case dst of None \<Rightarrow> Inr False
            | Some dst_total \<Rightarrow>
                if \<not> lengths_ok t src_total dst_total then Inr False
                else Inr (\<not> (has (src_flags t OR dst_flags t) DMA_ADDR_FLAG_DEVICE \<and> req_id t \<ge> DMA_MAX_DREQ_NUM)))))"

section \<open>Setting up a transfer\<close>

definition num_sgs :: "dma_transfer \<Rightarrow> nat" where
  "num_sgs t = max (src_fragments t) (dst_fragments t)"

definition frag :: "nat \<Rightarrow> dma_addr list \<Rightarrow> dma_addr result" where
  "frag sgi as = (let i = (if sgi < length as then sgi else 0) in
     if i < length as then Inr (as ! i) else Inl Out_of_bounds)"

text \<open>The parameters of control block \<open>sgi\<close>.\<close>

definition sg_params :: "dma_channel \<Rightarrow> dma_transfer \<Rightarrow> nat \<Rightarrow> dma_cb_params result" where
  "sg_params chan t sgi =
     bind_result (frag sgi (src_addrs t)) (\<lambda>s.
     bind_result (frag sgi (dst_addrs t)) (\<lambda>d.
       let p = cb_params chan;
           len = (if src_fragments t > 1 then da_len s
                  else if dst_fragments t > 1 then da_len d else xfer_bytes t);
           last = (sgi = num_sgs t - 1);
           nextcb = (if \<not> last then da_paddr (cb chan) + (of_nat sgi + 1) * ucast DMA_CB_SIZE
                     else if has (mode_flags t) DMA_MODE_FLAG_REPEAT then da_paddr (cb chan) else 0);
           info = cp_info p AND NOT INT_EN;
           info = info OR flag_if (last \<and> has (aflags chan) DMA_ATTACH_EVENT_ON_COMPLETE) INT_EN;
           info = info OR flag_if (has (aflags chan) DMA_ATTACH_EVENT_PER_SEGMENT) INT_EN
       in Inr (p\<lparr>cp_src_paddr := da_paddr s, cp_dst_paddr := da_paddr d, cp_len := len,
                 cp_nextcb := nextcb, cp_info := info\<rparr>)))"

definition set_block :: "dma_channel \<Rightarrow> ctl_block option" where
  "set_block chan = (if ci_is_dma4 (ch_info chan) then map_option Dma4 (dma4_setcb chan)
                     else map_option Legacy (dma_setcb chan))"

primrec setup_cbs_from :: "nat \<Rightarrow> dma_transfer \<Rightarrow> nat \<Rightarrow> dma_channel \<Rightarrow> (bool \<times> dma_channel) result" where
  "setup_cbs_from 0 t sgi chan = Inr (True, chan)"
| "setup_cbs_from (Suc n) t sgi chan =
     bind_result (sg_params chan t sgi) (\<lambda>p.
       let chan = chan\<lparr>cb_params := p\<rparr> in
       case set_block chan of
         None \<Rightarrow> Inr (False, chan)
       | Some b \<Rightarrow> setup_cbs_from n t (Suc sgi) (chan\<lparr>cb_mem := (cb_mem chan)(sgi := b)\<rparr>))"

definition dma_setup_cbs :: "dma_os \<Rightarrow> dma_channel \<Rightarrow> dma_transfer \<Rightarrow> (unit ret \<times> dma_channel) result" where
  "dma_setup_cbs os chan t =
     (if num_sgs t > unat (num_cbs chan) then Inr (Fail EINVAL, chan)
      else
        let (ok, buf) = (if da_len (cb chan) = 0
                         then dma_alloc_buffer os (Some chan) (num_cbs chan * DMA_CB_SIZE) (cb chan)
                         else (Ok (), cb chan));
            chan = chan\<lparr>cb := buf\<rparr> in
        case ok of
          Fail e \<Rightarrow> Inr (Fail e, chan)
        | Ok _ \<Rightarrow>
            let chan = chan\<lparr>frgs_num := of_nat (num_sgs t), frg_count := of_nat (num_sgs t)\<rparr> in
            bind_result (setup_cbs_from (num_sgs t) t 0 chan) (\<lambda>(ok, chan).
              Inr (if ok then Ok () else Fail EINVAL, chan)))"

definition init_params :: "dma_transfer \<Rightarrow> dma_cb_params" where
  "init_params t =
     (let dev_src = has (src_flags t) DMA_ADDR_FLAG_DEVICE;
          dev_dst = \<not> dev_src \<and> has (dst_flags t) DMA_ADDR_FLAG_DEVICE in
      \<lparr>cp_info = flag_if (\<not> has (src_flags t) DMA_ADDR_FLAG_NO_INCREMENT) SRC_INC
                 OR flag_if (\<not> has (dst_flags t) DMA_ADDR_FLAG_NO_INCREMENT) DST_INC
                 OR flag_if dev_src SRC_DREQ OR flag_if dev_dst DST_DREQ,
       cp_len = 0, cp_dreq = flag_if (dev_src \<or> dev_dst) (req_id t),
       cp_src_paddr = 0, cp_dst_paddr = 0, cp_nextcb = 0\<rparr>)"

definition dma_setup_xfer ::
    "dma_os \<Rightarrow> dma_channel \<Rightarrow> dma_transfer option \<Rightarrow> (unit ret \<times> dma_channel) result" where
  "dma_setup_xfer os chan tinfo =
     (case tinfo of
        None \<Rightarrow> Inr (Fail EINVAL, chan)
      | Some t \<Rightarrow>
          bind_result (check_tinfo_params chan t) (\<lambda>ok.
            if \<not> ok then Inr (Fail EINVAL, chan)
            else if has (status chan) DMACH_BUSY then Inr (Fail EBUSY, chan)
            else dma_setup_cbs os
              (chan\<lparr>cb_params := init_params t, xfer_type := get_xfer_type (src_flags t) (dst_flags t),
                    mflags := mode_flags t, xfer_unit_size := ti_unit_size t\<rparr>) t))"

section \<open>Running a transfer\<close>

definition cs_flags :: "dma_channel \<Rightarrow> u32" where
  "cs_flags chan =
     (if ci_is_dma4 (ch_info chan)
      then (if xfer_type chan = MEMORY_TO_MEMORY then DMA4_CS_FLAGS_MEMCPY else DMA4_CS_FLAGS_DEVICE)
      else (if xfer_type chan = MEMORY_TO_MEMORY then DMA_CS_FLAGS_MEMCPY else DMA_CS_FLAGS_DEVICE))"

definition dma_start :: "dma_channel \<Rightarrow> hw \<Rightarrow> unit ret \<times> dma_channel \<times> hw" where
  "dma_start chan h =
     (let busy = has (status chan) DMACH_BUSY;
          chan = chan\<lparr>status := status chan OR DMACH_BUSY\<rparr> in
      if busy then (Fail EBUSY, chan, h)
      else if ci_is_dma4 (ch_info chan) then
        (Ok (), chan,
         out32 (ch_regs chan + DMA4_CS) (cs_flags chan OR DMA4_CS_ACTIVE)
           (out32 (ch_regs chan + DMA4_CB) (ucast (drop_bit 5 (dma4_full_addr (da_paddr (cb chan))))) h))
      else
        (Ok (), chan,
         out32 (ch_regs chan + DMA_CS) (cs_flags chan OR DMA_CS_ACTIVE)
           (out32 (ch_regs chan + DMA_CONBLK_AD) (dma_legacy_addr (ucast (da_paddr (cb chan)))) h)))"

definition block_len :: "ctl_block \<Rightarrow> u32" where
  "block_len b = (case b of Blank \<Rightarrow> 0 | Legacy c \<Rightarrow> cb_txfr_len c | Dma4 c \<Rightarrow> c4_len c)"

text \<open>The loops \<open>while (next_frg < chan->frgs_num)\<close>, from block \<open>k\<close> on.\<close>

definition sum_blocks :: "dma_channel \<Rightarrow> u32 \<Rightarrow> u32 \<Rightarrow> u32" where
  "sum_blocks chan len_mask k =
     sum_list (map (\<lambda>i. block_len (cb_mem chan i) AND len_mask) [unat k ..< unat (frgs_num chan)])"

definition bytes_left_dma :: "device \<Rightarrow> dma_channel \<Rightarrow> hw \<Rightarrow> u32 \<times> hw" where
  "bytes_left_dma dev chan h =
     (let len_mask = (if ci_is_dmalite (ch_info chan) then 0xFFFF else 0x3FFFFFFF);
          (dbg, h) = in32 dev (ch_regs chan + DMA_DEBUG) h;
          xfer_count = drop_bit 4 (dbg AND DMA_DEBUG_OUTSTANDING_WRITES) in
      if frgs_num chan = 0 then (xfer_count * xfer_unit_size chan, h)
      else
        let (cur_cb, h) = in32 dev (ch_regs chan + DMA_CONBLK_AD) h;
            next_frg = (cur_cb - dma_legacy_addr (ucast (da_paddr (cb chan)))) div DMA_CB_SIZE;
            nxt = (if next_frg \<noteq> 0 then sum_blocks chan len_mask next_frg else 0)
        in (xfer_count * xfer_unit_size chan + nxt, h))"

definition bytes_left_dma4 :: "device \<Rightarrow> dma_channel \<Rightarrow> hw \<Rightarrow> u32 \<times> hw" where
  "bytes_left_dma4 dev chan h =
     (let (dbg, h) = in32 dev (ch_regs chan + DMA4_DEBUG2) h;
          xfer_count = dbg AND DMA4_DEBUG2_OUTSTANDING_WRITES_MSK in
      if frgs_num chan = 0 then (xfer_count * xfer_unit_size chan, h)
      else
        let (r, h) = in32 dev (ch_regs chan + DMA4_CB) h;
            cur_cb = push_bit 5 (ucast r :: u64);
            next_frg = ucast (cur_cb - dma4_full_addr (da_paddr (cb chan))) div DMA_CB_SIZE;
            nxt = (if next_frg \<noteq> 0 then sum_blocks chan 0x3FFFFFFF next_frg else 0)
        in (xfer_count * xfer_unit_size chan + nxt, h))"

definition dma_bytes_left :: "device \<Rightarrow> dma_channel \<Rightarrow> hw \<Rightarrow> u32 \<times> hw" where
  "dma_bytes_left dev chan h =
     (if ci_is_dma4 (ch_info chan) then bytes_left_dma4 dev chan h else bytes_left_dma dev chan h)"

text \<open>The wait loop: true when the bits cleared before \<open>timeout\<close> reads were used up.\<close>

primrec wait_clear :: "nat \<Rightarrow> device \<Rightarrow> u64 \<Rightarrow> u32 \<Rightarrow> hw \<Rightarrow> nat \<times> hw" where
  "wait_clear 0 dev a bits h = (0, snd (in32 dev a h))"
| "wait_clear (Suc timeout) dev a bits h =
     (let (v, h) = in32 dev a h in
      if v AND bits \<noteq> 0 then wait_clear timeout dev a bits h else (Suc timeout, h))"

definition dma_abort :: "device \<Rightarrow> dma_channel \<Rightarrow> hw \<Rightarrow> unit ret \<times> hw" where
  "dma_abort dev chan h =
     (let (ad, h) = in32 dev (ch_regs chan + DMA_CONBLK_AD) h in
      if ad = 0 then (Ok (), h)
      else
        let h = out32 (ch_regs chan + DMA_CS) 0 h;
            (timeout, h) = wait_clear 10000 dev (ch_regs chan + DMA_CS) DMA_CS_WAITING_FOR_WRITES h
        in (if timeout = 0 then Fail EIO else Ok (), out32 (ch_regs chan + DMA_CS) DMA_CS_RESET h))"

definition dma4_abort :: "device \<Rightarrow> dma_channel \<Rightarrow> hw \<Rightarrow> unit ret \<times> hw" where
  "dma4_abort dev chan h =
     (let (ad, h) = in32 dev (ch_regs chan + DMA4_CB) h in
      if ad = 0 then (Ok (), h)
      else
        let h = out32 (ch_regs chan + DMA4_CS) 0 h;
            (timeout, h) = wait_clear 1000 dev (ch_regs chan + DMA4_CS) DMA4_CS_WAITING_FOR_WRITES h
        in (if timeout = 0 then Fail EIO else Ok (), out32 (ch_regs chan + DMA4_DEBUG) DMA4_DEBUG_RESET h))"

definition dma_xfer_abort :: "device \<Rightarrow> dma_channel \<Rightarrow> hw \<Rightarrow> unit ret \<times> dma_channel \<times> hw" where
  "dma_xfer_abort dev chan h =
     (let (ret, h) = (if ci_is_dma4 (ch_info chan) then dma4_abort dev chan h else dma_abort dev chan h)
      in (ret, chan\<lparr>status := status chan AND NOT DMACH_BUSY\<rparr>, h))"

definition xfer_complete :: "device \<Rightarrow> dma_channel \<Rightarrow> hw \<Rightarrow> unit ret \<times> dma_channel \<times> hw" where
  "xfer_complete dev chan h =
     (let prev_frgcount = frg_count chan;
          chan = chan\<lparr>frg_count := frg_count chan - 1\<rparr>;
          d4 = ci_is_dma4 (ch_info chan);
          cs_reg = ch_regs chan + (if d4 then DMA4_CS else DMA_CS);
          (cs, h) = in32 dev cs_reg h;
          error = cs AND (if d4 then DMA4_CS_ERROR else DMA_CS_ERROR);
          h = out32 cs_reg (cs_flags chan OR
                (if d4 then DMA4_CS_INT OR DMA4_CS_END OR DMA4_CS_ACTIVE
                 else DMA_CS_INT OR DMA_CS_END OR DMA_CS_ACTIVE)) h;
          h = (if iid chan \<noteq> - 1 then event (Intr_unmask (ci_irq (ch_info chan)) (iid chan)) h else h)
      in if error \<noteq> 0 then (let (_, chan, h) = dma_xfer_abort dev chan h in (Fail EIO, chan, h))
         else if has (aflags chan) DMA_ATTACH_EVENT_PER_SEGMENT then
           if prev_frgcount = 1 then (let (_, chan, h) = dma_xfer_abort dev chan h in (Ok (), chan, h))
           else (Ok (), chan, h)
         else if \<not> has (mflags chan) DMA_MODE_FLAG_REPEAT then
           (let (_, chan, h) = dma_xfer_abort dev chan h in (Ok (), chan, h))
         else (Ok (), chan, h))"

section \<open>Attaching and releasing a channel\<close>

definition dma_query_channel :: "dma_channel \<Rightarrow> u32 \<times> u32" where
  "dma_query_channel chan = (chan_idx chan, ci_irq (ch_info chan))"

record dma_channel_info_t =
  max_xfer_size :: u32
  xfer_unit_sizes :: u32
  max_src_fragments :: u32
  max_dst_fragments :: u32
  mem_lower_limit :: u64
  mem_upper_limit :: u64

text \<open>
  The test \<open>channel > num_channels\<close> lets \<open>num_channels\<close> itself pass, which reads behind the
  table.  The constant capability word and the fields set to zero are left out.
\<close>

definition dma_channel_info :: "u32 \<Rightarrow> u32 \<Rightarrow> dma_channel_info_t ret result" where
  "dma_channel_info nch channel =
     (if channel > nch then Inr (Fail ECHRNG)
      else if unat channel \<ge> length chs_info then Inl Out_of_bounds
      else
        let ci = chs_info ! unat channel in
        Inr (Ok \<lparr>max_xfer_size = (if ci_is_dmalite ci then MAX_LITE_DMA_LEN else MAX_DMA_LEN),
                 xfer_unit_sizes = (if ci_is_dma4 ci then DMA4_UNIT_SIZE_BITMAP else DMA_UNIT_SIZE_BITMAP),
                 max_src_fragments = DMA_MAX_NUM_CBS, max_dst_fragments = DMA_MAX_NUM_CBS,
                 mem_lower_limit = 0, mem_upper_limit = 0x3fffffff\<rparr>))"

definition zero_channel :: dma_channel where
  "zero_channel =
     \<lparr>chan_idx = 0, status = 0, ch_regs = 0, xfer_unit_size = 0, iid = 0, typed_mem_fd = 0,
      range_min = 0, range_max = 0, num_cbs = 0, frgs_num = 0, frg_count = 0, debug = 0, mflags = 0, aflags = 0,
      cb = \<lparr>da_vaddr = 0, da_paddr = 0, da_len = 0\<rparr>,
      cb_params = \<lparr>cp_info = 0, cp_len = 0, cp_dreq = 0, cp_src_paddr = 0, cp_dst_paddr = 0, cp_nextcb = 0\<rparr>,
      xfer_type = IO_TO_IO, cb_mem = (\<lambda>_. Blank)\<rparr>"

definition close_typed_mem :: "dma_channel \<Rightarrow> hw \<Rightarrow> hw" where
  "close_typed_mem chan h = (if typed_mem_fd chan \<noteq> - 1 then event (Close_fd (typed_mem_fd chan)) h else h)"

text \<open>Writing a bit of the shared enable register, under the inter-process lock.\<close>

definition enable_channel :: "device \<Rightarrow> u64 \<Rightarrow> u32 \<Rightarrow> hw \<Rightarrow> hw" where
  "enable_channel dev vbase idx h =
     (let (reg, h) = in32 dev (vbase + DMA_ENABLE) h
      in out32 (vbase + DMA_ENABLE) (reg OR push_bit (unat idx) 1) h)"

definition disable_channel :: "device \<Rightarrow> u64 \<Rightarrow> u32 \<Rightarrow> hw \<Rightarrow> hw" where
  "disable_channel dev vbase idx h =
     (let (reg, h) = in32 dev (vbase + DMA_ENABLE) h
      in out32 (vbase + DMA_ENABLE) (reg AND NOT (push_bit (unat idx) 1)) h)"

definition pause_channel :: "dma_channel \<Rightarrow> hw \<Rightarrow> hw" where
  "pause_channel chan h = out32 (ch_regs chan + (if ci_is_dma4 (ch_info chan) then DMA4_CS else DMA_CS)) 0 h"

text \<open>
  \<open>options\<close> is \<open>None\<close> for a NULL pointer; \<open>with_event\<close> says that an event was passed.  The
  channel number the caller gets back is \<open>chan_idx\<close> of the result.
\<close>

definition dma_channel_attach ::
    "dma_os \<Rightarrow> device \<Rightarrow> u64 \<Rightarrow> u32 \<Rightarrow> dma_opt list option \<Rightarrow> bool \<Rightarrow> u32 option \<Rightarrow> u64 \<Rightarrow> u32 \<Rightarrow> hw
      \<Rightarrow> dma_channel ret \<times> hw" where
  "dma_channel_attach os dev vbase nch options with_event channel priority flags h =
     (if has flags DMA_ATTACH_EVENT_ON_COMPLETE \<and> has flags DMA_ATTACH_EVENT_PER_SEGMENT then (Fail EINVAL, h)
      else if options \<noteq> None \<and> \<not> os_strdup_ok os then (Fail Errno_of_call, h)
      else if \<not> os_calloc_ok os then (Fail Errno_of_call, h)
      else
        let (err, chan) = parse_options os (zero_channel\<lparr>range_min := - 1, range_max := - 1\<rparr>)
                            (case options of None \<Rightarrow> [] | Some opts \<Rightarrow> opts) in
        case err of
          Some e \<Rightarrow> (Fail e, close_typed_mem chan h)
        | None \<Rightarrow>
            (case rsrcdb_attach_channel os nch chan channel priority flags of
               Fail e \<Rightarrow> (Fail e, close_typed_mem chan h)
             | Ok start \<Rightarrow>
                 let idx = ucast start;
                     ci = chs_info ! unat idx;
                     chan = chan\<lparr>chan_idx := idx, ch_regs := vbase + ucast (ci_offset ci)\<rparr> in
                 if \<not> os_lock_ok os then (Fail Errno_of_call, close_typed_mem chan h)
                 else
                   let h = pause_channel chan (enable_channel dev vbase idx h);
                       want = has flags (DMA_ATTACH_EVENT_ON_COMPLETE OR DMA_ATTACH_EVENT_PER_SEGMENT) \<and> with_event;
                       chan = chan\<lparr>iid := (if want then os_intr_attach os (ci_irq ci) else - 1)\<rparr> in
                   if want \<and> iid chan = - 1 then
                     (Fail Errno_of_call, close_typed_mem chan (rsrcdb_detach_resources chan h))
                   else (Ok (chan\<lparr>aflags := flags\<rparr>), h)))"

definition dma_channel_release :: "device \<Rightarrow> u64 \<Rightarrow> dma_channel \<Rightarrow> hw \<Rightarrow> hw" where
  "dma_channel_release dev vbase chan h =
     (let h = disable_channel dev vbase (chan_idx chan) (pause_channel chan h);
          h = (if da_len (cb chan) > 0 then snd (dma_free_buffer (cb chan) h) else h);
          h = (if iid chan \<noteq> - 1 then event (Intr_detach (iid chan)) h else h);
          h = rsrcdb_detach_resources chan h
      in close_typed_mem chan h)"

section \<open>Library initialisation\<close>

text \<open>
  Per-process state: the number of users and whether the shared memory is mapped
  (\<open>shmem_ptr\<close> is not NULL).  \<open>process_cnt\<close> lives in the shared memory, other processes
  count there too.
\<close>

record dma_proc =
  n_users_in_process :: int
  shmem_mapped :: bool
  process_cnt :: u32
  regs_mapped :: bool

record init_os =
  slog_ok :: bool
  sync_ok :: bool
  map_ok :: bool
  sync_lock_ok :: bool
  resources_ok :: bool

definition sync_init :: "init_os \<Rightarrow> dma_proc \<Rightarrow> bool \<times> dma_proc" where
  "sync_init os p = (if shmem_mapped p then (True, p) else (sync_ok os, p\<lparr>shmem_mapped := sync_ok os\<rparr>))"

definition sync_dinit :: "dma_proc \<Rightarrow> dma_proc" where
  "sync_dinit p = p\<lparr>shmem_mapped := False\<rparr>"

definition cleanup_resources :: "dma_proc \<Rightarrow> dma_proc result" where
  "cleanup_resources p =
     (if \<not> shmem_mapped p then Inl Null_dereference
      else Inr (sync_dinit (p\<lparr>process_cnt := process_cnt p - 1, regs_mapped := False\<rparr>)))"

definition drop_user :: "dma_proc \<Rightarrow> dma_proc result" where
  "drop_user p =
     (let p = p\<lparr>n_users_in_process := n_users_in_process p - 1\<rparr>
      in if n_users_in_process p = 0 then cleanup_resources p else Inr p)"

definition dma_init :: "init_os \<Rightarrow> dma_proc \<Rightarrow> (bool \<times> bool \<times> dma_proc) result" where
  \<comment> \<open>The result says whether the call succeeded and whether it disabled all channels.\<close>
  "dma_init os p =
     (let p = p\<lparr>n_users_in_process := n_users_in_process p + 1\<rparr>;
          fail = (\<lambda>p. bind_result (drop_user p) (\<lambda>p. Inr (False, False, p))) in
      if n_users_in_process p \<noteq> 1 then Inr (True, False, p)
      else if \<not> slog_ok os then fail p
      else
        let (ok, p) = sync_init os p in
        if \<not> ok then fail p
        else if \<not> map_ok os then fail (sync_dinit p)
        else if \<not> sync_lock_ok os then fail (sync_dinit (p\<lparr>regs_mapped := True\<rparr>))
        else
          let p = p\<lparr>regs_mapped := True, process_cnt := process_cnt p + 1\<rparr>;
              first = (process_cnt p = 1) in
          if \<not> resources_ok os then bind_result (drop_user (sync_dinit (p\<lparr>regs_mapped := False\<rparr>))) (\<lambda>p. Inr (False, first, p))
          else Inr (True, first, p))"

definition dma_fini :: "dma_proc \<Rightarrow> dma_proc result" where
  "dma_fini p = drop_user p"

end
