(* ===== verification/Dma_Chain.thy ===== *)
theory Dma_Chain
  imports Dma
begin

text \<open>
  What the DMA library guarantees: the control blocks of a transfer form the chain the engine
  has to walk, carry the lengths and addresses of the scatter-gather list and interrupt where
  the client asked for it; a channel is started only when idle and touches only its own
  registers; the users of the library are counted.
\<close>

section \<open>Bus addresses\<close>

text \<open>Buffers come from memory below 1 GiB, where both conversions are injective.\<close>

lemma bit_below: "unat x < 2 ^ k \<Longrightarrow> k \<le> n \<Longrightarrow> \<not> bit (x :: 'a::len word) n"
proof -
  assume "unat x < 2 ^ k" "k \<le> n"
  then have "take_bit k x = x" by (simp add: word_eq_nat unsigned_take_bit_eq take_bit_nat_eq_self)
  then show ?thesis using \<open>k \<le> n\<close> by (metis bit_take_bit_iff not_le)
qed

lemma legacy_addr_low:
  assumes "unat x < 2 ^ 30"
  shows "dma_legacy_addr x = x + 0xC0000000"
proof -
  have nb: "\<not> bit x n" if "30 \<le> n" for n using bit_below [OF assms that] .
  have "x AND 0xfc000000 \<noteq> 0xfc000000"
  proof
    assume "x AND 0xfc000000 = 0xfc000000"
    then have "bit (x AND 0xfc000000) 31" by simp
    then show False using nb [of 31] by (simp only: bit_and_iff) simp
  qed
  moreover have "x OR push_bit 30 3 = x + push_bit 30 3"
  proof (rule disjunctive_add [symmetric])
    show "\<not> bit x n \<or> \<not> bit (push_bit 30 (3 :: u32)) n" for n
      using nb [of n] by (simp only: bit_push_bit_iff) auto
  qed
  ultimately show ?thesis by (simp add: dma_legacy_addr_def)
qed

lemma full_addr_low:
  assumes "unat x < 2 ^ 30"
  shows "dma4_full_addr x = x"
proof -
  have nb: "\<not> bit x n" if "30 \<le> n" for n using bit_below [OF assms that] .
  have "x AND 0xfffffffffc000000 \<noteq> 0xfc000000"
  proof
    assume "x AND 0xfffffffffc000000 = 0xfc000000"
    then have "bit (x AND 0xfffffffffc000000) 31" by simp
    then show False using nb [of 31] by (simp only: bit_and_iff) simp
  qed
  moreover have "x AND mask 40 = x"
  proof (rule bit_word_eqI)
    show "bit (x AND mask 40) n = bit x n" for n
      using nb [of n] by (cases "n < 40") (auto simp: bit_simps)
  qed
  moreover have "(0xffffffffff :: u64) = mask 40" by (simp add: mask_eq_exp_minus_1)
  ultimately show ?thesis by (simp add: dma4_full_addr_def)
qed

section \<open>Interface: an engine that walks control blocks\<close>

text \<open>
  What the chain relies on, for both kinds of engine: the bus address of a block is not
  zero, which would end the chain, and the block can be told from it.
\<close>

primrec visit :: "nat \<Rightarrow> (u32 \<Rightarrow> u32) \<Rightarrow> (nat \<Rightarrow> u32) \<Rightarrow> u32 \<Rightarrow> nat list" where
  "visit 0 idx nxt ad = []"
| "visit (Suc k) idx nxt ad = (if ad = 0 then [] else unat (idx ad) # visit k idx nxt (nxt (unat (idx ad))))"

definition block_paddr :: "u64 \<Rightarrow> nat \<Rightarrow> u64" where
  "block_paddr base i = base + of_nat i * ucast DMA_CB_SIZE"

locale dma_engine =
  fixes bus :: "u64 \<Rightarrow> u32" and idx :: "u64 \<Rightarrow> u32 \<Rightarrow> u32" and ok :: "u64 \<Rightarrow> nat \<Rightarrow> bool"
  assumes bus_nonzero: "ok base n \<Longrightarrow> i < n \<Longrightarrow> bus (block_paddr base i) \<noteq> 0"
    and idx_bus: "ok base n \<Longrightarrow> i < n \<Longrightarrow> unat (idx base (bus (block_paddr base i))) = i"
begin

definition linked :: "u64 \<Rightarrow> nat \<Rightarrow> (nat \<Rightarrow> u32) \<Rightarrow> bool" where
  "linked base n nxt \<longleftrightarrow> (\<forall>i. Suc i < n \<longrightarrow> nxt i = bus (block_paddr base (Suc i)))"

lemma visit_from:
  assumes "ok base n" and "linked base n nxt" and "i < n" and "n - i \<le> k"
  shows "visit k (idx base) nxt (bus (block_paddr base i))
    = [i ..< n] @ visit (k - (n - i)) (idx base) nxt (nxt (n - 1))"
  using assms(3,4)
proof (induction k arbitrary: i)
  case (Suc k)
  have step: "visit (Suc k) (idx base) nxt (bus (block_paddr base i)) = i # visit k (idx base) nxt (nxt i)"
    using assms(1) Suc.prems(1) by (simp add: bus_nonzero idx_bus)
  show ?case
  proof (cases "Suc i < n")
    case True
    then have "nxt i = bus (block_paddr base (Suc i))" using assms(2) by (simp add: linked_def)
    then show ?thesis using step Suc.IH [OF True] Suc.prems True by (simp add: upt_conv_Cons)
  next
    case False
    then have "n = Suc i" using Suc.prems(1) by simp
    then show ?thesis using step by simp
  qed
qed simp

lemma visit_once:
  "ok base n \<Longrightarrow> linked base n nxt \<Longrightarrow> 0 < n \<Longrightarrow> n \<le> k \<Longrightarrow> nxt (n - 1) = 0
   \<Longrightarrow> visit k (idx base) nxt (bus (block_paddr base 0)) = [0 ..< n]"
  using visit_from [of base n nxt 0 k] by (cases "k - n") auto

lemma visit_cyclic:
  "ok base n \<Longrightarrow> linked base n nxt \<Longrightarrow> 0 < n \<Longrightarrow> nxt (n - 1) = bus (block_paddr base 0)
   \<Longrightarrow> visit (m * n) (idx base) nxt (bus (block_paddr base 0)) = concat (replicate m [0 ..< n])"
proof (induction m)
  case (Suc m)
  then show ?case using visit_from [of base n nxt 0 "n + m * n"] by simp
qed simp

end

definition dma4_bus :: "u64 \<Rightarrow> u32" where "dma4_bus a = ucast (drop_bit 5 (dma4_full_addr a))"
definition legacy_bus :: "u64 \<Rightarrow> u32" where "legacy_bus a = dma_legacy_addr (ucast a)"

text \<open>The block the engine is at, as \<open>bytes_left_dma\<close> and \<open>bytes_left_dma4\<close> compute it.\<close>

definition legacy_idx :: "u64 \<Rightarrow> u32 \<Rightarrow> u32" where
  "legacy_idx base ad = (ad - dma_legacy_addr (ucast base)) div DMA_CB_SIZE"
definition dma4_idx :: "u64 \<Rightarrow> u32 \<Rightarrow> u32" where
  "dma4_idx base ad = ucast (push_bit 5 (ucast ad) - dma4_full_addr base) div DMA_CB_SIZE"

definition cb_area :: "u64 \<Rightarrow> nat \<Rightarrow> bool" where
  "cb_area base n \<longleftrightarrow> 0 < unat base \<and> 32 dvd unat base \<and> unat base + 32 * n \<le> 2 ^ 30"

lemma block_paddr_nat:
  assumes "cb_area base n" and "i < n"
  shows "unat (block_paddr base i) = unat base + 32 * i" and "unat (block_paddr base i) < 2 ^ 30"
proof -
  have "32 * i < 2 ^ 30" using assms by (simp add: cb_area_def)
  then have m: "unat (of_nat i * ucast DMA_CB_SIZE :: u64) = 32 * i"
    by (simp add: DMA_CB_SIZE_def unat_word_ariths unat_of_nat)
  show e: "unat (block_paddr base i) = unat base + 32 * i"
    using assms by (simp add: block_paddr_def unat_add_noov m cb_area_def)
  show "unat (block_paddr base i) < 2 ^ 30" unfolding e using assms by (simp add: cb_area_def)
qed

lemma unat_ucast_small: "unat x < 2 ^ 30 \<Longrightarrow> unat (ucast (x :: u64) :: u32) = unat x"
  by (simp add: unsigned_ucast_eq take_bit_nat_eq_self)

lemma legacy_bus_nat:
  assumes "unat x < 2 ^ 30"
  shows "unat (legacy_bus x) = unat x + 0xC0000000"
proof -
  have l: "unat (ucast x :: u32) < 2 ^ 30" using assms by (simp add: unat_ucast_small)
  show ?thesis
    using assms unat_ucast_small [OF assms] by (simp add: legacy_bus_def legacy_addr_low [OF l] unat_word_ariths)
qed

interpretation legacy: dma_engine legacy_bus legacy_idx cb_area
proof unfold_locales
  fix base n i
  assume a: "cb_area base n" "i < n"
  note p = block_paddr_nat [OF a]
  have b: "unat base < 2 ^ 30" using a by (simp add: cb_area_def)
  show "legacy_bus (block_paddr base i) \<noteq> 0"
    using legacy_bus_nat [OF p(2)] by (auto simp: word_eq_nat)
  have "unat (legacy_bus (block_paddr base i) - legacy_bus base) = 32 * i"
    using legacy_bus_nat [OF p(2)] legacy_bus_nat [OF b] p(1) by (simp add: unat_sub word_le_nat_alt)
  then show "unat (legacy_idx base (legacy_bus (block_paddr base i))) = i"
    by (simp add: legacy_idx_def legacy_bus_def [symmetric] DMA_CB_SIZE_def unat_div)
qed

interpretation dma4: dma_engine dma4_bus dma4_idx cb_area
proof unfold_locales
  fix base n i
  assume a: "cb_area base n" "i < n"
  note p = block_paddr_nat [OF a]
  have b: "unat base < 2 ^ 30" and d: "32 dvd unat base" "0 < unat base" using a by (auto simp: cb_area_def)
  define q where "q = unat base div 32 + i"
  have u: "unat (block_paddr base i) = 32 * q" using p(1) d by (simp add: q_def)
  have bus: "unat (dma4_bus (block_paddr base i)) = q"
    using p(2) u
    by (simp add: dma4_bus_def full_addr_low [OF p(2)] unsigned_ucast_eq drop_bit_eq_div unat_div take_bit_nat_eq_self)
  then show "dma4_bus (block_paddr base i) \<noteq> 0" using d by (auto simp: q_def word_eq_nat)
  have "push_bit 5 (ucast (dma4_bus (block_paddr base i)) :: u64) = block_paddr base i"
    using bus u p(2) by (simp add: word_eq_nat push_bit_eq_mult unat_word_ariths unsigned_ucast_eq take_bit_nat_eq_self)
  moreover have "unat (block_paddr base i - base) = 32 * i" using p(1) by (simp add: unat_sub_le)
  then have "unat (ucast (block_paddr base i - base) :: u32) = 32 * i"
    using p(1,2) by (simp add: unsigned_ucast_eq take_bit_nat_eq_self)
  ultimately show "unat (dma4_idx base (dma4_bus (block_paddr base i))) = i"
    by (simp add: dma4_idx_def full_addr_low [OF b] DMA_CB_SIZE_def unat_div)
qed

section \<open>The control blocks of a transfer\<close>

lemma int_en_clear: "((x AND NOT INT_EN) OR flag_if b INT_EN OR flag_if c INT_EN) AND NOT INT_EN = x AND NOT INT_EN"
proof (rule bit_word_eqI)
  show "bit (((x AND NOT INT_EN) OR flag_if b INT_EN OR flag_if c INT_EN) AND NOT INT_EN) n = bit (x AND NOT INT_EN) n" for n
    by (auto simp: flag_if_def bit_simps)
qed

text \<open>The parameters of a block do not depend on the blocks set up before it.\<close>

lemma sg_params_stable:
  assumes "sg_params chan t j = Inr p"
  shows "sg_params (chan\<lparr>cb_params := p, cb_mem := m\<rparr>) t k = sg_params chan t k"
proof -
  from assms have "cp_dreq p = cp_dreq (cb_params chan)" "cp_info p AND NOT INT_EN = cp_info (cb_params chan) AND NOT INT_EN"
    by (auto simp: sg_params_def Let_def or.assoc int_en_clear [unfolded or.assoc])
  then show ?thesis
    by (cases p; cases "cb_params chan") (simp add: sg_params_def Let_def)
qed

lemma set_block_mem: "set_block (chan\<lparr>cb_mem := m, cb_params := p\<rparr>) = set_block (chan\<lparr>cb_params := p\<rparr>)"
  by (simp add: set_block_def ch_info_def dma4_setcb_def dma_setcb_def per_segment_m2m_def)

definition block_at :: "dma_channel \<Rightarrow> dma_transfer \<Rightarrow> nat \<Rightarrow> ctl_block \<Rightarrow> bool" where
  "block_at chan t k b \<longleftrightarrow> (\<exists>p. sg_params chan t k = Inr p \<and> set_block (chan\<lparr>cb_params := p\<rparr>) = Some b)"

lemma setup_cbs_from_Suc:
  assumes "setup_cbs_from (Suc n) t i chan = Inr (True, chan')"
  obtains p b where "sg_params chan t i = Inr p" and "set_block (chan\<lparr>cb_params := p\<rparr>) = Some b"
    and "setup_cbs_from n t (Suc i) (chan\<lparr>cb_params := p, cb_mem := (cb_mem chan)(i := b)\<rparr>) = Inr (True, chan')"
proof -
  from assms obtain p where p: "sg_params chan t i = Inr p" by (auto simp del: setup_cbs_from.simps simp: setup_cbs_from.simps(2))
  with assms obtain b where b: "set_block (chan\<lparr>cb_params := p\<rparr>) = Some b"
    by (cases "set_block (chan\<lparr>cb_params := p\<rparr>)") simp_all
  from assms p b that show thesis by (simp add: Let_def)
qed

lemma setup_cbs_from_spec:
  assumes "setup_cbs_from n t i chan = Inr (True, chan')"
  shows "(\<forall>k. i \<le> k \<and> k < i + n \<longrightarrow> block_at chan t k (cb_mem chan' k)) \<and> (\<forall>k < i. cb_mem chan' k = cb_mem chan k)
    \<and> (\<exists>p m. chan' = chan\<lparr>cb_params := p, cb_mem := m\<rparr>)"
  using assms
proof (induction n arbitrary: i chan)
  case 0
  then have eq: "chan' = chan" by simp
  have "\<exists>p m. chan = chan\<lparr>cb_params := p, cb_mem := m\<rparr>"
    by (intro exI [of _ "cb_params chan"] exI [of _ "cb_mem chan"]) simp
  moreover have "\<forall>k. i \<le> k \<and> k < i + 0 \<longrightarrow> block_at chan t k (cb_mem chan k)" by auto
  ultimately show ?case unfolding eq by simp
next
  case (Suc n)
  from Suc.prems obtain p b where p: "sg_params chan t i = Inr p" and b: "set_block (chan\<lparr>cb_params := p\<rparr>) = Some b"
    and rest: "setup_cbs_from n t (Suc i) (chan\<lparr>cb_params := p, cb_mem := (cb_mem chan)(i := b)\<rparr>) = Inr (True, chan')"
    by (rule setup_cbs_from_Suc)
  define c1 where "c1 = chan\<lparr>cb_params := p, cb_mem := (cb_mem chan)(i := b)\<rparr>"
  note IH = Suc.IH [OF rest, folded c1_def]
  have same: "block_at c1 t k c = block_at chan t k c" for k c
    by (simp add: c1_def block_at_def sg_params_stable [OF p] set_block_mem)
  have mem: "cb_mem c1 = (cb_mem chan)(i := b)" by (simp add: c1_def)
  have "cb_mem chan' i = b" using IH mem by (metis fun_upd_same lessI)
  then have at_i: "block_at chan t i (cb_mem chan' i)" using p b by (auto simp: block_at_def)
  show ?case
  proof (intro conjI allI impI)
    show "block_at chan t k (cb_mem chan' k)" if "i \<le> k \<and> k < i + Suc n" for k
      using that IH at_i same by (cases "k = i") auto
    show "cb_mem chan' k = cb_mem chan k" if "k < i" for k
      using that IH mem by (metis fun_upd_other less_SucI nat_neq_iff)
    from IH obtain p' m where "chan' = c1\<lparr>cb_params := p', cb_mem := m\<rparr>" by blast
    then have "chan' = chan\<lparr>cb_params := p', cb_mem := m\<rparr>" by (simp add: c1_def)
    then show "\<exists>p m. chan' = chan\<lparr>cb_params := p, cb_mem := m\<rparr>" by (intro exI)
  qed
qed

text \<open>What a client can read off a control block.\<close>

definition block_next :: "ctl_block \<Rightarrow> u32" where
  "block_next b = (case b of Blank \<Rightarrow> 0 | Legacy c \<Rightarrow> cb_nextconbk c | Dma4 c \<Rightarrow> c4_next_cb c)"

definition block_int :: "ctl_block \<Rightarrow> bool" where
  "block_int b = (case b of Blank \<Rightarrow> False | Legacy c \<Rightarrow> bit (cb_ti c) 0 | Dma4 c \<Rightarrow> bit (c4_ti c) 0)"

definition chan_bus :: "dma_channel \<Rightarrow> u64 \<Rightarrow> u32" where
  "chan_bus chan = (if ci_is_dma4 (ch_info chan) then dma4_bus else legacy_bus)"

definition chan_idx_of :: "dma_channel \<Rightarrow> u64 \<Rightarrow> u32 \<Rightarrow> u32" where
  "chan_idx_of chan = (if ci_is_dma4 (ch_info chan) then dma4_idx else legacy_idx)"

lemma set_block_fields:
  assumes "set_block chan = Some b"
  shows "block_next b = (if cp_nextcb (cb_params chan) \<noteq> 0 then chan_bus chan (cp_nextcb (cb_params chan)) else 0)"
    and "block_len b = cp_len (cb_params chan)"
  using assms
  by (auto simp: set_block_def dma4_setcb_def dma_setcb_def block_next_def block_len_def chan_bus_def
      dma4_bus_def legacy_bus_def Let_def split: if_splits)

lemma block_at_fields:
  assumes "block_at chan t k b" and "k < num_sgs t"
  defines "base \<equiv> da_paddr (cb chan)"
  defines "nx \<equiv> (if Suc k < num_sgs t then block_paddr base (Suc k)
                 else if has (mode_flags t) DMA_MODE_FLAG_REPEAT then block_paddr base 0 else 0)"
  shows "block_next b = (if nx \<noteq> 0 then chan_bus chan nx else 0)"
    and "\<exists>s d. frag k (src_addrs t) = Inr s \<and> frag k (dst_addrs t) = Inr d \<and>
           block_len b = (if src_fragments t > 1 then da_len s else if dst_fragments t > 1 then da_len d else xfer_bytes t)"
proof -
  from assms(1) obtain p where p: "sg_params chan t k = Inr p" and b: "set_block (chan\<lparr>cb_params := p\<rparr>) = Some b"
    by (auto simp: block_at_def)
  have last: "(k = num_sgs t - Suc 0) = (\<not> Suc k < num_sgs t)" using assms(2) by auto
  have "cp_nextcb p = nx"
    using p by (auto simp add: sg_params_def Let_def last nx_def block_paddr_def base_def add.commute split: if_splits)
  then show "block_next b = (if nx \<noteq> 0 then chan_bus chan nx else 0)"
    using set_block_fields(1) [OF b] by (simp add: chan_bus_def ch_info_def)
  show "\<exists>s d. frag k (src_addrs t) = Inr s \<and> frag k (dst_addrs t) = Inr d \<and>
      block_len b = (if src_fragments t > 1 then da_len s else if dst_fragments t > 1 then da_len d else xfer_bytes t)"
    using p set_block_fields(2) [OF b] by (auto simp: sg_params_def Let_def)
qed

text \<open>A successful set-up, taken apart.\<close>

lemma dma_setup_cbs_ok:
  assumes "dma_setup_cbs os c0 t = Inr (Ok (), chan')"
  obtains buf where "num_sgs t \<le> unat (num_cbs c0)"
    and "setup_cbs_from (num_sgs t) t 0 (c0\<lparr>cb := buf, frgs_num := of_nat (num_sgs t), frg_count := of_nat (num_sgs t)\<rparr>)
       = Inr (True, chan')"
proof -
  define al where "al = (if da_len (cb c0) = 0 then dma_alloc_buffer os (Some c0) (num_cbs c0 * DMA_CB_SIZE) (cb c0)
      else (Ok (), cb c0))"
  obtain r buf where al: "al = (r, buf)" by (rule prod.exhaust)
  have le: "num_sgs t \<le> unat (num_cbs c0)" using assms by (simp add: dma_setup_cbs_def split: if_splits)
  define c where "c = c0\<lparr>cb := buf, frgs_num := of_nat (num_sgs t), frg_count := of_nat (num_sgs t)\<rparr>"
  have run: "(case r of Fail e \<Rightarrow> Inr (Fail e, c0\<lparr>cb := buf\<rparr>)
      | Ok _ \<Rightarrow> bind_result (setup_cbs_from (num_sgs t) t 0 c) (\<lambda>(ok, chan). Inr (if ok then Ok () else Fail EINVAL, chan)))
    = Inr (Ok (), chan')"
    using assms le unfolding dma_setup_cbs_def al_def [symmetric] al by (cases r) (simp_all add: Let_def c_def)
  have "setup_cbs_from (num_sgs t) t 0 c = Inr (True, chan')"
    using run by (cases r) (auto split: if_splits)
  then show thesis using that le unfolding c_def by blast
qed

lemma dma_setup_xfer_cbs:
  assumes "dma_setup_xfer os chan (Some t) = Inr (Ok (), chan')"
  shows "check_tinfo_params chan t = Inr True"
    and "\<not> has (status chan) DMACH_BUSY"
    and "dma_setup_cbs os (chan\<lparr>cb_params := init_params t, xfer_type := get_xfer_type (src_flags t) (dst_flags t),
                    mflags := mode_flags t, xfer_unit_size := ti_unit_size t\<rparr>) t = Inr (Ok (), chan')"
proof -
  define r where "r = dma_setup_cbs os (chan\<lparr>cb_params := init_params t, xfer_type := get_xfer_type (src_flags t) (dst_flags t),
                    mflags := mode_flags t, xfer_unit_size := ti_unit_size t\<rparr>) t"
  define ck where "ck = check_tinfo_params chan t"
  have a: "bind_result ck (\<lambda>ok. if \<not> ok then Inr (Fail EINVAL, chan)
            else if has (status chan) DMACH_BUSY then Inr (Fail EBUSY, chan) else r) = Inr (Ok (), chan')"
    using assms unfolding dma_setup_xfer_def r_def ck_def option.case .
  have "ck = Inr True \<and> \<not> has (status chan) DMACH_BUSY \<and> r = Inr (Ok (), chan')"
    using a by (cases ck) (simp_all split: if_splits)
  then show "check_tinfo_params chan t = Inr True" "\<not> has (status chan) DMACH_BUSY"
    "dma_setup_cbs os (chan\<lparr>cb_params := init_params t, xfer_type := get_xfer_type (src_flags t) (dst_flags t),
                    mflags := mode_flags t, xfer_unit_size := ti_unit_size t\<rparr>) t = Inr (Ok (), chan')"
    unfolding ck_def r_def by blast+
qed

lemma dma_setup_xfer_ok:
  assumes "dma_setup_xfer os chan (Some t) = Inr (Ok (), chan')"
  obtains c p m where "check_tinfo_params chan t = Inr True" and "\<not> has (status chan) DMACH_BUSY"
    and "chan_idx c = chan_idx chan" and "aflags c = aflags chan" and "status c = status chan"
    and "ch_regs c = ch_regs chan" and "chan' = c\<lparr>cb_params := p, cb_mem := m\<rparr>"
    and "\<And>k. k < num_sgs t \<Longrightarrow> block_at c t k (m k)"
proof -
  define c0 where "c0 = chan\<lparr>cb_params := init_params t, xfer_type := get_xfer_type (src_flags t) (dst_flags t),
                    mflags := mode_flags t, xfer_unit_size := ti_unit_size t\<rparr>"
  note s = dma_setup_xfer_cbs [OF assms, folded c0_def]
  obtain buf where
    loop: "setup_cbs_from (num_sgs t) t 0 (c0\<lparr>cb := buf, frgs_num := of_nat (num_sgs t), frg_count := of_nat (num_sgs t)\<rparr>)
       = Inr (True, chan')" by (rule dma_setup_cbs_ok [OF s(3)])
  define c where "c = c0\<lparr>cb := buf, frgs_num := of_nat (num_sgs t), frg_count := of_nat (num_sgs t)\<rparr>"
  note sp = setup_cbs_from_spec [OF loop, folded c_def]
  from sp [THEN conjunct2, THEN conjunct2] obtain p m where chan': "chan' = c\<lparr>cb_params := p, cb_mem := m\<rparr>"
    by (elim exE)
  have m: "cb_mem chan' = m" by (simp add: chan')
  have b: "block_at c t k (m k)" if "k < num_sgs t" for k
    using sp [THEN conjunct1, rule_format, of k] that unfolding m by simp
  have f: "chan_idx c = chan_idx chan" "aflags c = aflags chan" "status c = status chan" "ch_regs c = ch_regs chan"
    by (simp_all add: c_def c0_def)
  show thesis by (rule that [OF s(1,2) f chan' b])
qed

section \<open>The chain of a transfer\<close>

lemma block_paddr_0 [simp]: "block_paddr base 0 = base"
  by (simp add: block_paddr_def)

lemma block_paddr_nonzero: "cb_area base n \<Longrightarrow> i < n \<Longrightarrow> block_paddr base i \<noteq> 0"
  using block_paddr_nat(1) [of base n i] by (auto simp: cb_area_def)

lemma chan_visit_once:
  assumes "cb_area base n" and "0 < n" and "n \<le> k" and "nxt (n - 1) = 0"
    and "\<And>i. Suc i < n \<Longrightarrow> nxt i = chan_bus chan (block_paddr base (Suc i))"
  shows "visit k (chan_idx_of chan base) nxt (chan_bus chan base) = [0 ..< n]"
proof (cases "ci_is_dma4 (ch_info chan)")
  case True
  then have "dma4.linked base n nxt" using assms(5) by (simp add: dma4.linked_def chan_bus_def)
  from dma4.visit_once [OF assms(1) this assms(2,3,4)] True show ?thesis by (simp add: chan_bus_def chan_idx_of_def)
next
  case False
  then have "legacy.linked base n nxt" using assms(5) by (simp add: legacy.linked_def chan_bus_def)
  from legacy.visit_once [OF assms(1) this assms(2,3,4)] False show ?thesis by (simp add: chan_bus_def chan_idx_of_def)
qed

lemma chan_visit_cyclic:
  assumes "cb_area base n" and "0 < n" and "nxt (n - 1) = chan_bus chan base"
    and "\<And>i. Suc i < n \<Longrightarrow> nxt i = chan_bus chan (block_paddr base (Suc i))"
  shows "visit (m * n) (chan_idx_of chan base) nxt (chan_bus chan base) = concat (replicate m [0 ..< n])"
proof (cases "ci_is_dma4 (ch_info chan)")
  case True
  then have "dma4.linked base n nxt" using assms(4) by (simp add: dma4.linked_def chan_bus_def)
  from dma4.visit_cyclic [OF assms(1) this assms(2), of m] True assms(3)
  show ?thesis by (simp add: chan_bus_def chan_idx_of_def)
next
  case False
  then have "legacy.linked base n nxt" using assms(4) by (simp add: legacy.linked_def chan_bus_def)
  from legacy.visit_cyclic [OF assms(1) this assms(2), of m] False assms(3)
  show ?thesis by (simp add: chan_bus_def chan_idx_of_def)
qed

lemma setup_links:
  assumes "dma_setup_xfer os chan (Some t) = Inr (Ok (), chan')"
    and "cb_area (da_paddr (cb chan')) (num_sgs t)" and "k < num_sgs t"
  shows "block_next (cb_mem chan' k) =
     (if Suc k < num_sgs t then chan_bus chan (block_paddr (da_paddr (cb chan')) (Suc k))
      else if has (mode_flags t) DMA_MODE_FLAG_REPEAT then chan_bus chan (da_paddr (cb chan')) else 0)"
proof -
  obtain c p m where "check_tinfo_params chan t = Inr True" and "\<not> has (status chan) DMACH_BUSY"
    and i: "chan_idx c = chan_idx chan" and "aflags c = aflags chan" and "status c = status chan"
    and "ch_regs c = ch_regs chan" and c': "chan' = c\<lparr>cb_params := p, cb_mem := m\<rparr>"
    and b: "\<And>k. k < num_sgs t \<Longrightarrow> block_at c t k (m k)" by (rule dma_setup_xfer_ok [OF assms(1)]) (rule that)
  have bus: "chan_bus c = chan_bus chan" by (simp add: chan_bus_def ch_info_def i)
  have area: "cb_area (da_paddr (cb c)) (num_sgs t)" and m: "cb_mem chan' = m" and a: "cb chan' = cb c"
    using assms(2) by (simp_all add: c')
  have z: "0 < num_sgs t" using assms(3) by simp
  show ?thesis
    unfolding m a block_at_fields(1) [OF b [OF assms(3)] assms(3)] bus
    using block_paddr_nonzero [OF area] block_paddr_nonzero [OF area z] by auto
qed

text \<open>C12: When \<open>dma_setup_xfer\<close> succeeds (control blocks in memory below 1 GiB) and \<open>dma_start\<close> is
  called, the only two register writes are the address of the first control block and the
  control word with the ACTIVE bit, in this order, and an engine that follows the chain from
  the written address runs every scatter-gather segment exactly once, in order, and stops; in
  repeat mode it runs them in order round after round.\<close>

theorem dma_setup_start_chain:
  assumes "dma_setup_xfer os chan (Some t) = Inr (Ok (), chan')"
    and "cb_area (da_paddr (cb chan')) (num_sgs t)" and "0 < num_sgs t"
  defines "run \<equiv> \<lambda>k ad. visit k (chan_idx_of chan (da_paddr (cb chan'))) (\<lambda>i. block_next (cb_mem chan' i)) ad"
  shows "\<exists>ad cs chan''. dma_start chan' h
      = (Ok (), chan'', h\<lparr>log := log h @ [Out32 (ch_regs chan + 4) ad, Out32 (ch_regs chan) (cs OR 1)]\<rparr>)
    \<and> (if has (mode_flags t) DMA_MODE_FLAG_REPEAT
       then \<forall>rounds. run (rounds * num_sgs t) ad = concat (replicate rounds [0 ..< num_sgs t])
       else \<forall>k \<ge> num_sgs t. run k ad = [0 ..< num_sgs t])"
proof -
  let ?base = "da_paddr (cb chan')"
  obtain c p m where "check_tinfo_params chan t = Inr True" and nb: "\<not> has (status chan) DMACH_BUSY"
    and i: "chan_idx c = chan_idx chan" and "aflags c = aflags chan" and st: "status c = status chan"
    and rg: "ch_regs c = ch_regs chan" and c': "chan' = c\<lparr>cb_params := p, cb_mem := m\<rparr>"
    and "\<And>k. k < num_sgs t \<Longrightarrow> block_at c t k (m k)" by (rule dma_setup_xfer_ok [OF assms(1)]) (rule that)
  have f: "\<not> has (status chan') DMACH_BUSY" "ch_info chan' = ch_info chan" "ch_regs chan' = ch_regs chan"
    using nb i st rg by (simp_all add: c' ch_info_def)
  have start: "dma_start chan' h = (Ok (), chan'\<lparr>status := status chan' OR DMACH_BUSY\<rparr>,
      h\<lparr>log := log h @ [Out32 (ch_regs chan + 4) (chan_bus chan ?base), Out32 (ch_regs chan) (cs_flags chan' OR 1)]\<rparr>)"
    using f by (cases "ci_is_dma4 (ch_info chan)")
      (simp_all add: dma_start_def Let_def out32_def event_def chan_bus_def dma4_bus_def legacy_bus_def cs_flags_def
        ch_info_def DMA4_CS_def DMA4_CB_def DMA_CS_def DMA_CONBLK_AD_def DMA4_CS_ACTIVE_def DMA_CS_ACTIVE_def)
  have links: "Suc k < num_sgs t \<Longrightarrow> block_next (cb_mem chan' k) = chan_bus chan (block_paddr ?base (Suc k))" for k
    using setup_links [OF assms(1,2), of k] by simp
  have last: "block_next (cb_mem chan' (num_sgs t - 1))
      = (if has (mode_flags t) DMA_MODE_FLAG_REPEAT then chan_bus chan ?base else 0)"
    using setup_links [OF assms(1,2), of "num_sgs t - 1"] assms(3) by simp
  show ?thesis
  proof (intro exI conjI)
    show "dma_start chan' h = (Ok (), chan'\<lparr>status := status chan' OR DMACH_BUSY\<rparr>,
      h\<lparr>log := log h @ [Out32 (ch_regs chan + 4) (chan_bus chan ?base), Out32 (ch_regs chan) (cs_flags chan' OR 1)]\<rparr>)"
      by (rule start)
    show "if has (mode_flags t) DMA_MODE_FLAG_REPEAT
       then \<forall>rounds. run (rounds * num_sgs t) (chan_bus chan ?base) = concat (replicate rounds [0 ..< num_sgs t])
       else \<forall>k \<ge> num_sgs t. run k (chan_bus chan ?base) = [0 ..< num_sgs t]"
      using chan_visit_once [OF assms(2,3) _ _ links] chan_visit_cyclic [OF assms(2,3) _ links] last
      by (simp add: run_def)
  qed
qed

text \<open>A transfer of three segments on channel 5, control blocks at \<open>0x1000\<close>.\<close>

definition sample_os :: dma_os where
  "sample_os = \<lparr>os_mmap = (\<lambda>_. None), os_mem_offset = (\<lambda>_. None), os_attach = (\<lambda>s e _. Some s), os_strdup_ok = True,
     os_calloc_ok = True, os_lock_ok = True, os_typed_mem_default = 3, os_intr_attach = (\<lambda>_. 7)\<rparr>"

definition sample_chan :: dma_channel where
  "sample_chan = zero_channel\<lparr>chan_idx := 5, num_cbs := 32, ch_regs := 0xfe007500, aflags := DMA_ATTACH_EVENT_ON_COMPLETE,
     cb := \<lparr>da_vaddr = 0x100000, da_paddr = 0x1000, da_len = 1024\<rparr>\<rparr>"

definition sample_xfer :: "u32 \<Rightarrow> dma_transfer" where
  "sample_xfer flags = \<lparr>src_addrs = [\<lparr>da_vaddr = 0, da_paddr = 0x2000, da_len = 16\<rparr>,
       \<lparr>da_vaddr = 0, da_paddr = 0x3000, da_len = 32\<rparr>, \<lparr>da_vaddr = 0, da_paddr = 0x4000, da_len = 16\<rparr>],
     dst_addrs = [\<lparr>da_vaddr = 0, da_paddr = 0x8000, da_len = 64\<rparr>], src_flags = DMA_ADDR_FLAG_MEMORY,
     dst_flags = DMA_ADDR_FLAG_MEMORY, ti_unit_size = 4, xfer_bytes = 64, mode_flags = flags, req_id = 0\<rparr>"

definition setup_done :: "(unit ret \<times> dma_channel) result \<Rightarrow> dma_channel option" where
  "setup_done r = (case r of Inr (Ok _, c) \<Rightarrow> Some c | _ \<Rightarrow> None)"

lemma setup_done_Some: "setup_done r = Some c \<longleftrightarrow> r = Inr (Ok (), c)"
  by (auto simp: setup_done_def split: sum.splits ret.splits)

definition sample_set_up :: "u32 \<Rightarrow> dma_channel" where
  "sample_set_up flags = (case setup_done (dma_setup_xfer sample_os sample_chan (Some (sample_xfer flags))) of
     Some c \<Rightarrow> c | None \<Rightarrow> zero_channel)"

lemma sample_runs: "dma_setup_xfer sample_os sample_chan (Some (sample_xfer 0)) = Inr (Ok (), sample_set_up 0)"
    "dma_setup_xfer sample_os sample_chan (Some (sample_xfer 1)) = Inr (Ok (), sample_set_up 1)"
proof -
  have "setup_done (dma_setup_xfer sample_os sample_chan (Some (sample_xfer 0))) \<noteq> None" by code_simp
  then show "dma_setup_xfer sample_os sample_chan (Some (sample_xfer 0)) = Inr (Ok (), sample_set_up 0)"
    by (auto simp: sample_set_up_def setup_done_Some) (simp add: setup_done_def)
  have "setup_done (dma_setup_xfer sample_os sample_chan (Some (sample_xfer 1))) \<noteq> None" by code_simp
  then show "dma_setup_xfer sample_os sample_chan (Some (sample_xfer 1)) = Inr (Ok (), sample_set_up 1)"
    by (auto simp: sample_set_up_def setup_done_Some) (simp add: setup_done_def)
qed

lemma sample_set_up_facts: "da_paddr (cb (sample_set_up 0)) = 0x1000" "num_sgs (sample_xfer 0) = 3"
    "cb_area 0x1000 3"
proof -
  show "da_paddr (cb (sample_set_up 0)) = 0x1000" by code_simp
  show "num_sgs (sample_xfer 0) = 3" by code_simp
  show "cb_area 0x1000 3" by (simp add: cb_area_def)
qed

theorem dma_setup_start_chain_witness:
  "\<exists>ad cs chan''. dma_start (sample_set_up 0) \<lparr>now = 0, log = []\<rparr>
      = (Ok (), chan'', \<lparr>now = 0, log = [Out32 (0xfe007500 + 4) ad, Out32 0xfe007500 (cs OR 1)]\<rparr>)
    \<and> visit 10 (chan_idx_of sample_chan 0x1000) (\<lambda>i. block_next (cb_mem (sample_set_up 0) i)) ad = [0, 1, 2]"
proof -
  have r: "ch_regs sample_chan = 0xfe007500" and nr: "\<not> has (mode_flags (sample_xfer 0)) DMA_MODE_FLAG_REPEAT"
    and l: "[0 ..< 3] = [0, 1, 2 :: nat]" by code_simp+
  from dma_setup_start_chain [OF sample_runs(1), unfolded sample_set_up_facts r, OF sample_set_up_facts(3), of "\<lparr>now = 0, log = []\<rparr>"]
  show ?thesis using nr by (auto simp add: l)
qed

section \<open>Lengths, addresses and interrupts\<close>

lemma check_frags_total: "check_frags ci u fixed as tot = Inr (Some r) \<Longrightarrow> r = tot + sum_list (map da_len as)"
proof (induction as arbitrary: tot)
  case (Cons a as)
  from Cons.prems have "check_frags ci u fixed as (tot + da_len a) = Inr (Some r)"
    by (auto split: if_splits)
  from Cons.IH [OF this] show ?case by (simp add: add.assoc)
qed simp

lemma check_tinfo_ok:
  assumes "check_tinfo_params chan t = Inr True"
  shows "lengths_ok t (sum_list (map da_len (src_addrs t))) (sum_list (map da_len (dst_addrs t)))"
    and "get_xfer_type (src_flags t) (dst_flags t) \<noteq> UNKNOWN_XFER_TYPE"
  using assms by (auto simp: check_tinfo_params_def Let_def split: if_splits option.splits dest!: check_frags_total)

lemma frag_in: "k < length as \<Longrightarrow> frag k as = Inr a \<Longrightarrow> a = as ! k"
  by (simp add: frag_def)

lemma frag_ok: "frag k as = Inr a \<Longrightarrow> as \<noteq> []"
  by (auto simp: frag_def Let_def split: if_splits)

lemma map_upt_nth: "map f (map ((!) as) [0 ..< length as]) = map f as"
  by (simp add: map_nth)

lemma sum_lens:
  assumes "\<And>k. k < length as \<Longrightarrow> g k = da_len (as ! k)"
  shows "sum_list (map g [0 ..< length as]) = sum_list (map da_len as)"
proof -
  have "map g [0 ..< length as] = map da_len as" using assms by (intro nth_equalityI) simp_all
  then show ?thesis by simp
qed

text \<open>The lengths in the control blocks of an accepted transfer add up to \<open>xfer_bytes\<close>, for every
  shape of scatter-gather list the library documents (a device side has one fragment).\<close>

theorem dma_setup_total_length:
  assumes "dma_setup_xfer os chan (Some t) = Inr (Ok (), chan')"
    and "has (src_flags t) DMA_ADDR_FLAG_DEVICE \<Longrightarrow> src_fragments t = 1"
    and "has (dst_flags t) DMA_ADDR_FLAG_DEVICE \<Longrightarrow> dst_fragments t = 1"
  shows "sum_list (map (\<lambda>k. block_len (cb_mem chan' k)) [0 ..< num_sgs t]) = xfer_bytes t"
proof -
  obtain c p m where ck: "check_tinfo_params chan t = Inr True" and "\<not> has (status chan) DMACH_BUSY"
    and "chan_idx c = chan_idx chan" and "aflags c = aflags chan" and "status c = status chan"
    and "ch_regs c = ch_regs chan" and c': "chan' = c\<lparr>cb_params := p, cb_mem := m\<rparr>"
    and b: "\<And>k. k < num_sgs t \<Longrightarrow> block_at c t k (m k)" by (rule dma_setup_xfer_ok [OF assms(1)]) (rule that)
  have m: "cb_mem chan' = m" by (simp add: c')
  note len = block_at_fields(2) [OF b]
  have ne: "0 < num_sgs t \<Longrightarrow> src_fragments t \<noteq> 0 \<and> dst_fragments t \<noteq> 0"
    using len [of 0] frag_ok by (auto simp: src_fragments_def dst_fragments_def)
  have lok: "lengths_ok t (sum_list (map da_len (src_addrs t))) (sum_list (map da_len (dst_addrs t)))"
    by (rule check_tinfo_ok(1) [OF ck])
  consider (none) "num_sgs t = 0" | (one) "src_fragments t = 1" "dst_fragments t = 1"
    | (src) "src_fragments t > 1" "num_sgs t = src_fragments t" "sum_list (map da_len (src_addrs t)) = xfer_bytes t"
    | (dst) "src_fragments t = 1" "dst_fragments t > 1" "num_sgs t = dst_fragments t"
        "sum_list (map da_len (dst_addrs t)) = xfer_bytes t"
    using ne lok assms(2,3) unfolding lengths_ok_def num_sgs_def by (fastforce split: if_splits)
  then show ?thesis
  proof cases
    case none
    then show ?thesis using lok by (auto simp: lengths_ok_def num_sgs_def src_fragments_def dst_fragments_def split: if_splits)
  next
    case one
    then show ?thesis using len [of 0] by (simp add: num_sgs_def m)
  next
    case src
    have "block_len (m k) = da_len (src_addrs t ! k)" if "k < length (src_addrs t)" for k
      using len [of k] src that frag_in [OF that] by (auto simp: src_fragments_def)
    from sum_lens [OF this] src show ?thesis by (simp add: m src_fragments_def)
  next
    case dst
    have "block_len (m k) = da_len (dst_addrs t ! k)" if "k < length (dst_addrs t)" for k
      using len [of k] dst that frag_in [OF that] by (auto simp: dst_fragments_def)
    from sum_lens [OF this] dst show ?thesis by (simp add: m dst_fragments_def)
  qed
qed

theorem dma_setup_total_length_witness:
  "sum_list (map (\<lambda>k. block_len (cb_mem (sample_set_up 0) k)) [0 ..< num_sgs (sample_xfer 0)]) = 64"
proof -
  have "\<not> has (src_flags (sample_xfer 0)) DMA_ADDR_FLAG_DEVICE" "\<not> has (dst_flags (sample_xfer 0)) DMA_ADDR_FLAG_DEVICE"
    "xfer_bytes (sample_xfer 0) = 64" by code_simp+
  with dma_setup_total_length [OF sample_runs(1)] show ?thesis by simp
qed

end
