(* ===== verification/Dma_Calls.thy ===== *)
theory Dma_Calls
  imports Dma_Chain
begin

text \<open>
  The contents of the control blocks, sequences of calls on a channel, attaching and
  releasing channels, and the counting of the users of the library.
\<close>

text \<open>The bus addresses a block holds.\<close>

definition block_source :: "ctl_block \<Rightarrow> u64" where
  "block_source b = (case b of Blank \<Rightarrow> 0 | Legacy c \<Rightarrow> ucast (cb_source_ad c)
     | Dma4 c \<Rightarrow> push_bit 32 (ucast (c4_srci c AND 0xff)) OR ucast (c4_src c))"

definition block_dest :: "ctl_block \<Rightarrow> u64" where
  "block_dest b = (case b of Blank \<Rightarrow> 0 | Legacy c \<Rightarrow> ucast (cb_dest_ad c)
     | Dma4 c \<Rightarrow> push_bit 32 (ucast (c4_desti c AND 0xff)) OR ucast (c4_dest c))"

definition bus_addr :: "dma_channel \<Rightarrow> u64 \<Rightarrow> u64" where
  "bus_addr chan a = (if ci_is_dma4 (ch_info chan) then dma4_full_addr a else ucast (dma_legacy_addr (ucast a)))"

lemma mask_8: "(0xff :: 'a::len word) = mask 8" by (simp add: mask_eq_exp_minus_1)

lemma full_addr_40: "40 \<le> n \<Longrightarrow> \<not> bit (dma4_full_addr x) n"
proof -
  assume n: "40 \<le> n"
  have m: "(0xffffffffff :: u64) = mask 40" "(0xfffffffffc000000 :: u64) = push_bit 26 (mask 38)"
    "(0x400000000 :: u64) = push_bit 34 1" "(0xfc000000 :: u64) = push_bit 26 (mask 6)"
    by (simp_all add: mask_eq_exp_minus_1)
  show ?thesis
  proof (cases "x AND 0xfffffffffc000000 = 0xfc000000")
    case True
    then have "bit (x AND push_bit 26 (mask 38)) n = bit (push_bit 26 (mask 6) :: u64) n" unfolding m by simp
    then have "\<not> bit x n \<or> 64 \<le> n" using n by (auto simp: bit_simps)
    moreover have "\<not> bit (push_bit 34 1 :: u64) n" using n by (simp only: bit_push_bit_iff) (simp add: bit_1_iff)
    ultimately show ?thesis using True unfolding dma4_full_addr_def m(3) by (auto simp: bit_or_iff bit_and_iff)
  qed (use n in \<open>simp add: dma4_full_addr_def m bit_simps\<close>)
qed

lemma addr_field:
  assumes "\<And>n. n < 8 \<Longrightarrow> \<not> bit (i :: u32) n"
  shows "push_bit 32 (ucast ((i OR (ucast (drop_bit 32 (dma4_full_addr x)) AND 0xff)) AND 0xff)) OR ucast (ucast (dma4_full_addr x) :: u32)
    = (dma4_full_addr x :: u64)"
proof (rule bit_word_eqI)
  fix n
  assume n: "n < LENGTH(64)"
  consider "n < 32" | "32 \<le> n" "n < 40" | "40 \<le> n" by linarith
  then show "bit (push_bit 32 (ucast ((i OR (ucast (drop_bit 32 (dma4_full_addr x)) AND 0xff)) AND 0xff) :: u64)
      OR ucast (ucast (dma4_full_addr x) :: u32)) n = bit (dma4_full_addr x) n"
    using n full_addr_40 [of n x] assms [of "n - 32"] unfolding mask_8
    by cases (simp_all add: bit_simps less_diff_conv2)
qed

lemma bit_flag_if: "bit (flag_if b f) n \<longleftrightarrow> b \<and> bit f n"
  by (simp add: flag_if_def)

lemma size_bits_low:
  assumes "n < 8"
  shows "\<not> bit DMA4_SIZE_32 n" "\<not> bit DMA4_SIZE_64 n" "\<not> bit DMA4_SIZE_128 n" "\<not> bit DMA4_INC n"
    "\<not> bit (DMA4_BURST_LEN k) n"
  unfolding DMA4_SIZE_32_def DMA4_SIZE_64_def DMA4_SIZE_128_def DMA4_INC_def DMA4_BURST_LEN_def bit_push_bit_iff
  using assms by simp_all

lemmas set_block_defs = set_block_def dma4_setcb_def dma_setcb_def Let_def or.assoc

lemma set_block_addrs:
  assumes "set_block chan = Some b"
  shows "block_source b = bus_addr chan (cp_src_paddr (cb_params chan))"
    and "block_dest b = bus_addr chan (cp_dst_paddr (cb_params chan))"
proof -
  have low: "\<not> bit (w OR flag_if q DMA4_INC OR flag_if r (DMA4_BURST_LEN 16)) n"
    if "w = DMA4_SIZE_32 \<or> w = DMA4_SIZE_64 \<or> w = DMA4_SIZE_128" "n < 8" for w q r n
    using that size_bits_low [OF that(2)] by (auto simp: bit_or_iff bit_flag_if)
  note low' = addr_field [OF low, unfolded or.assoc]
  show "block_source b = bus_addr chan (cp_src_paddr (cb_params chan))"
    using assms by (auto simp: set_block_defs block_source_def bus_addr_def low' split: if_splits)
  show "block_dest b = bus_addr chan (cp_dst_paddr (cb_params chan))"
    using assms by (auto simp: set_block_defs block_dest_def bus_addr_def low' split: if_splits)
qed

lemma ti_bit_0:
  "\<not> bit (DMA4_TI_PERMAP d) 0" "\<not> bit (DMA_TI_PERMAP d) 0" "\<not> bit DMA4_TI_WAIT_WR_RESP 0" "\<not> bit DMA4_TI_S_DREQ 0"
  "\<not> bit DMA4_TI_WAIT_RD_RESP 0" "\<not> bit DMA4_TI_D_DREQ 0" "bit DMA4_TI_INTEN 0" "\<not> bit (DMA4_TI_D_WAITS d) 0"
  "\<not> bit (DMA4_TI_S_WAITS d) 0" "\<not> bit DMA_TI_SRC_WIDTH_32 0" "\<not> bit DMA_TI_DST_WIDTH_32 0"
  "\<not> bit DMA_TI_SRC_WIDTH_128 0" "\<not> bit DMA_TI_DST_WIDTH_128 0" "\<not> bit DMA_TI_SRC_INC 0" "\<not> bit DMA_TI_DST_INC 0"
  "\<not> bit (DMA_TI_BURST d) 0" "\<not> bit DMA_TI_WAIT_RESP 0" "\<not> bit DMA_TI_SRC_DREQ 0" "\<not> bit DMA_TI_DST_DREQ 0"
  "bit DMA_TI_INTEN 0" "\<not> bit (DMA_TI_WAITS d) 0"
  unfolding DMA4_TI_PERMAP_def DMA_TI_PERMAP_def DMA4_TI_WAIT_WR_RESP_def DMA4_TI_S_DREQ_def
    DMA4_TI_WAIT_RD_RESP_def DMA4_TI_D_DREQ_def DMA4_TI_INTEN_def DMA4_TI_D_WAITS_def DMA4_TI_S_WAITS_def
    DMA_TI_SRC_WIDTH_32_def DMA_TI_DST_WIDTH_32_def DMA_TI_SRC_WIDTH_128_def DMA_TI_DST_WIDTH_128_def
    DMA_TI_SRC_INC_def DMA_TI_DST_INC_def DMA_TI_BURST_def DMA_TI_WAIT_RESP_def
    DMA_TI_SRC_DREQ_def DMA_TI_DST_DREQ_def DMA_TI_INTEN_def DMA_TI_WAITS_def bit_push_bit_iff
  by simp_all

lemma set_block_int:
  assumes "set_block chan = Some b"
  shows "block_int b = has (cp_info (cb_params chan)) INT_EN"
proof (cases "ci_is_dma4 (ch_info chan)")
  case True
  with assms obtain c where b: "b = Dma4 c" and c: "dma4_setcb chan = Some c" by (auto simp: set_block_def)
  have "bit (c4_ti c) 0 = has (cp_info (cb_params chan)) INT_EN"
    using c by (auto simp only: dma4_setcb_def Let_def split: option.splits)
      (auto simp only: dma4_cb.select_convs bit_or_iff bit_flag_if ti_bit_0 if_distrib [of "\<lambda>w. bit w 0"] bit_0_eq split: if_splits)
  then show ?thesis by (simp add: b block_int_def)
next
  case False
  with assms obtain c where b: "b = Legacy c" and c: "dma_setcb chan = Some c" by (auto simp: set_block_def)
  have "bit (cb_ti c) 0 = has (cp_info (cb_params chan)) INT_EN"
    using c by (auto simp only: dma_setcb_def Let_def split: option.splits)
      (auto simp only: dma_cb.select_convs bit_or_iff bit_flag_if ti_bit_0 if_distrib [of "\<lambda>w. bit w 0"] bit_0_eq split: if_splits)
  then show ?thesis by (simp add: b block_int_def)
qed

text \<open>C15: In an accepted transfer control block \<open>k\<close> moves segment \<open>k\<close>: its source and destination are
  the bus addresses of the segments \<open>k\<close> of both lists (the first segment where a list has only
  one), and it raises an interrupt exactly when the client asked for one per segment, or for
  one on completion and it is the last.\<close>

theorem dma_setup_blocks:
  assumes "dma_setup_xfer os chan (Some t) = Inr (Ok (), chan')" and "k < num_sgs t"
  shows "(\<exists>s d. frag k (src_addrs t) = Inr s \<and> frag k (dst_addrs t) = Inr d
      \<and> block_source (cb_mem chan' k) = bus_addr chan (da_paddr s) \<and> block_dest (cb_mem chan' k) = bus_addr chan (da_paddr d))
    \<and> (block_int (cb_mem chan' k) \<longleftrightarrow> has (aflags chan) DMA_ATTACH_EVENT_PER_SEGMENT
        \<or> has (aflags chan) DMA_ATTACH_EVENT_ON_COMPLETE \<and> Suc k = num_sgs t)"
proof -
  obtain c p m where "check_tinfo_params chan t = Inr True" and "\<not> has (status chan) DMACH_BUSY"
    and i: "chan_idx c = chan_idx chan" and a: "aflags c = aflags chan" and "status c = status chan"
    and "ch_regs c = ch_regs chan" and c': "chan' = c\<lparr>cb_params := p, cb_mem := m\<rparr>"
    and b: "\<And>k. k < num_sgs t \<Longrightarrow> block_at c t k (m k)" by (rule dma_setup_xfer_ok [OF assms(1)]) (rule that)
  have m: "cb_mem chan' = m" by (simp add: c')
  obtain q where q: "sg_params c t k = Inr q" and blk: "set_block (c\<lparr>cb_params := q\<rparr>) = Some (m k)"
    using b [OF assms(2)] by (auto simp: block_at_def)
  have last: "(k = num_sgs t - Suc 0) = (Suc k = num_sgs t)" using assms(2) by auto
  have ad: "bus_addr (c\<lparr>cb_params := q\<rparr>) = bus_addr chan" by (rule ext) (simp add: bus_addr_def ch_info_def i)
  have "INT_EN \<noteq> 0" by (simp add: INT_EN_def)
  then have int: "has ((x AND NOT INT_EN) OR flag_if u INT_EN OR flag_if v INT_EN) INT_EN = (u \<or> v)" for x u v
    by (cases u; cases v) (auto simp add: has_def flag_if_def and.assoc bit.conj_disj_distrib2)
  show ?thesis
    unfolding m set_block_addrs [OF blk] set_block_int [OF blk] ad
    using q a by (auto simp: sg_params_def Let_def last int [unfolded or.assoc] or.assoc)
qed

theorem dma_setup_blocks_witness:
  "block_int (cb_mem (sample_set_up 0) 2) \<and> \<not> block_int (cb_mem (sample_set_up 0) 1)"
proof -
  have n: "num_sgs (sample_xfer 0) = 3" and a: "\<not> has (aflags sample_chan) DMA_ATTACH_EVENT_PER_SEGMENT"
      "has (aflags sample_chan) DMA_ATTACH_EVENT_ON_COMPLETE" by code_simp+
  show ?thesis
    using dma_setup_blocks [OF sample_runs(1), of 1, unfolded n] dma_setup_blocks [OF sample_runs(1), of 2, unfolded n] a
    by simp
qed

section \<open>Sequences of calls\<close>

text \<open>The calls a client makes on an attached channel.\<close>

inductive dma_step :: "dma_os \<Rightarrow> device \<Rightarrow> dma_channel \<times> hw \<Rightarrow> dma_channel \<times> hw \<Rightarrow> bool" for os dev where
  step_setup: "dma_setup_xfer os chan tinfo = Inr (r, chan') \<Longrightarrow> dma_step os dev (chan, h) (chan', h)"
| step_start: "dma_start chan h = (r, chan', h') \<Longrightarrow> dma_step os dev (chan, h) (chan', h')"
| step_bytes_left: "dma_bytes_left dev chan h = (r, h') \<Longrightarrow> dma_step os dev (chan, h) (chan, h')"
| step_abort: "dma_xfer_abort dev chan h = (r, chan', h') \<Longrightarrow> dma_step os dev (chan, h) (chan', h')"
| step_complete: "xfer_complete dev chan h = (r, chan', h') \<Longrightarrow> dma_step os dev (chan, h) (chan', h')"

text \<open>An access to the registers of the channel, or the unmasking of its own interrupt.\<close>

definition own_event :: "dma_channel \<Rightarrow> os_event \<Rightarrow> bool" where
  "own_event chan ev = (case ev of
      Out32 a _ \<Rightarrow> a = ch_regs chan \<or> a = ch_regs chan + 4 \<or> a = ch_regs chan + 0xC
    | Intr_unmask irq i \<Rightarrow> irq = ci_irq (ch_info chan) \<and> i = iid chan
    | _ \<Rightarrow> False)"

definition own_log :: "dma_channel \<Rightarrow> hw \<Rightarrow> dma_channel \<Rightarrow> hw \<Rightarrow> bool" where
  "own_log chan h chan' h' \<longleftrightarrow>
     chan_idx chan' = chan_idx chan \<and> ch_regs chan' = ch_regs chan \<and> iid chan' = iid chan
     \<and> (\<exists>evs. log h' = log h @ evs \<and> list_all (own_event chan) evs)"

lemma own_log_refl [simp]: "own_log chan h chan h"
  by (simp add: own_log_def)

lemma own_log_trans: "own_log c h c1 h1 \<Longrightarrow> own_log c1 h1 c2 h2 \<Longrightarrow> own_log c h c2 h2"
proof -
  have "own_event c1 = own_event c" if "chan_idx c1 = chan_idx c" "ch_regs c1 = ch_regs c" "iid c1 = iid c"
    unfolding own_event_def [abs_def] ch_info_def that ..
  then show "own_log c h c1 h1 \<Longrightarrow> own_log c1 h1 c2 h2 \<Longrightarrow> own_log c h c2 h2"
    unfolding own_log_def by (metis append.assoc list_all_append)
qed

lemma wait_clear_log: "log (snd (wait_clear n dev a bits h)) = log h \<and> now (snd (wait_clear n dev a bits h)) \<le> now h + n + 1"
proof (induction n arbitrary: h)
  case (Suc n)
  then show ?case using Suc [of "h\<lparr>now := Suc (now h)\<rparr>"] by (simp add: in32_def Let_def)
qed (simp add: in32_def)

lemma stop_log:
  fixes dev :: device and a r :: u64 and h :: hw
  defines "g \<equiv> out32 r 0 (snd (in32 dev a h))"
  shows "log (out32 r2 v (snd (wait_clear n dev r bits g))) = log h @ [Out32 r 0, Out32 r2 v]"
    and "now (out32 r2 v (snd (wait_clear n dev r bits g))) \<le> now h + n + 2"
proof -
  have "log g = log h @ [Out32 r 0]" "now g = Suc (now h)" by (simp_all add: g_def out32_def event_def in32_def)
  with wait_clear_log [of n dev r bits g]
  show "log (out32 r2 v (snd (wait_clear n dev r bits g))) = log h @ [Out32 r 0, Out32 r2 v]"
    and "now (out32 r2 v (snd (wait_clear n dev r bits g))) \<le> now h + n + 2" by (simp_all add: out32_def event_def)
qed

lemma dma_abort_log:
  "\<exists>evs. log (snd (dma_abort dev chan h)) = log h @ evs \<and> list_all (own_event chan) evs
     \<and> now (snd (dma_abort dev chan h)) \<le> now h + 10002"
proof (cases "fst (in32 dev (ch_regs chan + DMA_CONBLK_AD) h) = 0")
  case False
  show ?thesis
    using stop_log [of "ch_regs chan + DMA_CS" DMA_CS_RESET 10000 dev "ch_regs chan + DMA_CS" DMA_CS_WAITING_FOR_WRITES
        "ch_regs chan + DMA_CONBLK_AD" h] False
    by (intro exI [of _ "[Out32 (ch_regs chan) 0, Out32 (ch_regs chan) DMA_CS_RESET]"])
      (simp add: dma_abort_def Let_def case_prod_beta own_event_def DMA_CS_def)
qed (simp add: dma_abort_def in32_def Let_def)

lemma dma4_abort_log:
  "\<exists>evs. log (snd (dma4_abort dev chan h)) = log h @ evs \<and> list_all (own_event chan) evs
     \<and> now (snd (dma4_abort dev chan h)) \<le> now h + 10002"
proof (cases "fst (in32 dev (ch_regs chan + DMA4_CB) h) = 0")
  case False
  show ?thesis
    using stop_log [of "ch_regs chan + DMA4_DEBUG" DMA4_DEBUG_RESET 1000 dev "ch_regs chan + DMA4_CS"
        DMA4_CS_WAITING_FOR_WRITES "ch_regs chan + DMA4_CB" h] False
    by (intro exI [of _ "[Out32 (ch_regs chan) 0, Out32 (ch_regs chan + 0xC) DMA4_DEBUG_RESET]"])
      (simp add: dma4_abort_def Let_def case_prod_beta own_event_def DMA4_CS_def DMA4_DEBUG_def)
qed (simp add: dma4_abort_def in32_def Let_def)

lemma dma_xfer_abort_effect:
  assumes "dma_xfer_abort dev chan h = (r, chan', h')"
  shows "own_log chan h chan' h'" and "chan' = chan\<lparr>status := status chan AND NOT DMACH_BUSY\<rparr>" and "now h' \<le> now h + 10002"
proof -
  show c: "chan' = chan\<lparr>status := status chan AND NOT DMACH_BUSY\<rparr>"
    using assms by (auto simp: dma_xfer_abort_def Let_def split: prod.splits)
  have h': "h' = snd (if ci_is_dma4 (ch_info chan) then dma4_abort dev chan h else dma_abort dev chan h)"
    using assms by (auto simp: dma_xfer_abort_def Let_def split: prod.splits if_splits)
  note al = dma_abort_log [of dev chan h] dma4_abort_log [of dev chan h]
  show "own_log chan h chan' h'" using al unfolding own_log_def h' c by (cases "ci_is_dma4 (ch_info chan)") auto
  show "now h' \<le> now h + 10002" using al unfolding h' by auto
qed

text \<open>
  \<open>xfer_complete\<close> acknowledges the interrupt and then stops the channel, or leaves it running
  while segments are outstanding.
\<close>

definition finishes :: "device \<Rightarrow> dma_channel \<Rightarrow> hw \<Rightarrow> bool" where
  "finishes dev chan h \<longleftrightarrow>
     has (dev (ch_regs chan) (now h)) (if ci_is_dma4 (ch_info chan) then DMA4_CS_ERROR else DMA_CS_ERROR)
     \<or> (if has (aflags chan) DMA_ATTACH_EVENT_PER_SEGMENT then frg_count chan = 1
        else \<not> has (mflags chan) DMA_MODE_FLAG_REPEAT)"

lemma xfer_complete_cases:
  assumes "xfer_complete dev chan h = (r, chan', h')"
  obtains c g where "c = chan\<lparr>frg_count := frg_count chan - 1\<rparr>" and "own_log chan h c g" and "now g = Suc (now h)"
    and "if finishes dev chan h then \<exists>r'. dma_xfer_abort dev c g = (r', chan', h') else chan' = c \<and> h' = g"
proof -
  define c where "c = chan\<lparr>frg_count := frg_count chan - 1\<rparr>"
  define cs_reg where "cs_reg = ch_regs c + (if ci_is_dma4 (ch_info c) then DMA4_CS else DMA_CS)"
  have cs: "cs_reg = ch_regs chan" by (simp add: cs_reg_def c_def DMA4_CS_def DMA_CS_def)
  define g1 where "g1 = out32 cs_reg (cs_flags c OR
                (if ci_is_dma4 (ch_info c) then DMA4_CS_INT OR DMA4_CS_END OR DMA4_CS_ACTIVE
                 else DMA_CS_INT OR DMA_CS_END OR DMA_CS_ACTIVE)) (snd (in32 dev cs_reg h))"
  define g where "g = (if iid c \<noteq> - 1 then event (Intr_unmask (ci_irq (ch_info c)) (iid c)) g1 else g1)"
  have f: "chan_idx c = chan_idx chan" "ch_regs c = ch_regs chan" "iid c = iid chan" "ch_info c = ch_info chan"
    by (simp_all add: c_def ch_info_def)
  have "own_log chan h c g1"
    unfolding own_log_def by (simp add: f g1_def out32_def event_def in32_def own_event_def cs)
  moreover have "own_log c g1 c g"
    unfolding own_log_def by (simp add: g_def event_def own_event_def)
  ultimately have 1: "own_log chan h c g" by (rule own_log_trans)
  have 2: "now g = Suc (now h)" by (simp add: g_def g1_def event_def out32_def in32_def)
  obtain r' c'' h'' where ab: "dma_xfer_abort dev c g = (r', c'', h'')" by (rule prod_cases3)
  have "finishes dev chan h \<longleftrightarrow> fst (in32 dev cs_reg h) AND (if ci_is_dma4 (ch_info c) then DMA4_CS_ERROR else DMA_CS_ERROR) \<noteq> 0
     \<or> (if has (aflags c) DMA_ATTACH_EVENT_PER_SEGMENT then frg_count chan = 1 else \<not> has (mflags c) DMA_MODE_FLAG_REPEAT)"
    by (simp add: finishes_def cs in32_def has_def f) (simp add: c_def)
  then have 3: "if finishes dev chan h then \<exists>r'. dma_xfer_abort dev c g = (r', chan', h') else chan' = c \<and> h' = g"
    using assms unfolding xfer_complete_def Let_def case_prod_beta c_def [symmetric] cs_reg_def [symmetric]
      g1_def [symmetric] g_def [symmetric] ab
    by (simp split: if_splits)
  show thesis by (rule that [OF c_def 1 2 3])
qed

definition same_channel :: "dma_channel \<Rightarrow> dma_channel \<Rightarrow> bool" where
  "same_channel c c' \<longleftrightarrow> chan_idx c' = chan_idx c \<and> ch_regs c' = ch_regs c \<and> iid c' = iid c \<and> status c' = status c"

lemma same_channel_refl [simp]: "same_channel c c"
  by (simp add: same_channel_def)

lemma setup_cbs_from_frame: "setup_cbs_from n t i chan = Inr (b, chan') \<Longrightarrow> same_channel chan chan'"
proof (induction n arbitrary: i chan)
  case (Suc n)
  from Suc.prems obtain p where p: "sg_params chan t i = Inr p" by (cases "sg_params chan t i") simp_all
  show ?case
  proof (cases "set_block (chan\<lparr>cb_params := p\<rparr>)")
    case None
    then have "chan' = chan\<lparr>cb_params := p\<rparr>" using Suc.prems p by simp
    then show ?thesis by (simp add: same_channel_def)
  next
    case (Some blk)
    define c where "c = chan\<lparr>cb_params := p, cb_mem := (cb_mem chan)(i := blk)\<rparr>"
    have "setup_cbs_from n t (Suc i) c = Inr (b, chan')" using Suc.prems p Some by (simp add: c_def)
    from Suc.IH [OF this] show ?thesis by (simp add: same_channel_def c_def)
  qed
qed simp

lemma dma_setup_cbs_frame:
  assumes "dma_setup_cbs os chan t = Inr (r, chan')"
  shows "same_channel chan chan'"
proof -
  obtain ok buf where al: "(if da_len (cb chan) = 0 then dma_alloc_buffer os (Some chan) (num_cbs chan * DMA_CB_SIZE) (cb chan)
      else (Ok (), cb chan)) = (ok, buf)" by (rule prod.exhaust)
  define c where "c = chan\<lparr>cb := buf, frgs_num := of_nat (num_sgs t), frg_count := of_nat (num_sgs t)\<rparr>"
  have c: "same_channel c x \<Longrightarrow> same_channel chan x" for x by (simp add: same_channel_def c_def)
  show ?thesis
  proof (cases "num_sgs t > unat (num_cbs chan)")
    case True
    then have "chan' = chan" using assms by (simp add: dma_setup_cbs_def)
    then show ?thesis by simp
  next
    case False
    note run = assms [unfolded dma_setup_cbs_def if_not_P [OF False] al Let_def prod.case]
    show ?thesis
    proof (cases ok)
      case (Fail e)
      then have "chan' = chan\<lparr>cb := buf\<rparr>" using run by simp
      then show ?thesis by (simp add: same_channel_def)
    next
      case (Ok u)
      have "c = (chan\<lparr>cb := buf\<rparr>)\<lparr>frgs_num := of_nat (num_sgs t), frg_count := of_nat (num_sgs t)\<rparr>" by (simp add: c_def)
      note run = run [unfolded Ok ret.case this [symmetric]]
      then obtain b where "setup_cbs_from (num_sgs t) t 0 c = Inr (b, chan')"
        by (cases "setup_cbs_from (num_sgs t) t 0 c") auto
      then show ?thesis by (intro c setup_cbs_from_frame)
    qed
  qed
qed

lemma dma_setup_xfer_frame:
  assumes "dma_setup_xfer os chan tinfo = Inr (r, chan')"
  shows "same_channel chan chan'" and "has (status chan) DMACH_BUSY \<Longrightarrow> chan' = chan \<and> (r = Fail EBUSY \<or> r = Fail EINVAL)"
proof -
  have "same_channel chan chan' \<and> (has (status chan) DMACH_BUSY \<longrightarrow> chan' = chan \<and> (r = Fail EBUSY \<or> r = Fail EINVAL))"
  proof (cases tinfo)
    case None
    then show ?thesis using assms by (simp add: dma_setup_xfer_def)
  next
    case (Some t)
    define c where "c = chan\<lparr>cb_params := init_params t, xfer_type := get_xfer_type (src_flags t) (dst_flags t),
                    mflags := mode_flags t, xfer_unit_size := ti_unit_size t\<rparr>"
    have c: "same_channel c x \<Longrightarrow> same_channel chan x" for x by (simp add: same_channel_def c_def)
    define ck where "ck = check_tinfo_params chan t"
    define cbs where "cbs = dma_setup_cbs os c t"
    have cbs: "cbs = Inr (r, chan') \<Longrightarrow> same_channel chan chan'" using c dma_setup_cbs_frame by (auto simp: cbs_def)
    have "bind_result ck (\<lambda>ok. if \<not> ok then Inr (Fail EINVAL, chan)
            else if has (status chan) DMACH_BUSY then Inr (Fail EBUSY, chan) else cbs) = Inr (r, chan')"
      using assms unfolding Some dma_setup_xfer_def option.case ck_def cbs_def c_def .
    then show ?thesis using cbs by (cases ck) (auto split: if_splits)
  qed
  then show "same_channel chan chan'" "has (status chan) DMACH_BUSY \<Longrightarrow> chan' = chan \<and> (r = Fail EBUSY \<or> r = Fail EINVAL)"
    by blast+
qed

lemma dma_step_own: "dma_step os dev (chan, h) (chan', h') \<Longrightarrow> own_log chan h chan' h'"
proof (induction "(chan, h)" "(chan', h')" rule: dma_step.induct)
  case (step_setup tinfo r)
  then show ?case using dma_setup_xfer_frame(1) by (auto simp: own_log_def same_channel_def)
next
  case (step_start r)
  then show ?case
    by (auto simp: dma_start_def Let_def own_log_def out32_def event_def own_event_def DMA4_CS_def DMA4_CB_def
        DMA_CS_def DMA_CONBLK_AD_def split: if_splits)
next
  case (step_bytes_left r)
  then show ?case
    by (auto simp: dma_bytes_left_def bytes_left_dma_def bytes_left_dma4_def Let_def own_log_def in32_def split: if_splits)
next
  case (step_abort r)
  then show ?case by (rule dma_xfer_abort_effect)
next
  case (step_complete r)
  from step_complete obtain c g where "own_log chan h c g"
    and "if finishes dev chan h then \<exists>r'. dma_xfer_abort dev c g = (r', chan', h') else chan' = c \<and> h' = g"
    by (rule xfer_complete_cases)
  then show ?case using own_log_trans dma_xfer_abort_effect(1) by (auto split: if_splits)
qed

text \<open>C13: Whatever calls a client makes on an attached channel (set-up, start, bytes left, abort,
  completion, in any order and number), only the control, control block address and debug
  registers of this channel are written, only its own interrupt is unmasked, and its index
  and register base do not change: channels of different clients cannot disturb each other.\<close>

theorem dma_channel_isolated:
  assumes "(dma_step os dev)\<^sup>*\<^sup>* (chan, h) (chan', h')"
  shows "chan_idx chan' = chan_idx chan \<and> ch_regs chan' = ch_regs chan
    \<and> (\<exists>evs. log h' = log h @ evs \<and> list_all (own_event chan) evs)"
proof -
  have "own_log chan h (fst s) (snd s)" if "(dma_step os dev)\<^sup>*\<^sup>* (chan, h) s" for s
    using that
  proof (induction rule: rtranclp_induct)
    case (step s s')
    have "own_log (fst s) (snd s) (fst s') (snd s')"
      using dma_step_own [of os dev "fst s" "snd s" "fst s'" "snd s'"] step(2) by simp
    with step.IH show ?case by (rule own_log_trans)
  qed simp
  from this [OF assms] show ?thesis by (simp add: own_log_def)
qed

theorem dma_channel_isolated_witness:
  "\<exists>evs. log (snd (snd (dma_start (sample_set_up 0) \<lparr>now = 0, log = []\<rparr>))) = evs
    \<and> list_all (own_event sample_chan) evs \<and> length evs = 2"
proof -
  obtain r c h where s: "dma_start (sample_set_up 0) \<lparr>now = 0, log = []\<rparr> = (r, c, h)" by (rule prod_cases3)
  have "(dma_step sample_os (\<lambda>_ _. 0))\<^sup>*\<^sup>* (sample_chan, \<lparr>now = 0, log = []\<rparr>) (c, h)"
    using dma_step.step_setup [OF sample_runs(1)] dma_step.step_start [OF s]
    by (meson converse_rtranclp_into_rtranclp r_into_rtranclp)
  from dma_channel_isolated [OF this] have "list_all (own_event sample_chan) (log h)" by auto
  moreover have "length (log (snd (snd (dma_start (sample_set_up 0) \<lparr>now = 0, log = []\<rparr>)))) = 2" by code_simp
  ultimately show ?thesis using s by auto
qed

lemma busy_or: "has w DMACH_BUSY \<Longrightarrow> w OR DMACH_BUSY = w"
proof (rule bit_word_eqI)
  fix n assume "has w DMACH_BUSY"
  then have "bit w 0" unfolding has_def DMACH_BUSY_def by (simp add: and_one_eq bit_0 mod2_eq_if split: if_splits)
  then show "bit (w OR DMACH_BUSY) n = bit w n" by (auto simp: DMACH_BUSY_def bit_or_iff bit_1_iff)
qed

text \<open>C14: A running transfer is protected and can always be ended: while the channel is busy a
  second start or set-up is refused and changes neither the channel nor its registers;
  \<open>dma_xfer_abort\<close> makes the channel idle after at most 10,002 register reads, whatever the
  device answers; \<open>xfer_complete\<close> makes it idle exactly on an error, after the last segment,
  or at the end of a transfer that does not repeat.\<close>

theorem dma_busy_protocol:
  "(has (status chan) DMACH_BUSY \<longrightarrow> dma_start chan h = (Fail EBUSY, chan, h)
      \<and> (\<forall>r chan'. dma_setup_xfer os chan tinfo = Inr (r, chan') \<longrightarrow> chan' = chan \<and> (r = Fail EBUSY \<or> r = Fail EINVAL)))
   \<and> (\<forall>r chan' h'. dma_xfer_abort dev chan h = (r, chan', h') \<longrightarrow> \<not> has (status chan') DMACH_BUSY \<and> now h' \<le> now h + 10002)
   \<and> (\<forall>r chan' h'. xfer_complete dev chan h = (r, chan', h') \<longrightarrow>
        has (status chan') DMACH_BUSY = (has (status chan) DMACH_BUSY \<and> \<not> finishes dev chan h) \<and> now h' \<le> now h + 10003)"
proof (intro conjI allI impI)
  assume "has (status chan) DMACH_BUSY"
  then show "dma_start chan h = (Fail EBUSY, chan, h)" by (simp add: dma_start_def busy_or)
next
  fix r chan' assume "has (status chan) DMACH_BUSY" "dma_setup_xfer os chan tinfo = Inr (r, chan')"
  then show "chan' = chan" "r = Fail EBUSY \<or> r = Fail EINVAL" using dma_setup_xfer_frame(2) by blast+
next
  fix r chan' h' assume a: "dma_xfer_abort dev chan h = (r, chan', h')"
  show "\<not> has (status chan') DMACH_BUSY" using dma_xfer_abort_effect(2) [OF a] by (simp add: has_def and.assoc)
  show "now h' \<le> now h + 10002" by (rule dma_xfer_abort_effect(3) [OF a])
next
  fix r chan' h' assume a: "xfer_complete dev chan h = (r, chan', h')"
  then obtain c g where c: "c = chan\<lparr>frg_count := frg_count chan - 1\<rparr>" and g: "now g = Suc (now h)"
    and fin: "if finishes dev chan h then \<exists>r'. dma_xfer_abort dev c g = (r', chan', h') else chan' = c \<and> h' = g"
    by (rule xfer_complete_cases)
  have idle: "\<not> has (x AND NOT DMACH_BUSY) DMACH_BUSY" for x by (simp add: has_def and.assoc)
  have st: "status chan' = (if finishes dev chan h then status c AND NOT DMACH_BUSY else status c)
      \<and> now h' \<le> now h + 10003"
  proof (cases "finishes dev chan h")
    case True
    then obtain r' where ab: "dma_xfer_abort dev c g = (r', chan', h')" using fin by (simp only: if_True) (elim exE)
    show ?thesis using True dma_xfer_abort_effect(3) [OF ab] g by (simp add: dma_xfer_abort_effect(2) [OF ab])
  next
    case False
    then show ?thesis using fin g by simp
  qed
  have sc: "status c = status chan" by (simp add: c)
  show "has (status chan') DMACH_BUSY = (has (status chan) DMACH_BUSY \<and> \<not> finishes dev chan h)"
    unfolding st [THEN conjunct1] sc using idle by (cases "finishes dev chan h") simp_all
  show "now h' \<le> now h + 10003" by (rule st [THEN conjunct2])
qed

theorem dma_busy_protocol_witness:
  "dma_start (sample_chan\<lparr>status := 1\<rparr>) \<lparr>now = 0, log = []\<rparr> = (Fail EBUSY, sample_chan\<lparr>status := 1\<rparr>, \<lparr>now = 0, log = []\<rparr>)"
proof -
  have "has (status (sample_chan\<lparr>status := 1\<rparr>)) DMACH_BUSY" by (simp add: has_def DMACH_BUSY_def)
  with dma_busy_protocol [of "sample_chan\<lparr>status := 1\<rparr>" "\<lparr>now = 0, log = []\<rparr>"] show ?thesis by blast
qed

section \<open>Attaching and releasing\<close>

lemma attach_range_bounds:
  assumes "range_min chan = - 1 \<or> range_max chan = - 1"
    and "attach_range nch chan channel priority flags = Some (s, e, topdown)"
  shows "s \<le> e \<and> e \<le> ucast (nch - 1)"
proof -
  have "(0 :: u64) \<le> x" for x by simp
  then show ?thesis
    using assms by (auto simp: attach_range_def Let_def not_less not_le split: if_splits option.splits)
qed

text \<open>The resource manager hands out a number of the range it is asked for.\<close>

definition rsrc_manager_ok :: "dma_os \<Rightarrow> bool" where
  "rsrc_manager_ok os \<longleftrightarrow> (\<forall>s e d r. s \<le> e \<longrightarrow> os_attach os s e d = Some r \<longrightarrow> s \<le> r \<and> r \<le> e)"

lemma parse_no_options:
  "parse_options os (zero_channel\<lparr>range_min := - 1, range_max := - 1\<rparr>) [] = (err, chan) \<Longrightarrow>
     range_min chan = - 1 \<and> status chan = 0 \<and> da_len (cb chan) = 0"
  by (auto simp: parse_options_def Let_def zero_channel_def split: if_splits)

lemma attach_decompose:
  assumes "dma_channel_attach os dev vbase nch None with_event channel priority flags h = (Ok chan, h')"
  obtains c0 start where "parse_options os (zero_channel\<lparr>range_min := - 1, range_max := - 1\<rparr>) [] = (None, c0)"
    and "rsrcdb_attach_channel os nch c0 channel priority flags = Ok start"
    and "chan_idx chan = ucast start" and "ch_regs chan = vbase + ucast (ci_offset (chs_info ! unat (chan_idx chan)))"
    and "status chan = status c0" and "aflags chan = flags" and "cb chan = cb c0"
    and "log h' = log h @ [Out32 (vbase + 0xff0) (dev (vbase + 0xff0) (now h) OR push_bit (unat (chan_idx chan)) 1),
                           Out32 (ch_regs chan) 0]"
proof -
  obtain err c0 where p: "parse_options os (zero_channel\<lparr>range_min := - 1, range_max := - 1\<rparr>) [] = (err, c0)"
    by (rule prod.exhaust)
  note a = assms [unfolded dma_channel_attach_def p Let_def option.case prod.case]
  have err: "err = None" using a by (cases err) (auto split: if_splits)
  obtain start where r: "rsrcdb_attach_channel os nch c0 channel priority flags = Ok start"
    using a err by (cases "rsrcdb_attach_channel os nch c0 channel priority flags") (auto split: if_splits)
  note b = a [unfolded err r option.case ret.case]
  have idx: "chan_idx chan = ucast start" using b by (auto split: if_splits)
  show thesis
  proof (rule that [OF p [unfolded err] r idx])
    show "ch_regs chan = vbase + ucast (ci_offset (chs_info ! unat (chan_idx chan)))"
      using b idx by (auto split: if_splits)
    show "status chan = status c0" "aflags chan = flags" "cb chan = cb c0" using b by (auto split: if_splits)
    show "log h' = log h @ [Out32 (vbase + 0xff0) (dev (vbase + 0xff0) (now h) OR push_bit (unat (chan_idx chan)) 1),
                           Out32 (ch_regs chan) 0]"
      using b idx by (auto simp: pause_channel_def enable_channel_def in32_def out32_def event_def DMA_ENABLE_def
          DMA4_CS_def DMA_CS_def split: if_splits)
  qed
qed

text \<open>A channel attached without range options is one of the controller's \<open>nch\<close> channels (given
  a resource manager that answers within the requested range), is idle, points at its own
  register block and is enabled and stopped by exactly two register writes, the first of
  which sets its bit of the shared enable register and no other; releasing it stops it and
  clears exactly that bit, and gives the channel number back to the resource manager.\<close>

theorem dma_attach_release:
  assumes "dma_channel_attach os dev vbase nch None with_event channel priority flags h = (Ok chan, h')"
    and "rsrc_manager_ok os" and "0 < nch" and "nch \<le> 15"
  shows "chan_idx chan < nch \<and> ch_regs chan = vbase + push_bit 8 (ucast (chan_idx chan)) \<and> status chan = 0
    \<and> log h' = log h @ [Out32 (vbase + 0xff0) (dev (vbase + 0xff0) (now h) OR push_bit (unat (chan_idx chan)) 1),
                        Out32 (ch_regs chan) 0]
    \<and> (\<forall>c. chan_idx c = chan_idx chan \<and> ch_regs c = ch_regs chan \<longrightarrow>
         (\<exists>evs. log (dma_channel_release dev vbase c h'')
           = log h'' @ [Out32 (ch_regs chan) 0,
               Out32 (vbase + 0xff0) (dev (vbase + 0xff0) (now h'') AND NOT (push_bit (unat (chan_idx chan)) 1))] @ evs
           \<and> Rsrc_detach (chan_idx chan) \<in> set evs \<and> (\<forall>a v. Out32 a v \<notin> set evs)))"
proof -
  obtain c0 start where p: "parse_options os (zero_channel\<lparr>range_min := - 1, range_max := - 1\<rparr>) [] = (None, c0)"
    and r: "rsrcdb_attach_channel os nch c0 channel priority flags = Ok start" and idx: "chan_idx chan = ucast start"
    and rg: "ch_regs chan = vbase + ucast (ci_offset (chs_info ! unat (chan_idx chan)))" and st: "status chan = status c0"
    and "aflags chan = flags" and cb0: "cb chan = cb c0"
    and lg: "log h' = log h @ [Out32 (vbase + 0xff0) (dev (vbase + 0xff0) (now h) OR push_bit (unat (chan_idx chan)) 1),
                           Out32 (ch_regs chan) 0]" by (rule attach_decompose [OF assms(1)])
  note c0 = parse_no_options [OF p]
  obtain s e d where ar: "attach_range nch c0 channel priority flags = Some (s, e, d)" and at: "os_attach os s e d = Some start"
    using r by (auto simp: rsrcdb_attach_channel_def split: option.splits)
  have "start \<le> ucast (nch - 1)"
    using attach_range_bounds [OF _ ar] c0 assms(2) at unfolding rsrc_manager_ok_def by (meson order_trans)
  then have "unat start \<le> take_bit 64 (unat nch - 1)"
    using assms(3) by (simp add: word_le_nat_alt unsigned_ucast_eq unat_minus_one word_neq_0_conv)
  then have n: "unat start \<le> unat nch - 1" by (rule order_trans) (rule take_bit_nat_less_eq_self)
  have i15: "unat (chan_idx chan) < unat nch"
    using n assms(3,4) by (simp add: idx unsigned_ucast_eq word_less_nat_alt word_le_nat_alt take_bit_nat_eq_self)
  then have lt: "unat (chan_idx chan) < 15" using assms(4) by (simp add: word_le_nat_alt)
  have off: "\<forall>i < 15. ci_offset (chs_info ! i) = push_bit 8 (of_nat i)"
    by (simp add: All_less_Suc numeral_eq_Suc) (simp add: chs_info_def ch_info_of_def)
  have reg: "ch_regs chan = vbase + push_bit 8 (ucast (chan_idx chan))"
    unfolding rg off [rule_format, OF lt] using lt
    by (simp add: word_eq_nat push_bit_eq_mult unsigned_ucast_eq unat_word_ariths take_bit_nat_eq_self)
  have rel: "\<exists>evs. log (dma_channel_release dev vbase c h'')
         = log h'' @ [Out32 (ch_regs c) 0,
             Out32 (vbase + 0xff0) (dev (vbase + 0xff0) (now h'') AND NOT (push_bit (unat (chan_idx c)) 1))] @ evs
         \<and> Rsrc_detach (chan_idx c) \<in> set evs \<and> (\<forall>a v. Out32 a v \<notin> set evs)" for c
    by (rule exI [of _ "(if da_len (cb c) > 0 then [Munmap (da_vaddr (cb c)) (da_len (cb c))] else [])
          @ (if iid c \<noteq> - 1 then [Intr_detach (iid c)] else []) @ [Rsrc_detach (chan_idx c)]
          @ (if typed_mem_fd c \<noteq> - 1 then [Close_fd (typed_mem_fd c)] else [])"])
      (simp add: dma_channel_release_def Let_def disable_channel_def pause_channel_def close_typed_mem_def dma_free_buffer_def
          rsrcdb_detach_resources_def in32_def out32_def event_def DMA_ENABLE_def DMA4_CS_def DMA_CS_def word_neq_0_conv)
  show ?thesis
  proof (intro conjI allI impI)
    show "chan_idx chan < nch" using i15 by (simp add: word_less_nat_alt)
    show "status chan = 0" using st c0 by simp
    fix c :: dma_channel assume "chan_idx c = chan_idx chan \<and> ch_regs c = ch_regs chan"
    then show "\<exists>evs. log (dma_channel_release dev vbase c h'')
           = log h'' @ [Out32 (ch_regs chan) 0,
               Out32 (vbase + 0xff0) (dev (vbase + 0xff0) (now h'') AND NOT (push_bit (unat (chan_idx chan)) 1))] @ evs
           \<and> Rsrc_detach (chan_idx chan) \<in> set evs \<and> (\<forall>a v. Out32 a v \<notin> set evs)"
      using rel [of c] by simp
  qed (rule reg lg)+
qed

definition sample_attached :: dma_channel where
  "sample_attached = (case dma_channel_attach sample_os (\<lambda>_ _. 0) 0xfe007000 15 None False (Some 5) 0 0 \<lparr>now = 0, log = []\<rparr> of
     (Ok c, h) \<Rightarrow> c | (Fail e, h) \<Rightarrow> zero_channel)"

lemma sample_attach:
  "\<exists>h. dma_channel_attach sample_os (\<lambda>_ _. 0) 0xfe007000 15 None False (Some 5) 0 0 \<lparr>now = 0, log = []\<rparr> = (Ok sample_attached, h)"
proof -
  let ?r = "dma_channel_attach sample_os (\<lambda>_ _. 0) 0xfe007000 15 None False (Some 5) 0 0 \<lparr>now = 0, log = []\<rparr>"
  have "case fst ?r of Ok _ \<Rightarrow> True | Fail _ \<Rightarrow> False" by code_simp
  then show ?thesis by (cases ?r; cases "fst ?r") (simp_all add: sample_attached_def)
qed

theorem dma_attach_release_witness: "chan_idx sample_attached < 15 \<and> status sample_attached = 0"
proof -
  obtain h where at: "dma_channel_attach sample_os (\<lambda>_ _. 0) 0xfe007000 15 None False (Some 5) 0 0 \<lparr>now = 0, log = []\<rparr>
      = (Ok sample_attached, h)" using sample_attach by blast
  have ok: "rsrc_manager_ok sample_os" by (simp add: rsrc_manager_ok_def sample_os_def)
  from dma_attach_release [OF at ok] show ?thesis by simp
qed

section \<open>Users of the library\<close>

text \<open>
  The state between calls: the shared memory and the registers are mapped exactly while the
  process has users, and the process is counted in the shared memory exactly then; \<open>others\<close>
  is the count of the other processes.
\<close>

definition users_inv :: "u32 \<Rightarrow> dma_proc \<Rightarrow> bool" where
  "users_inv others p \<longleftrightarrow> 0 \<le> n_users_in_process p \<and> shmem_mapped p = (0 < n_users_in_process p)
     \<and> regs_mapped p = (0 < n_users_in_process p)
     \<and> process_cnt p = others + (if 0 < n_users_in_process p then 1 else 0)"

definition all_ok :: init_os where
  "all_ok = \<lparr>slog_ok = True, sync_ok = True, map_ok = True, sync_lock_ok = True, resources_ok = True\<rparr>"

text \<open>A call of \<open>dma_init\<close>, with what the system answers to its steps, or of \<open>dma_fini\<close>.\<close>

datatype user_call = Init init_os | Fini

fun user_calls :: "user_call list \<Rightarrow> dma_proc \<Rightarrow> dma_proc result" where
  "user_calls [] p = Inr p"
| "user_calls (Init os # cs) p = bind_result (dma_init os p) (\<lambda>(_, _, p). user_calls cs p)"
| "user_calls (Fini # cs) p = bind_result (dma_fini p) (user_calls cs)"

fun balance :: "user_call list \<Rightarrow> int" where
  "balance [] = 0"
| "balance (Init _ # cs) = 1 + balance cs"
| "balance (Fini # cs) = balance cs - 1"

fun never_below :: "int \<Rightarrow> user_call list \<Rightarrow> bool" where
  "never_below n [] = (0 \<le> n)"
| "never_below n (Init _ # cs) = never_below (n + 1) cs"
| "never_below n (Fini # cs) = (0 < n \<and> never_below (n - 1) cs)"

text \<open>The steps of every \<open>dma_init\<close> that is made while the process has no users succeed; \<open>n\<close> is the number of users.\<close>

fun opens_succeed :: "int \<Rightarrow> user_call list \<Rightarrow> bool" where
  "opens_succeed n [] = True"
| "opens_succeed n (Init os # cs) = ((n = 0 \<longrightarrow> os = all_ok) \<and> opens_succeed (n + 1) cs)"
| "opens_succeed n (Fini # cs) = opens_succeed (n - 1) cs"

lemma init_os_ok: "os = all_ok \<longleftrightarrow> slog_ok os \<and> sync_ok os \<and> map_ok os \<and> sync_lock_ok os \<and> resources_ok os"
  by (cases os) (simp add: all_ok_def)

lemma dma_init_inv:
  assumes "users_inv others p"
  shows "n_users_in_process p = 0 \<longrightarrow> os = all_ok \<Longrightarrow>
      \<exists>first p'. dma_init os p = Inr (True, first, p') \<and> users_inv others p' \<and> n_users_in_process p' = n_users_in_process p + 1"
    and "n_users_in_process p = 0 \<Longrightarrow> os \<noteq> all_ok \<Longrightarrow> dma_init os p = Inl Null_dereference"
  using assms by (auto simp: dma_init_def users_inv_def init_os_ok sync_init_def drop_user_def cleanup_resources_def sync_dinit_def Let_def)

lemma dma_fini_inv:
  assumes "users_inv others p" and "0 < n_users_in_process p"
  shows "\<exists>p'. dma_fini p = Inr p' \<and> users_inv others p' \<and> n_users_in_process p' = n_users_in_process p - 1"
  using assms by (auto simp: dma_fini_def drop_user_def users_inv_def cleanup_resources_def sync_dinit_def Let_def)

text \<open>C16: A sequence of \<open>dma_init\<close> and \<open>dma_fini\<close> calls with at least as many initialisations as releases at every point, whatever the
  system answers to the steps of each: when the steps of every \<open>dma_init\<close> made without users succeed, it runs without touching unmapped
  memory and keeps the bookkeeping exact, the shared memory and the registers mapped and the process counted once in the shared counter
  exactly while there are users left; the first such \<open>dma_init\<close> with a failing step uses the unmapped shared memory.\<close>

theorem dma_users_balanced:
  assumes "users_inv others p" and "never_below (n_users_in_process p) cs"
  shows "if opens_succeed (n_users_in_process p) cs
    then \<exists>p'. user_calls cs p = Inr p' \<and> users_inv others p' \<and> n_users_in_process p' = n_users_in_process p + balance cs
    else user_calls cs p = Inl Null_dereference"
  using assms
proof (induction cs arbitrary: p)
  case (Cons c cs)
  show ?case
  proof (cases c)
    case (Init os)
    show ?thesis
    proof (cases "n_users_in_process p = 0 \<and> os \<noteq> all_ok")
      case True
      then show ?thesis using dma_init_inv(2) [OF Cons.prems(1)] Init by simp
    next
      case False
      then obtain f p1 where "dma_init os p = Inr (True, f, p1)" "users_inv others p1"
        "n_users_in_process p1 = n_users_in_process p + 1" using dma_init_inv(1) [OF Cons.prems(1)] by blast
      then show ?thesis using Cons.IH [of p1] Cons.prems(2) Init False by (auto split: if_splits)
    qed
  next
    case Fini
    from dma_fini_inv [OF Cons.prems(1)] Cons.prems(2) Fini obtain p1 where "dma_fini p = Inr p1" "users_inv others p1"
      "n_users_in_process p1 = n_users_in_process p - 1" by auto
    then show ?thesis using Cons.IH [of p1] Cons.prems(2) Fini by (auto split: if_splits)
  qed
qed simp

theorem dma_users_balanced_witness:
  "let p = \<lparr>n_users_in_process = 0, shmem_mapped = False, process_cnt = 3, regs_mapped = False\<rparr>
   in (\<exists>p'. user_calls [Init all_ok, Init (all_ok\<lparr>map_ok := False\<rparr>), Fini, Fini] p = Inr p' \<and> process_cnt p' = 3 \<and> \<not> shmem_mapped p')
     \<and> user_calls [Init all_ok, Fini, Init (all_ok\<lparr>map_ok := False\<rparr>), Fini] p = Inl Null_dereference"
proof -
  let ?p = "\<lparr>n_users_in_process = 0, shmem_mapped = False, process_cnt = 3, regs_mapped = False\<rparr>"
  have "users_inv 3 ?p" by (simp add: users_inv_def)
  note run = dma_users_balanced [OF this]
  show ?thesis using run [of "[Init all_ok, Init (all_ok\<lparr>map_ok := False\<rparr>), Fini, Fini]"]
      run [of "[Init all_ok, Fini, Init (all_ok\<lparr>map_ok := False\<rparr>), Fini]"]
    by (auto simp: users_inv_def Let_def all_ok_def)
qed

end
