(* ===== verification/Sdio_Consts.thy ===== *)
theory Sdio_Consts
  imports Prelude
begin

text \<open>
  The constants of the SD/MMC driver (\<open>devb/sdmmc/sdiodi\<close>) the model uses: capability and flag
  bits, field indices of the EXT\_CSD register, commands and rates.
\<close>

text \<open>\<open>sdiodi.h\<close> and \<open>internal.h\<close>\<close>

definition SDIO_DFLT_BLKSZ :: u32 where "SDIO_DFLT_BLKSZ = 512"
definition SDIO_BLKSZ_512 :: u32 where "SDIO_BLKSZ_512 = 512"
definition SDIO_BLKSZ_4K :: u32 where "SDIO_BLKSZ_4K = 4096"
definition CSD_VER_20_CSIZE_MAX :: u32 where "CSD_VER_20_CSIZE_MAX = 0x3fffff"
definition DEV_CAP_HC :: u64 where "DEV_CAP_HC = push_bit 0 1"
definition DEV_CAP_HS :: u64 where "DEV_CAP_HS = push_bit 1 1"
definition DEV_CAP_HS200 :: u64 where "DEV_CAP_HS200 = push_bit 2 1"
definition DEV_CAP_DDR50 :: u64 where "DEV_CAP_DDR50 = push_bit 3 1"
definition DEV_CAP_UHS :: u64 where "DEV_CAP_UHS = push_bit 4 1"
definition DEV_CAP_TRIM :: u64 where "DEV_CAP_TRIM = push_bit 5 1"
definition DEV_CAP_SECURE :: u64 where "DEV_CAP_SECURE = push_bit 6 1"
definition DEV_CAP_SANITIZE :: u64 where "DEV_CAP_SANITIZE = push_bit 7 1"
definition DEV_CAP_BKOPS :: u64 where "DEV_CAP_BKOPS = push_bit 8 1"
definition DEV_CAP_CMD23 :: u64 where "DEV_CAP_CMD23 = push_bit 9 1"
definition DEV_CAP_SLEEP :: u64 where "DEV_CAP_SLEEP = push_bit 10 1"
definition DEV_CAP_ASSD :: u64 where "DEV_CAP_ASSD = push_bit 11 1"
definition DEV_CAP_HPI_CMD12 :: u64 where "DEV_CAP_HPI_CMD12 = push_bit 12 1"
definition DEV_CAP_DISCARD :: u64 where "DEV_CAP_DISCARD = push_bit 14 1"
definition DEV_CAP_CACHE :: u64 where "DEV_CAP_CACHE = push_bit 15 1"
definition DEV_CAP_HS400 :: u64 where "DEV_CAP_HS400 = push_bit 16 1"
definition DEV_CAP_PWROFF_NOTIFY :: u64 where "DEV_CAP_PWROFF_NOTIFY = push_bit 17 1"
definition DEV_CAP_HS400ES :: u64 where "DEV_CAP_HS400ES = push_bit 18 1"
definition DEV_CAP_BKOPS_AUTO :: u64 where "DEV_CAP_BKOPS_AUTO = push_bit 19 1"
definition DEV_CAP_UC :: u64 where "DEV_CAP_UC = push_bit 20 1"
definition DEV_CAP_WR_REL :: u64 where "DEV_CAP_WR_REL = push_bit 21 1"
definition DEV_CAP_WR_REL_ENH :: u64 where "DEV_CAP_WR_REL_ENH = push_bit 22 1"
definition HC_CAP_SLOT_TYPE_EMBEDDED :: u64 where "HC_CAP_SLOT_TYPE_EMBEDDED = push_bit 0 1"
definition HC_CAP_DMA :: u64 where "HC_CAP_DMA = push_bit 2 1"
definition HC_CAP_ACMD12 :: u64 where "HC_CAP_ACMD12 = push_bit 6 1"
definition HC_CAP_ACMD23 :: u64 where "HC_CAP_ACMD23 = push_bit 7 1"
definition HC_CAP_HS :: u64 where "HC_CAP_HS = push_bit 9 1"
definition HC_CAP_DDR50 :: u64 where "HC_CAP_DDR50 = push_bit 14 1"
definition HC_CAP_HS200 :: u64 where "HC_CAP_HS200 = push_bit 15 1"
definition HC_CAP_HS400 :: u64 where "HC_CAP_HS400 = push_bit 16 1"
definition HC_CAP_SV_1_2V :: u64 where "HC_CAP_SV_1_2V = push_bit 28 1"
definition HC_CAP_SV_1_8V :: u64 where "HC_CAP_SV_1_8V = push_bit 29 1"
definition HC_CAP_SV_3_0V :: u64 where "HC_CAP_SV_3_0V = push_bit 30 1"
definition HC_CAP_HS400ES :: u64 where "HC_CAP_HS400ES = push_bit 34 1"
definition DTR_MAX_HS400 :: u32 where "DTR_MAX_HS400 = 200000000"
definition DTR_MAX_HS200 :: u32 where "DTR_MAX_HS200 = 200000000"
definition DTR_MAX_HS52 :: u32 where "DTR_MAX_HS52 = 52000000"
definition DTR_MAX_HS26 :: u32 where "DTR_MAX_HS26 = 26000000"
definition DEV_FLAG_BKOPS :: u32 where "DEV_FLAG_BKOPS = 0x1000"
definition SDIO_CMD_RETRIES :: nat where "SDIO_CMD_RETRIES = 3"
definition SCF_CTYPE_BC :: u32 where "SCF_CTYPE_BC = push_bit 0 1"
definition SCF_CTYPE_BCR :: u32 where "SCF_CTYPE_BCR = push_bit 1 1"
definition SCF_CTYPE_AC :: u32 where "SCF_CTYPE_AC = push_bit 2 1"
definition SCF_CTYPE_ADTC :: u32 where "SCF_CTYPE_ADTC = push_bit 3 1"
definition SCF_RSP_PRESENT :: u32 where "SCF_RSP_PRESENT = push_bit 4 1"
definition SCF_RSP_136 :: u32 where "SCF_RSP_136 = push_bit 5 1"
definition SCF_RSP_CRC :: u32 where "SCF_RSP_CRC = push_bit 6 1"
definition SCF_RSP_BUSY :: u32 where "SCF_RSP_BUSY = push_bit 7 1"
definition SCF_RSP_OPCODE :: u32 where "SCF_RSP_OPCODE = push_bit 8 1"
definition SCF_RSP_NONE :: u32 where "SCF_RSP_NONE = 0"
definition SCF_RSP_R1 :: u32 where "SCF_RSP_R1 = SCF_RSP_PRESENT OR SCF_RSP_CRC OR SCF_RSP_OPCODE"
definition SCF_RSP_R1B :: u32 where "SCF_RSP_R1B = SCF_RSP_PRESENT OR SCF_RSP_CRC OR SCF_RSP_OPCODE OR SCF_RSP_BUSY"
definition SCF_RSP_R2 :: u32 where "SCF_RSP_R2 = SCF_RSP_PRESENT OR SCF_RSP_136 OR SCF_RSP_CRC"
definition SCF_DIR_IN :: u32 where "SCF_DIR_IN = push_bit 9 1"
definition SCF_DIR_OUT :: u32 where "SCF_DIR_OUT = push_bit 10 1"
definition SCF_DATA_MSK :: u32 where "SCF_DATA_MSK = SCF_DIR_IN OR SCF_DIR_OUT"
definition SCF_APP_CMD :: u32 where "SCF_APP_CMD = push_bit 11 1"
definition SCF_SBC :: u32 where "SCF_SBC = push_bit 12 1"
definition SCF_WAIT_DRDY :: u32 where "SCF_WAIT_DRDY = push_bit 13 1"
definition SCF_SBC_RLW :: u32 where "SCF_SBC_RLW = push_bit 14 1"
definition HC_CAP_BSY :: u64 where "HC_CAP_BSY = push_bit 33 1"
definition DEV_FLAG_PRESENT :: u32 where "DEV_FLAG_PRESENT = 0x001"
definition DEV_FLAG_LOCKED :: u32 where "DEV_FLAG_LOCKED = 0x002"
definition DEV_FLAG_HS200 :: u32 where "DEV_FLAG_HS200 = 0x100"
definition DEV_FLAG_HS400 :: u32 where "DEV_FLAG_HS400 = 0x200"
definition DEV_FLAG_DDR :: u32 where "DEV_FLAG_DDR = 0x400"
definition DEV_FLAG_UHS :: u32 where "DEV_FLAG_UHS = 0x800"
definition DEV_FLAG_WCE :: u32 where "DEV_FLAG_WCE = 0x8000"
definition DEV_FLAG_HS400ES :: u32 where "DEV_FLAG_HS400ES = 0x10000"
definition HC_FLAG_RST :: u32 where "HC_FLAG_RST = push_bit 2 1"
definition HC_FLAG_TUNE :: u32 where "HC_FLAG_TUNE = push_bit 3 1"
definition SDIO_CACHE_DISABLE :: u32 where "SDIO_CACHE_DISABLE = 0"
definition SDIO_CACHE_ENABLE :: u32 where "SDIO_CACHE_ENABLE = 1"
definition SDIO_CACHE_FLUSH :: u32 where "SDIO_CACHE_FLUSH = 2"
definition SDIO_TIME_DEFAULT :: u32 where "SDIO_TIME_DEFAULT = 1000"
definition CCC_APP_SPEC :: u16 where "CCC_APP_SPEC = push_bit 8 1"
definition CCC_SWITCH :: u16 where "CCC_SWITCH = push_bit 10 1"

text \<open>\<open>mmc.h\<close>: indices into the EXT\_CSD register are natural numbers.\<close>

definition MMC_ERASE_TIMEOUT :: u32 where "MMC_ERASE_TIMEOUT = 300"
definition MMC_ERASE_TIMEOUT_MIN :: u64 where "MMC_ERASE_TIMEOUT_MIN = 2000"
definition MMC_ERASE_GRP_512K :: u64 where "MMC_ERASE_GRP_512K = 0x80000"
definition MMC_TAG_ERASE_GROUP_START :: u32 where "MMC_TAG_ERASE_GROUP_START = 35"
definition MMC_TAG_ERASE_GROUP_END :: u32 where "MMC_TAG_ERASE_GROUP_END = 36"
definition MMC_ERASE :: u32 where "MMC_ERASE = 38"
definition MMC_ERASE_SECURE_TRIM_PURGE :: u32 where "MMC_ERASE_SECURE_TRIM_PURGE = 0x80008000"
definition MMC_ERASE_SECURE_TRIM :: u32 where "MMC_ERASE_SECURE_TRIM = 0x80000001"
definition MMC_ERASE_SECURE :: u32 where "MMC_ERASE_SECURE = 0x80000000"
definition MMC_ERASE_DISCARD :: u32 where "MMC_ERASE_DISCARD = 3"
definition MMC_ERASE_TRIM :: u32 where "MMC_ERASE_TRIM = 1"
definition MMC_ERASE_NORM :: u32 where "MMC_ERASE_NORM = 0"
definition MMC_SWITCH :: u32 where "MMC_SWITCH = 6"
definition MMC_SWITCH_MODE_WRITE :: u32 where "MMC_SWITCH_MODE_WRITE = 0x3"
definition MMC_SWITCH_CMDSET_DFLT :: u32 where "MMC_SWITCH_CMDSET_DFLT = 0x1"
definition MMC_SEND_STATUS :: u32 where "MMC_SEND_STATUS = 13"
definition MMC_PARTITION_SWITCH_TIMEOUT :: u32 where "MMC_PARTITION_SWITCH_TIMEOUT = 10"
definition CDS_READY_FOR_DATA :: u32 where "CDS_READY_FOR_DATA = push_bit 8 1"
definition CDS_CUR_STATE_MSK :: u32 where "CDS_CUR_STATE_MSK = push_bit 9 0xf"
definition CDS_CUR_STATE_TRAN :: u32 where "CDS_CUR_STATE_TRAN = push_bit 9 4"
definition CDS_ERROR_MSK :: u32 where
  "CDS_ERROR_MSK = push_bit 31 1 OR push_bit 30 1 OR push_bit 29 1 OR push_bit 28 1 OR push_bit 27 1 OR push_bit 26 1
     OR push_bit 25 1 OR push_bit 24 1 OR push_bit 23 1 OR push_bit 22 1 OR push_bit 21 1 OR push_bit 20 1
     OR push_bit 19 1 OR push_bit 7 1 OR push_bit 16 1"
definition MMC_GO_IDLE_STATE :: u32 where "MMC_GO_IDLE_STATE = 0"
definition MMC_ALL_SEND_CID :: u32 where "MMC_ALL_SEND_CID = 2"
definition MMC_SLEEP_AWAKE :: u32 where "MMC_SLEEP_AWAKE = 5"
definition MMC_SA_SLEEP :: u32 where "MMC_SA_SLEEP = push_bit 15 1"
definition MMC_SEL_DES_CARD :: u32 where "MMC_SEL_DES_CARD = 7"
definition MMC_SEND_CSD :: u32 where "MMC_SEND_CSD = 9"
definition MMC_STOP_TRANSMISSION :: u32 where "MMC_STOP_TRANSMISSION = 12"
definition MMC_STOP_TRANSMISSION_HPI :: u32 where "MMC_STOP_TRANSMISSION_HPI = push_bit 0 1"
definition MMC_SEND_STATUS_HPI :: u32 where "MMC_SEND_STATUS_HPI = push_bit 0 1"
definition MMC_SET_BLOCKLEN :: u32 where "MMC_SET_BLOCKLEN = 16"
definition MMC_SET_BLOCK_COUNT :: u32 where "MMC_SET_BLOCK_COUNT = 23"
definition SBC_RL_WRITE :: u32 where "SBC_RL_WRITE = push_bit 31 1"
definition CDS_CARD_IS_LOCKED :: u32 where "CDS_CARD_IS_LOCKED = push_bit 25 1"
definition CDS_ILLEGAL_COMMAND :: u32 where "CDS_ILLEGAL_COMMAND = push_bit 22 1"
definition ECSD_FLUSH_CACHE :: nat where "ECSD_FLUSH_CACHE = 32"
definition ECSD_FLUSH_TRIGGER :: u32 where "ECSD_FLUSH_TRIGGER = 0x01"
definition ECSD_CACHE_CTRL :: nat where "ECSD_CACHE_CTRL = 33"
definition ECSD_CACHE_CTRL_EN :: u32 where "ECSD_CACHE_CTRL_EN = 0x01"
definition ECSD_CACHE_CTRL_DIS :: u32 where "ECSD_CACHE_CTRL_DIS = 0x00"
definition ECSD_POWER_OFF_NOTIFICATION :: nat where "ECSD_POWER_OFF_NOTIFICATION = 34"
definition MDT_YEAR_1997 :: u32 where "MDT_YEAR_1997 = 1997"
definition MDT_YEAR_2010 :: u32 where "MDT_YEAR_2010 = 2010"
definition MDT_YEAR_2013 :: u32 where "MDT_YEAR_2013 = 2013"
definition ECSD_USE_NATIVE_SECTOR :: nat where "ECSD_USE_NATIVE_SECTOR = 62"
definition ECSD_USE_NATIVE_SECTOR_EN :: u8 where "ECSD_USE_NATIVE_SECTOR_EN = 0x01"
definition ECSD_NATIVE_SECTOR_SIZE :: nat where "ECSD_NATIVE_SECTOR_SIZE = 63"
definition ECSD_NATIVE_SECTOR_512 :: u8 where "ECSD_NATIVE_SECTOR_512 = 0x00"
definition ECSD_NATIVE_SECTOR_4K :: u8 where "ECSD_NATIVE_SECTOR_4K = 0x01"
definition ECSD_NATIVE_SECTOR_MSK :: u8 where "ECSD_NATIVE_SECTOR_MSK = 0x01"
definition ECSD_BKOPS_EN :: nat where "ECSD_BKOPS_EN = 163"
definition ECSD_BKOPS_ENABLE :: u8 where "ECSD_BKOPS_ENABLE = 1"
definition ECSD_WR_REL_PARAM :: nat where "ECSD_WR_REL_PARAM = 166"
definition ECSD_WRP_EN_REL_WR :: u8 where "ECSD_WRP_EN_REL_WR = 0x04"
definition ECSD_USER_WP :: nat where "ECSD_USER_WP = 171"
definition ECSD_ERASE_GRP_DEF :: nat where "ECSD_ERASE_GRP_DEF = 175"
definition ECSD_PART_CONFIG :: nat where "ECSD_PART_CONFIG = 179"
definition ECSD_PC_ACCESS_MSK :: u8 where "ECSD_PC_ACCESS_MSK = 0x7"
definition ECSD_STROBE_SUPPORT :: nat where "ECSD_STROBE_SUPPORT = 184"
definition ECSD_REV :: nat where "ECSD_REV = 192"
definition ECSD_REV_V5_1 :: u8 where "ECSD_REV_V5_1 = 8"
definition ECSD_REV_V4_5 :: u8 where "ECSD_REV_V4_5 = 6"
definition ECSD_REV_V4_41 :: u8 where "ECSD_REV_V4_41 = 5"
definition ECSD_REV_V4_4 :: u8 where "ECSD_REV_V4_4 = 4"
definition ECSD_REV_V4_3 :: u8 where "ECSD_REV_V4_3 = 3"
definition ECSD_REV_V4_2 :: u8 where "ECSD_REV_V4_2 = 2"
definition ECSD_CARD_TYPE :: nat where "ECSD_CARD_TYPE = 196"
definition ECSD_CARD_TYPE_HS400_1_2V :: u8 where "ECSD_CARD_TYPE_HS400_1_2V = push_bit 7 1"
definition ECSD_CARD_TYPE_HS400_1_8V :: u8 where "ECSD_CARD_TYPE_HS400_1_8V = push_bit 6 1"
definition ECSD_CARD_TYPE_HS200_1_2V :: u8 where "ECSD_CARD_TYPE_HS200_1_2V = push_bit 5 1"
definition ECSD_CARD_TYPE_HS200_1_8V :: u8 where "ECSD_CARD_TYPE_HS200_1_8V = push_bit 4 1"
definition ECSD_CARD_TYPE_DDR_1_2V :: u8 where "ECSD_CARD_TYPE_DDR_1_2V = push_bit 3 1"
definition ECSD_CARD_TYPE_DDR_1_8V :: u8 where "ECSD_CARD_TYPE_DDR_1_8V = push_bit 2 1"
definition ECSD_CARD_TYPE_52 :: u8 where "ECSD_CARD_TYPE_52 = push_bit 1 1"
definition ECSD_CARD_TYPE_DDR :: u8 where "ECSD_CARD_TYPE_DDR = ECSD_CARD_TYPE_DDR_1_8V OR ECSD_CARD_TYPE_DDR_1_2V"
definition ECSD_CARD_TYPE_HS400 :: u8 where
  "ECSD_CARD_TYPE_HS400 = ECSD_CARD_TYPE_HS400_1_8V OR ECSD_CARD_TYPE_HS400_1_2V"
definition ECSD_CARD_TYPE_HS200 :: u8 where
  "ECSD_CARD_TYPE_HS200 = ECSD_CARD_TYPE_HS200_1_8V OR ECSD_CARD_TYPE_HS200_1_2V"
definition ECSD_CARD_TYPE_52MHZ :: u8 where
  "ECSD_CARD_TYPE_52MHZ = ECSD_CARD_TYPE_DDR_1_8V OR ECSD_CARD_TYPE_DDR_1_2V OR ECSD_CARD_TYPE_52"
definition ECSD_CARD_TYPE_MSK :: u8 where "ECSD_CARD_TYPE_MSK = 0xff"
definition ECSD_DRIVER_STRENGTH :: nat where "ECSD_DRIVER_STRENGTH = 197"
definition ECSD_OUT_OF_INTERRUPT_TIME :: nat where "ECSD_OUT_OF_INTERRUPT_TIME = 198"
definition ECSD_PARTITION_SWITCH_TIME :: nat where "ECSD_PARTITION_SWITCH_TIME = 199"
definition ECSD_SEC_CNT :: nat where "ECSD_SEC_CNT = 212"
definition ECSD_SEC_CNT_2GB :: u32 where "ECSD_SEC_CNT_2GB = 0x400000"
definition ECSD_S_A_TIMEOUT :: nat where "ECSD_S_A_TIMEOUT = 217"
definition ECSD_HC_WP_GRP_SIZE :: nat where "ECSD_HC_WP_GRP_SIZE = 221"
definition ECSD_REL_WR_SEC_C :: nat where "ECSD_REL_WR_SEC_C = 222"
definition ECSD_ERASE_MULT :: nat where "ECSD_ERASE_MULT = 223"
definition ECSD_ERASE_GRP_SIZE :: nat where "ECSD_ERASE_GRP_SIZE = 224"
definition ECSD_ACC_SIZE :: nat where "ECSD_ACC_SIZE = 225"
definition ECSD_SEC_TRIM_MULT :: nat where "ECSD_SEC_TRIM_MULT = 229"
definition ECSD_SEC_ERASE_MULT :: nat where "ECSD_SEC_ERASE_MULT = 230"
definition ECSD_SEC_FEATURE_SUPPORT :: nat where "ECSD_SEC_FEATURE_SUPPORT = 231"
definition ECSD_SEC_SANITIZE :: u8 where "ECSD_SEC_SANITIZE = 0x40"
definition ECSD_SEC_GB_CL_EN :: u8 where "ECSD_SEC_GB_CL_EN = 0x10"
definition ECSD_SEC_ER_EN :: u8 where "ECSD_SEC_ER_EN = 0x01"
definition ECSD_TRIM_MULT :: nat where "ECSD_TRIM_MULT = 232"
definition ECSD_CACHE_SIZE :: nat where "ECSD_CACHE_SIZE = 249"
definition ECSD_BKOPS_SUPPORTED :: nat where "ECSD_BKOPS_SUPPORTED = 502"
definition ECSD_BKOPS_SUP :: u8 where "ECSD_BKOPS_SUP = 1"
definition ECSD_HPI_FEATURES :: nat where "ECSD_HPI_FEATURES = 503"
definition EXT_HPI_FEATURES_SUP_CMD12 :: u8 where "EXT_HPI_FEATURES_SUP_CMD12 = 0x02"

text \<open>\<open>sd.h\<close>\<close>

definition SCR_CMD23_SUP :: u8 where "SCR_CMD23_SUP = push_bit 1 1"
definition SD_BUS_MODE_SDR50 :: u32 where "SD_BUS_MODE_SDR50 = push_bit 2 1"
definition SD_BUS_MODE_SDR104 :: u32 where "SD_BUS_MODE_SDR104 = push_bit 3 1"
definition SD_BUS_MODE_DDR50 :: u32 where "SD_BUS_MODE_DDR50 = push_bit 4 1"
definition SD_BUS_MODE_UHS :: u32 where
  "SD_BUS_MODE_UHS = SD_BUS_MODE_SDR50 OR SD_BUS_MODE_SDR104 OR SD_BUS_MODE_DDR50"
definition SD_BUS_MODE_MSK :: u8 where "SD_BUS_MODE_MSK = 0x1f"
definition SD_CMD_SYS_EC :: u8 where "SD_CMD_SYS_EC = push_bit 1 1"
definition SD_CMD_SYS_ASSD :: u8 where "SD_CMD_SYS_ASSD = push_bit 4 1"
definition SD_DRV_TYPE_MSK :: u8 where "SD_DRV_TYPE_MSK = 0x0f"
definition SD_CURR_LIMIT_MSK :: u8 where "SD_CURR_LIMIT_MSK = 0xf"
definition SD_ERASE_TIMEOUT :: u32 where "SD_ERASE_TIMEOUT = 250"
definition SD_ERASE_WR_BLK_START :: u32 where "SD_ERASE_WR_BLK_START = 32"
definition SD_ERASE_WR_BLK_END :: u32 where "SD_ERASE_WR_BLK_END = 33"
definition SD_ERASE :: u32 where "SD_ERASE = 38"
definition SD_APP_CMD :: u32 where "SD_APP_CMD = 55"

end
