(* ===== verification/Sdio_Card.thy ===== *)
theory Sdio_Card
  imports Sdio_Consts
begin

text \<open>
  Card identification of the SD/MMC driver (\<open>devb/sdmmc/sdiodi\<close>): the bit fields of the card
  registers (\<open>base.c\<close>), the CID, CSD and EXT\_CSD registers of MMC devices (\<open>mmc.c\<close>), the CID,
  CSD, SCR, status and switch registers of SD cards (\<open>sd.c\<close>), and the erase groups, timeouts and
  commands computed from them.  A register read from the card is an argument: a list of 32-bit
  words in the order of the response array, or a list of bytes.  What the card answers to the
  commands of an operation is the parameter \<open>rep\<close>.
\<close>

section \<open>Data\<close>

record sdio_cid =
  cid_mid :: u32
  cid_oid :: u32
  cid_pnm :: "u8 list"
  cid_prv :: u32
  cid_psn :: u32
  cid_month :: u32
  cid_year :: u32

text \<open>The fields of \<open>struct _sdio_csd\<close> that are set by the parsers.\<close>

record sdio_csd =
  csd_structure :: u8
  csd_spec_vers :: u8
  csd_taac :: u8
  csd_nsac :: u8
  csd_tran_speed :: u8
  csd_ccc :: u16
  csd_read_bl_len :: u8
  csd_read_bl_partial :: u8
  csd_write_blk_misalign :: u8
  csd_read_blk_misalign :: u8
  csd_dsr_imp :: u8
  csd_c_size :: u32
  csd_vdd_r_curr_min :: u8
  csd_vdd_r_curr_max :: u8
  csd_vdd_w_curr_min :: u8
  csd_vdd_w_curr_max :: u8
  csd_c_size_mult :: u8
  csd_erase_blk_en :: u8
  csd_erase_grp_size :: u8
  csd_erase_grp_mult :: u8
  csd_sector_size :: u8
  csd_wp_grp_size :: u8
  csd_wp_grp_enable :: u8
  csd_r2w_factor :: u8
  csd_write_bl_len :: u8
  csd_write_bl_partial :: u8
  csd_write_protect :: u8
  csd_dtr_max :: u32
  csd_blksz :: u32
  csd_sectors :: u64

definition zero_csd :: sdio_csd where
  "zero_csd = \<lparr>csd_structure = 0, csd_spec_vers = 0, csd_taac = 0, csd_nsac = 0, csd_tran_speed = 0, csd_ccc = 0,
     csd_read_bl_len = 0, csd_read_bl_partial = 0, csd_write_blk_misalign = 0, csd_read_blk_misalign = 0, csd_dsr_imp = 0,
     csd_c_size = 0, csd_vdd_r_curr_min = 0, csd_vdd_r_curr_max = 0, csd_vdd_w_curr_min = 0, csd_vdd_w_curr_max = 0,
     csd_c_size_mult = 0, csd_erase_blk_en = 0, csd_erase_grp_size = 0, csd_erase_grp_mult = 0, csd_sector_size = 0,
     csd_wp_grp_size = 0, csd_wp_grp_enable = 0, csd_r2w_factor = 0, csd_write_bl_len = 0, csd_write_bl_partial = 0,
     csd_write_protect = 0, csd_dtr_max = 0, csd_blksz = 0, csd_sectors = 0\<rparr>"

record sdio_ecsd =
  ecsd_blksz :: u32
  ecsd_sectors :: u32
  ecsd_acc_size :: u32
  ecsd_dtr_max_hs :: u32
  ecsd_s_a_timeout :: u32
  ecsd_ext_csd_rev :: u8
  ecsd_card_type :: u8
  ecsd_driver_strength :: u8
  ecsd_erase_grp_def :: u8
  ecsd_hc_erase_group_size :: u8
  ecsd_hc_wp_grp_size :: u8
  ecsd_user_wp :: u8
  ecsd_part_config :: u8
  ecsd_strobe :: u8
  ecsd_bkops_en :: u8

definition zero_ecsd :: sdio_ecsd where
  "zero_ecsd = \<lparr>ecsd_blksz = 0, ecsd_sectors = 0, ecsd_acc_size = 0, ecsd_dtr_max_hs = 0, ecsd_s_a_timeout = 0,
     ecsd_ext_csd_rev = 0, ecsd_card_type = 0, ecsd_driver_strength = 0, ecsd_erase_grp_def = 0,
     ecsd_hc_erase_group_size = 0, ecsd_hc_wp_grp_size = 0, ecsd_user_wp = 0, ecsd_part_config = 0,
     ecsd_strobe = 0, ecsd_bkops_en = 0\<rparr>"

record sd_scr =
  scr_structure :: u8
  scr_sd_spec :: u8
  scr_data_stat_after_erase :: u8
  scr_sd_security :: u8
  scr_sd_bus_widths :: u8
  scr_sd_spec3 :: u8
  scr_sd_spec4 :: u8
  scr_sd_specx :: u8
  scr_ex_security :: u8
  scr_cmd_support :: u8

record sd_sds =
  sds_speed_class :: u32
  sds_uhs_speed_grade :: u32
  sds_au_size :: u32
  sds_erase_timeout :: u32
  sds_erase_offset :: u32
  sds_perf_class :: u32
  sds_perf_enh :: u32

record sd_switch_cap =
  sw_dtr_max_hs :: u32
  sw_bus_mode :: u32
  sw_cmd_sys :: u32
  sw_drv_type :: u32
  sw_curr_limit :: u32

text \<open>The parts of \<open>struct _sdio_dev\<close> and of the host controller that identification reads and writes.\<close>

record sdio_dev =
  dev_flags :: u32
  dev_caps :: u64
  dev_pactive :: u32
  dev_rca :: u32
  dev_block_length :: u32
  dev_cid :: sdio_cid
  dev_csd :: sdio_csd
  dev_ecsd :: sdio_ecsd
  dev_scr :: sd_scr
  dev_sds :: sd_sds
  dev_swcaps :: sd_switch_cap
  dev_rel_wr_sec_c :: u32
  dev_raw_ecsd :: "u8 list"

record sdio_host =
  host_caps :: u64
  host_flags :: u32
  host_drv_type :: u32

section \<open>Bit fields\<close>

text \<open>
  \<open>data\<close> holds a register of \<open>bits\<close> bits, most significant word first.  \<open>start & 31\<close> of a
  non-negative \<open>int\<close> is the remainder.
\<close>

definition sdio_extract_bits :: "u32 list \<Rightarrow> nat \<Rightarrow> nat \<Rightarrow> nat \<Rightarrow> u32" where
  "sdio_extract_bits data bits start sz =
     (let idx = bits div 32 - start div 32 - 1;
          shift = start mod 32;
          v = drop_bit shift (data ! idx);
          v = (if sz + shift > 32 then v OR push_bit (32 - shift) (data ! (idx - 1)) else v)
      in ucast (ucast v AND (push_bit sz 1 - 1 :: u64)))"

definition extract8 :: "u32 list \<Rightarrow> nat \<Rightarrow> nat \<Rightarrow> u8" where
  "extract8 rsp start sz = ucast (sdio_extract_bits rsp 128 start sz)"

section \<open>MMC devices\<close>

text \<open>\<open>pnm\<close> has eight characters; those not written are zero.\<close>

definition product_name :: "u32 list \<Rightarrow> nat \<Rightarrow> u8 list" where
  "product_name rsp n = map (\<lambda>idx. extract8 rsp (96 - idx * 8) 8) [0 ..< n] @ replicate (8 - n) 0"

definition mmc_parse_cid :: "sdio_dev \<Rightarrow> u32 list \<Rightarrow> unit ret \<times> sdio_cid" where
  "mmc_parse_cid dev rsp =
     (let x = sdio_extract_bits rsp 128;
          z = \<lparr>cid_mid = 0, cid_oid = 0, cid_pnm = replicate 8 0, cid_prv = 0, cid_psn = 0, cid_month = 0, cid_year = 0\<rparr>;
          ver = csd_spec_vers (dev_csd dev) in
      if ver = 0 \<or> ver = 1 then
        (Ok (), z\<lparr>cid_mid := x 104 24, cid_pnm := product_name rsp 7, cid_prv := x 40 8, cid_month := x 12 4,
                  cid_year := x 8 4 + 1997\<rparr>)
      else if ver = 2 \<or> ver = 3 \<or> ver = 4 then
        (Ok (), z\<lparr>cid_mid := x 120 8, cid_oid := x 104 8, cid_pnm := product_name rsp 6, cid_prv := x 48 8,
                  cid_psn := x 16 32, cid_month := x 12 4, cid_year := x 8 4 + 1997\<rparr>)
      else (Fail EINVAL, z))"

definition tran_speed_fu :: "u32 list" where
  "tran_speed_fu = [10000, 100000, 1000000, 10000000, 0, 0, 0, 0]"

definition tran_speed_mf :: "u32 list" where
  "tran_speed_mf = [0, 10, 12, 13, 15, 20, 25, 30, 35, 40, 45, 50, 55, 60, 70, 80]"

definition tran_rate :: "u8 \<Rightarrow> u32" where
  "tran_rate t = tran_speed_fu ! unat (t AND 0x7) * tran_speed_mf ! unat (drop_bit 3 t AND 0xf)"

text \<open>The last part of both CSD parsers: the capacity in blocks of at most 512 bytes.\<close>

definition csd_capacity :: "u32 \<Rightarrow> u32 \<Rightarrow> u32 \<Rightarrow> sdio_csd \<Rightarrow> sdio_csd" where
  "csd_capacity blksz csize csizem csd =
     (let (csize, blksz) = (if blksz > SDIO_DFLT_BLKSZ \<and> blksz mod SDIO_DFLT_BLKSZ = 0
                            then (csize * (blksz div SDIO_DFLT_BLKSZ), SDIO_DFLT_BLKSZ) else (csize, blksz))
      in csd\<lparr>csd_blksz := blksz, csd_sectors := ucast (csize * csizem), csd_dtr_max := tran_rate (csd_tran_speed csd)\<rparr>)"

definition mmc_csd_fields :: "u32 list \<Rightarrow> sdio_csd" where
  "mmc_csd_fields rsp =
     (let x = extract8 rsp;
          csd = zero_csd\<lparr>csd_structure := x 126 2, csd_spec_vers := x 122 4, csd_taac := x 112 8, csd_nsac := x 104 8,
            csd_tran_speed := x 96 8, csd_ccc := ucast (sdio_extract_bits rsp 128 84 12), csd_read_bl_len := x 80 4,
            csd_read_bl_partial := x 79 1, csd_write_blk_misalign := x 78 1, csd_read_blk_misalign := x 77 1,
            csd_dsr_imp := x 76 1, csd_c_size := sdio_extract_bits rsp 128 62 12, csd_vdd_r_curr_min := x 59 3,
            csd_vdd_r_curr_max := x 56 3, csd_vdd_w_curr_min := x 53 3, csd_vdd_w_curr_max := x 50 3,
            csd_c_size_mult := x 47 3\<rparr>;
          st = csd_structure csd;
          csd = (if st = 0 \<or> st = 1 then
                   csd\<lparr>csd_erase_grp_mult := 1, csd_sector_size := x 42 5, csd_erase_grp_size := x 37 5\<rparr>
                 else if st = 2 \<or> st = 3 then csd\<lparr>csd_erase_grp_mult := x 37 5, csd_erase_grp_size := x 42 5\<rparr>
                 else csd)
      in csd\<lparr>csd_wp_grp_size := x 32 5, csd_wp_grp_enable := x 31 1, csd_r2w_factor := x 26 3,
            csd_write_bl_len := x 22 4, csd_write_bl_partial := x 21 1, csd_write_protect := x 12 2\<rparr>)"

definition mmc_parse_csd :: "u32 list \<Rightarrow> sdio_csd" where
  "mmc_parse_csd rsp =
     (let csd = mmc_csd_fields rsp
      in csd_capacity (push_bit (unat (csd_read_bl_len csd)) 1) (csd_c_size csd + 1)
           (push_bit (unat (csd_c_size_mult csd) + 2) 1) csd)"

text \<open>
  The EXT\_CSD parser, one definition per revision block.  A shift of the \<open>int\<close> constant 1 by 31
  or more places is undefined in C, and so is the product \<open>512 * (1 << n)\<close> in \<open>int\<close> for \<open>n\<close> from 22 on.
\<close>

definition add_caps :: "bool \<Rightarrow> u64 \<Rightarrow> sdio_dev \<Rightarrow> sdio_dev" where
  "add_caps b c dev = dev\<lparr>dev_caps := dev_caps dev OR flag_if b c\<rparr>"

definition set_ecsd :: "(sdio_ecsd \<Rightarrow> sdio_ecsd) \<Rightarrow> sdio_dev \<Rightarrow> sdio_dev" where
  "set_ecsd f dev = dev\<lparr>dev_ecsd := f (dev_ecsd dev)\<rparr>"

definition ecsd_sec_cnt :: "u8 list \<Rightarrow> u32" where
  "ecsd_sec_cnt raw = push_bit 0 (ucast (raw ! (ECSD_SEC_CNT + 0))) OR push_bit 8 (ucast (raw ! (ECSD_SEC_CNT + 1)))
     OR push_bit 16 (ucast (raw ! (ECSD_SEC_CNT + 2))) OR push_bit 24 (ucast (raw ! (ECSD_SEC_CNT + 3)))"

definition ecsd_v4_2 :: "u8 list \<Rightarrow> sdio_dev \<Rightarrow> sdio_dev" where
  "ecsd_v4_2 raw dev =
     add_caps (ecsd_sec_cnt raw > ECSD_SEC_CNT_2GB) DEV_CAP_HC (set_ecsd (\<lambda>e. e\<lparr>ecsd_sectors := ecsd_sec_cnt raw\<rparr>) dev)"

definition ecsd_v4_3 :: "u8 list \<Rightarrow> sdio_dev \<Rightarrow> sdio_dev result" where
  "ecsd_v4_3 raw dev =
     (let pc = raw ! ECSD_PART_CONFIG AND ECSD_PC_ACCESS_MSK;
          dev = set_ecsd (\<lambda>e. e\<lparr>ecsd_part_config := pc\<rparr>) (dev\<lparr>dev_pactive := ucast pc\<rparr>);
          acc = unat (raw ! ECSD_ACC_SIZE) in
      if acc - 1 \<ge> 22 then Inl Undefined_shift
      else
        let dev = (if acc \<noteq> 0 then set_ecsd (\<lambda>e. e\<lparr>ecsd_acc_size := 512 * push_bit (acc - 1) 1\<rparr>) dev else dev);
            dev = dev\<lparr>dev_rel_wr_sec_c := ucast (raw ! ECSD_REL_WR_SEC_C)\<rparr>;
            rel = has (raw ! ECSD_WR_REL_PARAM) ECSD_WRP_EN_REL_WR;
            dev = add_caps rel (DEV_CAP_WR_REL OR DEV_CAP_WR_REL_ENH) dev;
            dev = add_caps True DEV_CAP_SLEEP dev;
            sa = raw ! ECSD_S_A_TIMEOUT
        in Inr (if sa \<noteq> 0 \<and> sa \<le> 0x17 then set_ecsd (\<lambda>e. e\<lparr>ecsd_s_a_timeout := push_bit (unat sa) 1\<rparr>) dev else dev))"

definition ecsd_v4_4 :: "u8 list \<Rightarrow> sdio_dev \<Rightarrow> sdio_dev" where
  "ecsd_v4_4 raw dev =
     add_caps (has (raw ! ECSD_SEC_FEATURE_SUPPORT) ECSD_SEC_ER_EN) DEV_CAP_SECURE
       (add_caps (has (raw ! ECSD_SEC_FEATURE_SUPPORT) ECSD_SEC_GB_CL_EN) DEV_CAP_TRIM dev)"

definition ecsd_v4_41 :: "u8 list \<Rightarrow> sdio_dev \<Rightarrow> sdio_dev" where
  "ecsd_v4_41 raw dev =
     (let dev = (if has (raw ! ECSD_BKOPS_SUPPORTED) ECSD_BKOPS_SUP then
                   let dev = set_ecsd (\<lambda>e. e\<lparr>ecsd_bkops_en := raw ! ECSD_BKOPS_EN\<rparr>) (add_caps True DEV_CAP_BKOPS dev)
                   in dev\<lparr>dev_flags := dev_flags dev OR flag_if (has (raw ! ECSD_BKOPS_EN) ECSD_BKOPS_ENABLE) DEV_FLAG_BKOPS\<rparr>
                 else dev);
          dev = add_caps (has (raw ! ECSD_HPI_FEATURES) EXT_HPI_FEATURES_SUP_CMD12) DEV_CAP_HPI_CMD12 dev;
          year = cid_year (dev_cid dev)
      in if year < MDT_YEAR_2010 then dev\<lparr>dev_cid := (dev_cid dev)\<lparr>cid_year := year + (MDT_YEAR_2013 - MDT_YEAR_1997)\<rparr>\<rparr>
         else dev)"

definition ecsd_v4_5 :: "u8 list \<Rightarrow> sdio_host \<Rightarrow> sdio_dev \<Rightarrow> (unit ret \<times> sdio_host \<times> sdio_dev) result" where
  "ecsd_v4_5 raw hc dev =
     (let native = has (raw ! ECSD_USE_NATIVE_SECTOR) ECSD_USE_NATIVE_SECTOR_EN;
          nsz = raw ! ECSD_NATIVE_SECTOR_SIZE AND ECSD_NATIVE_SECTOR_MSK in
      if native \<and> nsz \<noteq> ECSD_NATIVE_SECTOR_512 \<and> nsz \<noteq> ECSD_NATIVE_SECTOR_4K then Inr (Fail EINVAL, hc, dev)
      else
        let dev = (if native then set_ecsd (\<lambda>e. e\<lparr>ecsd_blksz := (if nsz = ECSD_NATIVE_SECTOR_512 then SDIO_BLKSZ_512
                                                                   else SDIO_BLKSZ_4K)\<rparr>) dev else dev);
            cache = raw ! (ECSD_CACHE_SIZE + 0) \<noteq> 0 \<or> raw ! (ECSD_CACHE_SIZE + 1) \<noteq> 0
                    \<or> raw ! (ECSD_CACHE_SIZE + 2) \<noteq> 0 \<or> raw ! (ECSD_CACHE_SIZE + 3) \<noteq> 0;
            dev = add_caps cache DEV_CAP_CACHE dev;
            ds = raw ! ECSD_DRIVER_STRENGTH;
            dev = set_ecsd (\<lambda>e. e\<lparr>ecsd_driver_strength := ds\<rparr>) dev in
        if unat (host_drv_type hc) \<ge> 31 then Inl Undefined_shift
        else
          let hc = (if has (ucast ds) (push_bit (unat (host_drv_type hc)) 1 :: u32) then hc else hc\<lparr>host_drv_type := 0\<rparr>);
              dev = add_caps (has (raw ! ECSD_SEC_FEATURE_SUPPORT) ECSD_SEC_SANITIZE) DEV_CAP_SANITIZE dev;
              dev = add_caps True (DEV_CAP_DISCARD OR DEV_CAP_PWROFF_NOTIFY) dev
          in Inr (Ok (), hc, dev))"

definition ecsd_v5_1 :: "u8 list \<Rightarrow> sdio_host \<Rightarrow> sdio_dev \<Rightarrow> sdio_dev" where
  "ecsd_v5_1 raw hc dev =
     (let strobe = raw ! ECSD_STROBE_SUPPORT;
          dev = set_ecsd (\<lambda>e. e\<lparr>ecsd_strobe := strobe\<rparr>) dev;
          dev = add_caps (has (host_caps hc) HC_CAP_HS400ES \<and> strobe \<noteq> 0) DEV_CAP_HS400ES dev
      in add_caps (has (dev_caps dev) DEV_CAP_BKOPS) DEV_CAP_BKOPS_AUTO dev)"

text \<open>The choice of the bus speed from what the host and the card support.\<close>

definition volt_ok :: "sdio_host \<Rightarrow> u64 \<Rightarrow> u8 \<Rightarrow> u8 \<Rightarrow> u8 \<Rightarrow> bool" where
  "volt_ok hc v18 ty t18 t12 \<longleftrightarrow>
     has (host_caps hc) v18 \<and> has ty t18 \<or> has (host_caps hc) HC_CAP_SV_1_2V \<and> has ty t12"

definition ecsd_speed :: "u8 list \<Rightarrow> sdio_host \<Rightarrow> sdio_dev \<Rightarrow> sdio_dev" where
  "ecsd_speed raw hc dev =
     (let ty = raw ! ECSD_CARD_TYPE AND ECSD_CARD_TYPE_MSK;
          dev = set_ecsd (\<lambda>e. e\<lparr>ecsd_card_type := ty\<rparr>) dev;
          rate = (\<lambda>b r dev. if b then set_ecsd (\<lambda>e. e\<lparr>ecsd_dtr_max_hs := r\<rparr>) dev else dev);
          hs400 = has (host_caps hc) (HC_CAP_HS400 OR HC_CAP_HS400ES) \<and> has ty ECSD_CARD_TYPE_HS400
                  \<and> volt_ok hc HC_CAP_SV_1_8V ty ECSD_CARD_TYPE_HS400_1_8V ECSD_CARD_TYPE_HS400_1_2V;
          dev = rate hs400 DTR_MAX_HS400 (add_caps hs400 (DEV_CAP_HS400 OR DEV_CAP_HS) dev);
          hs200 = has (host_caps hc) HC_CAP_HS200 \<and> has ty ECSD_CARD_TYPE_HS200
                  \<and> volt_ok hc HC_CAP_SV_1_8V ty ECSD_CARD_TYPE_HS200_1_8V ECSD_CARD_TYPE_HS200_1_2V;
          dev = rate hs200 DTR_MAX_HS200 (add_caps hs200 (DEV_CAP_HS200 OR DEV_CAP_HS) dev);
          hs = \<not> has (dev_caps dev) DEV_CAP_HS \<and> has (host_caps hc) HC_CAP_HS \<and> has ty ECSD_CARD_TYPE_52MHZ;
          dev = rate hs DTR_MAX_HS52 (add_caps hs DEV_CAP_HS dev);
          dev = rate (\<not> has (dev_caps dev) DEV_CAP_HS) DTR_MAX_HS26 dev;
          ddr = has (host_caps hc) HC_CAP_DDR50 \<and> has ty ECSD_CARD_TYPE_DDR
                \<and> volt_ok hc (HC_CAP_SV_3_0V OR HC_CAP_SV_1_8V) ty ECSD_CARD_TYPE_DDR_1_8V ECSD_CARD_TYPE_DDR_1_2V
      in add_caps ddr DEV_CAP_DDR50 dev)"

definition ecsd_defaults :: "u8 list \<Rightarrow> u8 list" where
  "ecsd_defaults raw =
     (let raw = (if raw ! ECSD_PARTITION_SWITCH_TIME = 0 then raw[ECSD_PARTITION_SWITCH_TIME := 100] else raw)
      in if raw ! ECSD_OUT_OF_INTERRUPT_TIME = 0 then raw[ECSD_OUT_OF_INTERRUPT_TIME := 100] else raw)"

text \<open>The revisions before 4.5, and what follows the revision blocks.\<close>

definition ecsd_upto_4_41 :: "u8 list \<Rightarrow> sdio_dev \<Rightarrow> sdio_dev result" where
  "ecsd_upto_4_41 raw dev =
     (let rev = raw ! ECSD_REV;
          dev = (if rev \<ge> ECSD_REV_V4_2 then ecsd_v4_2 raw dev else dev) in
      bind_result (if rev \<ge> ECSD_REV_V4_3 then ecsd_v4_3 raw dev else Inr dev) (\<lambda>dev.
        let dev = (if rev \<ge> ECSD_REV_V4_4 then ecsd_v4_4 raw dev else dev)
        in Inr (if rev \<ge> ECSD_REV_V4_41 then ecsd_v4_41 raw dev else dev)))"

definition ecsd_tail :: "u8 list \<Rightarrow> sdio_dev \<Rightarrow> sdio_dev" where
  "ecsd_tail raw = set_ecsd (\<lambda>e. e\<lparr>ecsd_erase_grp_def := raw ! ECSD_ERASE_GRP_DEF,
     ecsd_hc_erase_group_size := raw ! ECSD_ERASE_GRP_SIZE, ecsd_hc_wp_grp_size := raw ! ECSD_HC_WP_GRP_SIZE,
     ecsd_user_wp := raw ! ECSD_USER_WP\<rparr>)"

definition mmc_parse_ext_csd ::
    "sdio_host \<Rightarrow> sdio_dev \<Rightarrow> u8 list \<Rightarrow> (unit ret \<times> sdio_host \<times> sdio_dev \<times> u8 list) result" where
  "mmc_parse_ext_csd hc dev raw =
     (let rev = raw ! ECSD_REV;
          dev = dev\<lparr>dev_pactive := 0, dev_ecsd := zero_ecsd\<lparr>ecsd_ext_csd_rev := rev, ecsd_blksz := SDIO_DFLT_BLKSZ\<rparr>\<rparr> in
      bind_result (ecsd_upto_4_41 raw (add_caps True DEV_CAP_CMD23 dev)) (\<lambda>dev.
        bind_result (if rev \<ge> ECSD_REV_V4_5 then ecsd_v4_5 raw hc dev else Inr (Ok (), hc, dev)) (\<lambda>(r, hc, dev).
          case r of
            Fail e \<Rightarrow> Inr (Fail e, hc, dev, raw)
          | Ok _ \<Rightarrow>
              let dev = (if rev \<ge> ECSD_REV_V5_1 then ecsd_v5_1 raw hc dev else dev);
                  dev = ecsd_speed raw hc dev;
                  raw = ecsd_defaults raw
              in Inr (Ok (), hc, ecsd_tail raw dev, raw))))"

section \<open>SD cards\<close>

definition sd_parse_cid :: "u32 list \<Rightarrow> sdio_cid" where
  "sd_parse_cid rsp =
     (let x = sdio_extract_bits rsp 128 in
      \<lparr>cid_mid = x 120 8, cid_oid = x 104 16, cid_pnm = product_name rsp 5, cid_prv = x 56 8, cid_psn = x 24 32,
       cid_month = x 8 4, cid_year = x 12 8 + 2000\<rparr>)"

text \<open>\<open>SDIO_UC_SUPPORT\<close> is not defined, so the size field of ultra capacity cards is limited.\<close>

definition sd_parse_csd :: "sdio_dev \<Rightarrow> u32 list \<Rightarrow> unit ret \<times> sdio_dev \<times> sdio_csd" where
  "sd_parse_csd dev rsp =
     (let x = extract8 rsp;
          csd = zero_csd\<lparr>csd_structure := x 126 2, csd_taac := x 112 8, csd_nsac := x 104 8,
            csd_tran_speed := x 96 8, csd_ccc := ucast (sdio_extract_bits rsp 128 84 12), csd_read_bl_len := x 80 4,
            csd_read_bl_partial := x 79 1, csd_write_blk_misalign := x 78 1, csd_read_blk_misalign := x 77 1,
            csd_dsr_imp := x 76 1\<rparr>;
          rest = (\<lambda>csd. csd\<lparr>csd_erase_blk_en := x 46 1, csd_sector_size := x 39 7, csd_wp_grp_size := x 32 7,
            csd_wp_grp_enable := x 31 1, csd_r2w_factor := x 26 3, csd_write_bl_len := x 22 4,
            csd_write_bl_partial := x 21 1, csd_write_protect := x 12 2\<rparr>) in
      if csd_structure csd = 0 then
        let csd = csd\<lparr>csd_c_size := sdio_extract_bits rsp 128 62 12, csd_vdd_r_curr_min := x 59 3,
              csd_vdd_r_curr_max := x 56 3, csd_vdd_w_curr_min := x 53 3, csd_vdd_w_curr_max := x 50 3,
              csd_c_size_mult := x 47 3\<rparr>
        in (Ok (), dev, csd_capacity (push_bit (unat (csd_read_bl_len csd)) 1) (csd_c_size csd + 1)
                          (push_bit (unat (csd_c_size_mult csd) + 2) 1) (rest csd))
      else if csd_structure csd = 1 then
        let csd = csd\<lparr>csd_c_size := sdio_extract_bits rsp 128 48 22\<rparr>
        in (Ok (), add_caps True DEV_CAP_HC dev, csd_capacity SDIO_DFLT_BLKSZ (csd_c_size csd + 1) 1024 (rest csd))
      else if csd_structure csd = 2 then
        let c = sdio_extract_bits rsp 128 48 28;
            csd = csd\<lparr>csd_c_size := (if c > CSD_VER_20_CSIZE_MAX then CSD_VER_20_CSIZE_MAX else c)\<rparr>
        in (Ok (), add_caps True (DEV_CAP_HC OR DEV_CAP_UC) dev,
            csd_capacity SDIO_DFLT_BLKSZ (csd_c_size csd + 1) 1024 (rest csd))
      else (Fail EINVAL, dev, csd))"

text \<open>\<open>ENDIAN_BE32\<close> on the little-endian processor.\<close>

definition ENDIAN_BE32 :: "u32 \<Rightarrow> u32" where
  "ENDIAN_BE32 w = push_bit 24 (w AND 0xff) OR push_bit 8 (w AND 0xff00) OR (drop_bit 8 w AND 0xff00) OR drop_bit 24 w"

definition sd_parse_scr :: "sdio_dev \<Rightarrow> u32 list \<Rightarrow> sdio_dev \<times> sd_scr \<times> u32 list" where
  "sd_parse_scr dev rscr =
     (let rscr = rscr[0 := ENDIAN_BE32 (rscr ! 0)];
          rscr = rscr[1 := ENDIAN_BE32 (rscr ! 1)];
          x = (\<lambda>start sz. ucast (sdio_extract_bits rscr 64 start sz) :: u8);
          scr = \<lparr>scr_structure = x 60 4, scr_sd_spec = x 56 4, scr_data_stat_after_erase = x 55 1, scr_sd_security = x 52 3,
            scr_sd_bus_widths = x 48 4, scr_sd_spec3 = x 47 1, scr_sd_spec4 = x 42 1, scr_sd_specx = x 38 4,
            scr_ex_security = x 43 4, scr_cmd_support = x 32 4\<rparr>
      in (add_caps (has (scr_cmd_support scr) SCR_CMD23_SUP) DEV_CAP_CMD23 dev, scr, rscr))"

text \<open>The evaluation of the SD status register; \<open>words\<close> is what \<open>sd_app_sd_status\<close> returns: an error, or
  the sixteen words of the register.\<close>

definition sd_read_status :: "errno + u32 list \<Rightarrow> sdio_dev \<Rightarrow> (unit ret \<times> sdio_dev) result" where
  "sd_read_status words dev =
     (if \<not> has (csd_ccc (dev_csd dev)) CCC_APP_SPEC then Inr (Ok (), dev)
      else case words of
        Inl e \<Rightarrow> Inr (Fail e, dev)
      | Inr raw \<Rightarrow>
          let sds = map ENDIAN_BE32 raw;
              x = sdio_extract_bits sds 512;
              au = x 428 4;
              s = dev_sds dev;
              s = (if au \<noteq> 0 then
                     let s = s\<lparr>sds_au_size := push_bit (unat au + 4) 1\<rparr>;
                         e_size = x 408 16; e_offset = x 400 2; e_timeout = x 402 6
                     in if e_size \<noteq> 0 \<and> e_timeout \<noteq> 0
                        then s\<lparr>sds_erase_offset := e_offset * 1000, sds_erase_timeout := (e_timeout * 1000) div e_size\<rparr>
                        else s
                   else s);
              s = s\<lparr>sds_perf_class := x 336 4, sds_perf_enh := x 328 8, sds_speed_class := x 440 8,
                    sds_uhs_speed_grade := x 396 4\<rparr>
          in Inr (Ok (), dev\<lparr>dev_sds := s\<rparr>))"

text \<open>\<open>ss\<close> is the switch status \<open>sd_switch\<close> read from the card.\<close>

definition sd_read_switch :: "sdio_host \<Rightarrow> errno + u8 list \<Rightarrow> sdio_dev \<Rightarrow> unit ret \<times> sdio_dev" where
  "sd_read_switch hc ss dev =
     (if \<not> has (csd_ccc (dev_csd dev)) CCC_SWITCH then (Ok (), dev)
      else case ss of
        Inl e \<Rightarrow> (Fail e, dev)
      | Inr ss \<Rightarrow>
          let hs = has (ss ! 13) 0x2;
              sw = (dev_swcaps dev)\<lparr>sw_dtr_max_hs := (if hs then 50000000 else sw_dtr_max_hs (dev_swcaps dev))\<rparr>;
              dev = add_caps (hs \<and> has (host_caps hc) HC_CAP_HS) DEV_CAP_HS dev;
              v3 = (scr_sd_spec3 (dev_scr dev) \<noteq> 0);
              sw = (if v3 then sw\<lparr>sw_bus_mode := ucast (ss ! 13 AND SD_BUS_MODE_MSK),
                                 sw_drv_type := ucast (ss ! 9 AND SD_DRV_TYPE_MSK),
                                 sw_curr_limit := ucast (ss ! 7 AND SD_CURR_LIMIT_MSK)\<rparr> else sw);
              dev = add_caps (v3 \<and> has (sw_bus_mode sw) SD_BUS_MODE_UHS) DEV_CAP_UHS dev;
              sw = sw\<lparr>sw_cmd_sys := ucast (ss ! 11)\<rparr>;
              dev = add_caps (has (ss ! 11) SD_CMD_SYS_EC \<or> has (ss ! 11) SD_CMD_SYS_ASSD) DEV_CAP_ASSD dev
          in (Ok (), dev\<lparr>dev_swcaps := sw\<rparr>))"

section \<open>Erase groups and timeouts\<close>

text \<open>The \<open>uint8_t\<close> operands are promoted to \<open>int\<close>; the products are small.\<close>

definition mmc_wp_grp_size :: "sdio_dev \<Rightarrow> u64" where
  "mmc_wp_grp_size dev =
     (let e = dev_ecsd dev; c = dev_csd dev in
      if ecsd_erase_grp_def e \<noteq> 0 then
        ucast (ecsd_hc_wp_grp_size e) * ucast (ecsd_hc_erase_group_size e) * MMC_ERASE_GRP_512K
      else (ucast (csd_erase_grp_size c) + 1) * (ucast (csd_erase_grp_mult c) + 1) * (ucast (csd_wp_grp_size c) + 1) * 512)"

definition mmc_erase_grp_size :: "sdio_dev \<Rightarrow> u64" where
  "mmc_erase_grp_size dev =
     (let e = dev_ecsd dev; c = dev_csd dev in
      if ecsd_erase_grp_def e \<noteq> 0 then ucast (ecsd_hc_erase_group_size e) * MMC_ERASE_GRP_512K
      else (ucast (csd_erase_grp_size c) + 1) * (ucast (csd_erase_grp_mult c) + 1) * 512)"

definition sd_erase_grp_size :: "sdio_dev \<Rightarrow> u64" where
  "sd_erase_grp_size dev =
     (let c = dev_csd dev in
      if csd_erase_blk_en c \<noteq> 0 then 512
      else (ucast (csd_sector_size c) + 1) * push_bit (unat (csd_write_bl_len c)) 1)"

text \<open>\<open>erase_timeout\<close>, \<open>erase_offset\<close> and \<open>nlba\<close> are \<open>uint32_t\<close>, so the product wraps before it is widened.\<close>

definition sd_erase_timeout :: "sdio_dev \<Rightarrow> u32 \<Rightarrow> u64" where
  "sd_erase_timeout dev nlba =
     (let s = dev_sds dev in
      if sds_erase_timeout s \<noteq> 0 then ucast (sds_erase_timeout s * nlba + sds_erase_offset s)
      else ucast (SD_ERASE_TIMEOUT * nlba))"

definition mmc_erase_timeout :: "sdio_dev \<Rightarrow> u32 \<Rightarrow> u64 \<Rightarrow> u64 result" where
  "mmc_erase_timeout dev etype nlba =
     (let raw = dev_raw_ecsd dev;
          m = (\<lambda>i. ucast (raw ! i) :: u32);
          tmult = (if ecsd_erase_grp_def (dev_ecsd dev) = 0 then MMC_ERASE_TIMEOUT
                   else if etype = MMC_ERASE_NORM then MMC_ERASE_TIMEOUT * m ECSD_ERASE_MULT
                   else if etype = MMC_ERASE_TRIM \<or> etype = MMC_ERASE_DISCARD then MMC_ERASE_TIMEOUT * m ECSD_TRIM_MULT
                   else if etype = MMC_ERASE_SECURE then MMC_ERASE_TIMEOUT * m ECSD_ERASE_MULT * m ECSD_SEC_ERASE_MULT
                   else if etype = MMC_ERASE_SECURE_TRIM \<or> etype = MMC_ERASE_SECURE_TRIM_PURGE
                        then MMC_ERASE_TIMEOUT * m ECSD_ERASE_MULT * m ECSD_SEC_TRIM_MULT
                   else MMC_ERASE_TIMEOUT * m ECSD_ERASE_MULT);
          grp = mmc_erase_grp_size dev div 512 in
      if grp = 0 then Inl Divide_by_zero
      else Inr (max (ucast tmult * (nlba div grp + 2)) MMC_ERASE_TIMEOUT_MIN))"

end
