(* ===== verification/Sdio_Cmd.thy ===== *)
theory Sdio_Cmd
  imports Sdio_Card
begin

text \<open>
  The command layer of the SD/MMC driver (\<open>base.c\<close>, \<open>mmc.c\<close>, \<open>sd.c\<close>): sending a command with its
  retries and the commands that go with it, waiting for the card, and the operations built on
  it that switch partitions, use the cache and erase.  What the host controller, the memory
  allocator and the power management answer is the environment \<open>sd_env\<close>, indexed by the number
  of commands issued so far; the commands issued are recorded in \<open>bus_log\<close>.  Delays are not
  part of the model.
\<close>

section \<open>Commands and their environment\<close>

datatype cmd_status =
    CS_CMD_INPROG
  | CS_CMD_CMP
  | CS_CMD_ABORTED
  | CS_CMD_CMP_ERR
  | CS_CMD_IDX_ERR
  | CS_CMD_TO_ERR
  | CS_CMD_CRC_ERR
  | CS_CMD_END_ERR
  | CS_DATA_TO_ERR
  | CS_DATA_CRC_ERR
  | CS_DATA_END_ERR
  | CS_CARD_REMOVED

record sdio_cmd =
  sc_flags :: u32
  sc_opcode :: u32
  sc_arg :: u32
  sc_blks :: u32
  sc_blksz :: u32

text \<open>
  \<open>env_issue\<close> gives what \<open>sdio_issue_cmd\<close> returns and the status and response it leaves in the
  command, \<open>env_pm\<close> what \<open>_sdio_pwrmgnt\<close> returns, \<open>env_alloc\<close> and \<open>env_buf\<close> whether
  \<open>sdio_alloc_cmd\<close> and \<open>sdio_alloc\<close> succeed.
\<close>

record sd_env =
  env_alloc :: "nat \<Rightarrow> bool"
  env_buf :: "nat \<Rightarrow> bool"
  env_pm :: "nat \<Rightarrow> unit ret"
  env_issue :: "nat \<Rightarrow> unit ret \<times> cmd_status \<times> u32 list"

record sd_bus =
  bus_dev :: sdio_dev
  bus_hc :: sdio_host
  bus_log :: "(sdio_cmd \<times> u32) list"

type_synonym 'a bus_op = "sd_bus \<Rightarrow> 'a ret \<times> sd_bus"

definition setup_cmd :: "u32 \<Rightarrow> u32 \<Rightarrow> u32 \<Rightarrow> sdio_cmd" where
  "setup_cmd flgs opc arg = \<lparr>sc_flags = flgs, sc_opcode = opc, sc_arg = arg, sc_blks = 0, sc_blksz = 0\<rparr>"

definition setup_cmd_io :: "sdio_cmd \<Rightarrow> u32 \<Rightarrow> u32 \<Rightarrow> u32 \<Rightarrow> sdio_cmd" where
  "setup_cmd_io cmd flgs blks blksz = cmd\<lparr>sc_flags := sc_flags cmd OR flgs, sc_blks := blks, sc_blksz := blksz\<rparr>"

definition set_caps :: "u64 \<Rightarrow> sd_bus \<Rightarrow> sd_bus" where
  "set_caps c st = st\<lparr>bus_hc := (bus_hc st)\<lparr>host_caps := c\<rparr>\<rparr>"

definition set_dev_flags :: "u32 \<Rightarrow> sd_bus \<Rightarrow> sd_bus" where
  "set_dev_flags f st = st\<lparr>bus_dev := (bus_dev st)\<lparr>dev_flags := f\<rparr>\<rparr>"

text \<open>\<open>seq\<close> runs the second operation when the first succeeds; \<open>noop\<close> does nothing.\<close>

definition seq :: "'a bus_op \<Rightarrow> ('a \<Rightarrow> 'b bus_op) \<Rightarrow> 'b bus_op" where
  "seq m f st = (case m st of (Fail e, st) \<Rightarrow> (Fail e, st) | (Ok x, st) \<Rightarrow> f x st)"

definition noop :: "unit bus_op" where
  "noop st = (Ok (), st)"

section \<open>Sending a command\<close>

text \<open>
  One pass through the loop of \<open>_sdio_send_cmd\<close>: \<open>pre\<close> stands for the commands sent before,
  \<open>post\<close> for the wait after success.  The pass ends the loop with a status, asks for a retry,
  or returns at once because the card was removed.
\<close>

datatype pass = Break "unit ret" | Again errno | Card_gone

definition want_tune :: "cmd_status \<Rightarrow> sd_bus \<Rightarrow> sd_bus" where
  "want_tune cs st =
     (if cs = CS_DATA_CRC_ERR \<and> has (dev_flags (bus_dev st)) DEV_FLAG_PRESENT \<and> \<not> has (host_flags (bus_hc st)) HC_FLAG_RST
         \<and> has (dev_flags (bus_dev st)) (DEV_FLAG_UHS OR DEV_FLAG_HS200 OR DEV_FLAG_HS400)
      then st\<lparr>bus_hc := (bus_hc st)\<lparr>host_flags := host_flags (bus_hc st) OR HC_FLAG_TUNE\<rparr>\<rparr> else st)"

definition send_pass :: "unit bus_op \<Rightarrow> unit bus_op \<Rightarrow> sd_env \<Rightarrow> sdio_cmd \<Rightarrow> u32 \<Rightarrow> u32 list \<Rightarrow> sd_bus
    \<Rightarrow> pass \<times> u32 list \<times> sd_bus" where
  "send_pass pre post env cmd timeout rsp st =
     (case pre st of
        (Fail e, st) \<Rightarrow> (Break (Fail e), rsp, st)
      | (Ok _, st) \<Rightarrow>
          (case env_issue env (length (bus_log st)) of
             (r, cs, rsp) \<Rightarrow>
               let st = st\<lparr>bus_log := bus_log st @ [(cmd, timeout)]\<rparr> in
               case r of
                 Fail e \<Rightarrow> (Break (Fail e), rsp, st)
               | Ok _ \<Rightarrow>
                   if cs = CS_CARD_REMOVED then (Card_gone, rsp, st)
                   else if cs = CS_CMD_CMP then (case post st of (r, st) \<Rightarrow> (Break r, rsp, st))
                   else let e = (if cs = CS_CMD_TO_ERR then ETIMEDOUT else EIO);
                            st = want_tune cs st
                        in (if has (rsp ! 0) CDS_ILLEGAL_COMMAND then Break (Fail e) else Again e, rsp, st)))"

text \<open>\<open>while( retries-- )\<close> runs the body once more than the number of retries.\<close>

primrec send_loop :: "nat \<Rightarrow> unit bus_op \<Rightarrow> unit bus_op \<Rightarrow> sd_env \<Rightarrow> sdio_cmd \<Rightarrow> u32 \<Rightarrow> u32 list \<Rightarrow> sd_bus
    \<Rightarrow> pass \<times> u32 list \<times> sd_bus" where
  "send_loop 0 pre post env cmd timeout rsp st =
     (case send_pass pre post env cmd timeout rsp st of
        (Again e, rsp, st) \<Rightarrow> (Break (Fail e), rsp, st) | r \<Rightarrow> r)"
| "send_loop (Suc n) pre post env cmd timeout rsp st =
     (case send_pass pre post env cmd timeout rsp st of
        (Again _, rsp, st) \<Rightarrow> send_loop n pre post env cmd timeout rsp st | r \<Rightarrow> r)"

text \<open>
  The whole function, around its loop.  For a reliable write the automatic commands of the
  host are switched off and on again; the \<open>return\<close> for a removed card skips the latter.
\<close>

definition ACMD_CAPS :: u64 where "ACMD_CAPS = HC_CAP_ACMD23 OR HC_CAP_ACMD12"

definition send_cmd_with :: "unit bus_op \<Rightarrow> unit bus_op \<Rightarrow> sd_env \<Rightarrow> sdio_cmd \<Rightarrow> u32 \<Rightarrow> nat \<Rightarrow> sd_bus
    \<Rightarrow> unit ret \<times> u32 list \<times> sd_bus" where
  "send_cmd_with pre post env cmd timeout retries st =
     (case env_pm env (length (bus_log st)) of
        Fail e \<Rightarrow> (Fail e, [0, 0, 0, 0], st)
      | Ok _ \<Rightarrow>
          let caps = host_caps (bus_hc st);
              rlw = has (sc_flags cmd) SCF_SBC_RLW;
              acmd_caps = (if rlw then caps AND ACMD_CAPS else 0);
              st = (if rlw then set_caps (caps AND NOT ACMD_CAPS) st else st)
          in case send_loop retries pre post env cmd timeout [0, 0, 0, 0] st of
               (Card_gone, rsp, st) \<Rightarrow> (Fail ENXIO, rsp, st)
             | (Break r, rsp, st) \<Rightarrow>
                 (r, rsp, if acmd_caps \<noteq> 0 then set_caps (host_caps (bus_hc st) OR acmd_caps) st else st)
             | (Again e, rsp, st) \<Rightarrow> (Fail e, rsp, st))"

text \<open>
  Commands without \<open>SCF_APP_CMD\<close>, \<open>SCF_SBC\<close> and \<open>SCF_WAIT_DRDY\<close> need nothing before and after.  The
  commands \<open>_sdio_send_cmd\<close> itself sends are of this kind, which ends its recursion.
\<close>

definition send_plain :: "sd_env \<Rightarrow> sdio_cmd \<Rightarrow> u32 \<Rightarrow> nat \<Rightarrow> sd_bus \<Rightarrow> unit ret \<times> u32 list \<times> sd_bus" where
  "send_plain = send_cmd_with noop noop"

text \<open>The pattern of the small operations: allocate a command, send it, use its response.\<close>

definition simple_cmd :: "sd_env \<Rightarrow> u32 \<Rightarrow> u32 \<Rightarrow> u32 \<Rightarrow> u32 \<Rightarrow> nat \<Rightarrow> (u32 list) bus_op" where
  "simple_cmd env flgs opc arg timeout retries st =
     (if \<not> env_alloc env (length (bus_log st)) then (Fail ENOMEM, st)
      else case send_plain env (setup_cmd flgs opc arg) timeout retries st of
          (Fail e, _, st) \<Rightarrow> (Fail e, st)
        | (Ok _, rsp, st) \<Rightarrow> (Ok rsp, st))"

definition ignore_rsp :: "(u32 list) bus_op \<Rightarrow> unit bus_op" where
  "ignore_rsp m = seq m (\<lambda>_. noop)"

definition sdio_send_status :: "sd_env \<Rightarrow> bool \<Rightarrow> (u32 list) bus_op" where
  "sdio_send_status env hpi st =
     simple_cmd env (SCF_CTYPE_AC OR SCF_RSP_R1) MMC_SEND_STATUS
       (push_bit 16 (dev_rca (bus_dev st)) OR flag_if hpi MMC_SEND_STATUS_HPI) SDIO_TIME_DEFAULT SDIO_CMD_RETRIES st"

definition sdio_send_csd :: "sd_env \<Rightarrow> (u32 list) bus_op" where
  "sdio_send_csd env st =
     simple_cmd env (SCF_CTYPE_AC OR SCF_RSP_R2) MMC_SEND_CSD (push_bit 16 (dev_rca (bus_dev st)))
       SDIO_TIME_DEFAULT SDIO_CMD_RETRIES st"

definition sdio_all_send_cid :: "sd_env \<Rightarrow> (u32 list) bus_op" where
  "sdio_all_send_cid env =
     simple_cmd env (SCF_CTYPE_BCR OR SCF_RSP_R2) MMC_ALL_SEND_CID 0 SDIO_TIME_DEFAULT SDIO_CMD_RETRIES"

definition sdio_go_idle :: "sd_env \<Rightarrow> unit bus_op" where
  "sdio_go_idle env = ignore_rsp (simple_cmd env (SCF_CTYPE_BC OR SCF_RSP_NONE) MMC_GO_IDLE_STATE 0 SDIO_TIME_DEFAULT 0)"

text \<open>The response is looked at whether or not the command succeeded.\<close>

definition sdio_select_card :: "sd_env \<Rightarrow> u32 \<Rightarrow> unit bus_op" where
  "sdio_select_card env rca st =
     (if \<not> env_alloc env (length (bus_log st)) then (Fail ENOMEM, st)
      else case send_plain env (setup_cmd (SCF_CTYPE_AC OR (if rca \<noteq> 0 then SCF_RSP_R1 else SCF_RSP_NONE)) MMC_SEL_DES_CARD
                                  (push_bit 16 rca)) SDIO_TIME_DEFAULT SDIO_CMD_RETRIES st of
        (r, rsp, st) \<Rightarrow>
          (r, if has (rsp ! 0) CDS_CARD_IS_LOCKED then set_dev_flags (dev_flags (bus_dev st) OR DEV_FLAG_LOCKED) st else st))"

definition sdio_stop_transmission :: "sd_env \<Rightarrow> bool \<Rightarrow> unit bus_op" where
  "sdio_stop_transmission env hpi st =
     ignore_rsp (simple_cmd env (SCF_CTYPE_AC OR SCF_RSP_R1B) MMC_STOP_TRANSMISSION
       (if hpi then push_bit 16 (dev_rca (bus_dev st)) OR MMC_STOP_TRANSMISSION_HPI else 0) SDIO_TIME_DEFAULT 0) st"

definition sdio_set_block_length :: "sd_env \<Rightarrow> u32 \<Rightarrow> unit bus_op" where
  "sdio_set_block_length env blklen st =
     (let dev = bus_dev st in
      if has (dev_flags dev) (DEV_FLAG_DDR OR DEV_FLAG_HS400 OR DEV_FLAG_HS400ES) \<and> has (dev_caps dev) DEV_CAP_HC
      then (Ok (), st)
      else if dev_block_length dev = blklen then (Ok (), st)
      else seq (simple_cmd env (SCF_CTYPE_AC OR SCF_RSP_R1) MMC_SET_BLOCKLEN blklen SDIO_TIME_DEFAULT SDIO_CMD_RETRIES)
             (\<lambda>_ st. (Ok (), st\<lparr>bus_dev := (bus_dev st)\<lparr>dev_block_length := blklen\<rparr>\<rparr>)) st)"

definition sdio_set_block_count :: "sd_env \<Rightarrow> u32 \<Rightarrow> u32 \<Rightarrow> unit bus_op" where
  "sdio_set_block_count env blkcnt flgs =
     ignore_rsp (simple_cmd env (SCF_CTYPE_AC OR SCF_RSP_R1) MMC_SET_BLOCK_COUNT (blkcnt OR flgs) SDIO_TIME_DEFAULT 0)"

definition sd_app_cmd :: "sd_env \<Rightarrow> unit bus_op" where
  "sd_app_cmd env st =
     (let rca = dev_rca (bus_dev st) in
      ignore_rsp (simple_cmd env ((if rca \<noteq> 0 then SCF_CTYPE_BCR else SCF_CTYPE_BC) OR SCF_RSP_R1) SD_APP_CMD (push_bit 16 rca)
        SDIO_TIME_DEFAULT 0) st)"

section \<open>Waiting for the card\<close>

primrec wait_status_loop :: "nat \<Rightarrow> sd_env \<Rightarrow> u32 \<Rightarrow> u32 \<Rightarrow> unit bus_op" where
  "wait_status_loop 0 env msk val st = (Fail ETIMEDOUT, st)"
| "wait_status_loop (Suc msec) env msk val st =
     (case sdio_send_status env False st of
        (Fail e, st) \<Rightarrow> (Fail e, st)
      | (Ok rsp, st) \<Rightarrow>
          if has (rsp ! 0) CDS_ERROR_MSK then (Fail EIO, st)
          else if rsp ! 0 AND msk = val then (Ok (), st)
          else wait_status_loop msec env msk val st)"

definition sdio_wait_card_status :: "sd_env \<Rightarrow> u32 \<Rightarrow> u32 \<Rightarrow> u32 \<Rightarrow> unit bus_op" where
  "sdio_wait_card_status env msk val msec = wait_status_loop (unat (max msec 1)) env msk val"

text \<open>\<open>_sdio_send_cmd\<close> for every command.\<close>

definition send_pre :: "sd_env \<Rightarrow> sdio_cmd \<Rightarrow> unit bus_op" where
  "send_pre env cmd =
     seq (if has (sc_flags cmd) SCF_APP_CMD then sd_app_cmd env else noop)
       (\<lambda>_ st. if has (sc_flags cmd) SCF_SBC \<and> \<not> has (host_caps (bus_hc st)) HC_CAP_ACMD23
               then sdio_set_block_count env (sc_blks cmd) (flag_if (has (sc_flags cmd) SCF_SBC_RLW) SBC_RL_WRITE) st
               else noop st)"

definition send_post :: "sd_env \<Rightarrow> sdio_cmd \<Rightarrow> u32 \<Rightarrow> unit bus_op" where
  "send_post env cmd timeout st =
     (if has (sc_flags cmd) SCF_WAIT_DRDY \<and> \<not> has (host_caps (bus_hc st)) HC_CAP_BSY
      then sdio_wait_card_status env (CDS_READY_FOR_DATA OR CDS_CUR_STATE_MSK) (CDS_READY_FOR_DATA OR CDS_CUR_STATE_TRAN) timeout st
      else noop st)"

definition sdio_send_cmd :: "sd_env \<Rightarrow> sdio_cmd \<Rightarrow> u32 \<Rightarrow> nat \<Rightarrow> sd_bus \<Rightarrow> unit ret \<times> u32 list \<times> sd_bus" where
  "sdio_send_cmd env cmd timeout = send_cmd_with (send_pre env cmd) (send_post env cmd timeout) env cmd timeout"

section \<open>Switching, partitions and the cache\<close>

definition mmc_switch :: "sd_env \<Rightarrow> u32 \<Rightarrow> u32 \<Rightarrow> u32 \<Rightarrow> u32 \<Rightarrow> u32 \<Rightarrow> unit bus_op" where
  "mmc_switch env cmdset md index val timeout =
     seq (simple_cmd env (SCF_CTYPE_AC OR (if timeout \<noteq> 0 then SCF_RSP_R1B else SCF_RSP_R1)) MMC_SWITCH
            (push_bit 24 md OR push_bit 16 index OR push_bit 8 val OR cmdset) timeout SDIO_CMD_RETRIES)
       (\<lambda>_. sdio_wait_card_status env CDS_READY_FOR_DATA CDS_READY_FOR_DATA timeout)"

definition mmc_set_partition :: "sd_env \<Rightarrow> u32 \<Rightarrow> unit bus_op" where
  "mmc_set_partition env part st =
     (if dev_pactive (bus_dev st) = part then (Ok (), st)
      else seq (mmc_switch env MMC_SWITCH_CMDSET_DFLT MMC_SWITCH_MODE_WRITE (of_nat ECSD_PART_CONFIG) part
                 (MMC_PARTITION_SWITCH_TIMEOUT * ucast (dev_raw_ecsd (bus_dev st) ! ECSD_PARTITION_SWITCH_TIME)))
             (\<lambda>_ st. (Ok (), st\<lparr>bus_dev := (bus_dev st)\<lparr>dev_pactive := part\<rparr>\<rparr>)) st)"

definition mmc_sleep_awake :: "sd_env \<Rightarrow> bool \<Rightarrow> unit bus_op" where
  "mmc_sleep_awake env flgs st =
     ignore_rsp (simple_cmd env (SCF_CTYPE_AC OR SCF_RSP_R1B) MMC_SLEEP_AWAKE
       (push_bit 16 (dev_rca (bus_dev st)) OR flag_if flgs MMC_SA_SLEEP) SDIO_TIME_DEFAULT 0) st"

definition mmc_cache :: "sd_env \<Rightarrow> u32 \<Rightarrow> u32 \<Rightarrow> unit bus_op" where
  "mmc_cache env op timeout st =
     (let sw = mmc_switch env MMC_SWITCH_CMDSET_DFLT MMC_SWITCH_MODE_WRITE in
      if op = SDIO_CACHE_DISABLE then
        seq (sw (of_nat ECSD_CACHE_CTRL) ECSD_CACHE_CTRL_DIS timeout)
          (\<lambda>_ st. (Ok (), set_dev_flags (dev_flags (bus_dev st) AND NOT DEV_FLAG_WCE) st)) st
      else if op = SDIO_CACHE_ENABLE then
        seq (sw (of_nat ECSD_CACHE_CTRL) ECSD_CACHE_CTRL_EN timeout)
          (\<lambda>_ st. (Ok (), set_dev_flags (dev_flags (bus_dev st) OR DEV_FLAG_WCE) st)) st
      else if op = SDIO_CACHE_FLUSH then
        (if has (dev_flags (bus_dev st)) DEV_FLAG_WCE
         then sw (of_nat ECSD_FLUSH_CACHE) ECSD_FLUSH_TRIGGER timeout st else (Ok (), st))
      else (Fail EINVAL, st))"

definition mmc_pwroff_notify :: "sd_env \<Rightarrow> u32 \<Rightarrow> u32 \<Rightarrow> unit bus_op" where
  "mmc_pwroff_notify env op timeout =
     mmc_switch env MMC_SWITCH_CMDSET_DFLT MMC_SWITCH_MODE_WRITE (of_nat ECSD_POWER_OFF_NOTIFICATION) op timeout"

text \<open>
  The general command of the \<open>devctl\<close> interface.  The contents of the data buffer are not part
  of the model; \<open>flgs\<close> come from the caller.
\<close>

definition mmc_gen_man_cmd :: "sd_env \<Rightarrow> u8 \<Rightarrow> u32 \<Rightarrow> u32 \<Rightarrow> u32 \<Rightarrow> u32 \<Rightarrow> unit bus_op" where
  "mmc_gen_man_cmd env opc blklen blkcnt arg flgs st =
     (if blkcnt > 1 then (Fail ENOTSUP, st)
      else if \<not> env_alloc env (length (bus_log st)) then (Fail ENOMEM, st)
      else
        let cmd = setup_cmd (flgs AND NOT SCF_DATA_MSK) (ucast opc) arg in
        if has flgs SCF_CTYPE_ADTC then
          seq (if blklen \<noteq> SDIO_DFLT_BLKSZ then sdio_set_block_length env blklen else noop)
            (\<lambda>_ st. if \<not> env_buf env (length (bus_log st)) then (Fail ENOMEM, st)
               else case sdio_send_cmd env (setup_cmd_io cmd (flgs AND SCF_DATA_MSK) blkcnt blklen) (SDIO_TIME_DEFAULT * 5) 0 st of
                 (r, _, st) \<Rightarrow> if blklen \<noteq> SDIO_DFLT_BLKSZ then sdio_set_block_length env SDIO_DFLT_BLKSZ st else (r, st)) st
        else case sdio_send_cmd env cmd (SDIO_TIME_DEFAULT * 5) 0 st of (r, _, st) \<Rightarrow> (r, st))"

section \<open>Erasing\<close>

text \<open>
  Both erase functions set up the same command again for each of their three steps;
  \<open>_sdio_send_cmd\<close> takes the timeout as a 32-bit number.  Their loop \<open>while( nlba )\<close> runs at most
  once: its body sets \<open>nlba\<close> to zero.
\<close>

definition erase_addr :: "sdio_dev \<Rightarrow> u64 \<Rightarrow> u32" where
  "erase_addr dev lba = ucast (if has (dev_caps dev) DEV_CAP_HC then lba else lba * ucast (csd_blksz (dev_csd dev)))"

definition erase_step :: "sd_env \<Rightarrow> u32 \<Rightarrow> u32 \<Rightarrow> u32 \<Rightarrow> u64 \<Rightarrow> unit bus_op" where
  "erase_step env flgs opc arg timeout st =
     (case sdio_send_cmd env (setup_cmd flgs opc arg) (ucast timeout) 0 st of (r, _, st) \<Rightarrow> (r, st))"

definition sd_erase :: "sd_env \<Rightarrow> u32 \<Rightarrow> u64 \<Rightarrow> u32 \<Rightarrow> unit bus_op" where
  "sd_erase env flgs lba nlba st =
     (if \<not> env_alloc env (length (bus_log st)) then (Fail ENOMEM, st)
      else if nlba = 0 then (Ok (), st)
      else
        let dev = bus_dev st; timeout = sd_erase_timeout dev nlba in
        seq (erase_step env (SCF_CTYPE_AC OR SCF_RSP_R1) SD_ERASE_WR_BLK_START (erase_addr dev lba) (ucast SDIO_TIME_DEFAULT)) (\<lambda>_.
        seq (erase_step env (SCF_CTYPE_AC OR SCF_RSP_R1) SD_ERASE_WR_BLK_END (erase_addr dev (lba + ucast nlba - 1))
               (ucast SDIO_TIME_DEFAULT)) (\<lambda>_.
        erase_step env (SCF_CTYPE_AC OR SCF_RSP_R1B OR SCF_WAIT_DRDY) SD_ERASE flgs timeout)) st)"

definition mmc_erase :: "sd_env \<Rightarrow> u32 \<Rightarrow> u32 \<Rightarrow> u64 \<Rightarrow> u32 \<Rightarrow> sd_bus \<Rightarrow> (unit ret \<times> sd_bus) result" where
  "mmc_erase env part flgs lba nlba st =
     (case mmc_set_partition env part st of
        (Fail e, st) \<Rightarrow> Inr (Fail e, st)
      | (Ok _, st) \<Rightarrow>
          if \<not> env_alloc env (length (bus_log st)) then Inr (Fail ENOMEM, st)
          else if nlba = 0 then Inr (Ok (), st)
          else
            let dev = bus_dev st in
            case erase_step env (SCF_CTYPE_AC OR SCF_RSP_R1) MMC_TAG_ERASE_GROUP_START (erase_addr dev lba)
                   (ucast SDIO_TIME_DEFAULT) st of
              (Fail e, st) \<Rightarrow> Inr (Fail e, st)
            | (Ok _, st) \<Rightarrow> bind_result (mmc_erase_timeout dev flgs (ucast nlba)) (\<lambda>timeout. Inr (
                seq (erase_step env (SCF_CTYPE_AC OR SCF_RSP_R1) MMC_TAG_ERASE_GROUP_END (erase_addr dev (lba + ucast (nlba - 1)))
                       (ucast SDIO_TIME_DEFAULT)) (\<lambda>_.
                seq (erase_step env (SCF_CTYPE_AC OR SCF_RSP_R1B OR SCF_WAIT_DRDY) MMC_ERASE flgs timeout) (\<lambda>_.
                sdio_wait_card_status env (CDS_READY_FOR_DATA OR CDS_CUR_STATE_MSK)
                  (CDS_READY_FOR_DATA OR CDS_CUR_STATE_TRAN) (ucast timeout))) st)))"

end
