(* ===== verification/Sdio_Props.thy ===== *)
theory Sdio_Props
  imports Sdio_Card
begin

text \<open>
  What card identification guarantees: the fields extracted from a register are its bit fields,
  the capacity computed from the CSD register is the one the card announces, and the bus speed
  is one that host and card support.
\<close>

section \<open>Registers as numbers\<close>

text \<open>A register, most significant word first, is a number; a field of it is a quotient modulo a power of two.\<close>

definition reg_value :: "u32 list \<Rightarrow> nat" where
  "reg_value ws = foldl (\<lambda>n w. n * 2 ^ 32 + unat w) 0 ws"

definition reg_field :: "u32 list \<Rightarrow> nat \<Rightarrow> nat \<Rightarrow> nat" where
  "reg_field ws start sz = reg_value ws div 2 ^ start mod 2 ^ sz"

lemma reg_value_snoc: "reg_value (ws @ [w]) = reg_value ws * 2 ^ 32 + unat w"
  by (simp add: reg_value_def)

lemma bit_shift_add:
  fixes a b :: nat
  assumes "b < 2 ^ k"
  shows "bit (a * 2 ^ k + b) n = (if n < k then bit b n else bit a (n - k))"
proof (cases "n < k")
  case True
  have "(a * 2 ^ k + b) div 2 ^ n = a * 2 ^ (k - n) + b div 2 ^ n"
  proof -
    have "a * 2 ^ k = (a * 2 ^ (k - n)) * 2 ^ n" using True by (simp add: mult.assoc flip: power_add)
    then show ?thesis by (simp only: div_mult_self3 power_not_zero zero_neq_numeral [symmetric] not_False_eq_True simp_thms)
  qed
  moreover have "even (a * 2 ^ (k - n))" using True by simp
  ultimately show ?thesis using True by (simp add: bit_iff_odd)
next
  case False
  then have "(2 :: nat) ^ n = 2 ^ k * 2 ^ (n - k)" by (simp flip: power_add)
  then have "(a * 2 ^ k + b) div 2 ^ n = (a * 2 ^ k + b) div 2 ^ k div 2 ^ (n - k)"
    by (simp only: div_mult2_eq)
  also have "(a * 2 ^ k + b) div 2 ^ k = a" using assms by simp
  finally show ?thesis using False by (simp add: bit_iff_odd)
qed

lemma bit_reg_value:
  assumes "n < 32 * length ws"
  shows "bit (reg_value ws) n = bit (ws ! (length ws - n div 32 - 1)) (n mod 32)"
  using assms
proof (induction ws arbitrary: n rule: rev_induct)
  case (snoc w ws)
  have w: "unat w < 2 ^ 32" using unsigned_less [of w, where 'a = nat] by simp
  have bw: "bit (unat w) m = bit w m" for m by (simp add: bit_unsigned_iff bit_word_eqI)
  show ?case
  proof (cases "n < 32")
    case True
    then show ?thesis unfolding reg_value_snoc bit_shift_add [OF w] bw by simp
  next
    case False
    then obtain m where m: "n = m + 32" by (metis add.commute le_add_diff_inverse not_less)
    then have "m < 32 * length ws" using snoc.prems by simp
    moreover have "(m + 32) div 32 = Suc (m div 32)" and "ws \<noteq> []" using \<open>m < 32 * length ws\<close> by auto
    ultimately show ?thesis using snoc.IH [of m] m
      unfolding reg_value_snoc bit_shift_add [OF w] by (simp add: nth_append)
  qed
qed simp

lemma bit_field: "bit (v div 2 ^ s mod 2 ^ k) n \<longleftrightarrow> n < k \<and> bit v (s + n)" for v :: nat
proof -
  have "v div 2 ^ s mod 2 ^ k = take_bit k (drop_bit s v)" by (simp add: take_bit_eq_mod drop_bit_eq_div)
  then show ?thesis by (simp add: bit_simps add.commute)
qed

lemma bit_low_mask: "sz \<le> 32 \<Longrightarrow> bit (ucast (ucast (v :: u32) AND (push_bit sz 1 - 1 :: u64)) :: u32) n \<longleftrightarrow> bit v n \<and> n < sz"
proof -
  assume "sz \<le> 32"
  have "(push_bit sz 1 - 1 :: u64) = mask sz" by (simp add: mask_eq_exp_minus_1 push_bit_eq_mult)
  then show ?thesis using \<open>sz \<le> 32\<close> by (auto simp: bit_simps dest: bit_imp_le_length)
qed

lemma div_mod_32: "r < 32 \<Longrightarrow> x = r + q * 32 \<Longrightarrow> x div 32 = q \<and> x mod 32 = (r :: nat)"
  by simp

lemma div_split_32:
  fixes start n :: nat
  assumes "n < 32"
  shows "(start + n) div 32 = (if start mod 32 + n < 32 then start div 32 else Suc (start div 32))
    \<and> (start + n) mod 32 = (if start mod 32 + n < 32 then start mod 32 + n else start mod 32 + n - 32)"
proof (cases "start mod 32 + n < 32")
  case True
  have "start + n = start mod 32 + n + start div 32 * 32" by simp
  from div_mod_32 [OF True this] True show ?thesis by simp
next
  case False
  have r: "start mod 32 + n - 32 < 32" using assms mod_less_divisor [of 32 start] by linarith
  have "start + n = start mod 32 + n - 32 + Suc (start div 32) * 32" using False by simp
  from div_mod_32 [OF r this] False show ?thesis by simp
qed

lemma bit_reg_at:
  assumes "start + n < 32 * length ws" and "n < 32"
  shows "bit (reg_value ws) (start + n) = (if start mod 32 + n < 32 then bit (ws ! (length ws - start div 32 - 1)) (start mod 32 + n)
      else bit (ws ! (length ws - start div 32 - 1 - 1)) (start mod 32 + n - 32))"
proof -
  have "(start + n) div 32 = (if start mod 32 + n < 32 then start div 32 else Suc (start div 32))"
    and "(start + n) mod 32 = (if start mod 32 + n < 32 then start mod 32 + n else start mod 32 + n - 32)"
    using div_split_32 [OF assms(2), of start] by auto
  then show ?thesis by (simp add: bit_reg_value [OF assms(1)])
qed

lemma bit_extract:
  assumes "sz \<le> 32"
  shows "bit (sdio_extract_bits ws bits start sz) n \<longleftrightarrow> n < sz \<and> (if start mod 32 + n < 32
      then bit (ws ! (bits div 32 - start div 32 - 1)) (start mod 32 + n)
      else bit (ws ! (bits div 32 - start div 32 - 1 - 1)) (start mod 32 + n - 32))"
proof -
  define shift where "shift = start mod 32"
  define hi lo where "hi = ws ! (bits div 32 - start div 32 - 1 - 1)" and "lo = ws ! (bits div 32 - start div 32 - 1)"
  have sh: "shift < 32" by (simp add: shift_def)
  have e: "bit (sdio_extract_bits ws bits start sz) n \<longleftrightarrow> n < sz \<and>
      bit (if sz + shift > 32 then drop_bit shift lo OR push_bit (32 - shift) hi else drop_bit shift lo) n"
    unfolding sdio_extract_bits_def Let_def bit_low_mask [OF assms] shift_def [symmetric] hi_def [symmetric] lo_def [symmetric]
    by blast
  have b: "bit (drop_bit shift lo) n = bit lo (shift + n)"
    and p: "bit (push_bit (32 - shift) hi) n \<longleftrightarrow> 32 - shift \<le> n \<and> n < 32 \<and> bit hi (n - (32 - shift))"
    by (auto simp: bit_simps add.commute)
  show ?thesis unfolding e shift_def [symmetric] hi_def [symmetric] lo_def [symmetric]
  proof (cases "shift + n < 32")
    case True
    then have "\<not> 32 - shift \<le> n" by linarith
    then show "(n < sz \<and> bit (if sz + shift > 32 then drop_bit shift lo OR push_bit (32 - shift) hi else drop_bit shift lo) n)
        = (n < sz \<and> (if shift + n < 32 then bit lo (shift + n) else bit hi (shift + n - 32)))"
      using True b p by (simp add: bit_or_iff)
  next
    case False
    then have "\<not> bit lo (shift + n)" "32 - shift \<le> n" "n - (32 - shift) = shift + n - 32"
      using sh by (auto dest: bit_imp_le_length)
    moreover have "n < sz \<Longrightarrow> sz + shift > 32 \<and> n < 32" using False assms by linarith
    ultimately show "(n < sz \<and> bit (if sz + shift > 32 then drop_bit shift lo OR push_bit (32 - shift) hi else drop_bit shift lo) n)
        = (n < sz \<and> (if shift + n < 32 then bit lo (shift + n) else bit hi (shift + n - 32)))"
      using False b p by (auto simp: bit_or_iff)
  qed
qed

lemma extract_field:
  assumes "bits = 32 * length data" and "start + sz \<le> bits" and "0 < sz" and "sz \<le> 32"
  shows "unat (sdio_extract_bits data bits start sz) = reg_field data start sz"
proof (rule bit_eqI)
  fix n
  have "bit (unat (sdio_extract_bits data bits start sz)) n = bit (sdio_extract_bits data bits start sz) n"
    by (simp add: bit_unsigned_iff bit_word_eqI)
  also have "\<dots> \<longleftrightarrow> n < sz \<and> bit (reg_value data) (start + n)"
  proof (cases "n < sz")
    case True
    then show ?thesis using bit_reg_at [of start n data] assms by (simp add: bit_extract)
  qed (simp add: bit_extract [OF assms(4)])
  finally show "bit (unat (sdio_extract_bits data bits start sz)) n = bit (reg_field data start sz) n"
    by (simp add: reg_field_def bit_field)
qed

text \<open>C19: \<open>sdio_extract_bits\<close> returns exactly the bit field that starts at bit \<open>start\<close> and has \<open>size\<close>
  bits, for every field of up to 32 bits that lies within the register, across word boundaries
  too.\<close>

theorem sdio_extract_bits_field:
  assumes "bits = 32 * length data" and "start + sz \<le> bits" and "0 < sz" and "sz \<le> 32"
  shows "unat (sdio_extract_bits data bits start sz) = reg_field data start sz"
  using assms by (rule extract_field)

theorem sdio_extract_bits_field_witness:
  "unat (sdio_extract_bits [0x12345678, 0x9ABCDEF0, 0x0F1E2D3C, 0x4B5A6978] 128 24 16) = 0x3C4B"
proof -
  have "reg_field [0x12345678, 0x9ABCDEF0, 0x0F1E2D3C, 0x4B5A6978] 24 16 = 0x3C4B"
    by (simp add: reg_field_def reg_value_def)
  with sdio_extract_bits_field [of 128 "[0x12345678, 0x9ABCDEF0, 0x0F1E2D3C, 0x4B5A6978]" 24 16] show ?thesis by simp
qed

section \<open>Capacity\<close>

lemma unat_pow2_32:
  assumes "k < 32"
  shows "unat ((2 :: u32) ^ k) = 2 ^ k"
proof -
  have "(2 :: nat) ^ k < 2 ^ 32" using assms by (intro power_strict_increasing) simp_all
  then show ?thesis using unat_of_nat [of "2 ^ k", where ?'a = 32] by simp
qed

lemma unat_ucast_u64: "unat (ucast (x :: u32) :: u64) = unat x"
  by (simp add: unsigned_ucast_eq take_bit_nat_eq_self_iff less_trans [OF unsigned_less])

lemma field_less: "reg_field ws s k < 2 ^ k"
  by (simp add: reg_field_def)

lemma unat_mult_small: "unat a * unat b < 2 ^ 32 \<Longrightarrow> unat (a * b :: u32) = unat a * unat b"
  by (simp add: unat_word_ariths)

lemma unat_ucast_down: "unat x < 2 ^ 32 \<Longrightarrow> unat (ucast (x :: u64) :: u32) = unat x"
  by (simp add: unsigned_ucast_eq take_bit_nat_eq_self)

lemma unat_mult_u64: "unat a * unat b < 2 ^ 64 \<Longrightarrow> unat (a * b :: u64) = unat a * unat b"
  by (simp add: unat_word_ariths)

lemma unat_add_u64: "unat a + unat b < 2 ^ 64 \<Longrightarrow> unat (a + b :: u64) = unat a + unat b"
  by (simp add: unat_word_ariths)

text \<open>The capacity of a card with blocks of \<open>2 ^ bl\<close> bytes and \<open>2 ^ k\<close> blocks per unit.\<close>

lemma csd_capacity_exact:
  fixes c :: u32 and csd :: sdio_csd and bl k :: nat
  assumes c: "unat c < 4096" and bl: "bl < 16" and k: "k < 10"
  defines "r \<equiv> csd_capacity (push_bit bl 1) (c + 1) (push_bit k 1) csd"
  shows "unat (csd_sectors r) * unat (csd_blksz r) = (unat c + 1) * 2 ^ k * 2 ^ bl" and "csd_blksz r \<le> 512"
proof -
  have c1: "unat (c + 1) = unat c + 1" using c by (simp add: unat_word_ariths)
  have pb: "unat ((2 :: u32) ^ bl) = 2 ^ bl" "unat ((2 :: u32) ^ k) = 2 ^ k"
    using bl k by (simp_all add: unat_pow2_32)
  have k2: "(2 :: nat) ^ k \<le> 2 ^ 9" using k by (intro power_increasing) simp_all
  have big: "(2 :: u32) ^ bl > SDIO_DFLT_BLKSZ \<longleftrightarrow> bl > 9"
    using power_strict_increasing_iff [of "2 :: nat" 9 bl] by (simp add: word_less_nat_alt pb SDIO_DFLT_BLKSZ_def)
  have "unat (csd_sectors r) * unat (csd_blksz r) = (unat c + 1) * 2 ^ k * 2 ^ bl \<and> csd_blksz r \<le> 512"
  proof (cases "bl > 9")
    case True
    then have p: "(2 :: nat) ^ bl = 2 ^ (bl - 9) * 512" using power_add [of "2 :: nat" "bl - 9" 9] by simp
    have l: "(2 :: nat) ^ (bl - 9) \<le> 2 ^ 6" using bl by (intro power_increasing) simp_all
    have d: "unat ((2 :: u32) ^ bl div SDIO_DFLT_BLKSZ) = 2 ^ (bl - 9)"
      using p by (simp add: unat_div pb SDIO_DFLT_BLKSZ_def)
    have m: "(2 :: u32) ^ bl mod SDIO_DFLT_BLKSZ = 0"
      using p by (simp add: word_eq_nat unat_mod pb SDIO_DFLT_BLKSZ_def)
    have "(unat c + 1) * 2 ^ (bl - 9) \<le> 4096 * 2 ^ 6" using c l by (intro mult_le_mono) simp_all
    then have s1: "unat ((c + 1) * ((2 :: u32) ^ bl div SDIO_DFLT_BLKSZ)) = (unat c + 1) * 2 ^ (bl - 9)"
      by (subst unat_mult_small) (simp_all add: c1 d)
    have "(unat c + 1) * 2 ^ (bl - 9) * 2 ^ k \<le> 4096 * 2 ^ 6 * 2 ^ 9" using c l k2 by (intro mult_le_mono) simp_all
    then have s2: "unat ((c + 1) * ((2 :: u32) ^ bl div SDIO_DFLT_BLKSZ) * 2 ^ k) = (unat c + 1) * 2 ^ (bl - 9) * 2 ^ k"
      by (subst unat_mult_small) (simp_all add: s1 pb)
    have "r = csd\<lparr>csd_blksz := 512, csd_sectors := ucast ((c + 1) * ((2 :: u32) ^ bl div SDIO_DFLT_BLKSZ) * 2 ^ k),
        csd_dtr_max := tran_rate (csd_tran_speed csd)\<rparr>"
      using True big m by (simp add: r_def csd_capacity_def SDIO_DFLT_BLKSZ_def)
    then show ?thesis using s2 p by (simp add: unat_ucast_u64 mult.assoc mult.left_commute mult.commute distrib_left)
  next
    case False
    have "(unat c + 1) * 2 ^ k \<le> 4096 * 2 ^ 9" using c k2 by (intro mult_le_mono) simp_all
    then have s2: "unat ((c + 1) * 2 ^ k) = (unat c + 1) * 2 ^ k"
      by (subst unat_mult_small) (simp_all add: c1 pb)
    have "r = csd\<lparr>csd_blksz := 2 ^ bl, csd_sectors := ucast ((c + 1) * (2 :: u32) ^ k),
        csd_dtr_max := tran_rate (csd_tran_speed csd)\<rparr>"
      using False big by (simp add: r_def csd_capacity_def)
    then show ?thesis using s2 pb(1) big False
      by (simp add: unat_ucast_u64 not_less SDIO_DFLT_BLKSZ_def)
  qed
  then show "unat (csd_sectors r) * unat (csd_blksz r) = (unat c + 1) * 2 ^ k * 2 ^ bl" and "csd_blksz r \<le> 512" by blast+
qed

lemma unat_extract: "length rsp = 4 \<Longrightarrow> start + sz \<le> 128 \<Longrightarrow> 0 < sz \<Longrightarrow> sz \<le> 32 \<Longrightarrow>
    unat (sdio_extract_bits rsp 128 start sz) = reg_field rsp start sz"
  by (rule extract_field) simp_all

lemma unat_extract8:
  assumes "length rsp = 4" and "start + sz \<le> 128" and "0 < sz" and "sz \<le> 8"
  shows "unat (extract8 rsp start sz) = reg_field rsp start sz"
proof -
  have "reg_field rsp start sz < 2 ^ sz" by (rule field_less)
  also have "(2 :: nat) ^ sz \<le> 2 ^ 8" using assms(4) by (intro power_increasing) simp_all
  finally show ?thesis
    using unat_extract [of rsp start sz] assms by (simp add: extract8_def unsigned_ucast_eq take_bit_nat_eq_self)
qed

text \<open>The bytes a card with a version 1 CSD register announces.\<close>

definition csd1_bytes :: "u32 list \<Rightarrow> nat" where
  "csd1_bytes rsp = (reg_field rsp 62 12 + 1) * 2 ^ (reg_field rsp 47 3 + 2) * 2 ^ reg_field rsp 80 4"

lemma csd1_capacity:
  assumes "length rsp = 4"
  defines "r \<equiv> \<lambda>csd. csd_capacity (push_bit (unat (extract8 rsp 80 4)) 1) (sdio_extract_bits rsp 128 62 12 + 1)
                       (push_bit (unat (extract8 rsp 47 3) + 2) 1) csd"
  shows "unat (csd_sectors (r csd)) * unat (csd_blksz (r csd)) = csd1_bytes rsp \<and> csd_blksz (r csd) \<le> 512"
proof -
  have f: "unat (extract8 rsp 80 4) = reg_field rsp 80 4" "unat (extract8 rsp 47 3) = reg_field rsp 47 3"
    "unat (sdio_extract_bits rsp 128 62 12) = reg_field rsp 62 12"
    using assms(1) by (simp_all add: unat_extract8 unat_extract)
  have l: "reg_field rsp 80 4 < 16" "reg_field rsp 47 3 + 2 < 10" "reg_field rsp 62 12 < 4096"
    using field_less [of rsp 80 4] field_less [of rsp 47 3] field_less [of rsp 62 12] by simp_all
  from csd_capacity_exact [of "sdio_extract_bits rsp 128 62 12" "reg_field rsp 80 4" "reg_field rsp 47 3 + 2" csd] l f
  show ?thesis by (simp add: r_def csd1_bytes_def)
qed

lemma mmc_csd_fields [simp]: "csd_read_bl_len (mmc_csd_fields rsp) = extract8 rsp 80 4"
    "csd_c_size (mmc_csd_fields rsp) = sdio_extract_bits rsp 128 62 12"
    "csd_c_size_mult (mmc_csd_fields rsp) = extract8 rsp 47 3"
  by (simp_all add: mmc_csd_fields_def Let_def)

text \<open>C20: The capacity computed for MMC devices and for SD cards of standard capacity is exactly the
  one their CSD register announces: the number of sectors times the block size is the number
  of bytes, without overflow, and the block size is at most 512.\<close>

theorem csd_capacity_announced:
  assumes "length rsp = 4"
  shows "unat (csd_sectors (mmc_parse_csd rsp)) * unat (csd_blksz (mmc_parse_csd rsp)) = csd1_bytes rsp
      \<and> csd_blksz (mmc_parse_csd rsp) \<le> 512
    \<and> (reg_field rsp 126 2 = 0 \<longrightarrow> (\<exists>csd. sd_parse_csd dev rsp = (Ok (), dev, csd)
          \<and> unat (csd_sectors csd) * unat (csd_blksz csd) = csd1_bytes rsp \<and> csd_blksz csd \<le> 512))"
proof (intro conjI impI)
  note cap = csd1_capacity [OF assms]
  have m: "mmc_parse_csd rsp = csd_capacity (push_bit (unat (extract8 rsp 80 4)) 1)
      (sdio_extract_bits rsp 128 62 12 + 1) (push_bit (unat (extract8 rsp 47 3) + 2) 1) (mmc_csd_fields rsp)"
    by (simp add: mmc_parse_csd_def)
  show "unat (csd_sectors (mmc_parse_csd rsp)) * unat (csd_blksz (mmc_parse_csd rsp)) = csd1_bytes rsp"
    "csd_blksz (mmc_parse_csd rsp) \<le> 512" unfolding m using cap by blast+
  assume "reg_field rsp 126 2 = 0"
  then have st: "extract8 rsp 126 2 = 0" using unat_extract8 [OF assms, of 126 2] by (simp add: word_eq_nat)
  obtain csd where "sd_parse_csd dev rsp = (Ok (), dev, csd_capacity (push_bit (unat (extract8 rsp 80 4)) 1)
      (sdio_extract_bits rsp 128 62 12 + 1) (push_bit (unat (extract8 rsp 47 3) + 2) 1) csd)"
    by (simp add: sd_parse_csd_def Let_def st)
  then show "\<exists>csd. sd_parse_csd dev rsp = (Ok (), dev, csd)
          \<and> unat (csd_sectors csd) * unat (csd_blksz csd) = csd1_bytes rsp \<and> csd_blksz csd \<le> 512"
    using cap by blast
qed

definition sample_dev :: sdio_dev where
  "sample_dev = \<lparr>dev_flags = 0, dev_caps = 0, dev_pactive = 0, dev_rca = 0x1234, dev_block_length = 512,
     dev_cid = \<lparr>cid_mid = 0, cid_oid = 0, cid_pnm = [], cid_prv = 0, cid_psn = 0, cid_month = 0, cid_year = 0\<rparr>,
     dev_csd = zero_csd, dev_ecsd = zero_ecsd,
     dev_scr = \<lparr>scr_structure = 0, scr_sd_spec = 0, scr_data_stat_after_erase = 0, scr_sd_security = 0, scr_sd_bus_widths = 0,
       scr_sd_spec3 = 0, scr_sd_spec4 = 0, scr_sd_specx = 0, scr_ex_security = 0, scr_cmd_support = 0\<rparr>,
     dev_sds = \<lparr>sds_speed_class = 0, sds_uhs_speed_grade = 0, sds_au_size = 0, sds_erase_timeout = 0, sds_erase_offset = 0,
       sds_perf_class = 0, sds_perf_enh = 0\<rparr>,
     dev_swcaps = \<lparr>sw_dtr_max_hs = 0, sw_bus_mode = 0, sw_cmd_sys = 0, sw_drv_type = 0, sw_curr_limit = 0\<rparr>,
     dev_rel_wr_sec_c = 0, dev_raw_ecsd = replicate 512 0\<rparr>"

text \<open>The CSD register of a 512 MB card: 1024-byte blocks, \<open>C_SIZE\<close> 976, \<open>C_SIZE_MULT\<close> 7.\<close>

definition sample_csd_rsp :: "u32 list" where
  "sample_csd_rsp = [0x00260032, 0x5F5A80F4, 0x3FFB80F7, 0x0A4000D9]"

theorem csd_capacity_announced_witness:
  "\<exists>csd. sd_parse_csd sample_dev sample_csd_rsp = (Ok (), sample_dev, csd)
     \<and> unat (csd_sectors csd) * unat (csd_blksz csd) = (976 + 1) * 512 * 1024"
proof -
  have v: "reg_field sample_csd_rsp 126 2 = 0" "csd1_bytes sample_csd_rsp = (976 + 1) * 512 * 1024"
    by (simp_all add: reg_field_def reg_value_def sample_csd_rsp_def csd1_bytes_def)
  show ?thesis using csd_capacity_announced [of sample_csd_rsp sample_dev] unfolding v by (auto simp: sample_csd_rsp_def)
qed

lemma len32: "LENGTH(32) = 32" by simp

text \<open>Cards of high and ultra capacity count units of 512 KiB.\<close>

lemma hc_capacity:
  assumes "unat c \<le> 0x3fffff"
  defines "r \<equiv> \<lambda>csd. csd_capacity SDIO_DFLT_BLKSZ (c + 1) 1024 csd"
  shows "csd_blksz (r csd) = 512 \<and> unat (csd_sectors (r csd)) = (if unat c = 0x3fffff then 0 else (unat c + 1) * 1024)"
proof -
  have c1: "unat (c + 1) = unat c + 1" using assms(1) by (simp add: unat_word_ariths)
  have "unat ((c + 1) * 1024) = unat (c + 1) * unat (1024 :: u32) mod 2 ^ 32" by (simp only: unat_word_ariths len32)
  then have "unat ((c + 1) * 1024) = (unat c + 1) * 1024 mod 2 ^ 32" unfolding c1 by simp
  then show ?thesis using assms(1) by (auto simp: r_def csd_capacity_def SDIO_DFLT_BLKSZ_def unat_ucast_u64)
qed

text \<open>For SD cards of high and ultra capacity (CSD version 2 and 3) the number of sectors is the
  announced number, \<open>(C_SIZE + 1) * 1024\<close>, as long as \<open>C_SIZE\<close> is below 0x3fffff.  At this value and,
  because the field is limited to it, for every larger ultra capacity card, the 32-bit product
  wraps around and the card is given no sectors at all.\<close>

theorem sd_high_capacity_wraps:
  assumes "length rsp = 4" and "reg_field rsp 126 2 = 1 \<or> reg_field rsp 126 2 = 2"
  defines "c \<equiv> (if reg_field rsp 126 2 = 1 then reg_field rsp 48 22 else reg_field rsp 48 28)"
  shows "\<exists>dev' csd. sd_parse_csd dev rsp = (Ok (), dev', csd) \<and> csd_blksz csd = 512
    \<and> has (dev_caps dev') DEV_CAP_HC
    \<and> unat (csd_sectors csd) = (if c < 0x3fffff then (c + 1) * 1024 else 0)"
proof -
  have st: "unat (extract8 rsp 126 2) = reg_field rsp 126 2" using assms(1) by (simp add: unat_extract8)
  have hc: "has (dev_caps (add_caps True (DEV_CAP_HC OR w) d)) DEV_CAP_HC" for w d
    by (simp add: has_def add_caps_def flag_if_def DEV_CAP_HC_def bit.conj_disj_distrib2 and.assoc or_eq_0_iff)
  from hc [of 0] have hc0: "has (dev_caps (add_caps True DEV_CAP_HC d)) DEV_CAP_HC" for d by simp
  show ?thesis
  proof (cases "reg_field rsp 126 2 = 1")
    case True
    define cw where "cw = sdio_extract_bits rsp 128 48 22"
    have cu: "unat cw = c" using True assms(1) by (simp add: cw_def c_def unat_extract)
    have le: "unat cw \<le> 0x3fffff" using field_less [of rsp 48 22] cu True by (simp add: c_def)
    have "extract8 rsp 126 2 = 1" using st True by (simp add: word_eq_nat)
    then obtain csd where "sd_parse_csd dev rsp = (Ok (), add_caps True DEV_CAP_HC dev, csd_capacity SDIO_DFLT_BLKSZ (cw + 1) 1024 csd)"
      by (simp add: sd_parse_csd_def Let_def cw_def)
    then show ?thesis using hc_capacity [OF le, of csd] cu le hc0 by auto
  next
    case False
    then have two: "reg_field rsp 126 2 = 2" using assms(2) by simp
    define cw where "cw = (if sdio_extract_bits rsp 128 48 28 > CSD_VER_20_CSIZE_MAX then CSD_VER_20_CSIZE_MAX
        else sdio_extract_bits rsp 128 48 28)"
    have cu: "unat cw = min c 0x3fffff" and le: "unat cw \<le> 0x3fffff"
      using False assms(1) by (simp_all add: cw_def c_def unat_extract word_less_nat_alt CSD_VER_20_CSIZE_MAX_def not_less)
    have "extract8 rsp 126 2 = 2" using st two by (simp add: word_eq_nat)
    then obtain csd where "sd_parse_csd dev rsp = (Ok (), add_caps True (DEV_CAP_HC OR DEV_CAP_UC) dev,
        csd_capacity SDIO_DFLT_BLKSZ (cw + 1) 1024 csd)"
      by (simp add: sd_parse_csd_def Let_def cw_def)
    then show ?thesis using hc_capacity [OF le, of csd] cu le hc by auto
  qed
qed

text \<open>A 4 TB card announces \<open>C_SIZE\<close> 0x7fffff.\<close>

theorem sd_high_capacity_wraps_witness:
  "\<exists>dev' csd. sd_parse_csd sample_dev [0x80000000, 0x0000007F, 0xFFFF0000, 0] = (Ok (), dev', csd) \<and> csd_sectors csd = 0"
proof -
  let ?r = "[0x80000000, 0x0000007F, 0xFFFF0000, 0] :: u32 list"
  have "reg_field ?r 126 2 = 2" "reg_field ?r 48 28 = 0x7fffff" by (simp_all add: reg_field_def reg_value_def)
  then show ?thesis using sd_high_capacity_wraps [of ?r sample_dev] by (auto simp: word_eq_nat)
qed

section \<open>Bus speed of MMC devices\<close>

lemma has_or [simp]: "has (a OR b) m \<longleftrightarrow> has a m \<or> has b m"
  by (simp add: has_def bit.conj_disj_distrib2 or_eq_0_iff)

lemma has_flag_if [simp]: "has (flag_if b c) m \<longleftrightarrow> b \<and> has c m"
  by (simp add: has_def flag_if_def)

lemma dev_caps_add [simp]: "dev_caps (add_caps b c dev) = dev_caps dev OR flag_if b c"
  by (simp add: add_caps_def)

lemma dev_caps_set_ecsd [simp]: "dev_caps (set_ecsd f dev) = dev_caps dev"
  by (simp add: set_ecsd_def)

lemma ecsd_add_caps [simp]: "dev_ecsd (add_caps b c dev) = dev_ecsd dev"
  by (simp add: add_caps_def)

lemma ecsd_set_ecsd [simp]: "dev_ecsd (set_ecsd f dev) = f (dev_ecsd dev)"
  by (simp add: set_ecsd_def)

text \<open>The capabilities the choice of the speed decides about.\<close>

definition SPEED_CAPS :: u64 where
  "SPEED_CAPS = DEV_CAP_HS400 OR DEV_CAP_HS200 OR DEV_CAP_HS OR DEV_CAP_DDR50"

definition no_speed :: "sdio_dev \<Rightarrow> bool" where
  "no_speed dev \<longleftrightarrow> \<not> has (dev_caps dev) SPEED_CAPS"

lemmas cap_defs = DEV_CAP_HS400_def DEV_CAP_HS200_def DEV_CAP_HS_def DEV_CAP_DDR50_def SPEED_CAPS_def

lemma no_speed_caps: "dev_caps dev' = dev_caps dev \<Longrightarrow> no_speed dev' = no_speed dev"
  by (simp add: no_speed_def)

lemma no_speed_add: "\<not> has c SPEED_CAPS \<Longrightarrow> no_speed (add_caps b c dev) = no_speed dev"
  by (simp add: no_speed_def)

lemmas other_caps = DEV_CAP_CMD23_def DEV_CAP_HC_def DEV_CAP_WR_REL_def DEV_CAP_WR_REL_ENH_def DEV_CAP_SLEEP_def DEV_CAP_TRIM_def
  DEV_CAP_SECURE_def DEV_CAP_BKOPS_def DEV_CAP_HPI_CMD12_def DEV_CAP_CACHE_def DEV_CAP_SANITIZE_def DEV_CAP_DISCARD_def
  DEV_CAP_PWROFF_NOTIFY_def DEV_CAP_HS400ES_def DEV_CAP_BKOPS_AUTO_def

lemma other_caps_no_speed [simp]:
  "\<not> has DEV_CAP_CMD23 SPEED_CAPS" "\<not> has DEV_CAP_HC SPEED_CAPS" "\<not> has DEV_CAP_WR_REL SPEED_CAPS"
  "\<not> has DEV_CAP_WR_REL_ENH SPEED_CAPS" "\<not> has DEV_CAP_SLEEP SPEED_CAPS" "\<not> has DEV_CAP_TRIM SPEED_CAPS"
  "\<not> has DEV_CAP_SECURE SPEED_CAPS" "\<not> has DEV_CAP_BKOPS SPEED_CAPS" "\<not> has DEV_CAP_HPI_CMD12 SPEED_CAPS"
  "\<not> has DEV_CAP_CACHE SPEED_CAPS" "\<not> has DEV_CAP_SANITIZE SPEED_CAPS" "\<not> has DEV_CAP_DISCARD SPEED_CAPS"
  "\<not> has DEV_CAP_PWROFF_NOTIFY SPEED_CAPS" "\<not> has DEV_CAP_HS400ES SPEED_CAPS" "\<not> has DEV_CAP_BKOPS_AUTO SPEED_CAPS"
  by (simp_all add: other_caps cap_defs has_def)

lemma no_speed_set_ecsd [simp]: "no_speed (set_ecsd f dev) = no_speed dev"
  by (simp add: no_speed_def)

lemma no_speed_update [simp]:
  "no_speed (dev\<lparr>dev_pactive := p\<rparr>) = no_speed dev" "no_speed (dev\<lparr>dev_ecsd := e\<rparr>) = no_speed dev"
  "no_speed (dev\<lparr>dev_cid := c\<rparr>) = no_speed dev" "no_speed (dev\<lparr>dev_flags := f\<rparr>) = no_speed dev"
  "no_speed (dev\<lparr>dev_rel_wr_sec_c := r\<rparr>) = no_speed dev"
  by (simp_all add: no_speed_def)

lemma no_speed_v4:
  "no_speed (ecsd_v4_2 raw dev) = no_speed dev"
  "ecsd_v4_3 raw dev = Inr dev' \<Longrightarrow> no_speed dev' = no_speed dev"
  "no_speed (ecsd_v4_4 raw dev) = no_speed dev"
  "no_speed (ecsd_v4_41 raw dev) = no_speed dev"
  "no_speed (ecsd_v5_1 raw hc dev) = no_speed dev"
  by (auto simp: ecsd_v4_2_def ecsd_v4_3_def ecsd_v4_4_def ecsd_v4_41_def ecsd_v5_1_def Let_def no_speed_add split: if_splits)

lemma no_speed_v4_5:
  "ecsd_v4_5 raw hc dev = Inr (r, hc', dev') \<Longrightarrow> no_speed dev' = no_speed dev \<and> host_caps hc' = host_caps hc"
  by (auto simp: ecsd_v4_5_def Let_def no_speed_add split: if_splits)

text \<open>The modes host and card have in common, at a voltage both can signal.\<close>

definition both_hs400 :: "sdio_host \<Rightarrow> u8 list \<Rightarrow> bool" where
  "both_hs400 hc raw \<longleftrightarrow> (let ty = raw ! ECSD_CARD_TYPE in
     has (host_caps hc) (HC_CAP_HS400 OR HC_CAP_HS400ES)
     \<and> (has (host_caps hc) HC_CAP_SV_1_8V \<and> has ty ECSD_CARD_TYPE_HS400_1_8V
        \<or> has (host_caps hc) HC_CAP_SV_1_2V \<and> has ty ECSD_CARD_TYPE_HS400_1_2V))"

definition both_hs200 :: "sdio_host \<Rightarrow> u8 list \<Rightarrow> bool" where
  "both_hs200 hc raw \<longleftrightarrow> (let ty = raw ! ECSD_CARD_TYPE in
     has (host_caps hc) HC_CAP_HS200
     \<and> (has (host_caps hc) HC_CAP_SV_1_8V \<and> has ty ECSD_CARD_TYPE_HS200_1_8V
        \<or> has (host_caps hc) HC_CAP_SV_1_2V \<and> has ty ECSD_CARD_TYPE_HS200_1_2V))"

definition both_hs :: "sdio_host \<Rightarrow> u8 list \<Rightarrow> bool" where
  "both_hs hc raw \<longleftrightarrow> has (host_caps hc) HC_CAP_HS \<and> has (raw ! ECSD_CARD_TYPE) ECSD_CARD_TYPE_52MHZ"

definition both_ddr :: "sdio_host \<Rightarrow> u8 list \<Rightarrow> bool" where
  "both_ddr hc raw \<longleftrightarrow> (let ty = raw ! ECSD_CARD_TYPE in
     has (host_caps hc) HC_CAP_DDR50
     \<and> (has (host_caps hc) (HC_CAP_SV_3_0V OR HC_CAP_SV_1_8V) \<and> has ty ECSD_CARD_TYPE_DDR_1_8V
        \<or> has (host_caps hc) HC_CAP_SV_1_2V \<and> has ty ECSD_CARD_TYPE_DDR_1_2V))"

definition speed_agreed :: "sdio_host \<Rightarrow> u8 list \<Rightarrow> sdio_dev \<Rightarrow> bool" where
  "speed_agreed hc raw dev \<longleftrightarrow>
     (has (dev_caps dev) DEV_CAP_HS400 \<longleftrightarrow> both_hs400 hc raw) \<and> (has (dev_caps dev) DEV_CAP_HS200 \<longleftrightarrow> both_hs200 hc raw)
   \<and> (has (dev_caps dev) DEV_CAP_DDR50 \<longleftrightarrow> both_ddr hc raw)
   \<and> (has (dev_caps dev) DEV_CAP_HS \<longleftrightarrow> both_hs400 hc raw \<or> both_hs200 hc raw \<or> both_hs hc raw)
   \<and> ecsd_dtr_max_hs (dev_ecsd dev) = (if both_hs400 hc raw \<or> both_hs200 hc raw then 200000000
        else if both_hs hc raw then 52000000 else 26000000)"

lemma has_speed [simp]:
  "has DEV_CAP_HS400 DEV_CAP_HS400" "\<not> has DEV_CAP_HS400 DEV_CAP_HS200" "\<not> has DEV_CAP_HS400 DEV_CAP_HS" "\<not> has DEV_CAP_HS400 DEV_CAP_DDR50"
  "\<not> has DEV_CAP_HS200 DEV_CAP_HS400" "has DEV_CAP_HS200 DEV_CAP_HS200" "\<not> has DEV_CAP_HS200 DEV_CAP_HS" "\<not> has DEV_CAP_HS200 DEV_CAP_DDR50"
  "\<not> has DEV_CAP_HS DEV_CAP_HS400" "\<not> has DEV_CAP_HS DEV_CAP_HS200" "has DEV_CAP_HS DEV_CAP_HS" "\<not> has DEV_CAP_HS DEV_CAP_DDR50"
  "\<not> has DEV_CAP_DDR50 DEV_CAP_HS400" "\<not> has DEV_CAP_DDR50 DEV_CAP_HS200" "\<not> has DEV_CAP_DDR50 DEV_CAP_HS" "has DEV_CAP_DDR50 DEV_CAP_DDR50"
  by (simp_all add: cap_defs has_def)

lemma has_or_mask: "has a (m OR n) \<longleftrightarrow> has a m \<or> has a n"
  by (simp add: has_def bit.conj_disj_distrib or_eq_0_iff)

lemma no_speedD: "no_speed dev \<Longrightarrow> \<not> has (dev_caps dev) DEV_CAP_HS400 \<and> \<not> has (dev_caps dev) DEV_CAP_HS200
    \<and> \<not> has (dev_caps dev) DEV_CAP_HS \<and> \<not> has (dev_caps dev) DEV_CAP_DDR50"
  by (simp add: no_speed_def SPEED_CAPS_def has_or_mask)

lemma card_type_mask: "(t AND ECSD_CARD_TYPE_MSK) = (t :: u8)"
proof -
  have "(0xff :: u8) = mask 8" by (simp add: mask_eq_exp_minus_1)
  then show ?thesis unfolding ECSD_CARD_TYPE_MSK_def by (simp only: take_bit_eq_mask [symmetric]) (simp add: take_bit_word_eq_self)
qed

lemma ecsd_speed_agreed:
  assumes "no_speed dev"
  shows "speed_agreed hc raw (ecsd_speed raw hc dev)"
proof -
  note n = no_speedD [OF assms]
  have t4: "has ty ECSD_CARD_TYPE_HS400 \<longleftrightarrow> has ty ECSD_CARD_TYPE_HS400_1_8V \<or> has ty ECSD_CARD_TYPE_HS400_1_2V" for ty
    by (simp add: ECSD_CARD_TYPE_HS400_def has_or_mask)
  have t2: "has ty ECSD_CARD_TYPE_HS200 \<longleftrightarrow> has ty ECSD_CARD_TYPE_HS200_1_8V \<or> has ty ECSD_CARD_TYPE_HS200_1_2V" for ty
    by (simp add: ECSD_CARD_TYPE_HS200_def has_or_mask)
  have td: "has ty ECSD_CARD_TYPE_DDR \<longleftrightarrow> has ty ECSD_CARD_TYPE_DDR_1_8V \<or> has ty ECSD_CARD_TYPE_DDR_1_2V" for ty
    by (simp add: ECSD_CARD_TYPE_DDR_def has_or_mask)
  have b4: "(has (host_caps hc) (HC_CAP_HS400 OR HC_CAP_HS400ES) \<and> has (raw ! ECSD_CARD_TYPE) ECSD_CARD_TYPE_HS400
       \<and> volt_ok hc HC_CAP_SV_1_8V (raw ! ECSD_CARD_TYPE) ECSD_CARD_TYPE_HS400_1_8V ECSD_CARD_TYPE_HS400_1_2V) = both_hs400 hc raw"
    by (auto simp: both_hs400_def volt_ok_def t4 Let_def)
  have b2: "(has (host_caps hc) HC_CAP_HS200 \<and> has (raw ! ECSD_CARD_TYPE) ECSD_CARD_TYPE_HS200
       \<and> volt_ok hc HC_CAP_SV_1_8V (raw ! ECSD_CARD_TYPE) ECSD_CARD_TYPE_HS200_1_8V ECSD_CARD_TYPE_HS200_1_2V) = both_hs200 hc raw"
    by (auto simp: both_hs200_def volt_ok_def t2 Let_def)
  have bd: "(has (host_caps hc) HC_CAP_DDR50 \<and> has (raw ! ECSD_CARD_TYPE) ECSD_CARD_TYPE_DDR
       \<and> volt_ok hc (HC_CAP_SV_3_0V OR HC_CAP_SV_1_8V) (raw ! ECSD_CARD_TYPE) ECSD_CARD_TYPE_DDR_1_8V ECSD_CARD_TYPE_DDR_1_2V) = both_ddr hc raw"
    by (auto simp: both_ddr_def volt_ok_def td Let_def)
  have r: "DTR_MAX_HS400 = 200000000" "DTR_MAX_HS200 = 200000000" "DTR_MAX_HS52 = 52000000" "DTR_MAX_HS26 = 26000000"
    by (simp_all add: DTR_MAX_HS400_def DTR_MAX_HS200_def DTR_MAX_HS52_def DTR_MAX_HS26_def)
  show ?thesis
    unfolding speed_agreed_def ecsd_speed_def Let_def card_type_mask b4 b2 bd r
    using n by (cases "both_hs400 hc raw"; cases "both_hs200 hc raw"; cases "both_ddr hc raw"; cases "both_hs hc raw")
      (auto simp: both_hs_def)
qed

lemma no_speed_upto: "ecsd_upto_4_41 raw dev = Inr dev' \<Longrightarrow> no_speed dev' = no_speed dev"
  by (auto simp: ecsd_upto_4_41_def Let_def no_speed_v4 split: if_splits)

lemma speed_agreed_tail: "speed_agreed hc raw (ecsd_tail raw' dev) = speed_agreed hc raw dev"
  by (simp add: speed_agreed_def ecsd_tail_def)

lemma speed_agreed_host: "host_caps h = host_caps hc \<Longrightarrow> speed_agreed hc raw dev = speed_agreed h raw dev"
  by (simp add: speed_agreed_def both_hs400_def both_hs200_def both_hs_def both_ddr_def)

text \<open>C18: The parser of the extended CSD register gives the device a bus speed exactly when the host and
  the card have it in common at a signal voltage both support, and the maximum clock rate is
  that of the fastest such mode: 200 MHz for HS200 and HS400, 52 MHz for high speed, and 26 MHz
  otherwise.\<close>

theorem ext_csd_speed_agreed:
  assumes "mmc_parse_ext_csd hc dev raw = Inr (Ok (), hc', dev', raw')" and "no_speed dev"
  shows "speed_agreed hc raw dev' \<and> host_caps hc' = host_caps hc"
proof -
  define d0 where "d0 = add_caps True DEV_CAP_CMD23 (dev\<lparr>dev_pactive := 0,
    dev_ecsd := zero_ecsd\<lparr>ecsd_ext_csd_rev := raw ! ECSD_REV, ecsd_blksz := SDIO_DFLT_BLKSZ\<rparr>\<rparr>)"
  have "no_speed d0" using assms(2) by (simp add: d0_def no_speed_add)
  obtain d4 x where d4: "ecsd_upto_4_41 raw d0 = Inr d4"
    and x: "(if raw ! ECSD_REV \<ge> ECSD_REV_V4_5 then ecsd_v4_5 raw hc d4 else Inr (Ok (), hc, d4)) = Inr x"
    and px: "(case x of (r, h, d5) \<Rightarrow> case r of Fail e \<Rightarrow> Inr (Fail e, h, d5, raw) | Ok _ \<Rightarrow> Inr (Ok (), h, ecsd_tail (ecsd_defaults raw)
        (ecsd_speed raw h (if raw ! ECSD_REV \<ge> ECSD_REV_V5_1 then ecsd_v5_1 raw h d5 else d5)), ecsd_defaults raw))
      = (Inr (Ok (), hc', dev', raw') :: (unit ret \<times> sdio_host \<times> sdio_dev \<times> u8 list) result)"
    using assms(1) unfolding mmc_parse_ext_csd_def Let_def d0_def [symmetric] bind_result_eq_Inr by blast
  obtain r h d5 where xe: "x = (r, h, d5)" by (cases x)
  have d5: "(if raw ! ECSD_REV \<ge> ECSD_REV_V4_5 then ecsd_v4_5 raw hc d4 else Inr (Ok (), hc, d4)) = Inr (r, h, d5)"
    and p: "(case r of Fail e \<Rightarrow> Inr (Fail e, h, d5, raw) | Ok _ \<Rightarrow> Inr (Ok (), h, ecsd_tail (ecsd_defaults raw)
        (ecsd_speed raw h (if raw ! ECSD_REV \<ge> ECSD_REV_V5_1 then ecsd_v5_1 raw h d5 else d5)), ecsd_defaults raw))
      = (Inr (Ok (), hc', dev', raw') :: (unit ret \<times> sdio_host \<times> sdio_dev \<times> u8 list) result)"
    using x px unfolding xe prod.case by blast+
  have "no_speed d4" using no_speed_upto [OF d4] \<open>no_speed d0\<close> by simp
  then have n5: "no_speed d5 \<and> host_caps h = host_caps hc"
    using d5 no_speed_v4_5 [of raw hc d4 r h d5] by (auto split: if_splits)
  define d6 where "d6 = (if raw ! ECSD_REV \<ge> ECSD_REV_V5_1 then ecsd_v5_1 raw h d5 else d5)"
  have "no_speed d6" using n5 by (simp add: d6_def no_speed_v4)
  note s = ecsd_speed_agreed [OF this, of h raw]
  have "hc' = h \<and> dev' = ecsd_tail (ecsd_defaults raw) (ecsd_speed raw h d6)"
  proof (cases r)
    case (Ok u)
    show ?thesis using p unfolding d6_def [symmetric] Ok ret.case sum.inject prod.inject by (elim conjE) (rule conjI; erule sym)
  qed (use p in simp)
  then have "hc' = h" "speed_agreed h raw dev'" using s by (simp_all add: speed_agreed_tail)
  then show ?thesis using n5 speed_agreed_host [of h hc raw dev'] by blast
qed

text \<open>A device of revision 5.1 with every card type on a host that has HS200 at 1.8 V only.\<close>

definition sample_hs200_host :: sdio_host where
  "sample_hs200_host = \<lparr>host_caps = HC_CAP_HS OR HC_CAP_HS200 OR HC_CAP_SV_1_8V, host_flags = 0, host_drv_type = 0\<rparr>"

definition sample_ecsd :: "u8 list" where
  "sample_ecsd = (replicate 512 0)[ECSD_REV := 8, ECSD_CARD_TYPE := 0xff]"

lemma sample_ecsd_nth: "n < 512 \<Longrightarrow> sample_ecsd ! n = (if n = 196 then 0xff else if n = 192 then 8 else 0)"
  by (simp add: sample_ecsd_def nth_list_update ECSD_REV_def ECSD_CARD_TYPE_def)

lemma sample_ecsd_parse: "\<exists>hc' dev' raw'. mmc_parse_ext_csd sample_hs200_host sample_dev sample_ecsd = Inr (Ok (), hc', dev', raw')"
  unfolding mmc_parse_ext_csd_def ecsd_upto_4_41_def ecsd_v4_5_def ecsd_v4_3_def Let_def
  by (simp add: sample_ecsd_nth ECSD_REV_def ECSD_ACC_SIZE_def ECSD_USE_NATIVE_SECTOR_def sample_hs200_host_def
      has_def)

theorem ext_csd_speed_agreed_witness:
  "\<exists>hc' dev' raw'. mmc_parse_ext_csd sample_hs200_host sample_dev sample_ecsd = Inr (Ok (), hc', dev', raw')
     \<and> has (dev_caps dev') DEV_CAP_HS200 \<and> \<not> has (dev_caps dev') DEV_CAP_HS400 \<and> ecsd_dtr_max_hs (dev_ecsd dev') = 200000000"
proof -
  obtain hc' dev' raw' where p: "mmc_parse_ext_csd sample_hs200_host sample_dev sample_ecsd = Inr (Ok (), hc', dev', raw')"
    using sample_ecsd_parse by blast
  have n: "no_speed sample_dev" by code_simp
  have b: "both_hs200 sample_hs200_host sample_ecsd" "\<not> both_hs400 sample_hs200_host sample_ecsd"
    by (simp_all add: both_hs200_def both_hs400_def sample_ecsd_nth ECSD_CARD_TYPE_def Let_def sample_hs200_host_def has_def
        HC_CAP_HS200_def HC_CAP_HS_def HC_CAP_HS400_def HC_CAP_HS400ES_def HC_CAP_SV_1_8V_def ECSD_CARD_TYPE_HS200_1_8V_def)
  from ext_csd_speed_agreed [OF p n] b p show ?thesis by (auto simp: speed_agreed_def)
qed

end
