(* ===== verification/Sdio_Cmd_Props.thy ===== *)
theory Sdio_Cmd_Props
  imports Sdio_Cmd Sdio_Props
begin

text \<open>
  What the command layer guarantees: bounded retries, the commands on the bus, the state a
  command leaves behind, and that an erase addresses exactly the requested sectors.
\<close>

section \<open>A command without companions\<close>

text \<open>A reply after which the same command is sent again.\<close>

definition retryable :: "sd_env \<Rightarrow> nat \<Rightarrow> bool" where
  "retryable env i = (case env_issue env i of (r, cs, rsp) \<Rightarrow>
     r = Ok () \<and> cs \<noteq> CS_CARD_REMOVED \<and> cs \<noteq> CS_CMD_CMP \<and> \<not> has (rsp ! 0) CDS_ILLEGAL_COMMAND)"

definition completed :: "sd_env \<Rightarrow> nat \<Rightarrow> u32 list \<Rightarrow> bool" where
  "completed env i rsp \<longleftrightarrow> env_issue env i = (Ok (), CS_CMD_CMP, rsp)"

definition plain_cmd :: "sdio_cmd \<Rightarrow> bool" where
  "plain_cmd cmd \<longleftrightarrow> \<not> has (sc_flags cmd) SCF_APP_CMD \<and> \<not> has (sc_flags cmd) SCF_SBC \<and> \<not> has (sc_flags cmd) SCF_WAIT_DRDY"

lemma want_tune_simps [simp]:
  "bus_log (want_tune cs st) = bus_log st" "bus_dev (want_tune cs st) = bus_dev st"
  "host_caps (bus_hc (want_tune cs st)) = host_caps (bus_hc st)"
  by (simp_all add: want_tune_def)

lemma set_caps_simps [simp]:
  "bus_log (set_caps c st) = bus_log st" "bus_dev (set_caps c st) = bus_dev st"
  "host_caps (bus_hc (set_caps c st)) = c"
  by (simp_all add: set_caps_def)

lemma send_pass_noop:
  "send_pass noop noop env cmd t rsp st = (p, rsp', st') \<Longrightarrow>
     bus_log st' = bus_log st @ [(cmd, t)] \<and> bus_dev st' = bus_dev st \<and> host_caps (bus_hc st') = host_caps (bus_hc st)
     \<and> ((\<exists>e. p = Again e) \<longleftrightarrow> retryable env (length (bus_log st)))
     \<and> (p = Break (Ok ()) \<longrightarrow> completed env (length (bus_log st)) rsp')"
  by (auto simp: send_pass_def noop_def retryable_def completed_def Let_def split: ret.splits prod.splits if_splits)

lemma send_loop_noop:
  "send_loop n noop noop env cmd t rsp st = (p, rsp', st') \<Longrightarrow>
     (\<exists>k \<le> n. bus_log st' = bus_log st @ replicate (Suc k) (cmd, t) \<and> bus_dev st' = bus_dev st
        \<and> host_caps (bus_hc st') = host_caps (bus_hc st)
        \<and> (\<forall>i < k. retryable env (length (bus_log st) + i))
        \<and> (\<forall>e. p \<noteq> Again e)
        \<and> (p = Break (Ok ()) \<longrightarrow> completed env (length (bus_log st) + k) rsp'))"
proof (induction n arbitrary: rsp st)
  case 0
  obtain q rsp1 st1 where s: "send_pass noop noop env cmd t rsp st = (q, rsp1, st1)" by (metis prod_cases3)
  from send_pass_noop [OF s] 0 show ?case by (auto simp: s split: pass.splits)
next
  case (Suc n)
  obtain q rsp1 st1 where s: "send_pass noop noop env cmd t rsp st = (q, rsp1, st1)" by (metis prod_cases3)
  note p = send_pass_noop [OF s]
  show ?case
  proof (cases "\<exists>e. q = Again e")
    case True
    then have "send_loop n noop noop env cmd t rsp1 st1 = (p, rsp', st')" using Suc.prems by (auto simp: s)
    from Suc.IH [OF this] obtain k where k: "k \<le> n" "bus_log st' = bus_log st1 @ replicate (Suc k) (cmd, t)"
      "bus_dev st' = bus_dev st1" "host_caps (bus_hc st') = host_caps (bus_hc st1)"
      "\<forall>i < k. retryable env (length (bus_log st1) + i)" "\<forall>e. p \<noteq> Again e"
      "p = Break (Ok ()) \<longrightarrow> completed env (length (bus_log st1) + k) rsp'" by blast
    have r: "\<forall>i < Suc k. retryable env (length (bus_log st) + i)"
    proof (intro allI impI)
      fix i assume "i < Suc k"
      then show "retryable env (length (bus_log st) + i)" using k(5) p True by (cases i) auto
    qed
    then show ?thesis using k p by (intro exI [of _ "Suc k"]) (simp add: r)
  next
    case False
    then have "(q, rsp1, st1) = (p, rsp', st')" using Suc.prems by (cases q) (simp_all add: s)
    then show ?thesis using p False by (intro exI [of _ 0]) auto
  qed
qed

lemma send_plain_run:
  assumes "send_plain env cmd t n st = (r, rsp, st')"
  shows "\<exists>k \<le> Suc n. bus_log st' = bus_log st @ replicate k (cmd, t) \<and> bus_dev st' = bus_dev st
    \<and> (\<forall>i. Suc i < k \<longrightarrow> retryable env (length (bus_log st) + i))
    \<and> (r = Ok () \<longrightarrow> 0 < k \<and> completed env (length (bus_log st) + k - 1) rsp)"
proof (cases "env_pm env (length (bus_log st))")
  case (Ok u)
  define st0 where "st0 = (if has (sc_flags cmd) SCF_SBC_RLW then set_caps (host_caps (bus_hc st) AND NOT ACMD_CAPS) st else st)"
  have st0: "bus_log st0 = bus_log st" "bus_dev st0 = bus_dev st" by (simp_all add: st0_def)
  obtain p rsp1 st1 where s: "send_loop n noop noop env cmd t [0, 0, 0, 0] st0 = (p, rsp1, st1)" by (metis prod_cases3)
  from send_loop_noop [OF s] obtain k where k: "k \<le> n" "bus_log st1 = bus_log st @ replicate (Suc k) (cmd, t)"
    "bus_dev st1 = bus_dev st" "\<forall>i < k. retryable env (length (bus_log st) + i)" "\<forall>e. p \<noteq> Again e"
    "p = Break (Ok ()) \<longrightarrow> completed env (length (bus_log st) + k) rsp1" unfolding st0 by blast
  have "bus_log st' = bus_log st1 \<and> bus_dev st' = bus_dev st1 \<and> (r = Ok () \<longrightarrow> p = Break (Ok ()) \<and> rsp = rsp1)"
    using assms Ok s by (auto simp: send_plain_def send_cmd_with_def Let_def st0_def split: pass.splits if_splits)
  then show ?thesis using k by (intro exI [of _ "Suc k"]) auto
qed (use assms in \<open>auto simp: send_plain_def send_cmd_with_def intro: exI [of _ 0]\<close>)

lemma send_cmd_plain: "plain_cmd cmd \<Longrightarrow> sdio_send_cmd env cmd t n st = send_plain env cmd t n st"
proof -
  assume "plain_cmd cmd"
  then have "send_pre env cmd = noop" "send_post env cmd t = noop"
    by (auto simp: fun_eq_iff plain_cmd_def send_pre_def send_post_def seq_def noop_def)
  then show ?thesis by (simp add: sdio_send_cmd_def send_plain_def)
qed

section \<open>What sending keeps\<close>

text \<open>
  A relation between the states before and after that allows commands to be issued and tuning
  to be requested holds for all operations of the layer that leave the host's automatic
  commands alone.
\<close>

definition keeps :: "(sd_bus \<Rightarrow> sd_bus \<Rightarrow> bool) \<Rightarrow> 'a bus_op \<Rightarrow> bool" where
  "keeps R m \<longleftrightarrow> (\<forall>st. R st (snd (m st)))"

lemma keepsD: "keeps R m \<Longrightarrow> m st = (r, st') \<Longrightarrow> R st st'"
  by (metis keeps_def snd_conv)

lemma keeps_if: "keeps R m \<Longrightarrow> keeps R m' \<Longrightarrow> keeps R (\<lambda>st. if P st then m st else m' st)"
  by (simp add: keeps_def)

lemmas rsp_flag_defs = SCF_SBC_RLW_def SCF_CTYPE_AC_def SCF_CTYPE_BC_def SCF_CTYPE_BCR_def SCF_RSP_NONE_def SCF_RSP_R1_def
  SCF_RSP_R1B_def SCF_RSP_R2_def SCF_RSP_PRESENT_def SCF_RSP_CRC_def SCF_RSP_OPCODE_def SCF_RSP_BUSY_def SCF_RSP_136_def
  SCF_APP_CMD_def SCF_SBC_def SCF_WAIT_DRDY_def has_def

locale bus_relation =
  fixes R :: "sd_bus \<Rightarrow> sd_bus \<Rightarrow> bool"
  assumes R_refl: "R st st"
    and R_trans: "R st1 st2 \<Longrightarrow> R st2 st3 \<Longrightarrow> R st1 st3"
    and R_issue: "R st (st\<lparr>bus_log := bus_log st @ [c]\<rparr>)"
    and R_tune: "R st (want_tune cs st)"
begin

lemma keeps_noop: "keeps R noop"
  by (simp add: keeps_def noop_def R_refl)

lemma keeps_seq: "keeps R m \<Longrightarrow> (\<And>x. keeps R (f x)) \<Longrightarrow> keeps R (seq m f)"
  by (simp add: keeps_def seq_def split: prod.splits ret.splits) (metis R_trans snd_conv)

lemma send_pass:
  assumes "keeps R pre" and "keeps R post" and "send_pass pre post env cmd t rsp st = (p, rsp', st')"
  shows "R st st'"
proof -
  obtain r st1 where pre: "pre st = (r, st1)" by force
  have R1: "R st st1" using keepsD [OF assms(1) pre] .
  obtain q cs rsp1 where i: "env_issue env (length (bus_log st1)) = (q, cs, rsp1)" by (metis prod_cases3)
  define st2 where "st2 = st1\<lparr>bus_log := bus_log st1 @ [(cmd, t)]\<rparr>"
  have R2: "R st st2" using R_trans [OF R1 R_issue] by (simp add: st2_def)
  obtain z st3 where post: "post st2 = (z, st3)" by force
  have R3: "R st st3" using R_trans [OF R2 keepsD [OF assms(2) post]] .
  have "st' = st1 \<or> st' = st2 \<or> st' = st3 \<or> st' = want_tune cs st2"
    using assms(3) by (auto simp: send_pass_def pre i post Let_def st2_def [symmetric] split: ret.splits if_splits)
  then show ?thesis using R1 R2 R3 R_trans [OF R2 R_tune] by blast
qed

lemma send_loop:
  assumes "keeps R pre" and "keeps R post"
  shows "send_loop n pre post env cmd t rsp st = (p, rsp', st') \<Longrightarrow> R st st'"
proof (induction n arbitrary: rsp st)
  case 0
  then show ?case using send_pass [OF assms] by (auto split: prod.splits pass.splits)
next
  case (Suc n)
  obtain q rsp1 st1 where s: "send_pass pre post env cmd t rsp st = (q, rsp1, st1)" by (metis prod_cases3)
  note R1 = send_pass [OF assms s]
  show ?case
  proof (cases "\<exists>e. q = Again e")
    case True
    then have "send_loop n pre post env cmd t rsp1 st1 = (p, rsp', st')" using Suc.prems s by auto
    from R_trans [OF R1 Suc.IH [OF this]] show ?thesis .
  next
    case False
    then show ?thesis using Suc.prems s R1 by (cases q) auto
  qed
qed

lemma send_plain:
  assumes "send_plain env cmd t n st = (r, rsp, st')" and "\<not> has (sc_flags cmd) SCF_SBC_RLW"
  shows "R st st'"
proof (cases "env_pm env (length (bus_log st))")
  case (Ok u)
  obtain p rsp1 st1 where s: "send_loop n noop noop env cmd t [0, 0, 0, 0] st = (p, rsp1, st1)" by (metis prod_cases3)
  have "st' = st1" using assms Ok s by (auto simp: send_plain_def send_cmd_with_def Let_def split: pass.splits)
  then show ?thesis using send_loop [OF keeps_noop keeps_noop s] by simp
qed (use assms R_refl in \<open>auto simp: send_plain_def send_cmd_with_def\<close>)

lemma keeps_simple: "\<not> has flgs SCF_SBC_RLW \<Longrightarrow> keeps R (simple_cmd env flgs opc arg t n)"
  by (auto simp: keeps_def simple_cmd_def setup_cmd_def R_refl dest!: send_plain split: prod.splits ret.splits)

lemma keeps_status: "keeps R (sdio_send_status env hpi)"
proof -
  have "\<not> has (SCF_CTYPE_AC OR SCF_RSP_R1) SCF_SBC_RLW" by (simp add: rsp_flag_defs)
  from keeps_simple [OF this] show ?thesis by (simp add: keeps_def sdio_send_status_def)
qed

lemma keeps_wait: "keeps R (wait_status_loop n env msk val)"
proof (induction n)
  case (Suc n)
  show ?case unfolding keeps_def
  proof
    fix st
    obtain q st1 where s: "sdio_send_status env False st = (q, st1)" by force
    have "R st st1" using keepsD [OF keeps_status s] .
    moreover have "R st1 (snd (wait_status_loop n env msk val st1))" using Suc.IH by (simp add: keeps_def)
    ultimately show "R st (snd (wait_status_loop (Suc n) env msk val st))"
      using R_trans by (auto simp: s split: ret.splits)
  qed
qed (simp add: keeps_def R_refl)

lemma keeps_ignore: "keeps R m \<Longrightarrow> keeps R (ignore_rsp m)"
  unfolding ignore_rsp_def by (rule keeps_seq) (simp_all add: keeps_noop)

lemma keeps_app: "keeps R (sd_app_cmd env)"
proof -
  have "keeps R (ignore_rsp (simple_cmd env ((if c then SCF_CTYPE_BCR else SCF_CTYPE_BC) OR SCF_RSP_R1) opc arg t n))" for c opc arg t n
    by (intro keeps_ignore keeps_simple) (cases c; simp add: rsp_flag_defs)
  then show ?thesis by (simp add: keeps_def sd_app_cmd_def Let_def)
qed

lemma keeps_count: "keeps R (sdio_set_block_count env b f)"
  unfolding sdio_set_block_count_def by (intro keeps_ignore keeps_simple) (simp add: rsp_flag_defs)

lemma keeps_pre: "keeps R (send_pre env cmd)"
  unfolding send_pre_def by (intro keeps_seq keeps_if keeps_count) (simp_all add: keeps_app keeps_noop)

lemma keeps_post: "keeps R (send_post env cmd t)"
proof -
  have "keeps R (\<lambda>st. if has (sc_flags cmd) SCF_WAIT_DRDY \<and> \<not> has (host_caps (bus_hc st)) HC_CAP_BSY
      then sdio_wait_card_status env msk val t st else noop st)" for msk val
    by (rule keeps_if) (simp_all add: sdio_wait_card_status_def keeps_wait keeps_noop)
  then show ?thesis by (simp add: keeps_def send_post_def)
qed

end

text \<open>Two such relations: the capabilities of the host stay, and the commands issued before stay.\<close>

interpretation caps: bus_relation "\<lambda>st st'. host_caps (bus_hc st') = host_caps (bus_hc st)"
  by unfold_locales simp_all

interpretation log: bus_relation "\<lambda>st st'. \<exists>l. bus_log st' = bus_log st @ l"
  by unfold_locales auto

lemma send_loop_not_again: "send_loop n pre post env cmd t rsp st = (p, rsp', st') \<Longrightarrow> p \<noteq> Again e"
  by (induction n arbitrary: rsp st) (auto split: prod.splits pass.splits)

text \<open>No command is ever taken back from the bus, whatever flags it has.\<close>

lemma send_cmd_log:
  assumes "sdio_send_cmd env cmd t n st = (r, rsp, st')"
  shows "\<exists>l. bus_log st' = bus_log st @ l"
proof (cases "env_pm env (length (bus_log st))")
  case (Ok u)
  define st0 where "st0 = (if has (sc_flags cmd) SCF_SBC_RLW then set_caps (host_caps (bus_hc st) AND NOT ACMD_CAPS) st else st)"
  obtain p rsp1 st1 where s: "send_loop n (send_pre env cmd) (send_post env cmd t) env cmd t [0, 0, 0, 0] st0 = (p, rsp1, st1)"
    by (metis prod_cases3)
  have "bus_log st' = bus_log st1"
    using assms Ok s by (auto simp: sdio_send_cmd_def send_cmd_with_def Let_def st0_def [symmetric] split: pass.splits)
  then show ?thesis using log.send_loop [OF log.keeps_pre log.keeps_post s] by (simp add: st0_def split: if_splits)
qed (use assms in \<open>auto simp: sdio_send_cmd_def send_cmd_with_def\<close>)

section \<open>Capabilities of the host\<close>

lemma caps_restored: "(c AND NOT m) OR (c AND m) = (c :: u64)"
  by (rule bit_word_eqI) (auto simp: bit_simps)

lemma caps_no_bits: "c AND m = 0 \<Longrightarrow> c AND NOT m = (c :: u64)"
  by (metis caps_restored or.right_neutral)

text \<open>Sending a command leaves the capabilities of the host as they were, whatever companion
  commands, retries and errors there are, except when the card is found removed: a reliable
  write then leaves the host without its automatic commands 12 and 23.\<close>

theorem send_cmd_caps:
  assumes "sdio_send_cmd env cmd t n st = (r, rsp, st')"
  shows "(r \<noteq> Fail ENXIO \<longrightarrow> host_caps (bus_hc st') = host_caps (bus_hc st))
    \<and> (host_caps (bus_hc st') = host_caps (bus_hc st) \<or> has (sc_flags cmd) SCF_SBC_RLW
         \<and> host_caps (bus_hc st') = host_caps (bus_hc st) AND NOT (HC_CAP_ACMD23 OR HC_CAP_ACMD12))"
proof (cases "env_pm env (length (bus_log st))")
  case (Ok u)
  let ?c = "host_caps (bus_hc st)"
  define st0 where "st0 = (if has (sc_flags cmd) SCF_SBC_RLW then set_caps (?c AND NOT ACMD_CAPS) st else st)"
  obtain p rsp1 st1 where s: "send_loop n (send_pre env cmd) (send_post env cmd t) env cmd t [0, 0, 0, 0] st0 = (p, rsp1, st1)"
    by (metis prod_cases3)
  note k = caps.send_loop [OF caps.keeps_pre caps.keeps_post s]
  define ac where "ac = (if has (sc_flags cmd) SCF_SBC_RLW then ?c AND ACMD_CAPS else 0)"
  have r: "(r, rsp, st') = (case (p, rsp1, st1) of (Card_gone, rsp, st) \<Rightarrow> (Fail ENXIO, rsp, st)
       | (Break r, rsp, st) \<Rightarrow> (r, rsp, if ac \<noteq> 0 then set_caps (host_caps (bus_hc st) OR ac) st else st)
       | (Again e, rsp, st) \<Rightarrow> (Fail e, rsp, st))"
    unfolding s [symmetric] ac_def using assms Ok
    by (simp add: sdio_send_cmd_def send_cmd_with_def Let_def st0_def [symmetric])
  have c1: "host_caps (bus_hc st1) = (if has (sc_flags cmd) SCF_SBC_RLW then ?c AND NOT ACMD_CAPS else ?c)"
    using k by (simp add: st0_def)
  show ?thesis
  proof (cases p)
    case (Break q)
    then have st': "st' = (if ac \<noteq> 0 then set_caps (host_caps (bus_hc st1) OR ac) st1 else st1)" using r by simp
    have "host_caps (bus_hc st') = ?c"
    proof (cases "has (sc_flags cmd) SCF_SBC_RLW")
      case True
      then show ?thesis using c1 caps_restored [of ?c ACMD_CAPS] caps_no_bits [of ?c ACMD_CAPS] by (simp add: st' ac_def)
    qed (use c1 in \<open>simp add: st' ac_def\<close>)
    then show ?thesis by simp
  next
    case Card_gone
    then show ?thesis using r c1 by (auto simp: ACMD_CAPS_def)
  qed (use send_loop_not_again [OF s] in simp)
qed (use assms in \<open>auto simp: sdio_send_cmd_def send_cmd_with_def\<close>)

definition sample_host :: sdio_host where
  "sample_host = \<lparr>host_caps = HC_CAP_ACMD23 OR HC_CAP_ACMD12 OR HC_CAP_DMA, host_flags = 0, host_drv_type = 0\<rparr>"

definition sample_bus :: sd_bus where
  "sample_bus = \<lparr>bus_dev = sample_dev, bus_hc = sample_host, bus_log = []\<rparr>"

definition good_env :: sd_env where
  "good_env = \<lparr>env_alloc = \<lambda>_. True, env_buf = \<lambda>_. True, env_pm = \<lambda>_. Ok (),
     env_issue = \<lambda>_. (Ok (), CS_CMD_CMP, [CDS_READY_FOR_DATA OR CDS_CUR_STATE_TRAN, 0, 0, 0])\<rparr>"

definition removed_env :: sd_env where
  "removed_env = good_env\<lparr>env_issue := \<lambda>_. (Ok (), CS_CARD_REMOVED, [0, 0, 0, 0])\<rparr>"

text \<open>A reliable write to a card that was removed.\<close>

theorem send_cmd_caps_witness:
  "host_caps (bus_hc (snd (snd (sdio_send_cmd removed_env (setup_cmd (SCF_SBC_RLW OR SCF_RSP_R1) 25 0) 1000 0 sample_bus))))
     = HC_CAP_DMA"
proof -
  let ?x = "sdio_send_cmd removed_env (setup_cmd (SCF_SBC_RLW OR SCF_RSP_R1) 25 0) 1000 0 sample_bus"
  obtain r rsp st where x: "?x = (r, rsp, st)" by (metis prod_cases3)
  have "host_caps (bus_hc (snd (snd ?x))) \<noteq> host_caps (bus_hc sample_bus)" by code_simp
  with send_cmd_caps [OF x] have "host_caps (bus_hc st) = host_caps (bus_hc sample_bus) AND NOT (HC_CAP_ACMD23 OR HC_CAP_ACMD12)"
    by (simp add: x)
  moreover have "host_caps (bus_hc sample_bus) AND NOT (HC_CAP_ACMD23 OR HC_CAP_ACMD12) = HC_CAP_DMA" by code_simp
  ultimately show ?thesis by (simp add: x)
qed

section \<open>Waiting for the card\<close>

text \<open>A successful operation that issues commands of one kind, at least one, and ends with a completed one.\<close>

lemma simple_cmd_ok:
  assumes "simple_cmd env flgs opc arg t n st = (r, st')"
  shows "\<exists>k \<le> n + 1. bus_log st' = bus_log st @ replicate k (setup_cmd flgs opc arg, t) \<and> bus_dev st' = bus_dev st
    \<and> (\<forall>rsp. r = Ok rsp \<longrightarrow> 0 < k \<and> completed env (length (bus_log st') - 1) rsp)"
proof (cases "env_alloc env (length (bus_log st))")
  case True
  obtain q rsp st1 where s: "send_plain env (setup_cmd flgs opc arg) t n st = (q, rsp, st1)" by (metis prod_cases3)
  from send_plain_run [OF s] obtain k where k: "k \<le> Suc n" "bus_log st1 = bus_log st @ replicate k (setup_cmd flgs opc arg, t)"
    "bus_dev st1 = bus_dev st" "q = Ok () \<longrightarrow> 0 < k \<and> completed env (length (bus_log st) + k - 1) rsp" by blast
  have "st' = st1 \<and> (\<forall>rs. r = Ok rs \<longrightarrow> q = Ok () \<and> rs = rsp)" using assms True s by (auto simp: simple_cmd_def split: ret.splits)
  with k show ?thesis by (intro exI [of _ k]) auto
qed (use assms in \<open>auto simp: simple_cmd_def intro: exI [of _ 0]\<close>)

text \<open>The last reply shows the card in the state waited for, without an error.\<close>

definition card_state :: "sd_env \<Rightarrow> nat \<Rightarrow> u32 \<Rightarrow> u32 \<Rightarrow> bool" where
  "card_state env i msk val \<longleftrightarrow>
     (\<exists>rsp. completed env i rsp \<and> \<not> has (rsp ! 0) CDS_ERROR_MSK \<and> rsp ! 0 AND msk = val)"

definition only_status :: "(sdio_cmd \<times> u32) list \<Rightarrow> bool" where
  "only_status l \<longleftrightarrow> (\<forall>(c, t) \<in> set l. sc_opcode c = MMC_SEND_STATUS)"

lemma only_status_replicate: "sc_opcode c = MMC_SEND_STATUS \<Longrightarrow> only_status (replicate k (c, t))"
  by (simp add: only_status_def)

lemma wait_status_run:
  "wait_status_loop m env msk val st = (r, st') \<Longrightarrow>
     \<exists>polls. bus_log st' = bus_log st @ polls \<and> length polls \<le> 4 * m \<and> only_status polls \<and> bus_dev st' = bus_dev st
       \<and> (r = Ok () \<longrightarrow> card_state env (length (bus_log st') - 1) msk val)"
proof (induction m arbitrary: st)
  case (Suc m)
  obtain q st1 where s: "sdio_send_status env False st = (q, st1)" by force
  define c where "c = setup_cmd (SCF_CTYPE_AC OR SCF_RSP_R1) MMC_SEND_STATUS
    (push_bit 16 (dev_rca (bus_dev st)) OR flag_if False MMC_SEND_STATUS_HPI)"
  define t where "t = SDIO_TIME_DEFAULT"
  have co: "sc_opcode c = MMC_SEND_STATUS" by (simp add: c_def setup_cmd_def)
  from simple_cmd_ok [OF s [unfolded sdio_send_status_def]] obtain k where
    k: "k \<le> SDIO_CMD_RETRIES + 1" "bus_log st1 = bus_log st @ replicate k (c, t)" "bus_dev st1 = bus_dev st"
    "\<And>rsp. q = Ok rsp \<Longrightarrow> completed env (length (bus_log st1) - 1) rsp"
    unfolding c_def [symmetric] t_def [symmetric] by blast
  then have k4: "k \<le> 4" by (simp add: SDIO_CMD_RETRIES_def)
  show ?case
  proof (cases "\<exists>rsp. q = Ok rsp \<and> \<not> has (rsp ! 0) CDS_ERROR_MSK \<and> rsp ! 0 AND msk \<noteq> val")
    case True
    then have "wait_status_loop m env msk val st1 = (r, st')" using Suc.prems by (auto simp: s)
    from Suc.IH [OF this] obtain polls where p: "bus_log st' = bus_log st1 @ polls" "length polls \<le> 4 * m" "only_status polls"
      "bus_dev st' = bus_dev st1" "r = Ok () \<longrightarrow> card_state env (length (bus_log st') - 1) msk val" by blast
    then show ?thesis using k k4 only_status_replicate [OF co, of k t]
      by (intro exI [of _ "replicate k (c, t) @ polls"]) (auto simp: only_status_def)
  next
    case False
    then have "st' = st1 \<and> (r = Ok () \<longrightarrow> (\<exists>rsp. q = Ok rsp \<and> \<not> has (rsp ! 0) CDS_ERROR_MSK \<and> rsp ! 0 AND msk = val))"
      using Suc.prems by (auto simp: s split: ret.splits if_splits)
    then show ?thesis using k k4 only_status_replicate [OF co, of k t]
      by (intro exI [of _ "replicate k (c, t)"]) (auto simp: card_state_def)
  qed
qed (auto simp: only_status_def)

lemma wait_card_run:
  "sdio_wait_card_status env msk val msec st = (r, st') \<Longrightarrow>
     \<exists>polls. bus_log st' = bus_log st @ polls \<and> length polls \<le> 4 * unat (max msec 1) \<and> only_status polls \<and> bus_dev st' = bus_dev st
       \<and> (r = Ok () \<longrightarrow> card_state env (length (bus_log st') - 1) msk val)"
  unfolding sdio_wait_card_status_def by (rule wait_status_run)

section \<open>Every command\<close>

text \<open>
  The commands that \<open>_sdio_send_cmd\<close> sends before a command, each once: the announcement of an application command, and the number of
  blocks unless the host sends it by itself.  A reliable write has the host's automatic commands switched off.
\<close>

definition app_command :: "u32 \<Rightarrow> sdio_cmd \<times> u32" where
  "app_command rca = (setup_cmd ((if rca \<noteq> 0 then SCF_CTYPE_BCR else SCF_CTYPE_BC) OR SCF_RSP_R1) SD_APP_CMD (push_bit 16 rca), SDIO_TIME_DEFAULT)"

definition count_command :: "sdio_cmd \<Rightarrow> sdio_cmd \<times> u32" where
  "count_command cmd = (setup_cmd (SCF_CTYPE_AC OR SCF_RSP_R1) MMC_SET_BLOCK_COUNT
     (sc_blks cmd OR flag_if (has (sc_flags cmd) SCF_SBC_RLW) SBC_RL_WRITE), SDIO_TIME_DEFAULT)"

definition companions_with :: "u64 \<Rightarrow> u32 \<Rightarrow> sdio_cmd \<Rightarrow> (sdio_cmd \<times> u32) list" where
  "companions_with caps rca cmd = (if has (sc_flags cmd) SCF_APP_CMD then [app_command rca] else [])
     @ (if has (sc_flags cmd) SCF_SBC \<and> \<not> has caps HC_CAP_ACMD23 then [count_command cmd] else [])"

definition companions :: "sdio_cmd \<Rightarrow> sd_bus \<Rightarrow> (sdio_cmd \<times> u32) list" where
  "companions cmd st = (if has (sc_flags cmd) SCF_APP_CMD then [app_command (dev_rca (bus_dev st))] else [])
     @ (if has (sc_flags cmd) SCF_SBC \<and> (has (sc_flags cmd) SCF_SBC_RLW \<or> \<not> has (host_caps (bus_hc st)) HC_CAP_ACMD23)
        then [count_command cmd] else [])"

text \<open>The host does not wait by itself for the card to be ready again.\<close>

definition must_wait :: "sdio_cmd \<Rightarrow> sd_bus \<Rightarrow> bool" where
  "must_wait cmd st \<longleftrightarrow> has (sc_flags cmd) SCF_WAIT_DRDY \<and> \<not> has (host_caps (bus_hc st)) HC_CAP_BSY"

lemma simple_once:
  assumes "simple_cmd env flgs opc arg t 0 st = (r, st')" and "\<not> has flgs SCF_SBC_RLW"
  shows "(\<exists>j. bus_log st' = bus_log st @ take j [(setup_cmd flgs opc arg, t)]) \<and> bus_dev st' = bus_dev st
    \<and> host_caps (bus_hc st') = host_caps (bus_hc st)
    \<and> (\<forall>rsp. r = Ok rsp \<longrightarrow> bus_log st' = bus_log st @ [(setup_cmd flgs opc arg, t)])"
proof -
  have c: "host_caps (bus_hc st') = host_caps (bus_hc st)"
    using caps.keeps_simple [OF assms(2), of env opc arg t 0] assms(1) unfolding keeps_def by (metis snd_conv)
  from simple_cmd_ok [OF assms(1)] obtain k where k: "k \<le> 1" "bus_log st' = bus_log st @ replicate k (setup_cmd flgs opc arg, t)"
    "bus_dev st' = bus_dev st" "\<forall>rsp. r = Ok rsp \<longrightarrow> 0 < k" by auto
  have "k = 0 \<or> k = 1" using k(1) by linarith
  then show ?thesis using k c by (auto intro: exI [of _ k])
qed

lemma app_once:
  assumes "sd_app_cmd env st = (r, st')"
  shows "(\<exists>j. bus_log st' = bus_log st @ take j [app_command (dev_rca (bus_dev st))]) \<and> bus_dev st' = bus_dev st
    \<and> host_caps (bus_hc st') = host_caps (bus_hc st)
    \<and> (r = Ok () \<longrightarrow> bus_log st' = bus_log st @ [app_command (dev_rca (bus_dev st))])"
proof -
  let ?rca = "dev_rca (bus_dev st)"
  let ?f = "(if ?rca \<noteq> 0 then SCF_CTYPE_BCR else SCF_CTYPE_BC) OR SCF_RSP_R1"
  have f: "\<not> has ?f SCF_SBC_RLW" by (simp add: rsp_flag_defs)
  obtain q where s: "simple_cmd env ?f SD_APP_CMD (push_bit 16 ?rca) SDIO_TIME_DEFAULT 0 st = (q, st')" and q: "r = Ok () \<longrightarrow> (\<exists>x. q = Ok x)"
    using assms by (auto simp: sd_app_cmd_def Let_def ignore_rsp_def seq_def noop_def split: prod.splits ret.splits)
  from simple_once [OF s f] q show ?thesis unfolding app_command_def by blast
qed

lemma count_once:
  assumes "sdio_set_block_count env (sc_blks cmd) (flag_if (has (sc_flags cmd) SCF_SBC_RLW) SBC_RL_WRITE) st = (r, st')"
  shows "(\<exists>j. bus_log st' = bus_log st @ take j [count_command cmd]) \<and> bus_dev st' = bus_dev st
    \<and> host_caps (bus_hc st') = host_caps (bus_hc st) \<and> (r = Ok () \<longrightarrow> bus_log st' = bus_log st @ [count_command cmd])"
proof -
  have f: "\<not> has (SCF_CTYPE_AC OR SCF_RSP_R1) SCF_SBC_RLW" by (simp add: rsp_flag_defs)
  obtain q where s: "simple_cmd env (SCF_CTYPE_AC OR SCF_RSP_R1) MMC_SET_BLOCK_COUNT
      (sc_blks cmd OR flag_if (has (sc_flags cmd) SCF_SBC_RLW) SBC_RL_WRITE) SDIO_TIME_DEFAULT 0 st = (q, st')"
    and q: "r = Ok () \<longrightarrow> (\<exists>x. q = Ok x)"
    using assms by (auto simp: sdio_set_block_count_def ignore_rsp_def seq_def noop_def split: prod.splits ret.splits)
  from simple_once [OF s f] q show ?thesis unfolding count_command_def by blast
qed

lemma send_pre_run:
  assumes "send_pre env cmd st = (r, st')"
  defines "blk \<equiv> companions_with (host_caps (bus_hc st)) (dev_rca (bus_dev st)) cmd"
  shows "(\<exists>j. bus_log st' = bus_log st @ take j blk) \<and> bus_dev st' = bus_dev st \<and> host_caps (bus_hc st') = host_caps (bus_hc st)
    \<and> (r = Ok () \<longrightarrow> bus_log st' = bus_log st @ blk)"
proof -
  define a where "a = (if has (sc_flags cmd) SCF_APP_CMD then [app_command (dev_rca (bus_dev st))] else [])"
  define b where "b = (if has (sc_flags cmd) SCF_SBC \<and> \<not> has (host_caps (bus_hc st)) HC_CAP_ACMD23 then [count_command cmd] else [])"
  have blk: "blk = a @ b" by (simp add: blk_def companions_with_def a_def b_def)
  obtain q st1 where s: "(if has (sc_flags cmd) SCF_APP_CMD then sd_app_cmd env else noop) st = (q, st1)" by force
  have 1: "(\<exists>j. bus_log st1 = bus_log st @ take j a) \<and> bus_dev st1 = bus_dev st \<and> host_caps (bus_hc st1) = host_caps (bus_hc st)
      \<and> (q = Ok () \<longrightarrow> bus_log st1 = bus_log st @ a)"
    using s app_once [of env st q st1] by (auto simp: a_def noop_def split: if_splits)
  show ?thesis
  proof (cases q)
    case (Fail e)
    then have "st' = st1" "r = Fail e" using assms(1) s by (auto simp: send_pre_def seq_def)
    moreover obtain j where "bus_log st1 = bus_log st @ take j a" using 1 by blast
    then have "bus_log st1 = bus_log st @ take (min j (length a)) blk" by (simp add: blk min_def)
    ultimately show ?thesis using 1 by blast
  next
    case (Ok x)
    then have l: "bus_log st1 = bus_log st @ a" using 1 by simp
    have "(\<exists>j. bus_log st' = bus_log st1 @ take j b) \<and> bus_dev st' = bus_dev st1 \<and> host_caps (bus_hc st') = host_caps (bus_hc st1)
      \<and> (r = Ok () \<longrightarrow> bus_log st' = bus_log st1 @ b)"
      using assms(1) s Ok 1 count_once [of env cmd st1 r st'] by (auto simp: send_pre_def seq_def noop_def b_def split: if_splits)
    then obtain j where j: "bus_log st' = bus_log st1 @ take j b" and o: "bus_dev st' = bus_dev st1"
      "host_caps (bus_hc st') = host_caps (bus_hc st1)" "r = Ok () \<longrightarrow> bus_log st' = bus_log st1 @ b" by blast
    have "bus_log st' = bus_log st @ take (length a + j) blk" by (simp add: j l blk)
    then have "\<exists>j. bus_log st' = bus_log st @ take j blk" by blast
    then show ?thesis using o l 1 by (simp add: blk)
  qed
qed

lemma send_post_run:
  assumes "send_post env cmd t st = (r, st')"
  defines "wt \<equiv> has (sc_flags cmd) SCF_WAIT_DRDY \<and> \<not> has (host_caps (bus_hc st)) HC_CAP_BSY"
  shows "\<exists>polls. bus_log st' = bus_log st @ polls \<and> only_status polls \<and> (\<not> wt \<longrightarrow> polls = []) \<and> bus_dev st' = bus_dev st
    \<and> (r = Ok () \<and> wt \<longrightarrow> card_state env (length (bus_log st') - 1) (CDS_READY_FOR_DATA OR CDS_CUR_STATE_MSK)
         (CDS_READY_FOR_DATA OR CDS_CUR_STATE_TRAN))"
proof (cases wt)
  case True
  then have "sdio_wait_card_status env (CDS_READY_FOR_DATA OR CDS_CUR_STATE_MSK) (CDS_READY_FOR_DATA OR CDS_CUR_STATE_TRAN) t st = (r, st')"
    using assms(1) by (simp add: send_post_def wt_def)
  from wait_card_run [OF this] show ?thesis using True by blast
next
  case False
  then have "st' = st" using assms(1) by (auto simp: send_post_def noop_def wt_def)
  then show ?thesis using False by (intro exI [of _ "[]"]) (simp add: only_status_def)
qed

text \<open>
  The commands of \<open>k\<close> rounds and what follows them: nothing or the status requests behind a completed command, or the companions of one
  more round that one of them did not survive.
\<close>

definition ready_again :: "sd_env \<Rightarrow> sd_bus \<Rightarrow> bool" where
  "ready_again env st \<longleftrightarrow> card_state env (length (bus_log st) - 1) (CDS_READY_FOR_DATA OR CDS_CUR_STATE_MSK)
     (CDS_READY_FOR_DATA OR CDS_CUR_STATE_TRAN)"

definition rounds :: "sd_env \<Rightarrow> (sdio_cmd \<times> u32) list \<Rightarrow> sdio_cmd \<times> u32 \<Rightarrow> bool \<Rightarrow> nat \<Rightarrow> bool \<Rightarrow> u32 list \<Rightarrow> sd_bus \<Rightarrow> sd_bus \<Rightarrow> bool" where
  "rounds env blk c wt n ok rsp st st' \<longleftrightarrow> (\<exists>k tail. k \<le> n
     \<and> bus_log st' = bus_log st @ concat (replicate k (blk @ [c])) @ tail
     \<and> (\<forall>i. i + 1 < k \<longrightarrow> retryable env (length (bus_log st) + i * (length blk + 1) + length blk))
     \<and> (only_status tail \<or> (\<exists>j. tail = take j blk))
     \<and> (ok \<longrightarrow> 0 < k \<and> completed env (length (bus_log st) + (k - 1) * (length blk + 1) + length blk) rsp
          \<and> (if wt then only_status tail \<and> ready_again env st' else tail = [])))"

lemma send_pass_rounds:
  assumes "send_pass (send_pre env cmd) (send_post env cmd t) env cmd t rsp st = (p, rsp', st')"
  defines "blk \<equiv> companions_with (host_caps (bus_hc st)) (dev_rca (bus_dev st)) cmd"
    and "wt \<equiv> has (sc_flags cmd) SCF_WAIT_DRDY \<and> \<not> has (host_caps (bus_hc st)) HC_CAP_BSY"
  shows "rounds env blk (cmd, t) wt 1 (p = Break (Ok ())) rsp' st st' \<and> bus_dev st' = bus_dev st
    \<and> ((\<exists>e. p = Again e) \<longrightarrow> bus_log st' = bus_log st @ blk @ [(cmd, t)] \<and> retryable env (length (bus_log st) + length blk))"
proof -
  obtain r st1 where s: "send_pre env cmd st = (r, st1)" by force
  note pre = send_pre_run [OF s, folded blk_def]
  show ?thesis
  proof (cases r)
    case (Fail e)
    then have e: "st' = st1" "p = Break (Fail e)" using assms(1) s by (simp_all add: send_pass_def)
    obtain j where j: "bus_log st' = bus_log st @ take j blk" using pre e by blast
    then have "rounds env blk (cmd, t) wt 1 False rsp' st st'"
      unfolding rounds_def by (intro exI [of _ 0] exI [of _ "take j blk"]) auto
    then show ?thesis using pre e by simp
  next
    case (Ok x)
    then have l: "bus_log st1 = bus_log st @ blk" using pre by simp
    obtain q cs rsp1 where i: "env_issue env (length (bus_log st) + length blk) = (q, cs, rsp1)" by (metis prod_cases3)
    define st2 where "st2 = st1\<lparr>bus_log := bus_log st @ blk @ [(cmd, t)]\<rparr>"
    have st2: "bus_log st2 = bus_log st @ blk @ [(cmd, t)]" "bus_dev st2 = bus_dev st" "host_caps (bus_hc st2) = host_caps (bus_hc st)"
      using pre by (simp_all add: st2_def)
    have one: "rounds env blk (cmd, t) wt 1 False rs st s" if "bus_log s = bus_log st2 @ tl" "only_status tl" for s tl rs
      unfolding rounds_def by (rule exI [of _ 1], rule exI [of _ tl]) (simp add: that st2)
    have st2': "st1\<lparr>bus_log := bus_log st1 @ [(cmd, t)]\<rparr> = st2" by (simp add: st2_def l)
    have i': "env_issue env (length (bus_log st1)) = (q, cs, rsp1)" using i by (simp add: l)
    have run: "(p, rsp', st') = (case q of Fail e \<Rightarrow> (Break (Fail e), rsp1, st2)
        | Ok _ \<Rightarrow> if cs = CS_CARD_REMOVED then (Card_gone, rsp1, st2)
          else if cs = CS_CMD_CMP then (case send_post env cmd t st2 of (r, st) \<Rightarrow> (Break r, rsp1, st))
          else let e = (if cs = CS_CMD_TO_ERR then ETIMEDOUT else EIO)
               in (if has (rsp1 ! 0) CDS_ILLEGAL_COMMAND then Break (Fail e) else Again e, rsp1, want_tune cs st2))"
      using assms(1) unfolding send_pass_def s Ok i' prod.case ret.case st2' Let_def by (rule sym)
    have none: "only_status []" by (simp add: only_status_def)
    show ?thesis
    proof (cases "q = Ok () \<and> cs = CS_CMD_CMP")
      case True
      obtain r2 st3 where post: "send_post env cmd t st2 = (r2, st3)" by force
      have e: "p = Break r2" "st' = st3" "rsp' = rsp1" using run True post by simp_all
      from send_post_run [OF post, unfolded st2(3), folded wt_def] obtain polls where
        po: "bus_log st3 = bus_log st2 @ polls" "only_status polls" "\<not> wt \<longrightarrow> polls = []" "bus_dev st3 = bus_dev st2"
          "r2 = Ok () \<and> wt \<longrightarrow> ready_again env st3" unfolding ready_again_def by blast
      have "completed env (length (bus_log st) + length blk) rsp1" using i True by (simp add: completed_def)
      then have "rounds env blk (cmd, t) wt 1 (p = Break (Ok ())) rsp' st st'"
        unfolding rounds_def by (intro exI [of _ 1] exI [of _ polls]) (use po e st2 in auto)
      then show ?thesis using e po st2 by simp
    next
      case False
      then have e: "st' = st2 \<or> st' = want_tune cs st2" "p \<noteq> Break (Ok ())"
        "(\<exists>e. p = Again e) \<longrightarrow> q = Ok () \<and> cs \<noteq> CS_CARD_REMOVED \<and> cs \<noteq> CS_CMD_CMP \<and> \<not> has (rsp1 ! 0) CDS_ILLEGAL_COMMAND"
        using run by (auto simp: Let_def split: ret.splits if_splits)
      then have l': "bus_log st' = bus_log st2" "bus_dev st' = bus_dev st2" by auto
      have "(\<exists>e. p = Again e) \<longrightarrow> retryable env (length (bus_log st) + length blk)" using e(3) i by (simp add: retryable_def)
      then show ?thesis using one [of st' "[]" rsp'] l' st2 e(2) none by simp
    qed
  qed
qed

lemma send_loop_rounds:
  assumes "blk = companions_with (host_caps (bus_hc st)) (dev_rca (bus_dev st)) cmd"
    and "wt \<longleftrightarrow> has (sc_flags cmd) SCF_WAIT_DRDY \<and> \<not> has (host_caps (bus_hc st)) HC_CAP_BSY"
    and "send_loop n (send_pre env cmd) (send_post env cmd t) env cmd t rsp st = (p, rsp', st')"
  shows "rounds env blk (cmd, t) wt (Suc n) (p = Break (Ok ())) rsp' st st' \<and> bus_dev st' = bus_dev st"
  using assms
proof (induction n arbitrary: rsp st)
  case 0
  obtain q rsp1 st1 where s: "send_pass (send_pre env cmd) (send_post env cmd t) env cmd t rsp st = (q, rsp1, st1)" by (metis prod_cases3)
  note sp = send_pass_rounds [OF s, folded 0(1,2)]
  have "rsp' = rsp1" "st' = st1" "p = Break (Ok ()) \<longleftrightarrow> q = Break (Ok ())" using 0(3) s by (auto split: pass.splits)
  then show ?case using sp by simp
next
  case (Suc n)
  obtain q rsp1 st1 where s: "send_pass (send_pre env cmd) (send_post env cmd t) env cmd t rsp st = (q, rsp1, st1)" by (metis prod_cases3)
  note sp = send_pass_rounds [OF s, folded Suc.prems(1,2)]
  show ?case
  proof (cases "\<exists>e. q = Again e")
    case False
    then have e: "rsp' = rsp1" "st' = st1" "p = q" using Suc.prems(3) s by (auto split: pass.splits)
    from sp obtain k tail where "k \<le> 1" "bus_log st1 = bus_log st @ concat (replicate k (blk @ [(cmd, t)])) @ tail"
      "\<forall>i. i + 1 < k \<longrightarrow> retryable env (length (bus_log st) + i * (length blk + 1) + length blk)"
      "only_status tail \<or> (\<exists>j. tail = take j blk)"
      "q = Break (Ok ()) \<longrightarrow> 0 < k \<and> completed env (length (bus_log st) + (k - 1) * (length blk + 1) + length blk) rsp1
          \<and> (if wt then only_status tail \<and> ready_again env st1 else tail = [])" unfolding rounds_def by blast
    then have "rounds env blk (cmd, t) wt (Suc (Suc n)) (q = Break (Ok ())) rsp1 st st1"
      unfolding rounds_def by (intro exI [of _ k] exI [of _ tail]) simp
    then show ?thesis using sp e by simp
  next
    case True
    then have a: "bus_log st1 = bus_log st @ blk @ [(cmd, t)]" "retryable env (length (bus_log st) + length blk)" "bus_dev st1 = bus_dev st"
      using sp by auto
    have c: "host_caps (bus_hc st1) = host_caps (bus_hc st)" using caps.send_pass [OF caps.keeps_pre caps.keeps_post s] .
    have l: "send_loop n (send_pre env cmd) (send_post env cmd t) env cmd t rsp1 st1 = (p, rsp', st')"
      using True Suc.prems(3) s by auto
    have r: "rounds env blk (cmd, t) wt (Suc n) (p = Break (Ok ())) rsp' st1 st'" and d: "bus_dev st' = bus_dev st1"
      using Suc.IH [OF _ _ l] Suc.prems(1,2) a c by auto
    from r obtain k tail where k: "k \<le> Suc n" "bus_log st' = bus_log st1 @ concat (replicate k (blk @ [(cmd, t)])) @ tail"
      "\<forall>i. i + 1 < k \<longrightarrow> retryable env (length (bus_log st1) + i * (length blk + 1) + length blk)"
      "only_status tail \<or> (\<exists>j. tail = take j blk)"
      "p = Break (Ok ()) \<longrightarrow> 0 < k \<and> completed env (length (bus_log st1) + (k - 1) * (length blk + 1) + length blk) rsp'
          \<and> (if wt then only_status tail \<and> ready_again env st' else tail = [])" unfolding rounds_def by blast
    have len: "length (bus_log st1) + i * (length blk + 1) + length blk = length (bus_log st) + Suc i * (length blk + 1) + length blk" for i
      by (simp add: a)
    have "retryable env (length (bus_log st) + i * (length blk + 1) + length blk)" if "i + 1 < Suc k" for i
    proof (cases i)
      case 0
      then show ?thesis using a(2) by simp
    next
      case (Suc i')
      then show ?thesis using k(3) [rule_format, of i'] that len [of i'] by (simp add: algebra_simps)
    qed
    moreover have "p = Break (Ok ()) \<longrightarrow> completed env (length (bus_log st) + k * (length blk + 1) + length blk) rsp'"
      using k(5) len [of "k - 1"] by (cases k) (auto simp: algebra_simps)
    ultimately have "rounds env blk (cmd, t) wt (Suc (Suc n)) (p = Break (Ok ())) rsp' st st'"
      unfolding rounds_def by (intro exI [of _ "Suc k"] exI [of _ tail]) (use k a in simp)
    then show ?thesis using d a by simp
  qed
qed

lemma acmd_caps:
  "has (c AND NOT ACMD_CAPS) HC_CAP_ACMD23 = False" "has (c AND NOT ACMD_CAPS) HC_CAP_BSY = has c HC_CAP_BSY"
proof -
  have off: "has (c AND NOT m) f = has c f" if "f AND m = 0" for c f m :: u64
  proof -
    have "(c AND NOT m) AND f = c AND f" using that by (intro bit_word_eqI) (auto simp: bit_simps dest: arg_cong [of _ _ "\<lambda>w. bit w _"])
    then show ?thesis by (simp add: has_def)
  qed
  have "(c AND NOT ACMD_CAPS) AND HC_CAP_ACMD23 = 0"
    unfolding ACMD_CAPS_def by (intro bit_word_eqI) (auto simp: bit_simps)
  then show "has (c AND NOT ACMD_CAPS) HC_CAP_ACMD23 = False" by (simp add: has_def)
  show "has (c AND NOT ACMD_CAPS) HC_CAP_BSY = has c HC_CAP_BSY"
    by (rule off) (simp add: ACMD_CAPS_def HC_CAP_BSY_def HC_CAP_ACMD23_def HC_CAP_ACMD12_def)
qed

definition late_env :: sd_env where
  "late_env = good_env\<lparr>env_issue := \<lambda>i. if i = 2 \<or> i = 5 then (Ok (), CS_CMD_CRC_ERR, [0, 0, 0, 0]) else (Ok (), CS_CMD_CMP, [7, 0, 0, 0])\<rparr>"

text \<open>C21: Every command, with its companions: at most one round more than the number of retries is made, and in each the companion commands
  go out, once each and in order, and then the command.  A further round follows only a reply that asks for a retry.  Behind the rounds
  come at most status requests, or companions that failed, without the command.  The call succeeds only when the last reply to the
  command reported completion, whose response is returned; a command that lets the host wait for the card also needs a last status that
  shows the card ready, in transfer state and without error, and any other has nothing after it.\<close>

theorem send_cmd_bounded_retries:
  assumes "sdio_send_cmd env cmd t n st = (r, rsp, st')"
  defines "blk \<equiv> companions cmd st"
  shows "\<exists>k tail. k \<le> n + 1 \<and> bus_log st' = bus_log st @ concat (replicate k (blk @ [(cmd, t)])) @ tail
    \<and> (\<forall>i. i + 1 < k \<longrightarrow> retryable env (length (bus_log st) + i * (length blk + 1) + length blk))
    \<and> (only_status tail \<or> (\<exists>j. tail = take j blk))
    \<and> (r = Ok () \<longrightarrow> 0 < k \<and> completed env (length (bus_log st) + (k - 1) * (length blk + 1) + length blk) rsp
         \<and> (if must_wait cmd st
            then only_status tail \<and> card_state env (length (bus_log st') - 1) (CDS_READY_FOR_DATA OR CDS_CUR_STATE_MSK)
                   (CDS_READY_FOR_DATA OR CDS_CUR_STATE_TRAN)
            else tail = []))"
proof -
  have all: "rounds env blk (cmd, t) (must_wait cmd st) (Suc n) (r = Ok ()) rsp st st'"
  proof (cases "env_pm env (length (bus_log st))")
    case (Fail e)
    then have "st' = st" "r = Fail e" using assms(1) by (auto simp: sdio_send_cmd_def send_cmd_with_def)
    then show ?thesis unfolding rounds_def by (intro exI [of _ 0] exI [of _ "[]"]) (simp add: only_status_def)
  next
    case (Ok u)
    define st0 where "st0 = (if has (sc_flags cmd) SCF_SBC_RLW then set_caps (host_caps (bus_hc st) AND NOT ACMD_CAPS) st else st)"
    have st0: "bus_log st0 = bus_log st" "bus_dev st0 = bus_dev st" by (simp_all add: st0_def)
    have b: "blk = companions_with (host_caps (bus_hc st0)) (dev_rca (bus_dev st0)) cmd"
      by (simp add: blk_def companions_def companions_with_def st0_def acmd_caps)
    have w: "must_wait cmd st \<longleftrightarrow> has (sc_flags cmd) SCF_WAIT_DRDY \<and> \<not> has (host_caps (bus_hc st0)) HC_CAP_BSY"
      by (simp add: must_wait_def st0_def acmd_caps)
    obtain p rsp1 st1 where s: "send_loop n (send_pre env cmd) (send_post env cmd t) env cmd t [0, 0, 0, 0] st0 = (p, rsp1, st1)"
      by (metis prod_cases3)
    have "bus_log st' = bus_log st1 \<and> rsp = rsp1 \<and> (r = Ok () \<longrightarrow> p = Break (Ok ()))"
      using assms(1) Ok s by (auto simp: sdio_send_cmd_def send_cmd_with_def Let_def st0_def [symmetric] split: pass.splits if_splits)
    then show ?thesis using conjunct1 [OF send_loop_rounds [OF b w s]] unfolding rounds_def st0 ready_again_def by metis
  qed
  then show ?thesis unfolding rounds_def ready_again_def by simp
qed

text \<open>A write of four blocks as an application command, to a host that cannot send the number of blocks: the third round succeeds.\<close>

theorem send_cmd_bounded_retries_witness:
  "let c = \<lparr>sc_flags = SCF_RSP_R1 OR SCF_APP_CMD OR SCF_SBC, sc_opcode = 25, sc_arg = 0, sc_blks = 4, sc_blksz = 512\<rparr>;
       st = sample_bus\<lparr>bus_hc := sample_host\<lparr>host_caps := 0\<rparr>\<rparr>
   in length (companions c st) = 2
      \<and> (\<exists>k \<le> 4. 0 < k \<and> bus_log (snd (snd (sdio_send_cmd late_env c 1000 3 st))) = concat (replicate k (companions c st @ [(c, 1000)])))"
proof -
  let ?c = "\<lparr>sc_flags = SCF_RSP_R1 OR SCF_APP_CMD OR SCF_SBC, sc_opcode = 25, sc_arg = 0, sc_blks = 4, sc_blksz = 512\<rparr> :: sdio_cmd"
  let ?st = "sample_bus\<lparr>bus_hc := sample_host\<lparr>host_caps := 0\<rparr>\<rparr>"
  have "fst (sdio_send_cmd late_env ?c 1000 3 ?st) = Ok ()" by code_simp
  then obtain rsp st where s: "sdio_send_cmd late_env ?c 1000 3 ?st = (Ok (), rsp, st)" by (metis prod.collapse)
  have l: "length (companions ?c ?st) = 2" "\<not> must_wait ?c ?st" by code_simp+
  have "bus_log ?st = []" by (simp add: sample_bus_def)
  with send_cmd_bounded_retries [OF s] l obtain k where "k \<le> 4" "0 < k" "bus_log st = concat (replicate k (companions ?c ?st @ [(?c, 1000)]))"
    by auto
  then show ?thesis using l s by (auto simp: Let_def)
qed
section \<open>Erasing\<close>

text \<open>The bytes or sectors a step of one sector advances the address by.\<close>

definition erase_unit :: "sdio_dev \<Rightarrow> nat" where
  "erase_unit dev = (if has (dev_caps dev) DEV_CAP_HC then 1 else unat (csd_blksz (dev_csd dev)))"

definition erase_cmd :: "u32 \<Rightarrow> nat \<Rightarrow> sdio_cmd \<times> u32 \<Rightarrow> bool" where
  "erase_cmd opc arg c \<longleftrightarrow> sc_opcode (fst c) = opc \<and> unat (sc_arg (fst c)) = arg"

lemma erase_addr_exact:
  assumes "unat lba * erase_unit dev < 2 ^ 32"
  shows "unat (erase_addr dev lba) = unat lba * erase_unit dev"
proof (cases "has (dev_caps dev) DEV_CAP_HC")
  case True
  then show ?thesis using assms by (simp add: erase_addr_def erase_unit_def unat_ucast_down)
next
  case False
  then have "unat lba * unat (ucast (csd_blksz (dev_csd dev)) :: u64) < 2 ^ 32"
    using assms by (simp add: erase_unit_def unat_ucast_u64)
  moreover from this have "unat (lba * ucast (csd_blksz (dev_csd dev))) = unat lba * unat (ucast (csd_blksz (dev_csd dev)) :: u64)"
    by (intro unat_mult_u64) simp
  ultimately show ?thesis using False by (simp add: erase_addr_def erase_unit_def unat_ucast_down unat_ucast_u64)
qed

lemma erase_last:
  fixes nlba :: u32
  assumes "nlba \<noteq> 0" and "(unat lba + unat nlba - 1) * erase_unit dev < 2 ^ 32" and "0 < erase_unit dev"
  shows "unat (erase_addr dev (lba + ucast nlba - 1)) = (unat lba + unat nlba - 1) * erase_unit dev"
    and "unat (erase_addr dev lba) = unat lba * erase_unit dev"
    and "lba + ucast (nlba - 1) = lba + ucast nlba - 1"
proof -
  have n0: "0 < unat nlba" using assms(1) by (simp add: unat_gt_0)
  have "unat lba + unat nlba - 1 \<le> (unat lba + unat nlba - 1) * erase_unit dev" using assms(3) by simp
  then have b: "unat lba + unat nlba - 1 < 2 ^ 32" using assms(2) by linarith
  have n1: "unat (nlba - 1) = unat nlba - 1" using n0 by (simp add: unat_minus_one assms(1))
  have un: "unat (ucast (nlba - 1) :: u64) = unat nlba - 1" by (simp only: unat_ucast_u64 n1)
  have "unat (lba + ucast (nlba - 1)) = unat lba + unat (ucast (nlba - 1) :: u64)"
    by (rule unat_add_u64) (use b n0 in \<open>simp add: un\<close>)
  then have u: "unat (lba + ucast (nlba - 1)) = unat lba + unat nlba - 1" using n0 un by simp
  have "ucast (nlba - 1) = (ucast nlba - 1 :: u64)"
  proof -
    have "unat (ucast nlba :: u64) \<noteq> 0" using n0 by (simp add: unat_ucast_u64)
    then have "(ucast nlba :: u64) \<noteq> 0" by auto
    then have "unat (ucast nlba - 1 :: u64) = unat nlba - 1" by (simp add: unat_minus_one unat_ucast_u64)
    then show ?thesis by (simp add: word_eq_nat unat_ucast_u64 n1)
  qed
  then show e: "lba + ucast (nlba - 1) = lba + ucast nlba - 1" by simp
  show "unat (erase_addr dev (lba + ucast nlba - 1)) = (unat lba + unat nlba - 1) * erase_unit dev"
    using erase_addr_exact [of "lba + ucast (nlba - 1)" dev] u assms(2) unfolding e [symmetric] by simp
  have "unat lba * erase_unit dev \<le> (unat lba + unat nlba - 1) * erase_unit dev" using n0 by (intro mult_le_mono1) simp
  then have "unat lba * erase_unit dev < 2 ^ 32" using assms(2) by (rule le_less_trans)
  then show "unat (erase_addr dev lba) = unat lba * erase_unit dev" by (rule erase_addr_exact)
qed

text \<open>Every operation of the layer issues commands after the earlier ones and no other change to the bus log.\<close>

lemma erase_step_plain:
  assumes "erase_step env flgs opc arg timeout st = (Ok (), st')" and "plain_cmd (setup_cmd flgs opc arg)"
  shows "bus_log st' = bus_log st @ [(setup_cmd flgs opc arg, ucast timeout)] \<and> bus_dev st' = bus_dev st"
proof -
  obtain rsp where "send_plain env (setup_cmd flgs opc arg) (ucast timeout) 0 st = (Ok (), rsp, st')"
    using assms by (auto simp: erase_step_def send_cmd_plain split: prod.splits)
  from send_plain_run [OF this] obtain k where "k \<le> Suc 0" "0 < k"
    "bus_log st' = bus_log st @ replicate k (setup_cmd flgs opc arg, ucast timeout)" "bus_dev st' = bus_dev st" by blast
  moreover then have "k = 1" by simp
  ultimately show ?thesis by simp
qed

text \<open>The last step of an erase waits for the card when the host does not.\<close>

lemma send_wait_run:
  assumes "sdio_send_cmd env cmd t 0 st = (Ok (), rsp, st')"
    and "\<not> has (sc_flags cmd) SCF_APP_CMD" and "\<not> has (sc_flags cmd) SCF_SBC" and "\<not> has (sc_flags cmd) SCF_SBC_RLW"
  shows "\<exists>polls. bus_log st' = bus_log st @ [(cmd, t)] @ polls \<and> only_status polls \<and> bus_dev st' = bus_dev st"
proof -
  have pre: "send_pre env cmd = noop" using assms(2,3) by (auto simp: fun_eq_iff send_pre_def seq_def noop_def)
  have pm: "env_pm env (length (bus_log st)) = Ok ()"
    using assms(1) by (cases "env_pm env (length (bus_log st))") (simp_all add: sdio_send_cmd_def send_cmd_with_def)
  obtain p rsp1 st1 where s: "send_pass noop (send_post env cmd t) env cmd t [0, 0, 0, 0] st = (p, rsp1, st1)" by (metis prod_cases3)
  have "p = Break (Ok ()) \<and> st1 = st'"
    using assms(1,4) pm s unfolding sdio_send_cmd_def pre send_cmd_with_def by (auto simp: Let_def split: pass.splits)
  then have post: "send_post env cmd t (st\<lparr>bus_log := bus_log st @ [(cmd, t)]\<rparr>) = (Ok (), st')"
    using s by (auto simp: send_pass_def noop_def Let_def split: ret.splits prod.splits if_splits)
  show ?thesis
  proof (cases "has (sc_flags cmd) SCF_WAIT_DRDY \<and> \<not> has (host_caps (bus_hc st)) HC_CAP_BSY")
    case True
    then have "sdio_wait_card_status env (CDS_READY_FOR_DATA OR CDS_CUR_STATE_MSK) (CDS_READY_FOR_DATA OR CDS_CUR_STATE_TRAN) t
        (st\<lparr>bus_log := bus_log st @ [(cmd, t)]\<rparr>) = (Ok (), st')" using post by (simp add: send_post_def)
    from wait_card_run [OF this] show ?thesis by auto
  next
    case False
    then have "st' = st\<lparr>bus_log := bus_log st @ [(cmd, t)]\<rparr>" using post by (auto simp: send_post_def noop_def)
    then show ?thesis by (intro exI [of _ "[]"]) (simp add: only_status_def)
  qed
qed

lemma seq_Ok: "seq m f st = (Ok y, st') \<longleftrightarrow> (\<exists>x st1. m st = (Ok x, st1) \<and> f x st1 = (Ok y, st'))"
  by (auto simp: seq_def split: prod.splits ret.splits)

lemma plain_erase_flags: "plain_cmd (setup_cmd (SCF_CTYPE_AC OR SCF_RSP_R1) opc arg)"
  by (simp add: plain_cmd_def setup_cmd_def rsp_flag_defs)

lemma wait_erase_flags: "\<not> has (SCF_CTYPE_AC OR SCF_RSP_R1B OR SCF_WAIT_DRDY) SCF_APP_CMD"
  "\<not> has (SCF_CTYPE_AC OR SCF_RSP_R1B OR SCF_WAIT_DRDY) SCF_SBC" "\<not> has (SCF_CTYPE_AC OR SCF_RSP_R1B OR SCF_WAIT_DRDY) SCF_SBC_RLW"
  by (simp_all add: rsp_flag_defs)

text \<open>The three steps of an erase, for both kinds of card.\<close>

lemma erase_steps:
  fixes nlba :: u32
  assumes "erase_step env (SCF_CTYPE_AC OR SCF_RSP_R1) c1 (erase_addr dev lba) t1 st = (Ok (), st1)"
    and "erase_step env (SCF_CTYPE_AC OR SCF_RSP_R1) c2 (erase_addr dev (lba + ucast nlba - 1)) t1 st1 = (Ok (), st2)"
    and "erase_step env (SCF_CTYPE_AC OR SCF_RSP_R1B OR SCF_WAIT_DRDY) c3 flgs t3 st2 = (Ok (), st3)"
    and "nlba \<noteq> 0" and "(unat lba + unat nlba - 1) * erase_unit dev < 2 ^ 32" and "0 < erase_unit dev"
  shows "\<exists>a b c polls. bus_log st3 = bus_log st @ [a, b, c] @ polls \<and> only_status polls \<and> bus_dev st3 = bus_dev st
    \<and> erase_cmd c1 (unat lba * erase_unit dev) a \<and> erase_cmd c2 ((unat lba + unat nlba - 1) * erase_unit dev) b
    \<and> sc_opcode (fst c) = c3 \<and> sc_arg (fst c) = flgs"
proof -
  note s1 = erase_step_plain [OF assms(1) plain_erase_flags] and s2 = erase_step_plain [OF assms(2) plain_erase_flags]
  obtain rsp where "sdio_send_cmd env (setup_cmd (SCF_CTYPE_AC OR SCF_RSP_R1B OR SCF_WAIT_DRDY) c3 flgs) (ucast t3) 0 st2 = (Ok (), rsp, st3)"
    using assms(3) by (auto simp: erase_step_def split: prod.splits)
  from send_wait_run [OF this] wait_erase_flags obtain polls where
    p: "bus_log st3 = bus_log st2 @ [(setup_cmd (SCF_CTYPE_AC OR SCF_RSP_R1B OR SCF_WAIT_DRDY) c3 flgs, ucast t3)] @ polls"
    "only_status polls" "bus_dev st3 = bus_dev st2" by (auto simp: setup_cmd_def)
  note l = erase_last [OF assms(4-6)]
  show ?thesis using s1 s2 p l(1,2)
    by (intro exI [of _ "(setup_cmd (SCF_CTYPE_AC OR SCF_RSP_R1) c1 (erase_addr dev lba), ucast t1)"]
        exI [of _ "(setup_cmd (SCF_CTYPE_AC OR SCF_RSP_R1) c2 (erase_addr dev (lba + ucast nlba - 1)), ucast t1)"]
        exI [of _ "(setup_cmd (SCF_CTYPE_AC OR SCF_RSP_R1B OR SCF_WAIT_DRDY) c3 flgs, ucast t3)"] exI [of _ polls])
      (simp add: erase_cmd_def setup_cmd_def)
qed

text \<open>C22: A successful erase of an SD card names as its first and last block exactly the first and last
  of the requested sectors, in sectors or bytes as the card counts, then starts the erase;
  nothing but status requests follows.  The last sector's address is to fit the 32 bits of a command argument.\<close>

theorem sd_erase_range:
  assumes "sd_erase env flgs lba nlba st = (Ok (), st')" and "nlba \<noteq> 0"
    and "(unat lba + unat nlba - 1) * erase_unit (bus_dev st) < 2 ^ 32" and "0 < erase_unit (bus_dev st)"
  shows "\<exists>a b c polls. bus_log st' = bus_log st @ [a, b, c] @ polls \<and> only_status polls
    \<and> erase_cmd SD_ERASE_WR_BLK_START (unat lba * erase_unit (bus_dev st)) a
    \<and> erase_cmd SD_ERASE_WR_BLK_END ((unat lba + unat nlba - 1) * erase_unit (bus_dev st)) b
    \<and> sc_opcode (fst c) = SD_ERASE \<and> sc_arg (fst c) = flgs"
proof -
  have "seq (erase_step env (SCF_CTYPE_AC OR SCF_RSP_R1) SD_ERASE_WR_BLK_START (erase_addr (bus_dev st) lba) (ucast SDIO_TIME_DEFAULT)) (\<lambda>_.
        seq (erase_step env (SCF_CTYPE_AC OR SCF_RSP_R1) SD_ERASE_WR_BLK_END (erase_addr (bus_dev st) (lba + ucast nlba - 1))
               (ucast SDIO_TIME_DEFAULT)) (\<lambda>_.
        erase_step env (SCF_CTYPE_AC OR SCF_RSP_R1B OR SCF_WAIT_DRDY) SD_ERASE flgs (sd_erase_timeout (bus_dev st) nlba))) st = (Ok (), st')"
    using assms(1,2) by (auto simp: sd_erase_def Let_def split: if_splits)
  then obtain st1 st2 where e: "erase_step env (SCF_CTYPE_AC OR SCF_RSP_R1) SD_ERASE_WR_BLK_START (erase_addr (bus_dev st) lba)
      (ucast SDIO_TIME_DEFAULT) st = (Ok (), st1)"
    "erase_step env (SCF_CTYPE_AC OR SCF_RSP_R1) SD_ERASE_WR_BLK_END (erase_addr (bus_dev st) (lba + ucast nlba - 1))
      (ucast SDIO_TIME_DEFAULT) st1 = (Ok (), st2)"
    "erase_step env (SCF_CTYPE_AC OR SCF_RSP_R1B OR SCF_WAIT_DRDY) SD_ERASE flgs (sd_erase_timeout (bus_dev st) nlba) st2 = (Ok (), st')"
    unfolding seq_Ok by auto
  from erase_steps [OF e assms(2-4)] show ?thesis by blast
qed

theorem sd_erase_range_witness:
  "\<exists>st' a b c polls. sd_erase good_env 0 100 50 (sample_bus\<lparr>bus_dev := sample_dev\<lparr>dev_caps := DEV_CAP_HC\<rparr>\<rparr>) = (Ok (), st')
     \<and> bus_log st' = [a, b, c] @ polls \<and> unat (sc_arg (fst a)) = 100 \<and> unat (sc_arg (fst b)) = 149"
proof -
  let ?st = "sample_bus\<lparr>bus_dev := sample_dev\<lparr>dev_caps := DEV_CAP_HC\<rparr>\<rparr>"
  have u: "erase_unit (bus_dev ?st) = 1" by code_simp
  have "fst (sd_erase good_env 0 100 50 ?st) = Ok ()" by code_simp
  then obtain st' where s: "sd_erase good_env 0 100 50 ?st = (Ok (), st')" by (metis prod.collapse)
  have n: "(unat (100 :: u64) + unat (50 :: u32) - 1) * erase_unit (bus_dev ?st) < 2 ^ 32" "0 < erase_unit (bus_dev ?st)"
    unfolding u by simp_all
  from sd_erase_range [OF s _ n] s show ?thesis unfolding u by (auto simp: erase_cmd_def sample_bus_def)
qed

text \<open>
  The commands that select a partition: nothing when the driver has it selected already, otherwise the command that writes the partition
  number to byte 179 of the extended CSD, at most four times, the last one completed, and then status requests up to one that shows the
  card ready without error.
\<close>

definition part_switch :: "sd_env \<Rightarrow> u32 \<Rightarrow> sd_bus \<Rightarrow> (sdio_cmd \<times> u32) list \<Rightarrow> bool" where
  "part_switch env part st sw \<longleftrightarrow>
     (if dev_pactive (bus_dev st) = part then sw = []
      else \<exists>k c polls rsp. 0 < k \<and> k \<le> 4 \<and> sw = replicate k c @ polls \<and> only_status polls
        \<and> sc_opcode (fst c) = 6 \<and> sc_arg (fst c) = 0x03b30001 OR push_bit 8 part
        \<and> completed env (length (bus_log st) + k - 1) rsp
        \<and> card_state env (length (bus_log st) + length sw - 1) CDS_READY_FOR_DATA CDS_READY_FOR_DATA)"

lemma mmc_switch_run:
  assumes "mmc_switch env cs md index val timeout st = (Ok (), st')"
  shows "\<exists>k c polls rsp. 0 < k \<and> k \<le> 4 \<and> bus_log st' = bus_log st @ replicate k c @ polls \<and> only_status polls
    \<and> sc_opcode (fst c) = MMC_SWITCH \<and> sc_arg (fst c) = push_bit 24 md OR push_bit 16 index OR push_bit 8 val OR cs
    \<and> completed env (length (bus_log st) + k - 1) rsp
    \<and> card_state env (length (bus_log st') - 1) CDS_READY_FOR_DATA CDS_READY_FOR_DATA \<and> bus_dev st' = bus_dev st"
proof -
  define c where "c = setup_cmd (SCF_CTYPE_AC OR (if timeout \<noteq> 0 then SCF_RSP_R1B else SCF_RSP_R1)) MMC_SWITCH
    (push_bit 24 md OR push_bit 16 index OR push_bit 8 val OR cs)"
  obtain rsp st1 where s: "simple_cmd env (SCF_CTYPE_AC OR (if timeout \<noteq> 0 then SCF_RSP_R1B else SCF_RSP_R1)) MMC_SWITCH
            (push_bit 24 md OR push_bit 16 index OR push_bit 8 val OR cs) timeout SDIO_CMD_RETRIES st = (Ok rsp, st1)"
    and w: "sdio_wait_card_status env CDS_READY_FOR_DATA CDS_READY_FOR_DATA timeout st1 = (Ok (), st')"
    using assms unfolding mmc_switch_def seq_Ok by blast
  from simple_cmd_ok [OF s, folded c_def] obtain k where k: "k \<le> SDIO_CMD_RETRIES + 1" "bus_log st1 = bus_log st @ replicate k (c, timeout)"
    "bus_dev st1 = bus_dev st" "0 < k" "completed env (length (bus_log st1) - 1) rsp" by blast
  from wait_card_run [OF w] obtain polls where p: "bus_log st' = bus_log st1 @ polls" "only_status polls" "bus_dev st' = bus_dev st1"
    "card_state env (length (bus_log st') - 1) CDS_READY_FOR_DATA CDS_READY_FOR_DATA" by blast
  have "sc_opcode c = MMC_SWITCH" "sc_arg c = push_bit 24 md OR push_bit 16 index OR push_bit 8 val OR cs"
    by (simp_all add: c_def setup_cmd_def)
  then show ?thesis using k p
    by (intro exI [of _ k] exI [of _ "(c, timeout)"] exI [of _ polls] exI [of _ rsp]) (simp add: SDIO_CMD_RETRIES_def)
qed

lemma set_partition_run:
  assumes "mmc_set_partition env part st = (Ok (), st')"
  shows "\<exists>l. bus_log st' = bus_log st @ l \<and> part_switch env part st l \<and> bus_dev st' = (bus_dev st)\<lparr>dev_pactive := part\<rparr>"
proof (cases "dev_pactive (bus_dev st) = part")
  case True
  then show ?thesis using assms by (intro exI [of _ "[]"]) (auto simp: mmc_set_partition_def part_switch_def)
next
  case False
  then obtain st1 where s: "mmc_switch env MMC_SWITCH_CMDSET_DFLT MMC_SWITCH_MODE_WRITE (of_nat ECSD_PART_CONFIG) part
      (MMC_PARTITION_SWITCH_TIMEOUT * ucast (dev_raw_ecsd (bus_dev st) ! ECSD_PARTITION_SWITCH_TIME)) st = (Ok (), st1)"
    and st': "st' = st1\<lparr>bus_dev := (bus_dev st1)\<lparr>dev_pactive := part\<rparr>\<rparr>"
    using assms unfolding mmc_set_partition_def by (auto simp: seq_Ok)
  have arg: "push_bit 24 MMC_SWITCH_MODE_WRITE OR push_bit 16 (of_nat ECSD_PART_CONFIG) OR push_bit 8 part OR MMC_SWITCH_CMDSET_DFLT
      = 0x03b30001 OR push_bit 8 part"
  proof -
    have "push_bit 24 MMC_SWITCH_MODE_WRITE OR push_bit 16 (of_nat ECSD_PART_CONFIG) OR MMC_SWITCH_CMDSET_DFLT = 0x03b30001"
      by (simp add: MMC_SWITCH_MODE_WRITE_def ECSD_PART_CONFIG_def MMC_SWITCH_CMDSET_DFLT_def)
    moreover have "x OR y OR z OR w = (x OR y OR w) OR z" for x y z w :: u32 by (simp only: ac_simps)
    ultimately show ?thesis by simp
  qed
  from mmc_switch_run [OF s, unfolded arg] obtain k c polls rsp where
    r: "0 < k" "k \<le> 4" "bus_log st1 = bus_log st @ replicate k c @ polls" "only_status polls" "sc_opcode (fst c) = MMC_SWITCH"
      "sc_arg (fst c) = 0x03b30001 OR push_bit 8 part" "completed env (length (bus_log st) + k - 1) rsp"
      "card_state env (length (bus_log st1) - 1) CDS_READY_FOR_DATA CDS_READY_FOR_DATA" "bus_dev st1 = bus_dev st" by blast
  then have "part_switch env part st (replicate k c @ polls)" using False
    unfolding part_switch_def if_not_P [OF False] MMC_SWITCH_def
    by (intro exI [of _ k] exI [of _ c] exI [of _ polls] exI [of _ rsp]) (simp add: add.assoc)
  then show ?thesis using r st' by (intro exI [of _ "replicate k c @ polls"]) simp
qed

text \<open>C17: A successful erase of an MMC device first selects the wanted partition on the card, by the command that writes its number to the
  partition byte of the extended CSD, unless the driver has it selected already; then it names as the first and last block exactly the
  first and last of the requested sectors, starts the erase, and returns only when the last status it read shows the device ready, in
  transfer state and without error.  The last sector's address, in sectors or bytes as the device counts, is to fit the 32 bits of a command
  argument.\<close>

theorem mmc_erase_range:
  assumes "mmc_erase env part flgs lba nlba st = Inr (Ok (), st')" and "nlba \<noteq> 0"
    and "(unat lba + unat nlba - 1) * erase_unit (bus_dev st) < 2 ^ 32" and "0 < erase_unit (bus_dev st)"
  shows "\<exists>sw a b c polls. bus_log st' = bus_log st @ sw @ [a, b, c] @ polls \<and> part_switch env part st sw \<and> only_status polls
    \<and> erase_cmd MMC_TAG_ERASE_GROUP_START (unat lba * erase_unit (bus_dev st)) a
    \<and> erase_cmd MMC_TAG_ERASE_GROUP_END ((unat lba + unat nlba - 1) * erase_unit (bus_dev st)) b
    \<and> sc_opcode (fst c) = MMC_ERASE \<and> sc_arg (fst c) = flgs
    \<and> bus_dev st' = (bus_dev st)\<lparr>dev_pactive := part\<rparr>
    \<and> card_state env (length (bus_log st') - 1) (CDS_READY_FOR_DATA OR CDS_CUR_STATE_MSK) (CDS_READY_FOR_DATA OR CDS_CUR_STATE_TRAN)"
proof -
  obtain st0 where s0: "mmc_set_partition env part st = (Ok (), st0)"
    using assms(1) by (auto simp: mmc_erase_def split: prod.splits ret.splits)
  from set_partition_run [OF s0] obtain sw where sw: "bus_log st0 = bus_log st @ sw" "part_switch env part st sw"
    "bus_dev st0 = (bus_dev st)\<lparr>dev_pactive := part\<rparr>" by blast
  have u: "erase_unit (bus_dev st0) = erase_unit (bus_dev st)" by (simp add: sw(3) erase_unit_def)
  note l = erase_last(3) [OF assms(2), of lba "bus_dev st0", unfolded u, OF assms(3,4)]
  obtain st1 timeout where e1: "erase_step env (SCF_CTYPE_AC OR SCF_RSP_R1) MMC_TAG_ERASE_GROUP_START (erase_addr (bus_dev st0) lba)
                   (ucast SDIO_TIME_DEFAULT) st0 = (Ok (), st1)"
    and r: "seq (erase_step env (SCF_CTYPE_AC OR SCF_RSP_R1) MMC_TAG_ERASE_GROUP_END (erase_addr (bus_dev st0) (lba + ucast nlba - 1))
                       (ucast SDIO_TIME_DEFAULT)) (\<lambda>_.
                seq (erase_step env (SCF_CTYPE_AC OR SCF_RSP_R1B OR SCF_WAIT_DRDY) MMC_ERASE flgs timeout) (\<lambda>_.
                sdio_wait_card_status env (CDS_READY_FOR_DATA OR CDS_CUR_STATE_MSK)
                  (CDS_READY_FOR_DATA OR CDS_CUR_STATE_TRAN) (ucast timeout))) st1 = (Ok (), st')"
    using assms(1,2) s0 unfolding mmc_erase_def Let_def l [symmetric]
    by (auto split: prod.splits ret.splits if_splits)
  from r obtain st2 st3 where e: "erase_step env (SCF_CTYPE_AC OR SCF_RSP_R1) MMC_TAG_ERASE_GROUP_END
      (erase_addr (bus_dev st0) (lba + ucast nlba - 1)) (ucast SDIO_TIME_DEFAULT) st1 = (Ok (), st2)"
    "erase_step env (SCF_CTYPE_AC OR SCF_RSP_R1B OR SCF_WAIT_DRDY) MMC_ERASE flgs timeout st2 = (Ok (), st3)"
    and w: "sdio_wait_card_status env (CDS_READY_FOR_DATA OR CDS_CUR_STATE_MSK)
                  (CDS_READY_FOR_DATA OR CDS_CUR_STATE_TRAN) (ucast timeout) st3 = (Ok (), st')"
    unfolding seq_Ok by auto
  have n: "(unat lba + unat nlba - 1) * erase_unit (bus_dev st0) < 2 ^ 32" "0 < erase_unit (bus_dev st0)" unfolding u using assms(3,4) .
  from erase_steps [OF e1 e assms(2) n] obtain a b c polls where f: "bus_log st3 = bus_log st0 @ [a, b, c] @ polls" "only_status polls"
    "bus_dev st3 = bus_dev st0" "erase_cmd MMC_TAG_ERASE_GROUP_START (unat lba * erase_unit (bus_dev st)) a"
    "erase_cmd MMC_TAG_ERASE_GROUP_END ((unat lba + unat nlba - 1) * erase_unit (bus_dev st)) b"
    "sc_opcode (fst c) = MMC_ERASE" "sc_arg (fst c) = flgs" unfolding u by blast
  from wait_card_run [OF w] obtain polls' where g: "bus_log st' = bus_log st3 @ polls'" "only_status polls'" "bus_dev st' = bus_dev st3"
    "card_state env (length (bus_log st') - 1) (CDS_READY_FOR_DATA OR CDS_CUR_STATE_MSK) (CDS_READY_FOR_DATA OR CDS_CUR_STATE_TRAN)"
    by blast
  have l': "bus_log st' = bus_log st @ sw @ [a, b, c] @ (polls @ polls')" using f(1) g(1) sw(1) by simp
  have p: "only_status (polls @ polls')" using f(2) g(2) by (auto simp: only_status_def)
  have d: "bus_dev st' = (bus_dev st)\<lparr>dev_pactive := part\<rparr>" using g(3) f(3) sw(3) by simp
  show ?thesis using l' p d sw(2) f(4-7) g(4) by blast
qed

theorem mmc_erase_range_witness:
  "\<exists>st' sw a b c polls. mmc_erase good_env 1 0 100 50 (sample_bus\<lparr>bus_dev := sample_dev\<lparr>dev_caps := DEV_CAP_HC\<rparr>\<rparr>) = Inr (Ok (), st')
     \<and> bus_log st' = sw @ [a, b, c] @ polls \<and> unat (sc_arg (fst a)) = 100 \<and> unat (sc_arg (fst b)) = 149
     \<and> sc_opcode (fst (sw ! 0)) = 6 \<and> sc_arg (fst (sw ! 0)) = 0x03b30101"
proof -
  let ?st = "sample_bus\<lparr>bus_dev := sample_dev\<lparr>dev_caps := DEV_CAP_HC\<rparr>\<rparr>"
  have u: "erase_unit (bus_dev ?st) = 1" and act: "dev_pactive (bus_dev ?st) \<noteq> 1" by code_simp+
  have "case mmc_erase good_env 1 0 100 50 ?st of Inl _ \<Rightarrow> False | Inr (r, _) \<Rightarrow> r = Ok ()" by code_simp
  then obtain st' where s: "mmc_erase good_env 1 0 100 50 ?st = Inr (Ok (), st')" by (auto split: sum.splits)
  have n: "(unat (100 :: u64) + unat (50 :: u32) - 1) * erase_unit (bus_dev ?st) < 2 ^ 32" "0 < erase_unit (bus_dev ?st)"
    unfolding u by simp_all
  have "(50 :: u32) \<noteq> 0" by simp
  from mmc_erase_range [OF s this n] obtain sw a b c polls where
    r: "bus_log st' = bus_log ?st @ sw @ [a, b, c] @ polls" "erase_cmd MMC_TAG_ERASE_GROUP_START (unat (100 :: u64) * 1) a"
      "erase_cmd MMC_TAG_ERASE_GROUP_END ((unat (100 :: u64) + unat (50 :: u32) - 1) * 1) b" "part_switch good_env 1 ?st sw"
    unfolding u by blast
  from r(4) obtain k d ps where "0 < k" "sw = replicate k d @ ps" "sc_opcode (fst d) = 6" "sc_arg (fst d) = 0x03b30001 OR push_bit 8 1"
    unfolding part_switch_def if_not_P [OF act] by blast
  then have "sc_opcode (fst (sw ! 0)) = 6" "sc_arg (fst (sw ! 0)) = 0x03b30101" by (simp_all add: nth_append)
  moreover from r have "bus_log st' = sw @ [a, b, c] @ polls" "unat (sc_arg (fst a)) = 100" "unat (sc_arg (fst b)) = 149"
    by (simp_all add: erase_cmd_def sample_bus_def)
  ultimately show ?thesis using s by blast
qed

section \<open>General commands\<close>

text \<open>A general command with data blocks of another size than 512 bytes reports success although
  the data command itself failed, as long as the block length could be set back: whatever the
  card answers to the data command, the result depends only on the block length commands.\<close>

theorem gen_man_cmd_hides_error:
  assumes "blkcnt \<le> 1" and "env_alloc env (length (bus_log st))" and "has flgs SCF_CTYPE_ADTC" and "blklen \<noteq> SDIO_DFLT_BLKSZ"
    and "sdio_set_block_length env blklen st = (Ok (), st1)" and "env_buf env (length (bus_log st1))"
    and "sdio_send_cmd env (setup_cmd_io (setup_cmd (flgs AND NOT SCF_DATA_MSK) (ucast opc) arg) (flgs AND SCF_DATA_MSK) blkcnt blklen)
           (SDIO_TIME_DEFAULT * 5) 0 st1 = (Fail e, rsp, st2)"
    and "sdio_set_block_length env SDIO_DFLT_BLKSZ st2 = (Ok (), st3)"
  shows "mmc_gen_man_cmd env opc blklen blkcnt arg flgs st = (Ok (), st3)"
  using assms by (simp add: mmc_gen_man_cmd_def Let_def seq_def)

text \<open>The second command, the one with the data, gets no answer.\<close>

definition no_data_env :: sd_env where
  "no_data_env = good_env\<lparr>env_issue := \<lambda>i. (Ok (), if i = 1 then CS_DATA_TO_ERR else CS_CMD_CMP, [0, 0, 0, 0])\<rparr>"

theorem gen_man_cmd_hides_error_witness:
  "fst (mmc_gen_man_cmd no_data_env 56 64 1 0 (SCF_CTYPE_ADTC OR SCF_RSP_R1 OR SCF_DIR_IN) sample_bus) = Ok ()"
proof -
  let ?f = "SCF_CTYPE_ADTC OR SCF_RSP_R1 OR SCF_DIR_IN"
  have "fst (sdio_set_block_length no_data_env 64 sample_bus) = Ok ()" by code_simp
  then obtain st1 where s1: "sdio_set_block_length no_data_env 64 sample_bus = (Ok (), st1)" by (metis prod.collapse)
  let ?c = "setup_cmd_io (setup_cmd (?f AND NOT SCF_DATA_MSK) (ucast (56 :: u8)) 0) (?f AND SCF_DATA_MSK) 1 64"
  have "fst (sdio_send_cmd no_data_env ?c (SDIO_TIME_DEFAULT * 5) 0 (snd (sdio_set_block_length no_data_env 64 sample_bus))) = Fail EIO"
    by code_simp
  then obtain rsp st2 where s2: "sdio_send_cmd no_data_env ?c (SDIO_TIME_DEFAULT * 5) 0 st1 = (Fail EIO, rsp, st2)"
    unfolding s1 snd_conv by (metis prod.collapse)
  have "fst (sdio_set_block_length no_data_env SDIO_DFLT_BLKSZ (snd (snd (sdio_send_cmd no_data_env ?c (SDIO_TIME_DEFAULT * 5) 0
      (snd (sdio_set_block_length no_data_env 64 sample_bus)))))) = Ok ()" by code_simp
  then obtain st3 where s3: "sdio_set_block_length no_data_env SDIO_DFLT_BLKSZ st2 = (Ok (), st3)"
    unfolding s1 snd_conv s2 by (metis prod.collapse)
  have a: "(1 :: u32) \<le> 1" "env_alloc no_data_env (length (bus_log sample_bus))" "has ?f SCF_CTYPE_ADTC" "(64 :: u32) \<noteq> SDIO_DFLT_BLKSZ"
    "env_buf no_data_env (length (bus_log st1))"
    by (simp_all add: no_data_env_def good_env_def rsp_flag_defs SCF_CTYPE_ADTC_def SCF_DIR_IN_def SDIO_DFLT_BLKSZ_def)
  from gen_man_cmd_hides_error [OF a(1-4) s1 a(5) s2 s3] show ?thesis by simp
qed

end
