(* ===== verification/Sdhci_Consts.thy ===== *)
theory Sdhci_Consts
  imports Prelude
begin

text \<open>
  The constants of the SD host controller driver (\<open>devb/sdmmc/sdiodi/hc/sdhci.h\<close>) and of the
  driver core the model of the controller uses.  Register offsets are natural numbers; bits
  have the width of the register they are used with.
\<close>

definition SDHCI_SDMA_ARG2 :: nat where "SDHCI_SDMA_ARG2 = 0x00"
definition SDHCI_32BIT_BLK_CNT :: nat where "SDHCI_32BIT_BLK_CNT = 0x00"
definition SDHCI_BLK :: nat where "SDHCI_BLK = 0x04"
definition SDHCI_ARG :: nat where "SDHCI_ARG = 0x08"
definition SDHCI_CMD :: nat where "SDHCI_CMD = 0x0C"
definition SDHCI_RESP0 :: nat where "SDHCI_RESP0 = 0x10"
definition SDHCI_DATA :: nat where "SDHCI_DATA = 0x20"
definition SDHCI_PSTATE :: nat where "SDHCI_PSTATE = 0x24"
definition SDHCI_HCTL :: nat where "SDHCI_HCTL = 0x28"
definition SDHCI_SYSCTL :: nat where "SDHCI_SYSCTL = 0x2C"
definition SDHCI_IS :: nat where "SDHCI_IS = 0x30"
definition SDHCI_IE :: nat where "SDHCI_IE = 0x34"
definition SDHCI_ISE :: nat where "SDHCI_ISE = 0x38"
definition SDHCI_HCTL2 :: nat where "SDHCI_HCTL2 = 0x3E"
definition SDHCI_CAP :: nat where "SDHCI_CAP = 0x40"
definition SDHCI_CAP2 :: nat where "SDHCI_CAP2 = 0x44"
definition SDHCI_MCCAP :: nat where "SDHCI_MCCAP = 0x48"
definition SDHCI_ADMA_ADDRL :: nat where "SDHCI_ADMA_ADDRL = 0x58"
definition SDHCI_ADMA_ADDRH :: nat where "SDHCI_ADMA_ADDRH = 0x5C"
definition SDHCI_HCTL_VERSION :: nat where "SDHCI_HCTL_VERSION = 0xFE"
definition SDHCI_TUNING_RETRIES :: nat where "SDHCI_TUNING_RETRIES = 40"
definition ADMA_DESC_MAX :: nat where "ADMA_DESC_MAX = 256"
definition SDHCI_BLK_BLKCNT_SHIFT :: nat where "SDHCI_BLK_BLKCNT_SHIFT = 16"
definition SDHCI_HCTL2_PRESET_VAL :: u16 where "SDHCI_HCTL2_PRESET_VAL = push_bit 15 1"
definition SDHCI_HCTL2_64BIT_ADDR :: u16 where "SDHCI_HCTL2_64BIT_ADDR = push_bit 13 1"
definition SDHCI_HCTL2_V4_MODE :: u16 where "SDHCI_HCTL2_V4_MODE = push_bit 12 1"
definition SDHCI_HCTL2_TUNED_CLK :: u16 where "SDHCI_HCTL2_TUNED_CLK = push_bit 7 1"
definition SDHCI_HCTL2_EXEC_TUNING :: u16 where "SDHCI_HCTL2_EXEC_TUNING = push_bit 6 1"
definition SDHCI_HCTL2_DRV_TYPE_MSK :: u16 where "SDHCI_HCTL2_DRV_TYPE_MSK = push_bit 4 0x3"
definition SDHCI_HCTL2_DRV_TYPE_D :: u16 where "SDHCI_HCTL2_DRV_TYPE_D = push_bit 4 0x3"
definition SDHCI_HCTL2_DRV_TYPE_C :: u16 where "SDHCI_HCTL2_DRV_TYPE_C = push_bit 4 0x2"
definition SDHCI_HCTL2_DRV_TYPE_A :: u16 where "SDHCI_HCTL2_DRV_TYPE_A = push_bit 4 0x1"
definition SDHCI_HCTL2_DRV_TYPE_B :: u16 where "SDHCI_HCTL2_DRV_TYPE_B = push_bit 4 0x0"
definition SDHCI_HCTL2_SIG_1_8V :: u16 where "SDHCI_HCTL2_SIG_1_8V = push_bit 3 1"
definition SDHCI_HCTL2_MODE_MSK :: u16 where "SDHCI_HCTL2_MODE_MSK = push_bit 0 0x7"
definition SDHCI_HCTL2_MODE_HS400 :: u16 where "SDHCI_HCTL2_MODE_HS400 = push_bit 0 0x5"
definition SDHCI_HCTL2_MODE_DDR50 :: u16 where "SDHCI_HCTL2_MODE_DDR50 = push_bit 0 0x4"
definition SDHCI_HCTL2_MODE_HS200 :: u16 where "SDHCI_HCTL2_MODE_HS200 = push_bit 0 0x3"
definition SDHCI_HCTL2_MODE_SDR104 :: u16 where "SDHCI_HCTL2_MODE_SDR104 = push_bit 0 0x3"
definition SDHCI_HCTL2_MODE_SDR50 :: u16 where "SDHCI_HCTL2_MODE_SDR50 = push_bit 0 0x2"
definition SDHCI_HCTL2_MODE_SDR25 :: u16 where "SDHCI_HCTL2_MODE_SDR25 = push_bit 0 0x1"
definition SDHCI_ADMA2_VALID :: u16 where "SDHCI_ADMA2_VALID = push_bit 0 1"
definition SDHCI_ADMA2_END :: u16 where "SDHCI_ADMA2_END = push_bit 1 1"
definition SDHCI_ADMA2_TRAN :: u16 where "SDHCI_ADMA2_TRAN = push_bit 4 2"
definition HC_CAP_DMA64 :: u64 where "HC_CAP_DMA64 = push_bit 2 3"
definition HC_CAP_BW4 :: u64 where "HC_CAP_BW4 = push_bit 4 1"
definition HC_CAP_BW8 :: u64 where "HC_CAP_BW8 = push_bit 5 1"
definition HC_CAP_SDR12 :: u64 where "HC_CAP_SDR12 = push_bit 10 1"
definition HC_CAP_SDR25 :: u64 where "HC_CAP_SDR25 = push_bit 11 1"
definition HC_CAP_SDR50 :: u64 where "HC_CAP_SDR50 = push_bit 12 1"
definition HC_CAP_SDR104 :: u64 where "HC_CAP_SDR104 = push_bit 13 1"
definition HC_CAP_XPC_3_3V :: u64 where "HC_CAP_XPC_3_3V = push_bit 17 1"
definition HC_CAP_XPC_3_0V :: u64 where "HC_CAP_XPC_3_0V = push_bit 18 1"
definition HC_CAP_200MA :: u64 where "HC_CAP_200MA = push_bit 20 1"
definition HC_CAP_400MA :: u64 where "HC_CAP_400MA = push_bit 21 1"
definition HC_CAP_600MA :: u64 where "HC_CAP_600MA = push_bit 22 1"
definition HC_CAP_800MA :: u64 where "HC_CAP_800MA = push_bit 23 1"
definition HC_CAP_DRV_TYPE_A :: u64 where "HC_CAP_DRV_TYPE_A = push_bit 25 1"
definition HC_CAP_DRV_TYPE_B :: u64 where "HC_CAP_DRV_TYPE_B = push_bit 24 1"
definition HC_CAP_DRV_TYPE_C :: u64 where "HC_CAP_DRV_TYPE_C = push_bit 26 1"
definition HC_CAP_DRV_TYPE_D :: u64 where "HC_CAP_DRV_TYPE_D = push_bit 27 1"
definition HC_CAP_SV_3_3V :: u64 where "HC_CAP_SV_3_3V = push_bit 31 1"
definition HC_CAP_CD_INTR :: u64 where "HC_CAP_CD_INTR = push_bit 32 1"
definition HC_CAP_CD_WP :: u64 where "HC_CAP_CD_WP = push_bit 35 1"
definition SDHCI_TUNING_TIMEOUT :: u32 where "SDHCI_TUNING_TIMEOUT = 150"
definition SDHCI_BLK_SDMA_BOUNDARY_512K :: u32 where "SDHCI_BLK_SDMA_BOUNDARY_512K = push_bit 12 7"
definition SDHCI_CMD_DE :: u32 where "SDHCI_CMD_DE = push_bit 0 1"
definition SDHCI_CMD_BCE :: u32 where "SDHCI_CMD_BCE = push_bit 1 1"
definition SDHCI_CMD_ACMD12 :: u32 where "SDHCI_CMD_ACMD12 = push_bit 2 1"
definition SDHCI_CMD_ACMD23 :: u32 where "SDHCI_CMD_ACMD23 = push_bit 3 1"
definition SDHCI_CMD_DDIR :: u32 where "SDHCI_CMD_DDIR = push_bit 4 1"
definition SDHCI_CMD_MBS :: u32 where "SDHCI_CMD_MBS = push_bit 5 1"
definition SDHCI_CMD_RSP_TYPE_136 :: u32 where "SDHCI_CMD_RSP_TYPE_136 = push_bit 16 1"
definition SDHCI_CMD_RSP_TYPE_48 :: u32 where "SDHCI_CMD_RSP_TYPE_48 = push_bit 16 2"
definition SDHCI_CMD_RSP_TYPE_48b :: u32 where "SDHCI_CMD_RSP_TYPE_48b = push_bit 16 3"
definition SDHCI_CMD_CCCE :: u32 where "SDHCI_CMD_CCCE = push_bit 19 1"
definition SDHCI_CMD_CICE :: u32 where "SDHCI_CMD_CICE = push_bit 20 1"
definition SDHCI_CMD_DP :: u32 where "SDHCI_CMD_DP = push_bit 21 1"
definition SDHCI_CMD_TYPE_CMD12 :: u32 where "SDHCI_CMD_TYPE_CMD12 = push_bit 22 3"
definition SDHCI_PSTATE_DLSL_MSK :: u32 where "SDHCI_PSTATE_DLSL_MSK = push_bit 20 0xF"
definition SDHCI_PSTATE_WP :: u32 where "SDHCI_PSTATE_WP = push_bit 19 1"
definition SDHCI_PSTATE_CD :: u32 where "SDHCI_PSTATE_CD = push_bit 18 1"
definition SDHCI_PSTATE_CSS :: u32 where "SDHCI_PSTATE_CSS = push_bit 17 1"
definition SDHCI_PSTATE_CI :: u32 where "SDHCI_PSTATE_CI = push_bit 16 1"
definition SDHCI_PSTATE_BRE :: u32 where "SDHCI_PSTATE_BRE = push_bit 11 1"
definition SDHCI_PSTATE_BWE :: u32 where "SDHCI_PSTATE_BWE = push_bit 10 1"
definition SDHCI_PSTATE_DATI :: u32 where "SDHCI_PSTATE_DATI = push_bit 1 1"
definition SDHCI_PSTATE_CMDI :: u32 where "SDHCI_PSTATE_CMDI = push_bit 0 1"
definition SDHCI_CARD_STABLE :: u32 where "SDHCI_CARD_STABLE = SDHCI_PSTATE_CD OR SDHCI_PSTATE_CSS OR SDHCI_PSTATE_CI"
definition SDHCI_HCTL_DTW4 :: u32 where "SDHCI_HCTL_DTW4 = push_bit 1 1"
definition SDHCI_HCTL_HSE :: u32 where "SDHCI_HCTL_HSE = push_bit 2 1"
definition SDHCI_HCTL_DMA_MSK :: u32 where "SDHCI_HCTL_DMA_MSK = push_bit 3 3"
definition SDHCI_HCTL_SDMA :: u32 where "SDHCI_HCTL_SDMA = push_bit 3 0"
definition SDHCI_HCTL_ADMA32 :: u32 where "SDHCI_HCTL_ADMA32 = push_bit 3 2"
definition SDHCI_HCTL_ADMA64 :: u32 where "SDHCI_HCTL_ADMA64 = push_bit 3 3"
definition SDHCI_HCTL_ADMA2 :: u32 where "SDHCI_HCTL_ADMA2 = push_bit 3 2"
definition SDHCI_HCTL_MMC8 :: u32 where "SDHCI_HCTL_MMC8 = push_bit 3 1"
definition SDHCI_HCTL_BW8 :: u32 where "SDHCI_HCTL_BW8 = push_bit 5 1"
definition SDHCI_HCTL_SDBP :: u32 where "SDHCI_HCTL_SDBP = push_bit 8 1"
definition SDHCI_HCTL_SDVS1V8 :: u32 where "SDHCI_HCTL_SDVS1V8 = push_bit 9 5"
definition SDHCI_HCTL_SDVS3V0 :: u32 where "SDHCI_HCTL_SDVS3V0 = push_bit 9 6"
definition SDHCI_HCTL_SDVS3V3 :: u32 where "SDHCI_HCTL_SDVS3V3 = push_bit 9 7"
definition SDHCI_HCTL_SDVS_MSK :: u32 where "SDHCI_HCTL_SDVS_MSK = push_bit 9 7"
definition SDHCI_SYSCTL_ICE :: u32 where "SDHCI_SYSCTL_ICE = push_bit 0 1"
definition SDHCI_SYSCTL_ICS :: u32 where "SDHCI_SYSCTL_ICS = push_bit 1 1"
definition SDHCI_SYSCTL_CEN :: u32 where "SDHCI_SYSCTL_CEN = push_bit 2 1"
definition SDHCI_SYSCTL_CGS_PROG :: u32 where "SDHCI_SYSCTL_CGS_PROG = push_bit 5 1"
definition SDHCI_SYSCTL_SDCLKFS_MSK :: u32 where "SDHCI_SYSCTL_SDCLKFS_MSK = 0xffc0"
definition SDHCI_SYSCTL_DTO_MSK :: u32 where "SDHCI_SYSCTL_DTO_MSK = push_bit 16 0xF"
definition SDHCI_SYSCTL_DTO_MAX :: u32 where "SDHCI_SYSCTL_DTO_MAX = push_bit 16 0xE"
definition SDHCI_SYSCTL_SRA :: u32 where "SDHCI_SYSCTL_SRA = push_bit 24 1"
definition SDHCI_SYSCTL_SRC :: u32 where "SDHCI_SYSCTL_SRC = push_bit 25 1"
definition SDHCI_SYSCTL_SRD :: u32 where "SDHCI_SYSCTL_SRD = push_bit 26 1"
definition SDHCI_CLK_MAX_DIV_SPEC_VER_2 :: u32 where "SDHCI_CLK_MAX_DIV_SPEC_VER_2 = 256"
definition SDHCI_CLK_MAX_DIV_SPEC_VER_3 :: u32 where "SDHCI_CLK_MAX_DIV_SPEC_VER_3 = 2046"
definition SDHCI_INTR_CC :: u32 where "SDHCI_INTR_CC = push_bit 0 1"
definition SDHCI_INTR_TC :: u32 where "SDHCI_INTR_TC = push_bit 1 1"
definition SDHCI_INTR_DMA :: u32 where "SDHCI_INTR_DMA = push_bit 3 1"
definition SDHCI_INTR_BWR :: u32 where "SDHCI_INTR_BWR = push_bit 4 1"
definition SDHCI_INTR_BRR :: u32 where "SDHCI_INTR_BRR = push_bit 5 1"
definition SDHCI_INTR_CINS :: u32 where "SDHCI_INTR_CINS = push_bit 6 1"
definition SDHCI_INTR_CREM :: u32 where "SDHCI_INTR_CREM = push_bit 7 1"
definition SDCHI_INTR_RETUNE :: u32 where "SDCHI_INTR_RETUNE = push_bit 12 1"
definition SDHCI_INTR_ERRI :: u32 where "SDHCI_INTR_ERRI = push_bit 15 1"
definition SDHCI_INTR_CTO :: u32 where "SDHCI_INTR_CTO = push_bit 16 1"
definition SDHCI_INTR_CCRC :: u32 where "SDHCI_INTR_CCRC = push_bit 17 1"
definition SDHCI_INTR_CEB :: u32 where "SDHCI_INTR_CEB = push_bit 18 1"
definition SDHCI_INTR_CIE :: u32 where "SDHCI_INTR_CIE = push_bit 19 1"
definition SDHCI_INTR_DTO :: u32 where "SDHCI_INTR_DTO = push_bit 20 1"
definition SDHCI_INTR_DCRC :: u32 where "SDHCI_INTR_DCRC = push_bit 21 1"
definition SDHCI_INTR_DEB :: u32 where "SDHCI_INTR_DEB = push_bit 22 1"
definition SDHCI_INTR_ACE :: u32 where "SDHCI_INTR_ACE = push_bit 24 1"
definition SDHCI_INTR_ADMAE :: u32 where "SDHCI_INTR_ADMAE = push_bit 25 1"
definition SDHCI_INTR_DFLTS :: u32 where "SDHCI_INTR_DFLTS = SDHCI_INTR_ADMAE OR SDHCI_INTR_ACE OR SDHCI_INTR_CIE OR SDHCI_INTR_CEB OR SDHCI_INTR_CCRC OR SDHCI_INTR_CTO OR SDHCI_INTR_ERRI"
definition SDHCI_INTR_ALL :: u32 where "SDHCI_INTR_ALL = 0x33ff87ff"
definition SDHCI_INTR_CLR_MSK :: u32 where "SDHCI_INTR_CLR_MSK = 0x117f80f3"
definition SDHCI_CAP_64BIT_ADDR :: u32 where "SDHCI_CAP_64BIT_ADDR = push_bit 28 1"
definition SDHCI_CAP_S18 :: u32 where "SDHCI_CAP_S18 = push_bit 26 1"
definition SDHCI_CAP_S30 :: u32 where "SDHCI_CAP_S30 = push_bit 25 1"
definition SDHCI_CAP_S33 :: u32 where "SDHCI_CAP_S33 = push_bit 24 1"
definition SDHCI_CAP_DMA :: u32 where "SDHCI_CAP_DMA = push_bit 22 1"
definition SDHCI_CAP_HS :: u32 where "SDHCI_CAP_HS = push_bit 21 1"
definition SDHCI_CAP_TUNE_SDR50 :: u32 where "SDHCI_CAP_TUNE_SDR50 = push_bit 13 1"
definition SDHCI_CAP_DRIVE_TYPE_D :: u32 where "SDHCI_CAP_DRIVE_TYPE_D = push_bit 6 1"
definition SDHCI_CAP_DRIVE_TYPE_C :: u32 where "SDHCI_CAP_DRIVE_TYPE_C = push_bit 5 1"
definition SDHCI_CAP_DRIVE_TYPE_A :: u32 where "SDHCI_CAP_DRIVE_TYPE_A = push_bit 4 1"
definition SDHCI_CAP_DDR50 :: u32 where "SDHCI_CAP_DDR50 = push_bit 2 1"
definition SDHCI_CAP_SDR104 :: u32 where "SDHCI_CAP_SDR104 = push_bit 1 1"
definition SDHCI_CAP_SDR50 :: u32 where "SDHCI_CAP_SDR50 = push_bit 0 1"
definition SDHCI_MCCAP_MULT :: u32 where "SDHCI_MCCAP_MULT = 4"
definition SDHCI_SPEC_VER_MSK :: u32 where "SDHCI_SPEC_VER_MSK = 0xff"
definition SDHCI_SPEC_VER_4 :: u32 where "SDHCI_SPEC_VER_4 = 0x3"
definition SDHCI_SPEC_VER_3 :: u32 where "SDHCI_SPEC_VER_3 = 0x2"
definition SDHCI_SPEC_VER_2 :: u32 where "SDHCI_SPEC_VER_2 = 0x1"
definition SDHCI_ADMA2_MAX_XFER :: u32 where "SDHCI_ADMA2_MAX_XFER = 1024 * 60"
definition SF_USE_SDMA :: u32 where "SF_USE_SDMA = 0x01"
definition SF_USE_ADMA :: u32 where "SF_USE_ADMA = 0x02"
definition SF_TUNE_SDR50 :: u32 where "SF_TUNE_SDR50 = 0x04"
definition SF_USE_ADMA64 :: u32 where "SF_USE_ADMA64 = 0x08"
definition SF_DIS_64BIT :: u32 where "SF_DIS_64BIT = 0x10"
definition SF_V4_MODE :: u32 where "SF_V4_MODE = 0x20"
definition SF_ICE_PERSIST :: u32 where "SF_ICE_PERSIST = 0x40"
definition OCR_VDD_17_195 :: u32 where "OCR_VDD_17_195 = 0x00000080"
definition OCR_VDD_29_30 :: u32 where "OCR_VDD_29_30 = 0x00020000"
definition OCR_VDD_30_31 :: u32 where "OCR_VDD_30_31 = 0x00040000"
definition OCR_VDD_32_33 :: u32 where "OCR_VDD_32_33 = 0x00100000"
definition OCR_VDD_33_34 :: u32 where "OCR_VDD_33_34 = 0x00200000"
definition CD_RMV :: u32 where "CD_RMV = 0x00"
definition CD_INS :: u32 where "CD_INS = 0x01"
definition CD_WP :: u32 where "CD_WP = 0x80"
definition BUS_WIDTH_1 :: u32 where "BUS_WIDTH_1 = 1"
definition BUS_WIDTH_4 :: u32 where "BUS_WIDTH_4 = 4"
definition BUS_WIDTH_8 :: u32 where "BUS_WIDTH_8 = 8"
definition TIMING_HS400 :: u32 where "TIMING_HS400 = 9"
definition TIMING_HS200 :: u32 where "TIMING_HS200 = 8"
definition TIMING_SDR104 :: u32 where "TIMING_SDR104 = 7"
definition TIMING_SDR50 :: u32 where "TIMING_SDR50 = 6"
definition TIMING_SDR25 :: u32 where "TIMING_SDR25 = 5"
definition TIMING_SDR12 :: u32 where "TIMING_SDR12 = 4"
definition TIMING_DDR50 :: u32 where "TIMING_DDR50 = 3"
definition TIMING_HS :: u32 where "TIMING_HS = 2"
definition SIGNAL_VOLTAGE_3_3 :: u32 where "SIGNAL_VOLTAGE_3_3 = 1"
definition SIGNAL_VOLTAGE_1_8 :: u32 where "SIGNAL_VOLTAGE_1_8 = 3"
definition DRV_TYPE_A :: u32 where "DRV_TYPE_A = 2"
definition DRV_TYPE_C :: u32 where "DRV_TYPE_C = 4"
definition DRV_TYPE_D :: u32 where "DRV_TYPE_D = 8"
definition SD_SEND_TUNING_BLOCK :: u32 where "SD_SEND_TUNING_BLOCK = 19"
definition MMC_SEND_TUNING_BLOCK :: u32 where "MMC_SEND_TUNING_BLOCK = 21"
definition SCF_DATA_PHYS :: u32 where "SCF_DATA_PHYS = push_bit 24 1"
definition HC_FLAG_DEV_MMC :: u32 where "HC_FLAG_DEV_MMC = push_bit 5 1"

end
