(* ===== verification/Sdhci.thy ===== *)
theory Sdhci
  imports Sdio_Cmd Sdhci_Consts
begin

text \<open>
  The SD host controller driver (\<open>devb/sdmmc/sdiodi/hc/sdhci.c\<close>), built as in
  \<open>aarch64/bcm2711.le\<close>: neither \<open>BS_GPIO_INS_RMV\<close> nor the macros of other chips are defined.  What
  a register read returns is given by the hardware \<open>rd\<close>, a function of the number of register
  accesses so far and of the register; the writes are recorded.  Delays and the log are not
  part of the model.
\<close>

section \<open>Registers\<close>

type_synonym hw = "nat \<Rightarrow> nat \<Rightarrow> u32"

datatype reg_write = W8 nat u8 | W16 nat u16 | W32 nat u32

record reg_io =
  io_clock :: nat
  io_writes :: "reg_write list"

definition in32 :: "hw \<Rightarrow> nat \<Rightarrow> reg_io \<Rightarrow> u32 \<times> reg_io" where
  "in32 rd r io = (rd (io_clock io) r, io\<lparr>io_clock := io_clock io + 1\<rparr>)"

definition in16 :: "hw \<Rightarrow> nat \<Rightarrow> reg_io \<Rightarrow> u16 \<times> reg_io" where
  "in16 rd r io = (ucast (rd (io_clock io) r), io\<lparr>io_clock := io_clock io + 1\<rparr>)"

definition in8 :: "hw \<Rightarrow> nat \<Rightarrow> reg_io \<Rightarrow> u8 \<times> reg_io" where
  "in8 rd r io = (ucast (rd (io_clock io) r), io\<lparr>io_clock := io_clock io + 1\<rparr>)"

definition out :: "reg_write \<Rightarrow> reg_io \<Rightarrow> reg_io" where
  "out w io = io\<lparr>io_clock := io_clock io + 1, io_writes := io_writes io @ [w]\<rparr>"

text \<open>The fields of \<open>sdio_hc_t\<close> and \<open>sdhci_hc_t\<close> the driver uses; \<open>sh_flags\<close> is \<open>sdhc->flags\<close>, \<open>hc_flags\<close> \<open>hc->flags\<close>.\<close>

record sdhci =
  hc_caps :: u64
  hc_flags :: u32
  hc_version :: u32
  hc_clk :: u32
  hc_clk_max :: u32
  hc_clk_min :: u32
  hc_vdd :: u32
  hc_ocr :: u32
  hc_bus_mode :: u32
  hc_bus_width :: u32
  hc_timing :: u32
  hc_signal_voltage :: u32
  hc_drv_type :: u32
  hc_tuning_count :: u32
  cfg_bmstr_xlat :: u64
  cfg_sg_max :: nat
  sh_flags :: u32
  sh_clk_mul :: u32
  sh_admap :: u64

text \<open>\<open>sdhci_waitmask\<close>: polls every microsecond for at most a millisecond, then every millisecond.\<close>

primrec poll_reg :: "nat \<Rightarrow> hw \<Rightarrow> nat \<Rightarrow> u32 \<Rightarrow> u32 \<Rightarrow> reg_io \<Rightarrow> unit ret \<times> reg_io" where
  "poll_reg 0 rd r msk val io = (Fail ETIMEDOUT, io)"
| "poll_reg (Suc cnt) rd r msk val io =
     (case in32 rd r io of (rval, io) \<Rightarrow> if rval AND msk = val then (Ok (), io) else poll_reg cnt rd r msk val io)"

definition sdhci_waitmask :: "hw \<Rightarrow> nat \<Rightarrow> u32 \<Rightarrow> u32 \<Rightarrow> nat \<Rightarrow> reg_io \<Rightarrow> unit ret \<times> reg_io" where
  "sdhci_waitmask rd r msk val usec io =
     (case poll_reg (min usec 1000) rd r msk val io of
        (Ok _, io) \<Rightarrow> (Ok (), io)
      | (Fail e, io) \<Rightarrow> if usec > 1000 then poll_reg (usec div 1000) rd r msk val io else (Fail e, io))"

text \<open>The flag is looked up in \<open>hc->flags\<close>, as in the source.\<close>

definition sdhci_reset :: "hw \<Rightarrow> sdhci \<Rightarrow> u32 \<Rightarrow> reg_io \<Rightarrow> unit ret \<times> reg_io" where
  "sdhci_reset rd hc rst io =
     (let (sctl, io) = in32 rd SDHCI_SYSCTL io;
          io = out (W32 SDHCI_SYSCTL (sctl OR rst)) io;
          (status, io) = sdhci_waitmask rd SDHCI_SYSCTL rst 0 100000 io
      in if has (hc_flags hc) SF_ICE_PERSIST \<and> has rst SDHCI_SYSCTL_SRA then
           let io = out (W32 SDHCI_SYSCTL SDHCI_SYSCTL_ICE) io;
               (_, io) = sdhci_waitmask rd SDHCI_SYSCTL SDHCI_SYSCTL_ICS SDHCI_SYSCTL_ICS 20000 io
           in (status, io)
         else (status, io))"

section \<open>Transfers by the processor\<close>

text \<open>
  A scatter/gather entry and the position in the list: \<open>wspc.sge\<close> is an index into the list the
  command has, and reading an entry behind it is out of bounds.
\<close>

record sdio_sge =
  sg_address :: u64
  sg_count :: u32

record sdio_wspc =
  ws_nsg :: u32
  ws_sge :: nat
  ws_sgc :: u32
  ws_sga :: u64

text \<open>The list and its length come from the caller; \<open>None\<close> is a NULL list.\<close>

definition sdio_sg_start :: "sdio_sge list option \<Rightarrow> u32 \<Rightarrow> sdio_wspc \<Rightarrow> (unit ret \<times> sdio_wspc) result" where
  "sdio_sg_start sgl nsg ws =
     (case sgl of
        None \<Rightarrow> if nsg = 0 then Inr (Fail EINVAL, ws) else Inl Null_dereference
      | Some l \<Rightarrow>
          if l = [] then Inl Out_of_bounds
          else Inr (Ok (), \<lparr>ws_nsg = nsg, ws_sge = 0, ws_sgc = sg_count (l ! 0), ws_sga = sg_address (l ! 0)\<rparr>))"

text \<open>The result is \<open>None\<close> when the list is complete, otherwise the next piece of memory.\<close>

definition sdio_sg_nxt :: "sdio_sge list \<Rightarrow> u32 \<Rightarrow> sdio_wspc \<Rightarrow> ((u64 \<times> u32) option \<times> sdio_wspc) result" where
  "sdio_sg_nxt l blksz ws =
     (if ws_nsg ws = 0 \<and> ws_sgc ws = 0 then Inr (None, ws)
      else
        let k = ws_sge ws + 1 in
        if ws_sgc ws = 0 \<and> k \<ge> length l then Inl Out_of_bounds
        else
          let ws = (if ws_sgc ws = 0 then ws\<lparr>ws_sge := k, ws_nsg := ws_nsg ws - 1, ws_sgc := sg_count (l ! k),
                                            ws_sga := sg_address (l ! k)\<rparr> else ws);
              len = min (ws_sgc ws) blksz
          in Inr (Some (ws_sga ws, len), ws\<lparr>ws_sga := ws_sga ws + ucast len, ws_sgc := ws_sgc ws - len\<rparr>))"

text \<open>
  One block: the pieces of memory it is copied from or to, each with the number of words moved
  through the data register.  Entries of length zero make no progress, so the loop has fuel.
\<close>

fun pio_block :: "nat \<Rightarrow> sdio_sge list \<Rightarrow> u32 \<Rightarrow> sdio_wspc \<Rightarrow> ((u64 \<times> u32) list \<times> sdio_wspc) result" where
  "pio_block 0 l blksz ws = (if blksz = 0 then Inr ([], ws) else Inl Diverges)"
| "pio_block (Suc fuel) l blksz ws =
     (if blksz = 0 then Inr ([], ws)
      else bind_result (sdio_sg_nxt l blksz ws) (\<lambda>(p, ws).
        case p of
          None \<Rightarrow> Inr ([], ws)
        | Some (addr, len) \<Rightarrow>
            bind_result (pio_block fuel l (blksz - len) ws) (\<lambda>(ps, ws). Inr ((addr, len div 4) # ps, ws))))"

text \<open>The blocks of a transfer, as long as the controller asks for one.\<close>

fun sdhci_pio_xfer :: "nat \<Rightarrow> hw \<Rightarrow> sdio_cmd \<Rightarrow> sdio_sge list \<Rightarrow> sdio_wspc \<Rightarrow> reg_io
    \<Rightarrow> ((u64 \<times> u32) list \<times> sdio_wspc \<times> reg_io) result" where
  "sdhci_pio_xfer 0 rd cmd l ws io = Inl Diverges"
| "sdhci_pio_xfer (Suc fuel) rd cmd l ws io =
     (let msk = (if has (sc_flags cmd) SCF_DIR_IN then SDHCI_PSTATE_BRE else SDHCI_PSTATE_BWE);
          (v, io) = in32 rd SDHCI_PSTATE io in
      if \<not> has v msk then Inr ([], ws, io)
      else bind_result (pio_block fuel l (sc_blksz cmd) ws) (\<lambda>(ps, ws).
        bind_result (sdhci_pio_xfer fuel rd cmd l ws io) (\<lambda>(qs, ws, io). Inr (ps @ qs, ws, io))))"

section \<open>Interrupts\<close>

text \<open>The status of a command for an error interrupt: the last test that applies decides.\<close>

definition error_status :: "u32 \<Rightarrow> cmd_status" where
  "error_status sts =
     (let cs = CS_CMD_INPROG;
          cs = (if has sts SDHCI_INTR_DTO then CS_DATA_TO_ERR else cs);
          cs = (if has sts SDHCI_INTR_DCRC then CS_DATA_CRC_ERR else cs);
          cs = (if has sts SDHCI_INTR_DEB then CS_DATA_END_ERR else cs);
          cs = (if has sts SDHCI_INTR_CTO then CS_CMD_TO_ERR else cs);
          cs = (if has sts SDHCI_INTR_CCRC then CS_CMD_CRC_ERR else cs);
          cs = (if has sts SDHCI_INTR_CEB then CS_CMD_END_ERR else cs);
          cs = (if has sts SDHCI_INTR_CIE then CS_CMD_IDX_ERR else cs);
          cs = (if has sts SDHCI_INTR_ADMAE then CS_DATA_TO_ERR else cs);
          cs = (if has sts SDHCI_INTR_ACE then CS_DATA_TO_ERR else cs)
      in if cs = CS_CMD_INPROG then CS_CMD_CMP_ERR else cs)"

text \<open>The response of 136 bits comes without its last byte, the checksum.\<close>

definition read_rsp136 :: "hw \<Rightarrow> reg_io \<Rightarrow> u32 list \<times> reg_io" where
  "read_rsp136 rd io =
     (let (r0, io) = in32 rd (SDHCI_RESP0 + 0 * 4) io;
          (r1, io) = in32 rd (SDHCI_RESP0 + 1 * 4) io;
          (r2, io) = in32 rd (SDHCI_RESP0 + 2 * 4) io;
          (r3, io) = in32 rd (SDHCI_RESP0 + 3 * 4) io;
          byte = (\<lambda>rsp. ucast (ucast (drop_bit 24 rsp) :: u8) :: u32)
      in ([push_bit 8 r3 + byte r2, push_bit 8 r2 + byte r1, push_bit 8 r1 + byte r0, push_bit 8 r0 + 0], io))"

text \<open>What an interrupt leads to: pulses for the driver's thread, and the command completed.\<close>

datatype intr_event = Card_detect | Retune

record intr_result =
  ir_events :: "intr_event list"
  ir_done :: "cmd_status option"
  ir_rsp :: "u32 list"
  ir_moved :: "(u64 \<times> u32) list"

text \<open>
  The part without an error: command complete, transfer complete, the restart of a simple DMA
  transfer and the transfer by the processor, whose result 0 is \<open>CS_CMD_INPROG\<close>.
\<close>

definition intr_complete :: "hw \<Rightarrow> u32 \<Rightarrow> sdio_cmd \<Rightarrow> u32 list \<Rightarrow> reg_io \<Rightarrow> cmd_status \<times> u32 list \<times> reg_io" where
  "intr_complete rd sts cmd rsp io =
     (let cc = has sts SDHCI_INTR_CC;
          (rsp, io) = (if cc \<and> has (sc_flags cmd) SCF_RSP_136 then read_rsp136 rd io
                       else if cc \<and> has (sc_flags cmd) SCF_RSP_PRESENT then
                         (case in32 rd SDHCI_RESP0 io of (r, io) \<Rightarrow> (rsp[0 := r], io))
                       else (rsp, io));
          cs = (if cc then CS_CMD_CMP else CS_CMD_INPROG) in
      if has sts SDHCI_INTR_TC then
        (case in32 rd SDHCI_RESP0 io of (r, io) \<Rightarrow> (CS_CMD_CMP, rsp[0 := r], io))
      else if has sts SDHCI_INTR_DMA then
        (case in32 rd SDHCI_SDMA_ARG2 io of (a, io) \<Rightarrow> (cs, rsp, out (W32 SDHCI_SDMA_ARG2 a) io))
      else (cs, rsp, io))"

text \<open>The end of the handler: a removed card overrides, and any status but in progress completes the command.\<close>

definition intr_finish :: "u32 \<Rightarrow> intr_event list \<Rightarrow> cmd_status \<Rightarrow> u32 list \<Rightarrow> (u64 \<times> u32) list \<Rightarrow> intr_result" where
  "intr_finish sts evs cs rsp moved =
     (let cs = (if has sts SDHCI_INTR_CREM then CS_CARD_REMOVED else cs)
      in \<lparr>ir_events = evs, ir_done = (if cs = CS_CMD_INPROG then None else Some cs), ir_rsp = rsp, ir_moved = moved\<rparr>)"

text \<open>The part of the handler for an active command; \<open>fuel\<close> bounds the transfer by the processor.\<close>

definition intr_command :: "nat \<Rightarrow> hw \<Rightarrow> sdhci \<Rightarrow> u32 \<Rightarrow> intr_event list \<Rightarrow> sdio_cmd \<Rightarrow> u32 list \<Rightarrow> sdio_sge list \<Rightarrow> sdio_wspc
    \<Rightarrow> reg_io \<Rightarrow> (intr_result \<times> sdio_wspc \<times> reg_io) result" where
  "intr_command fuel rd hc sts evs cmd rsp l ws io =
     (if has sts SDHCI_INTR_ERRI then
        let (_, io) = sdhci_reset rd hc SDHCI_SYSCTL_SRD io;
            (_, io) = sdhci_reset rd hc SDHCI_SYSCTL_SRC io
        in Inr (intr_finish sts evs (error_status sts) rsp [], ws, io)
      else
        case intr_complete rd sts cmd rsp io of
          (cs, rsp, io) \<Rightarrow>
            if has sts (SDHCI_INTR_BWR OR SDHCI_INTR_BRR) then
              if sc_opcode cmd = SD_SEND_TUNING_BLOCK \<or> sc_opcode cmd = MMC_SEND_TUNING_BLOCK
              then Inr (intr_finish sts evs CS_CMD_CMP rsp [], ws, io)
              else bind_result (sdhci_pio_xfer fuel rd cmd l ws io)
                     (\<lambda>(moved, ws, io). Inr (intr_finish sts evs CS_CMD_INPROG rsp moved, ws, io))
            else Inr (intr_finish sts evs cs rsp [], ws, io))"

text \<open>\<open>cmd\<close> is \<open>hc->wspc.cmd\<close> with its response so far.\<close>

definition sdhci_intr_event :: "nat \<Rightarrow> hw \<Rightarrow> sdhci \<Rightarrow> (sdio_cmd \<times> u32 list) option \<Rightarrow> sdio_sge list \<Rightarrow> sdio_wspc \<Rightarrow> reg_io
    \<Rightarrow> (intr_result \<times> sdio_wspc \<times> reg_io) result" where
  "sdhci_intr_event fuel rd hc cmd l ws io =
     (let (sts, io) = in32 rd SDHCI_IS io in
      if sts = 0 then Inr (\<lparr>ir_events = [], ir_done = None, ir_rsp = [], ir_moved = []\<rparr>, ws, io)
      else
        let (ie, io) = in32 rd SDHCI_IE io;
            sts = sts AND (ie OR SDHCI_INTR_ERRI);
            io = out (W32 SDHCI_IS sts) io;
            evs = (if has sts (SDHCI_INTR_CINS OR SDHCI_INTR_CREM) then [Card_detect] else [])
                  @ (if has sts SDCHI_INTR_RETUNE then [Retune] else []) in
        case cmd of
          None \<Rightarrow> Inr (\<lparr>ir_events = evs, ir_done = None, ir_rsp = [], ir_moved = []\<rparr>, ws, io)
        | Some (cmd, rsp) \<Rightarrow> intr_command fuel rd hc sts evs cmd rsp l ws io)"

section \<open>Transfers by the controller\<close>

text \<open>
  A descriptor of the ADMA2 table.  \<open>addr_hi\<close> exists in tables with 64-bit addresses only.  The
  table has room for \<open>ADMA_DESC_MAX\<close> descriptors; writing behind it is out of bounds.
\<close>

record adma_desc =
  ad_attr :: u16
  ad_len :: u16
  ad_addr_lo :: u32
  ad_addr_hi :: u32

definition make_desc :: "sdhci \<Rightarrow> u64 \<Rightarrow> u32 \<Rightarrow> adma_desc" where
  "make_desc hc paddr alen = \<lparr>ad_attr = SDHCI_ADMA2_VALID OR SDHCI_ADMA2_TRAN, ad_len = ucast alen, ad_addr_lo = ucast paddr,
     ad_addr_hi = (if has (sh_flags hc) SF_USE_ADMA64 then ucast (drop_bit 32 paddr) else 0)\<rparr>"

text \<open>The pieces of one entry: \<open>while( sg_count )\<close>.\<close>

function adma_entry :: "sdhci \<Rightarrow> u64 \<Rightarrow> u32 \<Rightarrow> adma_desc list \<Rightarrow> adma_desc list ret result" where
  "adma_entry hc paddr cnt tab =
     (if cnt = 0 then Inr (Ok tab)
      else if length tab \<ge> ADMA_DESC_MAX then Inl Out_of_bounds
      else
        let alen = min cnt SDHCI_ADMA2_MAX_XFER;
            tab = tab @ [make_desc hc paddr alen]
        in if length tab > ADMA_DESC_MAX then Inr (Fail ENOTSUP)
           else adma_entry hc (paddr + ucast alen) (cnt - alen) tab)"
  by pat_completeness auto
termination adma_entry
proof (relation "measure (\<lambda>(hc, paddr, c, tab). unat c)")
  fix hc :: sdhci and paddr :: u64 and c :: u32 and tab :: "adma_desc list" and alen tab'
  assume "c \<noteq> 0" and "alen = min c SDHCI_ADMA2_MAX_XFER"
  moreover have "0 < SDHCI_ADMA2_MAX_XFER" by (simp add: SDHCI_ADMA2_MAX_XFER_def)
  ultimately have "0 < alen" "alen \<le> c" by (auto simp: word_neq_0_conv min_def)
  then have "unat (c - alen) < unat c" by (simp add: unat_sub word_less_nat_alt word_le_nat_alt)
  then show "((hc, paddr + ucast alen, c - alen, tab'), hc, paddr, c, tab) \<in> measure (\<lambda>(hc, paddr, c, tab). unat c)" by simp
qed simp

declare adma_entry.simps [simp del]

fun adma_entries :: "sdhci \<Rightarrow> sdio_sge list \<Rightarrow> adma_desc list \<Rightarrow> adma_desc list ret result" where
  "adma_entries hc [] tab = Inr (Ok tab)"
| "adma_entries hc (s # l) tab =
     bind_result (adma_entry hc (sg_address s + cfg_bmstr_xlat hc) (sg_count s) tab) (\<lambda>r.
       case r of Fail e \<Rightarrow> Inr (Fail e) | Ok tab \<Rightarrow> adma_entries hc l tab)"

text \<open>\<open>phys\<close> is the list with physical addresses, translated by \<open>sdio_vtop_sg\<close> where needed.\<close>

definition sdhci_adma_setup :: "sdhci \<Rightarrow> sdio_sge list \<Rightarrow> reg_io \<Rightarrow> (adma_desc list ret \<times> reg_io) result" where
  "sdhci_adma_setup hc phys io =
     bind_result (adma_entries hc phys []) (\<lambda>r.
       case r of
         Fail e \<Rightarrow> Inr (Fail e, io)
       | Ok tab \<Rightarrow>
           if tab = [] then Inl Out_of_bounds
           else
             let d = last tab;
                 tab = butlast tab @ [d\<lparr>ad_attr := ad_attr d OR SDHCI_ADMA2_END\<rparr>];
                 a = sh_admap hc + cfg_bmstr_xlat hc;
                 io = out (W32 SDHCI_ADMA_ADDRL (ucast a)) io;
                 io = (if has (sh_flags hc) SF_USE_ADMA64 then out (W32 SDHCI_ADMA_ADDRH (ucast (drop_bit 32 a))) io else io)
             in Inr (Ok tab, io))"

definition sdhci_sdma_setup :: "sdio_sge list \<Rightarrow> reg_io \<Rightarrow> reg_io result" where
  "sdhci_sdma_setup phys io =
     (if phys = [] then Inl Out_of_bounds else Inr (out (W32 SDHCI_SDMA_ARG2 (ucast (sg_address (phys ! 0)))) io))"

section \<open>Issuing a command\<close>

text \<open>
  \<open>sgl\<close> is the list of the command (\<open>None\<close> for NULL), of length \<open>cmd->sgc\<close>, and \<open>vtop\<close> the
  address translation of the \<open>xpt\<close> library.
\<close>

definition phys_list :: "(u64 \<Rightarrow> u64) \<Rightarrow> sdio_cmd \<Rightarrow> sdio_sge list \<Rightarrow> sdio_sge list" where
  "phys_list vtop cmd l =
     (if has (sc_flags cmd) SCF_DATA_PHYS then l else map (\<lambda>s. s\<lparr>sg_address := vtop (sg_address s)\<rparr>) l)"

text \<open>The choice of the DMA mode: status, host control words and command bits.\<close>

definition dma_mode :: "(u64 \<Rightarrow> u64) \<Rightarrow> sdhci \<Rightarrow> sdio_cmd \<Rightarrow> sdio_sge list \<Rightarrow> u32 \<Rightarrow> u16 \<Rightarrow> reg_io
    \<Rightarrow> (unit ret \<times> u32 \<times> u16 \<times> u32 \<times> reg_io) result" where
  "dma_mode vtop hc cmd l hctl hctl2 io =
     (if has (sh_flags hc) SF_USE_ADMA then
        bind_result (sdhci_adma_setup hc (phys_list vtop cmd l) io) (\<lambda>(r, io).
          case r of
            Fail e \<Rightarrow> Inr (Fail e, hctl, hctl2, 0, io)
          | Ok _ \<Rightarrow>
              if has (sh_flags hc) SF_V4_MODE then
                Inr (Ok (), hctl OR SDHCI_HCTL_ADMA2,
                  ((hctl2 OR SDHCI_HCTL2_V4_MODE) AND NOT SDHCI_HCTL2_64BIT_ADDR)
                    OR flag_if (has (sh_flags hc) SF_USE_ADMA64) SDHCI_HCTL2_64BIT_ADDR, SDHCI_CMD_DE, io)
              else Inr (Ok (), hctl OR (if has (sh_flags hc) SF_USE_ADMA64 then SDHCI_HCTL_ADMA64 else SDHCI_HCTL_ADMA32),
                     hctl2, SDHCI_CMD_DE, io))
      else bind_result (sdhci_sdma_setup (phys_list vtop cmd l) io) (\<lambda>io. Inr (Ok (), hctl OR SDHCI_HCTL_SDMA, hctl2, SDHCI_CMD_DE, io)))"

text \<open>The result is the status, the command word and the interrupt mask.\<close>

definition sdhci_xfer_setup :: "hw \<Rightarrow> (u64 \<Rightarrow> u64) \<Rightarrow> sdhci \<Rightarrow> sdio_cmd \<Rightarrow> sdio_sge list option \<Rightarrow> u32 \<Rightarrow> u32 \<Rightarrow> sdio_wspc \<Rightarrow> reg_io
    \<Rightarrow> (unit ret \<times> u32 \<times> u32 \<times> sdio_wspc \<times> reg_io) result" where
  "sdhci_xfer_setup rd vtop hc cmd sgl command imask ws io =
     (let (v, io) = in32 rd SDHCI_HCTL io;
          hctl = v AND NOT SDHCI_HCTL_DMA_MSK;
          (hctl2, io) = in16 rd SDHCI_HCTL2 io;
          dir_in = has (sc_flags cmd) SCF_DIR_IN;
          sgc = length (case sgl of None \<Rightarrow> [] | Some l \<Rightarrow> l);
          command = command OR (if dir_in then SDHCI_CMD_DP OR SDHCI_CMD_DDIR else SDHCI_CMD_DP);
          imask = imask OR SDHCI_INTR_TC OR SDHCI_INTR_DTO OR SDHCI_INTR_DCRC OR SDHCI_INTR_DEB in
      bind_result (sdio_sg_start sgl (of_nat sgc) ws) (\<lambda>(status, ws).
      bind_result (if sgc \<noteq> 0 \<and> has (hc_caps hc) HC_CAP_DMA then dma_mode vtop hc cmd (the sgl) hctl hctl2 io
                   else Inr (status, hctl, hctl2, 0, io)) (\<lambda>(status, hctl, hctl2, c, io).
        let command = command OR c;
            pio = (status \<noteq> Ok () \<or> \<not> has (hc_caps hc) HC_CAP_DMA) in
        if pio \<and> has (sc_flags cmd) SCF_DATA_PHYS then Inr (status, command, imask, ws, io)
        else
          let imask = (if pio then imask OR (if dir_in then SDHCI_INTR_BRR else SDHCI_INTR_BWR) else imask);
              multi = (sc_blks cmd > 1);
              a23 = (multi \<and> has (hc_caps hc) HC_CAP_ACMD23 \<and> has (sc_flags cmd) SCF_SBC);
              a12 = (multi \<and> \<not> a23 \<and> has (hc_caps hc) HC_CAP_ACMD12);
              command = command OR flag_if multi (SDHCI_CMD_MBS OR SDHCI_CMD_BCE) OR flag_if a23 SDHCI_CMD_ACMD23
                        OR flag_if a12 SDHCI_CMD_ACMD12;
              io = (if a23 then out (W32 SDHCI_SDMA_ARG2 (sc_blks cmd)) io else io);
              io = out (W32 SDHCI_HCTL hctl) io;
              io = (if has (sh_flags hc) SF_V4_MODE
                    then out (W32 SDHCI_32BIT_BLK_CNT (sc_blks cmd)) (out (W32 SDHCI_BLK (sc_blksz cmd)) (out (W16 SDHCI_HCTL2 hctl2) io))
                    else out (W32 SDHCI_BLK (sc_blksz cmd OR SDHCI_BLK_SDMA_BOUNDARY_512K
                                OR push_bit SDHCI_BLK_BLKCNT_SHIFT (sc_blks cmd))) io)
          in Inr (Ok (), command, imask, ws, io))))"

text \<open>The response part of the command word.\<close>

definition rsp_bits :: "u32 \<Rightarrow> u32" where
  "rsp_bits flags =
     (if has flags SCF_RSP_PRESENT then
        (if has flags SCF_RSP_136 then SDHCI_CMD_RSP_TYPE_136
         else if has flags SCF_RSP_BUSY then SDHCI_CMD_RSP_TYPE_48b else SDHCI_CMD_RSP_TYPE_48)
        OR flag_if (has flags SCF_RSP_OPCODE) SDHCI_CMD_CICE OR flag_if (has flags SCF_RSP_CRC) SDHCI_CMD_CCCE
      else 0)"

definition sdhci_cmd :: "hw \<Rightarrow> (u64 \<Rightarrow> u64) \<Rightarrow> sdhci \<Rightarrow> sdio_cmd \<Rightarrow> sdio_sge list option \<Rightarrow> sdio_wspc \<Rightarrow> reg_io
    \<Rightarrow> (unit ret \<times> sdio_wspc \<times> reg_io) result" where
  "sdhci_cmd rd vtop hc cmd sgl ws io =
     (let imask = SDHCI_INTR_DFLTS OR flag_if (\<not> has (hc_caps hc) HC_CAP_SLOT_TYPE_EMBEDDED) (SDHCI_INTR_CINS OR SDHCI_INTR_CREM);
          io = out (W32 SDHCI_IS SDHCI_INTR_CLR_MSK) io;
          command = push_bit 24 (sc_opcode cmd) OR flag_if (sc_opcode cmd = MMC_STOP_TRANSMISSION) SDHCI_CMD_TYPE_CMD12;
          data = has (sc_flags cmd) SCF_DATA_MSK in
      bind_result (if data then sdhci_xfer_setup rd vtop hc cmd sgl command imask ws io
                   else Inr (Ok (), command, imask OR SDHCI_INTR_CC, ws, io)) (\<lambda>(status, command, imask, ws, io).
        case status of
          Fail e \<Rightarrow> Inr (Fail e, ws, io)
        | Ok _ \<Rightarrow>
            let command = command OR rsp_bits (sc_flags cmd);
                pmask = SDHCI_PSTATE_CMDI OR flag_if data SDHCI_PSTATE_DATI in
            case sdhci_waitmask rd SDHCI_PSTATE pmask 0 100000 io of
              (Fail e, io) \<Rightarrow> Inr (Fail e, ws, io)
            | (Ok _, io) \<Rightarrow>
                Inr (Ok (), ws, out (W32 SDHCI_CMD command) (out (W32 SDHCI_ARG (sc_arg cmd)) (out (W32 SDHCI_IE imask) io)))))"

end
