(* ===== verification/Sdhci_Ctl.thy ===== *)
theory Sdhci_Ctl
  imports Sdhci
begin

text \<open>
  The SD host controller driver, continued: power, bus width, clock, timing, signal voltage,
  driver type, tuning, card detection, and the capabilities read when the controller is
  initialised.
\<close>

section \<open>Power and bus\<close>

definition vdd_bits :: "u32 \<Rightarrow> u32 option" where
  "vdd_bits vdd =
     (if vdd = OCR_VDD_17_195 then Some SDHCI_HCTL_SDVS1V8
      else if vdd = OCR_VDD_30_31 \<or> vdd = OCR_VDD_29_30 then Some SDHCI_HCTL_SDVS3V0
      else if vdd = OCR_VDD_33_34 \<or> vdd = OCR_VDD_32_33 then Some SDHCI_HCTL_SDVS3V3
      else None)"

definition sdhci_pwr :: "hw \<Rightarrow> sdhci \<Rightarrow> u32 \<Rightarrow> reg_io \<Rightarrow> unit ret \<times> sdhci \<times> reg_io" where
  "sdhci_pwr rd hc vdd io =
     (let io = out (W32 SDHCI_IE 0) io;
          io = (if hc_vdd hc = 0 \<or> vdd = 0 then
                  let (_, io) = sdhci_reset rd hc SDHCI_SYSCTL_SRC io;
                      (_, io) = sdhci_reset rd hc SDHCI_SYSCTL_SRD io;
                      (_, io) = sdhci_reset rd hc SDHCI_SYSCTL_SRA io
                  in out (W32 SDHCI_ISE SDHCI_INTR_ALL) io
                else io);
          fin = (\<lambda>io. (Ok (), hc\<lparr>hc_vdd := vdd\<rparr>,
                   if has (hc_caps hc) HC_CAP_SLOT_TYPE_EMBEDDED then io
                   else out (W32 SDHCI_IE (SDHCI_INTR_CINS OR SDHCI_INTR_CREM)) io)) in
      if vdd \<noteq> 0 then
        let (v, io) = in32 rd SDHCI_HCTL io;
            hctl = v AND NOT SDHCI_HCTL_SDVS_MSK in
        case vdd_bits vdd of
          None \<Rightarrow> (Fail EINVAL, hc, io)
        | Some b \<Rightarrow>
            let hctl = hctl OR b;
                io = out (W32 SDHCI_HCTL (hctl OR SDHCI_HCTL_SDBP)) (out (W32 SDHCI_HCTL hctl) io);
                (_, io) = sdhci_waitmask rd SDHCI_HCTL SDHCI_HCTL_SDBP SDHCI_HCTL_SDBP 10000 io
            in fin io
      else fin (out (W32 SDHCI_HCTL 0) io))"

definition sdhci_bus_mode :: "sdhci \<Rightarrow> u32 \<Rightarrow> sdhci" where
  "sdhci_bus_mode hc md = hc\<lparr>hc_bus_mode := md\<rparr>"

definition sdhci_bus_width :: "hw \<Rightarrow> sdhci \<Rightarrow> u32 \<Rightarrow> reg_io \<Rightarrow> sdhci \<times> reg_io" where
  "sdhci_bus_width rd hc width io =
     (let (v, io) = in8 rd SDHCI_HCTL io;
          bit8 = (if hc_version hc \<noteq> 0 then SDHCI_HCTL_BW8 else SDHCI_HCTL_MMC8);
          hctl = ucast v AND NOT SDHCI_HCTL_DTW4 AND NOT bit8;
          hctl = (if width = BUS_WIDTH_8 then hctl OR bit8 else if width = BUS_WIDTH_4 then hctl OR SDHCI_HCTL_DTW4 else hctl)
      in (hc\<lparr>hc_bus_width := width\<rparr>, out (W8 SDHCI_HCTL (ucast hctl)) io))"

section \<open>Clock\<close>

text \<open>
  The three loops that look for a divider try the values of a list in turn and, when none is
  large enough, end with the value that ends the loop.
\<close>

definition first_div :: "u32 list \<Rightarrow> u32 \<Rightarrow> u32 \<Rightarrow> u32 \<Rightarrow> u32" where
  "first_div ds clk_max clk end_val = (case List.find (\<lambda>d. clk_max div d \<le> clk) ds of Some d \<Rightarrow> d | None \<Rightarrow> end_val)"

definition prog_divs :: "u32 list" where "prog_divs = map of_nat [1 ..< 1024]"

definition even_divs :: "u32 list" where
  "even_divs = map (\<lambda>i. of_nat (2 * i)) [1 ..< unat SDHCI_CLK_MAX_DIV_SPEC_VER_3 div 2]"

definition pow_divs :: "u32 list" where "pow_divs = [1, 2, 4, 8, 16, 32, 64, 128]"

definition clk_prog :: "u32 \<Rightarrow> u32 \<Rightarrow> u32" where
  "clk_prog clk_max clk = first_div prog_divs clk_max clk 1024 - 1"

definition clk_10bit :: "u32 \<Rightarrow> u32 \<Rightarrow> u32" where
  "clk_10bit clk_max clk =
     (let clkd = first_div even_divs clk_max clk SDHCI_CLK_MAX_DIV_SPEC_VER_3
      in drop_bit 1 (if clk_max \<le> clk then 1 else clkd))"

definition clk_8bit :: "u32 \<Rightarrow> u32 \<Rightarrow> u32" where
  "clk_8bit clk_max clk = drop_bit 1 (first_div pow_divs clk_max clk SDHCI_CLK_MAX_DIV_SPEC_VER_2)"

definition SDHCI_SYSCTL_CLK :: "u32 \<Rightarrow> u32" where
  "SDHCI_SYSCTL_CLK c = (push_bit 8 c AND 0xff00) OR (drop_bit 2 c AND 0xc0)"

text \<open>
  The divider, whether the programmable generator is selected, and the register state: the
  preset value enable bit is read in one case only.
\<close>

definition choose_clk :: "hw \<Rightarrow> sdhci \<Rightarrow> u32 \<Rightarrow> reg_io \<Rightarrow> u32 \<times> bool \<times> reg_io" where
  "choose_clk rd hc clk io =
     (if hc_version hc \<ge> SDHCI_SPEC_VER_3 then
        if sh_clk_mul hc \<noteq> 0 then
          (case in16 rd SDHCI_HCTL2 io of (h, io) \<Rightarrow>
             if has h SDHCI_HCTL2_PRESET_VAL then (0, False, io) else (clk_prog (hc_clk_max hc) clk, True, io))
        else (clk_10bit (hc_clk_max hc) clk, False, io)
      else (clk_8bit (hc_clk_max hc) clk, False, io))"

definition sdhci_clk :: "hw \<Rightarrow> sdhci \<Rightarrow> u32 \<Rightarrow> reg_io \<Rightarrow> sdhci \<times> reg_io" where
  "sdhci_clk rd hc clk io =
     (let (v, io) = in32 rd SDHCI_SYSCTL io;
          keep = SDHCI_SYSCTL_CEN OR SDHCI_SYSCTL_DTO_MSK OR SDHCI_SYSCTL_CGS_PROG OR SDHCI_SYSCTL_SDCLKFS_MSK;
          sctl = (if has (hc_flags hc) SF_ICE_PERSIST then v AND NOT keep else v AND NOT (SDHCI_SYSCTL_ICE OR keep));
          sctl = sctl OR SDHCI_SYSCTL_DTO_MAX;
          io = out (W32 SDHCI_SYSCTL (sctl OR SDHCI_SYSCTL_SRC OR SDHCI_SYSCTL_SRD)) io;
          (clkd, prog, io) = choose_clk rd hc clk io;
          sctl = sctl OR flag_if prog SDHCI_SYSCTL_CGS_PROG;
          sctl = sctl OR SDHCI_SYSCTL_CLK clkd OR SDHCI_SYSCTL_ICE;
          io = out (W32 SDHCI_SYSCTL sctl) io;
          (_, io) = sdhci_waitmask rd SDHCI_SYSCTL SDHCI_SYSCTL_ICS SDHCI_SYSCTL_ICS 10000 io;
          io = out (W32 SDHCI_SYSCTL (sctl OR SDHCI_SYSCTL_CEN)) io
      in (hc\<lparr>hc_clk := clk\<rparr>, io))"

section \<open>Timing and signal voltage\<close>

definition timing_hse :: "u32 \<Rightarrow> bool" where
  "timing_hse t \<longleftrightarrow> t = TIMING_HS400 \<or> t = TIMING_HS200 \<or> t = TIMING_SDR104 \<or> t = TIMING_SDR50 \<or> t = TIMING_SDR25
     \<or> t = TIMING_SDR12 \<or> t = TIMING_DDR50 \<or> t = TIMING_HS"

definition timing_mode :: "u32 \<Rightarrow> u16" where
  "timing_mode t =
     (if t = TIMING_HS400 then SDHCI_HCTL2_MODE_HS400
      else if t = TIMING_HS200 then SDHCI_HCTL2_MODE_HS200
      else if t = TIMING_SDR104 then SDHCI_HCTL2_MODE_SDR104
      else if t = TIMING_SDR50 then SDHCI_HCTL2_MODE_SDR50
      else if t = TIMING_SDR25 then SDHCI_HCTL2_MODE_SDR25
      else if t = TIMING_DDR50 then SDHCI_HCTL2_MODE_DDR50
      else 0)"

definition sdhci_timing :: "hw \<Rightarrow> sdhci \<Rightarrow> u32 \<Rightarrow> reg_io \<Rightarrow> sdhci \<times> reg_io" where
  "sdhci_timing rd hc timing io =
     (let (v, io) = in32 rd SDHCI_HCTL io;
          hctl = (v AND NOT SDHCI_HCTL_HSE) OR flag_if (timing_hse timing) SDHCI_HCTL_HSE in
      if hc_version hc \<ge> SDHCI_SPEC_VER_3 then
        let (h, io) = in16 rd SDHCI_HCTL2 io;
            hctl2 = (h AND NOT SDHCI_HCTL2_MODE_MSK) OR timing_mode timing;
            pre = has hctl2 SDHCI_HCTL2_PRESET_VAL;
            io = (if pre then case in32 rd SDHCI_SYSCTL io of (s, io) \<Rightarrow> out (W32 SDHCI_SYSCTL (s AND NOT SDHCI_SYSCTL_CEN)) io
                  else io);
            io = out (W16 SDHCI_HCTL2 hctl2) (out (W32 SDHCI_HCTL hctl) io);
            (hc, io) = (if pre then sdhci_clk rd hc (hc_clk hc) io else (hc, io))
        in (hc\<lparr>hc_timing := timing\<rparr>, io)
      else (hc\<lparr>hc_timing := timing\<rparr>, out (W32 SDHCI_HCTL hctl) io))"

definition sdhci_signal_voltage :: "hw \<Rightarrow> sdhci \<Rightarrow> u32 \<Rightarrow> reg_io \<Rightarrow> unit ret \<times> sdhci \<times> reg_io" where
  "sdhci_signal_voltage rd hc volt io =
     (if hc_version hc < SDHCI_SPEC_VER_3 \<or> hc_signal_voltage hc = volt then (Ok (), hc, io)
      else if volt = SIGNAL_VOLTAGE_3_3 then
        let (h, io) = in16 rd SDHCI_HCTL2 io;
            io = out (W16 SDHCI_HCTL2 (h AND NOT SDHCI_HCTL2_SIG_1_8V)) io;
            (h, io) = in16 rd SDHCI_HCTL2 io
        in if has h SDHCI_HCTL2_SIG_1_8V then (Fail EIO, hc, io) else (Ok (), hc\<lparr>hc_signal_voltage := volt\<rparr>, io)
      else if volt = SIGNAL_VOLTAGE_1_8 then
        let (sctl, io) = in32 rd SDHCI_SYSCTL io;
            io = out (W32 SDHCI_SYSCTL (sctl AND NOT SDHCI_SYSCTL_CEN)) io;
            (h, io) = in16 rd SDHCI_HCTL2 io;
            io = out (W16 SDHCI_HCTL2 (h OR SDHCI_HCTL2_SIG_1_8V)) io;
            (h, io) = in16 rd SDHCI_HCTL2 io;
            on = has h SDHCI_HCTL2_SIG_1_8V;
            io = (if on then out (W32 SDHCI_SYSCTL sctl) io else io);
            (p, io) = (if on then in32 rd SDHCI_PSTATE io else (0, io)) in
        if on \<and> (p AND SDHCI_PSTATE_DLSL_MSK = SDHCI_PSTATE_DLSL_MSK \<or> has (hc_flags hc) HC_FLAG_DEV_MMC)
        then (Ok (), hc\<lparr>hc_signal_voltage := volt\<rparr>, io)
        else
          let (v, io) = in32 rd SDHCI_HCTL io;
              io = out (W32 SDHCI_HCTL (v AND NOT SDHCI_HCTL_SDBP)) io;
              (v, io) = in32 rd SDHCI_HCTL io
          in (Fail EIO, hc, out (W32 SDHCI_HCTL (v OR SDHCI_HCTL_SDBP)) io)
      else (Ok (), hc\<lparr>hc_signal_voltage := volt\<rparr>, io))"

definition sdhci_drv_type :: "hw \<Rightarrow> sdhci \<Rightarrow> u32 \<Rightarrow> reg_io \<Rightarrow> sdhci \<times> reg_io" where
  "sdhci_drv_type rd hc ty io =
     (if hc_version hc < SDHCI_SPEC_VER_3 then (hc, io)
      else
        let (h, io) = in16 rd SDHCI_HCTL2 io;
            hctl2 = h AND NOT SDHCI_HCTL2_DRV_TYPE_MSK;
            io = (if has hctl2 SDHCI_HCTL2_PRESET_VAL then io
                  else out (W16 SDHCI_HCTL2 (hctl2 OR (if ty = DRV_TYPE_A then SDHCI_HCTL2_DRV_TYPE_A
                         else if ty = DRV_TYPE_C then SDHCI_HCTL2_DRV_TYPE_C
                         else if ty = DRV_TYPE_D then SDHCI_HCTL2_DRV_TYPE_D else SDHCI_HCTL2_DRV_TYPE_B))) io)
        in (hc\<lparr>hc_drv_type := ty\<rparr>, io))"

section \<open>Tuning\<close>

text \<open>
  \<open>issue n\<close> is what \<open>sdio_issue_cmd\<close> returns for the \<open>n\<close>-th tuning command, which reads \<open>tlen\<close>
  bytes from the data register.  The tries that are left count down.
\<close>

fun read_data :: "nat \<Rightarrow> hw \<Rightarrow> reg_io \<Rightarrow> reg_io" where
  "read_data 0 rd io = io"
| "read_data (Suc n) rd io = read_data n rd (snd (in32 rd SDHCI_DATA io))"

fun tune_loop :: "nat \<Rightarrow> (nat \<Rightarrow> unit ret) \<Rightarrow> hw \<Rightarrow> nat \<Rightarrow> u16 \<Rightarrow> reg_io \<Rightarrow> unit ret \<times> u16 \<times> reg_io" where
  "tune_loop 0 issue rd words hctl2 io = (Ok (), hctl2, io)"
| "tune_loop (Suc tlc) issue rd words hctl2 io =
     (case issue tlc of
        Fail e \<Rightarrow> (Fail e, hctl2, io)
      | Ok _ \<Rightarrow>
          let io = read_data words rd io;
              (h, io) = in16 rd SDHCI_HCTL2 io
          in if has h SDHCI_HCTL2_EXEC_TUNING then tune_loop tlc issue rd words h io else (Ok (), h, io))"

text \<open>The test for the modes that need tuning is as in the source.\<close>

definition sdhci_tune :: "hw \<Rightarrow> (nat \<Rightarrow> unit ret) \<Rightarrow> bool \<Rightarrow> sdhci \<Rightarrow> reg_io \<Rightarrow> unit ret \<times> reg_io" where
  "sdhci_tune rd issue alloc hc io =
     (if hc_version hc < SDHCI_SPEC_VER_3 then (Ok (), io)
      else
        let (hctl2, io) = in16 rd SDHCI_HCTL2 io;
            md = hctl2 AND SDHCI_HCTL2_MODE_MSK;
            words = (if hc_bus_width hc = BUS_WIDTH_8 then 32 else 16) in
        if md \<noteq> SDHCI_HCTL2_MODE_SDR104 \<and> md \<noteq> SDHCI_HCTL2_MODE_HS200
           \<and> md = SDHCI_HCTL2_MODE_SDR50 \<and> \<not> has (sh_flags hc) SF_TUNE_SDR50 then (Ok (), io)
        else if \<not> alloc then (Fail ENOMEM, io)
        else
          let hctl2 = hctl2 OR SDHCI_HCTL2_EXEC_TUNING;
              io = out (W16 SDHCI_HCTL2 hctl2) io;
              (status, hctl2, io) = tune_loop SDHCI_TUNING_RETRIES issue rd words hctl2 io
          in if status \<noteq> Ok () \<or> has hctl2 SDHCI_HCTL2_EXEC_TUNING
             then (Fail EIO, out (W16 SDHCI_HCTL2 (hctl2 AND NOT (SDHCI_HCTL2_TUNED_CLK OR SDHCI_HCTL2_EXEC_TUNING))) io)
             else (Ok (), io))"

definition sdhci_preset :: "hw \<Rightarrow> sdhci \<Rightarrow> bool \<Rightarrow> reg_io \<Rightarrow> reg_io" where
  "sdhci_preset rd hc enable io =
     (if hc_version hc < SDHCI_SPEC_VER_3 then io
      else case in16 rd SDHCI_HCTL2 io of
        (h, io) \<Rightarrow> out (W16 SDHCI_HCTL2 ((h AND NOT SDHCI_HCTL2_PRESET_VAL) OR flag_if enable SDHCI_HCTL2_PRESET_VAL)) io)"

definition sdhci_cd :: "hw \<Rightarrow> sdhci \<Rightarrow> reg_io \<Rightarrow> u32 \<times> reg_io" where
  "sdhci_cd rd hc io =
     (if has (hc_caps hc) HC_CAP_SLOT_TYPE_EMBEDDED then (CD_INS, io)
      else
        let (pstate, io) = in32 rd SDHCI_PSTATE io in
        if has pstate SDHCI_PSTATE_CI then
          (case sdhci_waitmask rd SDHCI_PSTATE SDHCI_CARD_STABLE SDHCI_CARD_STABLE 100000 io of
             (Ok _, io) \<Rightarrow> (CD_RMV OR CD_INS OR flag_if (\<not> has pstate SDHCI_PSTATE_WP) CD_WP, io)
           | (Fail _, io) \<Rightarrow> (CD_RMV, io))
        else (CD_RMV, io))"

section \<open>Capabilities\<close>

text \<open>
  The part of \<open>sdhci_init\<close> that evaluates the capability registers.  Mapping the registers,
  allocating the descriptor table and attaching the interrupt are not part of the model.
\<close>

definition SDHCI_CAP_BASE_CLK :: "u32 \<Rightarrow> u32 \<Rightarrow> u32" where
  "SDHCI_CAP_BASE_CLK c v = (if v \<ge> SDHCI_SPEC_VER_3 then drop_bit 8 c AND 0xff else drop_bit 8 c AND 0x3f) * 1000 * 1000"

definition init_clock :: "u32 \<Rightarrow> u32 \<Rightarrow> sdhci \<Rightarrow> sdhci" where
  "init_clock cap cap2 hc =
     (let hc = hc\<lparr>hc_clk_max := SDHCI_CAP_BASE_CLK cap (hc_version hc)\<rparr>;
          hc = hc\<lparr>hc_clk_min := hc_clk_max hc div SDHCI_CLK_MAX_DIV_SPEC_VER_2\<rparr> in
      if hc_version hc \<ge> SDHCI_SPEC_VER_3 then
        let hc = hc\<lparr>hc_clk_min := hc_clk_max hc div SDHCI_CLK_MAX_DIV_SPEC_VER_3, hc_caps := hc_caps hc OR HC_CAP_BW8,
                    sh_clk_mul := drop_bit 16 (cap2 AND 0xff0000)\<rparr>
        in if sh_clk_mul hc \<noteq> 0
           then hc\<lparr>hc_clk_min := (hc_clk_max hc * sh_clk_mul hc) div 1024, hc_clk_max := hc_clk_max hc * sh_clk_mul hc\<rparr>
           else hc
      else hc)"

definition current_cap :: "u32 \<Rightarrow> u64" where
  "current_cap cur = (if cur \<ge> 800 then HC_CAP_800MA else if cur \<ge> 600 then HC_CAP_600MA
     else if cur \<ge> 400 then HC_CAP_400MA else HC_CAP_200MA)"

definition cap_bits :: "u32 \<Rightarrow> u32 \<Rightarrow> u32 \<Rightarrow> sdhci \<Rightarrow> u64" where
  "cap_bits cap cap2 mccap hc =
     HC_CAP_BSY OR HC_CAP_BW4 OR HC_CAP_CD_WP OR HC_CAP_ACMD12 OR HC_CAP_200MA OR HC_CAP_DRV_TYPE_B
     OR flag_if (\<not> has (hc_caps hc) HC_CAP_SLOT_TYPE_EMBEDDED) HC_CAP_CD_INTR
     OR flag_if (has cap SDHCI_CAP_HS) HC_CAP_HS OR flag_if (has cap SDHCI_CAP_DMA) HC_CAP_DMA
     OR flag_if (has cap2 SDHCI_CAP_SDR104) HC_CAP_SDR104
     OR flag_if (has cap2 SDHCI_CAP_SDR50) (HC_CAP_SDR50 OR HC_CAP_SDR25 OR HC_CAP_SDR12)
     OR flag_if (has cap2 SDHCI_CAP_DDR50) HC_CAP_DDR50
     OR flag_if (has cap2 SDHCI_CAP_DRIVE_TYPE_A) HC_CAP_DRV_TYPE_A OR flag_if (has cap2 SDHCI_CAP_DRIVE_TYPE_C) HC_CAP_DRV_TYPE_C
     OR flag_if (has cap2 SDHCI_CAP_DRIVE_TYPE_D) HC_CAP_DRV_TYPE_D
     OR (let cur = drop_bit 16 (mccap AND 0xff0000) * SDHCI_MCCAP_MULT
         in flag_if (has cap SDHCI_CAP_S18) (flag_if (cur \<ge> 150) HC_CAP_XPC_3_0V OR current_cap cur))
     OR flag_if (has cap SDHCI_CAP_S30 \<and> drop_bit 8 (mccap AND 0x00ff00) * SDHCI_MCCAP_MULT > 150) HC_CAP_XPC_3_0V
     OR flag_if (has cap SDHCI_CAP_S33 \<and> (mccap AND 0x0000ff) * SDHCI_MCCAP_MULT > 150) HC_CAP_XPC_3_3V
     OR HC_CAP_SV_3_3V OR flag_if (hc_version hc \<ge> SDHCI_SPEC_VER_3) HC_CAP_SV_1_8V"

text \<open>Each voltage replaces the operating conditions of the one before.\<close>

definition cap_ocr :: "u32 \<Rightarrow> u32 \<Rightarrow> u32" where
  "cap_ocr cap ocr =
     (let ocr = (if has cap SDHCI_CAP_S18 then OCR_VDD_17_195 else ocr);
          ocr = (if has cap SDHCI_CAP_S30 then OCR_VDD_30_31 OR OCR_VDD_29_30 else ocr)
      in if has cap SDHCI_CAP_S33 then OCR_VDD_32_33 OR OCR_VDD_33_34 else ocr)"

definition init_dma :: "u32 \<Rightarrow> sdhci \<Rightarrow> sdhci" where
  "init_dma cap hc =
     (let hc = (if hc_version hc < SDHCI_SPEC_VER_4 then hc\<lparr>sh_flags := sh_flags hc AND NOT SF_V4_MODE\<rparr> else hc) in
      if has cap SDHCI_CAP_DMA then
        if hc_version hc \<ge> SDHCI_SPEC_VER_2 then
          let v3 = (hc_version hc \<ge> SDHCI_SPEC_VER_3);
              a64 = (v3 \<and> has cap SDHCI_CAP_64BIT_ADDR \<and> \<not> has (sh_flags hc) SF_DIS_64BIT)
          in hc\<lparr>sh_flags := sh_flags hc OR flag_if a64 SF_USE_ADMA64 OR SF_USE_ADMA,
                hc_caps := hc_caps hc OR flag_if a64 HC_CAP_DMA64 OR flag_if v3 HC_CAP_ACMD23, cfg_sg_max := ADMA_DESC_MAX\<rparr>
        else hc\<lparr>cfg_sg_max := 1, sh_flags := sh_flags hc OR SF_USE_SDMA\<rparr>
      else hc)"

definition sdhci_init_caps :: "hw \<Rightarrow> u64 \<Rightarrow> sdhci \<Rightarrow> reg_io \<Rightarrow> sdhci \<times> reg_io" where
  "sdhci_init_caps rd cfg_caps hc io =
     (let (hc, io) = (if hc_version hc = 0
                      then case in16 rd SDHCI_HCTL_VERSION io of (v, io) \<Rightarrow> (hc\<lparr>hc_version := ucast v AND SDHCI_SPEC_VER_MSK\<rparr>, io)
                      else (hc, io));
          (cap, io) = in32 rd SDHCI_CAP io;
          (cap2, io) = (if hc_version hc \<ge> SDHCI_SPEC_VER_3 then in32 rd SDHCI_CAP2 io else (0, io));
          (mccap, io) = in32 rd SDHCI_MCCAP io;
          hc = init_clock cap cap2 hc;
          tc = unat (drop_bit 8 (cap2 AND 0xf00));
          hc = hc\<lparr>hc_caps := hc_caps hc OR cap_bits cap cap2 mccap hc, hc_ocr := cap_ocr cap (hc_ocr hc),
                  sh_flags := sh_flags hc OR flag_if (has cap2 SDHCI_CAP_TUNE_SDR50) SF_TUNE_SDR50,
                  hc_tuning_count := (if tc \<noteq> 0 then push_bit (tc - 1) 1 else hc_tuning_count hc)\<rparr>;
          hc = init_dma cap hc
      in (hc\<lparr>hc_caps := hc_caps hc AND cfg_caps\<rparr>, io))"

end
