(* ===== verification/Sdhci_Props.thy ===== *)
theory Sdhci_Props
  imports Sdhci_Ctl Sdio_Props
begin

text \<open>
  What the controller driver guarantees: the descriptor table describes exactly the memory of
  the transfer, the clock is the fastest one that is not too fast, and an interrupt completes a
  command with success only when there was no error.
\<close>

section \<open>The descriptor table\<close>

text \<open>Memory as the list of its byte addresses.\<close>

definition byte_range :: "u64 \<Rightarrow> nat \<Rightarrow> u64 list" where
  "byte_range a n = map (\<lambda>i. a + of_nat i) [0 ..< n]"

lemma byte_range_append: "byte_range a (m + n) = byte_range a m @ byte_range (a + of_nat m) n"
proof -
  have "[m ..< m + n] = map (\<lambda>i. i + m) [0 ..< n]" by (simp add: map_add_upt add.commute)
  then have "[0 ..< m + n] = [0 ..< m] @ map (\<lambda>i. i + m) [0 ..< n]" using upt_add_eq_append [of 0 m n] by simp
  then show ?thesis by (simp add: byte_range_def ac_simps)
qed

definition sge_bytes :: "sdhci \<Rightarrow> sdio_sge \<Rightarrow> u64 list" where
  "sge_bytes hc s = byte_range (sg_address s + cfg_bmstr_xlat hc) (unat (sg_count s))"

definition desc_addr :: "sdhci \<Rightarrow> adma_desc \<Rightarrow> u64" where
  "desc_addr hc d = ucast (ad_addr_lo d) OR (if has (sh_flags hc) SF_USE_ADMA64 then push_bit 32 (ucast (ad_addr_hi d)) else 0)"

definition desc_bytes :: "sdhci \<Rightarrow> adma_desc \<Rightarrow> u64 list" where
  "desc_bytes hc d = byte_range (desc_addr hc d) (unat (ad_len d))"

text \<open>The pieces of at most 60 KiB a memory range is cut into.\<close>

function pieces :: "u64 \<Rightarrow> nat \<Rightarrow> (u64 \<times> nat) list" where
  "pieces a n = (if n = 0 then [] else let l = min n 61440 in (a, l) # pieces (a + of_nat l) (n - l))"
  by pat_completeness auto
termination by (relation "measure snd") auto

declare pieces.simps [simp del]

lemma pieces_bytes: "concat (map (\<lambda>(a, l). byte_range a l) (pieces a n)) = byte_range a n"
proof (induction a n rule: pieces.induct)
  case (1 a n)
  show ?case
  proof (cases "n = 0")
    case False
    define l where "l = min n 61440"
    have "concat (map (\<lambda>(a, l). byte_range a l) (pieces a n)) = byte_range a l @ byte_range (a + of_nat l) (n - l)"
      using 1 [OF False l_def] False by (subst pieces.simps) (simp add: l_def [symmetric] Let_def)
    also have "\<dots> = byte_range a (l + (n - l))" by (simp add: byte_range_append)
    finally show ?thesis by (simp add: l_def)
  qed (simp add: pieces.simps byte_range_def)
qed

lemma pieces_range: "(b, l) \<in> set (pieces a n) \<Longrightarrow> 0 < l \<and> l \<le> 61440 \<and> (\<exists>k. b = a + of_nat k \<and> k + l \<le> n)"
proof (induction a n rule: pieces.induct)
  case (1 a n)
  define m where "m = min n 61440"
  have n: "n \<noteq> 0" using "1.prems" by (auto simp: pieces.simps [of a n] split: if_splits)
  then consider "b = a \<and> l = m" | "(b, l) \<in> set (pieces (a + of_nat m) (n - m))"
    using "1.prems" by (subst (asm) pieces.simps) (auto simp: m_def Let_def)
  then show ?case
  proof cases
    case 1
    then show ?thesis using n by (auto simp: m_def intro: exI [of _ 0])
  next
    case 2
    from "1.IH" [OF n m_def 2] obtain k where "0 < l" "l \<le> 61440" "b = a + of_nat m + of_nat k" "k + l \<le> n - m" by blast
    then show ?thesis by (intro conjI exI [of _ "m + k"]) (auto simp: m_def)
  qed
qed

definition piece_desc :: "sdhci \<Rightarrow> u64 \<times> nat \<Rightarrow> adma_desc" where
  "piece_desc hc p = make_desc hc (fst p) (of_nat (snd p))"

lemma max_xfer: "unat SDHCI_ADMA2_MAX_XFER = 61440" "ADMA_DESC_MAX = 256"
  by (simp_all add: SDHCI_ADMA2_MAX_XFER_def ADMA_DESC_MAX_def)

lemma unat_min: "unat (min a b :: u32) = min (unat a) (unat b)"
  by (simp add: min_def word_le_nat_alt)

lemma adma_entry_pieces:
  "adma_entry hc a c tab = (if length tab + length (pieces a (unat c)) \<le> 256 \<or> c = 0
     then Inr (Ok (tab @ map (piece_desc hc) (pieces a (unat c)))) else Inl Out_of_bounds)"
proof (induction hc a c tab rule: adma_entry.induct)
  case (1 hc a c tab)
  show ?case
  proof (cases "c = 0")
    case False
    define l where "l = min c SDHCI_ADMA2_MAX_XFER"
    have ul: "unat l = min (unat c) 61440" by (simp add: l_def unat_min max_xfer)
    have lw: "of_nat (min (unat c) 61440) = l" by (simp add: ul [symmetric])
    have uc: "unat c \<noteq> 0" using False by (simp add: unat_eq_0)
    have sub: "unat (c - l) = unat c - min (unat c) 61440"
      by (subst unat_sub) (simp_all add: ul word_le_nat_alt)
    have lu: "(of_nat (min (unat c) 61440) :: u64) = ucast l" unfolding ul [symmetric] by simp
    have p: "pieces a (unat c) = (a, min (unat c) 61440) # pieces (a + ucast l) (unat (c - l))"
      using uc by (subst pieces.simps) (simp add: Let_def lu sub)
    have d: "piece_desc hc (a, min (unat c) 61440) = make_desc hc a l" by (simp add: piece_desc_def lw)
    show ?thesis
    proof (cases "length tab \<ge> 256")
      case True
      then show ?thesis using False p by (subst adma_entry.simps) (simp add: max_xfer)
    next
      case room: False
      have "adma_entry hc a c tab = adma_entry hc (a + ucast l) (c - l) (tab @ [make_desc hc a l])"
        using False room by (subst adma_entry.simps) (simp add: max_xfer l_def [symmetric] Let_def)
      also have "\<dots> = (if length (tab @ [make_desc hc a l]) + length (pieces (a + ucast l) (unat (c - l))) \<le> 256 \<or> c - l = 0
          then Inr (Ok ((tab @ [make_desc hc a l]) @ map (piece_desc hc) (pieces (a + ucast l) (unat (c - l))))) else Inl Out_of_bounds)"
        by (rule 1 [OF False _ l_def refl]) (use room in \<open>simp_all add: max_xfer\<close>)
      moreover have "c - l = 0 \<Longrightarrow> pieces (a + ucast l) (unat (c - l)) = []" by (simp add: pieces.simps)
      ultimately show ?thesis using False room p d by auto
    qed
  qed (subst adma_entry.simps, simp add: pieces.simps)
qed

text \<open>The pieces of the whole list.\<close>

definition all_pieces :: "sdhci \<Rightarrow> sdio_sge list \<Rightarrow> (u64 \<times> nat) list" where
  "all_pieces hc l = concat (map (\<lambda>s. pieces (sg_address s + cfg_bmstr_xlat hc) (unat (sg_count s))) l)"

lemma adma_entries_pieces:
  "length tab \<le> 256 \<Longrightarrow> adma_entries hc l tab = (if length tab + length (all_pieces hc l) \<le> 256
     then Inr (Ok (tab @ map (piece_desc hc) (all_pieces hc l))) else Inl Out_of_bounds)"
proof (induction l arbitrary: tab)
  case (Cons s l)
  have z: "sg_count s = 0 \<Longrightarrow> pieces (sg_address s + cfg_bmstr_xlat hc) (unat (sg_count s)) = []" by (simp add: pieces.simps)
  show ?case
  proof (cases "length tab + length (pieces (sg_address s + cfg_bmstr_xlat hc) (unat (sg_count s))) \<le> 256")
    case True
    then show ?thesis using Cons.IH [of "tab @ map (piece_desc hc) (pieces (sg_address s + cfg_bmstr_xlat hc) (unat (sg_count s)))"]
      by (simp add: adma_entry_pieces all_pieces_def)
  next
    case False
    then have "sg_count s \<noteq> 0" using z Cons.prems by auto
    then show ?thesis using False by (simp add: adma_entry_pieces all_pieces_def)
  qed
qed (simp add: all_pieces_def)

text \<open>Addresses fit the descriptors when these have 64 bits, or when all memory is below 4 GiB.\<close>

definition addressable :: "sdhci \<Rightarrow> sdio_sge list \<Rightarrow> bool" where
  "addressable hc l \<longleftrightarrow> has (sh_flags hc) SF_USE_ADMA64
     \<or> (\<forall>s \<in> set l. unat (sg_address s + cfg_bmstr_xlat hc) + unat (sg_count s) \<le> 2 ^ 32)"

lemma addr_split: "ucast (ucast a :: u32) OR push_bit 32 (ucast (ucast (drop_bit 32 a) :: u32)) = (a :: u64)"
  by (rule bit_word_eqI) (auto simp: bit_simps)

lemma addr_low: "unat a < 2 ^ 32 \<Longrightarrow> ucast (ucast (a :: u64) :: u32) = a"
  by (simp only: word_eq_nat unat_ucast_u64 unat_ucast_down)

lemma piece_desc_bytes:
  assumes "0 < snd p" and "snd p \<le> 61440" and "has (sh_flags hc) SF_USE_ADMA64 \<or> unat (fst p) < 2 ^ 32"
  shows "desc_bytes hc (piece_desc hc p) = byte_range (fst p) (snd p)"
proof -
  have "unat (ucast (of_nat (snd p) :: u32) :: u16) = snd p"
    using assms(2) by (simp add: unsigned_ucast_eq unat_of_nat take_bit_nat_eq_self)
  moreover have "desc_addr hc (piece_desc hc p) = fst p"
    using assms(3) by (auto simp: desc_addr_def piece_desc_def make_desc_def addr_split addr_low)
  ultimately show ?thesis by (simp add: desc_bytes_def piece_desc_def make_desc_def)
qed

lemma all_pieces_range:
  assumes "(b, n) \<in> set (all_pieces hc l)" and "addressable hc l"
  shows "0 < n \<and> n \<le> 61440 \<and> (has (sh_flags hc) SF_USE_ADMA64 \<or> unat b < 2 ^ 32)"
proof -
  obtain s where s: "s \<in> set l" "(b, n) \<in> set (pieces (sg_address s + cfg_bmstr_xlat hc) (unat (sg_count s)))"
    using assms(1) by (auto simp: all_pieces_def)
  from pieces_range [OF s(2)] obtain k where k: "0 < n" "n \<le> 61440" "b = sg_address s + cfg_bmstr_xlat hc + of_nat k"
    "k + n \<le> unat (sg_count s)" by blast
  have "unat b < 2 ^ 32" if "unat (sg_address s + cfg_bmstr_xlat hc) + unat (sg_count s) \<le> 2 ^ 32"
  proof -
    let ?a = "sg_address s + cfg_bmstr_xlat hc"
    have "k < 2 ^ 32" using k that by linarith
    then have ku: "unat (of_nat k :: u64) = k" by (simp add: unat_of_nat take_bit_nat_eq_self)
    have sum: "unat ?a + k < 2 ^ 32" using k that by linarith
    then have "unat ?a + unat (of_nat k :: u64) < 2 ^ 64" using ku by simp
    from unat_add_u64 [OF this] have "unat (?a + of_nat k) = unat ?a + k" by (simp only: ku)
    then show ?thesis using sum k(3) by simp
  qed
  then show ?thesis using k s(1) assms(2) by (auto simp: addressable_def)
qed

lemma all_pieces_bytes: "concat (map (\<lambda>(a, n). byte_range a n) (all_pieces hc l)) = concat (map (sge_bytes hc) l)"
  by (induction l) (simp_all add: all_pieces_def sge_bytes_def pieces_bytes)

definition desc_ok :: "adma_desc \<Rightarrow> bool" where
  "desc_ok d \<longleftrightarrow> has (ad_attr d) SDHCI_ADMA2_VALID \<and> ad_attr d AND 0x30 = SDHCI_ADMA2_TRAN
     \<and> 0 < unat (ad_len d) \<and> unat (ad_len d) \<le> 61440"

definition is_end :: "adma_desc \<Rightarrow> bool" where
  "is_end d \<longleftrightarrow> has (ad_attr d) SDHCI_ADMA2_END"

lemma piece_attr: "ad_attr (piece_desc hc p) = 0x21"
  by (simp add: piece_desc_def make_desc_def SDHCI_ADMA2_VALID_def SDHCI_ADMA2_TRAN_def)

lemma piece_desc_ok: "0 < snd p \<Longrightarrow> snd p \<le> 61440 \<Longrightarrow> desc_ok (piece_desc hc p)"
proof -
  assume p: "0 < snd p" "snd p \<le> 61440"
  have "unat (ad_len (piece_desc hc p)) = snd p"
    using p by (simp add: piece_desc_def make_desc_def unsigned_ucast_eq unat_of_nat take_bit_nat_eq_self)
  then show ?thesis using p by (simp add: desc_ok_def piece_attr has_def SDHCI_ADMA2_VALID_def SDHCI_ADMA2_TRAN_def)
qed

lemma piece_not_end: "\<not> is_end (piece_desc hc p)"
  by (simp add: is_end_def piece_attr has_def SDHCI_ADMA2_END_def)

text \<open>Setting the end bit changes neither the memory a descriptor names nor its validity.\<close>

lemma end_bit:
  defines "e \<equiv> \<lambda>d. d\<lparr>ad_attr := ad_attr d OR SDHCI_ADMA2_END\<rparr>"
  shows "desc_bytes hc (e d) = desc_bytes hc d" and "is_end (e d)"
    and "desc_ok (piece_desc hc p) \<Longrightarrow> desc_ok (e (piece_desc hc p))"
  by (simp_all add: e_def desc_bytes_def desc_addr_def is_end_def desc_ok_def piece_attr has_def
      SDHCI_ADMA2_VALID_def SDHCI_ADMA2_END_def SDHCI_ADMA2_TRAN_def bit.conj_disj_distrib2)

lemma butlast_all_bytes: "ps \<noteq> [] \<Longrightarrow>
    concat (map f (butlast ps)) @ f (last ps) = concat (map f ps)"
  by (induction ps rule: rev_induct) simp_all

text \<open>C23: The ADMA2 descriptor table describes exactly the memory of the scatter/gather list, byte for
  byte and in order; every descriptor is a valid transfer of 1 to 61440 bytes and the last one,
  and only it, ends the table.  This succeeds exactly when the list needs between 1 and 256
  descriptors; in all other cases the driver accesses memory outside the table, and the error
  it has for tables that are too long is never returned.\<close>

theorem adma_table_exact:
  assumes "addressable hc phys"
  defines "n \<equiv> length (all_pieces hc phys)"
  shows "if 0 < n \<and> n \<le> 256
    then \<exists>tab io'. sdhci_adma_setup hc phys io = Inr (Ok tab, io') \<and> length tab = n
      \<and> concat (map (desc_bytes hc) tab) = concat (map (sge_bytes hc) phys)
      \<and> (\<forall>d \<in> set tab. desc_ok d) \<and> (\<forall>i < n. is_end (tab ! i) \<longleftrightarrow> i = n - 1)
    else sdhci_adma_setup hc phys io = Inl Out_of_bounds"
proof (cases "0 < n \<and> n \<le> 256")
  case True
  let ?ps = "all_pieces hc phys"
  let ?t = "map (piece_desc hc) ?ps"
  define tab where "tab = butlast ?t @ [(last ?t)\<lparr>ad_attr := ad_attr (last ?t) OR SDHCI_ADMA2_END\<rparr>]"
  have e: "adma_entries hc phys [] = Inr (Ok ?t)" using True adma_entries_pieces [of "[]" hc phys] by (simp add: n_def)
  have ne: "?ps \<noteq> []" using True by (auto simp: n_def)
  have lt: "length tab = n" using ne by (simp add: tab_def n_def)
  have lb: "last ?t = piece_desc hc (last ?ps)" "last ?ps \<in> set ?ps" using ne by (simp_all add: last_map)
  have ok: "0 < snd p \<and> snd p \<le> 61440 \<and> (has (sh_flags hc) SF_USE_ADMA64 \<or> unat (fst p) < 2 ^ 32)" if "p \<in> set ?ps" for p
    using all_pieces_range [of "fst p" "snd p" hc phys] that assms(1) by simp
  have "concat (map (desc_bytes hc) tab) = concat (map (desc_bytes hc) ?t)"
    using butlast_all_bytes [of ?t "desc_bytes hc"] ne by (simp add: tab_def end_bit(1))
  also have "\<dots> = concat (map (\<lambda>(a, n). byte_range a n) ?ps)"
    using ok by (auto intro!: arg_cong [where f = concat] simp: piece_desc_bytes)
  finally have bytes: "concat (map (desc_bytes hc) tab) = concat (map (sge_bytes hc) phys)" by (simp add: all_pieces_bytes)
  have dp: "desc_ok (piece_desc hc p)" if "p \<in> set ?ps" for p using ok [OF that] by (intro piece_desc_ok) simp_all
  have "\<forall>d \<in> set (butlast ?t). desc_ok d" using dp by (auto dest!: in_set_butlastD)
  then have "\<forall>d \<in> set tab. desc_ok d" using end_bit(3) [OF dp [OF lb(2)]] by (auto simp: tab_def lb(1))
  moreover have "is_end (tab ! i) \<longleftrightarrow> i = n - 1" if "i < n" for i
  proof (cases "i = n - 1")
    case False
    then have "i < length ?ps - 1" using that by (simp add: n_def)
    then have "tab ! i = piece_desc hc (?ps ! i)" by (simp add: tab_def nth_append nth_butlast)
    then show ?thesis using False by (simp add: piece_not_end)
  qed (simp add: tab_def nth_append n_def end_bit(2))
  moreover have "\<exists>io'. sdhci_adma_setup hc phys io = Inr (Ok tab, io')"
    using ne by (simp add: sdhci_adma_setup_def e tab_def Let_def)
  ultimately show ?thesis using True lt bytes by auto
next
  case False
  then consider "n = 0" | "256 < n" by linarith
  then show ?thesis
  proof cases
    case 1
    then show ?thesis using adma_entries_pieces [of "[]" hc phys] False by (simp add: n_def sdhci_adma_setup_def)
  next
    case 2
    then show ?thesis using adma_entries_pieces [of "[]" hc phys] False by (simp add: n_def sdhci_adma_setup_def)
  qed
qed

definition sample_hc :: sdhci where
  "sample_hc = \<lparr>hc_caps = 0, hc_flags = 0, hc_version = 2, hc_clk = 0, hc_clk_max = 100000000, hc_clk_min = 0, hc_vdd = 0, hc_ocr = 0,
     hc_bus_mode = 0, hc_bus_width = 0, hc_timing = 0, hc_signal_voltage = 0, hc_drv_type = 0, hc_tuning_count = 0,
     cfg_bmstr_xlat = 0xC0000000, cfg_sg_max = 256, sh_flags = SF_USE_ADMA, sh_clk_mul = 0, sh_admap = 0x1000\<rparr>"

text \<open>Two entries, the first of 64 KiB: three descriptors.\<close>

definition sample_sgl :: "sdio_sge list" where
  "sample_sgl = [\<lparr>sg_address = 0x10000, sg_count = 65536\<rparr>, \<lparr>sg_address = 0x40000, sg_count = 512\<rparr>]"

lemma sample_pieces: "length (all_pieces sample_hc sample_sgl) = 3"
  by (simp add: all_pieces_def sample_sgl_def pieces.simps Let_def)

theorem adma_table_exact_witness:
  "\<exists>tab io'. sdhci_adma_setup sample_hc sample_sgl \<lparr>io_clock = 0, io_writes = []\<rparr> = Inr (Ok tab, io') \<and> length tab = 3
     \<and> is_end (tab ! 2) \<and> \<not> is_end (tab ! 0)"
proof -
  have "addressable sample_hc sample_sgl"
    by (simp add: addressable_def sample_hc_def sample_sgl_def)
  from adma_table_exact [OF this, of "\<lparr>io_clock = 0, io_writes = []\<rparr>"] show ?thesis unfolding sample_pieces by auto
qed

section \<open>The clock\<close>

text \<open>The card clock for a divider value, with and without the programmable generator, and the values there are.\<close>

definition sd_rate :: "bool \<Rightarrow> nat \<Rightarrow> nat \<Rightarrow> nat" where
  "sd_rate prog clk_max n = (if prog then clk_max div (n + 1) else if n = 0 then clk_max else clk_max div (2 * n))"

definition clk_values :: "sdhci \<Rightarrow> nat list" where
  "clk_values hc = (if hc_version hc \<ge> SDHCI_SPEC_VER_3 then [0 ..< 1024] else [0, 1, 2, 4, 8, 16, 32, 64, 128])"

text \<open>The divider in the clock field of the control register.\<close>

definition sysctl_div :: "u32 \<Rightarrow> u32" where
  "sysctl_div v = (drop_bit 8 v AND 0xff) OR push_bit 2 (v AND 0xc0)"

lemma sysctl_div_CLK:
  assumes "unat c < 1024"
  shows "sysctl_div (SDHCI_SYSCTL_CLK c) = c"
proof -
  have m: "(0xff00 :: u32) = push_bit 8 (mask 8)" "(0xff :: u32) = mask 8" "(0xc0 :: u32) = push_bit 6 (mask 2)"
    by (simp_all add: mask_eq_exp_minus_1)
  have c: "\<not> bit c n" if "10 \<le> n" for n
  proof -
    have "take_bit 10 (unat c) = unat c" using assms by (simp add: take_bit_nat_eq_self)
    then have "take_bit 10 c = c" by (metis unsigned_take_bit_eq word_eq_nat)
    then show ?thesis using that by (metis bit_take_bit_iff not_less)
  qed
  show ?thesis
  proof (rule bit_word_eqI)
    fix n assume n: "n < LENGTH(32)"
    consider "n < 8" | "n = 8" | "n = 9" | "10 \<le> n" by linarith
    then show "bit (sysctl_div (SDHCI_SYSCTL_CLK c)) n = bit c n"
      by cases (use n c in \<open>auto simp: sysctl_div_def SDHCI_SYSCTL_CLK_def m bit_simps\<close>)
  qed
qed

text \<open>The loops: the value found is the first that fits, or none does.\<close>

lemma first_div_cases:
  obtains i where "i < length ds" and "first_div ds mx clk e = ds ! i" and "mx div (ds ! i) \<le> clk"
      and "\<And>j. j < i \<Longrightarrow> clk < mx div (ds ! j)"
    | "first_div ds mx clk e = e" and "\<And>j. j < length ds \<Longrightarrow> clk < mx div (ds ! j)"
proof (cases "List.find (\<lambda>d. mx div d \<le> clk) ds")
  case None
  then have "first_div ds mx clk e = e" by (simp add: first_div_def)
  moreover have "clk < mx div (ds ! j)" if "j < length ds" for j
    using None nth_mem [OF that] by (auto simp: find_None_iff not_le)
  ultimately show ?thesis by (rule that(2))
next
  case (Some d)
  then obtain i where i: "i < length ds" "mx div ds ! i \<le> clk" "d = ds ! i" "\<forall>j < i. \<not> mx div ds ! j \<le> clk"
    by (auto simp: find_Some_iff)
  have "first_div ds mx clk e = ds ! i" using Some i(3) by (simp add: first_div_def)
  with i show ?thesis by (intro that(1) [of i]) (simp_all add: not_le)
qed

lemma unat_small: "n < 4096 \<Longrightarrow> unat (of_nat n :: u32) = n"
  by (simp add: unat_of_nat take_bit_nat_eq_self)

definition best_div :: "bool \<Rightarrow> nat list \<Rightarrow> u32 \<Rightarrow> u32 \<Rightarrow> u32 \<Rightarrow> bool" where
  "best_div prog vals mx clk d \<longleftrightarrow> unat d \<in> set vals \<and> (sd_rate prog (unat mx) (unat d) \<le> unat clk \<or> unat d = last vals)
     \<and> (\<forall>m \<in> set vals. m < unat d \<longrightarrow> unat clk < sd_rate prog (unat mx) m)"

lemma prog_divs_nth: "i < 1023 \<Longrightarrow> prog_divs ! i = of_nat (i + 1)" "length prog_divs = 1023"
  by (simp_all add: prog_divs_def)

lemma clk_prog_best: "best_div True [0 ..< 1024] mx clk (clk_prog mx clk)"
proof (cases rule: first_div_cases [of prog_divs mx clk 1024])
  case (1 i)
  have i: "i < 1023" using 1(1) by (simp add: prog_divs_nth)
  then have d: "unat (clk_prog mx clk) = i" using 1(2) unat_small [of i] by (simp add: clk_prog_def prog_divs_nth)
  have "unat mx div (i + 1) \<le> unat clk"
    using 1(3) i unat_small [of "i + 1"] by (simp add: prog_divs_nth word_le_nat_alt unat_div)
  moreover have "unat clk < unat mx div (j + 1)" if "j < i" for j
    using 1(4) [OF that] i that unat_small [of "j + 1"] by (simp add: prog_divs_nth word_less_nat_alt unat_div)
  ultimately show ?thesis using i by (simp add: best_div_def d sd_rate_def)
next
  case 2
  have d: "unat (clk_prog mx clk) = 1023" using 2(1) by (simp add: clk_prog_def)
  have "unat clk < unat mx div (j + 1)" if "j < 1023" for j
    using 2(2) [of j] that unat_small [of "j + 1"] by (simp add: prog_divs_nth word_less_nat_alt unat_div)
  then show ?thesis by (simp add: best_div_def d sd_rate_def)
qed

lemma even_divs_nth: "i < 1022 \<Longrightarrow> even_divs ! i = of_nat (2 * (i + 1))" "length even_divs = 1022"
  by (simp_all add: even_divs_def SDHCI_CLK_MAX_DIV_SPEC_VER_3_def)

lemma half_even: "n < 1024 \<Longrightarrow> unat (drop_bit 1 (of_nat (2 * n) :: u32)) = n"
  using unat_small [of "2 * n"] by (simp add: drop_bit_eq_div unat_div)

lemma clk_10bit_best: "best_div False [0 ..< 1024] mx clk (clk_10bit mx clk)"
proof (cases "mx \<le> clk")
  case True
  then have "clk_10bit mx clk = 0" by (simp add: clk_10bit_def Let_def)
  then show ?thesis using True by (simp add: best_div_def sd_rate_def word_le_nat_alt)
next
  case False
  then have c: "clk_10bit mx clk = drop_bit 1 (first_div even_divs mx clk SDHCI_CLK_MAX_DIV_SPEC_VER_3)"
    by (simp add: clk_10bit_def Let_def)
  have lt: "unat clk < unat mx" using False by (simp add: word_le_nat_alt)
  have ev: "unat clk < unat mx div (2 * (j + 1))" if "j < 1022" "clk < mx div (even_divs ! j)" for j
    using that unat_small [of "2 * (j + 1)"] by (simp add: even_divs_nth word_less_nat_alt unat_div)
  show ?thesis
  proof (cases rule: first_div_cases [of even_divs mx clk SDHCI_CLK_MAX_DIV_SPEC_VER_3])
    case (1 i)
    have i: "i < 1022" using 1(1) by (simp add: even_divs_nth)
    have d: "unat (clk_10bit mx clk) = i + 1" using half_even [of "i + 1"] i by (simp only: c 1(2) even_divs_nth)
    have "unat mx div (2 * (i + 1)) \<le> unat clk"
      using 1(3) i unat_small [of "2 * (i + 1)"] by (simp add: even_divs_nth word_le_nat_alt unat_div)
    moreover have "unat clk < sd_rate False (unat mx) m" if "m < i + 1" for m
      using that lt ev [of "m - 1"] 1(4) [of "m - 1"] i by (cases m) (simp_all add: sd_rate_def)
    ultimately show ?thesis using i by (simp add: best_div_def d sd_rate_def)
  next
    case 2
    have d: "unat (clk_10bit mx clk) = 1023" unfolding c 2(1) by code_simp
    have "unat clk < sd_rate False (unat mx) m" if "m < 1023" for m
      using that lt ev [of "m - 1"] 2(2) [of "m - 1"] by (cases m) (simp_all add: sd_rate_def even_divs_nth)
    then show ?thesis by (simp add: best_div_def d)
  qed
qed

text \<open>The values of the 8-bit mode are the halves of the powers of two.\<close>

lemma pow_values: "[0, 1, 2, 4, 8, 16, 32, 64, 128 :: nat] = map (\<lambda>i. 2 ^ i div 2) [0 ..< 9 :: nat]"
  by (simp add: upt_rec)

lemma pow_divs_nth: "i < 8 \<Longrightarrow> pow_divs ! i = 2 ^ i" "length pow_divs = 8"
proof -
  show "length pow_divs = 8" by (simp add: pow_divs_def)
  have p: "pow_divs = map (\<lambda>i. 2 ^ i) [0 ..< 8]" by (simp add: pow_divs_def upt_rec)
  show "pow_divs ! i = 2 ^ i" if "i < 8" unfolding p using that by (simp del: upt_rec_numeral)
qed

lemma sd_rate_pow: "sd_rate False mx (2 ^ j div 2) = mx div 2 ^ j"
  by (cases j) (simp_all add: sd_rate_def)

lemma half_pow: "j < 9 \<Longrightarrow> unat (drop_bit 1 (2 ^ j :: u32)) = 2 ^ j div 2"
  by (simp add: drop_bit_eq_div unat_div unat_pow2_32)

lemma pow_below: "m \<in> set (map (\<lambda>i. 2 ^ i div 2) [0 ..< 9 :: nat]) \<Longrightarrow> m < 2 ^ i div 2 \<Longrightarrow> \<exists>j < i. m = (2 :: nat) ^ j div 2"
proof -
  assume "m \<in> set (map (\<lambda>i. 2 ^ i div 2) [0 ..< 9 :: nat])" and m: "m < 2 ^ i div 2"
  then obtain j where j: "m = (2 :: nat) ^ j div 2" by auto
  have "j < i"
  proof (rule ccontr)
    assume "\<not> j < i"
    then have "(2 :: nat) ^ i div 2 \<le> 2 ^ j div 2" by (intro div_le_mono power_increasing) simp_all
    then show False using m j by simp
  qed
  then show ?thesis using j by blast
qed

lemma clk_8bit_best: "best_div False [0, 1, 2, 4, 8, 16, 32, 64, 128] mx clk (clk_8bit mx clk)"
proof -
  have pw: "unat clk < unat mx div 2 ^ j" if "j < 8" "clk < mx div (pow_divs ! j)" for j
    using that by (simp add: pow_divs_nth word_less_nat_alt unat_div unat_pow2_32)
  show ?thesis
  proof (cases rule: first_div_cases [of pow_divs mx clk SDHCI_CLK_MAX_DIV_SPEC_VER_2])
    case (1 i)
    have i: "i < 8" using 1(1) by (simp add: pow_divs_nth)
    have d: "unat (clk_8bit mx clk) = 2 ^ i div 2" using half_pow [of i] i by (simp only: clk_8bit_def 1(2) pow_divs_nth)
    have "unat mx div 2 ^ i \<le> unat clk"
      using 1(3) i by (simp add: pow_divs_nth word_le_nat_alt unat_div unat_pow2_32)
    moreover have "unat clk < sd_rate False (unat mx) m" if "m \<in> set (map (\<lambda>i. 2 ^ i div 2) [0 ..< 9 :: nat])" "m < 2 ^ i div 2" for m
      using pow_below [OF that] pw 1(4) i by (auto simp: sd_rate_pow)
    moreover have "2 ^ i div 2 \<in> set (map (\<lambda>i. 2 ^ i div 2) [0 ..< 9 :: nat])" using i by simp
    ultimately show ?thesis unfolding best_div_def d pow_values by (simp add: sd_rate_pow)
  next
    case 2
    have d: "unat (clk_8bit mx clk) = 2 ^ 8 div 2" unfolding clk_8bit_def 2(1) by code_simp
    have "unat clk < sd_rate False (unat mx) m" if "m \<in> set (map (\<lambda>i. 2 ^ i div 2) [0 ..< 9 :: nat])" "m < 2 ^ 8 div 2" for m
      using pow_below [OF that] pw 2(2) by (auto simp: sd_rate_pow pow_divs_nth)
    moreover have "2 ^ 8 div 2 \<in> set (map (\<lambda>i. 2 ^ i div 2) [0 ..< 9 :: nat])"
      "(2 :: nat) ^ 8 div 2 = last (map (\<lambda>i. 2 ^ i div 2) [0 ..< 9 :: nat])" unfolding pow_values [symmetric] by simp_all
    ultimately show ?thesis unfolding best_div_def d pow_values by blast
  qed
qed

text \<open>C24: The divider the driver chooses for a wanted clock is, in each of the three modes of the
  controller, the smallest one whose clock does not exceed the wanted clock, or the largest
  there is when all are too fast; it fits the clock field of the control register, from which
  the controller reads back exactly this value.\<close>

theorem clk_divider_best:
  assumes "choose_clk rd hc clk io = (d, prog, io')"
    and "\<not> (hc_version hc \<ge> SDHCI_SPEC_VER_3 \<and> sh_clk_mul hc \<noteq> 0
            \<and> has (ucast (rd (io_clock io) SDHCI_HCTL2)) SDHCI_HCTL2_PRESET_VAL)"
  shows "unat d \<in> set (clk_values hc)
    \<and> (sd_rate prog (unat (hc_clk_max hc)) (unat d) \<le> unat clk \<or> unat d = last (clk_values hc))
    \<and> (\<forall>m \<in> set (clk_values hc). m < unat d \<longrightarrow> unat clk < sd_rate prog (unat (hc_clk_max hc)) m)
    \<and> sysctl_div (SDHCI_SYSCTL_CLK d) = d"
proof -
  have b: "best_div prog (clk_values hc) (hc_clk_max hc) clk d"
  proof (cases "hc_version hc \<ge> SDHCI_SPEC_VER_3")
    case True
    then have v: "clk_values hc = [0 ..< 1024]" by (simp only: clk_values_def if_True)
    show ?thesis
    proof (cases "sh_clk_mul hc = 0")
      case False
      then have "d = clk_prog (hc_clk_max hc) clk" "prog" using assms True by (auto simp: choose_clk_def in16_def)
      then show ?thesis using clk_prog_best v by simp
    next
      case True
      then have "d = clk_10bit (hc_clk_max hc) clk" "\<not> prog" using assms \<open>SDHCI_SPEC_VER_3 \<le> hc_version hc\<close> by (auto simp: choose_clk_def)
      then show ?thesis using clk_10bit_best v by simp
    qed
  next
    case False
    then have v: "clk_values hc = [0, 1, 2, 4, 8, 16, 32, 64, 128]" by (simp only: clk_values_def if_False)
    have "d = clk_8bit (hc_clk_max hc) clk" "\<not> prog" using assms False by (auto simp: choose_clk_def)
    then show ?thesis using clk_8bit_best unfolding v by simp
  qed
  have "set (clk_values hc) \<subseteq> {..< 1024}" by (simp add: clk_values_def atLeast0LessThan)
  then have "unat d < 1024" using b by (auto simp: best_div_def)
  then show ?thesis using b sysctl_div_CLK by (simp add: best_div_def)
qed

text \<open>50 MHz from the 100 MHz of the sample controller: divide by two.\<close>

theorem clk_divider_best_witness:
  "sd_rate False 100000000 (unat (fst (choose_clk (\<lambda>_ _. 0) sample_hc 50000000 \<lparr>io_clock = 0, io_writes = []\<rparr>))) \<le> 50000000
     \<or> unat (fst (choose_clk (\<lambda>_ _. 0) sample_hc 50000000 \<lparr>io_clock = 0, io_writes = []\<rparr>)) = 1023"
proof -
  let ?io = "\<lparr>io_clock = 0, io_writes = []\<rparr>"
  obtain d prog io' where c: "choose_clk (\<lambda>_ _. 0) sample_hc 50000000 ?io = (d, prog, io')" by (metis prod_cases3)
  have v: "hc_version sample_hc \<ge> SDHCI_SPEC_VER_3" "sh_clk_mul sample_hc = 0" "hc_clk_max sample_hc = 100000000"
    by (simp_all add: sample_hc_def SDHCI_SPEC_VER_3_def)
  then have "\<not> prog" using c by (auto simp: choose_clk_def)
  moreover have "last (clk_values sample_hc) = 1023" using v by (simp add: clk_values_def)
  ultimately show ?thesis using clk_divider_best [OF c] v c by auto
qed

section \<open>Interrupts\<close>

text \<open>The interrupt causes the driver acts on.\<close>

definition active_sts :: "hw \<Rightarrow> reg_io \<Rightarrow> u32" where
  "active_sts rd io = rd (io_clock io) SDHCI_IS AND (rd (io_clock io + 1) SDHCI_IE OR SDHCI_INTR_ERRI)"

lemma error_status_error: "error_status sts \<noteq> CS_CMD_INPROG \<and> error_status sts \<noteq> CS_CMD_CMP \<and> error_status sts \<noteq> CS_CARD_REMOVED"
  by (simp add: error_status_def Let_def)

lemma intr_complete_cs:
  "intr_complete rd sts cmd rsp io = (cs, rsp', io') \<Longrightarrow>
     cs = (if has sts SDHCI_INTR_CC \<or> has sts SDHCI_INTR_TC then CS_CMD_CMP else CS_CMD_INPROG)"
  by (auto simp: intr_complete_def Let_def split: prod.splits if_splits)

definition tuning_cmd :: "sdio_cmd \<Rightarrow> bool" where
  "tuning_cmd cmd \<longleftrightarrow> sc_opcode cmd = SD_SEND_TUNING_BLOCK \<or> sc_opcode cmd = MMC_SEND_TUNING_BLOCK"

text \<open>The three ways an interrupt with a command ends.\<close>

definition intr_cs :: "u32 \<Rightarrow> sdio_cmd \<Rightarrow> cmd_status" where
  "intr_cs sts cmd = (if has sts SDHCI_INTR_ERRI then error_status sts
     else if has sts (SDHCI_INTR_BWR OR SDHCI_INTR_BRR) then (if tuning_cmd cmd then CS_CMD_CMP else CS_CMD_INPROG)
     else if has sts SDHCI_INTR_CC \<or> has sts SDHCI_INTR_TC then CS_CMD_CMP else CS_CMD_INPROG)"

lemma intr_command_outcome:
  assumes "intr_command fuel rd hc sts evs cmd rsp l ws io = Inr (res, ws', io')"
  shows "\<exists>q moved. res = intr_finish sts evs (intr_cs sts cmd) q moved"
proof (cases "has sts SDHCI_INTR_ERRI")
  case True
  then show ?thesis using assms by (auto simp: intr_command_def intr_cs_def Let_def split: prod.splits)
next
  case False
  obtain cs rsp2 io2 where c: "intr_complete rd sts cmd rsp io = (cs, rsp2, io2)" by (metis prod_cases3)
  note r = assms [unfolded intr_command_def c prod.case]
  show ?thesis
  proof (cases "has sts (SDHCI_INTR_BWR OR SDHCI_INTR_BRR)")
    case True
    then show ?thesis using r False by (auto simp: intr_cs_def tuning_cmd_def simp del: has_or split: if_splits)
  next
    case no_data: False
    then have "res = intr_finish sts evs cs rsp2 []" using r False by simp
    then show ?thesis using no_data False intr_complete_cs [OF c] by (auto simp: intr_cs_def)
  qed
qed

lemma intr_event_outcome:
  assumes "sdhci_intr_event fuel rd hc (Some (cmd, rsp)) l ws io = Inr (res, ws', io')"
    and "rd (io_clock io) SDHCI_IS \<noteq> 0"
  shows "\<exists>evs q moved. res = intr_finish (active_sts rd io) evs (intr_cs (active_sts rd io) cmd) q moved"
proof -
  obtain evs io1 where "intr_command fuel rd hc (active_sts rd io) evs cmd rsp l ws io1 = Inr (res, ws', io')"
    using assms unfolding sdhci_intr_event_def Let_def in32_def prod.case active_sts_def by simp
  from intr_command_outcome [OF this] show ?thesis by blast
qed

text \<open>C25: What an interrupt does to the active command: when the card was removed the command is
  completed as such, whatever else happened; otherwise an error interrupt always completes the
  command, and never with success.  A command is completed successfully only when there was
  neither an error nor a removal, and the controller signalled command complete, transfer
  complete or, for a tuning command, data ready.  But when transfer complete comes together with
  data ready for a transfer by the processor, it is acknowledged and lost: the command stays in
  progress.\<close>

theorem intr_event_status:
  assumes "sdhci_intr_event fuel rd hc (Some (cmd, rsp)) l ws io = Inr (res, ws', io')"
    and "rd (io_clock io) SDHCI_IS \<noteq> 0"
  defines "sts \<equiv> active_sts rd io"
  shows "(has sts SDHCI_INTR_CREM \<longrightarrow> ir_done res = Some CS_CARD_REMOVED)
    \<and> (\<not> has sts SDHCI_INTR_CREM \<and> has sts SDHCI_INTR_ERRI \<longrightarrow>
         (\<exists>cs. ir_done res = Some cs \<and> cs \<noteq> CS_CMD_CMP \<and> cs \<noteq> CS_CARD_REMOVED))
    \<and> (ir_done res = Some CS_CMD_CMP \<longrightarrow> \<not> has sts SDHCI_INTR_CREM \<and> \<not> has sts SDHCI_INTR_ERRI
         \<and> (has sts (SDHCI_INTR_BWR OR SDHCI_INTR_BRR) \<and> tuning_cmd cmd \<or> has sts SDHCI_INTR_CC \<or> has sts SDHCI_INTR_TC))
    \<and> (\<not> has sts SDHCI_INTR_CREM \<and> \<not> has sts SDHCI_INTR_ERRI \<and> has sts SDHCI_INTR_TC \<longrightarrow>
         ir_done res = (if has sts (SDHCI_INTR_BWR OR SDHCI_INTR_BRR) \<and> \<not> tuning_cmd cmd then None else Some CS_CMD_CMP))"
proof -
  from intr_event_outcome [OF assms(1,2)] obtain evs q moved where "res = intr_finish sts evs (intr_cs sts cmd) q moved"
    unfolding sts_def by blast
  then have d: "ir_done res = (if has sts SDHCI_INTR_CREM then Some CS_CARD_REMOVED
      else if intr_cs sts cmd = CS_CMD_INPROG then None else Some (intr_cs sts cmd))"
    by (simp add: intr_finish_def Let_def)
  show ?thesis using error_status_error [of sts] unfolding d intr_cs_def by (simp split: if_splits)
qed

lemma intr_error_returns: "has (active_sts rd io) SDHCI_INTR_ERRI \<Longrightarrow> is_ok (sdhci_intr_event fuel rd hc c l ws io)"
  unfolding sdhci_intr_event_def Let_def in32_def prod.case active_sts_def
  by (simp add: intr_command_def Let_def split: option.splits prod.splits)

text \<open>A command complete interrupt together with a CRC error.\<close>

definition sample_intr :: hw where
  "sample_intr t r = (if r = SDHCI_IS then 0x28001 else if r = SDHCI_IE then 0xffffffff else 0)"

definition sample_io :: reg_io where "sample_io = \<lparr>io_clock = 0, io_writes = []\<rparr>"

definition sample_ws :: sdio_wspc where "sample_ws = \<lparr>ws_nsg = 0, ws_sge = 0, ws_sgc = 0, ws_sga = 0\<rparr>"

lemma sample_intr_sts: "active_sts sample_intr sample_io = 0x28001"
  by (simp add: active_sts_def sample_intr_def sample_io_def SDHCI_IS_def SDHCI_IE_def SDHCI_INTR_ERRI_def)

theorem intr_event_status_witness:
  "\<exists>res ws' io' cs. sdhci_intr_event 0 sample_intr sample_hc (Some (setup_cmd SCF_RSP_R1 13 0, [0, 0, 0, 0])) [] sample_ws sample_io
      = Inr (res, ws', io') \<and> ir_done res = Some cs \<and> cs \<noteq> CS_CMD_CMP"
proof -
  let ?e = "sdhci_intr_event 0 sample_intr sample_hc (Some (setup_cmd SCF_RSP_R1 13 0, [0, 0, 0, 0])) [] sample_ws sample_io"
  have s: "\<not> has (active_sts sample_intr sample_io) SDHCI_INTR_CREM" "has (active_sts sample_intr sample_io) SDHCI_INTR_ERRI"
    unfolding sample_intr_sts by (simp_all add: has_def SDHCI_INTR_CREM_def SDHCI_INTR_ERRI_def)
  have n: "sample_intr (io_clock sample_io) SDHCI_IS \<noteq> 0" by (simp add: sample_intr_def)
  obtain x where x: "?e = Inr x" using intr_error_returns [OF s(2)] by (rule is_okE)
  obtain res ws' io' where e: "?e = Inr (res, ws', io')" using x by (cases x) blast
  from intr_event_status [OF e n] s obtain cs where "ir_done res = Some cs" "cs \<noteq> CS_CMD_CMP" by blast
  with e show ?thesis by blast
qed

end
