(* ===== verification/I2c.thy ===== *)
theory I2c
  imports Port
begin

text \<open>
  The I2C master driver (\<open>i2c/bcm2711\<close>).  A transfer has two threads: the client's, which sets the
  controller up and waits on a condition variable, and the interrupt thread, which moves the
  data and signals.  The model has each of them as functions on the device structure and the
  register history; \<open>i2c_event\<close> puts them together.  The buffer of the client is the list
  \<open>buf\<close>, reading or writing behind it is \<open>Out_of_bounds\<close>.  Log messages are left out, except for
  the register read that is an argument of one.
\<close>

section \<open>Constants\<close>

text \<open>\<open>proto.h\<close> and \<open>bcm2711.h\<close>\<close>

definition CTRREG :: nat where "CTRREG = 0x00"
definition CTRREG_I2CEN :: u32 where "CTRREG_I2CEN = 0x8000"
definition CTRREG_INTR :: u32 where "CTRREG_INTR = 0x400"
definition CTRREG_INTT :: u32 where "CTRREG_INTT = 0x200"
definition CTRREG_INTD :: u32 where "CTRREG_INTD = 0x100"
definition CTRREG_START :: u32 where "CTRREG_START = 0x80"
definition CTRREG_CLEAR :: u32 where "CTRREG_CLEAR = 0x30"
definition CTRREG_READ :: u32 where "CTRREG_READ = 0x1"

definition STATREG :: nat where "STATREG = 0x04"
definition STATREG_MASK :: u32 where "STATREG_MASK = 0x1FF"
definition STATREG_CLKT :: u32 where "STATREG_CLKT = 0x200"
definition STATREG_ERR :: u32 where "STATREG_ERR = 0x100"
definition STATREG_RXD :: u32 where "STATREG_RXD = 0x20"
definition STATREG_TXD :: u32 where "STATREG_TXD = 0x10"
definition STATREG_RXR :: u32 where "STATREG_RXR = 0x8"
definition STATREG_TXW :: u32 where "STATREG_TXW = 0x4"
definition STATREG_DONE :: u32 where "STATREG_DONE = 0x2"

definition DLENREG :: nat where "DLENREG = 0x08"
definition SLAVEADDRREG :: nat where "SLAVEADDRREG = 0x0C"
definition FIFOREG :: nat where "FIFOREG = 0x10"
definition CLKDIVREG :: nat where "CLKDIVREG = 0x14"
definition DELAYREG :: nat where "DELAYREG = 0x18"
definition DELAYREG_REDL_BIT_MSK :: u32 where "DELAYREG_REDL_BIT_MSK = 0xFFFF"
definition CLKTREG_BIT_MSK :: u32 where "CLKTREG_BIT_MSK = 0xFFFF"

definition INVALID_ADDR :: u32 where "INVALID_ADDR = 0x80"
definition I2C_REGLEN :: u32 where "I2C_REGLEN = 0x200"
definition BCM2711_CORE_FREQ :: u32 where "BCM2711_CORE_FREQ = 500000000"
definition BCM2711_I2C0_IRQ :: u32 where "BCM2711_I2C0_IRQ = 149"

definition BCM2711_I2C0_BASE :: u32 where "BCM2711_I2C0_BASE = 0xfe205000"
definition BCM2711_I2C1_BASE :: u32 where "BCM2711_I2C1_BASE = 0xfe804000"
definition BCM2711_I2C2_BASE :: u32 where "BCM2711_I2C2_BASE = 0xfe214000"
definition BCM2711_I2C3_BASE :: u32 where "BCM2711_I2C3_BASE = 0xfe205600"
definition BCM2711_I2C4_BASE :: u32 where "BCM2711_I2C4_BASE = 0xfe205800"
definition BCM2711_I2C5_BASE :: u32 where "BCM2711_I2C5_BASE = 0xfe205a80"
definition BCM2711_I2C6_BASE :: u32 where "BCM2711_I2C6_BASE = 0xfe205c00"

lemmas i2c_bits =
  CTRREG_I2CEN_def CTRREG_INTR_def CTRREG_INTT_def CTRREG_INTD_def CTRREG_START_def CTRREG_CLEAR_def
  CTRREG_READ_def STATREG_MASK_def STATREG_CLKT_def STATREG_ERR_def STATREG_RXD_def STATREG_TXD_def
  STATREG_RXR_def STATREG_TXW_def STATREG_DONE_def

lemmas i2c_regs = CTRREG_def STATREG_def DLENREG_def SLAVEADDRREG_def FIFOREG_def CLKDIVREG_def DELAYREG_def

section \<open>State\<close>

datatype i2c_dir = BCM2711_I2C_IDLE | BCM2711_I2C_TX | BCM2711_I2C_RX

datatype i2c_addrfmt = I2C_ADDRFMT_7BIT | I2C_ADDRFMT_10BIT

datatype i2c_status = I2C_STATUS_DONE | I2C_STATUS_ERROR | I2C_STATUS_NACK | I2C_STATUS_ABORT

text \<open>\<open>bcm2711_dev_t\<close>; \<open>regbase\<close> is \<open>None\<close> for \<open>MAP_FAILED\<close>.\<close>

record i2c_dev =
  buf :: "u8 list"
  reglen :: u32
  regbase :: "u64 option"
  physbase :: u32
  intr :: u32
  iid :: int
  txrx :: i2c_dir
  status :: u32
  cur_len :: u32
  tot_len :: u32
  slave_addr :: u32
  clk :: u32
  slave_addr_fmt :: i2c_addrfmt
  speed :: u32
  txrx_status :: i2c_status

section \<open>Registers\<close>

definition disable_interrupt :: "port \<Rightarrow> history \<Rightarrow> history" where
  "disable_interrupt p h =
     (let (v, h) = in32 p CTRREG h
      in out32 CTRREG (v AND NOT (CTRREG_INTR OR CTRREG_INTT OR CTRREG_INTD)) h)"

definition i2c_reset :: "port \<Rightarrow> history \<Rightarrow> history" where
  "i2c_reset p h =
     out32 STATREG (STATREG_ERR OR STATREG_CLKT OR STATREG_DONE)
       (out32 CTRREG (CTRREG_I2CEN OR CTRREG_CLEAR) (disable_interrupt p h))"

definition enable_interrupt :: "u32 \<Rightarrow> port \<Rightarrow> history \<Rightarrow> history" where
  "enable_interrupt bits p h = (let (v, h) = in32 p CTRREG h in out32 CTRREG (v OR bits) h)"

lemma measure_step: "c < t \<Longrightarrow> unat (t - (c + 1)) < unat (t - (c :: u32))"
proof -
  assume "c < t"
  then have "t - c \<noteq> 0" by simp
  then have "unat (t - c - 1) < unat (t - c)" by (metis lessI unat_minus_one word_less_nat_alt measure_unat)
  then show ?thesis by (simp add: diff_diff_eq)
qed

function push_data :: "port \<Rightarrow> i2c_dev \<Rightarrow> history \<Rightarrow> (i2c_dev \<times> history) result" where
  "push_data p dev h =
     (if cur_len dev < tot_len dev then
        let (v, h) = in32 p STATREG h;
            dev = dev\<lparr>status := v AND STATREG_MASK\<rparr>
        in if has (status dev) STATREG_TXD then
             if unat (cur_len dev) \<ge> length (buf dev) then Inl Out_of_bounds
             else push_data p (dev\<lparr>cur_len := cur_len dev + 1\<rparr>)
                    (out32 FIFOREG (ucast (buf dev ! unat (cur_len dev))) h)
           else Inr (dev, h)
      else Inr (dev, h))"
  by pat_completeness auto
termination push_data
  by (relation "measure (\<lambda>(p, dev, h). unat (tot_len dev - cur_len dev))") (auto intro: measure_step)

function i2c_read_data :: "port \<Rightarrow> i2c_dev \<Rightarrow> history \<Rightarrow> (i2c_dev \<times> history) result" where
  "i2c_read_data p dev h =
     (if cur_len dev < tot_len dev then
        if has (status dev) STATREG_RXD then
          if unat (cur_len dev) \<ge> length (buf dev) then Inl Out_of_bounds
          else
            let (v, h) = in32 p FIFOREG h;
                dev = dev\<lparr>buf := (buf dev)[unat (cur_len dev) := ucast v], cur_len := cur_len dev + 1\<rparr>;
                (v, h) = in32 p STATREG h
            in i2c_read_data p (dev\<lparr>status := v AND STATREG_MASK\<rparr>) h
        else Inr (dev, h)
      else Inr (dev, h))"
  by pat_completeness auto
termination i2c_read_data
  by (relation "measure (\<lambda>(p, dev, h). unat (tot_len dev - cur_len dev))") (auto intro: measure_step)

declare push_data.simps [simp del] i2c_read_data.simps [simp del]

section \<open>Set-up of a transfer\<close>

text \<open>
  The functions up to the call of \<open>bcm2711_wait_complete\<close>.  \<open>Some s\<close> is an early return with \<open>s\<close>,
  \<open>None\<close> means that the transfer has been started.
\<close>

definition start_state :: "i2c_dir \<Rightarrow> u8 list \<Rightarrow> u32 \<Rightarrow> i2c_dev \<Rightarrow> i2c_dev" where
  "start_state dir b len dev =
     dev\<lparr>tot_len := len, cur_len := 0, buf := b, txrx := dir, status := 0\<rparr>"

definition recv_setup :: "port \<Rightarrow> u8 list \<Rightarrow> u32 \<Rightarrow> i2c_dev \<Rightarrow> history \<Rightarrow> (i2c_status option \<times> i2c_dev \<times> history) result" where
  "recv_setup p b len dev h =
     (if len = 0 then Inr (Some I2C_STATUS_DONE, dev, h)
      else if has (slave_addr dev) INVALID_ADDR then Inr (Some I2C_STATUS_ERROR, dev, h)
      else if slave_addr_fmt dev \<noteq> I2C_ADDRFMT_7BIT then Inr (Some I2C_STATUS_ERROR, dev, h)
      else
        let h = i2c_reset p h;
            dev = start_state BCM2711_I2C_RX b len dev;
            h = out32 SLAVEADDRREG (slave_addr dev) h;
            h = out32 DLENREG (tot_len dev) h;
            h = out32 CTRREG (CTRREG_I2CEN OR CTRREG_START OR CTRREG_READ OR CTRREG_CLEAR) h;
            h = enable_interrupt (CTRREG_INTD OR CTRREG_INTR) p h
        in Inr (None, dev, h))"

definition send_setup :: "port \<Rightarrow> u8 list \<Rightarrow> u32 \<Rightarrow> i2c_dev \<Rightarrow> history \<Rightarrow> (i2c_status option \<times> i2c_dev \<times> history) result" where
  "send_setup p b len dev h =
     (if len = 0 then Inr (Some I2C_STATUS_DONE, dev, h)
      else if has (slave_addr dev) INVALID_ADDR then Inr (Some I2C_STATUS_ERROR, dev, h)
      else
        let h = i2c_reset p h;
            dev = start_state BCM2711_I2C_TX b len dev;
            h = out32 SLAVEADDRREG (slave_addr dev) h;
            h = out32 DLENREG (tot_len dev) h
        in bind_result (push_data p dev h) (\<lambda>(dev, h).
             let h = out32 CTRREG (CTRREG_I2CEN OR CTRREG_START) h;
                 h = enable_interrupt (CTRREG_INTD OR CTRREG_INTT) p h
             in Inr (None, dev, h)))"

section \<open>The interrupt thread\<close>

text \<open>One pass of its loop after \<open>InterruptWait\<close> returned; the result says whether the condition was signalled.\<close>

definition isr_finish :: "i2c_status \<Rightarrow> i2c_dev \<Rightarrow> i2c_dev" where
  "isr_finish s dev = dev\<lparr>txrx := BCM2711_I2C_IDLE, txrx_status := s\<rparr>"

definition isr_pass :: "port \<Rightarrow> i2c_dev \<Rightarrow> history \<Rightarrow> (bool \<times> i2c_dev \<times> history) result" where
  "isr_pass p dev h =
     (if txrx dev = BCM2711_I2C_IDLE then Inr (False, dev, h)
      else
        let (v, h) = in32 p STATREG h;
            dev = dev\<lparr>status := v AND STATREG_MASK\<rparr>
        in if has (status dev) (STATREG_ERR OR STATREG_CLKT) then
             let h = disable_interrupt p h;
                 (_, h) = in32 p CTRREG h
             in Inr (True, isr_finish I2C_STATUS_NACK dev, h)
           else if has (status dev) STATREG_DONE then
             bind_result (i2c_read_data p dev (disable_interrupt p h)) (\<lambda>(dev, h).
               Inr (True, isr_finish I2C_STATUS_DONE dev, h))
           else if txrx dev = BCM2711_I2C_RX \<and> has (status dev) STATREG_RXR then
             if has (status dev) STATREG_RXD
             then bind_result (i2c_read_data p dev h) (\<lambda>(dev, h). Inr (False, dev, h))
             else Inr (False, dev, h)
           else if txrx dev = BCM2711_I2C_TX \<and> has (status dev) STATREG_TXW then
             if has (status dev) STATREG_TXD
             then bind_result (push_data p dev h) (\<lambda>(dev, h). Inr (False, dev, h))
             else Inr (False, dev, h)
           else Inr (False, dev, h))"

section \<open>Waiting\<close>

text \<open>The deadline of \<open>bcm2711_wait_complete\<close> in nanoseconds; \<open>now\<close> is the monotonic clock.\<close>

definition wait_deadline :: "u32 \<Rightarrow> u32 \<Rightarrow> u64 \<Rightarrow> u64 result" where
  "wait_deadline spd len now =
     (if spd = 0 then Inl Divide_by_zero
      else
        let bus_cycle = 1000000000 div ucast spd;
            cycles = (ucast len + 1) * 9 + 64
        in Inr (bus_cycle * cycles * 5 + now))"

text \<open>
  The client between the set-up and its return.  \<open>Starting\<close>: the interrupts are enabled, the
  client has not yet reached \<open>pthread_cond_timedwait\<close>; \<open>Waiting\<close>: it has released the mutex there.
\<close>

datatype i2c_caller = Starting | Waiting | Returned i2c_status

record i2c_sys =
  sy_dev :: i2c_dev
  sy_hist :: history
  sy_caller :: i2c_caller

datatype i2c_event = Ev_wait | Ev_interrupt | Ev_wakeup | Ev_timeout | Ev_wait_error

text \<open>
  A signal wakes the client only when it waits; it then returns \<open>txrx_status\<close>.  \<open>Ev_wakeup\<close> is a spurious wake-up:
  \<open>pthread_cond_timedwait\<close> may return without a signal, and as the condition has no predicate the client returns
  \<open>txrx_status\<close> then too.  The time-out and another error of the wait end it with a status of its own.
\<close>

definition i2c_step :: "port \<Rightarrow> i2c_event \<Rightarrow> i2c_sys \<Rightarrow> i2c_sys result" where
  "i2c_step p ev sy =
     (case ev of
        Ev_wait \<Rightarrow> Inr (if sy_caller sy = Starting then sy\<lparr>sy_caller := Waiting\<rparr> else sy)
      | Ev_wakeup \<Rightarrow> Inr (if sy_caller sy = Waiting then sy\<lparr>sy_caller := Returned (txrx_status (sy_dev sy))\<rparr> else sy)
      | Ev_timeout \<Rightarrow> Inr (if sy_caller sy = Waiting then sy\<lparr>sy_caller := Returned I2C_STATUS_ABORT\<rparr> else sy)
      | Ev_wait_error \<Rightarrow> Inr (if sy_caller sy = Waiting then sy\<lparr>sy_caller := Returned I2C_STATUS_ERROR\<rparr> else sy)
      | Ev_interrupt \<Rightarrow>
          bind_result (isr_pass p (sy_dev sy) (sy_hist sy)) (\<lambda>(sig, dev, h).
            Inr \<lparr>sy_dev = dev, sy_hist = h,
                 sy_caller = (if sig \<and> sy_caller sy = Waiting then Returned (txrx_status dev) else sy_caller sy)\<rparr>))"

fun i2c_run :: "port \<Rightarrow> i2c_event list \<Rightarrow> i2c_sys \<Rightarrow> i2c_sys result" where
  "i2c_run p [] sy = Inr sy"
| "i2c_run p (ev # evs) sy = bind_result (i2c_step p ev sy) (i2c_run p evs)"

text \<open>\<open>bcm2711_recv\<close> and \<open>bcm2711_send\<close> with the events that happen until the state is looked at.\<close>

definition i2c_call :: "port \<Rightarrow> i2c_event list \<Rightarrow> u32 \<Rightarrow> (i2c_status option \<times> i2c_dev \<times> history) result \<Rightarrow> i2c_sys result" where
  "i2c_call p evs len setup =
     bind_result setup (\<lambda>(early, dev, h).
       case early of
         Some s \<Rightarrow> Inr \<lparr>sy_dev = dev, sy_hist = h, sy_caller = Returned s\<rparr>
       | None \<Rightarrow> bind_result (wait_deadline (speed dev) len 0) (\<lambda>_.
           i2c_run p evs \<lparr>sy_dev = dev, sy_hist = h, sy_caller = Starting\<rparr>))"

definition bcm2711_recv :: "port \<Rightarrow> i2c_event list \<Rightarrow> u8 list \<Rightarrow> u32 \<Rightarrow> i2c_dev \<Rightarrow> history \<Rightarrow> i2c_sys result" where
  "bcm2711_recv p evs b len dev h = i2c_call p evs len (recv_setup p b len dev h)"

definition bcm2711_send :: "port \<Rightarrow> i2c_event list \<Rightarrow> u8 list \<Rightarrow> u32 \<Rightarrow> i2c_dev \<Rightarrow> history \<Rightarrow> i2c_sys result" where
  "bcm2711_send p evs b len dev h = i2c_call p evs len (send_setup p b len dev h)"

section \<open>Configuration\<close>

definition bcm2711_set_slave_addr :: "u32 \<Rightarrow> i2c_addrfmt \<Rightarrow> i2c_dev \<Rightarrow> unit ret \<times> i2c_dev" where
  "bcm2711_set_slave_addr addr fmt dev =
     (if fmt \<noteq> I2C_ADDRFMT_7BIT then (Fail EINVAL, dev)
      else (Ok (), dev\<lparr>slave_addr := addr, slave_addr_fmt := fmt\<rparr>))"

definition bcm2711_set_bus_speed :: "port \<Rightarrow> u32 \<Rightarrow> i2c_dev \<Rightarrow> history \<Rightarrow> (unit ret \<times> i2c_dev \<times> history) result" where
  "bcm2711_set_bus_speed p spd dev h =
     (let dev = dev\<lparr>speed := spd\<rparr> in
      if spd = 0 then Inl Divide_by_zero
      else
        let ckdiv = BCM2711_CORE_FREQ div spd in
        if ckdiv > CLKTREG_BIT_MSK then Inr (Fail EINVAL, dev, h)
        else
          let h = out32 CLKDIVREG ckdiv h in
          if ckdiv = 0 then Inl Divide_by_zero
          else
            let dev = dev\<lparr>clk := BCM2711_CORE_FREQ div ckdiv\<rparr>;
                rx_delay = (ucast (ckdiv div 4) :: u16);
                (delay_reg, h) = in32 p DELAYREG h;
                delay_reg = delay_reg AND NOT DELAYREG_REDL_BIT_MSK;
                delay_reg = delay_reg OR (ucast rx_delay AND DELAYREG_REDL_BIT_MSK)
            in Inr (Ok (), dev, out32 DELAYREG delay_reg h))"

section \<open>Initialisation\<close>

text \<open>
  The options as \<open>getopt\<close> and \<open>strtoul\<close> deliver them: the value of \<open>strtoul\<close>, \<open>None\<close> when it set
  \<open>errno\<close>.  Arguments that are skipped do not appear;
  \<open>I2c_bad\<close> is any other result of \<open>getopt\<close>, which ends the parsing with an error.
\<close>

datatype i2c_opt = I2c_p "u64 option" | I2c_s "u64 option" | I2c_c "u64 option" | I2c_i "u64 option" | I2c_v | I2c_bad

fun i2c_option_list :: "i2c_opt list \<Rightarrow> i2c_dev \<Rightarrow> bool \<times> i2c_dev" where
  "i2c_option_list [] dev = (True, dev)"
| "i2c_option_list (opt # opts) dev =
     (case opt of
        I2c_p (Some v) \<Rightarrow> i2c_option_list opts (dev\<lparr>physbase := ucast v\<rparr>)
      | I2c_s (Some v) \<Rightarrow> i2c_option_list opts (dev\<lparr>slave_addr := ucast v\<rparr>)
      | I2c_c (Some v) \<Rightarrow> i2c_option_list opts (dev\<lparr>clk := ucast v\<rparr>)
      | I2c_i (Some v) \<Rightarrow> i2c_option_list opts (dev\<lparr>intr := ucast v\<rparr>)
      | I2c_v \<Rightarrow> i2c_option_list opts dev
      | _ \<Rightarrow> (False, dev))"

definition master_bases :: "u32 list" where
  "master_bases = [BCM2711_I2C0_BASE, BCM2711_I2C1_BASE, BCM2711_I2C3_BASE, BCM2711_I2C4_BASE,
                   BCM2711_I2C5_BASE, BCM2711_I2C6_BASE]"

definition bcm2711_options :: "i2c_opt list \<Rightarrow> i2c_dev \<Rightarrow> bool \<times> i2c_dev" where
  "bcm2711_options opts dev =
     (let dev = dev\<lparr>intr := BCM2711_I2C0_IRQ, iid := - 1, physbase := 0, regbase := None, reglen := I2C_REGLEN,
                    slave_addr := 0, clk := - 1\<rparr>;
          (ok, dev) = i2c_option_list opts dev
      in if \<not> ok then (False, dev)
         else
           let dev = (if clk dev = 0 then dev\<lparr>clk := 5000\<rparr> else dev)
           in if physbase dev = BCM2711_I2C2_BASE then (False, dev)
              else (physbase dev \<in> set master_bases, dev))"

text \<open>
  The static device structure, all zero; \<open>fmt0\<close> and \<open>st0\<close> stand for what zero is in the
  enumerations of \<open>hw/i2c.h\<close>, which is not part of the repository.
\<close>

definition zero_i2c :: "i2c_addrfmt \<Rightarrow> i2c_status \<Rightarrow> i2c_dev" where
  "zero_i2c fmt0 st0 = \<lparr>buf = [], reglen = 0, regbase = Some 0, physbase = 0, intr = 0, iid = 0, txrx = BCM2711_I2C_IDLE,
     status = 0, cur_len = 0, tot_len = 0, slave_addr = 0, clk = 0, slave_addr_fmt = fmt0, speed = 0,
     txrx_status = st0\<rparr>"

text \<open>
  \<open>mapped\<close> is the answer of \<open>mmap_device_io\<close>; the two flags are the success of \<open>pthread_cond_init\<close>
  and \<open>pthread_create\<close>.  The last component of the result says whether the registers stay mapped.
\<close>

definition bcm2711_init :: "port \<Rightarrow> u64 option \<Rightarrow> bool \<Rightarrow> bool \<Rightarrow> i2c_opt list \<Rightarrow> i2c_dev \<Rightarrow> history
    \<Rightarrow> i2c_dev option \<times> history \<times> bool" where
  "bcm2711_init p mapped cond_ok thread_ok opts dev_st h =
     (case bcm2711_options opts dev_st of (ok, dev) \<Rightarrow>
        if \<not> ok then (None, h, False)
        else case mapped of
          None \<Rightarrow> (None, h, False)
        | Some base \<Rightarrow>
            let dev = dev\<lparr>regbase := Some base\<rparr>;
                h = i2c_reset p h
            in if \<not> cond_ok then (None, h, False)
               else if \<not> thread_ok then (None, h, False)
               else (Some dev, h, True))"

text \<open>The calls \<open>bcm2711_fini\<close> makes; \<open>None\<close> is a NULL handle.\<close>

datatype i2c_cleanup = Detach_intr int | Unmap_regs "u64 option" u32 | Destroy_mutex | Destroy_cond

definition bcm2711_fini :: "i2c_dev option \<Rightarrow> i2c_cleanup list" where
  "bcm2711_fini hdl =
     (case hdl of
        None \<Rightarrow> []
      | Some dev \<Rightarrow> (if iid dev \<noteq> - 1 then [Detach_intr (iid dev)] else [])
                    @ [Unmap_regs (regbase dev) (reglen dev), Destroy_mutex, Destroy_cond])"

end
