(* ===== verification/I2c_Props.thy ===== *)
theory I2c_Props
  imports I2c
begin

text \<open>
  What the I2C driver guarantees: in every interleaving of the client and the interrupt thread
  the bytes sent are a prefix of the buffer and the bytes received are stored in order inside of it,
  a call that reports success has moved all of them, and the configured clock and deadline.
\<close>

section \<open>The data loops\<close>

lemma has_mask: "has (v AND STATREG_MASK) f = has v (f AND STATREG_MASK)"
  by (simp add: has_def and.assoc and.commute [of f])

lemma status_bits [simp]:
  "has (v AND STATREG_MASK) STATREG_RXD = has v STATREG_RXD"
  "has (v AND STATREG_MASK) STATREG_TXD = has v STATREG_TXD"
  "has (v AND STATREG_MASK) STATREG_DONE = has v STATREG_DONE"
  "has (v AND STATREG_MASK) (STATREG_ERR OR STATREG_CLKT) = has v STATREG_ERR"
  by (simp_all only: has_mask) (simp_all add: i2c_bits)

text \<open>The part of the device structure no loop changes.\<close>

definition same_call :: "i2c_dev \<Rightarrow> i2c_dev \<Rightarrow> bool" where
  "same_call dev dev' \<longleftrightarrow> tot_len dev' = tot_len dev \<and> txrx dev' = txrx dev \<and> txrx_status dev' = txrx_status dev \<and> length (buf dev') = length (buf dev)
     \<and> slave_addr dev' = slave_addr dev \<and> speed dev' = speed dev"

lemma same_call_refl [simp]: "same_call dev dev"
  by (simp add: same_call_def)

definition sent_prefix :: "u8 list \<Rightarrow> i2c_dev \<Rightarrow> history \<Rightarrow> bool" where
  "sent_prefix b dev h \<longleftrightarrow> buf dev = b \<and> cur_len dev \<le> tot_len dev \<and> unat (tot_len dev) \<le> length b
     \<and> written FIFOREG h = map ucast (take (unat (cur_len dev)) b)"

lemma sent_prefix_Suc:
  assumes "sent_prefix b dev h" and "cur_len dev < tot_len dev"
  shows "sent_prefix b (dev\<lparr>status := s, cur_len := cur_len dev + 1\<rparr>)
           (h @ [Rd STATREG v, Wr FIFOREG (ucast (buf dev ! unat (cur_len dev)))])"
proof -
  have "unat (cur_len dev) < length b" using assms by (simp add: sent_prefix_def word_less_nat_alt)
  then show ?thesis using assms
    by (simp add: sent_prefix_def i2c_regs unat_Suc_less take_Suc_nth inc_le)
qed

lemma push_data_sent:
  assumes "sent_prefix b dev h"
  shows "\<exists>dev' h'. push_data p dev h = Inr (dev', h') \<and> sent_prefix b dev' h' \<and> same_call dev dev'
    \<and> written DLENREG h' = written DLENREG h"
  using assms
proof (induction p dev h rule: push_data.induct)
  case (1 p dev h)
  let ?s = "p h STATREG AND STATREG_MASK"
  let ?d = "dev\<lparr>status := ?s\<rparr>" and ?h = "h @ [Rd STATREG (p h STATREG)]"
  have keep: "sent_prefix b ?d ?h" using "1.prems" by (simp add: sent_prefix_def i2c_regs)
  show ?case
  proof (cases "cur_len dev < tot_len dev \<and> has (p h STATREG) STATREG_TXD")
    case True
    then have "\<not> length (buf dev) \<le> unat (cur_len dev)"
      using "1.prems" by (simp add: sent_prefix_def word_less_nat_alt)
    moreover note sent_prefix_Suc [OF "1.prems", of ?s "p h STATREG"]
    ultimately show ?thesis
      using True "1.IH" [of "(p h STATREG, ?h)" "p h STATREG" ?h ?d]
      by (subst push_data.simps) (simp add: in32_def out32_def same_call_def i2c_regs)
  next
    case False
    then show ?thesis using keep "1.prems"
      by (subst push_data.simps) (auto simp: in32_def same_call_def Let_def i2c_regs)
  qed
qed

definition received :: "u8 list \<Rightarrow> i2c_dev \<Rightarrow> history \<Rightarrow> bool" where
  "received b dev h \<longleftrightarrow> cur_len dev \<le> tot_len dev \<and> unat (tot_len dev) \<le> length b
     \<and> length (fetched FIFOREG h) = unat (cur_len dev)
     \<and> buf dev = map ucast (fetched FIFOREG h) @ drop (unat (cur_len dev)) b"

lemma received_Suc:
  assumes "received b dev h" and "cur_len dev < tot_len dev"
  shows "received b (dev\<lparr>buf := (buf dev)[unat (cur_len dev) := ucast v], cur_len := cur_len dev + 1, status := s\<rparr>)
           (h @ [Rd FIFOREG v, Rd STATREG w])"
proof -
  let ?n = "unat (cur_len dev)"
  have "?n < length b" using assms by (simp add: received_def word_less_nat_alt)
  then have "(buf dev)[?n := ucast v] = (map ucast (fetched FIFOREG h) @ [ucast v]) @ drop (Suc ?n) b"
    using assms by (intro update_received) (simp_all add: received_def)
  then show ?thesis using assms
    by (simp add: received_def i2c_regs unat_Suc_less inc_le)
qed

text \<open>A status read has shown the end of the transfer.\<close>

definition done_seen :: "history \<Rightarrow> bool" where
  "done_seen h \<longleftrightarrow> (\<exists>v. Rd STATREG v \<in> set h \<and> has v STATREG_DONE)"

text \<open>
  The number of bytes the controller was told to transfer: the lower half of what was last written to \<open>DLENREG\<close>, a register of 16 bits.
  After the transfer has ended, the FIFO shows data until that many bytes have been read.
\<close>

definition programmed :: "history \<Rightarrow> nat" where
  "programmed h = unat (last (0 # written DLENREG h) AND 0xFFFF)"

definition drains :: "port \<Rightarrow> bool" where
  "drains p \<longleftrightarrow> (\<forall>h. (done_seen h \<or> has (p h STATREG) STATREG_DONE) \<and> length (fetched FIFOREG h) < programmed h
                       \<longrightarrow> has (p h STATREG) STATREG_RXD)"

lemma read_data_received:
  assumes "received b dev h"
  shows "\<exists>dev' h'. i2c_read_data p dev h = Inr (dev', h') \<and> received b dev' h' \<and> same_call dev dev'
    \<and> written DLENREG h' = written DLENREG h
    \<and> (drains p \<and> programmed h \<le> unat (tot_len dev) \<and> done_seen h \<and> (unat (cur_len dev) < programmed h \<longrightarrow> has (status dev) STATREG_RXD)
       \<longrightarrow> programmed h \<le> unat (cur_len dev'))"
  using assms
proof (induction p dev h rule: i2c_read_data.induct)
  case (1 p dev h)
  show ?case
  proof (cases "cur_len dev < tot_len dev \<and> has (status dev) STATREG_RXD")
    case True
    let ?v = "p h FIFOREG" and ?h = "h @ [Rd FIFOREG (p h FIFOREG)]"
    let ?w = "p ?h STATREG"
    let ?d = "dev\<lparr>buf := (buf dev)[unat (cur_len dev) := ucast ?v], cur_len := cur_len dev + 1\<rparr>"
    let ?k = "?h @ [Rd STATREG ?w]"
    have inside: "\<not> length (buf dev) \<le> unat (cur_len dev)"
      using "1.prems" True by (simp add: received_def word_less_nat_alt)
    have rec: "received b (?d\<lparr>status := ?w AND STATREG_MASK\<rparr>) ?k"
      using received_Suc [OF "1.prems", of "?w AND STATREG_MASK" ?v ?w] True by simp
    then have len: "length (fetched FIFOREG ?h) = unat (cur_len dev + 1)"
      by (simp add: received_def i2c_regs)
    have seen: "done_seen h \<Longrightarrow> done_seen ?k" and seen': "done_seen h \<Longrightarrow> done_seen ?h"
      by (auto simp: done_seen_def)
    have pr: "programmed ?h = programmed h" "programmed ?k = programmed h" "written DLENREG ?k = written DLENREG h"
      by (simp_all add: programmed_def i2c_regs)
    have more: "unat (cur_len dev + 1) < programmed h \<longrightarrow> has ?w STATREG_RXD" if "drains p" and "done_seen h"
      using that(1) [unfolded drains_def, rule_format, of ?h] seen' [OF that(2)] unfolding len pr by simp
    have step: "i2c_read_data p dev h = i2c_read_data p (?d\<lparr>status := ?w AND STATREG_MASK\<rparr>) ?k"
      using True inside by (subst i2c_read_data.simps) (simp add: in32_def)
    have "received b (?d\<lparr>status := ?w AND STATREG_MASK\<rparr>) ?k \<Longrightarrow>
        \<exists>dev' h'. i2c_read_data p (?d\<lparr>status := ?w AND STATREG_MASK\<rparr>) ?k = Inr (dev', h') \<and> received b dev' h'
          \<and> same_call (?d\<lparr>status := ?w AND STATREG_MASK\<rparr>) dev'
          \<and> written DLENREG h' = written DLENREG ?k
          \<and> (drains p \<and> programmed ?k \<le> unat (tot_len dev) \<and> done_seen ?k \<and> (unat (cur_len dev + 1) < programmed ?k \<longrightarrow> has ?w STATREG_RXD)
             \<longrightarrow> programmed ?k \<le> unat (cur_len dev'))"
      using "1.IH" True inside by (simp add: in32_def)
    from this [OF rec] obtain dev' h' where *: "i2c_read_data p (?d\<lparr>status := ?w AND STATREG_MASK\<rparr>) ?k = Inr (dev', h')"
      "received b dev' h'" "same_call (?d\<lparr>status := ?w AND STATREG_MASK\<rparr>) dev'"
      "written DLENREG h' = written DLENREG ?k"
      "drains p \<and> programmed ?k \<le> unat (tot_len dev) \<and> done_seen ?k \<and> (unat (cur_len dev + 1) < programmed ?k \<longrightarrow> has ?w STATREG_RXD)
         \<longrightarrow> programmed ?k \<le> unat (cur_len dev')"
      by blast
    have "same_call dev dev'" using *(3) by (auto simp: same_call_def)
    moreover have "drains p \<and> programmed h \<le> unat (tot_len dev) \<and> done_seen h
        \<and> (unat (cur_len dev) < programmed h \<longrightarrow> has (status dev) STATREG_RXD) \<longrightarrow> programmed h \<le> unat (cur_len dev')"
      using *(5) more seen unfolding pr by blast
    ultimately show ?thesis using *(1,2,4) unfolding step pr by blast
  next
    case False
    then show ?thesis using "1.prems"
      by (subst i2c_read_data.simps) (auto simp: received_def word_less_nat_alt word_le_nat_alt)
  qed
qed

text \<open>The data loops do not decide the result.\<close>

lemma push_data_status: "push_data p dev h = Inr (dev', h') \<Longrightarrow> txrx_status dev' = txrx_status dev \<and> txrx dev' = txrx dev"
proof (induction p dev h rule: push_data.induct)
  case (1 p dev h)
  from "1.prems" show ?case
    by (subst (asm) push_data.simps) (auto simp: in32_def Let_def dest!: "1.IH" split: if_splits)
qed

lemma read_data_status: "i2c_read_data p dev h = Inr (dev', h') \<Longrightarrow> txrx_status dev' = txrx_status dev \<and> txrx dev' = txrx dev"
proof (induction p dev h rule: i2c_read_data.induct)
  case (1 p dev h)
  from "1.prems" show ?case
    by (subst (asm) i2c_read_data.simps) (auto simp: in32_def Let_def dest!: "1.IH" split: if_splits)
qed

lemma isr_pass_status: "isr_pass p dev h = Inr (False, dev', h') \<Longrightarrow> txrx_status dev' = txrx_status dev"
  by (auto simp: isr_pass_def Let_def case_prod_beta' dest!: push_data_status read_data_status split: if_splits)

lemma read_data_no_data: "\<not> has (status dev) STATREG_RXD \<Longrightarrow> i2c_read_data p dev h = Inr (dev, h)"
  by (subst i2c_read_data.simps) simp

text \<open>A status read has shown an address or data byte that was not acknowledged.\<close>

definition err_seen :: "history \<Rightarrow> bool" where
  "err_seen h \<longleftrightarrow> (\<exists>v. Rd STATREG v \<in> set h \<and> has v STATREG_ERR)"

section \<open>Interleavings\<close>

text \<open>Register accesses that touch neither the FIFO nor the data length.\<close>

definition no_data :: "history \<Rightarrow> bool" where
  "no_data k \<longleftrightarrow> written FIFOREG k = [] \<and> fetched FIFOREG k = [] \<and> written DLENREG k = []"

lemma no_data_simps [simp]:
  "no_data []" "no_data (Rd STATREG v # k) = no_data k" "no_data (Wr STATREG v # k) = no_data k"
  "no_data (Wr CTRREG v # k) = no_data k"
  "no_data (Rd CTRREG v # k) = no_data k"
  by (simp_all add: no_data_def i2c_regs)

text \<open>
  What the parts of a transfer promise: \<open>good\<close> holds of the device and the history throughout,
  \<open>complete\<close> when the end of the transfer has been handled.
\<close>

locale i2c_transfer =
  fixes good :: "port \<Rightarrow> i2c_dev \<Rightarrow> history \<Rightarrow> bool"
    and complete :: "i2c_dev \<Rightarrow> history \<Rightarrow> bool"
  assumes frame: "good p dev h \<Longrightarrow> good p (dev\<lparr>status := s\<rparr>) h"
    and finish: "good p dev h \<Longrightarrow> good p (isr_finish r dev) h"
    and quiet: "good p dev h \<Longrightarrow> no_data k \<Longrightarrow> good p dev (h @ k)"
    and push: "good p dev h \<Longrightarrow> txrx dev = BCM2711_I2C_TX \<Longrightarrow>
      \<exists>dev' h'. push_data p dev h = Inr (dev', h') \<and> good p dev' h'"
    and read: "good p dev h \<Longrightarrow>
      \<exists>dev' h'. i2c_read_data p (dev\<lparr>status := p k STATREG AND STATREG_MASK\<rparr>) h = Inr (dev', h') \<and> good p dev' h'"
    and last: "good p dev k \<Longrightarrow> has (p k STATREG) STATREG_DONE \<Longrightarrow> no_data q \<Longrightarrow>
      i2c_read_data p (dev\<lparr>status := p k STATREG AND STATREG_MASK\<rparr>) (k @ Rd STATREG (p k STATREG) # q) = Inr (dev', h')
      \<Longrightarrow> complete (isr_finish r dev') h'"
begin

definition outcome :: "i2c_status \<Rightarrow> i2c_dev \<Rightarrow> history \<Rightarrow> bool" where
  "outcome s dev h \<longleftrightarrow> txrx dev = BCM2711_I2C_IDLE
     \<and> (s = I2C_STATUS_DONE \<and> complete dev h \<or> s = I2C_STATUS_NACK \<and> err_seen h)"

lemma isr_pass_good:
  assumes "good p dev h"
  shows "\<exists>sig dev' h'. isr_pass p dev h = Inr (sig, dev', h') \<and> good p dev' h'
    \<and> (sig \<longrightarrow> outcome (txrx_status dev') dev' h')"
proof -
  let ?v = "p h STATREG" and ?h = "h @ [Rd STATREG (p h STATREG)]"
  let ?d = "dev\<lparr>status := p h STATREG AND STATREG_MASK\<rparr>"
  let ?off = "[Rd CTRREG (p ?h CTRREG), Wr CTRREG (p ?h CTRREG AND NOT (CTRREG_INTR OR CTRREG_INTT OR CTRREG_INTD))]"
  let ?k = "?h @ ?off"
  have off: "disable_interrupt p ?h = ?k" by (simp add: disable_interrupt_def in32_def out32_def)
  have g: "good p dev ?h" "good p ?d ?h" "good p dev ?k"
    using assms by (simp_all add: quiet frame flip: append_assoc)
  obtain d1 h1 where r1: "i2c_read_data p ?d ?h = Inr (d1, h1)" "good p d1 h1" using read [OF g(1)] by blast
  obtain d2 h2 where r2: "i2c_read_data p ?d ?k = Inr (d2, h2)" "good p d2 h2" using read [OF g(3)] by blast
  consider (idle) "txrx dev = BCM2711_I2C_IDLE"
    | (err) "txrx dev \<noteq> BCM2711_I2C_IDLE" "has ?v STATREG_ERR"
    | (ended) "txrx dev \<noteq> BCM2711_I2C_IDLE" "\<not> has ?v STATREG_ERR" "has ?v STATREG_DONE"
    | (data) "txrx dev \<noteq> BCM2711_I2C_IDLE" "\<not> has ?v STATREG_ERR" "\<not> has ?v STATREG_DONE" by blast
  then show ?thesis
  proof cases
    case idle
    then show ?thesis using assms by (auto simp: isr_pass_def)
  next
    case err
    have "good p (isr_finish I2C_STATUS_NACK ?d) (?k @ [Rd CTRREG (p ?k CTRREG)])"
      by (intro finish quiet frame g(3)) simp
    moreover have "err_seen (?k @ [Rd CTRREG (p ?k CTRREG)])" using err by (auto simp: err_seen_def)
    ultimately show ?thesis using err off
      by (auto simp: isr_pass_def in32_def outcome_def isr_finish_def)
  next
    case ended
    have "complete (isr_finish I2C_STATUS_DONE d2) h2"
      using last [of p dev h ?off d2 h2] assms ended r2 by simp
    then show ?thesis using ended off r2 finish [OF r2(2)]
      by (auto simp: isr_pass_def in32_def outcome_def isr_finish_def)
  next
    case data
    then show ?thesis using r1 g push [OF g(2)]
      by (cases "txrx dev") (auto simp: isr_pass_def in32_def Let_def)
  qed
qed

text \<open>\<open>s0\<close> is the result left in the device by an earlier call; \<open>w\<close> says whether there are spurious wake-ups.\<close>

definition sys_ok :: "port \<Rightarrow> i2c_status \<Rightarrow> bool \<Rightarrow> i2c_sys \<Rightarrow> bool" where
  "sys_ok p s0 w sy \<longleftrightarrow> good p (sy_dev sy) (sy_hist sy)
     \<and> (txrx_status (sy_dev sy) = s0 \<or> outcome (txrx_status (sy_dev sy)) (sy_dev sy) (sy_hist sy))
     \<and> (\<forall>s. sy_caller sy = Returned s \<longrightarrow> s \<in> {I2C_STATUS_ABORT, I2C_STATUS_ERROR} \<or> outcome s (sy_dev sy) (sy_hist sy) \<or> w \<and> s = s0)"

lemma i2c_step_ok:
  assumes "sys_ok p s0 w sy" and "ev = Ev_wakeup \<longrightarrow> w"
  shows "\<exists>sy'. i2c_step p ev sy = Inr sy' \<and> sys_ok p s0 w sy'"
proof (cases "ev = Ev_interrupt")
  case True
  obtain sig dev' h' where pass: "isr_pass p (sy_dev sy) (sy_hist sy) = Inr (sig, dev', h')" "good p dev' h'"
    "sig \<longrightarrow> outcome (txrx_status dev') dev' h'"
    using isr_pass_good assms unfolding sys_ok_def by blast
  have idle: "txrx (sy_dev sy) = BCM2711_I2C_IDLE \<Longrightarrow> \<not> sig \<and> dev' = sy_dev sy \<and> h' = sy_hist sy"
    using pass(1) by (simp add: isr_pass_def)
  have old: "outcome s dev' h'" if "outcome s (sy_dev sy) (sy_hist sy)" for s
    using that idle by (auto simp: outcome_def)
  have st: "txrx_status dev' = s0 \<or> outcome (txrx_status dev') dev' h'"
  proof (cases sig)
    case False
    then show ?thesis using isr_pass_status pass(1) assms(1) old by (auto simp: sys_ok_def)
  qed (use pass(3) in simp)
  have "s \<in> {I2C_STATUS_ABORT, I2C_STATUS_ERROR} \<or> outcome s dev' h' \<or> w \<and> s = s0" if "sy_caller sy = Returned s" for s
    using that assms(1) old by (auto simp: sys_ok_def)
  then show ?thesis using True pass st by (auto simp: i2c_step_def sys_ok_def)
next
  case False
  then show ?thesis using assms by (cases ev) (auto simp: i2c_step_def sys_ok_def)
qed

lemma i2c_run_ok: "sys_ok p s0 w sy \<Longrightarrow> (Ev_wakeup \<in> set evs \<longrightarrow> w) \<Longrightarrow> \<exists>sy'. i2c_run p evs sy = Inr sy' \<and> sys_ok p s0 w sy'"
proof (induction evs arbitrary: sy)
  case (Cons ev evs)
  then show ?case using i2c_step_ok [OF Cons.prems(1), of ev] by force
qed simp

lemma i2c_call_ok:
  assumes "good p dev h" and "speed dev \<noteq> 0"
  shows "\<exists>sy. i2c_call p evs len (Inr (None, dev, h)) = Inr sy \<and> sys_ok p (txrx_status dev) (Ev_wakeup \<in> set evs) sy"
  using i2c_run_ok [of p "txrx_status dev" "Ev_wakeup \<in> set evs" "\<lparr>sy_dev = dev, sy_hist = h, sy_caller = Starting\<rparr>" evs] assms
  by (simp add: i2c_call_def wait_deadline_def sys_ok_def Let_def)

end

section \<open>Sending and receiving\<close>

text \<open>
  The controller reports the end of a write only when as many bytes as it was told to transfer have been put into the FIFO.
\<close>

definition ends_after :: "port \<Rightarrow> bool" where
  "ends_after p \<longleftrightarrow> (\<forall>h. has (p h STATREG) STATREG_DONE \<longrightarrow> programmed h \<le> length (written FIFOREG h))"

text \<open>Nothing is received during a write.\<close>

definition write_only :: "port \<Rightarrow> bool" where
  "write_only p \<longleftrightarrow> (\<forall>h. \<not> has (p h STATREG) STATREG_RXD)"

definition sending :: "u8 list \<Rightarrow> u32 \<Rightarrow> port \<Rightarrow> i2c_dev \<Rightarrow> history \<Rightarrow> bool" where
  "sending b n p dev h \<longleftrightarrow> sent_prefix b dev h \<and> tot_len dev = n \<and> txrx dev \<noteq> BCM2711_I2C_RX
     \<and> write_only p \<and> ends_after p \<and> programmed h = unat n mod 2 ^ 16"

definition all_sent :: "u8 list \<Rightarrow> u32 \<Rightarrow> i2c_dev \<Rightarrow> history \<Rightarrow> bool" where
  "all_sent b n dev h \<longleftrightarrow> unat n mod 2 ^ 16 \<le> length (written FIFOREG h)"

lemma sending_frame: "sending b n p dev h \<Longrightarrow> sending b n p (dev\<lparr>status := s\<rparr>) h"
  by (auto simp add: sending_def sent_prefix_def)

lemma sending_finish: "sending b n p dev h \<Longrightarrow> sending b n p (isr_finish r dev) h"
  by (auto simp add: sending_def sent_prefix_def isr_finish_def)

lemma sending_quiet: "sending b n p dev h \<Longrightarrow> no_data k \<Longrightarrow> sending b n p dev (h @ k)"
  by (auto simp add: sending_def sent_prefix_def no_data_def programmed_def)

lemma sending_push:
  assumes "sending b n p dev h"
  shows "\<exists>dev' h'. push_data p dev h = Inr (dev', h') \<and> sending b n p dev' h'"
  using push_data_sent [of b dev h p] assms by (force simp: sending_def same_call_def programmed_def)

lemma sending_read:
  assumes "sending b n p dev h"
  shows "i2c_read_data p (dev\<lparr>status := p k STATREG AND STATREG_MASK\<rparr>) h
    = Inr (dev\<lparr>status := p k STATREG AND STATREG_MASK\<rparr>, h)"
  using assms by (intro read_data_no_data) (simp add: sending_def write_only_def)

lemma sending_last:
  assumes s: "sending b n p dev k" and e: "has (p k STATREG) STATREG_DONE" and q: "no_data q"
  shows "all_sent b n dev' (k @ Rd STATREG v # q)"
  using s e q by (auto simp: sending_def ends_after_def all_sent_def no_data_def)

interpretation sending: i2c_transfer "sending b n" "all_sent b n" for b n
proof
  show "\<exists>dev' h'. i2c_read_data p (dev\<lparr>status := p k STATREG AND STATREG_MASK\<rparr>) h = Inr (dev', h') \<and> sending b n p dev' h'"
    if "sending b n p dev h" for p dev h k
    using sending_read [OF that] sending_frame [OF that] by blast
  show "all_sent b n (isr_finish r dev') h'"
    if "sending b n p dev k" and "has (p k STATREG) STATREG_DONE" and "no_data q"
      and "i2c_read_data p (dev\<lparr>status := p k STATREG AND STATREG_MASK\<rparr>) (k @ Rd STATREG (p k STATREG) # q) = Inr (dev', h')"
    for p dev k q dev' h' r
  proof -
    have "no_data (Rd STATREG (p k STATREG) # q)" using that(3) by simp
    from sending_read [OF sending_quiet [OF that(1) this], of k] that
    show ?thesis using sending_last [OF that(1,2,3)] by simp
  qed
qed (simp_all add: sending_frame sending_finish sending_quiet sending_push)

definition receiving :: "u8 list \<Rightarrow> u32 \<Rightarrow> port \<Rightarrow> i2c_dev \<Rightarrow> history \<Rightarrow> bool" where
  "receiving b n p dev h \<longleftrightarrow> received b dev h \<and> tot_len dev = n \<and> txrx dev \<noteq> BCM2711_I2C_TX \<and> drains p
     \<and> programmed h = unat n mod 2 ^ 16"

definition all_received :: "u8 list \<Rightarrow> u32 \<Rightarrow> i2c_dev \<Rightarrow> history \<Rightarrow> bool" where
  "all_received b n dev h \<longleftrightarrow> unat n mod 2 ^ 16 \<le> length (fetched FIFOREG h)"

lemma receiving_frame: "receiving b n p dev h \<Longrightarrow> receiving b n p (dev\<lparr>status := s\<rparr>) h"
  by (auto simp add: receiving_def received_def)

lemma receiving_finish: "receiving b n p dev h \<Longrightarrow> receiving b n p (isr_finish r dev) h"
  by (auto simp add: receiving_def received_def isr_finish_def)

lemma receiving_quiet: "receiving b n p dev h \<Longrightarrow> no_data k \<Longrightarrow> receiving b n p dev (h @ k)"
  by (auto simp add: receiving_def received_def no_data_def programmed_def)

lemma receiving_read:
  assumes "receiving b n p dev h"
  shows "\<exists>dev' h'. i2c_read_data p dev h = Inr (dev', h') \<and> receiving b n p dev' h'
    \<and> (done_seen h \<and> (unat (cur_len dev) < programmed h \<longrightarrow> has (status dev) STATREG_RXD) \<longrightarrow> programmed h \<le> unat (cur_len dev'))"
proof -
  obtain dev' h' where r: "i2c_read_data p dev h = Inr (dev', h')" "received b dev' h'" "same_call dev dev'"
    "written DLENREG h' = written DLENREG h"
    "drains p \<and> programmed h \<le> unat (tot_len dev) \<and> done_seen h \<and> (unat (cur_len dev) < programmed h \<longrightarrow> has (status dev) STATREG_RXD)
       \<longrightarrow> programmed h \<le> unat (cur_len dev')"
    using read_data_received [of b dev h p] assms by (auto simp: receiving_def)
  have "programmed h' = programmed h" using r(4) by (simp add: programmed_def)
  moreover have "programmed h \<le> unat (tot_len dev)" using assms by (simp add: receiving_def)
  ultimately show ?thesis using r assms by (auto simp: receiving_def same_call_def)
qed

lemma receiving_last:
  assumes r: "receiving b n p dev k" and e: "has (p k STATREG) STATREG_DONE" and q: "no_data q"
    and "i2c_read_data p (dev\<lparr>status := p k STATREG AND STATREG_MASK\<rparr>) (k @ Rd STATREG (p k STATREG) # q) = Inr (dev', h')"
  shows "all_received b n (isr_finish s dev') h'"
proof -
  have "no_data (Rd STATREG (p k STATREG) # q)" using q by simp
  from receiving_frame [OF receiving_quiet [OF r this], of "p k STATREG AND STATREG_MASK"]
  have g: "receiving b n p (dev\<lparr>status := p k STATREG AND STATREG_MASK\<rparr>) (k @ Rd STATREG (p k STATREG) # q)" .
  have "done_seen (k @ Rd STATREG (p k STATREG) # q)" using e by (auto simp: done_seen_def)
  moreover have pr: "programmed (k @ Rd STATREG (p k STATREG) # q) = programmed k" using q by (simp add: programmed_def no_data_def)
  moreover have "unat (cur_len dev) < programmed k \<longrightarrow> has (p k STATREG) STATREG_RXD"
    using r e by (auto simp: receiving_def received_def drains_def)
  ultimately have "receiving b n p dev' h'" and "programmed k \<le> unat (cur_len dev')"
    using receiving_read [OF g] assms(4) by auto
  then show ?thesis using r by (simp add: all_received_def receiving_def received_def isr_finish_def)
qed

interpretation receiving: i2c_transfer "receiving b n" "all_received b n" for b n
proof
  show "\<exists>dev' h'. i2c_read_data p (dev\<lparr>status := p k STATREG AND STATREG_MASK\<rparr>) h = Inr (dev', h') \<and> receiving b n p dev' h'"
    if "receiving b n p dev h" for p dev h k
    using receiving_read [OF receiving_frame [OF that, of "p k STATREG AND STATREG_MASK"]] by blast
  show "\<exists>dev' h'. push_data p dev h = Inr (dev', h') \<and> receiving b n p dev' h'"
    if "receiving b n p dev h" and "txrx dev = BCM2711_I2C_TX" for p dev h
    using that by (simp add: receiving_def)
qed (simp_all add: receiving_frame receiving_finish receiving_quiet receiving_last)

section \<open>Whole calls\<close>

lemma reset_no_data: "\<exists>k. i2c_reset p h = h @ k \<and> no_data k"
  by (simp add: i2c_reset_def disable_interrupt_def in32_def out32_def)

lemma enable_no_data: "\<exists>k. enable_interrupt bits p h = h @ k \<and> no_data k"
  by (simp add: enable_interrupt_def in32_def out32_def)

lemma start_no_data [simp]: "no_data (Wr SLAVEADDRREG v # k) = no_data k"
  by (simp add: no_data_def i2c_regs)

lemma low_bits: "unat (x AND 0xFFFF) = unat (x :: u32) mod 2 ^ 16"
proof -
  have "x AND 0xFFFF = take_bit 16 x" by (simp add: take_bit_eq_mask mask_eq_exp_minus_1)
  then have "unat (x AND 0xFFFF) = take_bit 16 (unat x)" by (simp only: unsigned_take_bit_eq)
  then show ?thesis by (simp only: take_bit_eq_mod)
qed

lemma no_data_append [simp]: "no_data (h @ k) \<longleftrightarrow> no_data h \<and> no_data k"
  by (auto simp: no_data_def)

lemma send_setup_sending:
  assumes "len \<noteq> 0" and "unat len \<le> length b" and "\<not> has (slave_addr dev) INVALID_ADDR"
    and "write_only p" and "ends_after p"
  shows "\<exists>dev' h'. send_setup p b len dev [] = Inr (None, dev', h') \<and> sending b len p dev' h' \<and> speed dev' = speed dev
    \<and> txrx_status dev' = txrx_status dev"
proof -
  let ?d = "start_state BCM2711_I2C_TX b len dev"
  obtain k where k: "i2c_reset p [] = k" "no_data k" using reset_no_data [of p "[]"] by auto
  let ?h = "k @ [Wr SLAVEADDRREG (slave_addr dev), Wr DLENREG len]"
  have "sending b len p ?d ?h"
    using assms k by (simp add: sending_def sent_prefix_def start_state_def no_data_def i2c_regs programmed_def low_bits)
  then obtain dev' h' where push: "push_data p ?d ?h = Inr (dev', h')" "sending b len p dev' h'"
    using sending_push by blast
  have sp: "speed dev' = speed dev" "txrx_status dev' = txrx_status dev"
    using push_data_sent [of b ?d ?h p] push \<open>sending b len p ?d ?h\<close>
    by (auto simp: sending_def same_call_def start_state_def)
  obtain q where q: "enable_interrupt (CTRREG_INTD OR CTRREG_INTT) p (h' @ [Wr CTRREG (CTRREG_I2CEN OR CTRREG_START)])
      = (h' @ [Wr CTRREG (CTRREG_I2CEN OR CTRREG_START)]) @ q" "no_data q"
    using enable_no_data by blast
  have "sending b len p dev' (h' @ ([Wr CTRREG (CTRREG_I2CEN OR CTRREG_START)] @ q))"
    using push(2) q(2) by (intro sending_quiet) simp_all
  then show ?thesis
    using assms k push sp q by (simp add: send_setup_def out32_def start_state_def)
qed

lemma recv_setup_receiving:
  assumes "len \<noteq> 0" and "unat len \<le> length b" and "\<not> has (slave_addr dev) INVALID_ADDR"
    and "slave_addr_fmt dev = I2C_ADDRFMT_7BIT" and "drains p"
  shows "\<exists>dev' h'. recv_setup p b len dev [] = Inr (None, dev', h') \<and> receiving b len p dev' h' \<and> speed dev' = speed dev
    \<and> txrx_status dev' = txrx_status dev"
proof -
  let ?d = "start_state BCM2711_I2C_RX b len dev"
  obtain k where k: "i2c_reset p [] = k" "no_data k" using reset_no_data [of p "[]"] by auto
  let ?h = "k @ [Wr SLAVEADDRREG (slave_addr dev), Wr DLENREG len,
                 Wr CTRREG (CTRREG_I2CEN OR CTRREG_START OR CTRREG_READ OR CTRREG_CLEAR)]"
  obtain q where q: "enable_interrupt (CTRREG_INTD OR CTRREG_INTR) p ?h = ?h @ q" "no_data q"
    using enable_no_data by blast
  have "receiving b len p ?d (?h @ q)"
    using assms k q by (simp add: receiving_def received_def start_state_def no_data_def i2c_regs programmed_def low_bits)
  then show ?thesis
    using assms k q by (simp add: recv_setup_def out32_def start_state_def)
qed

text \<open>C26: However the interrupts, the client's wait, its time-out and spurious wake-ups are interleaved, a write never
  fails in the driver and never reads behind the buffer: the bytes put into the FIFO are exactly the first
  \<open>cur_len\<close> bytes of the buffer in order, at most \<open>len\<close>.  A call that returns success has sent at least the bytes that fit the 16 bits
  of the length register, all \<open>len\<close> when they do; it returns NACK only when the controller reported a missing acknowledge, so that a clock stretch
  time-out alone, which the status mask removes, is never reported.  The exception is a call that a spurious wake-up ended, which
  may return the result of an earlier transfer instead, as the wait has no predicate.  The controller is assumed to receive
  nothing during a write and to report its end only when the number of bytes in its length register have been put into the FIFO.\<close>

theorem i2c_send_stream:
  assumes "len \<noteq> 0" and "unat len \<le> length b" and "\<not> has (slave_addr dev) INVALID_ADDR" and "speed dev \<noteq> 0"
    and "write_only p" and "ends_after p"
  shows "\<exists>sy. bcm2711_send p evs b len dev [] = Inr sy
    \<and> written FIFOREG (sy_hist sy) = map ucast (take (unat (cur_len (sy_dev sy))) b)
    \<and> cur_len (sy_dev sy) \<le> len \<and> buf (sy_dev sy) = b
    \<and> (\<forall>s. sy_caller sy = Returned s \<longrightarrow> s \<in> {I2C_STATUS_ABORT, I2C_STATUS_ERROR}
         \<or> s = I2C_STATUS_DONE \<and> unat len mod 2 ^ 16 \<le> unat (cur_len (sy_dev sy)) \<and> (unat len < 2 ^ 16 \<longrightarrow> cur_len (sy_dev sy) = len)
         \<or> s = I2C_STATUS_NACK \<and> err_seen (sy_hist sy)
         \<or> s = txrx_status dev \<and> Ev_wakeup \<in> set evs)"
proof -
  obtain dev' h' where s: "send_setup p b len dev [] = Inr (None, dev', h')" "sending b len p dev' h'"
    "speed dev' = speed dev" "txrx_status dev' = txrx_status dev"
    using send_setup_sending [OF assms(1-3,5,6)] by blast
  then obtain sy where call: "i2c_call p evs len (send_setup p b len dev []) = Inr sy"
    and ok: "sending.sys_ok b len p (txrx_status dev) (Ev_wakeup \<in> set evs) sy"
    using sending.i2c_call_ok [OF s(2), of evs len] assms(4) by auto
  have g: "written FIFOREG (sy_hist sy) = map ucast (take (unat (cur_len (sy_dev sy))) b)" "cur_len (sy_dev sy) \<le> len"
    "buf (sy_dev sy) = b" using ok by (auto simp: sending.sys_ok_def sending_def sent_prefix_def)
  have "unat len mod 2 ^ 16 \<le> unat (cur_len (sy_dev sy)) \<and> (unat len < 2 ^ 16 \<longrightarrow> cur_len (sy_dev sy) = len)"
    if "all_sent b len (sy_dev sy) (sy_hist sy)"
  proof -
    have "unat len mod 2 ^ 16 \<le> unat (cur_len (sy_dev sy))" using that g(1) by (simp add: all_sent_def)
    then show ?thesis using g(2) by (auto simp: word_eq_nat word_le_nat_alt)
  qed
  then have "\<forall>s. sy_caller sy = Returned s \<longrightarrow> s \<in> {I2C_STATUS_ABORT, I2C_STATUS_ERROR}
         \<or> s = I2C_STATUS_DONE \<and> unat len mod 2 ^ 16 \<le> unat (cur_len (sy_dev sy)) \<and> (unat len < 2 ^ 16 \<longrightarrow> cur_len (sy_dev sy) = len)
         \<or> s = I2C_STATUS_NACK \<and> err_seen (sy_hist sy)
         \<or> s = txrx_status dev \<and> Ev_wakeup \<in> set evs"
    using ok unfolding sending.sys_ok_def sending.outcome_def by blast
  then show ?thesis using call g unfolding bcm2711_send_def by blast
qed

text \<open>C27: However the interrupts, the client's wait, its time-out and spurious wake-ups are interleaved, a read stores the
  bytes fetched from the FIFO one behind the other from the start of the buffer, never more than
  \<open>len\<close>, and leaves the rest of the buffer alone.  A call that returns success has received at least the bytes that fit the 16 bits of the
  length register, all \<open>len\<close> when they do, provided the controller shows the data left in the FIFO, up to the number in its
  length register, from when it reports the end; again a spurious wake-up may make it return the result of an earlier transfer instead.\<close>

theorem i2c_recv_stream:
  assumes "len \<noteq> 0" and "unat len \<le> length b" and "\<not> has (slave_addr dev) INVALID_ADDR"
    and "slave_addr_fmt dev = I2C_ADDRFMT_7BIT" and "speed dev \<noteq> 0" and "drains p"
  shows "\<exists>sy. bcm2711_recv p evs b len dev [] = Inr sy
    \<and> (let got = fetched FIFOREG (sy_hist sy) in
         length got \<le> unat len \<and> buf (sy_dev sy) = map ucast got @ drop (length got) b
         \<and> (\<forall>s. sy_caller sy = Returned s \<longrightarrow> s \<in> {I2C_STATUS_ABORT, I2C_STATUS_ERROR}
              \<or> s = I2C_STATUS_DONE \<and> unat len mod 2 ^ 16 \<le> length got \<and> (unat len < 2 ^ 16 \<longrightarrow> length got = unat len)
              \<or> s = I2C_STATUS_NACK \<and> err_seen (sy_hist sy)
              \<or> s = txrx_status dev \<and> Ev_wakeup \<in> set evs))"
proof -
  obtain dev' h' where s: "recv_setup p b len dev [] = Inr (None, dev', h')" "receiving b len p dev' h'"
    "speed dev' = speed dev" "txrx_status dev' = txrx_status dev"
    using recv_setup_receiving [OF assms(1-4,6)] by blast
  then obtain sy where call: "i2c_call p evs len (recv_setup p b len dev []) = Inr sy"
    and ok: "receiving.sys_ok b len p (txrx_status dev) (Ev_wakeup \<in> set evs) sy"
    using receiving.i2c_call_ok [OF s(2), of evs len] assms(5) by auto
  let ?got = "fetched FIFOREG (sy_hist sy)"
  have g: "length ?got \<le> unat len" "buf (sy_dev sy) = map ucast ?got @ drop (length ?got) b"
    using ok by (auto simp: receiving.sys_ok_def receiving_def received_def word_le_nat_alt)
  have "unat len mod 2 ^ 16 \<le> length ?got \<and> (unat len < 2 ^ 16 \<longrightarrow> length ?got = unat len)"
    if "all_received b len (sy_dev sy) (sy_hist sy)"
    using that g(1) by (auto simp: all_received_def)
  then have "\<forall>s. sy_caller sy = Returned s \<longrightarrow> s \<in> {I2C_STATUS_ABORT, I2C_STATUS_ERROR}
              \<or> s = I2C_STATUS_DONE \<and> unat len mod 2 ^ 16 \<le> length ?got \<and> (unat len < 2 ^ 16 \<longrightarrow> length ?got = unat len)
              \<or> s = I2C_STATUS_NACK \<and> err_seen (sy_hist sy)
              \<or> s = txrx_status dev \<and> Ev_wakeup \<in> set evs"
    using ok unfolding receiving.sys_ok_def receiving.outcome_def by blast
  then show ?thesis using call g unfolding bcm2711_recv_def Let_def by blast
qed

text \<open>A controller that takes bytes at once and reports the end of a write, or of a read, as its length register says.\<close>

definition sample_i2c :: i2c_dev where
  "sample_i2c = (zero_i2c I2C_ADDRFMT_7BIT I2C_STATUS_DONE)\<lparr>slave_addr := 0x50, speed := 100000\<rparr>"

definition write_port :: port where
  "write_port h r = (if r = STATREG then STATREG_TXD OR flag_if (programmed h \<le> length (written FIFOREG h)) STATREG_DONE else 0)"

definition read_port :: port where
  "read_port h r = (if r = STATREG then STATREG_DONE OR flag_if (length (fetched FIFOREG h) < programmed h) STATREG_RXD
     else if r = FIFOREG then 0x41 + of_nat (length (fetched FIFOREG h)) else 0)"

lemma write_port_ok: "write_only write_port" "ends_after write_port"
  by (auto simp: write_only_def ends_after_def write_port_def flag_if_def has_def i2c_bits split: if_splits)

lemma read_port_ok: "drains read_port"
  by (auto simp: drains_def read_port_def flag_if_def has_def i2c_bits i2c_regs)

definition result_caller :: "i2c_sys result \<Rightarrow> i2c_caller option" where
  "result_caller r = (case r of Inl _ \<Rightarrow> None | Inr sy \<Rightarrow> Some (sy_caller sy))"

lemma sample_send_returns:
  "result_caller (bcm2711_send write_port [Ev_wait, Ev_interrupt] [0xA5, 0x3C, 0x99] 2 sample_i2c []) = Some (Returned I2C_STATUS_DONE)"
  by code_simp

lemma sample_recv_returns:
  "result_caller (bcm2711_recv read_port [Ev_wait, Ev_interrupt] [0, 0, 0x99] 2 sample_i2c []) = Some (Returned I2C_STATUS_DONE)"
  by code_simp

lemma sample_i2c_ok:
  "\<not> has (slave_addr sample_i2c) INVALID_ADDR" "speed sample_i2c \<noteq> 0" "slave_addr_fmt sample_i2c = I2C_ADDRFMT_7BIT"
  by (simp_all add: sample_i2c_def zero_i2c_def INVALID_ADDR_def has_def)

theorem i2c_send_stream_witness:
  "\<exists>sy. bcm2711_send write_port [Ev_wait, Ev_interrupt] [0xA5, 0x3C, 0x99] 2 sample_i2c [] = Inr sy
     \<and> sy_caller sy = Returned I2C_STATUS_DONE \<and> written FIFOREG (sy_hist sy) = [0xA5, 0x3C]"
  using i2c_send_stream [of 2 "[0xA5, 0x3C, 0x99]" sample_i2c write_port "[Ev_wait, Ev_interrupt]"]
    sample_send_returns sample_i2c_ok write_port_ok
  by (auto simp: result_caller_def)

theorem i2c_recv_stream_witness:
  "\<exists>sy. bcm2711_recv read_port [Ev_wait, Ev_interrupt] [0, 0, 0x99] 2 sample_i2c [] = Inr sy
     \<and> sy_caller sy = Returned I2C_STATUS_DONE \<and> length (fetched FIFOREG (sy_hist sy)) = 2
     \<and> drop 2 (buf (sy_dev sy)) = [0x99]"
  using i2c_recv_stream [of 2 "[0, 0, 0x99]" sample_i2c read_port "[Ev_wait, Ev_interrupt]"]
    sample_recv_returns sample_i2c_ok read_port_ok
  by (auto simp: result_caller_def Let_def)

section \<open>The condition variable\<close>

text \<open>While the transfer is over for the interrupt thread, interrupts change nothing.\<close>

definition lost_states :: "i2c_event list \<Rightarrow> i2c_status \<Rightarrow> i2c_caller set" where
  "lost_states evs s = {Starting, Waiting, Returned I2C_STATUS_ABORT, Returned I2C_STATUS_ERROR}
     \<union> (if Ev_wakeup \<in> set evs then {Returned s} else {})"

lemma idle_run:
  assumes "txrx (sy_dev sy) = BCM2711_I2C_IDLE" and "sy_caller sy \<in> lost_states all (txrx_status (sy_dev sy))" and "set evs \<subseteq> set all"
  shows "\<exists>c \<in> lost_states all (txrx_status (sy_dev sy)). i2c_run p evs sy = Inr (sy\<lparr>sy_caller := c\<rparr>)"
  using assms
proof (induction evs arbitrary: sy)
  case Nil
  then show ?case by (auto intro: bexI [of _ "sy_caller sy"])
next
  case (Cons ev evs)
  have "\<exists>c \<in> lost_states all (txrx_status (sy_dev sy)). i2c_step p ev sy = Inr (sy\<lparr>sy_caller := c\<rparr>)"
    using Cons.prems by (cases ev) (auto simp: i2c_step_def isr_pass_def lost_states_def)
  then obtain c where c: "c \<in> lost_states all (txrx_status (sy_dev sy))" "i2c_step p ev sy = Inr (sy\<lparr>sy_caller := c\<rparr>)" by blast
  then show ?case using Cons.IH [of "sy\<lparr>sy_caller := c\<rparr>"] Cons.prems(1,3) by simp
qed

text \<open>C28: The condition has no predicate: when the interrupt thread handles the end of the transfer (or
  an error) before the client has reached its wait, the signal is lost.  Whatever happens
  afterwards, the call returns its result only if a spurious wake-up happens to end the wait; without one it returns neither success nor
  NACK, and can only time out or fail in the wait.\<close>

theorem i2c_early_completion_lost:
  assumes "sy_caller sy = Starting" and "i2c_step p Ev_interrupt sy = Inr sy1"
    and "txrx (sy_dev sy1) = BCM2711_I2C_IDLE" and "i2c_run p evs sy1 = Inr sy2"
  shows "sy_caller sy2 \<in> {Starting, Waiting, Returned I2C_STATUS_ABORT, Returned I2C_STATUS_ERROR}
    \<or> Ev_wakeup \<in> set evs \<and> sy_caller sy2 = Returned (txrx_status (sy_dev sy1))"
proof -
  have "sy_caller sy1 = Starting" using assms(1,2) by (auto simp: i2c_step_def)
  then have "sy_caller sy1 \<in> lost_states evs (txrx_status (sy_dev sy1))" by (simp add: lost_states_def)
  from idle_run [OF assms(3) this order_refl, of p] assms(4) show ?thesis by (auto simp: lost_states_def split: if_splits)
qed

definition early_start :: i2c_sys where
  "early_start = \<lparr>sy_dev = start_state BCM2711_I2C_RX [0, 0] 2 sample_i2c, sy_hist = [Wr DLENREG 2], sy_caller = Starting\<rparr>"

definition caller_idle :: "i2c_sys result \<Rightarrow> (i2c_caller \<times> i2c_dir \<times> u8 list) option" where
  "caller_idle r = (case r of Inl _ \<Rightarrow> None | Inr sy \<Rightarrow> Some (sy_caller sy, txrx (sy_dev sy), buf (sy_dev sy)))"

lemma early_first: "caller_idle (i2c_step read_port Ev_interrupt early_start) = Some (Starting, BCM2711_I2C_IDLE, [0x41, 0x42])"
  by code_simp

theorem i2c_early_completion_lost_witness:
  "\<exists>sy1 sy2. i2c_step read_port Ev_interrupt early_start = Inr sy1 \<and> buf (sy_dev sy1) = [0x41, 0x42]
     \<and> i2c_run read_port [Ev_wait, Ev_interrupt, Ev_timeout] sy1 = Inr sy2
     \<and> sy_caller sy2 \<in> {Starting, Waiting, Returned I2C_STATUS_ABORT, Returned I2C_STATUS_ERROR}"
proof -
  let ?evs = "[Ev_wait, Ev_interrupt, Ev_timeout]"
  obtain sy1 where one: "i2c_step read_port Ev_interrupt early_start = Inr sy1" "sy_caller sy1 = Starting"
    "txrx (sy_dev sy1) = BCM2711_I2C_IDLE" "buf (sy_dev sy1) = [0x41, 0x42]"
    using early_first by (auto simp: caller_idle_def split: sum.splits)
  then have "sy_caller sy1 \<in> lost_states ?evs (txrx_status (sy_dev sy1))" by (simp add: lost_states_def)
  from idle_run [OF one(3) this order_refl, of read_port] obtain sy2 where run: "i2c_run read_port ?evs sy1 = Inr sy2" by blast
  have "sy_caller early_start = Starting" by (simp add: early_start_def)
  from i2c_early_completion_lost [OF this one(1,3) run] show ?thesis using one(1,4) run by auto
qed

text \<open>A spurious wake-up right after the start: the call returns success of an earlier transfer and has received nothing.\<close>

lemma i2c_wakeup_returns_old_result:
  "caller_idle (bcm2711_recv read_port [Ev_wait, Ev_wakeup] [0, 0] 2 sample_i2c []) = Some (Returned I2C_STATUS_DONE, BCM2711_I2C_RX, [0, 0])"
  by code_simp

text \<open>
  A call that timed out leaves the transfer running: a later interrupt still writes into the
  buffer, which the client has got back.
\<close>

definition late_port :: port where
  "late_port h r = (if r = STATREG then STATREG_RXR OR STATREG_RXD else if r = FIFOREG then 0x41 else 0)"

lemma i2c_timeout_leaves_buffer_open:
  "caller_idle (bcm2711_recv late_port [Ev_wait, Ev_timeout] [0, 0] 2 sample_i2c [])
     = Some (Returned I2C_STATUS_ABORT, BCM2711_I2C_RX, [0, 0])"
  "caller_idle (bcm2711_recv late_port [Ev_wait, Ev_timeout, Ev_interrupt] [0, 0] 2 sample_i2c [])
     = Some (Returned I2C_STATUS_ABORT, BCM2711_I2C_RX, [0x41, 0x41])"
  by code_simp+

section \<open>Clock and deadline\<close>

lemma core_div:
  assumes "7630 \<le> unat spd" and "unat spd \<le> 500000000"
  shows "unat (BCM2711_CORE_FREQ div spd) = 500000000 div unat spd" and "500000000 div unat spd \<le> 65535"
    and "0 < 500000000 div unat spd"
proof -
  show "unat (BCM2711_CORE_FREQ div spd) = 500000000 div unat spd"
    by (simp add: BCM2711_CORE_FREQ_def unat_div)
  have "500000000 div unat spd \<le> 500000000 div 7630" using assms(1) by (rule div_le_mono2 [rotated]) simp
  then show "500000000 div unat spd \<le> 65535" by simp
  show "0 < 500000000 div unat spd" using assms by (simp add: div_greater_zero_iff)
qed

lemma deadline_margin:
  assumes "0 < s" and "s \<le> (500000000 :: nat)"
  shows "1000000000 * n \<le> (1000000000 div s) * (n + 64) * 5 * s"
proof -
  have "1000000000 div s * s + 1000000000 mod s = 1000000000" by simp
  moreover have "1000000000 mod s < s" using assms by simp
  ultimately have "1000000000 \<le> 1000000000 div s * s * 5" using assms(2) by linarith
  then have "1000000000 * n \<le> 1000000000 div s * s * 5 * (n + 64)" by (rule mult_le_mono) simp
  then show ?thesis by (simp add: ac_simps)
qed

lemma deadline_fits:
  assumes "7630 \<le> s" and "l < (2 :: nat) ^ 32"
  shows "(1000000000 div s) * ((l + 1) * 9 + 64) * 5 < 2 ^ 63"
proof -
  have "1000000000 div s \<le> 1000000000 div 7630" using assms(1) by (rule div_le_mono2 [rotated]) simp
  then have "1000000000 div s \<le> 131061" by simp
  moreover have "(l + 1) * 9 + 64 \<le> 2 ^ 32 * 9 + 64" using assms(2) by simp
  ultimately have "(1000000000 div s) * ((l + 1) * 9 + 64) \<le> 131061 * (2 ^ 32 * 9 + 64)" by (rule mult_le_mono)
  then show ?thesis by simp
qed

lemma wait_deadline_nat:
  assumes "7630 \<le> unat spd" and "unat now < 2 ^ 63"
  shows "\<exists>t. wait_deadline spd len now = Inr t
    \<and> unat t = (1000000000 div unat spd) * ((unat len + 1) * 9 + 64) * 5 + unat now"
proof -
  let ?n = "(1000000000 div unat spd) * ((unat len + 1) * 9 + 64) * 5"
  have "?n < 2 ^ 63" using deadline_fits [OF assms(1), of "unat len"] unsigned_less [of len] by simp
  then have lt: "?n + unat now < 2 ^ LENGTH(64)" using assms(2) by simp
  have up: "unat (ucast x :: u64) = unat x" for x :: u32
    by (simp add: unsigned_ucast_eq take_bit_nat_eq_self_iff order_less_trans [OF unsigned_less])
  have len: "of_nat (unat len) = (ucast len :: u64)" by (simp flip: up)
  have cyc: "of_nat (1000000000 div unat spd) = (1000000000 div ucast spd :: u64)"
    by (simp add: word_arith_nat_div up)
  have "of_nat (?n + unat now) = (1000000000 div ucast spd) * ((ucast len + 1) * 9 + 64) * 5 + now"
    unfolding of_nat_add of_nat_mult len cyc by (simp add: algebra_simps)
  then show ?thesis
    using assms(1) of_nat_inverse [OF _ lt] by (auto simp: wait_deadline_def Let_def)
qed

lemma low_half:
  assumes "unat x < 2 ^ 16"
  shows "(ucast (ucast (x :: u32) :: u16) AND 0xFFFF :: u32) = x"
proof -
  have "(ucast (ucast x :: u16) AND mask 16 :: u32) = take_bit 16 x"
    by (rule bit_word_eqI) (auto simp: bit_simps)
  moreover have "take_bit 16 x = x"
    using assms by (simp add: word_eq_nat unsigned_take_bit_eq take_bit_nat_eq_self)
  ultimately show ?thesis by (simp add: mask_eq_exp_minus_1)
qed

lemma bus_speed_crash:
  assumes "spd = 0 \<or> unat spd > 500000000"
  shows "bcm2711_set_bus_speed p spd dev h = Inl Divide_by_zero"
proof (cases "spd = 0")
  case False
  then have "unat (BCM2711_CORE_FREQ div spd) = 0"
    using assms by (simp add: BCM2711_CORE_FREQ_def unat_div)
  then have "BCM2711_CORE_FREQ div spd = 0" by (simp only: unat_eq_0_iff)
  then show ?thesis by (simp add: bcm2711_set_bus_speed_def CLKTREG_BIT_MSK_def Let_def)
qed (simp add: bcm2711_set_bus_speed_def)

lemma bus_speed_rejected:
  assumes "0 < unat spd" and "unat spd < 7630"
  shows "bcm2711_set_bus_speed p spd dev h = Inr (Fail EINVAL, dev\<lparr>speed := spd\<rparr>, h)"
proof -
  have "500000000 div 7629 \<le> 500000000 div unat spd" using assms by (intro div_le_mono2) simp_all
  then have "CLKTREG_BIT_MSK < BCM2711_CORE_FREQ div spd"
    by (simp add: CLKTREG_BIT_MSK_def BCM2711_CORE_FREQ_def word_less_nat_alt unat_div)
  then show ?thesis using assms by (auto simp: bcm2711_set_bus_speed_def Let_def)
qed

lemma bus_speed_accepted:
  assumes "7630 \<le> unat spd" and "unat spd \<le> 500000000"
  shows "\<exists>d c e. bcm2711_set_bus_speed p spd dev h
              = Inr (Ok (), dev\<lparr>speed := spd, clk := c\<rparr>, h @ [Wr CLKDIVREG d, Rd DELAYREG e,
                      Wr DELAYREG ((e AND 0xFFFF0000) OR d div 4)])
      \<and> 0 < d \<and> d \<le> 0xFFFF \<and> unat c = 500000000 div unat d
      \<and> unat d * unat spd \<le> 500000000 \<and> 500000000 < (unat d + 1) * unat spd \<and> spd \<le> c"
proof -
  let ?d = "BCM2711_CORE_FREQ div spd" and ?n = "500000000 div unat spd"
  let ?e = "p (h @ [Wr CLKDIVREG ?d]) DELAYREG"
  note d = core_div [OF assms]
  have d0: "0 < ?d" "?d \<le> 0xFFFF" using d by (simp_all add: word_less_nat_alt word_le_nat_alt)
  have lo: "unat ?d * unat spd \<le> 500000000" using d(1) by simp
  have "500000000 < unat spd * ?n + unat spd"
    using assms(1) mod_less_divisor [of "unat spd" 500000000] div_mult_mod_eq [of 500000000 "unat spd"]
    by (simp only: ac_simps) linarith
  then have hi: "500000000 < (unat ?d + 1) * unat spd" using d(1) by (simp add: algebra_simps)
  have c: "unat (BCM2711_CORE_FREQ div ?d) = 500000000 div unat ?d"
    by (simp add: BCM2711_CORE_FREQ_def unat_div)
  then have ge: "spd \<le> BCM2711_CORE_FREQ div ?d"
    using lo d by (simp add: word_le_nat_alt less_eq_div_iff_mult_less_eq ac_simps)
  have "unat (?d div 4) < 2 ^ 16" using d0(2) by (simp add: unat_div word_le_nat_alt)
  then have "(ucast (ucast (?d div 4) :: u16) AND DELAYREG_REDL_BIT_MSK :: u32) = ?d div 4"
    unfolding DELAYREG_REDL_BIT_MSK_def by (rule low_half)
  moreover have "NOT DELAYREG_REDL_BIT_MSK = 0xFFFF0000" by (simp add: DELAYREG_REDL_BIT_MSK_def)
  moreover have "\<not> CLKTREG_BIT_MSK < ?d" "?d \<noteq> 0" "spd \<noteq> 0"
    using d0 assms by (auto simp: CLKTREG_BIT_MSK_def not_less)
  ultimately have "bcm2711_set_bus_speed p spd dev h
                = Inr (Ok (), dev\<lparr>speed := spd, clk := BCM2711_CORE_FREQ div ?d\<rparr>, h @ [Wr CLKDIVREG ?d, Rd DELAYREG ?e,
                        Wr DELAYREG ((?e AND 0xFFFF0000) OR ?d div 4)])"
    unfolding bcm2711_set_bus_speed_def Let_def in32_def out32_def by simp
  with d0 c lo hi ge show ?thesis by blast
qed

text \<open>C29: A bus speed is accepted exactly between 7630 Hz and the core frequency: zero and anything above
  divide by zero, anything below is rejected, though the device keeps the rejected speed.  For an
  accepted speed the divider written is the largest whose clock is not slower than the speed asked for, and
  fits its register; the clock kept is that of the divider, and the other half of the delay register is kept.
  The deadline of a transfer of \<open>len\<close> bytes at that speed does not overflow and leaves it at least
  \<open>9 * (len + 1)\<close> clock periods.\<close>

theorem i2c_bus_speed:
  assumes "unat now < 2 ^ 63"
  shows "case bcm2711_set_bus_speed p spd dev h of
      Inl e \<Rightarrow> e = Divide_by_zero \<and> (spd = 0 \<or> 500000000 < unat spd)
    | Inr (Fail e, dev', h') \<Rightarrow> e = EINVAL \<and> 0 < unat spd \<and> unat spd < 7630 \<and> dev' = dev\<lparr>speed := spd\<rparr> \<and> h' = h
    | Inr (Ok _, dev', h') \<Rightarrow>
        \<exists>d c e t. dev' = dev\<lparr>speed := spd, clk := c\<rparr>
          \<and> h' = h @ [Wr CLKDIVREG d, Rd DELAYREG e, Wr DELAYREG ((e AND 0xFFFF0000) OR d div 4)]
          \<and> 0 < d \<and> d \<le> 0xFFFF \<and> unat c = 500000000 div unat d
          \<and> unat d * unat spd \<le> 500000000 \<and> 500000000 < (unat d + 1) * unat spd \<and> spd \<le> c
          \<and> wait_deadline spd len now = Inr t
          \<and> 1000000000 * (9 * (unat len + 1)) \<le> (unat t - unat now) * unat spd"
proof -
  have "spd = 0 \<or> 0 < unat spd" by (simp add: unat_eq_0_iff flip: neq0_conv)
  then consider (crash) "spd = 0 \<or> 500000000 < unat spd" | (low) "0 < unat spd" "unat spd < 7630"
    | (good) "7630 \<le> unat spd" "unat spd \<le> 500000000" by linarith
  then show ?thesis
  proof cases
    case good
    obtain t where t: "wait_deadline spd len now = Inr t"
      "unat t = (1000000000 div unat spd) * ((unat len + 1) * 9 + 64) * 5 + unat now"
      using wait_deadline_nat [OF good(1) assms] by blast
    then have "1000000000 * (9 * (unat len + 1)) \<le> (unat t - unat now) * unat spd"
      using deadline_margin [of "unat spd" "9 * (unat len + 1)"] good by (simp add: ac_simps)
    then show ?thesis using bus_speed_accepted [OF good, of p dev h] t(1) by fastforce
  qed (simp_all add: bus_speed_crash bus_speed_rejected)
qed

lemma sample_speed: "map_sum id fst (bcm2711_set_bus_speed read_port 400000 sample_i2c []) = Inr (Ok ())"
  by code_simp

theorem i2c_bus_speed_witness:
  "\<exists>dev' h' d. bcm2711_set_bus_speed read_port 400000 sample_i2c [] = Inr (Ok (), dev', h')
    \<and> written CLKDIVREG h' = [d] \<and> unat d * 400000 \<le> 500000000 \<and> 500000000 < (unat d + 1) * 400000"
  using i2c_bus_speed [where now = 0 and p = read_port and spd = 400000 and dev = sample_i2c and h = "[]" and len = 16] sample_speed
  by (cases "bcm2711_set_bus_speed read_port 400000 sample_i2c []") (auto simp: i2c_regs)

end
