(* ===== verification/Spi.thy ===== *)
theory Spi
  imports Port Dma
begin

text \<open>
  The SPI master driver (\<open>spi/bcm2711\<close>): configuration of a device, transfers by interrupt
  and by DMA.  The client's buffer is the list \<open>sp_pbuf\<close>; bytes are read from and written to the same
  buffer.  The semaphore the driver waits on is posted by the event of an interrupt; what its
  waits return is a list of results, and a wait that has not returned yet gives \<open>None\<close>.  The values of
  the mode bits come from \<open>hw/io-spi.h\<close>, which is not part of the repository; they are the fields
  of \<open>spi_abi\<close>.
\<close>

section \<open>Constants\<close>

definition BCM2711_SPI_CS_MAX :: u32 where "BCM2711_SPI_CS_MAX = 2"
definition BCM2711_SPI_CS :: nat where "BCM2711_SPI_CS = 0x0"
definition BCM2711_SPI_FIFO :: nat where "BCM2711_SPI_FIFO = 0x4"
definition BCM2711_SPI_CLK :: nat where "BCM2711_SPI_CLK = 0x8"
definition BCM2711_SPI_DLEN :: nat where "BCM2711_SPI_DLEN = 0xC"
definition BCM2711_SPI_DC :: nat where "BCM2711_SPI_DC = 0x14"

text \<open>The fields of the control and status register, shifted into place.\<close>

definition CS_CPHA :: u32 where "CS_CPHA = push_bit 2 1"
definition CS_CPOL :: u32 where "CS_CPOL = push_bit 3 1"
definition CS_CLEAR :: u32 where "CS_CLEAR = push_bit 4 (1 OR 2)"
definition CS_CSPOL :: u32 where "CS_CSPOL = push_bit 6 1"
definition CS_TA :: u32 where "CS_TA = push_bit 7 1"
definition CS_DMAEN :: u32 where "CS_DMAEN = push_bit 8 1"
definition CS_INTD :: u32 where "CS_INTD = push_bit 9 1"
definition CS_INTR :: u32 where "CS_INTR = push_bit 10 1"
definition CS_ADCS :: u32 where "CS_ADCS = push_bit 11 1"
definition CS_DONE :: u32 where "CS_DONE = push_bit 16 1"
definition CS_RXD :: u32 where "CS_RXD = push_bit 17 1"
definition CS_TXD :: u32 where "CS_TXD = push_bit 18 1"

definition SPI_DC_TDREQ :: nat where "SPI_DC_TDREQ = 0"
definition SPI_DC_TPANIC :: nat where "SPI_DC_TPANIC = 8"
definition SPI_DC_RDREQ :: nat where "SPI_DC_RDREQ = 16"
definition SPI_DC_RPANIC :: nat where "SPI_DC_RPANIC = 24"

definition BCM2711_SPI_MAX_CDIV :: u32 where "BCM2711_SPI_MAX_CDIV = 65536"
definition BCM2711_SPI_MIN_CDIV :: u32 where "BCM2711_SPI_MIN_CDIV = 2"
definition BCM2711_SPI_PRIORITY :: u64 where "BCM2711_SPI_PRIORITY = 21"
definition BCM2711_SPI_FIFOLEN :: u32 where "BCM2711_SPI_FIFOLEN = 16"

lemmas spi_regs = BCM2711_SPI_CS_def BCM2711_SPI_FIFO_def BCM2711_SPI_CLK_def BCM2711_SPI_DLEN_def BCM2711_SPI_DC_def

lemmas spi_bits = CS_CPHA_def CS_CPOL_def CS_CLEAR_def CS_CSPOL_def CS_TA_def CS_DMAEN_def CS_INTD_def CS_INTR_def
  CS_ADCS_def CS_DONE_def CS_RXD_def CS_TXD_def

section \<open>State\<close>

record spi_abi =
  mode_width_mask :: u32
  mode_width_8 :: u32
  mode_width_32 :: u32
  mode_cspol_high :: u32
  mode_cpol_1 :: u32
  mode_cpha_1 :: u32

text \<open>\<open>spi_dev_t\<close>: the configuration, the current rate and the control word kept for the device.\<close>

record spi_dev =
  sd_mode :: u32
  sd_clock_rate :: u32
  sd_current_clkrate :: u32
  sd_devno :: u32
  sd_devctrl :: u32

text \<open>
  \<open>bcm2711_spi_t\<close>, \<open>bcm2711_dma_t\<close> and the bus number; the channel handles are the channels
  of the DMA library themselves.
\<close>

record spi =
  sp_pbase :: u64
  sp_vbase :: "u64 option"
  sp_irq :: u32
  sp_iid :: int
  sp_busno :: u32
  sp_input_clk :: u64
  sp_pbuf :: "u8 list"
  sp_tnbytes :: u32
  sp_rnbytes :: u32
  sp_xlen :: u32
  sp_tcnt :: u32
  sp_rcnt :: u32
  sp_dwidth :: u32
  sp_dtime :: u32
  sp_dma_active :: bool
  sp_rx_ch :: "dma_channel option"
  sp_tx_ch :: "dma_channel option"
  sp_dmarx_dreq :: u32
  sp_dmatx_dreq :: u32
  sp_rpanic :: u32
  sp_tpanic :: u32
  sp_rdreq :: u32
  sp_tdreq :: u32

section \<open>Configuration\<close>

text \<open>The divider for a rate, and the value for the clock register.\<close>

definition spi_divisor :: "u64 \<Rightarrow> u32 \<Rightarrow> u32" where
  "spi_divisor input rate =
     (let divisor = (ucast ((input + ucast (rate div 2)) div ucast rate) :: u32)
      in if divisor < BCM2711_SPI_MIN_CDIV then BCM2711_SPI_MIN_CDIV
         else if divisor \<ge> BCM2711_SPI_MAX_CDIV then BCM2711_SPI_MAX_CDIV
         else divisor + divisor mod 2)"

definition cfg_clock :: "spi \<Rightarrow> spi_dev \<Rightarrow> history \<Rightarrow> (spi_dev \<times> history) result" where
  "cfg_clock spi d h =
     (if sd_current_clkrate d = sd_clock_rate d then Inr (d, h)
      else if sd_clock_rate d = 0 then Inl Divide_by_zero
      else
        let divisor = spi_divisor (sp_input_clk spi) (sd_clock_rate d);
            rate = (ucast (sp_input_clk spi div ucast divisor) :: u32)
        in if rate = 0 then Inl Divide_by_zero
           else
             let val = (ucast (sp_input_clk spi div ucast rate) :: u32);
                 val = (if val \<ge> BCM2711_SPI_MAX_CDIV then 0 else val);
                 cdiv = (ucast val :: u16)
             in Inr (d\<lparr>sd_clock_rate := rate, sd_current_clkrate := rate\<rparr>,
                     Port.out32 BCM2711_SPI_CLK (ucast cdiv) h))"

definition bcm2711_cfg :: "spi_abi \<Rightarrow> spi \<Rightarrow> spi_dev \<Rightarrow> history \<Rightarrow> (unit ret \<times> spi_dev \<times> history) result" where
  "bcm2711_cfg ab spi d h =
     (if sd_devno d > BCM2711_SPI_CS_MAX then Inr (Fail EINVAL, d, h)
      else if sd_mode d AND mode_width_mask ab \<noteq> mode_width_32 ab \<and> sd_mode d AND mode_width_mask ab \<noteq> mode_width_8 ab
      then Inr (Fail EINVAL, d, h)
      else
        let devctrl = flag_if (has (sd_mode d) (mode_cspol_high ab)) CS_CSPOL
              OR flag_if (has (sd_mode d) (mode_cpol_1 ab)) CS_CPOL
              OR flag_if (has (sd_mode d) (mode_cpha_1 ab)) CS_CPHA
        in bind_result (cfg_clock spi d h) (\<lambda>(d, h).
             Inr (Ok (), d\<lparr>sd_devctrl := devctrl OR sd_devno d\<rparr>, h)))"

text \<open>The new configuration consists of a mode and a clock rate.\<close>

definition bcm2711spi_setcfg ::
    "spi_abi \<Rightarrow> spi \<Rightarrow> u32 \<Rightarrow> u32 \<Rightarrow> spi_dev \<Rightarrow> history \<Rightarrow> (unit ret \<times> spi_dev \<times> history) result" where
  "bcm2711spi_setcfg ab spi mode rate d h =
     bcm2711_cfg ab spi (d\<lparr>sd_mode := mode, sd_clock_rate := rate\<rparr>) h"

section \<open>Transfers by interrupt\<close>

text \<open>
  The three loops that move data.  The number of rounds is bounded by the first argument;
  \<open>Diverges\<close> would be a loop that goes on after that.
\<close>

definition send_byte :: "spi \<Rightarrow> history \<Rightarrow> (spi \<times> history) result" where
  "send_byte spi h =
     (if unat (sp_tcnt spi) \<ge> length (sp_pbuf spi) then Inl Out_of_bounds
      else Inr (spi\<lparr>sp_tcnt := sp_tcnt spi + sp_dwidth spi\<rparr>,
                Port.out32 BCM2711_SPI_FIFO (ucast (sp_pbuf spi ! unat (sp_tcnt spi))) h))"

primrec fill_fifo :: "nat \<Rightarrow> port \<Rightarrow> spi \<Rightarrow> history \<Rightarrow> (spi \<times> history) result" where
  "fill_fifo 0 p spi h = Inl Diverges"
| "fill_fifo (Suc n) p spi h =
     (if sp_tcnt spi < sp_tnbytes spi then
        let (cs, h) = Port.in32 p BCM2711_SPI_CS h
        in if has cs CS_TXD then bind_result (send_byte spi h) (\<lambda>(spi, h). fill_fifo n p spi h)
           else Inr (spi, h)
      else Inr (spi, h))"

primrec drain_fifo :: "nat \<Rightarrow> port \<Rightarrow> spi \<Rightarrow> history \<Rightarrow> (spi \<times> history) result" where
  "drain_fifo 0 p spi h = Inl Diverges"
| "drain_fifo (Suc n) p spi h =
     (let (cs, h) = Port.in32 p BCM2711_SPI_CS h
      in if has cs CS_RXD \<and> sp_rcnt spi < sp_rnbytes spi then
           let (data, h) = Port.in32 p BCM2711_SPI_FIFO h
           in if unat (sp_rcnt spi) \<ge> length (sp_pbuf spi) then Inl Out_of_bounds
              else drain_fifo n p (spi\<lparr>sp_pbuf := (sp_pbuf spi)[unat (sp_rcnt spi) := ucast data],
                                       sp_rcnt := sp_rcnt spi + sp_dwidth spi\<rparr>) h
         else Inr (spi, h))"

primrec prefill :: "nat \<Rightarrow> spi \<Rightarrow> history \<Rightarrow> (spi \<times> history) result" where
  "prefill 0 spi h = Inl Diverges"
| "prefill (Suc n) spi h =
     (if sp_tcnt spi < sp_tnbytes spi \<and> sp_tcnt spi < BCM2711_SPI_FIFOLEN
      then bind_result (send_byte spi h) (\<lambda>(spi, h). prefill n spi h)
      else Inr (spi, h))"

text \<open>The result says whether the transfer is complete.\<close>

definition process_interrupts :: "port \<Rightarrow> spi \<Rightarrow> history \<Rightarrow> (bool \<times> spi \<times> history) result" where
  "process_interrupts p spi h =
     (let (cs, h) = Port.in32 p BCM2711_SPI_CS h
      in if has cs CS_DONE then
           bind_result (fill_fifo (Suc (unat (sp_tnbytes spi))) p spi h) (\<lambda>(spi, h).
           bind_result (drain_fifo (Suc (unat (sp_rnbytes spi))) p spi h) (\<lambda>(spi, h).
             if sp_rcnt spi < sp_rnbytes spi then Inr (False, spi, h)
             else
               let (cs, h) = Port.in32 p BCM2711_SPI_CS h
               in Inr (True, spi, Port.out32 BCM2711_SPI_CS (cs AND NOT CS_TA) h)))
         else Inr (False, spi, h))"

text \<open>What a wait for the semaphore returns: success, or an error with its \<open>errno\<close>.\<close>

datatype sem_result = Posted | Sem_error errno

text \<open>\<open>bcm2711spi_wait\<close> without DMA.\<close>

fun wait_interrupts :: "port \<Rightarrow> sem_result list \<Rightarrow> spi \<Rightarrow> history \<Rightarrow> (unit ret option \<times> spi \<times> history) result" where
  "wait_interrupts p [] spi h = Inr (None, spi, h)"
| "wait_interrupts p (Sem_error e # evs) spi h = Inr (Some (Fail e), spi, h)"
| "wait_interrupts p (Posted # evs) spi h =
     bind_result (process_interrupts p spi h) (\<lambda>(done, spi, h).
       if done then Inr (Some (Ok ()), spi, h) else wait_interrupts p evs spi h)"

text \<open>The time a wait gives the transfer, in nanoseconds: three 32-bit products, then one of 64 bits.\<close>

definition wait_ns :: "u32 \<Rightarrow> u32 \<Rightarrow> u64" where
  "wait_ns dtime len = ucast (dtime * len * 50) * 1000"

text \<open>The lengths, counters and expected time of both kinds of transfer.\<close>

definition set_lengths :: "u32 \<Rightarrow> u32 \<Rightarrow> spi \<Rightarrow> spi" where
  "set_lengths tn rn spi =
     (let t = (if tn = 0 then rn else tn);
          r = (if tn = 0 then rn else if rn = 0 then tn else rn)
      in spi\<lparr>sp_tnbytes := t, sp_rnbytes := r, sp_xlen := max t r\<rparr>)"

definition transfer_time :: "u32 \<Rightarrow> u32 \<Rightarrow> u32 result" where
  "transfer_time xlen rate =
     (if rate = 0 then Inl Divide_by_zero
      else let t = xlen * 1000 * 1000 div rate in Inr (if t = 0 then 1 else t))"

definition clear_fifos :: "port \<Rightarrow> history \<Rightarrow> history" where
  "clear_fifos p h =
     (let h = Port.out32 BCM2711_SPI_CS 0 h;
          (cs, h) = Port.in32 p BCM2711_SPI_CS h
      in Port.out32 BCM2711_SPI_CS (cs OR CS_CLEAR) h)"

definition bcm2711spi_xfer :: "port \<Rightarrow> sem_result list \<Rightarrow> spi_dev \<Rightarrow> u8 list \<Rightarrow> u32 \<Rightarrow> u32 \<Rightarrow> spi \<Rightarrow> history
    \<Rightarrow> (unit ret option \<times> spi \<times> history) result" where
  "bcm2711spi_xfer p evs d b tn rn spi h =
     (let spi = set_lengths tn rn (spi\<lparr>sp_dma_active := False\<rparr>);
          spi = spi\<lparr>sp_dwidth := 1, sp_rcnt := 0, sp_tcnt := 0, sp_pbuf := b\<rparr>
      in bind_result (transfer_time (sp_xlen spi) (sd_clock_rate d)) (\<lambda>dtime.
         let spi = spi\<lparr>sp_dtime := dtime\<rparr>;
             h = clear_fifos p h;
             h = Port.out32 BCM2711_SPI_CS (CS_TA OR CS_INTD OR CS_INTR OR sd_devctrl d) h
         in bind_result (prefill (Suc (unat BCM2711_SPI_FIFOLEN)) spi h) (\<lambda>(spi, h).
            bind_result (wait_interrupts p evs spi h) (\<lambda>(status, spi, h).
              case status of
                None \<Rightarrow> Inr (None, spi, h)
              | Some r \<Rightarrow>
                  let (cs, h) = Port.in32 p BCM2711_SPI_CS h
                  in Inr (Some r, spi, Port.out32 BCM2711_SPI_CS (cs AND NOT CS_TA AND NOT CS_INTD AND NOT CS_INTR) h)))))"

section \<open>Transfers by DMA\<close>

text \<open>The registers of the controller and those of the DMA engine.\<close>

record spi_io =
  io_hist :: history
  io_dma :: Dma.hw

definition DREQ_SPI0TX :: u32 where "DREQ_SPI0TX = 6"
definition DREQ_SPI0RX :: u32 where "DREQ_SPI0RX = 7"
definition DREQ_SPI1TX :: u32 where "DREQ_SPI1TX = 16"
definition DREQ_SPI1RX :: u32 where "DREQ_SPI1RX = 18"
definition DREQ_SPI4TX :: u32 where "DREQ_SPI4TX = 19"
definition DREQ_SPI4RX :: u32 where "DREQ_SPI4RX = 20"
definition DREQ_SPI5TX :: u32 where "DREQ_SPI5TX = 21"
definition DREQ_SPI5RX :: u32 where "DREQ_SPI5RX = 22"
definition DREQ_SPI6TX :: u32 where "DREQ_SPI6TX = 23"
definition DREQ_SPI6RX :: u32 where "DREQ_SPI6RX = 27"

definition get_dma_dreq :: "spi \<Rightarrow> spi" where
  "get_dma_dreq spi =
     (if sp_busno spi = 0 then spi\<lparr>sp_dmarx_dreq := DREQ_SPI0RX, sp_dmatx_dreq := DREQ_SPI0TX\<rparr>
      else if sp_busno spi = 1 then spi\<lparr>sp_dmarx_dreq := DREQ_SPI1RX, sp_dmatx_dreq := DREQ_SPI1TX\<rparr>
      else if sp_busno spi = 4 then spi\<lparr>sp_dmarx_dreq := DREQ_SPI4RX, sp_dmatx_dreq := DREQ_SPI4TX\<rparr>
      else if sp_busno spi = 5 then spi\<lparr>sp_dmarx_dreq := DREQ_SPI5RX, sp_dmatx_dreq := DREQ_SPI5TX\<rparr>
      else if sp_busno spi = 6 then spi\<lparr>sp_dmarx_dreq := DREQ_SPI6RX, sp_dmatx_dreq := DREQ_SPI6TX\<rparr>
      else spi)"

text \<open>The address of the FIFO, as a segment of the whole length; its \<open>vaddr\<close> is not set.\<close>

definition fifo_addr :: "spi \<Rightarrow> dma_addr" where
  "fifo_addr spi = \<lparr>da_vaddr = 0, da_paddr = sp_pbase spi + of_nat BCM2711_SPI_FIFO, da_len = sp_xlen spi\<rparr>"

definition tx_transfer :: "spi \<Rightarrow> dma_addr \<Rightarrow> dma_transfer" where
  "tx_transfer spi addr =
     \<lparr>src_addrs = [addr\<lparr>da_len := sp_tnbytes spi\<rparr>], dst_addrs = [fifo_addr spi],
      src_flags = DMA_ADDR_FLAG_MEMORY, dst_flags = DMA_ADDR_FLAG_DEVICE OR DMA_ADDR_FLAG_NO_INCREMENT,
      ti_unit_size = sp_dwidth spi, xfer_bytes = sp_tnbytes spi, mode_flags = 0, req_id = sp_dmatx_dreq spi\<rparr>"

definition rx_transfer :: "spi \<Rightarrow> dma_addr \<Rightarrow> dma_transfer" where
  "rx_transfer spi addr =
     \<lparr>src_addrs = [fifo_addr spi], dst_addrs = [addr\<lparr>da_len := sp_rnbytes spi\<rparr>],
      src_flags = DMA_ADDR_FLAG_DEVICE OR DMA_ADDR_FLAG_NO_INCREMENT, dst_flags = DMA_ADDR_FLAG_MEMORY,
      ti_unit_size = sp_dwidth spi, xfer_bytes = sp_rnbytes spi, mode_flags = 0, req_id = sp_dmarx_dreq spi\<rparr>"

text \<open>The handles are set by the initialisation; a call through a NULL handle is a null dereference.\<close>

definition handle :: "dma_channel option \<Rightarrow> dma_channel result" where
  "handle ch = (case ch of None \<Rightarrow> Inl Null_dereference | Some c \<Rightarrow> Inr c)"

definition bcm2711_setup_dma :: "dma_os \<Rightarrow> dma_addr \<Rightarrow> spi \<Rightarrow> (unit ret \<times> dma_addr \<times> spi) result" where
  "bcm2711_setup_dma os addr spi =
     (let spi = get_dma_dreq spi;
          tx = tx_transfer spi addr;
          addr = addr\<lparr>da_len := sp_tnbytes spi\<rparr>
      in bind_result (handle (sp_tx_ch spi)) (\<lambda>c.
         bind_result (dma_setup_xfer os c (Some tx)) (\<lambda>(r, c).
           let spi = spi\<lparr>sp_tx_ch := Some c\<rparr> in
           case r of
             Fail e \<Rightarrow> Inr (Fail e, addr, spi)
           | Ok _ \<Rightarrow>
               let rx = rx_transfer spi addr;
                   addr = addr\<lparr>da_len := sp_rnbytes spi\<rparr>
               in bind_result (handle (sp_rx_ch spi)) (\<lambda>c.
                  bind_result (dma_setup_xfer os c (Some rx)) (\<lambda>(r, c).
                    Inr (r, addr, spi\<lparr>sp_rx_ch := Some c\<rparr>))))))"

text \<open>The DMA branch of \<open>bcm2711spi_wait\<close>, for the result of its one wait.\<close>

definition wait_dma :: "device \<Rightarrow> sem_result \<Rightarrow> spi \<Rightarrow> Dma.hw \<Rightarrow> (unit ret \<times> spi \<times> Dma.hw) result" where
  "wait_dma dev ev spi g =
     bind_result (handle (sp_rx_ch spi)) (\<lambda>rx.
     bind_result (handle (sp_tx_ch spi)) (\<lambda>tx.
       case ev of
         Sem_error e \<Rightarrow>
           let (_, rx, g) = dma_xfer_abort dev rx g;
               (_, tx, g) = dma_xfer_abort dev tx g
           in Inr (Fail e, spi\<lparr>sp_rx_ch := Some rx, sp_tx_ch := Some tx\<rparr>, g)
       | Posted \<Rightarrow>
           let (left, g) = dma_bytes_left dev rx g;
               (r1, rx, g) = xfer_complete dev rx g;
               (r2, tx, g) = xfer_complete dev tx g
           in Inr (if r1 = Ok () \<and> r2 = Ok () then Ok () else Fail EIO,
                   spi\<lparr>sp_rcnt := sp_xlen spi - left, sp_rx_ch := Some rx, sp_tx_ch := Some tx\<rparr>, g)))"

definition start_channel :: "dma_channel option \<Rightarrow> Dma.hw \<Rightarrow> (unit ret \<times> dma_channel option \<times> Dma.hw) result" where
  "start_channel ch g = bind_result (handle ch) (\<lambda>c. case dma_start c g of (r, c, g) \<Rightarrow> Inr (r, Some c, g))"

definition dc_value :: "spi \<Rightarrow> u32" where
  "dc_value spi = push_bit SPI_DC_RPANIC (sp_rpanic spi) OR push_bit SPI_DC_RDREQ (sp_rdreq spi)
     OR push_bit SPI_DC_TPANIC (sp_tpanic spi) OR push_bit SPI_DC_TDREQ (sp_tdreq spi)"

text \<open>Starting both channels and the controller, then waiting; \<open>None\<close> for a wait that has not returned.\<close>

definition run_dma :: "device \<Rightarrow> sem_result option \<Rightarrow> spi_dev \<Rightarrow> dma_addr \<Rightarrow> spi \<Rightarrow> spi_io
    \<Rightarrow> (unit ret option \<times> spi \<times> spi_dev \<times> dma_addr \<times> spi_io) result" where
  "run_dma dev ev d addr spi io =
     bind_result (start_channel (sp_rx_ch spi) (io_dma io)) (\<lambda>(r, ch, g).
       let spi = spi\<lparr>sp_rx_ch := ch\<rparr>; io = io\<lparr>io_dma := g\<rparr> in
       case r of
         Fail e \<Rightarrow> Inr (Some (Fail e), spi, d, addr, io)
       | Ok _ \<Rightarrow>
           bind_result (start_channel (sp_tx_ch spi) g) (\<lambda>(r, ch, g).
             let spi = spi\<lparr>sp_tx_ch := ch\<rparr>; io = io\<lparr>io_dma := g\<rparr> in
             case r of
               Fail e \<Rightarrow> Inr (Some (Fail e), spi, d, addr, io)
             | Ok _ \<Rightarrow>
                 let d = d\<lparr>sd_devctrl := sd_devctrl d OR (CS_DMAEN OR CS_TA OR CS_ADCS)\<rparr>;
                     io = io\<lparr>io_hist := Port.out32 BCM2711_SPI_CS (sd_devctrl d) (io_hist io)\<rparr>
                 in case ev of
                      None \<Rightarrow> Inr (None, spi, d, addr, io)
                    | Some ev \<Rightarrow> bind_result (wait_dma dev ev spi g) (\<lambda>(r, spi, g).
                        Inr (Some r, spi, d, addr, io\<lparr>io_dma := g\<rparr>))))"

text \<open>
  \<open>b\<close> is the memory at \<open>addr->vaddr\<close>, which the transfer by interrupt uses when the word width
  is 8 bits.
\<close>

definition bcm2711spi_dmaxfer :: "spi_abi \<Rightarrow> dma_os \<Rightarrow> device \<Rightarrow> port \<Rightarrow> sem_result list \<Rightarrow> spi_dev \<Rightarrow> dma_addr
    \<Rightarrow> u8 list \<Rightarrow> u32 \<Rightarrow> u32 \<Rightarrow> spi \<Rightarrow> spi_io \<Rightarrow> (unit ret option \<times> spi \<times> spi_dev \<times> dma_addr \<times> spi_io) result" where
  "bcm2711spi_dmaxfer ab os dev p evs d addr b tn rn spi io =
     (let spi = spi\<lparr>sp_dma_active := True, sp_dwidth := drop_bit 3 (sd_mode d AND mode_width_mask ab)\<rparr>
      in if sp_dwidth spi = 1 then
           bind_result (bcm2711spi_xfer p evs d b tn rn spi (io_hist io)) (\<lambda>(r, spi, h).
             Inr (r, spi, d, addr, io\<lparr>io_hist := h\<rparr>))
         else
           let spi = set_lengths tn rn spi
           in if sp_dwidth spi \<noteq> 4 \<or> sp_xlen spi mod sp_dwidth spi \<noteq> 0
              then Inr (Some (Fail EINVAL), spi, d, addr, io)
              else
                bind_result (transfer_time (sp_xlen spi) (sd_clock_rate d)) (\<lambda>dtime.
                  let spi = spi\<lparr>sp_rcnt := 0, sp_dtime := dtime\<rparr>;
                      h = clear_fifos p (io_hist io);
                      h = Port.out32 BCM2711_SPI_DLEN (sp_xlen spi) h;
                      h = Port.out32 BCM2711_SPI_DC (dc_value spi) h;
                      io = io\<lparr>io_hist := h\<rparr>
                  in bind_result (bcm2711_setup_dma os addr spi) (\<lambda>(r, addr, spi).
                       case r of
                         Fail e \<Rightarrow> Inr (Some (Fail e), spi, d, addr, io)
                       | Ok _ \<Rightarrow> run_dma dev (case evs of [] \<Rightarrow> None | ev # _ \<Rightarrow> Some ev) d addr spi io)))"

section \<open>Initialisation and clean-up\<close>

text \<open>The options as \<open>getsubopt\<close> and \<open>strtoul\<close> deliver them; \<open>Spi_bad\<close> is an unknown option.\<close>

datatype spi_opt = Spi_rpanic u32 | Spi_tpanic u32 | Spi_bad

fun process_args :: "spi_opt list \<Rightarrow> spi \<Rightarrow> unit ret \<times> spi" where
  "process_args [] spi = (Ok (), spi)"
| "process_args (Spi_rpanic v # os) spi =
     (if v > 0 \<and> v < 64 then process_args os (spi\<lparr>sp_rpanic := v\<rparr>) else (Fail EINVAL, spi))"
| "process_args (Spi_tpanic v # os) spi =
     (if v > 0 \<and> v < 64 then process_args os (spi\<lparr>sp_tpanic := v\<rparr>) else (Fail EINVAL, spi))"
| "process_args (Spi_bad # os) spi = (Fail EINVAL, spi)"

text \<open>\<open>bcm2711_fini_dma\<close>; \<open>vb\<close> is the register base of the DMA library.\<close>

definition bcm2711_fini_dma :: "device \<Rightarrow> u64 \<Rightarrow> spi \<Rightarrow> dma_proc \<Rightarrow> Dma.hw \<Rightarrow> (dma_proc \<times> Dma.hw) result" where
  "bcm2711_fini_dma dev vb spi pr g =
     (case (sp_rx_ch spi, sp_tx_ch spi) of
        (Some rx, Some tx) \<Rightarrow>
          let g = dma_channel_release dev vb rx g;
              g = dma_channel_release dev vb tx g
          in bind_result (dma_fini pr) (\<lambda>pr. Inr (pr, g))
      | _ \<Rightarrow> Inr (pr, g))"

text \<open>
  \<open>bcm2711_init_dma\<close>: \<open>os1\<close> and \<open>os2\<close> are the answers of the operating system to the two
  attachments, \<open>opts\<close> is \<open>bus->dma_attach_opts\<close>.  When the second one fails the handle of the first,
  already released, stays in the structure.
\<close>

definition bcm2711_init_dma :: "init_os \<Rightarrow> dma_os \<Rightarrow> dma_os \<Rightarrow> device \<Rightarrow> u64 \<Rightarrow> u32 \<Rightarrow> dma_opt list option \<Rightarrow> spi \<Rightarrow> dma_proc
    \<Rightarrow> Dma.hw \<Rightarrow> (unit ret \<times> spi \<times> dma_proc \<times> Dma.hw) result" where
  "bcm2711_init_dma ios os1 os2 dev vb nch opts spi pr g =
     (let flags = DMA_ATTACH_ANY_CHANNEL OR DMA_ATTACH_EVENT_ON_COMPLETE;
          spi = spi\<lparr>sp_rx_ch := None, sp_tx_ch := None\<rparr>
      in bind_result (dma_init ios pr) (\<lambda>(ok, _, pr).
           if \<not> ok then Inr (Fail Errno_of_call, spi, pr, g)
           else
             case dma_channel_attach os1 dev vb nch opts True (Some 0) BCM2711_SPI_PRIORITY flags g of
               (Fail e, g) \<Rightarrow> bind_result (dma_fini pr) (\<lambda>pr. Inr (Fail e, spi, pr, g))
             | (Ok rx, g) \<Rightarrow>
                 let spi = spi\<lparr>sp_rx_ch := Some rx\<rparr> in
                 case dma_channel_attach os2 dev vb nch opts False (Some 0) BCM2711_SPI_PRIORITY flags g of
                   (Fail e, g) \<Rightarrow>
                     let g = dma_channel_release dev vb rx g
                     in bind_result (dma_fini pr) (\<lambda>pr. Inr (Fail e, spi, pr, g))
                 | (Ok tx, g) \<Rightarrow> Inr (Ok (), spi\<lparr>sp_tx_ch := Some tx\<rparr>, pr, g)))"

definition bcm2711_dma_freebuf :: "device \<Rightarrow> dma_addr \<Rightarrow> spi \<Rightarrow> Dma.hw \<Rightarrow> (unit ret \<times> dma_addr \<times> spi \<times> Dma.hw) result" where
  "bcm2711_dma_freebuf dev addr spi g =
     (case sp_rx_ch spi of
        None \<Rightarrow> Inr (Fail EINVAL, addr, spi, g)
      | Some rx \<Rightarrow>
          let (_, rx, g) = dma_xfer_abort dev rx g
          in bind_result (handle (sp_tx_ch spi)) (\<lambda>tx.
             let (_, tx, g) = dma_xfer_abort dev tx g;
                 (addr, g) = dma_free_buffer addr g
             in Inr (Ok (), addr, spi\<lparr>sp_rx_ch := Some rx, sp_tx_ch := Some tx\<rparr>, g)))"

definition bcm2711_dma_allocbuf :: "dma_os \<Rightarrow> u32 \<Rightarrow> dma_addr \<Rightarrow> spi \<Rightarrow> unit ret \<times> dma_addr" where
  "bcm2711_dma_allocbuf os len addr spi = dma_alloc_buffer os (sp_rx_ch spi) len addr"

text \<open>The configuration of all devices of the bus in \<open>init_device\<close>, up to the first failure.\<close>

fun cfg_devices :: "spi_abi \<Rightarrow> spi \<Rightarrow> spi_dev list \<Rightarrow> history \<Rightarrow> (unit ret \<times> spi_dev list \<times> history) result" where
  "cfg_devices ab spi [] h = Inr (Ok (), [], h)"
| "cfg_devices ab spi (d # ds) h =
     bind_result (bcm2711_cfg ab spi d h) (\<lambda>(r, d, h).
       case r of
         Fail e \<Rightarrow> Inr (Fail e, d # ds, h)
       | Ok _ \<Rightarrow> bind_result (cfg_devices ab spi ds h) (\<lambda>(r, ds, h). Inr (r, d # ds, h)))"

text \<open>
  \<open>init_device\<close>: \<open>mapped\<close> is the answer of \<open>mmap\<close>, \<open>intr_id\<close> that of \<open>InterruptAttachEvent\<close>.  The result of
  \<open>bcm2711_init_dma\<close> is overwritten by that of \<open>bcm2711_attach_intr\<close>.
\<close>

definition bcm2711_attach_intr :: "int \<Rightarrow> spi \<Rightarrow> unit ret \<times> spi" where
  "bcm2711_attach_intr intr_id spi =
     (if intr_id = - 1 then Fail Errno_of_call else Ok (), spi\<lparr>sp_iid := intr_id\<rparr>)"

definition init_device :: "spi_abi \<Rightarrow> init_os \<Rightarrow> dma_os \<Rightarrow> dma_os \<Rightarrow> device \<Rightarrow> u64 \<Rightarrow> u32 \<Rightarrow> dma_opt list option \<Rightarrow> port
    \<Rightarrow> u64 option \<Rightarrow> int \<Rightarrow> spi_dev list \<Rightarrow> spi \<Rightarrow> dma_proc \<Rightarrow> spi_io
    \<Rightarrow> (unit ret \<times> spi_dev list \<times> spi \<times> dma_proc \<times> spi_io) result" where
  "init_device ab ios os1 os2 dev vb nch opts p mapped intr_id ds spi pr io =
     (case mapped of
        None \<Rightarrow> Inr (Fail Errno_of_call, ds, spi, pr, io)
      | Some base \<Rightarrow>
          let spi = spi\<lparr>sp_vbase := Some base\<rparr>
          in bind_result (cfg_devices ab spi ds (clear_fifos p (io_hist io))) (\<lambda>(r, ds, h).
               let io = io\<lparr>io_hist := h\<rparr> in
               case r of
                 Fail e \<Rightarrow> Inr (Fail e, ds, spi, pr, io)
               | Ok _ \<Rightarrow>
                   bind_result (bcm2711_init_dma ios os1 os2 dev vb nch opts spi pr (io_dma io)) (\<lambda>(_, spi, pr, g).
                     case bcm2711_attach_intr intr_id spi of
                       (r, spi) \<Rightarrow> Inr (r, ds, spi, pr, io\<lparr>io_dma := g\<rparr>))))"

definition bcm2711spi_fini :: "device \<Rightarrow> u64 \<Rightarrow> spi \<Rightarrow> dma_proc \<Rightarrow> spi_io \<Rightarrow> (dma_proc \<times> spi_io) result" where
  "bcm2711spi_fini dev vb spi pr io =
     bind_result (bcm2711_fini_dma dev vb spi pr (io_dma io)) (\<lambda>(pr, g).
       let g = (if sp_iid spi \<noteq> - 1 then event (Intr_detach (sp_iid spi)) g else g)
       in case sp_vbase spi of
            None \<Rightarrow> Inr (pr, io\<lparr>io_dma := g\<rparr>)
          | Some base \<Rightarrow> Inr (pr, \<lparr>io_hist = Port.out32 BCM2711_SPI_CS 0 (io_hist io), io_dma = event (Munmap base 0x200) g\<rparr>))"

end
