(* ===== verification/Spi_Props.thy ===== *)
theory Spi_Props
  imports Spi
begin

text \<open>
  What the SPI driver guarantees: a transfer by interrupt shifts out the original contents of the
  buffer and stores what comes in, although both use the same memory; the clock divider; the
  time-out; and the control blocks a DMA transfer hands to the DMA library.
\<close>

section \<open>Transfers by interrupt\<close>

text \<open>The state of a transfer of \<open>n\<close> bytes out and \<open>m\<close> bytes in over the buffer \<open>b\<close>.\<close>

definition in_transfer :: "u8 list \<Rightarrow> u32 \<Rightarrow> u32 \<Rightarrow> spi \<Rightarrow> history \<Rightarrow> bool" where
  "in_transfer b n m spi h \<longleftrightarrow>
     sp_dwidth spi = 1 \<and> sp_tnbytes spi = n \<and> sp_rnbytes spi = m
     \<and> sp_tcnt spi \<le> n \<and> sp_rcnt spi \<le> m \<and> sp_rcnt spi \<le> sp_tcnt spi
     \<and> unat n \<le> length b \<and> unat m \<le> length b
     \<and> written BCM2711_SPI_FIFO h = map ucast (take (unat (sp_tcnt spi)) b)
     \<and> length (fetched BCM2711_SPI_FIFO h) = unat (sp_rcnt spi)
     \<and> sp_pbuf spi = map ucast (fetched BCM2711_SPI_FIFO h) @ drop (unat (sp_rcnt spi)) b"

text \<open>A byte comes in for each byte shifted out, so the receive FIFO never holds more than that.\<close>

definition full_duplex :: "port \<Rightarrow> bool" where
  "full_duplex p \<longleftrightarrow> (\<forall>h. has (p h BCM2711_SPI_CS) CS_RXD \<longrightarrow>
     length (fetched BCM2711_SPI_FIFO h) < length (written BCM2711_SPI_FIFO h))"

text \<open>One round less to go.\<close>

lemma rounds_left:
  "c < t \<Longrightarrow> unat c < l \<Longrightarrow> l - unat c < Suc k \<Longrightarrow> l - unat (c + 1 :: 'a::len word) < k"
  by (simp add: unat_Suc_less [of c t])

lemma in_transfer_quiet:
  "in_transfer b n m spi h \<Longrightarrow> written BCM2711_SPI_FIFO k = [] \<Longrightarrow> fetched BCM2711_SPI_FIFO k = []
    \<Longrightarrow> in_transfer b n m spi (h @ k)"
  by (simp add: in_transfer_def)

lemma send_byte_step:
  assumes "in_transfer b n m spi h" and "sp_tcnt spi < n"
  shows "send_byte spi h = Inr (spi\<lparr>sp_tcnt := sp_tcnt spi + 1\<rparr>, h @ [Wr BCM2711_SPI_FIFO (ucast (b ! unat (sp_tcnt spi)))])"
    and "in_transfer b n m (spi\<lparr>sp_tcnt := sp_tcnt spi + 1\<rparr>) (h @ [Wr BCM2711_SPI_FIFO (ucast (b ! unat (sp_tcnt spi)))])"
proof -
  let ?t = "unat (sp_tcnt spi)" and ?r = "unat (sp_rcnt spi)"
  have lt: "?t < length b" "?r \<le> ?t" "length (sp_pbuf spi) = length b"
    using assms by (auto simp: in_transfer_def word_less_nat_alt word_le_nat_alt)
  have same: "sp_pbuf spi ! ?t = b ! ?t"
    using assms lt(1,2) by (simp add: in_transfer_def nth_append)
  have "sp_dwidth spi = 1" using assms(1) by (simp add: in_transfer_def)
  then show "send_byte spi h = Inr (spi\<lparr>sp_tcnt := sp_tcnt spi + 1\<rparr>, h @ [Wr BCM2711_SPI_FIFO (ucast (b ! ?t))])"
    using same lt by (simp add: send_byte_def Port.out32_def)
  show "in_transfer b n m (spi\<lparr>sp_tcnt := sp_tcnt spi + 1\<rparr>) (h @ [Wr BCM2711_SPI_FIFO (ucast (b ! ?t))])"
    using assms lt unat_Suc_less [OF assms(2)]
    by (auto simp: in_transfer_def take_Suc_nth inc_le word_le_nat_alt word_less_nat_alt)
qed

lemma fill_fifo_ok:
  assumes "in_transfer b n m spi h" and "unat n - unat (sp_tcnt spi) < k"
  shows "\<exists>spi' h'. fill_fifo k p spi h = Inr (spi', h') \<and> in_transfer b n m spi' h'"
  using assms
proof (induction k arbitrary: spi h)
  case (Suc k)
  let ?cs = "p h BCM2711_SPI_CS" and ?h = "h @ [Rd BCM2711_SPI_CS (p h BCM2711_SPI_CS)]"
  have q: "in_transfer b n m spi ?h"
    using Suc.prems(1) by (rule in_transfer_quiet) (simp_all add: spi_regs)
  show ?case
  proof (cases "sp_tcnt spi < n \<and> has ?cs CS_TXD")
    case True
    then have "unat n - unat (sp_tcnt spi + 1) < k"
      using Suc.prems(2) rounds_left [of "sp_tcnt spi" n "unat n" k] by (simp add: word_less_nat_alt)
    then show ?thesis
      using True send_byte_step [OF q] Suc.IH [of "spi\<lparr>sp_tcnt := sp_tcnt spi + 1\<rparr>"] Suc.prems(1)
      by (simp add: Port.in32_def in_transfer_def [of b n m spi h])
  next
    case False
    then show ?thesis using q Suc.prems(1) by (auto simp: Port.in32_def in_transfer_def [of b n m spi h])
  qed
qed simp

lemma drain_step:
  assumes "in_transfer b n m spi h" and "sp_rcnt spi < m" and "sp_rcnt spi < sp_tcnt spi"
  shows "in_transfer b n m (spi\<lparr>sp_pbuf := (sp_pbuf spi)[unat (sp_rcnt spi) := ucast v], sp_rcnt := sp_rcnt spi + 1\<rparr>)
           (h @ [Rd BCM2711_SPI_FIFO v])"
proof -
  let ?r = "unat (sp_rcnt spi)"
  have "?r < length b" using assms by (auto simp: in_transfer_def word_less_nat_alt word_le_nat_alt)
  then have "(sp_pbuf spi)[?r := ucast v] = (map ucast (fetched BCM2711_SPI_FIFO h) @ [ucast v]) @ drop (Suc ?r) b"
    using assms by (intro update_received) (simp_all add: in_transfer_def)
  then show ?thesis using assms unat_Suc_less [OF assms(2)]
    by (auto simp: in_transfer_def inc_le)
qed

lemma drain_fifo_ok:
  assumes "in_transfer b n m spi h" and "full_duplex p" and "unat m - unat (sp_rcnt spi) < k"
  shows "\<exists>spi' h'. drain_fifo k p spi h = Inr (spi', h') \<and> in_transfer b n m spi' h'"
  using assms
proof (induction k arbitrary: spi h)
  case (Suc k)
  let ?cs = "p h BCM2711_SPI_CS" and ?h = "h @ [Rd BCM2711_SPI_CS (p h BCM2711_SPI_CS)]"
  have q: "in_transfer b n m spi ?h"
    using Suc.prems(1) by (rule in_transfer_quiet) (simp_all add: spi_regs)
  show ?case
  proof (cases "has ?cs CS_RXD \<and> sp_rcnt spi < m")
    case True
    let ?v = "p ?h BCM2711_SPI_FIFO"
    let ?s = "spi\<lparr>sp_pbuf := (sp_pbuf spi)[unat (sp_rcnt spi) := ucast ?v], sp_rcnt := sp_rcnt spi + 1\<rparr>"
    have "length (fetched BCM2711_SPI_FIFO h) < length (written BCM2711_SPI_FIFO h)"
      using True Suc.prems(2) by (simp add: full_duplex_def)
    then have lt: "sp_rcnt spi < sp_tcnt spi"
      using Suc.prems(1) by (simp add: in_transfer_def word_less_nat_alt)
    have step: "in_transfer b n m ?s (?h @ [Rd BCM2711_SPI_FIFO ?v])"
      using True lt by (intro drain_step [OF q]) simp_all
    have room: "\<not> length (sp_pbuf spi) \<le> unat (sp_rcnt spi)"
      using True Suc.prems(1) by (auto simp: in_transfer_def word_less_nat_alt)
    have "unat m - unat (sp_rcnt spi + 1) < k"
      using Suc.prems(3) True rounds_left [of "sp_rcnt spi" m "unat m" k] by (simp add: word_less_nat_alt)
    then show ?thesis
      using True room Suc.IH [OF step Suc.prems(2)] Suc.prems(1)
      by (simp add: Port.in32_def Let_def in_transfer_def [of b n m spi h])
  next
    case False
    then show ?thesis using q Suc.prems(1)
      by (auto simp: Port.in32_def Let_def in_transfer_def [of b n m spi h])
  qed
qed simp

lemma prefill_ok:
  assumes "in_transfer b n m spi h" and "16 - unat (sp_tcnt spi) < k"
  shows "\<exists>spi' h'. prefill k spi h = Inr (spi', h') \<and> in_transfer b n m spi' h'"
  using assms
proof (induction k arbitrary: spi h)
  case (Suc k)
  show ?case
  proof (cases "sp_tcnt spi < n \<and> sp_tcnt spi < BCM2711_SPI_FIFOLEN")
    case True
    then have "16 - unat (sp_tcnt spi + 1) < k"
      using Suc.prems(2) True rounds_left [of "sp_tcnt spi" n 16 k] by (simp add: word_less_nat_alt BCM2711_SPI_FIFOLEN_def)
    then show ?thesis
      using True send_byte_step [OF Suc.prems(1)] Suc.IH [of "spi\<lparr>sp_tcnt := sp_tcnt spi + 1\<rparr>"] Suc.prems(1)
      by (simp add: in_transfer_def [of b n m spi h])
  next
    case False
    then show ?thesis using Suc.prems(1) by (auto simp: in_transfer_def [of b n m spi h])
  qed
qed simp

lemma process_interrupts_ok:
  assumes "in_transfer b n m spi h" and "full_duplex p"
  shows "\<exists>done spi' h'. process_interrupts p spi h = Inr (done, spi', h') \<and> in_transfer b n m spi' h'
    \<and> (done \<longrightarrow> sp_rcnt spi' = m)"
proof -
  let ?cs = "p h BCM2711_SPI_CS" and ?h = "h @ [Rd BCM2711_SPI_CS (p h BCM2711_SPI_CS)]"
  have q: "in_transfer b n m spi ?h"
    using assms(1) by (rule in_transfer_quiet) (simp_all add: spi_regs)
  obtain s1 h1 where 1: "fill_fifo (Suc (unat n)) p spi ?h = Inr (s1, h1)" "in_transfer b n m s1 h1"
    using fill_fifo_ok [OF q le_imp_less_Suc [OF diff_le_self]] by blast
  obtain s2 h2 where 2: "drain_fifo (Suc (unat m)) p s1 h1 = Inr (s2, h2)" "in_transfer b n m s2 h2"
    using drain_fifo_ok [OF 1(2) assms(2) le_imp_less_Suc [OF diff_le_self]] by blast
  have nm: "sp_tnbytes spi = n" "sp_rnbytes s1 = m" "sp_rnbytes s2 = m" "sp_rcnt s2 \<le> m"
    using assms(1) 1 2 by (simp_all add: in_transfer_def)
  let ?k = "[Rd BCM2711_SPI_CS (p h2 BCM2711_SPI_CS), Wr BCM2711_SPI_CS (p h2 BCM2711_SPI_CS AND NOT CS_TA)]"
  have "in_transfer b n m s2 (h2 @ ?k)"
    using 2(2) by (rule in_transfer_quiet) (simp_all add: spi_regs)
  then show ?thesis
    using q 1(1) 2 nm
    by (cases "has ?cs CS_DONE"; cases "sp_rcnt s2 < m")
      (auto simp: process_interrupts_def Port.in32_def Port.out32_def Let_def simp del: fill_fifo.simps drain_fifo.simps)
qed

lemma wait_interrupts_ok:
  assumes "in_transfer b n m spi h" and "full_duplex p"
  shows "\<exists>r spi' h'. wait_interrupts p evs spi h = Inr (r, spi', h') \<and> in_transfer b n m spi' h'
    \<and> (r = Some (Ok ()) \<longrightarrow> sp_rcnt spi' = m)"
  using assms(1)
proof (induction evs arbitrary: spi h)
  case (Cons ev evs)
  then show ?case
    using process_interrupts_ok [OF Cons.prems assms(2)] by (cases ev) fastforce+
qed simp

text \<open>The lengths used when one of the two given is zero.\<close>

definition out_len :: "u32 \<Rightarrow> u32 \<Rightarrow> u32" where "out_len tn rn = (if tn = 0 then rn else tn)"
definition in_len :: "u32 \<Rightarrow> u32 \<Rightarrow> u32" where "in_len tn rn = (if tn = 0 \<or> rn \<noteq> 0 then rn else tn)"

lemma set_lengths_simps [simp]:
  "sp_tnbytes (set_lengths tn rn spi) = out_len tn rn" "sp_rnbytes (set_lengths tn rn spi) = in_len tn rn"
  "sp_xlen (set_lengths tn rn spi) = max (out_len tn rn) (in_len tn rn)"
  by (simp_all add: set_lengths_def out_len_def in_len_def)

lemma xfer_unfold:
  assumes "sd_clock_rate d \<noteq> 0" and "full_duplex p"
    and "unat (out_len tn rn) \<le> length b" and "unat (in_len tn rn) \<le> length b"
  shows "\<exists>r spi' h' k. bcm2711spi_xfer p evs d b tn rn spi [] = Inr (r, spi', h' @ k)
    \<and> in_transfer b (out_len tn rn) (in_len tn rn) spi' h'
    \<and> (r = Some (Ok ()) \<longrightarrow> sp_rcnt spi' = in_len tn rn)
    \<and> written BCM2711_SPI_FIFO k = [] \<and> fetched BCM2711_SPI_FIFO k = []"
proof -
  let ?n = "out_len tn rn" and ?m = "in_len tn rn"
  obtain t where t: "transfer_time (max ?n ?m) (sd_clock_rate d) = Inr t"
    using assms(1) by (auto simp: transfer_time_def Let_def)
  let ?s = "(set_lengths tn rn (spi\<lparr>sp_dma_active := False\<rparr>))\<lparr>sp_dwidth := 1, sp_rcnt := 0, sp_tcnt := 0, sp_pbuf := b, sp_dtime := t\<rparr>"
  let ?h = "clear_fifos p [] @ [Wr BCM2711_SPI_CS (CS_TA OR CS_INTD OR CS_INTR OR sd_devctrl d)]"
  have "in_transfer b ?n ?m ?s ?h"
    using assms by (simp add: in_transfer_def clear_fifos_def Port.in32_def Port.out32_def Let_def spi_regs)
  moreover have "16 - unat (sp_tcnt ?s) < Suc (unat BCM2711_SPI_FIFOLEN)" by (simp add: BCM2711_SPI_FIFOLEN_def)
  ultimately obtain s1 h1 where 1: "prefill (Suc (unat BCM2711_SPI_FIFOLEN)) ?s ?h = Inr (s1, h1)" "in_transfer b ?n ?m s1 h1"
    using prefill_ok by blast
  obtain r s2 h2 where 2: "wait_interrupts p evs s1 h1 = Inr (r, s2, h2)" "in_transfer b ?n ?m s2 h2"
    "r = Some (Ok ()) \<longrightarrow> sp_rcnt s2 = ?m"
    using wait_interrupts_ok [OF 1(2) assms(2)] by blast
  let ?c = "p h2 BCM2711_SPI_CS"
  define k where "k = (if r = None then []
    else [Rd BCM2711_SPI_CS ?c, Wr BCM2711_SPI_CS (?c AND NOT CS_TA AND NOT CS_INTD AND NOT CS_INTR)])"
  have "bcm2711spi_xfer p evs d b tn rn spi [] = Inr (r, s2, h2 @ k)"
    using t 1(1) 2(1)
    by (cases r) (simp_all add: bcm2711spi_xfer_def Port.out32_def Port.in32_def k_def Let_def del: prefill.simps)
  moreover have "written BCM2711_SPI_FIFO k = [] \<and> fetched BCM2711_SPI_FIFO k = []"
    by (simp add: k_def spi_regs)
  ultimately show ?thesis using 2 by blast
qed

text \<open>C30: A transfer by interrupt over one buffer never leaves the buffer and its loops end.  Whatever the
  controller does and whenever the transfer is looked at, the bytes shifted out are the first
  bytes of the buffer as the client filled it, although incoming bytes overwrite it at the same
  time, and the buffer holds the bytes that came in, in order, before the untouched rest.  A successful
  transfer has received the full length; it has then also sent all when both lengths agree, as they do
  when one of them is given as zero; and it never succeeds when there is more to receive than to send.\<close>

theorem spi_xfer_full_duplex:
  assumes "sd_clock_rate d \<noteq> 0" and "full_duplex p"
    and "unat (out_len tn rn) \<le> length b" and "unat (in_len tn rn) \<le> length b"
  shows "\<exists>r spi' h'. bcm2711spi_xfer p evs d b tn rn spi [] = Inr (r, spi', h')
    \<and> (let out = written BCM2711_SPI_FIFO h'; got = fetched BCM2711_SPI_FIFO h' in
         out = map ucast (take (length out) b) \<and> length out \<le> unat (out_len tn rn)
         \<and> sp_pbuf spi' = map ucast got @ drop (length got) b \<and> length got \<le> unat (in_len tn rn)
         \<and> length got \<le> length out
         \<and> (r = Some (Ok ()) \<longrightarrow> length got = unat (in_len tn rn) \<and> in_len tn rn \<le> out_len tn rn
            \<and> (in_len tn rn = out_len tn rn \<longrightarrow> length out = unat (out_len tn rn))))"
proof -
  let ?n = "out_len tn rn" and ?m = "in_len tn rn"
  obtain r spi' h' k where x: "bcm2711spi_xfer p evs d b tn rn spi [] = Inr (r, spi', h' @ k)"
    "in_transfer b ?n ?m spi' h'" "r = Some (Ok ()) \<longrightarrow> sp_rcnt spi' = ?m"
    "written BCM2711_SPI_FIFO k = []" "fetched BCM2711_SPI_FIFO k = []"
    using xfer_unfold [OF assms, of evs spi] by blast
  have le: "unat (sp_tcnt spi') \<le> unat ?n" "unat (sp_rcnt spi') \<le> unat ?m" "unat (sp_rcnt spi') \<le> unat (sp_tcnt spi')"
    using x(2) by (simp_all add: in_transfer_def word_le_nat_alt)
  then have lens: "length (written BCM2711_SPI_FIFO h') = unat (sp_tcnt spi')"
    "length (fetched BCM2711_SPI_FIFO h') = unat (sp_rcnt spi')"
    using x(2) assms(3) by (simp_all add: in_transfer_def)
  show ?thesis
    using x le lens by (intro exI [of _ r] exI [of _ spi'] exI [of _ "h' @ k"])
      (auto simp: in_transfer_def Let_def word_le_nat_alt)
qed

text \<open>A controller with bytes \<open>0x41, 0x42, \<dots>\<close> coming in.\<close>

definition loop_port :: port where
  "loop_port h r = (if r = BCM2711_SPI_CS then CS_DONE OR CS_TXD
       OR flag_if (length (fetched BCM2711_SPI_FIFO h) < length (written BCM2711_SPI_FIFO h)) CS_RXD
     else if r = BCM2711_SPI_FIFO then 0x41 + of_nat (length (fetched BCM2711_SPI_FIFO h)) else 0)"

lemma loop_port_ok: "full_duplex loop_port"
  by (auto simp: full_duplex_def loop_port_def flag_if_def has_def spi_bits split: if_splits)

definition sample_spi :: spi where
  "sample_spi = \<lparr>sp_pbase = 0xfe204000, sp_vbase = Some 0, sp_irq = 150, sp_iid = 1, sp_busno = 0, sp_input_clk = 500000000,
     sp_pbuf = [], sp_tnbytes = 0, sp_rnbytes = 0, sp_xlen = 0, sp_tcnt = 0, sp_rcnt = 0, sp_dwidth = 0, sp_dtime = 0,
     sp_dma_active = True, sp_rx_ch = None, sp_tx_ch = None, sp_dmarx_dreq = 0, sp_dmatx_dreq = 0,
     sp_rpanic = 48, sp_tpanic = 16, sp_rdreq = 32, sp_tdreq = 32\<rparr>"

definition sample_spi_dev :: "u32 \<Rightarrow> u32 \<Rightarrow> spi_dev" where
  "sample_spi_dev no rate = \<lparr>sd_mode = 8, sd_clock_rate = rate, sd_current_clkrate = 0, sd_devno = no, sd_devctrl = 0\<rparr>"

definition result_of :: "(unit ret option \<times> 'b \<times> 'c) result \<Rightarrow> unit ret option" where
  "result_of r = (case r of Inl _ \<Rightarrow> None | Inr (x, _) \<Rightarrow> x)"

lemma sample_xfer_done:
  "result_of (bcm2711spi_xfer loop_port [Posted] (sample_spi_dev 0 1000000) [1, 2, 3] 3 0 sample_spi []) = Some (Ok ())"
  by code_simp

theorem spi_xfer_full_duplex_witness:
  "\<exists>spi' h'. bcm2711spi_xfer loop_port [Posted] (sample_spi_dev 0 1000000) [1, 2, 3] 3 0 sample_spi [] = Inr (Some (Ok ()), spi', h')
     \<and> written BCM2711_SPI_FIFO h' = [1, 2, 3] \<and> length (fetched BCM2711_SPI_FIFO h') = 3"
proof -
  have l: "out_len 3 0 = 3" "in_len 3 0 = 3" by (simp_all add: out_len_def in_len_def)
  have c: "sd_clock_rate (sample_spi_dev 0 1000000) \<noteq> 0" by (simp add: sample_spi_dev_def)
  show ?thesis
    using spi_xfer_full_duplex [OF c loop_port_ok, of 3 0 "[1, 2, 3]" "[Posted]" sample_spi] sample_xfer_done
    by (auto simp: l Let_def result_of_def)
qed

text \<open>
  With fewer bytes to receive than to send the transfer is declared complete when the former are
  in, whatever is left to send: here after 33 of 40 bytes.
\<close>

definition small_fifo :: port where
  "small_fifo h r = (if r = BCM2711_SPI_CS then CS_DONE
       OR flag_if (length (written BCM2711_SPI_FIFO h) < 33) CS_TXD
       OR flag_if (length (fetched BCM2711_SPI_FIFO h) < length (written BCM2711_SPI_FIFO h)) CS_RXD else 0)"

definition sent_of :: "(unit ret option \<times> 'b \<times> history) result \<Rightarrow> nat" where
  "sent_of r = (case r of Inl _ \<Rightarrow> 0 | Inr (_, _, h) \<Rightarrow> length (written BCM2711_SPI_FIFO h))"

lemma spi_short_receive_truncates:
  "result_of (bcm2711spi_xfer small_fifo [Posted] (sample_spi_dev 0 1000000) (replicate 40 7) 40 4 sample_spi []) = Some (Ok ())"
  "sent_of (bcm2711spi_xfer small_fifo [Posted] (sample_spi_dev 0 1000000) (replicate 40 7) 40 4 sample_spi []) = 33"
  by code_simp+

section \<open>The clock\<close>

lemma div_div_div: "0 < (a :: nat) div d \<Longrightarrow> a div (a div (a div d)) = a div d"
proof -
  assume pos: "0 < a div d"
  then have d: "0 < d" by (cases d) auto
  let ?r = "a div d"
  have "?r * d \<le> a" by simp
  then have "d \<le> a div ?r" using pos by (simp add: less_eq_div_iff_mult_less_eq mult.commute)
  then have "a div (a div ?r) \<le> ?r" using d by (intro div_le_mono2) simp_all
  moreover have "a div ?r * ?r \<le> a" by simp
  then have "?r \<le> a div (a div ?r)"
    using \<open>d \<le> a div ?r\<close> d by (simp add: less_eq_div_iff_mult_less_eq mult.commute)
  ultimately show ?thesis by simp
qed

lemma spi_divisor_range:
  "2 \<le> unat (spi_divisor input rate) \<and> unat (spi_divisor input rate) \<le> 65536 \<and> even (unat (spi_divisor input rate))"
proof -
  let ?d = "ucast ((input + ucast (rate div 2)) div ucast rate) :: u32"
  consider (lo) "?d < 2" | (hi) "?d \<ge> 65536" | (mid) "2 \<le> ?d" "?d < 65536" by fastforce
  then show ?thesis
  proof cases
    case mid
    have m: "unat (?d mod 2) = unat ?d mod 2" by (simp add: unat_mod)
    have "unat ?d < 65536" "2 \<le> unat ?d" using mid by (simp_all add: word_less_nat_alt word_le_nat_alt)
    moreover have "unat (?d + ?d mod 2) = unat ?d + unat ?d mod 2"
      using \<open>unat ?d < 65536\<close> by (subst unat_plus_if') (auto simp: m)
    ultimately have "2 \<le> unat (?d + ?d mod 2)" "unat (?d + ?d mod 2) \<le> 65536" "even (unat (?d + ?d mod 2))"
      by (simp_all add: mod2_eq_if)
    then show ?thesis using mid
      by (auto simp: spi_divisor_def BCM2711_SPI_MIN_CDIV_def BCM2711_SPI_MAX_CDIV_def Let_def)
  qed (auto simp: spi_divisor_def BCM2711_SPI_MIN_CDIV_def BCM2711_SPI_MAX_CDIV_def Let_def)
qed

text \<open>The divider in numbers: input clock over rate, rounded to the nearest, then up to an even number, kept between 2 and 65536.\<close>

definition wanted_div :: "nat \<Rightarrow> nat \<Rightarrow> nat" where
  "wanted_div a rate = (let n = (a + rate div 2) div rate in min 65536 (max 2 (n + n mod 2)))"

lemma spi_divisor_wanted:
  assumes "rate \<noteq> 0" and "unat input < 2 ^ 32"
  shows "unat (spi_divisor input rate) = wanted_div (unat input) (unat rate)"
proof -
  have up: "unat (ucast x :: u64) = unat x" for x :: u32
    by (simp add: unsigned_ucast_eq take_bit_nat_eq_self_iff order_less_trans [OF unsigned_less])
  define n where "n = (unat input + unat rate div 2) div unat rate"
  have r: "0 < unat rate" "unat rate < 2 ^ 32" using assms(1) unsigned_less [of rate, where 'a = nat] by (simp_all add: unat_gt_0)
  have n32: "n < 2 ^ 32"
  proof (cases "unat rate = 1")
    case False
    have "unat input + unat rate div 2 < 2 ^ 32 * unat rate"
    proof -
      have "2 ^ 32 * 2 \<le> 2 ^ 32 * unat rate" using False r(1) by (intro mult_le_mono2) simp
      moreover have "unat rate div 2 < 2 ^ 32" using r(2) by linarith
      ultimately show ?thesis using assms(2) by linarith
    qed
    then show ?thesis unfolding n_def by (simp add: div_less_iff_less_mult r(1))
  qed (use assms(2) in \<open>simp add: n_def\<close>)
  have half: "unat (rate div 2) = unat rate div 2" by (simp add: unat_div)
  have s: "unat (input + ucast (rate div 2)) = unat input + unat rate div 2"
    by (subst unat_add_lem [THEN iffD1]) (use assms(2) r(2) in \<open>simp_all add: up half\<close>)
  have d: "unat (ucast ((input + ucast (rate div 2)) div ucast rate) :: u32) = n"
  proof -
    have "unat ((input + ucast (rate div 2)) div ucast rate) = n" by (simp only: unat_div s up n_def)
    then show ?thesis using n32 by (simp add: unsigned_ucast_eq take_bit_nat_eq_self)
  qed
  define dv where "dv = (ucast ((input + ucast (rate div 2)) div ucast rate) :: u32)"
  have m: "unat (dv mod 2) = n mod 2" using d by (simp add: dv_def unat_mod)
  have "unat (spi_divisor input rate) = (if n < 2 then 2 else if 65536 \<le> n then 65536 else n + n mod 2)"
  proof -
    have "n < 65536 \<Longrightarrow> unat (dv + dv mod 2) = n + n mod 2"
      by (subst unat_add_lem [THEN iffD1]) (use d m in \<open>simp_all add: dv_def [symmetric]\<close>)
    then show ?thesis using d by (simp add: spi_divisor_def Let_def BCM2711_SPI_MIN_CDIV_def BCM2711_SPI_MAX_CDIV_def
        word_less_nat_alt word_le_nat_alt flip: dv_def)
  qed
  moreover have "n < 65536 \<Longrightarrow> n + n mod 2 \<le> 65536" by presburger
  ultimately show ?thesis by (simp add: wanted_div_def Let_def flip: n_def)
qed

lemma wanted_div_near:
  assumes "2 * rate \<le> a" and "a \<le> 65534 * rate" and "0 < rate"
  shows "(2 * wanted_div a rate - 3) * rate \<le> 2 * a \<and> 2 * a \<le> (2 * wanted_div a rate + 1) * rate"
proof -
  define n where "n = (a + rate div 2) div rate"
  have lo: "n * rate \<le> a + rate div 2" unfolding n_def by simp
  have hi: "a + rate div 2 < (n + 1) * rate"
  proof -
    have "a + rate div 2 = n * rate + (a + rate div 2) mod rate" unfolding n_def by simp
    moreover have "(a + rate div 2) mod rate < rate" using assms(3) by (rule mod_less_divisor)
    ultimately have "a + rate div 2 < n * rate + rate" by linarith
    then show ?thesis by simp
  qed
  have "2 * rate \<le> a + rate div 2" using assms(1) by linarith
  then have n2: "2 \<le> n" using assms(3) by (simp add: n_def less_eq_div_iff_mult_less_eq)
  have "n * rate < 65535 * rate"
  proof -
    have "65534 * rate + rate div 2 < 65535 * rate" using assms(3) by linarith
    then show ?thesis using lo assms(2) by linarith
  qed
  then have nm: "n < 65535" using assms(3) by simp
  have w: "wanted_div a rate = n + n mod 2" using n2 nm by (simp add: wanted_div_def Let_def flip: n_def)
  have "(2 * n - 1) * rate \<le> 2 * a"
  proof -
    have "2 * (n * rate) \<le> 2 * a + rate" using lo by linarith
    then show ?thesis using n2 by (simp add: algebra_simps diff_mult_distrib)
  qed
  moreover have "2 * a \<le> (2 * n + 1) * rate"
  proof -
    have "2 * a + 2 * (rate div 2) < 2 * (n * rate) + 2 * rate" using hi by (simp add: algebra_simps)
    moreover have "rate \<le> 2 * (rate div 2) + 1" by linarith
    ultimately have "2 * a \<le> 2 * (n * rate) + rate" by linarith
    then show ?thesis by (simp add: algebra_simps)
  qed
  moreover have "n mod 2 = 0 \<or> n mod 2 = 1" by auto
  ultimately show ?thesis unfolding w
  proof (elim disjE)
    assume e: "n mod 2 = 0" and l: "(2 * n - 1) * rate \<le> 2 * a" and u: "2 * a \<le> (2 * n + 1) * rate"
    have "(2 * n - 3) * rate \<le> (2 * n - 1) * rate" by (rule mult_le_mono1) linarith
    from order_trans [OF this l] u show "(2 * (n + n mod 2) - 3) * rate \<le> 2 * a \<and> 2 * a \<le> (2 * (n + n mod 2) + 1) * rate"
      unfolding e add_0_right by blast
  next
    assume "n mod 2 = 1" "(2 * n - 1) * rate \<le> 2 * a" "2 * a \<le> (2 * n + 1) * rate"
    then show "(2 * (n + n mod 2) - 3) * rate \<le> 2 * a \<and> 2 * a \<le> (2 * (n + n mod 2) + 1) * rate"
      using n2 by (simp add: algebra_simps)
  qed
qed

text \<open>C31: Configuring a device whose rate changes sets its rate to the input clock over the divider that comes nearest from the rate
  asked for: the quotient rounded to the nearest number, then up to an even one, 2 for any rate too fast and 65536 for any too slow.
  For a rate within these bounds the divider is at most three halves above and one half below the exact quotient.  The value written to the clock register, zero standing for 65536, is
  computed back from the rounded rate, and gives exactly the rate kept; it is never 1.  Nothing else of the device changes, and the
  divisions do not fail for any input clock between 64 kHz and 4 GHz.\<close>

theorem spi_clock_divider:
  assumes "sd_clock_rate d \<noteq> 0" and "sd_current_clkrate d \<noteq> sd_clock_rate d"
    and "65536 \<le> unat (sp_input_clk spi)" and "unat (sp_input_clk spi) < 2 ^ 32"
  defines "a \<equiv> unat (sp_input_clk spi)" and "rate \<equiv> unat (sd_clock_rate d)"
  shows "\<exists>r v. cfg_clock spi d h = Inr (d\<lparr>sd_clock_rate := r, sd_current_clkrate := r\<rparr>, h @ [Wr BCM2711_SPI_CLK v])
    \<and> unat r = a div wanted_div a rate
    \<and> (2 * rate \<le> a \<and> a \<le> 65534 * rate \<longrightarrow> (2 * wanted_div a rate - 3) * rate \<le> 2 * a \<and> 2 * a \<le> (2 * wanted_div a rate + 1) * rate)
    \<and> unat v < 65536 \<and> unat r = a div (if v = 0 then 65536 else unat v) \<and> v \<noteq> 1"
proof -
  define dv where "dv = spi_divisor (sp_input_clk spi) (sd_clock_rate d)"
  define r where "r = (ucast (sp_input_clk spi div ucast dv) :: u32)"
  define w where "w = (ucast (sp_input_clk spi div ucast r) :: u32)"
  have up: "unat (ucast x :: u64) = unat x" for x :: u32
    by (simp add: unsigned_ucast_eq take_bit_nat_eq_self_iff order_less_trans [OF unsigned_less])
  have down: "unat (ucast (sp_input_clk spi div ucast x) :: u32) = a div unat x" for x :: u32
  proof -
    have "a div unat x < 2 ^ 32" using assms(4) unfolding a_def by (rule order_le_less_trans [OF div_le_dividend])
    moreover have "unat (sp_input_clk spi div ucast x) = a div unat x" by (simp only: unat_div up a_def)
    ultimately show ?thesis by (simp add: unsigned_ucast_eq take_bit_nat_eq_self)
  qed
  have D: "2 \<le> unat dv" "unat dv \<le> 65536" unfolding dv_def using spi_divisor_range by blast+
  have r: "unat r = a div unat dv" unfolding r_def by (rule down)
  have w: "unat w = a div unat r" unfolding w_def by (rule down)
  have "0 < a div unat dv" using D assms(3) by (simp add: div_greater_zero_iff a_def)
  then have pos: "0 < unat r" and bk: "a div unat w = unat r"
    using r w div_div_div [of a "unat dv"] by simp_all
  have "unat dv \<le> unat w"
    using D pos r w by (simp add: less_eq_div_iff_mult_less_eq mult.commute [of "unat dv"])
  then have w2: "2 \<le> unat w" using D by simp
  define v where "v = (if w \<ge> BCM2711_SPI_MAX_CDIV then 0 else w)"
  have v: "unat v < 65536" by (auto simp: v_def BCM2711_SPI_MAX_CDIV_def word_le_nat_alt not_le)
  have cdiv: "(ucast (ucast v :: u16) :: u32) = v"
    using v by (simp add: word_eq_nat unsigned_ucast_eq unsigned_take_bit_eq take_bit_nat_eq_self)
  have rate: "unat r = a div (if v = 0 then 65536 else unat v)"
  proof (cases "65536 \<le> unat w")
    case True
    have "a div unat w \<le> a div 65536" using True by (intro div_le_mono2) simp_all
    moreover have "a div 65536 \<le> a div unat dv" using D by (intro div_le_mono2) simp_all
    ultimately show ?thesis using True r bk by (simp add: v_def BCM2711_SPI_MAX_CDIV_def word_le_nat_alt)
  next
    case False
    then have "v = w" "v \<noteq> 0" using w2 by (auto simp: v_def BCM2711_SPI_MAX_CDIV_def word_le_nat_alt)
    then show ?thesis using bk by simp
  qed
  have v1: "v \<noteq> 1" using w2 by (auto simp: v_def)
  have "r \<noteq> 0" using pos by auto
  then have "cfg_clock spi d h = Inr (d\<lparr>sd_clock_rate := r, sd_current_clkrate := r\<rparr>, h @ [Wr BCM2711_SPI_CLK v])"
    using assms(1,2) cdiv unfolding v_def w_def
    by (simp add: cfg_clock_def Let_def Port.out32_def flip: dv_def r_def)
  moreover have "unat r = a div wanted_div a rate"
    using r spi_divisor_wanted [OF assms(1,4)] by (simp add: dv_def a_def rate_def)
  moreover have "0 < rate" using assms(1) by (simp add: rate_def unat_gt_0)
  ultimately show ?thesis using v rate v1 wanted_div_near by blast
qed


text \<open>500 MHz, 9 MHz asked for: the divider is 56.\<close>

theorem spi_clock_divider_witness:
  "\<exists>r v. cfg_clock sample_spi (sample_spi_dev 0 9000000) [] = Inr ((sample_spi_dev 0 9000000)\<lparr>sd_clock_rate := r, sd_current_clkrate := r\<rparr>,
       [Wr BCM2711_SPI_CLK v]) \<and> unat r = 8928571"
proof -
  have s: "unat (sp_input_clk sample_spi) = 500000000" "unat (sd_clock_rate (sample_spi_dev 0 9000000)) = 9000000"
    "sd_clock_rate (sample_spi_dev 0 9000000) \<noteq> 0" "sd_current_clkrate (sample_spi_dev 0 9000000) \<noteq> sd_clock_rate (sample_spi_dev 0 9000000)"
    by (simp_all add: sample_spi_dev_def sample_spi_def)
  have "500000000 div wanted_div 500000000 9000000 = 8928571" by (simp add: wanted_div_def)
  then show ?thesis using spi_clock_divider [OF s(3,4), of sample_spi "[]"] unfolding s(1,2) by force
qed

section \<open>One clock register for all devices\<close>

lemma fill_fifo_no_clk:
  "fill_fifo k p spi h = Inr (spi', h') \<Longrightarrow> written BCM2711_SPI_CLK h' = written BCM2711_SPI_CLK h"
  by (induction k arbitrary: spi h)
    (auto simp: Port.in32_def Port.out32_def send_byte_def spi_regs Let_def split: if_splits)

lemma drain_fifo_no_clk:
  "drain_fifo k p spi h = Inr (spi', h') \<Longrightarrow> written BCM2711_SPI_CLK h' = written BCM2711_SPI_CLK h"
  by (induction k arbitrary: spi h) (auto simp: Port.in32_def spi_regs Let_def split: if_splits)

lemma prefill_no_clk:
  "prefill k spi h = Inr (spi', h') \<Longrightarrow> written BCM2711_SPI_CLK h' = written BCM2711_SPI_CLK h"
  by (induction k arbitrary: spi h) (auto simp: Port.out32_def send_byte_def spi_regs split: if_splits)

lemma process_no_clk:
  "process_interrupts p spi h = Inr (done, spi', h') \<Longrightarrow> written BCM2711_SPI_CLK h' = written BCM2711_SPI_CLK h"
  by (auto simp: process_interrupts_def Port.in32_def Port.out32_def Let_def spi_regs
      simp del: fill_fifo.simps drain_fifo.simps dest!: fill_fifo_no_clk drain_fifo_no_clk split: if_splits)

lemma wait_no_clk:
  "wait_interrupts p evs spi h = Inr (r, spi', h') \<Longrightarrow> written BCM2711_SPI_CLK h' = written BCM2711_SPI_CLK h"
  by (induction p evs spi h rule: wait_interrupts.induct) (auto dest!: process_no_clk split: if_splits)

lemma xfer_no_clk:
  "bcm2711spi_xfer p evs d b tn rn spi h = Inr (r, spi', h') \<Longrightarrow> written BCM2711_SPI_CLK h' = written BCM2711_SPI_CLK h"
  by (auto simp: bcm2711spi_xfer_def Port.in32_def Port.out32_def clear_fifos_def Let_def spi_regs
      simp del: prefill.simps dest!: prefill_no_clk wait_no_clk split: option.splits if_splits)

text \<open>The divider is written only when a device's own rate changes, and a transfer never writes it.  So a
  transfer for a device that is configured again at the rate it has runs with whatever divider
  was written last, which is that of another device when one was configured in between.\<close>

theorem spi_clock_of_other_device:
  assumes "sd_current_clkrate d = rate"
    and "bcm2711spi_setcfg ab spi mode rate d h = Inr (Ok (), d', h1)"
    and "bcm2711spi_xfer p evs d' b tn rn spi h1 = Inr (r, spi', h2)"
  shows "written BCM2711_SPI_CLK h2 = written BCM2711_SPI_CLK h \<and> sd_clock_rate d' = rate"
proof -
  have "h1 = h \<and> sd_clock_rate d' = rate"
    using assms(1,2) by (auto simp: bcm2711spi_setcfg_def bcm2711_cfg_def cfg_clock_def Let_def split: if_splits)
  then show ?thesis using xfer_no_clk [OF assms(3)] by simp
qed

text \<open>Two devices: the first wants 1 MHz, the second 10 MHz; then the first transfers.\<close>

definition spi_sample_abi :: spi_abi where
  "spi_sample_abi = \<lparr>mode_width_mask = 0xff, mode_width_8 = 8, mode_width_32 = 32, mode_cspol_high = 0x400,
     mode_cpol_1 = 0x200, mode_cpha_1 = 0x100\<rparr>"

definition cfg_done :: "(unit ret \<times> spi_dev \<times> history) result \<Rightarrow> (spi_dev \<times> history) option" where
  "cfg_done r = (case r of Inr (Ok _, d, h) \<Rightarrow> Some (d, h) | _ \<Rightarrow> None)"

definition first_dev :: spi_dev where
  "first_dev = fst (the (cfg_done (bcm2711_cfg spi_sample_abi sample_spi (sample_spi_dev 0 1000000) [])))"

definition shared_hist :: history where
  "shared_hist = snd (the (cfg_done (bcm2711_cfg spi_sample_abi sample_spi (sample_spi_dev 1 10000000)
     (snd (the (cfg_done (bcm2711_cfg spi_sample_abi sample_spi (sample_spi_dev 0 1000000) []))))))) "

lemma shared_facts:
  "sd_current_clkrate first_dev = 1000000" "written BCM2711_SPI_CLK shared_hist = [500, 50]"
  "cfg_done (bcm2711spi_setcfg spi_sample_abi sample_spi 8 1000000 first_dev shared_hist) = Some (first_dev, shared_hist)"
  "result_of (bcm2711spi_xfer loop_port [Posted] first_dev [1, 2] 2 0 sample_spi shared_hist) = Some (Ok ())"
  by code_simp+

lemma cfg_done_iff: "cfg_done r = Some (d, h) \<longleftrightarrow> r = Inr (Ok (), d, h)"
  by (auto simp: cfg_done_def split: sum.splits ret.splits)

theorem spi_clock_of_other_device_witness:
  "\<exists>spi' h2. bcm2711spi_xfer loop_port [Posted] first_dev [1, 2] 2 0 sample_spi shared_hist = Inr (Some (Ok ()), spi', h2)
    \<and> written BCM2711_SPI_CLK h2 = [500, 50] \<and> sd_clock_rate first_dev = 1000000"
proof -
  obtain spi' h2 where x: "bcm2711spi_xfer loop_port [Posted] first_dev [1, 2] 2 0 sample_spi shared_hist = Inr (Some (Ok ()), spi', h2)"
    using shared_facts(4) by (auto simp: result_of_def split: sum.splits)
  show ?thesis
    using spi_clock_of_other_device [OF shared_facts(1) shared_facts(3) [unfolded cfg_done_iff] x] x shared_facts(2) by simp
qed

section \<open>The time-out\<close>

text \<open>As long as the 32-bit products of the expected time and of the time-out do not wrap, the
  time-out leaves a transfer of \<open>len\<close> bytes at the configured rate at least three times the clock periods it
  needs.\<close>

theorem spi_timeout_margin:
  assumes "transfer_time len rate = Inr t" and "unat len * 1000000 < 2 ^ 32" and "unat t * unat len * 50 < 2 ^ 32"
    and "0 < unat len"
  shows "3 * (8 * unat len * 1000000000) \<le> unat (wait_ns t len) * unat rate"
proof -
  have r0: "rate \<noteq> 0" using assms(1) by (auto simp: transfer_time_def split: if_splits)
  have "unat (len * 1000 * 1000) = unat len * 1000000"
  proof -
    have "len * 1000 * 1000 = of_nat (unat len * 1000000)" by simp
    then show ?thesis using of_nat_inverse [of "unat len * 1000000" "len * 1000 * 1000"] assms(2) by simp
  qed
  then have ut: "unat t = max 1 (unat len * 1000000 div unat rate)"
    using assms(1) r0 by (auto simp: transfer_time_def Let_def unat_div word_eq_nat split: if_splits)
  have up: "unat (ucast x :: u64) = unat x" for x :: u32
    by (simp add: unsigned_ucast_eq take_bit_nat_eq_self_iff order_less_trans [OF unsigned_less])
  have up': "of_nat (unat x) = (ucast x :: u64)" for x :: u32 by (simp flip: up)
  have uns: "unat (wait_ns t len) = unat t * unat len * 50 * 1000"
  proof -
    have "t * len * 50 = of_nat (unat t * unat len * 50)" by simp
    then have "unat (t * len * 50) = unat t * unat len * 50"
      using of_nat_inverse [of "unat t * unat len * 50" "t * len * 50"] assms(3) by simp
    then have "of_nat (unat t * unat len * 50) = (ucast (t * len * 50) :: u64)"
      using up' [of "t * len * 50"] by (simp only:)
    then have "wait_ns t len = of_nat (unat t * unat len * 50 * 1000)"
      unfolding wait_ns_def by (simp only: of_nat_mult of_nat_numeral)
    then show ?thesis using of_nat_inverse [of "unat t * unat len * 50 * 1000" "wait_ns t len"] assms(3) by simp
  qed
  have "unat len * 1000000 \<le> 2 * (unat t * unat rate)"
  proof -
    let ?q = "unat len * 1000000 div unat rate"
    have pos: "0 < unat rate" using r0 by (simp add: unat_gt_0)
    have "?q * unat rate + unat len * 1000000 mod unat rate = unat len * 1000000" by simp
    moreover have "unat len * 1000000 mod unat rate < unat rate" using pos by simp
    moreover have "?q * unat rate \<le> unat t * unat rate" "1 * unat rate \<le> unat t * unat rate"
      unfolding ut by (rule mult_le_mono1; simp)+
    ultimately show ?thesis by linarith
  qed
  moreover have "1 * 1000000 \<le> unat len * 1000000" using assms(4) by (intro mult_le_mono1) simp
  ultimately have "480000 \<le> unat t * unat rate" by linarith
  then have "480000 * (unat len * 50000) \<le> unat t * unat rate * (unat len * 50000)" by (rule mult_le_mono1)
  then show ?thesis unfolding uns by (simp add: ac_simps)
qed

theorem spi_timeout_margin_witness:
  "3 * (8 * 1000 * 1000000000) \<le> unat (wait_ns 1000 1000) * 1000000"
proof -
  have "transfer_time 1000 1000000 = Inr 1000" by code_simp
  from spi_timeout_margin [OF this] show ?thesis by simp
qed

text \<open>With longer transfers the products wrap: 8590 bytes at 100 kHz need 687 ms and get 430 ms.\<close>

lemma spi_timeout_wraps:
  "transfer_time 8590 100000 = Inr 1" "unat (wait_ns 1 8590) * 100000 < 8 * 8590 * 1000000000"
  by (simp_all add: transfer_time_def wait_ns_def)

end
