(* ===== verification/Spi_Dma.thy ===== *)
theory Spi_Dma
  imports Spi_Props Dma_Calls
begin

text \<open>
  The SPI driver as a client of the DMA library: what it relies on when it hands over a transfer
  of one segment, and what the control blocks of its two channels then do.
\<close>

section \<open>The interface\<close>

text \<open>
  \<open>set_up\<close> is \<open>setup_xfer\<close> of the function table.  A transfer of one source and one destination
  segment that is not repeated becomes one block at the start of the control block memory, and the
  channel was idle.
\<close>

locale dma_provider =
  fixes set_up :: "dma_channel \<Rightarrow> dma_transfer \<Rightarrow> (unit ret \<times> dma_channel) result"
  assumes one_block: "set_up c t = Inr (Ok (), c') \<Longrightarrow> src_addrs t = [s] \<Longrightarrow> dst_addrs t = [d] \<Longrightarrow> mode_flags t = 0 \<Longrightarrow>
      block_source (cb_mem c' 0) = bus_addr c (da_paddr s) \<and> block_dest (cb_mem c' 0) = bus_addr c (da_paddr d)
      \<and> block_len (cb_mem c' 0) = xfer_bytes t \<and> block_next (cb_mem c' 0) = 0"
    and refuses: "set_up c t = Inr (Ok (), c') \<Longrightarrow>
      xfer_bytes t mod ti_unit_size t = 0 \<and> \<not> has (status c) DMACH_BUSY \<and> \<not> has (status c') DMACH_BUSY"
begin

lemma tx_block:
  assumes "set_up c (tx_transfer spi addr) = Inr (Ok (), c')"
  shows "block_source (cb_mem c' 0) = bus_addr c (da_paddr addr)
    \<and> block_dest (cb_mem c' 0) = bus_addr c (sp_pbase spi + 4)
    \<and> block_len (cb_mem c' 0) = sp_tnbytes spi \<and> block_next (cb_mem c' 0) = 0
    \<and> sp_tnbytes spi mod sp_dwidth spi = 0"
  using one_block [OF assms] refuses [OF assms] by (simp add: tx_transfer_def fifo_addr_def spi_regs)

lemma rx_block:
  assumes "set_up c (rx_transfer spi addr) = Inr (Ok (), c')"
  shows "block_source (cb_mem c' 0) = bus_addr c (sp_pbase spi + 4)
    \<and> block_dest (cb_mem c' 0) = bus_addr c (da_paddr addr)
    \<and> block_len (cb_mem c' 0) = sp_rnbytes spi \<and> block_next (cb_mem c' 0) = 0
    \<and> sp_rnbytes spi mod sp_dwidth spi = 0"
  using one_block [OF assms] refuses [OF assms] by (simp add: rx_transfer_def fifo_addr_def spi_regs)

end

section \<open>The library provides it\<close>

lemma setup_one_block:
  assumes "dma_setup_xfer os c (Some t) = Inr (Ok (), c')" and "src_addrs t = [s]" and "dst_addrs t = [d]"
    and "mode_flags t = 0"
  shows "block_source (cb_mem c' 0) = bus_addr c (da_paddr s) \<and> block_dest (cb_mem c' 0) = bus_addr c (da_paddr d)
      \<and> block_len (cb_mem c' 0) = xfer_bytes t \<and> block_next (cb_mem c' 0) = 0"
proof -
  have one: "num_sgs t = 1" "src_fragments t = 1" "dst_fragments t = 1"
    using assms by (simp_all add: num_sgs_def src_fragments_def dst_fragments_def)
  obtain c1 p m where i: "chan_idx c1 = chan_idx c" and c': "c' = c1\<lparr>cb_params := p, cb_mem := m\<rparr>"
    and b: "\<And>k. k < num_sgs t \<Longrightarrow> block_at c1 t k (m k)"
    by (rule dma_setup_xfer_ok [OF assms(1)]) (rule that)
  have at: "block_at c1 t 0 (m 0)" using b [of 0] one by simp
  then obtain q where q: "sg_params c1 t 0 = Inr q" "set_block (c1\<lparr>cb_params := q\<rparr>) = Some (m 0)"
    by (auto simp: block_at_def)
  have qs: "cp_src_paddr q = da_paddr s" "cp_dst_paddr q = da_paddr d"
    using q(1) assms by (auto simp: sg_params_def Let_def frag_def)
  have bus: "bus_addr (c1\<lparr>cb_params := q\<rparr>) = bus_addr c" by (rule ext) (simp add: bus_addr_def ch_info_def i)
  show ?thesis
    using set_block_addrs [OF q(2)] qs block_at_fields [OF at] one assms
    by (simp add: c' bus frag_def Let_def has_def)
qed

lemma setup_refuses:
  assumes "dma_setup_xfer os c (Some t) = Inr (Ok (), c')"
  shows "xfer_bytes t mod ti_unit_size t = 0 \<and> \<not> has (status c) DMACH_BUSY \<and> \<not> has (status c') DMACH_BUSY"
proof -
  have "check_tinfo_params c t = Inr True" "\<not> has (status c) DMACH_BUSY" by (rule dma_setup_xfer_cbs [OF assms])+
  then have "xfer_bytes t mod ti_unit_size t = 0" by (auto simp: check_tinfo_params_def Let_def split: if_splits)
  moreover obtain c1 p m where "status c1 = status c" "c' = c1\<lparr>cb_params := p, cb_mem := m\<rparr>"
    by (rule dma_setup_xfer_ok [OF assms]) (rule that)
  ultimately show ?thesis using \<open>\<not> has (status c) DMACH_BUSY\<close> by simp
qed

interpretation lib: dma_provider "\<lambda>c t. dma_setup_xfer os c (Some t)" for os
  by unfold_locales (simp_all add: setup_one_block setup_refuses)

section \<open>Transfers\<close>

lemma setup_dma_ok:
  assumes "bcm2711_setup_dma os addr spi = Inr (Ok (), addr', spi')"
  obtains tx tx' rx rx' where "sp_tx_ch spi = Some tx" and "sp_rx_ch spi = Some rx"
    and "dma_setup_xfer os tx (Some (tx_transfer (get_dma_dreq spi) addr)) = Inr (Ok (), tx')"
    and "dma_setup_xfer os rx (Some (rx_transfer ((get_dma_dreq spi)\<lparr>sp_tx_ch := Some tx'\<rparr>) (addr\<lparr>da_len := sp_tnbytes spi\<rparr>)))
         = Inr (Ok (), rx')"
    and "spi' = (get_dma_dreq spi)\<lparr>sp_tx_ch := Some tx', sp_rx_ch := Some rx'\<rparr>"
proof -
  have same: "sp_tx_ch (get_dma_dreq spi) = sp_tx_ch spi" "sp_rx_ch (get_dma_dreq spi) = sp_rx_ch spi"
    "sp_tnbytes (get_dma_dreq spi) = sp_tnbytes spi"
    by (simp_all add: get_dma_dreq_def)
  obtain tx where tx: "sp_tx_ch spi = Some tx"
    using assms by (cases "sp_tx_ch spi") (simp_all add: bcm2711_setup_dma_def Let_def handle_def same)
  obtain r1 tx' where s1: "dma_setup_xfer os tx (Some (tx_transfer (get_dma_dreq spi) addr)) = Inr (r1, tx')"
    using assms tx by (auto simp: bcm2711_setup_dma_def Let_def handle_def same)
  have ok1: "r1 = Ok ()"
    using assms tx s1 by (cases r1) (simp_all add: bcm2711_setup_dma_def Let_def handle_def same)
  obtain rx where rx: "sp_rx_ch spi = Some rx"
    using assms tx s1 ok1 by (cases "sp_rx_ch spi") (simp_all add: bcm2711_setup_dma_def Let_def handle_def same)
  obtain r2 rx' where s2: "dma_setup_xfer os rx (Some (rx_transfer ((get_dma_dreq spi)\<lparr>sp_tx_ch := Some tx'\<rparr>)
      (addr\<lparr>da_len := sp_tnbytes spi\<rparr>))) = Inr (r2, rx')"
    using assms tx s1 ok1 rx by (auto simp: bcm2711_setup_dma_def Let_def handle_def same)
  have "r2 = Ok ()" "spi' = (get_dma_dreq spi)\<lparr>sp_tx_ch := Some tx', sp_rx_ch := Some rx'\<rparr>"
    using assms tx s1 ok1 rx s2 by (simp_all add: bcm2711_setup_dma_def Let_def handle_def same)
  with that tx rx s1 s2 ok1 show thesis by blast
qed

text \<open>C32: When the driver has set up a DMA transfer, the block of the transmit channel copies from the client's
  buffer to the FIFO of this controller, that of the receive channel from the FIFO to the buffer, at their
  bus addresses; they carry the lengths of the two directions, which are whole multiples of the word width, and
  end there.  Both channels were idle.\<close>

theorem spi_dma_blocks:
  assumes "bcm2711_setup_dma os addr spi = Inr (Ok (), addr', spi')"
  shows "\<exists>tx tx' rx rx'. sp_tx_ch spi = Some tx \<and> sp_rx_ch spi = Some rx \<and> sp_tx_ch spi' = Some tx' \<and> sp_rx_ch spi' = Some rx'
    \<and> block_source (cb_mem tx' 0) = bus_addr tx (da_paddr addr)
    \<and> block_dest (cb_mem tx' 0) = bus_addr tx (sp_pbase spi + 4)
    \<and> block_len (cb_mem tx' 0) = sp_tnbytes spi \<and> block_next (cb_mem tx' 0) = 0
    \<and> block_source (cb_mem rx' 0) = bus_addr rx (sp_pbase spi + 4)
    \<and> block_dest (cb_mem rx' 0) = bus_addr rx (da_paddr addr)
    \<and> block_len (cb_mem rx' 0) = sp_rnbytes spi \<and> block_next (cb_mem rx' 0) = 0
    \<and> sp_tnbytes spi mod sp_dwidth spi = 0 \<and> sp_rnbytes spi mod sp_dwidth spi = 0
    \<and> \<not> has (status tx) DMACH_BUSY \<and> \<not> has (status rx) DMACH_BUSY"
proof -
  obtain tx tx' rx rx' where s: "sp_tx_ch spi = Some tx" "sp_rx_ch spi = Some rx"
    "dma_setup_xfer os tx (Some (tx_transfer (get_dma_dreq spi) addr)) = Inr (Ok (), tx')"
    "dma_setup_xfer os rx (Some (rx_transfer ((get_dma_dreq spi)\<lparr>sp_tx_ch := Some tx'\<rparr>) (addr\<lparr>da_len := sp_tnbytes spi\<rparr>)))
         = Inr (Ok (), rx')"
    "spi' = (get_dma_dreq spi)\<lparr>sp_tx_ch := Some tx', sp_rx_ch := Some rx'\<rparr>"
    by (rule setup_dma_ok [OF assms])
  have same: "sp_pbase (get_dma_dreq spi) = sp_pbase spi" "sp_tnbytes (get_dma_dreq spi) = sp_tnbytes spi"
    "sp_rnbytes (get_dma_dreq spi) = sp_rnbytes spi" "sp_dwidth (get_dma_dreq spi) = sp_dwidth spi"
    by (simp_all add: get_dma_dreq_def)
  show ?thesis
    using lib.tx_block [OF s(3)] lib.rx_block [OF s(4)] lib.refuses [OF s(3)] lib.refuses [OF s(4)] s(1,2,5)
    by (simp add: same)
qed

definition dma_spi :: spi where
  "dma_spi = sample_spi\<lparr>sp_rx_ch := Some sample_chan, sp_tx_ch := Some (sample_chan\<lparr>chan_idx := 6, ch_regs := 0xfe007600\<rparr>)\<rparr>"

definition dma_dev :: spi_dev where
  "dma_dev = \<lparr>sd_mode = 32, sd_clock_rate = 1000000, sd_current_clkrate = 1000000, sd_devno = 0, sd_devctrl = 0\<rparr>"

definition setup_ok :: "(unit ret \<times> dma_addr \<times> spi) result \<Rightarrow> (dma_addr \<times> spi) option" where
  "setup_ok r = (case r of Inr (Ok _, a, s) \<Rightarrow> Some (a, s) | _ \<Rightarrow> None)"

definition dma_sized :: spi where
  "dma_sized = (set_lengths 64 64 dma_spi)\<lparr>sp_dwidth := 4\<rparr>"

lemma setup_ok_iff: "setup_ok r = Some (a, s) \<longleftrightarrow> r = Inr (Ok (), a, s)"
  by (auto simp: setup_ok_def split: sum.splits ret.splits)

lemma dma_sized_runs: "setup_ok (bcm2711_setup_dma sample_os \<lparr>da_vaddr = 0x8000, da_paddr = 0x2000, da_len = 0\<rparr> dma_sized) \<noteq> None"
  by code_simp

theorem spi_dma_blocks_witness:
  "\<exists>addr' spi' tx'. bcm2711_setup_dma sample_os \<lparr>da_vaddr = 0x8000, da_paddr = 0x2000, da_len = 0\<rparr> dma_sized = Inr (Ok (), addr', spi')
    \<and> sp_tx_ch spi' = Some tx' \<and> block_len (cb_mem tx' 0) = 64
    \<and> block_dest (cb_mem tx' 0) = bus_addr (sample_chan\<lparr>chan_idx := 6, ch_regs := 0xfe007600\<rparr>) 0xfe204004"
proof -
  obtain addr' spi' where s: "bcm2711_setup_dma sample_os \<lparr>da_vaddr = 0x8000, da_paddr = 0x2000, da_len = 0\<rparr> dma_sized = Inr (Ok (), addr', spi')"
    using dma_sized_runs by (auto simp: setup_ok_iff)
  have f: "sp_tnbytes dma_sized = 64" "sp_pbase dma_sized = 0xfe204000"
    "sp_tx_ch dma_sized = Some (sample_chan\<lparr>chan_idx := 6, ch_regs := 0xfe007600\<rparr>)"
    by (simp_all add: dma_sized_def dma_spi_def sample_spi_def out_len_def) (simp add: set_lengths_def)+
  show ?thesis using spi_dma_blocks [OF s] s f by auto
qed

section \<open>The channels between transfers\<close>

definition idle_chan :: "dma_channel option \<Rightarrow> bool" where
  "idle_chan ch = (case ch of None \<Rightarrow> False | Some c \<Rightarrow> \<not> has (status c) DMACH_BUSY
     \<and> \<not> has (aflags c) DMA_ATTACH_EVENT_PER_SEGMENT)"

lemma not_busy_cleared: "\<not> has (w AND NOT DMACH_BUSY) DMACH_BUSY"
  by (simp add: has_def and.assoc)

lemma setup_cbs_from_flags: "setup_cbs_from n t i c = Inr (b, c') \<Longrightarrow> aflags c' = aflags c \<and> mflags c' = mflags c"
proof (induction n arbitrary: i c)
  case (Suc n)
  then show ?case by (auto simp: Let_def split: option.splits)
qed simp

lemma setup_flags:
  assumes "dma_setup_xfer os c (Some t) = Inr (r, c')"
  shows "status c' = status c \<and> aflags c' = aflags c \<and> (r = Ok () \<longrightarrow> mflags c' = mode_flags t)"
proof -
  have "status c' = status c" using dma_setup_xfer_frame [OF assms] by (simp add: same_channel_def)
  moreover have "aflags c' = aflags c \<and> (r = Ok () \<longrightarrow> mflags c' = mode_flags t)"
    using assms
    by (auto simp: dma_setup_xfer_def dma_setup_cbs_def Let_def dest!: setup_cbs_from_flags
        split: if_splits ret.splits prod.splits)
  ultimately show ?thesis by simp
qed

lemma setup_idle:
  assumes "dma_setup_xfer os c (Some t) = Inr (r, c')" and "idle_chan (Some c)"
  shows "idle_chan (Some c')"
  using setup_flags [OF assms(1)] assms(2) by (simp add: idle_chan_def)

lemma abort_idle:
  assumes "dma_xfer_abort dev c g = (r, c', g')" and "\<not> has (aflags c) DMA_ATTACH_EVENT_PER_SEGMENT"
  shows "idle_chan (Some c')"
  using dma_xfer_abort_effect(2) [OF assms(1)] assms(2) by (simp add: idle_chan_def not_busy_cleared)

lemma complete_idle:
  assumes "xfer_complete dev c g = (r, c', g')" and "\<not> has (aflags c) DMA_ATTACH_EVENT_PER_SEGMENT" and "mflags c = 0"
  shows "idle_chan (Some c')"
proof -
  have "finishes dev c g" using assms(2,3) by (simp add: finishes_def has_def)
  then obtain g1 r' where "dma_xfer_abort dev (c\<lparr>frg_count := frg_count c - 1\<rparr>) g1 = (r', c', g')"
    by (rule_tac xfer_complete_cases [OF assms(1)]) auto
  then show ?thesis using abort_idle assms(2) by fastforce
qed

text \<open>Started by this driver: attached for one event, not repeating.\<close>

definition started :: "dma_channel option \<Rightarrow> bool" where
  "started ch = (case ch of None \<Rightarrow> False | Some c \<Rightarrow> \<not> has (aflags c) DMA_ATTACH_EVENT_PER_SEGMENT \<and> mflags c = 0)"

lemma wait_dma_idle:
  assumes "wait_dma dev ev spi g = Inr (r, spi', g')" and "started (sp_rx_ch spi)" and "started (sp_tx_ch spi)"
  shows "idle_chan (sp_rx_ch spi') \<and> idle_chan (sp_tx_ch spi')"
proof -
  obtain rx tx where ch: "sp_rx_ch spi = Some rx" "sp_tx_ch spi = Some tx"
    using assms(2,3) by (auto simp: started_def split: option.splits)
  have ok: "\<not> has (aflags rx) DMA_ATTACH_EVENT_PER_SEGMENT" "mflags rx = 0" "\<not> has (aflags tx) DMA_ATTACH_EVENT_PER_SEGMENT" "mflags tx = 0"
    using assms(2,3) ch by (simp_all add: started_def)
  show ?thesis
  proof (cases ev)
    case Posted
    obtain left g1 where l: "dma_bytes_left dev rx g = (left, g1)" by (rule prod.exhaust)
    obtain r1 rx1 g2 where c1: "xfer_complete dev rx g1 = (r1, rx1, g2)" by (rule prod_cases3)
    obtain r2 tx1 g3 where c2: "xfer_complete dev tx g2 = (r2, tx1, g3)" by (rule prod_cases3)
    have "sp_rx_ch spi' = Some rx1 \<and> sp_tx_ch spi' = Some tx1"
      using assms(1) Posted ch l c1 c2 by (auto simp: wait_dma_def handle_def)
    then show ?thesis using complete_idle [OF c1] complete_idle [OF c2] ok by simp
  next
    case (Sem_error e)
    obtain r1 rx1 g2 where c1: "dma_xfer_abort dev rx g = (r1, rx1, g2)" by (rule prod_cases3)
    obtain r2 tx1 g3 where c2: "dma_xfer_abort dev tx g2 = (r2, tx1, g3)" by (rule prod_cases3)
    have "sp_rx_ch spi' = Some rx1 \<and> sp_tx_ch spi' = Some tx1"
      using assms(1) Sem_error ch c1 c2 by (auto simp: wait_dma_def handle_def)
    then show ?thesis using abort_idle [OF c1] abort_idle [OF c2] ok by simp
  qed
qed

lemma start_idle:
  assumes "start_channel ch g = Inr (r, ch', g')" and "idle_chan ch" and "started ch"
  shows "r = Ok () \<and> started ch'"
  using assms
  by (auto simp: start_channel_def handle_def dma_start_def idle_chan_def started_def Let_def
      split: option.splits prod.splits if_splits)

lemma start_total: "idle_chan ch \<Longrightarrow> \<exists>r ch' g'. start_channel ch g = Inr (r, ch', g')"
  by (cases ch) (simp_all add: start_channel_def handle_def idle_chan_def case_prod_beta)

lemma run_dma_idle:
  assumes "run_dma dev (Some ev) d addr spi io = Inr (r, spi', d', addr', io')"
    and "idle_chan (sp_rx_ch spi)" and "started (sp_rx_ch spi)" and "idle_chan (sp_tx_ch spi)" and "started (sp_tx_ch spi)"
  shows "idle_chan (sp_rx_ch spi') \<and> idle_chan (sp_tx_ch spi')"
proof -
  obtain r1 rx g1 where s1: "start_channel (sp_rx_ch spi) (io_dma io) = Inr (r1, rx, g1)"
    using start_total [OF assms(2)] by blast
  obtain r2 tx g2 where s2: "start_channel (sp_tx_ch spi) g1 = Inr (r2, tx, g2)"
    using start_total [OF assms(4)] by blast
  note st = start_idle [OF s1 assms(2,3)] start_idle [OF s2 assms(4,5)]
  obtain q s3 g3 where w: "wait_dma dev ev (spi\<lparr>sp_rx_ch := rx, sp_tx_ch := tx\<rparr>) g2 = Inr (q, s3, g3)"
    and "spi' = s3"
    using assms(1) s1 s2 st by (auto simp: run_dma_def Let_def)
  then show ?thesis using wait_dma_idle [OF w] st by simp
qed

lemma setup_dma_idle:
  assumes "bcm2711_setup_dma os addr spi = Inr (r, addr', spi')"
    and "idle_chan (sp_rx_ch spi)" and "idle_chan (sp_tx_ch spi)"
  shows "idle_chan (sp_rx_ch spi') \<and> idle_chan (sp_tx_ch spi')
    \<and> (r = Ok () \<longrightarrow> started (sp_rx_ch spi') \<and> started (sp_tx_ch spi'))"
proof -
  obtain rx tx where ch: "sp_rx_ch spi = Some rx" "sp_tx_ch spi = Some tx"
    using assms(2,3) by (auto simp: idle_chan_def split: option.splits)
  have same: "sp_tx_ch (get_dma_dreq spi) = sp_tx_ch spi" "sp_rx_ch (get_dma_dreq spi) = sp_rx_ch spi"
    by (simp_all add: get_dma_dreq_def)
  have fl: "mode_flags (tx_transfer s a) = 0" "mode_flags (rx_transfer s a) = 0" for s a
    by (simp_all add: tx_transfer_def rx_transfer_def)
  obtain r1 tx' where s1: "dma_setup_xfer os tx (Some (tx_transfer (get_dma_dreq spi) addr)) = Inr (r1, tx')"
    using assms(1) ch by (auto simp: bcm2711_setup_dma_def Let_def handle_def same)
  note i1 = setup_idle [OF s1] setup_flags [OF s1]
  show ?thesis
  proof (cases r1)
    case (Fail e)
    then show ?thesis using assms ch s1 i1 by (auto simp: bcm2711_setup_dma_def Let_def handle_def same)
  next
    case (Ok u)
    obtain r2 rx' where s2: "dma_setup_xfer os rx (Some (rx_transfer ((get_dma_dreq spi)\<lparr>sp_tx_ch := Some tx'\<rparr>)
        (addr\<lparr>da_len := sp_tnbytes (get_dma_dreq spi)\<rparr>))) = Inr (r2, rx')"
      using assms(1) ch s1 Ok by (auto simp: bcm2711_setup_dma_def Let_def handle_def same)
    note i2 = setup_idle [OF s2] setup_flags [OF s2]
    have "r = r2" "spi' = (get_dma_dreq spi)\<lparr>sp_tx_ch := Some tx', sp_rx_ch := Some rx'\<rparr>"
      using assms(1) ch s1 Ok s2 by (simp_all add: bcm2711_setup_dma_def Let_def handle_def same)
    then show ?thesis using i1 i2 assms(2,3) ch Ok by (simp add: started_def fl idle_chan_def)
  qed
qed

lemma run_dma_waits:
  assumes "run_dma dev None d addr spi io = Inr (Some r, spi', d', addr', io')"
    and "idle_chan (sp_rx_ch spi)" and "started (sp_rx_ch spi)" and "idle_chan (sp_tx_ch spi)" and "started (sp_tx_ch spi)"
  shows False
proof -
  obtain r1 rx g1 where s1: "start_channel (sp_rx_ch spi) (io_dma io) = Inr (r1, rx, g1)"
    using start_total [OF assms(2)] by blast
  obtain r2 tx g2 where s2: "start_channel (sp_tx_ch spi) g1 = Inr (r2, tx, g2)"
    using start_total [OF assms(4)] by blast
  show False
    using start_idle [OF s1 assms(2,3)] start_idle [OF s2 assms(4,5)] assms(1) s1 s2
    by (simp add: run_dma_def Let_def)
qed

text \<open>A transfer by interrupt does not touch the channels.\<close>

definition same_chans :: "spi \<Rightarrow> spi \<Rightarrow> bool" where
  "same_chans s s' \<longleftrightarrow> sp_rx_ch s' = sp_rx_ch s \<and> sp_tx_ch s' = sp_tx_ch s"

lemma fill_fifo_chans: "fill_fifo k p spi h = Inr (spi', h') \<Longrightarrow> same_chans spi spi'"
  by (induction k arbitrary: spi h) (auto simp: same_chans_def send_byte_def Let_def case_prod_beta split: if_splits)

lemma drain_fifo_chans: "drain_fifo k p spi h = Inr (spi', h') \<Longrightarrow> same_chans spi spi'"
  by (induction k arbitrary: spi h) (auto simp: same_chans_def Let_def case_prod_beta split: if_splits)

lemma prefill_chans: "prefill k spi h = Inr (spi', h') \<Longrightarrow> same_chans spi spi'"
  by (induction k arbitrary: spi h) (auto simp: same_chans_def send_byte_def split: if_splits)

lemma process_chans: "process_interrupts p spi h = Inr (done, spi', h') \<Longrightarrow> same_chans spi spi'"
  by (auto simp: process_interrupts_def Let_def case_prod_beta same_chans_def
      simp del: fill_fifo.simps drain_fifo.simps
      dest!: fill_fifo_chans [unfolded same_chans_def] drain_fifo_chans [unfolded same_chans_def] split: if_splits)

lemma wait_chans: "wait_interrupts p evs spi h = Inr (r, spi', h') \<Longrightarrow> same_chans spi spi'"
proof (induction evs arbitrary: spi h)
  case (Cons ev evs)
  then show ?case
    by (cases ev) (auto simp: same_chans_def dest!: process_chans [unfolded same_chans_def] split: if_splits)
qed (simp add: same_chans_def)

lemma xfer_chans: "bcm2711spi_xfer p evs d b tn rn spi h = Inr (r, spi', h') \<Longrightarrow> same_chans spi spi'"
  by (auto simp: bcm2711spi_xfer_def Let_def case_prod_beta same_chans_def set_lengths_def simp del: prefill.simps
      dest!: prefill_chans [unfolded same_chans_def] wait_chans [unfolded same_chans_def] split: option.splits)

text \<open>C33: Whatever way a DMA transfer call returns, refused, failed in the set-up, timed out, ended by an error of the
  engine or complete, both channels are idle again, so that the next call is not refused because of
  this one.\<close>

theorem spi_dmaxfer_leaves_idle:
  assumes "bcm2711spi_dmaxfer ab os dev p evs d addr b tn rn spi io = Inr (Some r, spi', d', addr', io')"
    and "idle_chan (sp_rx_ch spi)" and "idle_chan (sp_tx_ch spi)"
  shows "idle_chan (sp_rx_ch spi') \<and> idle_chan (sp_tx_ch spi')"
proof -
  define w where "w = drop_bit 3 (sd_mode d AND mode_width_mask ab)"
  define s0 where "s0 = spi\<lparr>sp_dma_active := True, sp_dwidth := w\<rparr>"
  define s1 where "s1 = set_lengths tn rn s0"
  have i: "idle_chan (sp_rx_ch s0)" "idle_chan (sp_tx_ch s0)" "idle_chan (sp_rx_ch s1)" "idle_chan (sp_tx_ch s1)"
    using assms(2,3) by (simp_all add: s0_def s1_def set_lengths_def)
  have dw: "sp_dwidth s0 = w" "sp_dwidth s1 = w" by (simp_all add: s0_def s1_def set_lengths_def)
  note run = assms(1) [unfolded bcm2711spi_dmaxfer_def Let_def, folded w_def, folded s0_def, folded s1_def]
  show ?thesis
  proof (cases "w = 1")
    case True
    obtain q s h where x: "bcm2711spi_xfer p evs d b tn rn s0 (io_hist io) = Inr (q, s, h)"
      using run [unfolded dw if_P [OF True]] by auto
    then have "spi' = s" using run [unfolded dw if_P [OF True] x] by simp
    then show ?thesis using xfer_chans [OF x] i by (simp add: same_chans_def)
  next
    case w1: False
    note run = run [unfolded dw if_not_P [OF w1]]
    show ?thesis
    proof (cases "w \<noteq> 4 \<or> sp_xlen s1 mod w \<noteq> 0")
      case True
      then have "spi' = s1" using run [unfolded if_P [OF True]] by simp
      then show ?thesis using i by simp
    next
      case False
      note run = run [unfolded if_not_P [OF False]]
      obtain t where t: "transfer_time (sp_xlen s1) (sd_clock_rate d) = Inr t"
        by (cases "transfer_time (sp_xlen s1) (sd_clock_rate d)") (use run in simp_all)
      define s2 where "s2 = s1\<lparr>sp_rcnt := 0, sp_dtime := t\<rparr>"
      note run = run [unfolded t bind_result_Inr, folded s2_def]
      have i2: "idle_chan (sp_rx_ch s2)" "idle_chan (sp_tx_ch s2)" using i by (simp_all add: s2_def)
      obtain r1 a1 s3 where su: "bcm2711_setup_dma os addr s2 = Inr (r1, a1, s3)"
        by (cases "bcm2711_setup_dma os addr s2") (use run in auto)
      note i3 = setup_dma_idle [OF su i2]
      note run = run [unfolded su bind_result_Inr prod.case]
      show ?thesis
      proof (cases r1)
        case (Fail e)
        then have "spi' = s3" using run by simp
        then show ?thesis using i3 by simp
      next
        case (Ok u)
        note run = run [unfolded Ok ret.case]
        show ?thesis
        proof (cases evs)
          case Nil
          then show ?thesis using run_dma_waits [OF run [unfolded Nil list.case]] i3 Ok by simp
        next
          case (Cons ev evs')
          then show ?thesis using run_dma_idle [OF run [unfolded Cons list.case]] i3 Ok by simp
        qed
      qed
    qed
  qed
qed

lemma run_dma_timeout:
  assumes "idle_chan (sp_rx_ch spi)" and "started (sp_rx_ch spi)" and "idle_chan (sp_tx_ch spi)" and "started (sp_tx_ch spi)"
  shows "\<exists>spi' d' addr' io'. run_dma dev (Some (Sem_error e)) d addr spi io = Inr (Some (Fail e), spi', d', addr', io')"
proof -
  obtain r1 rx g1 where s1: "start_channel (sp_rx_ch spi) (io_dma io) = Inr (r1, rx, g1)"
    using start_total [OF assms(1)] by blast
  obtain r2 tx g2 where s2: "start_channel (sp_tx_ch spi) g1 = Inr (r2, tx, g2)"
    using start_total [OF assms(3)] by blast
  obtain c1 c2 where "rx = Some c1" "tx = Some c2"
    using start_idle [OF s1 assms(1,2)] start_idle [OF s2 assms(3,4)] by (auto simp: started_def split: option.splits)
  then show ?thesis
    using start_idle [OF s1 assms(1,2)] start_idle [OF s2 assms(3,4)] s1 s2
    by (simp add: run_dma_def Let_def wait_dma_def handle_def case_prod_beta)
qed

definition quiet_dev :: device where "quiet_dev a n = 0"

definition sample_addr :: dma_addr where
  "sample_addr = \<lparr>da_vaddr = 0x8000, da_paddr = 0x2000, da_len = 0\<rparr>"

lemma sample_dmaxfer_times_out:
  "\<exists>spi' d' addr' io'. bcm2711spi_dmaxfer spi_sample_abi sample_os quiet_dev loop_port [Sem_error ETIMEDOUT] dma_dev sample_addr [] 64 64
     dma_spi \<lparr>io_hist = [], io_dma = \<lparr>now = 0, log = []\<rparr>\<rparr> = Inr (Some (Fail ETIMEDOUT), spi', d', addr', io')"
proof -
  define s where "s = (set_lengths 64 64 (dma_spi\<lparr>sp_dma_active := True, sp_dwidth := 4\<rparr>))\<lparr>sp_rcnt := 0, sp_dtime := 64\<rparr>"
  have "setup_ok (bcm2711_setup_dma sample_os sample_addr s) \<noteq> None" unfolding s_def by code_simp
  then obtain a s1 where su: "bcm2711_setup_dma sample_os sample_addr s = Inr (Ok (), a, s1)" by (auto simp: setup_ok_iff)
  have "idle_chan (sp_rx_ch s)" "idle_chan (sp_tx_ch s)" unfolding s_def by code_simp+
  note i = setup_dma_idle [OF su this]
  have t: "transfer_time 64 1000000 = Inr 64" by code_simp
  have dw: "sp_dwidth (set_lengths tn rn x) = sp_dwidth x" for tn rn x by (simp add: set_lengths_def)
  have w: "sd_mode dma_dev AND mode_width_mask spi_sample_abi = 32" "sd_clock_rate dma_dev = 1000000"
    by (simp_all add: dma_dev_def spi_sample_abi_def)
  show ?thesis
    using i su t
    by (simp add: bcm2711spi_dmaxfer_def w dw Let_def s_def out_len_def in_len_def) (rule run_dma_timeout; simp)
qed

theorem spi_dmaxfer_leaves_idle_witness:
  "\<exists>spi' d' addr' io'. bcm2711spi_dmaxfer spi_sample_abi sample_os quiet_dev loop_port [Sem_error ETIMEDOUT] dma_dev sample_addr [] 64 64
     dma_spi \<lparr>io_hist = [], io_dma = \<lparr>now = 0, log = []\<rparr>\<rparr> = Inr (Some (Fail ETIMEDOUT), spi', d', addr', io')
     \<and> idle_chan (sp_rx_ch spi') \<and> idle_chan (sp_tx_ch spi')"
proof -
  have "idle_chan (sp_rx_ch dma_spi)" "idle_chan (sp_tx_ch dma_spi)" by code_simp+
  moreover obtain spi' d' addr' io' where "bcm2711spi_dmaxfer spi_sample_abi sample_os quiet_dev loop_port [Sem_error ETIMEDOUT]
      dma_dev sample_addr [] 64 64 dma_spi \<lparr>io_hist = [], io_dma = \<lparr>now = 0, log = []\<rparr>\<rparr>
      = Inr (Some (Fail ETIMEDOUT), spi', d', addr', io')" using sample_dmaxfer_times_out by blast
  ultimately show ?thesis using spi_dmaxfer_leaves_idle by fast
qed

text \<open>
  The control word of a device keeps the DMA bits after its first DMA transfer: a later transfer
  by interrupt for it, without a configuration in between, starts the controller with DMA requests
  enabled.
\<close>

lemma spi_dma_bits_stay:
  assumes "idle_chan (sp_rx_ch spi)" and "started (sp_rx_ch spi)" and "idle_chan (sp_tx_ch spi)" and "started (sp_tx_ch spi)"
    and "run_dma dev (Some (Sem_error e)) d addr spi io = Inr (Some r, spi', d', addr', io')"
  shows "sd_devctrl d' = sd_devctrl d OR (CS_DMAEN OR CS_TA OR CS_ADCS)"
proof -
  obtain r1 rx g1 where s1: "start_channel (sp_rx_ch spi) (io_dma io) = Inr (r1, rx, g1)"
    using start_total [OF assms(1)] by blast
  obtain r2 tx g2 where s2: "start_channel (sp_tx_ch spi) g1 = Inr (r2, tx, g2)"
    using start_total [OF assms(3)] by blast
  show ?thesis
    using start_idle [OF s1 assms(1,2)] start_idle [OF s2 assms(3,4)] s1 s2 assms(5)
    by (auto simp: run_dma_def Let_def)
qed

end
