(* ===== verification/Mmu_Props.thy ===== *)
theory Mmu_Props
  imports Mmu Ram_Alloc
begin

text \<open>
  Properties of \<open>Mmu\<close>: the tables form a tree of distinct pages taken from the free RAM, and mapping a range changes
  exactly the descriptors of its pages.
\<close>

section \<open>Words in memory\<close>

lemma rd64_wr64_same: "rd64 a (wr64 a v m) = v"
proof -
  have u: "unat (of_nat i :: u64) = i" if "i < 8" for i using that by (simp add: unat_of_nat)
  have "map (\<lambda>i. wr64 a v m (a + of_nat i)) [0..<8] = map ((!) (le_bytes 8 v)) [0..<8]"
    by (rule map_cong) (auto simp: wr64_def u)
  also have "\<dots> = le_bytes 8 v" using map_nth [of "le_bytes 8 v"] by simp
  finally show ?thesis by (simp add: rd64_def)
qed

text \<open>Aligned words do not overlap.\<close>

lemma aligned_apart:
  assumes "8 dvd unat a" and "8 dvd unat (b :: u64)" and "a \<noteq> b" and "i < 8"
  shows "\<not> unat (b + of_nat i - a) < 8"
proof
  assume l: "unat (b + of_nat i - a) < 8"
  define d where "d = b + of_nat i - a"
  have ui: "unat (of_nat i :: u64) = i" using assms(4) by (simp add: unat_of_nat)
  have "a + d = b + of_nat i" by (simp add: d_def)
  then have e: "(unat a + unat d) mod 2 ^ 64 = (unat b + i) mod 2 ^ 64"
    using unat_word_ariths(1) [of a d] unat_word_ariths(1) [of b "of_nat i"] ui by simp
  obtain x y where xy: "unat a = 8 * x" "unat b = 8 * y" using assms(1,2) by blast
  have bounds: "unat a < 2 ^ 64" "unat b < 2 ^ 64" using unsigned_less [of a] unsigned_less [of b] by simp_all
  have "8 * x + unat d < 2 ^ 64" "8 * y + i < 2 ^ 64" using bounds xy l assms(4) by (simp_all add: d_def)
  then have "8 * x + unat d = 8 * y + i" using e xy by simp
  then have "x = y" using l assms(4) by (simp add: d_def)
  then show False using xy assms(3) by (simp add: word_eq_nat)
qed

lemma rd64_wr64_other:
  assumes "8 dvd unat a" and "8 dvd unat b" and "a \<noteq> b"
  shows "rd64 b (wr64 a v m) = rd64 b m"
proof -
  have "map (\<lambda>i. wr64 a v m (b + of_nat i)) [0..<8] = map (\<lambda>i. m (b + of_nat i)) [0..<8]"
    using aligned_apart [OF assms] by (auto simp: wr64_def)
  then show ?thesis unfolding rd64_def by (rule arg_cong)
qed

section \<open>Entries of tables\<close>

definition page_ok :: "paddr_t \<Rightarrow> bool" where
  "page_ok t \<longleftrightarrow> 4096 dvd unat t \<and> unat t < 2 ^ 48"

lemma unat_entry:
  assumes "page_ok t" and "i < 512"
  shows "unat (t + 8 * of_nat i) = unat t + 8 * i"
proof -
  have "unat (of_nat i :: u64) = i" using assms(2) by (simp add: unat_of_nat)
  then have "unat (8 * of_nat i :: u64) = 8 * i" using assms(2) by (subst unat_mult_lem [THEN iffD1]) simp_all
  then show ?thesis using assms by (simp add: page_ok_def unat_add_noov)
qed

lemma entry_apart:
  assumes "page_ok t" and "page_ok t'" and "i < 512" and "i' < 512"
  shows "t + 8 * of_nat i = t' + 8 * of_nat i' \<longleftrightarrow> t = t' \<and> i = i'"
proof
  assume "t + 8 * of_nat i = t' + 8 * of_nat i'"
  then have e: "unat t + 8 * i = unat t' + 8 * i'" using unat_entry assms by metis
  obtain x where x: "unat t = 4096 * x" using assms(1) unfolding page_ok_def by blast
  obtain y where y: "unat t' = 4096 * y" using assms(2) unfolding page_ok_def by blast
  have "x = (4096 * x + 8 * i) div 4096" "y = (4096 * y + 8 * i') div 4096" using assms(3,4) by simp_all
  then have "x = y" using e x y by metis
  with e x y show "t = t' \<and> i = i'" by (simp add: word_eq_nat)
qed auto

lemma entry_aligned: "page_ok t \<Longrightarrow> i < 512 \<Longrightarrow> 8 dvd unat (t + 8 * of_nat i)"
  by (auto simp: unat_entry page_ok_def intro: dvd_trans [of 8 4096])

lemma entry_put:
  assumes "page_ok t" and "page_ok t'" and "i < 512" and "i' < 512"
  shows "entry t' i' (put_entry t i v st) = (if t' = t \<and> i' = i then v else entry t' i' st)"
proof (cases "t' = t \<and> i' = i")
  case False
  then have "t + 8 * of_nat i \<noteq> t' + 8 * of_nat i'" using entry_apart [OF assms] by blast
  then show ?thesis
    using False rd64_wr64_other [OF entry_aligned entry_aligned, of t i t' i'] assms by (auto simp: entry_def put_entry_def)
qed (simp add: entry_def put_entry_def rd64_wr64_same)

lemma put_entry_same [simp]:
  "ram_list (put_entry t i v st) = ram_list st" "avoid_list (put_entry t i v st) = avoid_list st"
  "avoid_set (put_entry t i v st) = avoid_set st" "ram_inv (put_entry t i v st) = ram_inv st"
  by (simp_all add: put_entry_def ram_inv_def)

section \<open>The setting\<close>

text \<open>
  The documented bits for 4 KiB pages: bits 12 to 47 of a descriptor hold the address, a table or page has the lowest two
  bits set, and nine bits of the address select an entry on each level.
\<close>

definition addr_mask :: u64 where "addr_mask = 0x0000fffffffff000"

definition flag_bits :: "mmu_abi \<Rightarrow> u64 set" where
  "flag_bits a = {PTE_AF a, PTE_URW a, PTE_KRW a, PTE_URO a, PTE_KRO a, PTE_UXN a, PTE_PXN a, PTE_SODEV a, PTE_DEV a, PTE_NC a,
     PTE_WBWA a, PTE_ISH a, PTE_nG a}"

definition mmu_ok :: "'b mmu_env_scheme \<Rightarrow> bool" where
  "mmu_ok env \<longleftrightarrow> pagesize env = 0x1000 \<and> \<not> secure_system env \<and> paddr_bias env = 0 \<and> hdr_virtual env
     \<and> PTE_VALID (mmu env) = 3 \<and> PTP_VALID (mmu env) = 1 \<and> PTP_BLOCK (mmu env) = 1 \<and> PTP_TYPE (mmu env) = (\<lambda>x. x AND 3)
     \<and> (\<forall>f \<in> flag_bits (mmu env). f AND addr_mask = 0 \<and> f AND PTE_CONTIG (mmu env) = 0)
     \<and> PTE_CONTIG (mmu env) = 2 ^ 52
     \<and> L1_IDX (mmu env) = (\<lambda>v. unat v div 2 ^ 30 mod 512) \<and> L2_IDX (mmu env) = (\<lambda>v. unat v div 2 ^ 21 mod 512)
     \<and> L3_IDX (mmu env) = (\<lambda>v. unat v div 2 ^ 12 mod 512) \<and> L3_VOFF (mmu env) = (\<lambda>v. v AND 0xfff)
     \<and> L1_L1_IDX (mmu env) < 512 \<and> L1_L2_IDX (mmu env) < 512 \<and> L2_L2_IDX (mmu env) < 512
     \<and> USER_END (mmu env) = 2 ^ 39 \<and> 2 ^ 64 - 2 ^ 39 \<le> unat (STARTUP_BASE (mmu env))"

lemma mmu_okD:
  assumes "mmu_ok env"
  shows "pagesize env = 0x1000" "\<not> secure_system env" "paddr_bias env = 0" "hdr_virtual env"
    "PTE_VALID (mmu env) = 3" "PTP_VALID (mmu env) = 1" "PTP_BLOCK (mmu env) = 1" "PTP_TYPE (mmu env) = (\<lambda>x. x AND 3)"
    "PTE_CONTIG (mmu env) = 2 ^ 52" "L1_IDX (mmu env) = (\<lambda>v. unat v div 2 ^ 30 mod 512)"
    "L2_IDX (mmu env) = (\<lambda>v. unat v div 2 ^ 21 mod 512)" "L3_IDX (mmu env) = (\<lambda>v. unat v div 2 ^ 12 mod 512)"
    "L3_VOFF (mmu env) = (\<lambda>v. v AND 0xfff)" "USER_END (mmu env) = 2 ^ 39"
    "f \<in> flag_bits (mmu env) \<Longrightarrow> f AND addr_mask = 0" "f \<in> flag_bits (mmu env) \<Longrightarrow> f AND PTE_CONTIG (mmu env) = 0"
    "2 ^ 64 - 2 ^ 39 \<le> unat (STARTUP_BASE (mmu env))"
  using assms by (auto simp: mmu_ok_def)

lemma mmu_ok_simps:
  assumes "mmu_ok env"
  shows "\<not> USE_LARGE_PAGE env" "NPTE_PTBL env = 512" "contig_pages env = 16" "page_mask env = 0xfff" "PTP_PADDR env p = p AND addr_mask"
proof -
  show "\<not> USE_LARGE_PAGE env" "NPTE_PTBL env = 512" "page_mask env = 0xfff" using mmu_okD(1) [OF assms]
    by (simp_all add: USE_LARGE_PAGE_def NPTE_PTBL_def page_mask_def)
  then show "contig_pages env = 16" "PTP_PADDR env p = p AND addr_mask"
    by (simp_all add: contig_pages_def CONTIG_PAGES_def PTP_PADDR_def addr_mask_def and.assoc)
qed

text \<open>An address with flags outside its bits.\<close>

lemma bit_addr_mask: "bit addr_mask n \<longleftrightarrow> 12 \<le> n \<and> n < 48"
proof -
  have "addr_mask = push_bit 12 (mask 36)" by (simp add: addr_mask_def mask_eq_exp_minus_1 push_bit_eq_mult)
  moreover have "bit (push_bit 12 (mask 36) :: u64) n \<longleftrightarrow> 12 \<le> n \<and> n < 48"
    unfolding bit_push_bit_iff bit_mask_iff by auto
  ultimately show ?thesis by simp
qed

lemma bit_page_addr:
  assumes "page_ok p" and "bit p n"
  shows "12 \<le> n \<and> n < 48"
proof -
  have "take_bit 48 p = p" using assms(1)
    by (simp add: word_eq_nat unsigned_take_bit_eq take_bit_nat_eq_self_iff page_ok_def)
  moreover have "take_bit 12 p = 0"
  proof -
    have "unat (take_bit 12 p) = unat p mod 2 ^ 12" unfolding unsigned_take_bit_eq by (rule take_bit_eq_mod)
    then show ?thesis using assms(1) by (simp add: page_ok_def mod_eq_0_iff_dvd unat_eq_zero)
  qed
  ultimately show ?thesis using assms(2) by (metis bit_0_eq bit_take_bit_iff bot_apply bot_bool_def not_le)
qed

lemma paddr_of_desc:
  assumes "page_ok p" and "f AND addr_mask = 0"
  shows "(p OR f) AND addr_mask = p" "p AND f = 0"
proof -
  have f: "bit f n \<Longrightarrow> \<not> (12 \<le> n \<and> n < 48)" for n using assms(2) by (metis bit_0_eq bit_addr_mask bit_and_iff bot_apply bot_bool_def)
  show "(p OR f) AND addr_mask = p" by (rule bit_word_eqI) (use f bit_page_addr [OF assms(1)] in \<open>auto simp: bit_simps bit_addr_mask\<close>)
  show "p AND f = 0" by (rule bit_word_eqI) (use f bit_page_addr [OF assms(1)] in \<open>auto simp: bit_simps\<close>)
qed

lemma desc_add:
  assumes "page_ok p" and "page_ok (p + d)" and "f AND addr_mask = 0"
  shows "(p OR f) + d = (p + d) OR f"
  unfolding disjunctive_add_eq_or [OF paddr_of_desc(2) [OF assms(1,3)], symmetric]
    disjunctive_add_eq_or [OF paddr_of_desc(2) [OF assms(2,3)], symmetric]
  by (simp add: algebra_simps)

text \<open>Bits of a descriptor that do not depend on the address.\<close>

definition pte_flags :: "'b mmu_env_scheme \<Rightarrow> u32 \<Rightarrow> u64" where
  "pte_flags env flags = set_pte env 0 flags"

lemma set_pte_split: "set_pte env p flags = p OR pte_flags env flags"
  by (simp add: pte_flags_def set_pte_def Let_def or.assoc)

lemma or_and_zero: "x AND m = 0 \<Longrightarrow> y AND m = 0 \<Longrightarrow> (x OR y) AND m = (0 :: u64)"
  by (simp add: bit.conj_disj_distrib2)

lemma if_and_zero: "(b \<Longrightarrow> x AND m = 0) \<Longrightarrow> (\<not> b \<Longrightarrow> y AND m = 0) \<Longrightarrow> (if b then x else y) AND m = (0 :: u64)"
  by simp

lemma pte_flags_mask:
  assumes "\<forall>f \<in> flag_bits (mmu env). f AND m = 0" and "PTE_VALID (mmu env) AND m = 0"
  shows "pte_flags env flags AND m = 0"
  using assms unfolding pte_flags_def set_pte_def Let_def
  by (intro or_and_zero if_and_zero) (simp_all add: flag_bits_def)

lemma pte_flags_bits:
  assumes "mmu_ok env"
  shows "pte_flags env flags AND addr_mask = 0" "pte_flags env flags AND 2 ^ 52 = 0" "pte_flags env flags AND 3 = 3"
proof -
  have three: "(3 :: u64) AND addr_mask = 0" "(3 :: u64) AND 2 ^ 52 = 0" by (simp_all add: addr_mask_def)
  note fb = mmu_okD(15,16) [OF assms] mmu_okD(5,9) [OF assms]
  show "pte_flags env flags AND addr_mask = 0" by (rule pte_flags_mask) (use fb three in auto)
  show "pte_flags env flags AND 2 ^ 52 = 0" by (rule pte_flags_mask) (use fb three in auto)
  have "pte_flags env flags = 3 OR (pte_flags env flags)"
    by (simp add: pte_flags_def set_pte_def Let_def or.assoc mmu_okD(5) [OF assms])
  then have "pte_flags env flags AND 3 = (3 OR pte_flags env flags) AND 3" by simp
  also have "\<dots> = 3" by (rule bit_word_eqI) (auto simp: bit_simps)
  finally show "pte_flags env flags AND 3 = 3" .
qed

section \<open>The last level\<close>

definition only_mem :: "'a ram_state_scheme \<Rightarrow> 'a ram_state_scheme \<Rightarrow> bool" where
  "only_mem st st' \<longleftrightarrow> (\<exists>m. st' = st\<lparr>mem := m\<rparr>)"

lemma only_mem_refl [simp]: "only_mem st st"
proof -
  have "st = st\<lparr>mem := mem st\<rparr>" by simp
  then show ?thesis unfolding only_mem_def by blast
qed

lemma only_mem_trans: "only_mem a b \<Longrightarrow> only_mem b c \<Longrightarrow> only_mem a c"
  by (auto simp: only_mem_def)

lemma only_mem_put [simp]: "only_mem st (put_entry t i v st)"
  by (auto simp: only_mem_def put_entry_def)

lemma page_ok_add:
  assumes "page_ok p" and "unat p + 4096 * k < 2 ^ 48"
  shows "unat (p + 4096 * of_nat k) = unat p + 4096 * k" "page_ok (p + 4096 * of_nat k)"
proof -
  have "unat (of_nat k :: u64) = k" using assms(2) by (simp add: unat_of_nat)
  then have "unat (4096 * of_nat k :: u64) = 4096 * k" using assms(2) by (subst unat_mult_lem [THEN iffD1]) simp_all
  then show "unat (p + 4096 * of_nat k) = unat p + 4096 * k" using assms(2) by (simp add: unat_add_noov)
  then show "page_ok (p + 4096 * of_nat k)" using assms by (simp add: page_ok_def)
qed

lemma put_entries_spec:
  assumes "page_ok L" and "i + n \<le> 512" and "f AND addr_mask = 0" and "pagesize env = 0x1000"
    and "page_ok p" and "unat p + 4096 * n < 2 ^ 48"
  shows "only_mem st (put_entries n env L i (p OR f) st)
    \<and> (\<forall>t k. page_ok t \<longrightarrow> k < 512 \<longrightarrow> entry t k (put_entries n env L i (p OR f) st)
        = (if t = L \<and> i \<le> k \<and> k < i + n then (p + 4096 * of_nat (k - i)) OR f else entry t k st))"
  using assms(2,5,6)
proof (induction n arbitrary: i p st)
  case (Suc n)
  let ?st = "put_entry L i (p OR f) st" and ?p = "p + 4096"
  have p: "page_ok ?p" "unat ?p = unat p + 4096" using page_ok_add [OF Suc.prems(2), of 1] Suc.prems(3) by simp_all
  have step: "put_entries (Suc n) env L i (p OR f) st = put_entries n env L (Suc i) (?p OR f) ?st"
    using desc_add [OF Suc.prems(2) p(1) assms(3)] assms(4) by simp
  have IH: "only_mem ?st (put_entries n env L (Suc i) (?p OR f) ?st)"
    "\<And>t k. page_ok t \<Longrightarrow> k < 512 \<Longrightarrow> entry t k (put_entries n env L (Suc i) (?p OR f) ?st)
        = (if t = L \<and> Suc i \<le> k \<and> k < Suc i + n then (?p + 4096 * of_nat (k - Suc i)) OR f else entry t k ?st)"
    using Suc.IH [of "Suc i" ?p ?st] Suc.prems p by auto
  have e: "entry t k ?st = (if t = L \<and> k = i then p OR f else entry t k st)" if "page_ok t" "k < 512" for t k
    by (rule entry_put) (use that assms(1) Suc.prems(1) in auto)
  have shift: "p + 4096 + 4096 * of_nat (k - Suc i) = p + 4096 * of_nat (k - i)" if "Suc i \<le> k" for k
  proof -
    have "k - i = Suc (k - Suc i)" using that by simp
    then show ?thesis by (simp only: of_nat_Suc) (simp add: algebra_simps)
  qed
  show ?case unfolding step
  proof (intro conjI allI impI)
    show "only_mem st (put_entries n env L (Suc i) (?p OR f) ?st)" using only_mem_trans [OF only_mem_put IH(1)] .
    show "entry t k (put_entries n env L (Suc i) (?p OR f) ?st)
        = (if t = L \<and> i \<le> k \<and> k < i + Suc n then (p + 4096 * of_nat (k - i)) OR f else entry t k st)"
      if "page_ok t" "k < 512" for t k
      using IH(2) [OF that] e [OF that] shift [of k] by (auto simp: Suc_le_eq)
  qed
qed auto

text \<open>
  Page numbers: the range starts at page \<open>n0\<close> and ends before \<open>n1\<close>, its first page is mapped to page \<open>p0\<close>.  A page has the
  hint for contiguous entries exactly when its whole aligned group of 16 lies in the range and the group of pages it is
  mapped to is aligned as well.
\<close>

definition contig_at :: "nat \<Rightarrow> nat \<Rightarrow> nat \<Rightarrow> nat \<Rightarrow> bool" where
  "contig_at n0 n1 p0 m \<longleftrightarrow> (let g = m - m mod 16 in n0 \<le> g \<and> g + 16 \<le> n1 \<and> 16 dvd (p0 + (g - n0)))"

definition page_addr :: "nat \<Rightarrow> u64" where
  "page_addr n = 4096 * of_nat n"

definition desc_at :: "u64 \<Rightarrow> nat \<Rightarrow> nat \<Rightarrow> nat \<Rightarrow> nat \<Rightarrow> u64" where
  "desc_at f n0 n1 p0 m = page_addr (p0 + (m - n0)) OR f OR (if contig_at n0 n1 p0 m then 2 ^ 52 else 0)"

lemma unat_page_addr: "n < 2 ^ 52 \<Longrightarrow> unat (page_addr n) = 4096 * n"
proof -
  assume n: "n < 2 ^ 52"
  then have "unat (of_nat n :: u64) = n" by (simp add: unat_of_nat)
  then show ?thesis unfolding page_addr_def using n by (subst unat_mult_lem [THEN iffD1]) simp_all
qed

lemma page_addr_ok: "n < 2 ^ 36 \<Longrightarrow> page_ok (page_addr n)"
  by (simp add: page_ok_def unat_page_addr)

lemma page_addr_add: "page_addr n + 4096 * of_nat k = page_addr (n + k)"
  by (simp add: page_addr_def algebra_simps)

lemma page_addr_less: "m < 2 ^ 52 \<Longrightarrow> n < 2 ^ 52 \<Longrightarrow> page_addr m < page_addr n \<longleftrightarrow> m < n"
  by (simp add: word_less_nat_alt unat_page_addr)

text \<open>The test of the loop.\<close>

lemma and_low_zero: "x AND (2 ^ k - 1) = 0 \<longleftrightarrow> 2 ^ k dvd unat (x :: u64)"
proof -
  have "x AND (2 ^ k - 1) = take_bit k x" by (simp add: take_bit_eq_mask mask_eq_exp_minus_1)
  moreover have "unat (take_bit k x) = unat x mod 2 ^ k" unfolding unsigned_take_bit_eq by (rule take_bit_eq_mod)
  ultimately show ?thesis by (metis mod_eq_0_iff_dvd unat_eq_zero)
qed

lemma use_contig_iff:
  assumes "n \<le> n1" and "n1 < 2 ^ 52" and "q < 2 ^ 36" and "f AND addr_mask = 0" and "mmu_ok env"
  shows "USE_CONTIG (page_addr n) (TRUNCPG env (page_addr q OR f)) (page_addr n1 - page_addr n) (16 * 4096)
    \<longleftrightarrow> n + 16 \<le> n1 \<and> 16 dvd n \<and> 16 dvd q"
proof -
  let ?a = "page_addr n" and ?p = "page_addr q"
  have f: "bit f i \<Longrightarrow> \<not> (12 \<le> i \<and> i < 48)" for i using assms(4) by (metis bit_0_eq bit_addr_mask bit_and_iff bot_apply bot_bool_def)
  have low: "TRUNCPG env (?p OR f) AND (2 ^ 16 - 1) = ?p AND (2 ^ 16 - 1)"
  proof -
    have m: "page_mask env = mask 12" "(2 ^ 16 - 1 :: u64) = mask 16" using mmu_ok_simps(4) [OF assms(5)] by (simp_all add: mask_eq_exp_minus_1)
    show ?thesis unfolding TRUNCPG_def m
      by (rule bit_word_eqI) (auto simp: bit_and_iff bit_or_iff bit_not_iff bit_mask_iff dest: f bit_page_addr [OF page_addr_ok [OF assms(3)]])
  qed
  have "unat ?a = 4096 * n" "unat ?p = 4096 * q" using assms(1-3) by (simp_all add: unat_page_addr)
  then have d: "2 ^ 16 dvd unat ?a \<longleftrightarrow> 16 dvd n" "2 ^ 16 dvd unat ?p \<longleftrightarrow> 16 dvd q"
    using nat_mult_dvd_cancel_disj [of 4096 16 n] nat_mult_dvd_cancel_disj [of 4096 16 q] by simp_all
  have "unat (page_addr n1 - ?a) = 4096 * n1 - 4096 * n" using assms(1,2) by (simp add: unat_sub_le unat_page_addr)
  then have len: "16 * 4096 \<le> page_addr n1 - ?a \<longleftrightarrow> n + 16 \<le> n1" using assms(1) by (auto simp: word_le_nat_alt)
  have "(?a OR TRUNCPG env (?p OR f)) AND (16 * 4096 - 1) = 0 \<longleftrightarrow> ?a AND (2 ^ 16 - 1) = 0 \<and> TRUNCPG env (?p OR f) AND (2 ^ 16 - 1) = 0"
    by (simp add: bit.conj_disj_distrib2 or_eq_0_iff)
  also have "\<dots> \<longleftrightarrow> 16 dvd n \<and> 16 dvd q" unfolding low and_low_zero d by simp
  finally show ?thesis unfolding USE_CONTIG_def len by blast
qed

text \<open>The loop over one table.\<close>

lemma contig_step_exact:
  assumes "n0 \<le> n" and "n \<le> n1" and "n1 < 2 ^ 52" and "p0 + (n1 - n0) < 2 ^ 36" and "f AND addr_mask = 0" and "mmu_ok env"
    and "16 dvd n \<or> \<not> contig_at n0 n1 p0 n"
  shows "contig_step env (page_addr n) (page_addr n1) (page_addr (p0 + (n - n0)) OR f) = (if contig_at n0 n1 p0 n then 16 else 1)"
    and "contig_at n0 n1 p0 n \<Longrightarrow> n + 16 \<le> n1 \<and> 16 dvd n \<and> (\<forall>m. n \<le> m \<longrightarrow> m < n + 16 \<longrightarrow> contig_at n0 n1 p0 m)"
    and "n < n1 \<Longrightarrow> \<not> contig_at n0 n1 p0 n \<Longrightarrow> 16 dvd Suc n \<or> \<not> contig_at n0 n1 p0 (Suc n)"
proof -
  note mmu = mmu_ok_simps [OF assms(6)] mmu_okD(1) [OF assms(6)]
  have uc: "USE_CONTIG (page_addr n) (TRUNCPG env (page_addr (p0 + (n - n0)) OR f)) (page_addr n1 - page_addr n) (16 * 4096)
    \<longleftrightarrow> n + 16 \<le> n1 \<and> 16 dvd n \<and> 16 dvd (p0 + (n - n0))"
    by (rule use_contig_iff [OF assms(2,3) _ assms(5,6)]) (use assms(1,2,4) in linarith)
  have iff: "contig_at n0 n1 p0 n \<longleftrightarrow> n + 16 \<le> n1 \<and> 16 dvd n \<and> 16 dvd (p0 + (n - n0))"
  proof (cases "16 dvd n")
    case True
    then have "n - n mod 16 = n" by simp
    then show ?thesis using assms(1) True unfolding contig_at_def Let_def by metis
  qed (use assms(7) in blast)
  have cp: "of_nat (contig_pages env) * pagesize env = 16 * 4096" by (simp add: mmu)
  show "contig_step env (page_addr n) (page_addr n1) (page_addr (p0 + (n - n0)) OR f) = (if contig_at n0 n1 p0 n then 16 else 1)"
    unfolding contig_step_def cp uc unfolding iff [symmetric] by (simp only: mmu(3))
  show "contig_at n0 n1 p0 n \<Longrightarrow> n + 16 \<le> n1 \<and> 16 dvd n \<and> (\<forall>m. n \<le> m \<longrightarrow> m < n + 16 \<longrightarrow> contig_at n0 n1 p0 m)"
  proof -
    assume c: "contig_at n0 n1 p0 n"
    with iff have d: "n + 16 \<le> n1 \<and> 16 dvd n" by blast
    then have "n - n mod 16 = n" by simp
    have "m - m mod 16 = n" if "n \<le> m" "m < n + 16" for m
    proof -
      obtain j where j: "m = n + j" using le_Suc_ex [OF \<open>n \<le> m\<close>] by blast
      then have "j < 16" using \<open>m < n + 16\<close> by simp
      obtain q where "n = 16 * q" using d by blast
      then have "m mod 16 = j" using j \<open>j < 16\<close> by simp
      then show ?thesis using j by simp
    qed
    then have "contig_at n0 n1 p0 m" if "n \<le> m" "m < n + 16" for m
      using c that \<open>n - n mod 16 = n\<close> unfolding contig_at_def Let_def by metis
    then show ?thesis using d by blast
  qed
  show "16 dvd Suc n \<or> \<not> contig_at n0 n1 p0 (Suc n)" if "n < n1" "\<not> contig_at n0 n1 p0 n"
  proof (cases "16 dvd Suc n")
    case False
    then have "Suc n mod 16 = Suc (n mod 16)" unfolding dvd_eq_mod_eq_0 mod_Suc by (metis gr0I)
    then have "Suc n - Suc n mod 16 = n - n mod 16" by simp
    then show ?thesis using that(2) by (simp add: contig_at_def)
  qed simp
qed

lemma clear_contig:
  assumes "page_ok p" and "f AND 2 ^ 52 = 0"
  shows "(p OR f OR 2 ^ 52) AND NOT (2 ^ 52) = p OR f"
proof (rule bit_word_eqI)
  fix i
  have "bit (f AND 2 ^ 52) 52 = bit f 52" by (simp add: bit_and_iff bit_exp_iff del: power_numeral)
  then have "\<not> bit f 52" unfolding assms(2) by simp
  then show "bit ((p OR f OR 2 ^ 52) AND NOT (2 ^ 52)) i = bit (p OR f) i" if "i < LENGTH(64)"
    using bit_page_addr [OF assms(1), of i] that by (auto simp: bit_and_iff bit_or_iff bit_not_iff bit_exp_iff simp del: power_numeral)
qed

declare map_L3.simps [simp del] map_L2.simps [simp del] map_L1.simps [simp del]

text \<open>From entry \<open>i\<close> on, the pages from \<open>n\<close> are entered until the table or the range ends.\<close>

lemma map_L3_spec:
  fixes st :: "'a ram_state_scheme"
  assumes "n0 \<le> n" and "n \<le> n1" and "n1 < 2 ^ 52" and "p0 + (n1 - n0) < 2 ^ 36" and "f AND addr_mask = 0" and "f AND 2 ^ 52 = 0"
    and "mmu_ok env" and "page_ok L" and "i \<le> 512" and "i mod 512 = n mod 512" and "16 dvd n \<or> \<not> contig_at n0 n1 p0 n"
  defines "n' \<equiv> n + min (512 - i) (n1 - n)"
  shows "\<exists>st'. map_L3 env L i (page_addr n) (page_addr n1) (page_addr (p0 + (n - n0)) OR f) st
      = (page_addr n', page_addr (p0 + (n' - n0)) OR f, st')
    \<and> only_mem st st' \<and> (16 dvd n' \<or> \<not> contig_at n0 n1 p0 n')
    \<and> (\<forall>t k. page_ok t \<longrightarrow> k < 512 \<longrightarrow>
        entry t k st' = (if t = L \<and> i \<le> k \<and> k < i + (n' - n) then desc_at f n0 n1 p0 (n + (k - i)) else entry t k st))"
  using assms(1,2,9-11) unfolding n'_def
proof (induction "512 - i" arbitrary: i n st rule: less_induct)
  case less
  note mmu = mmu_ok_simps [OF assms(7)] mmu_okD(1,9) [OF assms(7)]
  have lt: "page_addr n < page_addr n1 \<longleftrightarrow> n < n1" using less.prems(2) assms(3) by (simp add: page_addr_less)
  show ?case
  proof (cases "i < 512 \<and> n < n1")
    case False
    then have "min (512 - i) (n1 - n) = 0" using less.prems(3) by auto
    then show ?thesis using False lt less.prems(5) by (subst map_L3.simps) (auto simp: mmu)
  next
    case True
    let ?c = "contig_at n0 n1 p0 n" and ?q = "p0 + (n - n0)"
    define s where "s = (if ?c then 16 else 1 :: nat)"
    define g where "g = (if ?c then f OR 2 ^ 52 else f)"
    note cs = contig_step_exact [OF less.prems(1,2) assms(3-5,7) less.prems(5)]
    have s0: "0 < s" "s \<le> 16" by (simp_all add: s_def)
    have room: "i + s \<le> 512"
    proof (cases ?c)
      case True
      then have "n mod 16 = 0" using cs(2) by simp
      then have "i mod 16 = 0" using less.prems(4) mod_mod_cancel [of 16 512 i] mod_mod_cancel [of 16 512 n] by simp
      then show ?thesis using \<open>i < 512 \<and> n < n1\<close> True by (auto simp: s_def)
    qed (use True in \<open>simp add: s_def\<close>)
    have ns: "n + s \<le> n1" using cs(2) True by (simp add: s_def)
    have q: "?q + s < 2 ^ 36" using assms(4) ns less.prems(1) by linarith
    have po: "page_ok (page_addr ?q)" "page_ok (page_addr (?q + s))" by (rule page_addr_ok, use q in simp)+
    have gm: "g AND addr_mask = 0" using assms(5) by (simp add: g_def bit.conj_disj_distrib2 addr_mask_def)
    have g: "(if ?c then (page_addr ?q OR f) OR 2 ^ 52 else page_addr ?q OR f) = page_addr ?q OR g" by (simp add: g_def or.assoc)
    have pte: "(page_addr ?q OR g) + of_nat s * 4096 = page_addr (?q + s) OR g"
    proof -
      have pa: "page_addr ?q + of_nat s * 4096 = page_addr (?q + s)" using page_addr_add [of ?q s] by (simp add: mult.commute)
      show ?thesis using desc_add [OF po(1) _ gm, of "of_nat s * 4096"] po(2) unfolding pa by simp
    qed
    have bk: "(if ?c then (page_addr (?q + s) OR g) AND NOT (2 ^ 52) else page_addr (?q + s) OR g) = page_addr (?q + s) OR f"
      using clear_contig [OF po(2) assms(6)] by (simp add: g_def)
    define st1 where "st1 = put_entries s env L i (page_addr ?q OR g) st"
    have unp: "unat (page_addr ?q) + 4096 * s < 2 ^ 48" using q by (simp add: unat_page_addr)
    have put: "only_mem st st1" "\<And>t k. page_ok t \<Longrightarrow> k < 512 \<Longrightarrow> entry t k st1
        = (if t = L \<and> i \<le> k \<and> k < i + s then (page_addr ?q + 4096 * of_nat (k - i)) OR g else entry t k st)"
      using put_entries_spec [OF assms(8) room gm mmu(6) po(1) unp, of st] unfolding st1_def by blast+
    have step: "map_L3 env L i (page_addr n) (page_addr n1) (page_addr ?q OR f) st
      = map_L3 env L (i + s) (page_addr (n + s)) (page_addr n1) (page_addr (p0 + (n + s - n0)) OR f) st1"
    proof -
      have s16: "s = 16 \<longleftrightarrow> ?c" by (simp add: s_def)
      have "page_addr n + of_nat s * 4096 = page_addr (n + s)" using page_addr_add [of n s] by (simp add: mult.commute)
      moreover have "p0 + (n + s - n0) = ?q + s" using less.prems(1) by simp
      moreover have "contig_step env (page_addr n) (page_addr n1) (page_addr ?q OR f) = s" using cs(1) by (simp add: s_def)
      ultimately show ?thesis
        by (subst map_L3.simps) (simp only: mmu lt True simp_thms if_True Let_def s16 g pte bk st1_def)
    qed
    have inv: "16 dvd n + s \<or> \<not> contig_at n0 n1 p0 (n + s)"
      using cs(2,3) True by (cases ?c) (auto simp: s_def)
    have im: "(i + s) mod 512 = (n + s) mod 512" using less.prems(4) by (metis mod_add_left_eq)
    have shorter: "512 - (i + s) < 512 - i" using s0 True room by simp
    have further: "n0 \<le> n + s" using less.prems(1) by simp
    let ?m = "n + s + min (512 - (i + s)) (n1 - (n + s))"
    have m: "?m = n + min (512 - i) (n1 - n)" using room ns by auto
    obtain st' where IH: "map_L3 env L (i + s) (page_addr (n + s)) (page_addr n1) (page_addr (p0 + (n + s - n0)) OR f) st1
        = (page_addr ?m, page_addr (p0 + (?m - n0)) OR f, st')" "only_mem st1 st'" "16 dvd ?m \<or> \<not> contig_at n0 n1 p0 ?m"
      "\<And>t k. page_ok t \<Longrightarrow> k < 512 \<Longrightarrow> entry t k st' = (if t = L \<and> i + s \<le> k \<and> k < i + s + (?m - (n + s))
          then desc_at f n0 n1 p0 (n + s + (k - (i + s))) else entry t k st1)"
      using less.hyps [OF shorter further ns room im inv, of st1] by blast
    have new: "(page_addr ?q + 4096 * of_nat (k - i)) OR g = desc_at f n0 n1 p0 (n + (k - i))" if "i \<le> k" "k < i + s" for k
    proof -
      have "contig_at n0 n1 p0 (n + (k - i)) = ?c" using cs(2) that by (cases ?c) (auto simp: s_def)
      moreover have "p0 + (n + (k - i) - n0) = ?q + (k - i)" using less.prems(1) by simp
      ultimately show ?thesis by (simp add: desc_at_def g_def page_addr_add or.assoc add.assoc)
    qed
    have "entry t k st' = (if t = L \<and> i \<le> k \<and> k < i + (?m - n) then desc_at f n0 n1 p0 (n + (k - i)) else entry t k st)"
      if "page_ok t" "k < 512" for t k
    proof -
      have "n + s + (k - (i + s)) = n + (k - i)" if "i + s \<le> k" using that by simp
      moreover have "i + s + (?m - (n + s)) = i + (?m - n)" by simp
      ultimately show ?thesis using IH(4) [OF that] put(2) [OF that] new [of k] by auto
    qed
    then show ?thesis unfolding m [symmetric] step using IH(1,3) only_mem_trans [OF put(1) IH(2)] by blast
  qed
qed

section \<open>New tables\<close>

lemma alloc_ram_mem:
  assumes "alloc_ram env NULL_PADDR sz align st = Inr (a, st')" and "a \<noteq> NULL_PADDR" and "ram_inv st" and "is_pow2 (ucast align)"
    and "sz \<noteq> 0" and "\<not> secure_system env"
  shows "mem st' = mem st"
proof -
  from assms(1,2,6) have a: "find_ram sz align 0 0 st = a" and t: "take_ram env a sz st = Inr st'"
    by (auto simp: alloc_ram_def Let_def split: if_splits)
  have "unat a + unat sz < 2 ^ 64" using find_ram_spec(3) [OF a assms(2-4)] by simp
  from take_ram_spec(1) [OF _ this assms(5) t] assms(3) show ?thesis by (simp add: ram_inv_def)
qed

lemma entry_memset:
  assumes "page_ok t" and "page_ok a" and "k < 512"
  shows "rd64 (t + 8 * of_nat k) (memset a 0 0x1000 m) = (if t = a then 0 else rd64 (t + 8 * of_nat k) m)"
proof -
  have b: "unat (t + 8 * of_nat k + of_nat i) = unat t + 8 * k + i" if "i < 8" for i
  proof -
    have "unat (of_nat i :: u64) = i" using that by (simp add: unat_of_nat)
    then show ?thesis using unat_entry [OF assms(1,3)] assms(1,3) that by (simp add: page_ok_def unat_add_noov)
  qed
  have inside: "t + 8 * of_nat k + of_nat i - a < 0x1000 \<longleftrightarrow> t = a" if i: "i < 8" for i
  proof
    assume l: "t + 8 * of_nat k + of_nat i - a < 0x1000"
    obtain x where x: "unat t = 4096 * x" using assms(1) unfolding page_ok_def by blast
    obtain y where y: "unat a = 4096 * y" using assms(2) unfolding page_ok_def by blast
    have small: "unat t < 2 ^ 48" "unat a < 2 ^ 48" using assms by (simp_all add: page_ok_def)
    define w where "w = t + 8 * of_nat k + of_nat i"
    have w: "unat w = 4096 * x + (8 * k + i)" "8 * k + i < 4096" using b [OF i] assms(3) i by (simp_all add: w_def x)
    show "t = a"
    proof (cases "unat a \<le> unat w")
      case True
      then have "unat w - unat a < 4096" using l by (simp add: w_def [symmetric] word_less_nat_alt unat_sub_le)
      then have "4096 * x + (8 * k + i) < 4096 * y + 4096" "4096 * y \<le> 4096 * x + (8 * k + i)" using True w y by simp_all
      then have "x = y" using w(2) by linarith
      then show ?thesis using x y by (simp add: word_eq_nat)
    next
      case False
      then have "unat (w - a) = unat w + 2 ^ 64 - unat a" by (simp add: unat_sub_if_size word_size)
      then have "2 ^ 64 - 2 ^ 48 \<le> unat (w - a)" using small by simp
      then show ?thesis using l by (simp add: w_def [symmetric] word_less_nat_alt)
    qed
  next
    assume "t = a"
    then have "t + 8 * of_nat k + of_nat i - a = 8 * of_nat k + of_nat i" by simp
    moreover have "unat (8 * of_nat k + of_nat i :: u64) = 8 * k + i"
    proof -
      have "unat (of_nat k :: u64) = k" "unat (of_nat i :: u64) = i" using assms(3) i by (simp_all add: unat_of_nat)
      moreover from this have "unat (8 * of_nat k :: u64) = 8 * k" using assms(3) by (subst unat_mult_lem [THEN iffD1]) simp_all
      ultimately show ?thesis using assms(3) i by (simp add: unat_add_noov)
    qed
    ultimately show "t + 8 * of_nat k + of_nat i - a < 0x1000" using assms(3) i by (simp add: word_less_nat_alt)
  qed
  have "map (\<lambda>i. memset a 0 0x1000 m (t + 8 * of_nat k + of_nat i)) [0..<8]
    = (if t = a then replicate 8 0 else map (\<lambda>i. m (t + 8 * of_nat k + of_nat i)) [0..<8])"
    using inside by (auto simp: memset_def intro!: nth_equalityI)
  moreover have "le_value (replicate 8 0) = 0" by (simp add: numeral_eq_Suc)
  ultimately show ?thesis unfolding rd64_def by (cases "t = a") (simp_all only: simp_thms if_True if_False)
qed

lemma pt_alloc_spec:
  fixes st :: "'a ram_state_scheme"
  assumes ok: "mmu_ok env" and inv: "ram_inv st" and low: "ram_set (ram_list st) \<subseteq> {..< 2 ^ 48}"
    and run: "pt_alloc env st = Inr (pte, st')"
  obtains a where "pte AND addr_mask = a" "pte AND 3 = 3" "page_ok a" "{unat a ..< unat a + 4096} \<subseteq> ram_set (ram_list st)"
    "ram_inv st'" "ram_set (ram_list st') = ram_set (ram_list st) - {unat a ..< unat a + 4096}"
    "\<And>t k. page_ok t \<Longrightarrow> k < 512 \<Longrightarrow> entry t k st' = (if t = a then 0 else entry t k st)"
proof -
  note mmu = mmu_okD [OF ok]
  let ?env = "ram_env.truncate env"
  have env: "\<not> secure_system ?env" "paddr_bias ?env = 0" using mmu(2,3) by (simp_all add: ram_env.truncate_def)
  obtain a where run': "calloc_ram ?env 0x1000 0x1000 st = Inr (a, st')" and a: "a \<noteq> NULL_PADDR"
    and pte: "pte = set_pte env a (PROT_READ (mmu env) OR PROT_WRITE (mmu env))"
    using run mmu(1) by (auto simp: pt_alloc_def split: if_splits)
  then obtain st1 where al: "alloc_ram ?env NULL_PADDR 0x1000 0x1000 st = Inr (a, st1)"
    and st': "st' = st1\<lparr>mem := memset a 0 0x1000 (mem st1)\<rparr>"
    using env by (auto simp: calloc_ram_def make_1to1_def split: if_splits)
  have p2: "is_pow2 (ucast (0x1000 :: u32))" using is_pow2I [of 12] by simp
  note f = alloc_ram_found [OF al a inv p2]
  have m: "mem st1 = mem st" by (rule alloc_ram_mem [OF al a inv p2 _ env(1)]) simp
  have sub: "{unat a ..< unat a + 4096} \<subseteq> ram_set (ram_list st)" using f(1) by (auto simp: usable_def)
  have "unat a \<in> ram_set (ram_list st)" using sub by auto
  then have pa: "page_ok a" using f(2) low by (auto simp: page_ok_def)
  show thesis
  proof (rule that [of a])
    show "pte AND addr_mask = a" unfolding pte set_pte_split by (rule paddr_of_desc(1) [OF pa pte_flags_bits(1) [OF ok]])
    show "pte AND 3 = 3"
    proof -
      have "pte AND 3 = (a AND 3) OR 3" unfolding pte set_pte_split by (simp add: bit.conj_disj_distrib2 pte_flags_bits(3) [OF ok])
      moreover have "4 dvd unat a" using pa dvd_trans [of 4 4096 "unat a"] by (simp add: page_ok_def)
      then have "a AND 3 = 0" using and_low_zero [of a 2] by simp
      ultimately show ?thesis by simp
    qed
    show "entry t k st' = (if t = a then 0 else entry t k st)" if "page_ok t" "k < 512" for t k
      using entry_memset [OF that(1) pa that(2)] by (simp add: entry_def st' m)
    show "ram_inv st'" "ram_set (ram_list st') = ram_set (ram_list st) - {unat a ..< unat a + 4096}"
      using f(4,5) by (simp_all add: st' ram_inv_def)
  qed (fact pa sub)+
qed

section \<open>The tree of tables\<close>

text \<open>
  \<open>Root r\<close> is the first-level table \<open>r\<close> (0 for the user half, 1 for the kernel half), \<open>Mid r i\<close> the table its entry \<open>i\<close> refers to, \<open>Leaf r i j\<close> the one
  entry \<open>j\<close> of that refers to.  \<open>ord\<close> holds the entries that are used for mappings; the recursive ones are not in it.
\<close>

datatype slot = Root nat | Mid nat nat | Leaf nat nat nat

definition sub_table :: "paddr_t \<Rightarrow> nat \<Rightarrow> 'a ram_state_scheme \<Rightarrow> paddr_t option" where
  "sub_table t i st = (let e = entry t i st in if e = 0 then None else Some (e AND addr_mask))"

fun table_at :: "(nat \<Rightarrow> paddr_t) \<Rightarrow> 'a ram_state_scheme \<Rightarrow> slot \<Rightarrow> paddr_t option" where
  "table_at R st (Root r) = Some (R r)"
| "table_at R st (Mid r i) = sub_table (R r) i st"
| "table_at R st (Leaf r i j) = (case sub_table (R r) i st of None \<Rightarrow> None | Some t \<Rightarrow> sub_table t j st)"

fun slot_ok :: "(nat \<times> nat \<times> nat) set \<Rightarrow> slot \<Rightarrow> bool" where
  "slot_ok ord (Root r) \<longleftrightarrow> (\<exists>i j. (r, i, j) \<in> ord)"
| "slot_ok ord (Mid r i) \<longleftrightarrow> (\<exists>j. (r, i, j) \<in> ord)"
| "slot_ok ord (Leaf r i j) \<longleftrightarrow> (r, i, j) \<in> ord"

text \<open>The entry that refers to the table of a slot.\<close>

fun slot_entry :: "(nat \<Rightarrow> paddr_t) \<Rightarrow> 'a ram_state_scheme \<Rightarrow> slot \<Rightarrow> (paddr_t \<times> nat) option" where
  "slot_entry R st (Root r) = None"
| "slot_entry R st (Mid r i) = Some (R r, i)"
| "slot_entry R st (Leaf r i j) = map_option (\<lambda>t. (t, j)) (sub_table (R r) i st)"

definition small :: "(nat \<times> nat \<times> nat) set \<Rightarrow> bool" where
  "small ord \<longleftrightarrow> (\<forall>(r, i, j) \<in> ord. i < 512 \<and> j < 512)"

definition tree_inv :: "(nat \<Rightarrow> paddr_t) \<Rightarrow> (nat \<times> nat \<times> nat) set \<Rightarrow> 'a ram_state_scheme \<Rightarrow> bool" where
  "tree_inv R ord st \<longleftrightarrow> ram_inv st \<and> ram_set (ram_list st) \<subseteq> {..< 2 ^ 48}
     \<and> (\<forall>s a. slot_ok ord s \<longrightarrow> table_at R st s = Some a \<longrightarrow> page_ok a \<and> {unat a ..< unat a + 4096} \<inter> ram_set (ram_list st) = {})
     \<and> (\<forall>s s' a. slot_ok ord s \<longrightarrow> slot_ok ord s' \<longrightarrow> table_at R st s = Some a \<longrightarrow> table_at R st s' = Some a \<longrightarrow> s = s')
     \<and> (\<forall>s t i. slot_ok ord s \<longrightarrow> slot_entry R st s = Some (t, i) \<longrightarrow> entry t i st \<noteq> 0 \<longrightarrow> entry t i st AND 3 = 3)"

lemma tree_invD:
  assumes "tree_inv R ord st"
  shows "ram_inv st" "ram_set (ram_list st) \<subseteq> {..< 2 ^ 48}"
    "slot_ok ord s \<Longrightarrow> table_at R st s = Some a \<Longrightarrow> page_ok a"
    "slot_ok ord s \<Longrightarrow> table_at R st s = Some a \<Longrightarrow> {unat a ..< unat a + 4096} \<inter> ram_set (ram_list st) = {}"
    "slot_ok ord s \<Longrightarrow> slot_ok ord s' \<Longrightarrow> table_at R st s = Some a \<Longrightarrow> table_at R st s' = Some a \<Longrightarrow> s = s'"
    "slot_ok ord s \<Longrightarrow> slot_entry R st s = Some (t, i) \<Longrightarrow> entry t i st \<noteq> 0 \<Longrightarrow> entry t i st AND 3 = 3"
  using assms unfolding tree_inv_def by blast+

text \<open>The descriptor of a page.\<close>

definition leaf_entry :: "(nat \<Rightarrow> paddr_t) \<Rightarrow> 'a ram_state_scheme \<Rightarrow> nat \<times> nat \<times> nat \<Rightarrow> nat \<Rightarrow> u64" where
  "leaf_entry R st = (\<lambda>(r, i, j) k. case table_at R st (Leaf r i j) of None \<Rightarrow> 0 | Some t \<Rightarrow> entry t k st)"

text \<open>The table whose entry refers to a slot.\<close>

fun parent :: "slot \<Rightarrow> slot option" where
  "parent (Root r) = None"
| "parent (Mid r i) = Some (Root r)"
| "parent (Leaf r i j) = Some (Mid r i)"

lemma parent_ok: "slot_ok ord s \<Longrightarrow> parent s = Some q \<Longrightarrow> slot_ok ord q"
  by (cases s) (auto, blast)

lemma slot_entry_parent: "slot_entry R st s = Some (t, i) \<Longrightarrow> \<exists>q. parent s = Some q \<and> table_at R st q = Some t"
  by (cases s) auto

lemma slot_entry_small: "small ord \<Longrightarrow> slot_ok ord s \<Longrightarrow> slot_entry R st s = Some (t, i) \<Longrightarrow> i < 512"
  by (cases s) (auto simp: small_def)

lemma slot_entry_inj:
  assumes "tree_inv R ord st" and "slot_ok ord s" and "slot_ok ord s'"
    and "slot_entry R st s = Some (t, i)" and "slot_entry R st s' = Some (t, i)"
  shows "s = s'"
proof -
  obtain q q' where q: "parent s = Some q" "table_at R st q = Some t" "parent s' = Some q'" "table_at R st q' = Some t"
    using slot_entry_parent assms(4,5) by metis
  then have "q = q'" using tree_invD(5) [OF assms(1)] parent_ok assms(2,3) by metis
  then show ?thesis using q assms(4,5) by (cases s; cases s') auto
qed

lemma table_at_entry: "slot_entry R st s = Some (t, i) \<Longrightarrow> table_at R st s = sub_table t i st"
  by (cases s) (auto split: option.splits)

lemma table_at_none: "parent s \<noteq> None \<Longrightarrow> slot_entry R st s = None \<Longrightarrow> table_at R st s = None"
  by (cases s) (auto split: option.splits)

text \<open>A new table in an empty entry.\<close>

lemma grow_tree:
  fixes st st' :: "'a ram_state_scheme"
  assumes inv: "tree_inv R ord st" and sm: "small ord" and ok: "slot_ok ord s" and se: "slot_entry R st s = Some (t, i)"
    and empty: "entry t i st = 0" and a: "pte AND addr_mask = a" "pte AND 3 = 3" "page_ok a"
    and free: "{unat a ..< unat a + 4096} \<subseteq> ram_set (ram_list st)" and inv': "ram_inv st'"
    and rs: "ram_set (ram_list st') = ram_set (ram_list st) - {unat a ..< unat a + 4096}"
    and en: "\<And>u k. page_ok u \<Longrightarrow> k < 512 \<Longrightarrow> entry u k st' = (if u = t \<and> k = i then pte else if u = a then 0 else entry u k st)"
  shows "\<And>q. slot_ok ord q \<Longrightarrow> table_at R st' q = (if q = s then Some a else table_at R st q)" "tree_inv R ord st'"
    "\<And>x k. x \<in> ord \<Longrightarrow> k < 512 \<Longrightarrow> leaf_entry R st' x k = leaf_entry R st x k"
proof -
  have i: "i < 512" using slot_entry_small [OF sm ok se] .
  have p0: "pte \<noteq> 0" using a(2) by auto
  have none: "table_at R st s = None" using table_at_entry [OF se] empty by (simp add: sub_table_def)
  have new: "u \<noteq> a" if "slot_ok ord q" "table_at R st q = Some u" for q u
  proof
    assume "u = a"
    then have "{unat a ..< unat a + 4096} \<inter> ram_set (ram_list st) = {}" using tree_invD(4) [OF inv that] by simp
    moreover have "unat a \<in> {unat a ..< unat a + 4096}" by simp
    ultimately show False using free by blast
  qed
  have sub: "sub_table u k st' = (if u = t \<and> k = i then Some a else sub_table u k st)"
    if "slot_ok ord q" "table_at R st q = Some u" "k < 512" for q u k
    using en [OF tree_invD(3) [OF inv that(1,2)] that(3)] new [OF that(1,2)] p0 a(1) by (simp add: sub_table_def)
  have suba: "sub_table a k st' = None" if "k < 512" for k
  proof -
    obtain q where "parent s = Some q" "table_at R st q = Some t" using slot_entry_parent [OF se] by blast
    then have "a \<noteq> t" using new parent_ok ok by metis
    then show ?thesis using en [OF a(3) that] by (simp add: sub_table_def)
  qed
  have mid: "table_at R st' (Mid r k) = (if Mid r k = s then Some a else table_at R st (Mid r k))" if okm: "slot_ok ord (Mid r k)" for r k
  proof -
    have "slot_ok ord (Root r)" "k < 512" using okm sm by (auto simp: small_def)
    then have "sub_table (R r) k st' = (if R r = t \<and> k = i then Some a else sub_table (R r) k st)" using sub [of "Root r"] by simp
    moreover have "R r = t \<and> k = i \<longleftrightarrow> Mid r k = s" using slot_entry_inj [OF inv okm ok _ se] se by auto
    ultimately show ?thesis by simp
  qed
  show tab: "table_at R st' q = (if q = s then Some a else table_at R st q)" if okq: "slot_ok ord q" for q
  proof (cases q)
    case (Root r)
    then show ?thesis using none by auto
  next
    case (Mid r k)
    then show ?thesis using mid okq by simp
  next
    case (Leaf r k j)
    have okm: "slot_ok ord (Mid r k)" and j: "j < 512" using okq Leaf sm by (auto simp: small_def)
    show ?thesis
    proof (cases "Mid r k = s")
      case True
      then have "sub_table (R r) k st' = Some a" "sub_table (R r) k st = None" using mid [OF okm] none by auto
      then show ?thesis using suba [OF j] Leaf True by auto
    next
      case False
      then have m: "sub_table (R r) k st' = sub_table (R r) k st" using mid [OF okm] by simp
      show ?thesis
      proof (cases "sub_table (R r) k st")
        case None
        then have "q \<noteq> s" using se Leaf by auto
        then show ?thesis using m None Leaf by simp
      next
        case (Some u)
        then have "sub_table u j st' = (if u = t \<and> j = i then Some a else sub_table u j st)" using sub [OF okm] j by simp
        moreover have "u = t \<and> j = i \<longleftrightarrow> q = s" using slot_entry_inj [OF inv okq ok _ se] se Some Leaf by auto
        ultimately show ?thesis using m Some Leaf by simp
      qed
    qed
  qed
  obtain par where par: "parent s = Some par" "table_at R st par = Some t" using slot_entry_parent [OF se] by blast
  have ta: "t \<noteq> a" using new parent_ok [OF ok par(1)] par(2) by blast
  have ent: "entry u k st' AND 3 = 3" if okq: "slot_ok ord q" and sq: "slot_entry R st' q = Some (u, k)" and nz: "entry u k st' \<noteq> 0" for q u k
  proof -
    obtain q' where q': "parent q = Some q'" "table_at R st' q' = Some u" using slot_entry_parent [OF sq] by blast
    have ok': "slot_ok ord q'" by (rule parent_ok [OF okq q'(1)])
    have k: "k < 512" using slot_entry_small [OF sm okq sq] .
    show ?thesis
    proof (cases "q' = s")
      case True
      then have "u = a" using tab [OF ok'] q'(2) by simp
      then show ?thesis using en [OF a(3) k] ta nz by simp
    next
      case False
      then have old: "table_at R st q' = Some u" using tab [OF ok'] q'(2) by simp
      have "slot_entry R st q = Some (u, k)" using sq q'(1) old by (cases q) auto
      then have "entry u k st \<noteq> 0 \<Longrightarrow> entry u k st AND 3 = 3" using tree_invD(6) [OF inv okq] by blast
      then show ?thesis using en [OF tree_invD(3) [OF inv ok' old] k] new [OF ok' old] a(2) nz by (auto split: if_splits)
    qed
  qed
  show "tree_inv R ord st'"
    unfolding tree_inv_def
  proof (intro conjI allI impI)
    show "ram_inv st'" by (rule inv')
    show "ram_set (ram_list st') \<subseteq> {..< 2 ^ 48}" using rs tree_invD(2) [OF inv] by blast
    show "page_ok b" if "slot_ok ord q" "table_at R st' q = Some b" for q b
      using tab [OF that(1)] that tree_invD(3) [OF inv that(1)] a(3) by (auto split: if_splits)
    show "{unat b ..< unat b + 4096} \<inter> ram_set (ram_list st') = {}" if "slot_ok ord q" "table_at R st' q = Some b" for q b
    proof (cases "q = s")
      case True
      then show ?thesis using tab [OF that(1)] that(2) rs by auto
    next
      case False
      then have "table_at R st q = Some b" using tab [OF that(1)] that(2) by simp
      then show ?thesis using tree_invD(4) [OF inv that(1)] rs by blast
    qed
    show "q = q'" if q: "slot_ok ord q" "slot_ok ord q'" "table_at R st' q = Some b" "table_at R st' q' = Some b" for q q' b
    proof -
      have "(if q = s then Some a else table_at R st q) = Some b" "(if q' = s then Some a else table_at R st q') = Some b"
        using tab [OF q(1)] tab [OF q(2)] q(3,4) by simp_all
      then show ?thesis using new [OF q(1)] new [OF q(2)] tree_invD(5) [OF inv q(1,2)] by (metis option.inject)
    qed
  qed (fact ent)
  show "leaf_entry R st' x k = leaf_entry R st x k" if x: "x \<in> ord" and k: "k < 512" for x k
  proof -
    obtain r i' j where xx: "x = (r, i', j)" by (cases x)
    let ?q = "Leaf r i' j"
    have okq: "slot_ok ord ?q" using x xx by simp
    show ?thesis
    proof (cases "?q = s")
      case True
      then have "table_at R st' ?q = Some a" "table_at R st ?q = None" using tab [OF okq] none by auto
      then show ?thesis using en [OF a(3) k] ta by (simp add: leaf_entry_def xx del: table_at.simps)
    next
      case False
      then have e: "table_at R st' ?q = table_at R st ?q" using tab [OF okq] by simp
      have "entry b k st' = entry b k st" if b: "table_at R st ?q = Some b" for b
      proof -
        have "b \<noteq> t" using tree_invD(5) [OF inv okq parent_ok [OF ok par(1)] b] par by (cases s) auto
        then show ?thesis using en [OF tree_invD(3) [OF inv okq b] k] new [OF okq b] by simp
      qed
      then show ?thesis using e by (simp add: leaf_entry_def xx split: option.splits del: table_at.simps)
    qed
  qed
qed

text \<open>Writing into the table of one leaf.\<close>

lemma write_leaf:
  fixes st st' :: "'a ram_state_scheme"
  assumes inv: "tree_inv R ord st" and sm: "small ord" and ok: "(r, i, j) \<in> ord" and L: "table_at R st (Leaf r i j) = Some L"
    and om: "only_mem st st'" and en: "\<And>u k. page_ok u \<Longrightarrow> k < 512 \<Longrightarrow> u \<noteq> L \<Longrightarrow> entry u k st' = entry u k st"
  shows "\<And>q. slot_ok ord q \<Longrightarrow> table_at R st' q = table_at R st q" "tree_inv R ord st'"
    "\<And>x k. x \<in> ord \<Longrightarrow> k < 512 \<Longrightarrow> leaf_entry R st' x k = (if x = (r, i, j) then entry L k st' else leaf_entry R st x k)"
proof -
  have okL: "slot_ok ord (Leaf r i j)" using ok by simp
  have keep: "entry u k st' = entry u k st" if "slot_ok ord q" "table_at R st q = Some u" "q \<noteq> Leaf r i j" "k < 512" for q u k
    using en [OF tree_invD(3) [OF inv that(1,2)] that(4)] tree_invD(5) [OF inv that(1) okL that(2)] L that(3) by blast
  have mid: "sub_table (R r') k st' = sub_table (R r') k st" if "slot_ok ord (Mid r' k)" for r' k
  proof -
    have "slot_ok ord (Root r')" "k < 512" using that sm by (auto simp: small_def)
    then show ?thesis using keep [of "Root r'" "R r'" k] by (simp add: sub_table_def)
  qed
  show tab: "table_at R st' q = table_at R st q" if okq: "slot_ok ord q" for q
  proof (cases q)
    case (Leaf r' k j')
    have okm: "slot_ok ord (Mid r' k)" and j: "j' < 512" using okq Leaf sm by (auto simp: small_def)
    show ?thesis
    proof (cases "sub_table (R r') k st")
      case (Some u)
      then have "sub_table u j' st' = sub_table u j' st" using keep [OF okm, of u j'] j by (simp add: sub_table_def)
      then show ?thesis using mid [OF okm] Leaf Some by simp
    qed (use mid [OF okm] Leaf in simp)
  qed (use mid okq in auto)
  have ram: "ram_list st' = ram_list st" "ram_inv st' = ram_inv st" using om by (auto simp: only_mem_def ram_inv_def)
  have ent: "entry u k st' AND 3 = 3" if okq: "slot_ok ord q" and sq: "slot_entry R st' q = Some (u, k)" and nz: "entry u k st' \<noteq> 0" for q u k
  proof -
    obtain q' where q': "parent q = Some q'" "table_at R st' q' = Some u" using slot_entry_parent [OF sq] by blast
    have ok': "slot_ok ord q'" by (rule parent_ok [OF okq q'(1)])
    have old: "table_at R st q' = Some u" using tab [OF ok'] q'(2) by simp
    have "q' \<noteq> Leaf r i j" using q'(1) by (cases q) auto
    then have "entry u k st' = entry u k st" using keep [OF ok' old] slot_entry_small [OF sm okq sq] by blast
    moreover have "slot_entry R st q = Some (u, k)" using sq q'(1) old by (cases q) auto
    ultimately show ?thesis using tree_invD(6) [OF inv okq] nz by metis
  qed
  show "tree_inv R ord st'" unfolding tree_inv_def ram
  proof (intro conjI allI impI)
    show "ram_inv st" "ram_set (ram_list st) \<subseteq> {..< 2 ^ 48}" using tree_invD(1,2) [OF inv] .
    show "page_ok b" "{unat b ..< unat b + 4096} \<inter> ram_set (ram_list st) = {}" if "slot_ok ord q" "table_at R st' q = Some b" for q b
      using tab [OF that(1)] that(2) tree_invD(3,4) [OF inv that(1)] by auto
    show "q = q'" if q: "slot_ok ord q" "slot_ok ord q'" "table_at R st' q = Some b" "table_at R st' q' = Some b" for q q' b
      using tree_invD(5) [OF inv q(1,2)] q(3,4) unfolding tab [OF q(1)] tab [OF q(2)] by blast
  qed (fact ent)
  show "leaf_entry R st' x k = (if x = (r, i, j) then entry L k st' else leaf_entry R st x k)" if x: "x \<in> ord" and k: "k < 512" for x k
  proof -
    obtain r' i' j' where xx: "x = (r', i', j')" by (cases x)
    have okx: "slot_ok ord (Leaf r' i' j')" using x xx by simp
    have "entry b k st' = entry b k st" if "table_at R st (Leaf r' i' j') = Some b" "x \<noteq> (r, i, j)" for b
      using keep [OF okx that(1) _ k] that(2) xx by auto
    then show ?thesis using tab [OF okx] L xx by (auto simp: leaf_entry_def split: option.splits simp del: table_at.simps)
  qed
qed

text \<open>Following an entry, with a new table when it is empty.\<close>

lemma next_table_spec:
  fixes st st' :: "'a ram_state_scheme"
  assumes ok: "mmu_ok env" and inv: "tree_inv R ord st" and sm: "small ord" and oks: "slot_ok ord s"
    and se: "slot_entry R st s = Some (t, i)" and run: "next_table env t i st = Inr (t', st')"
  shows "tree_inv R ord st' \<and> table_at R st' s = Some t'
    \<and> (\<forall>q b. slot_ok ord q \<longrightarrow> table_at R st q = Some b \<longrightarrow> table_at R st' q = Some b)
    \<and> (\<forall>x \<in> ord. \<forall>k < 512. leaf_entry R st' x k = leaf_entry R st x k)"
proof (cases "entry t i st = 0")
  case False
  then show ?thesis using run inv table_at_entry [OF se]
    by (auto simp: next_table_def sub_table_def mmu_ok_simps [OF ok] simp del: table_at.simps)
next
  case True
  obtain pte st1 where pt: "pt_alloc env st = Inr (pte, st1)" and st': "st' = put_entry t i pte st1"
    and t': "t' = entry t i st' AND addr_mask"
    using run True by (auto simp: next_table_def Let_def mmu_ok_simps [OF ok])
  obtain a where a: "pte AND addr_mask = a" "pte AND 3 = 3" "page_ok a" "{unat a ..< unat a + 4096} \<subseteq> ram_set (ram_list st)"
    "ram_inv st1" "ram_set (ram_list st1) = ram_set (ram_list st) - {unat a ..< unat a + 4096}"
    "\<And>u k. page_ok u \<Longrightarrow> k < 512 \<Longrightarrow> entry u k st1 = (if u = a then 0 else entry u k st)"
    using pt_alloc_spec [OF ok tree_invD(1,2) [OF inv] pt] by blast
  obtain q where q: "parent s = Some q" "table_at R st q = Some t" using slot_entry_parent [OF se] by blast
  have okt: "page_ok t" and i: "i < 512"
    using tree_invD(3) [OF inv parent_ok [OF oks q(1)] q(2)] slot_entry_small [OF sm oks se] by blast+
  have en: "entry u k st' = (if u = t \<and> k = i then pte else if u = a then 0 else entry u k st)" if "page_ok u" "k < 512" for u k
    unfolding st' entry_put [OF okt that(1) i that(2)] a(7) [OF that] by (rule refl)
  have inv': "ram_inv st'" "ram_set (ram_list st') = ram_set (ram_list st) - {unat a ..< unat a + 4096}"
    using a(5,6) by (simp_all add: st')
  have g: "\<And>q. slot_ok ord q \<Longrightarrow> table_at R st' q = (if q = s then Some a else table_at R st q)" "tree_inv R ord st'"
    "\<And>x k. x \<in> ord \<Longrightarrow> k < 512 \<Longrightarrow> leaf_entry R st' x k = leaf_entry R st x k"
    by (rule grow_tree [OF inv sm oks se True a(1-4) inv' en]; assumption)+
  have "table_at R st' s = Some a" using g(1) [OF oks] by simp
  moreover have "t' = a" using en [OF okt i] t' a(1) by simp
  moreover have "table_at R st s = None" using table_at_entry [OF se] True by (simp add: sub_table_def)
  then have "table_at R st' q = Some b" if "slot_ok ord q" "table_at R st q = Some b" for q b
    using g(1) [OF that(1)] that(2) by auto
  ultimately show ?thesis using g(2,3) by blast
qed

section \<open>Mapping a range\<close>

text \<open>The page with the indices \<open>i\<close>, \<open>j\<close> and \<open>k\<close> in a region of 2 to the 27 pages.\<close>

definition page_of :: "nat \<Rightarrow> nat \<Rightarrow> nat \<Rightarrow> nat \<Rightarrow> nat" where
  "page_of reg i j k = ((reg * 512 + i) * 512 + j) * 512 + k"

text \<open>From \<open>st\<close> to \<open>st'\<close> exactly the descriptors of the pages from \<open>n\<close> to \<open>n'\<close> have changed.\<close>

definition mapped_to ::
    "(nat \<Rightarrow> paddr_t) \<Rightarrow> (nat \<times> nat \<times> nat) set \<Rightarrow> (nat \<Rightarrow> u64) \<Rightarrow> nat \<Rightarrow> nat \<Rightarrow> nat \<Rightarrow> nat \<Rightarrow> 'a ram_state_scheme \<Rightarrow> 'a ram_state_scheme \<Rightarrow> bool" where
  "mapped_to R ord d r reg n n' st st' \<longleftrightarrow> (\<forall>r' i j k. (r', i, j) \<in> ord \<longrightarrow> k < 512 \<longrightarrow>
     leaf_entry R st' (r', i, j) k = (if r' = r \<and> n \<le> page_of reg i j k \<and> page_of reg i j k < n' then d (page_of reg i j k)
                                      else leaf_entry R st (r', i, j) k))"

lemma mapped_to_trans:
  "mapped_to R ord d r reg n n' a b \<Longrightarrow> mapped_to R ord d r reg n' n'' b c \<Longrightarrow> n \<le> n' \<Longrightarrow> n' \<le> n'' \<Longrightarrow> mapped_to R ord d r reg n n'' a c"
  by (auto simp: mapped_to_def)

lemma mapped_to_refl: "(\<forall>x \<in> ord. \<forall>k < 512. leaf_entry R b x k = leaf_entry R a x k) \<Longrightarrow> mapped_to R ord d r reg n n a b"
  by (auto simp: mapped_to_def)

definition tables_kept :: "(nat \<Rightarrow> paddr_t) \<Rightarrow> (nat \<times> nat \<times> nat) set \<Rightarrow> 'a ram_state_scheme \<Rightarrow> 'a ram_state_scheme \<Rightarrow> bool" where
  "tables_kept R ord st st' \<longleftrightarrow> (\<forall>q b. slot_ok ord q \<longrightarrow> table_at R st q = Some b \<longrightarrow> table_at R st' q = Some b)"

lemma tables_kept_refl: "tables_kept R ord st st"
  by (simp add: tables_kept_def)

lemma tables_kept_trans: "tables_kept R ord a b \<Longrightarrow> tables_kept R ord b c \<Longrightarrow> tables_kept R ord a c"
  by (simp add: tables_kept_def)

lemma page_index:
  assumes "mmu_ok env" and "n < 2 ^ 52"
  shows "L1_IDX (mmu env) (page_addr n) = n div 262144 mod 512" "L2_IDX (mmu env) (page_addr n) = n div 512 mod 512"
    "L3_IDX (mmu env) (page_addr n) = n mod 512"
  using mmu_okD(10-12) [OF assms(1)] unat_page_addr [OF assms(2)]
    div_mult_mult1 [of 4096 n 262144] div_mult_mult1 [of 4096 n 512] by simp_all

text \<open>The parameters of a mapping.\<close>

definition range_ok :: "(nat \<times> nat \<times> nat) set \<Rightarrow> 'b mmu_env_scheme \<Rightarrow> u64 \<Rightarrow> nat \<Rightarrow> nat \<Rightarrow> nat \<Rightarrow> nat \<Rightarrow> bool" where
  "range_ok ord env f r n0 n1 p0 \<longleftrightarrow> mmu_ok env \<and> small ord \<and> n1 < 2 ^ 52 \<and> p0 + (n1 - n0) < 2 ^ 36
     \<and> f AND addr_mask = 0 \<and> f AND 2 ^ 52 = 0
     \<and> (\<forall>m. n0 \<le> m \<longrightarrow> m < n1 \<longrightarrow> (r, m div 262144 mod 512, m div 512 mod 512) \<in> ord)"

lemma map_L2_spec:
  fixes st :: "'a ram_state_scheme"
  assumes ok: "range_ok ord env f r n0 n1 p0"
    and "n0 \<le> n" and "n \<le> n1" and "tree_inv R ord st" and "table_at R st (Mid r i) = Some L2" and "i < 512" and "j \<le> 512"
    and "n < n1 \<longrightarrow> n div 512 = 512 * (512 * reg + i) + j" and "n < n1 \<longrightarrow> j = 512 \<longrightarrow> n mod 512 = 0"
    and "16 dvd n \<or> \<not> contig_at n0 n1 p0 n"
    and "map_L2 env L2 j (page_addr n) (page_addr n1) (page_addr (p0 + (n - n0)) OR f) st = Inr (va, pte, st')"
  shows "\<exists>n'. n \<le> n' \<and> n' \<le> n1 \<and> (n' = n1 \<or> n' = 262144 * (512 * reg + i + 1)) \<and> va = page_addr n' \<and> pte = page_addr (p0 + (n' - n0)) OR f
    \<and> (16 dvd n' \<or> \<not> contig_at n0 n1 p0 n') \<and> tree_inv R ord st' \<and> tables_kept R ord st st'
    \<and> mapped_to R ord (desc_at f n0 n1 p0) r reg n n' st st'"
  using assms(2-5,7-11)
proof (induction "512 - j" arbitrary: j n st rule: less_induct)
  case less
  have okD: "mmu_ok env" "small ord" "n1 < 2 ^ 52" "p0 + (n1 - n0) < 2 ^ 36" "f AND addr_mask = 0" "f AND 2 ^ 52 = 0"
    using ok by (simp_all add: range_ok_def)
  note mmu = mmu_ok_simps [OF okD(1)]
  have lt: "page_addr n < page_addr n1 \<longleftrightarrow> n < n1" using less.prems(2) okD(3) by (simp add: page_addr_less)
  show ?case
  proof (cases "j < 512 \<and> n < n1")
    case False
    then have e: "va = page_addr n" "pte = page_addr (p0 + (n - n0)) OR f" "st' = st"
      using less.prems(9) lt by (subst (asm) map_L2.simps, force simp: mmu)+
    have "n = n1 \<or> n = 262144 * (512 * reg + i + 1)"
    proof (cases "n = n1")
      case False
      then have "j = 512" "n div 512 = 512 * (512 * reg + i) + j" "n mod 512 = 0" using less.prems \<open>\<not> (j < 512 \<and> n < n1)\<close> by auto
      then show ?thesis using div_mult_mod_eq [of n 512] by simp
    qed simp
    then show ?thesis using e less.prems mapped_to_refl [of ord R st st] tables_kept_refl by blast
  next
    case True
    have nd: "n div 512 = 512 * (512 * reg + i) + j" using less.prems(6) True by blast
    have digits: "(x * 512 + y) mod 512 = y" "(x * 512 + y) div 512 = x" if "y < 512" for x y :: nat using that by simp_all
    have "n div 512 = (512 * reg + i) * 512 + j" using nd by simp
    then have "n div 512 mod 512 = j" "n div 512 div 512 = 512 * reg + i" using digits [of j] True by metis+
    then have "n div 262144 mod 512 = i" "n div 512 mod 512 = j" using assms(6) div_mult2_eq [of n 512 512] by simp_all
    then have ord: "(r, i, j) \<in> ord" using ok less.prems(1) True unfolding range_ok_def by metis
    have n52: "n < 2 ^ 52" using True okD(3) by simp
    obtain L3 st1 where nt: "next_table env L2 j st = Inr (L3, st1)"
      and rest: "(let (va, pte, st) = map_L3 env L3 (n mod 512) (page_addr n) (page_addr n1) (page_addr (p0 + (n - n0)) OR f) st1
        in map_L2 env L2 (Suc j) va (page_addr n1) pte st) = Inr (va, pte, st')"
      using less.prems(9) True lt by (subst (asm) map_L2.simps) (auto simp: mmu page_index [OF okD(1) n52])
    have se: "slot_entry R st (Leaf r i j) = Some (L2, j)" using less.prems(4) by simp
    have okl: "slot_ok ord (Leaf r i j)" using ord by simp
    note t = next_table_spec [OF okD(1) less.prems(3) okD(2) okl se nt]
    have t1: "tree_inv R ord st1" "table_at R st1 (Leaf r i j) = Some L3" "tables_kept R ord st st1"
      "\<forall>x \<in> ord. \<forall>k < 512. leaf_entry R st1 x k = leaf_entry R st x k"
      using t unfolding tables_kept_def by blast+
    have pl: "page_ok L3" by (rule tree_invD(3) [OF t1(1) okl t1(2)])
    define n' where "n' = n + min (512 - n mod 512) (n1 - n)"
    have l3: "n mod 512 \<le> 512" "n mod 512 mod 512 = n mod 512" by simp_all
    obtain st2 where m3: "map_L3 env L3 (n mod 512) (page_addr n) (page_addr n1) (page_addr (p0 + (n - n0)) OR f) st1
        = (page_addr n', page_addr (p0 + (n' - n0)) OR f, st2)" "only_mem st1 st2" "16 dvd n' \<or> \<not> contig_at n0 n1 p0 n'"
      "\<And>t k. page_ok t \<Longrightarrow> k < 512 \<Longrightarrow> entry t k st2 = (if t = L3 \<and> n mod 512 \<le> k \<and> k < n mod 512 + (n' - n)
         then desc_at f n0 n1 p0 (n + (k - n mod 512)) else entry t k st1)"
      using map_L3_spec [OF less.prems(1,2) okD(3-6,1) pl l3 less.prems(8), of st1] unfolding n'_def [symmetric] by blast
    have w: "tree_inv R ord st2" "tables_kept R ord st1 st2"
      "\<And>x k. x \<in> ord \<Longrightarrow> k < 512 \<Longrightarrow> leaf_entry R st2 x k = (if x = (r, i, j) then entry L3 k st2 else leaf_entry R st1 x k)"
      using write_leaf [OF t1(1) okD(2) ord t1(2) m3(2)] m3(4) by (simp_all add: tables_kept_def del: table_at.simps)
    have m512: "n mod 512 < 512" by simp
    have "n + (512 - m) = 512 * (q + 1)" if "512 * q + m = n" "m < 512" for q m :: nat using that by auto
    note nm = this [OF mult_div_mod_eq m512]
    have "n' < n1 \<Longrightarrow> n' = n + (512 - n mod 512)" using True unfolding n'_def min_def by (auto split: if_splits)
    then have n': "n < n'" "n' \<le> n1" "n' < n1 \<Longrightarrow> n' = 512 * (n div 512 + 1)"
      using True m512 unfolding nm [symmetric] by (auto simp: n'_def)
    have map: "mapped_to R ord (desc_at f n0 n1 p0) r reg n n' st st2"
      unfolding mapped_to_def
    proof (intro allI impI)
      fix r' i' j' k :: nat assume x: "(r', i', j') \<in> ord" "k < 512"
      then have small: "i' < 512" "j' < 512" using okD(2) by (auto simp: small_def)
      have pn: "n = page_of reg i j (n mod 512)" using nd div_mult_mod_eq [of n 512] by (simp add: page_of_def)
      have old: "leaf_entry R st1 (r', i', j') k = leaf_entry R st (r', i', j') k" using t1(4) x by blast
      show "leaf_entry R st2 (r', i', j') k = (if r' = r \<and> n \<le> page_of reg i' j' k \<and> page_of reg i' j' k < n'
          then desc_at f n0 n1 p0 (page_of reg i' j' k) else leaf_entry R st (r', i', j') k)"
      proof (cases "i' = i \<and> j' = j")
        case True
        have "page_of reg i j k = n - n mod 512 + k" using pn by (simp add: page_of_def)
        then have "n \<le> page_of reg i j k \<and> page_of reg i j k < n' \<longleftrightarrow> n mod 512 \<le> k \<and> k < n mod 512 + (n' - n)"
          "n mod 512 \<le> k \<Longrightarrow> n + (k - n mod 512) = page_of reg i j k"
          using n'(1) mod_less_eq_dividend [of n 512] by linarith+
        moreover have "leaf_entry R st1 (r, i, j) k = entry L3 k st1" using t1(2) by (simp add: leaf_entry_def del: table_at.simps)
        ultimately show ?thesis using w(3) [OF x] m3(4) [OF pl x(2)] old True
          by (cases "r' = r") auto
      next
        case False
        have "\<not> (n \<le> page_of reg i' j' k \<and> page_of reg i' j' k < n')"
        proof
          assume b: "n \<le> page_of reg i' j' k \<and> page_of reg i' j' k < n'"
          have "n' \<le> 512 * (n div 512 + 1)" unfolding nm [symmetric] n'_def by simp
          then have "page_of reg i' j' k div 512 = n div 512" using b div_le_mono [of n "page_of reg i' j' k" 512]
              less_mult_imp_div_less [of "page_of reg i' j' k" "n div 512 + 1" 512] by simp
          moreover have "page_of reg i' j' k div 512 = (reg * 512 + i') * 512 + j'" using x(2) by (simp add: page_of_def)
          ultimately have "(reg * 512 + i') * 512 + j' = (reg * 512 + i) * 512 + j" using nd by (simp add: algebra_simps)
          then have "reg * 512 + i' = reg * 512 + i \<and> j' = j" using digits small(2) True by metis
          then show False using False by simp
        qed
        then show ?thesis using w(3) [OF x] old False by auto
      qed
    qed
    have "n' < n1 \<longrightarrow> n' div 512 = n div 512 + 1" "n' < n1 \<longrightarrow> n' mod 512 = 0" using n'(3) by auto
    then have nx: "n' < n1 \<longrightarrow> n' div 512 = 512 * (512 * reg + i) + Suc j" "n' < n1 \<longrightarrow> Suc j = 512 \<longrightarrow> n' mod 512 = 0"
      using nd by simp_all
    have rec: "map_L2 env L2 (Suc j) (page_addr n') (page_addr n1) (page_addr (p0 + (n' - n0)) OR f) st2 = Inr (va, pte, st')"
      using rest m3(1) by simp
    have k02: "tables_kept R ord st st2" by (rule tables_kept_trans [OF t1(3) w(2)])
    have "slot_ok ord (Mid r i)" using ord by auto
    then have mid: "table_at R st2 (Mid r i) = Some L2"
      using less.prems(4) k02 unfolding tables_kept_def by blast
    have "512 - Suc j < 512 - j" "n0 \<le> n'" "Suc j \<le> 512" using True n'(1) less.prems(1) by auto
    from less.hyps [OF this(1,2) n'(2) w(1) mid this(3) nx(1) nx(2) m3(3) rec]
    obtain n'' where l: "n' \<le> n''" and r: "n'' \<le> n1" "n'' = n1 \<or> n'' = 262144 * (512 * reg + i + 1)" "va = page_addr n''"
      "pte = page_addr (p0 + (n'' - n0)) OR f" "16 dvd n'' \<or> \<not> contig_at n0 n1 p0 n''" "tree_inv R ord st'"
      and k: "tables_kept R ord st2 st'" and m: "mapped_to R ord (desc_at f n0 n1 p0) r reg n' n'' st2 st'"
      by (elim exE conjE)
    have "n \<le> n'" "n \<le> n''" using n'(1) l by simp_all
    then show ?thesis using r tables_kept_trans [OF k02 k] mapped_to_trans [OF map m _ l] by blast
  qed
qed

lemma map_L1_spec:
  fixes st :: "'a ram_state_scheme"
  assumes ok: "range_ok ord env f r n0 n1 p0"
    and "n0 \<le> n" and "n \<le> n1" and "tree_inv R ord st" and "i \<le> 512" and "n1 \<le> 2 ^ 27 * (reg + 1)"
    and "n < n1 \<longrightarrow> n div 262144 = 512 * reg + i" and "16 dvd n \<or> \<not> contig_at n0 n1 p0 n"
    and "map_L1 env (R r) i (page_addr n) (page_addr n1) (page_addr (p0 + (n - n0)) OR f) st = Inr (va, pte, st')"
  shows "tree_inv R ord st' \<and> tables_kept R ord st st' \<and> mapped_to R ord (desc_at f n0 n1 p0) r reg n n1 st st'"
  using assms(2-5,7-)
proof (induction "512 - i" arbitrary: i n st rule: less_induct)
  case less
  have okD: "mmu_ok env" "small ord" "n1 < 2 ^ 52" using ok by (simp_all add: range_ok_def)
  note mmu = mmu_ok_simps [OF okD(1)]
  have lt: "page_addr n < page_addr n1 \<longleftrightarrow> n < n1" using less.prems(2) okD(3) by (simp add: page_addr_less)
  show ?case
  proof (cases "n < n1")
    case False
    then have "st' = st" "n = n1" using less.prems(2,7) lt by (subst (asm) map_L1.simps, force simp: mmu)+
    then show ?thesis using less.prems(3) mapped_to_refl [of ord R st st] tables_kept_refl by blast
  next
    case True
    have nd: "n div 262144 = 512 * reg + i" using less.prems(5) True by blast
    have i: "i < 512"
    proof (rule ccontr)
      assume "\<not> i < 512"
      then have "n div 262144 = 512 * (reg + 1)" using nd less.prems(4) by simp
      then have "262144 * (512 * (reg + 1)) \<le> n" using div_times_less_eq_dividend [of n 262144] by (metis mult.commute)
      then show False using True assms(6) by simp
    qed
    define j where "j = n div 512 mod 512"
    have n2: "n div 512 = 512 * (512 * reg + i) + j"
      using div_mult2_eq [of n 512 512] mult_div_mod_eq [of 512 "n div 512"] nd by (simp add: j_def)
    have "(512 * reg + i) mod 512 = i" using i by simp
    then have "n div 262144 mod 512 = i" using nd by simp
    then have ord: "(r, i, j) \<in> ord" using ok less.prems(1) True unfolding range_ok_def j_def by metis
    have n52: "n < 2 ^ 52" using True okD(3) by simp
    obtain L2 st1 n2 p2 st2 where nt: "next_table env (R r) i st = Inr (L2, st1)"
      and m2: "map_L2 env L2 j (page_addr n) (page_addr n1) (page_addr (p0 + (n - n0)) OR f) st1 = Inr (n2, p2, st2)"
      and rest: "map_L1 env (R r) (Suc i) n2 (page_addr n1) p2 st2 = Inr (va, pte, st')"
      using less.prems(7) True lt i by (subst (asm) map_L1.simps) (auto simp: mmu page_index [OF okD(1) n52] j_def)
    have okm: "slot_ok ord (Mid r i)" using ord by auto
    have se: "slot_entry R st (Mid r i) = Some (R r, i)" by simp
    note t = next_table_spec [OF okD(1) less.prems(3) okD(2) okm se nt]
    have t1: "tree_inv R ord st1" "table_at R st1 (Mid r i) = Some L2" "tables_kept R ord st st1"
      "mapped_to R ord (desc_at f n0 n1 p0) r reg n n st st1"
      using t mapped_to_refl [of ord R st1 st] unfolding tables_kept_def by blast+
    have j: "j \<le> 512" "n < n1 \<longrightarrow> j = 512 \<longrightarrow> n mod 512 = 0" using mod_less_divisor [of 512 "n div 512"] unfolding j_def by linarith+
    obtain n' where n': "n \<le> n'" "n' \<le> n1" "n' = n1 \<or> n' = 262144 * (512 * reg + i + 1)" "n2 = page_addr n'"
      "p2 = page_addr (p0 + (n' - n0)) OR f" "16 dvd n' \<or> \<not> contig_at n0 n1 p0 n'" "tree_inv R ord st2" "tables_kept R ord st1 st2"
      "mapped_to R ord (desc_at f n0 n1 p0) r reg n n' st1 st2"
      using map_L2_spec [OF ok less.prems(1,2) t1(1,2) i j(1) _ j(2) less.prems(6) m2] n2 by blast
    have nx: "n' < n1 \<longrightarrow> n' div 262144 = 512 * reg + Suc i" using n'(3) by auto
    have "512 - Suc i < 512 - i" "n0 \<le> n'" "Suc i \<le> 512" using i n'(1) less.prems(1) by auto
    from less.hyps [OF this(1,2) n'(2,7) this(3) nx n'(6) rest [unfolded n'(4,5)]]
    have u: "tree_inv R ord st'" "tables_kept R ord st2 st'" "mapped_to R ord (desc_at f n0 n1 p0) r reg n' n1 st2 st'" by blast+
    have "mapped_to R ord (desc_at f n0 n1 p0) r reg n n' st st2" by (rule mapped_to_trans [OF t1(4) n'(9) order_refl n'(1)])
    then have "mapped_to R ord (desc_at f n0 n1 p0) r reg n n1 st st'" by (rule mapped_to_trans [OF _ u(3) n'(1,2)])
    then show ?thesis using u(1) tables_kept_trans [OF tables_kept_trans [OF t1(3) n'(8)] u(2)] by blast
  qed
qed

section \<open>The remaining state\<close>

declare alloc_ram_loop.simps [simp del] alloc_sysram_loop.simps [simp del]

lemma take_ram_more:
  assumes "take_ram env a sz st = Inr st'"
  shows "ram_state.more st' = ram_state.more st"
proof -
  obtain l where "lsp.more st' = lsp.more (st\<lparr>ram_list := l\<rparr>)"
    using assms by (auto simp: take_ram_def Let_def split: if_splits dest: alloc_sysram_keeps)
  then show ?thesis by (cases st; cases st') simp
qed

lemma calloc_ram_more:
  assumes "calloc_ram env sz align st = Inr (a, st')"
  shows "ram_state.more st' = ram_state.more st"
proof -
  have "ram_state.more st1 = ram_state.more st" if "alloc_ram env NULL_PADDR sz align st = Inr (b, st1)" for b st1
    using that by (auto simp: alloc_ram_def Let_def split: if_splits dest!: take_ram_more)
  then show ?thesis using assms by (auto simp: calloc_ram_def split: if_splits)
qed

lemma put_entry_more [simp]: "ram_state.more (put_entry t i v st) = ram_state.more st"
  by (simp add: put_entry_def)

lemma next_table_more: "next_table env t i st = Inr (t', st') \<Longrightarrow> ram_state.more st' = ram_state.more st"
  by (auto simp: next_table_def pt_alloc_def Let_def split: if_splits dest: calloc_ram_more)

lemma put_entries_more [simp]: "ram_state.more (put_entries n env L i pte st) = ram_state.more st"
  by (induction n arbitrary: i pte st) simp_all

lemma map_L3_more: "map_L3 env L i va en pte st = (va', pte', st') \<Longrightarrow> ram_state.more st' = ram_state.more st"
proof (induction env L i va en pte st rule: map_L3.induct)
  case (1 env L i va en pte st)
  show ?case
  proof (cases "i < NPTE_PTBL env \<and> va < en")
    case True
    note IH = 1(1) [OF True refl refl refl refl refl refl]
    show ?thesis using 1(2) True IH by (subst (asm) map_L3.simps) (simp add: Let_def)
  qed (use 1(2) in \<open>subst (asm) map_L3.simps, auto\<close>)
qed

lemma map_L2_more: "map_L2 env L i va en pte st = Inr (va', pte', st') \<Longrightarrow> ram_state.more st' = ram_state.more st"
proof (induction "NPTE_PTBL env - i" arbitrary: i va pte st rule: less_induct)
  case less
  show ?case
  proof (cases "i < NPTE_PTBL env \<and> va < en")
    case True
    obtain L3 st1 where nt: "next_table env L i st = Inr (L3, st1)"
      and rest: "(let L3i = (if USE_LARGE_PAGE env then L3_IDX_64K (mmu env) va else L3_IDX (mmu env) va);
              (va, pte, st) = map_L3 env L3 L3i va en pte st1
          in map_L2 env L (Suc i) va en pte st) = Inr (va', pte', st')"
      using less.prems True by (subst (asm) map_L2.simps) auto
    obtain va2 pte2 st2 where l3: "map_L3 env L3 (if USE_LARGE_PAGE env then L3_IDX_64K (mmu env) va else L3_IDX (mmu env) va) va en pte st1 = (va2, pte2, st2)"
      by (rule prod_cases3)
    have "NPTE_PTBL env - Suc i < NPTE_PTBL env - i" using True by linarith
    then show ?thesis using less.hyps rest next_table_more [OF nt] map_L3_more [OF l3] by (simp add: Let_def l3)
  qed (use less.prems in \<open>subst (asm) map_L2.simps, auto\<close>)
qed

lemma map_L1_more:
  assumes "\<not> USE_LARGE_PAGE env"
  shows "map_L1 env L i va en pte st = Inr (va', pte', st') \<Longrightarrow> ram_state.more st' = ram_state.more st"
proof (induction "NPTE_PTBL env - i" arbitrary: i va pte st rule: less_induct)
  case less
  show ?case
  proof (cases "i < NPTE_PTBL env \<and> va < en")
    case True
    obtain L2 st1 va2 pte2 st2 where nt: "next_table env L i st = Inr (L2, st1)"
      and l2: "map_L2 env L2 (L2_IDX (mmu env) va) va en pte st1 = Inr (va2, pte2, st2)"
      and rest: "map_L1 env L (Suc i) va2 en pte2 st2 = Inr (va', pte', st')"
      using less.prems True assms by (subst (asm) map_L1.simps) (auto simp: Let_def)
    have "NPTE_PTBL env - Suc i < NPTE_PTBL env - i" using True by linarith
    then show ?thesis using less.hyps [OF _ rest] next_table_more [OF nt] map_L2_more [OF l2] by simp
  qed (use less.prems in \<open>subst (asm) map_L1.simps, auto\<close>)
qed

section \<open>Addresses\<close>

definition mmu_roots :: "'a mmu_state_scheme \<Rightarrow> nat \<Rightarrow> paddr_t" where
  "mmu_roots st r = (if r = 0 then L1_ttbr0 st else L1_ttbr1 st)"

text \<open>The half of the address space of a page, and the entries its descriptor is found through.\<close>

definition half :: "nat \<Rightarrow> nat" where
  "half n = (if n < 2 ^ 27 then 0 else 1)"

definition region :: "nat \<Rightarrow> nat" where
  "region r = (if r = 0 then 0 else 2 ^ 25 - 1)"

definition page_slot :: "nat \<Rightarrow> nat \<times> nat \<times> nat" where
  "page_slot n = (half n, n div 262144 mod 512, n div 512 mod 512)"

text \<open>All entries but the two that refer back to a table.\<close>

definition mmu_slots :: "'b mmu_env_scheme \<Rightarrow> (nat \<times> nat \<times> nat) set" where
  "mmu_slots env = {(r, i, j). r < 2 \<and> i < 512 \<and> j < 512
     \<and> (r = 1 \<longrightarrow> i \<noteq> L1_L1_IDX (mmu env) \<and> \<not> (i = L1_L2_IDX (mmu env) \<and> j = L2_L2_IDX (mmu env)))}"

lemma small_mmu_slots: "small (mmu_slots env)"
  by (auto simp: small_def mmu_slots_def)

definition mmu_inv :: "'b mmu_env_scheme \<Rightarrow> 'a mmu_state_scheme \<Rightarrow> bool" where
  "mmu_inv env st \<longleftrightarrow> tree_inv (mmu_roots st) (mmu_slots env) st"

text \<open>The addresses that can be mapped.\<close>

definition map_addr :: "'b mmu_env_scheme \<Rightarrow> u64 \<Rightarrow> bool" where
  "map_addr env a \<longleftrightarrow> (a < USER_END (mmu env) \<or> STARTUP_BASE (mmu env) \<le> a) \<and> page_slot (unat a div 4096) \<in> mmu_slots env"

lemma page_of_digits: "n div 2 ^ 27 = reg \<Longrightarrow> page_of reg (n div 262144 mod 512) (n div 512 mod 512) (n mod 512) = n"
proof -
  assume a: "n div 2 ^ 27 = reg"
  have "n div 512 div 512 = n div 262144" "n div 262144 div 512 = n div 2 ^ 27" by (simp_all flip: div_mult2_eq)
  then show ?thesis using div_mult_mod_eq [of n 512] div_mult_mod_eq [of "n div 512" 512] div_mult_mod_eq [of "n div 262144" 512] a
    by (simp add: page_of_def)
qed

lemma high_region:
  assumes "2 ^ 52 - 2 ^ 27 \<le> n" and "n < 2 ^ 52"
  shows "n div 2 ^ 27 = region 1" "half n = 1"
proof -
  have "(2 ^ 25 - 1) * 2 ^ 27 \<le> n" "n < (2 ^ 25 - 1 + 1) * 2 ^ 27" using assms by simp_all
  then have "n div 2 ^ 27 = 2 ^ 25 - 1" by (intro div_nat_eqI) (simp_all add: mult.commute)
  then show "n div 2 ^ 27 = region 1" by (simp add: region_def)
  show "half n = 1" using assms by (simp add: half_def)
qed

lemma map_addr_region:
  assumes "mmu_ok env" and "map_addr env a"
  shows "unat a div 4096 div 2 ^ 27 = region (half (unat a div 4096))" "unat a div 4096 < 2 ^ 52"
    "half (unat a div 4096) = (if a < 2 ^ 39 then 0 else 1)"
proof -
  have a64: "unat a < 2 ^ 64" using unsigned_less [of a] by simp
  then show n52: "unat a div 4096 < 2 ^ 52" by (simp add: less_mult_imp_div_less)
  have "unat a div 4096 div 2 ^ 27 = region (half (unat a div 4096)) \<and> half (unat a div 4096) = (if a < 2 ^ 39 then 0 else 1)"
  proof (cases "a < 2 ^ 39")
    case True
    then have "unat a < 2 ^ 39" by (simp add: word_less_nat_alt)
    then have "unat a div 4096 < 2 ^ 27" by (simp add: less_mult_imp_div_less)
    then show ?thesis using True by (simp add: region_def half_def)
  next
    case False
    then have "STARTUP_BASE (mmu env) \<le> a" using assms by (simp add: map_addr_def mmu_okD(14) [OF assms(1)])
    then have "2 ^ 64 - 2 ^ 39 \<le> unat a" using mmu_okD(17) [OF assms(1)] by (simp add: word_le_nat_alt)
    then have "(2 ^ 64 - 2 ^ 39) div 4096 \<le> unat a div 4096" by (rule div_le_mono)
    then have "2 ^ 52 - 2 ^ 27 \<le> unat a div 4096" by simp
    from high_region [OF this n52] show ?thesis using False by simp
  qed
  then show "unat a div 4096 div 2 ^ 27 = region (half (unat a div 4096))" "half (unat a div 4096) = (if a < 2 ^ 39 then 0 else 1)" by blast+
qed

text \<open>The descriptor of the page of an address.\<close>

definition page_desc :: "'a mmu_state_scheme \<Rightarrow> u64 \<Rightarrow> u64" where
  "page_desc st a = leaf_entry (mmu_roots st) st (page_slot (unat a div 4096)) (unat a div 4096 mod 512)"

lemma lookup_desc:
  fixes st :: "'a mmu_state_scheme"
  assumes ok: "mmu_ok env" and inv: "mmu_inv env st" and a: "map_addr env a"
  shows "elf_vaddr_to_paddr env a st
    = Inr (if page_desc st a AND 3 = 3 then (page_desc st a AND addr_mask) OR (a AND 0xfff) else NULL_PADDR)"
proof -
  note mmu = mmu_ok_simps(1,5) [OF ok] mmu_okD(5-8) [OF ok] mmu_okD(13,14) [OF ok]
  define n where "n = unat a div 4096"
  have dv: "unat a div 2 ^ 30 = n div 262144" "unat a div 2 ^ 21 = n div 512" "unat a div 2 ^ 12 = n"
    by (simp_all add: n_def flip: div_mult2_eq)
  define r i j k where "r = half n" and "i = n div 262144 mod 512" and "j = n div 512 mod 512" and "k = n mod 512"
  have idx: "L1_IDX (mmu env) a = i" "L2_IDX (mmu env) a = j" "L3_IDX (mmu env) a = k"
    using mmu_okD(10-12) [OF ok] by (simp_all only: dv i_def j_def k_def)
  have ord: "(r, i, j) \<in> mmu_slots env" using a by (simp add: map_addr_def page_slot_def n_def r_def i_def j_def)
  have root: "(if a < 2 ^ 39 then Inr (L1_ttbr0 st) else if a < STARTUP_BASE (mmu env) then Inl e else Inr (L1_ttbr1 st)) = Inr (mmu_roots st r)" for e
  proof -
    have "r = (if a < 2 ^ 39 then 0 else 1)" using map_addr_region(3) [OF ok a] by (simp add: r_def n_def)
    moreover have "a < 2 ^ 39 \<or> \<not> a < STARTUP_BASE (mmu env)" using a mmu(8) by (auto simp: map_addr_def)
    ultimately show ?thesis by (auto simp: mmu_roots_def)
  qed
  let ?t = "mmu_roots st r"
  have three: "x AND 1 \<noteq> 0" if "x AND 3 = 3" for x :: u64
  proof -
    have "x AND 1 = (x AND 3) AND 1" by (simp add: and.assoc)
    then show ?thesis using that by simp
  qed
  have e1: "entry ?t i st \<noteq> 0 \<Longrightarrow> entry ?t i st AND 3 = 3"
    using tree_invD(6) [OF inv [unfolded mmu_inv_def], of "Mid r i"] ord by auto
  let ?u = "entry ?t i st AND addr_mask"
  have e2: "entry ?t i st \<noteq> 0 \<Longrightarrow> entry ?u j st \<noteq> 0 \<Longrightarrow> entry ?u j st AND 3 = 3"
    using tree_invD(6) [OF inv [unfolded mmu_inv_def], of "Leaf r i j"] ord by (auto simp: sub_table_def)
  have d: "page_desc st a = (if entry ?t i st = 0 then 0 else if entry ?u j st = 0 then 0 else entry (entry ?u j st AND addr_mask) k st)"
    by (simp add: page_desc_def page_slot_def leaf_entry_def sub_table_def flip: n_def r_def i_def j_def k_def)
  define l1 where "l1 = entry ?t i st"
  define l2 where "l2 = entry (l1 AND addr_mask) j st"
  define l3 where "l3 = entry (l2 AND addr_mask) k st"
  have walk: "elf_vaddr_to_paddr env a st = (if l1 AND 1 = 0 then Inr NULL_PADDR
      else if l1 AND 3 = 1 then Inr ((l1 AND addr_mask) OR L1_VOFF (mmu env) a)
      else if l2 AND 1 = 0 then Inr NULL_PADDR
      else if l2 AND 3 = 1 then Inr ((l2 AND addr_mask) OR L2_VOFF (mmu env) a)
      else if l3 AND 3 \<noteq> 3 then Inr NULL_PADDR else Inr ((l3 AND addr_mask) OR (a AND 0xfff)))"
    by (simp only: elf_vaddr_to_paddr_def Let_def startup_base_def mmu simp_thms if_False if_True root idx bind_result_Inr l1_def l2_def l3_def)
  show ?thesis
  proof (cases "entry ?t i st = 0")
    case True
    then show ?thesis unfolding walk l1_def d by simp
  next
    case ne: False
    show ?thesis
    proof (cases "entry ?u j st = 0")
      case True
      then show ?thesis using ne e1 three unfolding walk d l1_def l2_def by simp
    next
      case False
      then show ?thesis using ne e1 e2 three unfolding walk d l1_def l2_def l3_def by simp
    qed
  qed
qed

section \<open>Ranges\<close>

lemma NOT_low: "mmu_ok env \<Longrightarrow> x AND NOT (page_mask env) = page_addr (unat x div 4096)"
proof -
  assume ok: "mmu_ok env"
  have "x AND NOT (page_mask env) = x AND NOT (mask 12)" using mmu_ok_simps(4) [OF ok] by (simp add: mask_eq_exp_minus_1)
  also have "\<dots> = push_bit 12 (drop_bit 12 x)" by (rule bit_word_eqI) (auto simp: bit_simps)
  also have "\<dots> = 4096 * drop_bit 12 x" by (simp add: push_bit_eq_mult mult.commute)
  also have "drop_bit 12 x = of_nat (unat x div 4096)"
    by (simp add: word_eq_nat drop_bit_eq_div unat_div unat_of_nat less_le_trans [OF le_less_trans [OF div_le_dividend unsigned_less]])
  finally show ?thesis by (simp add: page_addr_def)
qed

lemma TRUNCPG_page: "mmu_ok env \<Longrightarrow> TRUNCPG env x = page_addr (unat x div 4096)"
  by (simp add: TRUNCPG_def NOT_low)

lemma ROUNDPG_page:
  assumes "mmu_ok env" and "unat x + 4095 < 2 ^ 64"
  shows "ROUNDPG env x = page_addr ((unat x + 4095) div 4096)"
proof -
  have "unat (x + 0xfff) = unat x + 4095" using assms(2) by (simp add: unat_add_noov)
  then show ?thesis by (simp add: ROUNDPG_def TRUNCPG_page [OF assms(1)] mmu_ok_simps(4) [OF assms(1)])
qed

lemma page_off: "mmu_ok env \<Longrightarrow> unat (x AND page_mask env) = unat x mod 4096"
proof -
  assume "mmu_ok env"
  then have "x AND page_mask env = take_bit 12 x" by (simp add: mmu_ok_simps(4) take_bit_eq_mask mask_eq_exp_minus_1)
  moreover have "unat (take_bit 12 x) = unat x mod 2 ^ 12" unfolding unsigned_take_bit_eq by (rule take_bit_eq_mod)
  ultimately show ?thesis by simp
qed

lemma mmu_roots_more:
  assumes "ram_state.more st' = ram_state.more st"
  shows "mmu_roots st' = mmu_roots st"
proof -
  have "L1_ttbr0 st' = L1_ttbr0 st" "L1_ttbr1 st' = L1_ttbr1 st" using assms by (cases st; cases st'; simp)+
  then show ?thesis by (simp add: mmu_roots_def fun_eq_iff)
qed

lemma tree_inv_free [simp]: "tree_inv R ord (st\<lparr>map_free_vaddr := x\<rparr>) = tree_inv R ord st"
  "leaf_entry R (st\<lparr>map_free_vaddr := x\<rparr>) = leaf_entry R st"
proof -
  have e: "entry t i (st\<lparr>map_free_vaddr := x\<rparr>) = entry t i st" for t i by (simp add: entry_def)
  then have t: "table_at R (st\<lparr>map_free_vaddr := x\<rparr>) s = table_at R st s" for s
    by (cases s) (simp_all add: sub_table_def e split: option.split)
  have se: "slot_entry R (st\<lparr>map_free_vaddr := x\<rparr>) s = slot_entry R st s" for s
    by (cases s) (simp_all add: sub_table_def e)
  have ram: "ram_list (st\<lparr>map_free_vaddr := x\<rparr>) = ram_list st" "ram_inv (st\<lparr>map_free_vaddr := x\<rparr>) = ram_inv st" by (simp_all add: ram_inv_def)
  show "tree_inv R ord (st\<lparr>map_free_vaddr := x\<rparr>) = tree_inv R ord st" unfolding tree_inv_def t se e ram by (rule refl)
  show "leaf_entry R (st\<lparr>map_free_vaddr := x\<rparr>) = leaf_entry R st" unfolding leaf_entry_def t e by (rule refl)
qed

text \<open>The pages of a request: the first page of the range, the first behind it and the page the first is mapped to.\<close>

definition first_page :: "u64 \<Rightarrow> 'a mmu_state_scheme \<Rightarrow> nat" where
  "first_page v st = unat (if v = - 1 then map_free_vaddr st else v) div 4096"

definition end_page :: "u64 \<Rightarrow> paddr_t \<Rightarrow> u64 \<Rightarrow> 'a mmu_state_scheme \<Rightarrow> nat" where
  "end_page v p sz st = first_page v st + (unat p mod 4096 + unat sz + 4095) div 4096"

definition page_in :: "u64 \<Rightarrow> paddr_t \<Rightarrow> u64 \<Rightarrow> 'a mmu_state_scheme \<Rightarrow> nat \<Rightarrow> bool" where
  "page_in v p sz st n \<longleftrightarrow> first_page v st \<le> n \<and> n < end_page v p sz st"

lemma no_wrap:
  assumes "a \<le> a + (b :: u64)"
  shows "unat a + unat b < 2 ^ 64"
proof (rule ccontr)
  assume "\<not> unat a + unat b < 2 ^ 64"
  then have ge: "2 ^ 64 \<le> unat a + unat b" by simp
  have lt: "unat a < 2 ^ 64" "unat b < 2 ^ 64" using unsigned_less [of a] unsigned_less [of b] by simp_all
  have "unat (a + b) = (unat a + unat b) mod 2 ^ 64" by (simp add: unat_word_ariths)
  also have "\<dots> = (unat a + unat b - 2 ^ 64) mod 2 ^ 64" by (rule le_mod_geq [OF ge])
  also have "\<dots> = unat a + unat b - 2 ^ 64" by (rule mod_less) (use lt ge in linarith)
  finally show False using assms lt ge unfolding word_le_nat_alt by linarith
qed

lemma aarch64_map_tables:
  fixes st :: "'a mmu_state_scheme"
  assumes ok: "mmu_ok env" and inv: "mmu_inv env st" and fits: "unat p + unat sz + 4096 \<le> 2 ^ 48"
    and pages: "\<forall>n. page_in v p sz st n \<longrightarrow> page_slot n \<in> mmu_slots env"
    and run: "aarch64_map env v p sz flags st = Inr (res, st')"
  defines "n0 \<equiv> first_page v st" and "n1 \<equiv> end_page v p sz st" and "p0 \<equiv> unat p div 4096"
  shows "mmu_inv env st'" and "mmu_roots st' = mmu_roots st"
    and "\<exists>r. mapped_to (mmu_roots st) (mmu_slots env) (desc_at (pte_flags env flags) n0 n1 p0) r (region r) n0 n1 st st'
           \<and> (\<forall>n. n0 \<le> n \<longrightarrow> n < n1 \<longrightarrow> half n = r \<and> n div 2 ^ 27 = region r)"
    and "p0 + (n1 - n0) < 2 ^ 36"
proof -
  note mmu = mmu_okD(4,14) [OF ok] mmu_ok_simps(1) [OF ok]
  define f where "f = pte_flags env flags"
  define off where "off = p AND page_mask env"
  define len where "len = (unat p mod 4096 + unat sz + 4095) div 4096"
  have off: "unat off = unat p mod 4096" by (simp add: off_def page_off [OF ok])
  have total: "unat (sz + off) = unat p mod 4096 + unat sz" "unat p mod 4096 \<le> unat p"
  proof -
    show le: "unat p mod 4096 \<le> unat p" by simp
    have "unat sz + unat off < 2 ^ 64" using fits le unfolding off by simp
    then show "unat (sz + off) = unat p mod 4096 + unat sz" by (simp add: unat_add_noov off add.commute)
  qed
  have rsz: "ROUNDPG env (sz + off) = page_addr len"
    unfolding len_def using ROUNDPG_page [OF ok, of "sz + off"] total fits by simp
  have len4: "4096 * len \<le> unat p mod 4096 + unat sz + 4095" by (simp add: len_def)
  show p36: "p0 + (n1 - n0) < 2 ^ 36"
  proof -
    have "n1 - n0 = len" by (simp add: n0_def n1_def end_page_def len_def)
    moreover have "4096 * (q + len) \<le> unat p + unat sz + 4095" if "4096 * q + m = unat p" "4096 * len \<le> m + unat sz + 4095" for q m
      using that by simp
    note this [OF mult_div_mod_eq len4, folded p0_def]
    ultimately show ?thesis using fits by simp
  qed
  define v' where "v' = (if v = - 1 then map_free_vaddr st else v)"
  define st0 where "st0 = (if v = - 1 then st\<lparr>map_free_vaddr := map_free_vaddr st + page_addr len\<rparr> else st)"
  have n0: "n0 = unat v' div 4096" and n1: "n1 = n0 + len" by (simp_all add: n0_def n1_def first_page_def end_page_def v'_def len_def)
  have va: "TRUNCPG env v' = page_addr n0" by (simp add: TRUNCPG_page [OF ok] n0)
  have en: "page_addr n0 + page_addr len = page_addr n1" by (simp add: n1 page_addr_def algebra_simps)
  obtain L1 va2 pte2 where nowrap: "\<not> page_addr n1 < page_addr n0" and sel: "select_L1 env (page_addr n0) (page_addr n1) st0 = Inr L1"
    and m1: "map_L1 env L1 (L1_IDX (mmu env) (page_addr n0)) (page_addr n0) (page_addr n1) (page_addr p0 OR f) st0 = Inr (va2, pte2, st')"
  proof -
    have pa: "set_pte env (p AND NOT (page_mask env)) flags = page_addr p0 OR f"
      by (simp only: NOT_low [OF ok] set_pte_split p0_def f_def)
    have body: "bind_result (if v = - 1 then Inr (map_free_vaddr st, st\<lparr>map_free_vaddr := map_free_vaddr st + page_addr len\<rparr>)
          else if v AND page_mask env \<noteq> off then Inl (Crash ''aarch64_map: bad alignment va=%v pa=%v'') else Inr (v, st)) (\<lambda>(v, st).
        let va = TRUNCPG env v; en = va + page_addr len
        in if en < va then Inl (Crash ''aarch64_map: %v < %v, vaddr=%v, size=%d'')
           else bind_result (select_L1 env va en st) (\<lambda>L1.
             bind_result (map_L1 env L1 (L1_IDX (mmu env) va) va en (page_addr p0 OR f) st) (\<lambda>(_, _, st). Inr (v + off, st)))) = Inr (res, st')"
      using run unfolding aarch64_map_def Let_def off_def [symmetric] rsz pa by (simp only: mmu simp_thms if_True if_False)
    have "bind_result (if page_addr n1 < page_addr n0 then Inl (Crash ''aarch64_map: %v < %v, vaddr=%v, size=%d'')
        else bind_result (select_L1 env (page_addr n0) (page_addr n1) st0) (\<lambda>L1.
             bind_result (map_L1 env L1 (L1_IDX (mmu env) (page_addr n0)) (page_addr n0) (page_addr n1) (page_addr p0 OR f) st0) (\<lambda>(_, _, st). Inr (v' + off, st)))) Inr
        = Inr (res, st')"
    proof (cases "v = - 1")
      case True
      then have "TRUNCPG env (map_free_vaddr st) = page_addr n0" using va by (simp add: v'_def)
      then show ?thesis using body True by (simp add: Let_def st0_def v'_def en split: if_splits)
    next
      case False
      then have "TRUNCPG env v = page_addr n0" using va by (simp add: v'_def)
      then show ?thesis using body False by (simp add: Let_def st0_def v'_def en split: if_splits)
    qed
    then show thesis by (auto split: if_splits intro: that)
  qed
  have n152: "n1 < 2 ^ 52" and n052: "n0 < 2 ^ 52"
  proof -
    have v64: "unat v' < 2 ^ 64" using unsigned_less [of v'] by simp
    then show n052: "n0 < 2 ^ 52" by (simp add: n0 less_mult_imp_div_less)
    have "len < 2 ^ 52" using p36 by (simp add: n1)
    then have "4096 * n0 + 4096 * len < 2 ^ 64" using no_wrap [of "page_addr n0" "page_addr len"] nowrap unfolding en
      by (simp add: unat_page_addr [OF n052] unat_page_addr [OF less_le_trans [OF \<open>len < 2 ^ 52\<close> order_refl]])
    then show "n1 < 2 ^ 52" by (simp add: n1)
  qed
  define r where "r = (if page_addr n0 < 2 ^ 39 then 0 else 1 :: nat)"
  have "ram_state.more st' = ram_state.more st0" using map_L1_more [OF mmu(3) m1] .
  then have roots: "mmu_roots st' = mmu_roots st0"
    by (rule mmu_roots_more)
  moreover have "mmu_roots st0 = mmu_roots st" by (simp add: st0_def mmu_roots_def fun_eq_iff)
  ultimately show roots': "mmu_roots st' = mmu_roots st" by simp
  have one_half: "(\<forall>n. n0 \<le> n \<longrightarrow> n < n1 \<longrightarrow> half n = r \<and> n div 2 ^ 27 = region r) \<and> L1 = mmu_roots st r
      \<and> n1 \<le> 2 ^ 27 * (region r + 1) \<and> n0 div 2 ^ 27 = region r"
  proof (cases "page_addr n0 < 2 ^ 39")
    case True
    then have L: "L1 = L1_ttbr0 st0" "page_addr n1 < 2 ^ 39" "r = 0" using sel mmu(2) by (auto simp: select_L1_def r_def not_le split: if_splits)
    then have "n1 < 2 ^ 27" using unat_page_addr [OF n152] by (simp add: word_less_nat_alt)
    moreover have "n0 < 2 ^ 27" using True unat_page_addr [OF n052] by (simp add: word_less_nat_alt)
    ultimately show ?thesis using L by (auto simp: half_def region_def mmu_roots_def st0_def)
  next
    case False
    then have L: "L1 = L1_ttbr1 st0" "STARTUP_BASE (mmu env) \<le> page_addr n0" "r = 1"
      using sel mmu(2,3) by (auto simp: select_L1_def startup_base_def r_def not_less split: if_splits)
    then have "2 ^ 64 - 2 ^ 39 \<le> 4096 * n0" using mmu_okD(17) [OF ok] unat_page_addr [OF n052] by (simp add: word_le_nat_alt)
    then have hi: "2 ^ 52 - 2 ^ 27 \<le> n0" by simp
    have "half n = 1 \<and> n div 2 ^ 27 = region 1" if "n0 \<le> n" "n < n1" for n
      using high_region [of n] hi that n152 by simp
    moreover have "n1 \<le> 2 ^ 27 * (region 1 + 1)" using n152 by (simp add: region_def)
    ultimately show ?thesis using L high_region(1) [OF hi n052] by (auto simp: mmu_roots_def st0_def)
  qed
  define i where "i = L1_IDX (mmu env) (page_addr n0)"
  have i: "i = n0 div 262144 mod 512" "i \<le> 512"
    using page_index(1) [OF ok n052] mod_less_divisor [of 512 "n0 div 262144"] unfolding i_def by auto
  have i2: "n0 < n1 \<longrightarrow> n0 div 262144 = 512 * region r + i"
  proof -
    have "n0 div 262144 div 512 = region r" using one_half by (simp flip: div_mult2_eq)
    then show ?thesis using mult_div_mod_eq [of 512 "n0 div 262144"] i(1) by simp
  qed
  have range: "range_ok (mmu_slots env) env f r n0 n1 p0"
    unfolding range_ok_def
  proof (intro conjI allI impI)
    show "(r, m div 262144 mod 512, m div 512 mod 512) \<in> mmu_slots env" if "n0 \<le> m" "m < n1" for m
      using pages that one_half unfolding page_in_def n0_def [symmetric] n1_def [symmetric] page_slot_def by metis
  qed (use ok small_mmu_slots n152 p36 pte_flags_bits(1,2) [OF ok] in \<open>simp_all add: f_def\<close>)
  have first: "16 dvd n0 \<or> \<not> contig_at n0 n1 p0 n0"
  proof (cases "n0 mod 16 = 0")
    case False
    then have "\<not> n0 \<le> n0 - n0 mod 16" using mod_less_eq_dividend [of n0 16] by linarith
    then show ?thesis by (simp add: contig_at_def Let_def)
  qed auto
  have inv0: "tree_inv (mmu_roots st) (mmu_slots env) st0" using inv by (simp add: mmu_inv_def st0_def)
  have le: "n0 \<le> n1" by (simp add: n1)
  have m1': "map_L1 env (mmu_roots st r) i (page_addr n0) (page_addr n1) (page_addr (p0 + (n0 - n0)) OR f) st0 = Inr (va2, pte2, st')"
    using m1 one_half by (simp add: i_def)
  have spec: "tree_inv (mmu_roots st) (mmu_slots env) st'"
    "mapped_to (mmu_roots st) (mmu_slots env) (desc_at f n0 n1 p0) r (region r) n0 n1 st0 st'"
    using map_L1_spec [OF range order_refl le inv0 i(2) _ i2 first m1'] one_half by blast+
  show "mmu_inv env st'" unfolding mmu_inv_def roots' by (rule spec(1))
  have "mapped_to (mmu_roots st) (mmu_slots env) (desc_at f n0 n1 p0) r (region r) n0 n1 st st'"
    using spec(2) by (simp add: mapped_to_def st0_def)
  then show "\<exists>r. mapped_to (mmu_roots st) (mmu_slots env) (desc_at (pte_flags env flags) n0 n1 p0) r (region r) n0 n1 st st'
           \<and> (\<forall>n. n0 \<le> n \<longrightarrow> n < n1 \<longrightarrow> half n = r \<and> n div 2 ^ 27 = region r)"
    using one_half unfolding f_def by blast
qed

lemma page_desc_mapped:
  fixes st :: "'a mmu_state_scheme"
  assumes ok: "mmu_ok env" and inv: "mmu_inv env st" and fits: "unat p + unat sz + 4096 \<le> 2 ^ 48"
    and pages: "\<forall>n. page_in v p sz st n \<longrightarrow> page_slot n \<in> mmu_slots env"
    and run: "aarch64_map env v p sz flags st = Inr (res, st')" and a: "map_addr env a"
  shows "page_desc st' a = (if page_in v p sz st (unat a div 4096)
      then desc_at (pte_flags env flags) (first_page v st) (end_page v p sz st) (unat p div 4096) (unat a div 4096) else page_desc st a)"
proof -
  note t = aarch64_map_tables [OF ok inv fits pages run]
  let ?n = "unat a div 4096" and ?lo = "first_page v st" and ?hi = "end_page v p sz st"
  let ?i = "?n div 262144 mod 512" and ?j = "?n div 512 mod 512" and ?k = "?n mod 512"
  obtain r where m: "mapped_to (mmu_roots st) (mmu_slots env) (desc_at (pte_flags env flags) ?lo ?hi (unat p div 4096)) r (region r) ?lo ?hi st st'"
    and h: "\<And>n. ?lo \<le> n \<Longrightarrow> n < ?hi \<Longrightarrow> half n = r \<and> n div 2 ^ 27 = region r"
    using t(3) by blast
  have ord: "(half ?n, ?i, ?j) \<in> mmu_slots env" "?k < 512" using a by (simp_all add: map_addr_def page_slot_def)
  have "page_of (region (half ?n)) ?i ?j ?k = ?n" by (rule page_of_digits [OF map_addr_region(1) [OF ok a]])
  moreover have "half ?n = r" if "?lo \<le> ?n" "?n < ?hi" using h that by blast
  ultimately have "(half ?n = r \<and> ?lo \<le> page_of (region r) ?i ?j ?k \<and> page_of (region r) ?i ?j ?k < ?hi) \<longleftrightarrow> page_in v p sz st ?n"
    "page_in v p sz st ?n \<Longrightarrow> page_of (region r) ?i ?j ?k = ?n"
    unfolding page_in_def by auto
  then show ?thesis using m ord unfolding mapped_to_def page_desc_def page_slot_def t(2) by auto
qed

lemma page_addr_split: "a = page_addr (unat a div 4096) + (a AND 0xfff)" "page_addr n AND (a AND 0xfff) = 0" for a :: u64
proof -
  have "a = of_nat (unat a)" by simp
  also have "unat a = 4096 * (unat a div 4096) + unat a mod 4096" by simp
  finally have e: "a = page_addr (unat a div 4096) + of_nat (unat a mod 4096)" unfolding page_addr_def
    by (metis of_nat_add of_nat_mult of_nat_numeral)
  have "a AND 0xfff = take_bit 12 a" by (simp add: take_bit_eq_mask mask_eq_exp_minus_1)
  also have "unat (take_bit 12 a) = unat a mod 2 ^ 12" unfolding unsigned_take_bit_eq by (rule take_bit_eq_mod)
  then have "of_nat (unat (take_bit 12 a)) = (of_nat (unat a mod 4096) :: u64)" by simp
  then have "take_bit 12 a = of_nat (unat a mod 4096)" by simp
  finally show "a = page_addr (unat a div 4096) + (a AND 0xfff)" using e by simp
  have "page_addr n = push_bit 12 (of_nat n)" by (simp add: page_addr_def push_bit_eq_mult mult.commute)
  moreover have "a AND 0xfff = take_bit 12 a" by (simp add: take_bit_eq_mask mask_eq_exp_minus_1)
  ultimately show "page_addr n AND (a AND 0xfff) = 0" by (auto intro!: bit_word_eqI simp: bit_simps)
qed

section \<open>A sample\<close>

text \<open>The documented descriptor bits, 16 KiB of free RAM for the tables and two empty first-level tables; the UART page pair is mapped.\<close>

definition mmu_sample_abi :: mmu_abi where
  "mmu_sample_abi = \<lparr>PTE_VALID = 3, PTE_AF = 0x400, PTE_URW = 0x40, PTE_KRW = 0, PTE_URO = 0xc0, PTE_KRO = 0x80,
     PTE_UXN = 2 ^ 54, PTE_PXN = 2 ^ 53, PTE_SODEV = 0, PTE_DEV = 4, PTE_NC = 8, PTE_WBWA = 0xc, PTE_ISH = 0x300, PTE_nG = 0x800,
     PTE_CONTIG = 2 ^ 52, PTP_VALID = 1, PTP_BLOCK = 1, PTP_TYPE = (\<lambda>x. x AND 3),
     L1_IDX = (\<lambda>v. unat v div 2 ^ 30 mod 512), L2_IDX = (\<lambda>v. unat v div 2 ^ 21 mod 512), L3_IDX = (\<lambda>v. unat v div 2 ^ 12 mod 512),
     L2_IDX_64K = (\<lambda>v. unat v div 2 ^ 29 mod 8192), L3_IDX_64K = (\<lambda>v. unat v div 2 ^ 16 mod 8192),
     L1_VOFF = (\<lambda>v. v AND 0x3fffffff), L2_VOFF = (\<lambda>v. v AND 0x1fffff), L3_VOFF = (\<lambda>v. v AND 0xfff),
     L2_VOFF_64K = (\<lambda>v. v AND 0x1fffffff), L3_VOFF_64K = (\<lambda>v. v AND 0xffff),
     L1_L1_IDX = 511, L1_L2_IDX = 510, L2_L2_IDX = 511, USER_END = 2 ^ 39,
     STARTUP_BASE = 0xffffff8040000000, STARTUP_BASE_64K = 0xffffff8040000000,
     PROT_READ = 1, PROT_WRITE = 2, PROT_EXEC = 4, PROT_NOCACHE = 8, PROT_DEVICE = 0x10, PROT_USER = 0x20, PF_R = 4, PF_W = 2, PF_X = 1\<rparr>"

definition mmu_sample_env :: mmu_env where
  "mmu_sample_env = \<lparr>abi = sample_abi, full_ram_paddr = 0, shdr_ram_size = 0, shdr_startup_size = 0, paddr_bias = 0, secure_system = False,
     pagesize = 0x1000, mmu = mmu_sample_abi, hdr_virtual = True, num_cpu = 4, meltdown_active = 0\<rparr>"

definition mmu_sample :: mmu_state where
  "mmu_sample = \<lparr>page = small_page, asinfo = [], ram_list = [\<lparr>ram_addr = 0x80000, ram_size = 0x4000\<rparr>], avoid_list = [], avoid_set = True,
     ws_early_next = 0x20000, sysram_added = False, temp_syspage = NULL_PADDR, watch_list = [], watch_calls = [], mem = (\<lambda>_. 0),
     L0_vaddr = 0, L1_ttbr0 = 0x10000, L1_ttbr1 = 0x11000, map_free_vaddr = 0xffffff8040000000, ttbr0 = 0x10000, ttbr1 = []\<rparr>"

lemma mmu_sample_ok: "mmu_ok mmu_sample_env"
  by (simp add: mmu_ok_def mmu_sample_env_def mmu_sample_abi_def flag_bits_def addr_mask_def)

lemma mmu_sample_inv: "mmu_inv mmu_sample_env mmu_sample"
proof -
  have e: "entry t i mmu_sample = 0" for t i
    by (simp add: entry_def rd64_def mmu_sample_def numeral_eq_Suc)
  then have "table_at R mmu_sample s = (case s of Root r \<Rightarrow> Some (R r) | _ \<Rightarrow> None)" for R s
    by (cases s) (simp_all add: sub_table_def)
  then show ?thesis unfolding mmu_inv_def tree_inv_def e
    by (auto simp: page_ok_def mmu_roots_def mmu_slots_def mmu_sample_def ram_inv_def wf_ram_def ok_entry_def ram_hi_def ram_ivl_def ram_lo_def av_ok_def ram_set_def
        split: slot.splits if_splits)
qed


lemma sample_pt_alloc:
  assumes "ram_list st = [\<lparr>ram_addr = a, ram_size = n\<rparr>]" and "avoid_list st = []" and "\<not> sysram_added st"
    and "(a, n) \<in> {(0x80000, 0x4000), (0x81000, 0x3000)}"
  shows "\<exists>pte m. pt_alloc mmu_sample_env st = Inr (pte, st\<lparr>ram_list := [\<lparr>ram_addr = a + 0x1000, ram_size = n - 0x1000\<rparr>], mem := m\<rparr>)"
proof -
  have env: "\<not> secure_system (ram_env.truncate mmu_sample_env)" "pagesize mmu_sample_env = 0x1000"
    by (simp_all add: mmu_sample_env_def ram_env.truncate_def)
  have "find_ram 0x1000 0x1000 0 0 st = a" "a \<noteq> NULL_PADDR"
    using assms by (auto simp: Let_def TRUNC_def find_ram_def find_ram_in_range_def ROUND_def ram_end_def clip_start_def clip_end_def NULL_PADDR_def)
  moreover have "take_ram e a 0x1000 st = Inr (st\<lparr>ram_list := [\<lparr>ram_addr = a + 0x1000, ram_size = n - 0x1000\<rparr>]\<rparr>)" for e
  proof -
    have "alloc_ram_loop (Suc (Suc 2)) 0 a (a + 0x1000) [\<lparr>ram_addr = a, ram_size = n\<rparr>] = Inr [\<lparr>ram_addr = a + 0x1000, ram_size = n - 0x1000\<rparr>]"
      using assms(4) by (auto simp only: alloc_ram_loop.simps) (auto simp: Let_def alloc_hits_def ram_end_def)
    moreover have "2 * length (ram_list st) + 2 = Suc (Suc 2)" using assms(1) by simp
    ultimately show ?thesis using assms(1,3) by (simp only: take_ram_def bind_result_Inr Let_def) simp
  qed
  ultimately show ?thesis by (auto simp: pt_alloc_def calloc_ram_def alloc_ram_def env)
qed

lemma sample_next_table:
  assumes "ram_list st = [\<lparr>ram_addr = a, ram_size = n\<rparr>]" and "avoid_list st = []" and "\<not> sysram_added st"
    and "(a, n) \<in> {(0x80000, 0x4000), (0x81000, 0x3000)}"
  shows "\<exists>t' st'. next_table mmu_sample_env t i st = Inr (t', st') \<and> avoid_list st' = [] \<and> \<not> sysram_added st'
    \<and> (ram_list st' = [\<lparr>ram_addr = a, ram_size = n\<rparr>] \<or> ram_list st' = [\<lparr>ram_addr = a + 0x1000, ram_size = n - 0x1000\<rparr>])"
proof (cases "entry t i st = 0")
  case True
  obtain pte m where "pt_alloc mmu_sample_env st = Inr (pte, st\<lparr>ram_list := [\<lparr>ram_addr = a + 0x1000, ram_size = n - 0x1000\<rparr>], mem := m\<rparr>)"
    using sample_pt_alloc [OF assms] by blast
  then show ?thesis using True assms(2,3) by (simp add: next_table_def Let_def put_entry_def)
qed (use assms in \<open>auto simp: next_table_def\<close>)

lemma mmu_sample_run: "\<exists>res st'. aarch64_map mmu_sample_env (- 1) 0xfe201040 0x1000 6 mmu_sample = Inr (res, st')"
proof -
  let ?va = "0xffffff8040000000 :: u64" and ?en = "0xffffff8040002000 :: u64" and ?pte = "set_pte mmu_sample_env 0xfe201000 6"
  let ?st = "mmu_sample\<lparr>map_free_vaddr := ?en\<rparr>"
  note mmu = mmu_ok_simps [OF mmu_sample_ok] mmu_okD [OF mmu_sample_ok]
  have one: "contig_step mmu_sample_env ?va ?en pte = 1" "contig_step mmu_sample_env (?va + 0x1000) ?en pte = 1" for pte
    by (simp_all add: contig_step_def USE_CONTIG_def mmu)
  have l3: "\<exists>pte' st'. map_L3 mmu_sample_env t 0 ?va ?en pte st = (?en, pte', st')" for t pte and st :: mmu_state
    by (simp add: map_L3.simps [where L3i = 0] map_L3.simps [where L3i = 1] map_L3.simps [where L3i = "Suc 0"]
        map_L3.simps [where L3i = "Suc (Suc 0)"] mmu one [simplified] Let_def)
  have idx: "L1_IDX (mmu mmu_sample_env) ?va = 1" "L2_IDX (mmu mmu_sample_env) ?va = 0" "L3_IDX (mmu mmu_sample_env) ?va = 0"
    by (simp_all add: mmu)
  have "ram_list ?st = [\<lparr>ram_addr = 0x80000, ram_size = 0x4000\<rparr>]" "avoid_list ?st = []" "\<not> sysram_added ?st" by (simp_all add: mmu_sample_def)
  from sample_next_table [OF this, where t = "0x11000" and i = 1]
  obtain t1 st1 a n where n1: "next_table mmu_sample_env 0x11000 1 ?st = Inr (t1, st1)" "avoid_list st1 = []" "\<not> sysram_added st1"
    and r: "ram_list st1 = [\<lparr>ram_addr = a, ram_size = n\<rparr>]" "(a, n) \<in> {(0x80000, 0x4000), (0x81000, 0x3000)}" by auto
  obtain t2 st2 where n2: "next_table mmu_sample_env t1 0 st1 = Inr (t2, st2)"
    using sample_next_table [OF r(1) n1(2,3) r(2), where t = t1 and i = 0] by blast
  obtain pte3 st3 where m3: "map_L3 mmu_sample_env t2 0 ?va ?en ?pte st2 = (?en, pte3, st3)" using l3 by blast
  have m2: "map_L2 mmu_sample_env t1 0 ?va ?en ?pte st1 = Inr (?en, pte3, st3)"
    by (simp add: map_L2.simps [where L2i = 0] map_L2.simps [where L2i = "Suc 0"] mmu(1-4) idx n2 m3)
  have m1: "map_L1 mmu_sample_env 0x11000 1 ?va ?en ?pte ?st = Inr (?en, pte3, st3)"
    by (simp add: map_L1.simps [where L1i = "Suc 0"] map_L1.simps [where L1i = "Suc (Suc 0)"] mmu(1-4) idx n1(1) [simplified] m2)
  have pg: "ROUNDPG mmu_sample_env 0x1040 = 0x2000" "TRUNCPG mmu_sample_env ?va = ?va" "page_mask mmu_sample_env = 0xfff"
    by (simp_all add: ROUNDPG_def TRUNCPG_def mmu)
  have "select_L1 mmu_sample_env ?va ?en ?st = Inr 0x11000"
    by (simp add: select_L1_def startup_base_def mmu_sample_def mmu mmu_sample_env_def mmu_sample_abi_def USE_LARGE_PAGE_def)
  then show ?thesis using m1 by (simp add: aarch64_map_def Let_def pg mmu(1,9) idx mmu_sample_def)
qed

lemma mmu_sample_pages:
  "page_in (- 1) 0xfe201040 0x1000 mmu_sample n \<longleftrightarrow> n = 0xffffff8040000 \<or> n = 0xffffff8040001"
  "first_page (- 1) mmu_sample = 0xffffff8040000"
  by (auto simp: page_in_def first_page_def end_page_def mmu_sample_def)

lemma mmu_sample_slots: "page_slot 0xffffff8040000 \<in> mmu_slots mmu_sample_env" "page_slot 0xffffff8040001 \<in> mmu_slots mmu_sample_env"
  "map_addr mmu_sample_env 0xffffff8040000040" "map_addr mmu_sample_env 0xffffff8040001fff" "map_addr mmu_sample_env 0xffffff8040002000"
  by (simp_all add: map_addr_def page_slot_def half_def mmu_slots_def mmu_sample_env_def mmu_sample_abi_def)

section \<open>Properties\<close>

text \<open>C10: under the documented descriptor layout for 4 KiB pages, \<open>aarch64_map\<close> implements a change of the address translation: it keeps the tree
  of tables well formed, every address of the rounded range is translated to the physical address with the same offset, as \<open>elf_vaddr_to_paddr\<close>
  reads it back, and the translation of every other address is as before, whatever tables had to be allocated on the way.
\<close>

theorem aarch64_map_translates:
  fixes st :: "'a mmu_state_scheme"
  assumes ok: "mmu_ok env" and inv: "mmu_inv env st" and fits: "unat p + unat sz + 4096 \<le> 2 ^ 48"
    and pages: "\<forall>n. page_in v p sz st n \<longrightarrow> page_slot n \<in> mmu_slots env"
    and run: "aarch64_map env v p sz flags st = Inr (res, st')"
  shows "mmu_inv env st' \<and> (\<forall>a. map_addr env a \<longrightarrow> elf_vaddr_to_paddr env a st' =
    (if page_in v p sz st (unat a div 4096) then Inr (TRUNCPG env p + (a - TRUNCPG env (if v = - 1 then map_free_vaddr st else v)))
     else elf_vaddr_to_paddr env a st))"
proof (intro conjI allI impI)
  note t = aarch64_map_tables [OF ok inv fits pages run]
  show inv': "mmu_inv env st'" by (rule t(1))
  fix a assume a: "map_addr env a"
  let ?n = "unat a div 4096" and ?lo = "first_page v st" and ?pp = "unat p div 4096"
  note d = page_desc_mapped [OF ok inv fits pages run a]
  show "elf_vaddr_to_paddr env a st' =
    (if page_in v p sz st ?n then Inr (TRUNCPG env p + (a - TRUNCPG env (if v = - 1 then map_free_vaddr st else v)))
     else elf_vaddr_to_paddr env a st)"
  proof (cases "page_in v p sz st ?n")
    case True
    then have le: "?lo \<le> ?n" "?pp + (?n - ?lo) < 2 ^ 36" using t(4) by (auto simp: page_in_def)
    define c where "c = (if contig_at ?lo (end_page v p sz st) ?pp ?n then 2 ^ 52 else 0 :: u64)"
    define f where "f = pte_flags env flags OR c"
    have c: "c AND addr_mask = 0" "c AND 3 = 0" by (simp_all add: c_def addr_mask_def)
    then have "f AND addr_mask = 0" by (simp add: f_def bit.conj_disj_distrib2 pte_flags_bits(1) [OF ok])
    note addr = paddr_of_desc(1) [OF page_addr_ok [OF le(2)] this]
    have desc: "page_desc st' a = page_addr (?pp + (?n - ?lo)) OR f" using d True by (simp add: desc_at_def f_def c_def or.assoc)
    have "4 dvd unat (page_addr (?pp + (?n - ?lo)))" using le(2) by (simp add: unat_page_addr)
    then have "page_addr (?pp + (?n - ?lo)) AND 3 = 0" using and_low_zero [of _ 2] by simp
    then have valid: "page_desc st' a AND 3 = 3" unfolding desc by (simp add: bit.conj_disj_distrib2 f_def c pte_flags_bits(3) [OF ok])
    have "page_addr (?pp + (?n - ?lo)) OR (a AND 0xfff) = page_addr (?pp + (?n - ?lo)) + (a AND 0xfff)"
      by (rule disjunctive_add_eq_or [OF page_addr_split(2), symmetric])
    also have "\<dots> = page_addr ?pp + (page_addr ?n + (a AND 0xfff) - page_addr ?lo)"
      using le(1) by (simp add: page_addr_def of_nat_diff algebra_simps)
    also have "\<dots> = page_addr ?pp + (a - page_addr ?lo)" using page_addr_split(1) [of a] by simp
    also have "page_addr ?lo = TRUNCPG env (if v = - 1 then map_free_vaddr st else v)" by (simp add: TRUNCPG_page [OF ok] first_page_def)
    also have "page_addr ?pp = TRUNCPG env p" by (simp add: TRUNCPG_page [OF ok])
    finally show ?thesis unfolding lookup_desc [OF ok inv' a] using valid desc addr True by simp
  qed (use d in \<open>simp add: lookup_desc [OF ok inv' a] lookup_desc [OF ok inv a]\<close>)
qed

lemma aarch64_map_translates_witness:
  "\<exists>res st'. aarch64_map mmu_sample_env (- 1) 0xfe201040 0x1000 6 mmu_sample = Inr (res, st') \<and> mmu_inv mmu_sample_env st'
    \<and> elf_vaddr_to_paddr mmu_sample_env 0xffffff8040000040 st' = Inr 0xfe201040
    \<and> elf_vaddr_to_paddr mmu_sample_env 0xffffff8040001fff st' = Inr 0xfe202fff
    \<and> elf_vaddr_to_paddr mmu_sample_env 0xffffff8040002000 st' = elf_vaddr_to_paddr mmu_sample_env 0xffffff8040002000 mmu_sample"
proof -
  obtain res st' where run: "aarch64_map mmu_sample_env (- 1) 0xfe201040 0x1000 6 mmu_sample = Inr (res, st')" using mmu_sample_run by blast
  have pages: "\<forall>n. page_in (- 1) 0xfe201040 0x1000 mmu_sample n \<longrightarrow> page_slot n \<in> mmu_slots mmu_sample_env"
    using mmu_sample_slots(1,2) unfolding mmu_sample_pages by blast
  note t = aarch64_map_translates [OF mmu_sample_ok mmu_sample_inv _ pages run]
  have va: "TRUNCPG mmu_sample_env 0xfe201040 = 0xfe201000" "TRUNCPG mmu_sample_env (map_free_vaddr mmu_sample) = 0xffffff8040000000"
    by (simp_all add: TRUNCPG_def mmu_ok_simps(4) [OF mmu_sample_ok] mmu_sample_def)
  show ?thesis using t mmu_sample_slots(3-5) run by (simp add: mmu_sample_pages va)
qed

text \<open>C11: the descriptors that \<open>aarch64_map\<close> leaves are exact: each page of the range has the descriptor of its physical page with the
  attributes of the flags, with the hint for contiguous entries on exactly the pages whose whole aligned group of 16 lies in the range
  and is mapped to an aligned group, as the architecture demands of the hint; no other descriptor changes.
\<close>

theorem aarch64_map_descriptors:
  fixes st :: "'a mmu_state_scheme"
  assumes ok: "mmu_ok env" and inv: "mmu_inv env st" and fits: "unat p + unat sz + 4096 \<le> 2 ^ 48"
    and pages: "\<forall>n. page_in v p sz st n \<longrightarrow> page_slot n \<in> mmu_slots env"
    and run: "aarch64_map env v p sz flags st = Inr (res, st')" and a: "map_addr env a"
  shows "page_desc st' a = (if page_in v p sz st (unat a div 4096)
      then set_pte env (page_addr (unat p div 4096 + (unat a div 4096 - first_page v st))) flags
           OR (if contig_at (first_page v st) (end_page v p sz st) (unat p div 4096) (unat a div 4096) then PTE_CONTIG (mmu env) else 0)
      else page_desc st a)"
  using page_desc_mapped [OF ok inv fits pages run a] by (simp add: desc_at_def set_pte_split mmu_okD(9) [OF ok] or.assoc)

lemma aarch64_map_descriptors_witness:
  "\<exists>res st'. aarch64_map mmu_sample_env (- 1) 0xfe201040 0x1000 6 mmu_sample = Inr (res, st')
    \<and> page_desc st' 0xffffff8040000040 = set_pte mmu_sample_env 0xfe201000 6 \<and> page_desc st' 0xffffff8040001fff = set_pte mmu_sample_env 0xfe202000 6"
proof -
  obtain res st' where run: "aarch64_map mmu_sample_env (- 1) 0xfe201040 0x1000 6 mmu_sample = Inr (res, st')" using mmu_sample_run by blast
  have pages: "\<forall>n. page_in (- 1) 0xfe201040 0x1000 mmu_sample n \<longrightarrow> page_slot n \<in> mmu_slots mmu_sample_env"
    using mmu_sample_slots(1,2) unfolding mmu_sample_pages by blast
  note t = aarch64_map_descriptors [OF mmu_sample_ok mmu_sample_inv _ pages run mmu_sample_slots(3)]
    aarch64_map_descriptors [OF mmu_sample_ok mmu_sample_inv _ pages run mmu_sample_slots(4)]
  have "\<not> contig_at (first_page (- 1) mmu_sample) (end_page (- 1) 0xfe201040 0x1000 mmu_sample) p n" for p n
  proof -
    have "end_page (- 1) 0xfe201040 0x1000 mmu_sample = first_page (- 1) mmu_sample + 2" by (simp add: end_page_def)
    then show ?thesis unfolding contig_at_def Let_def by linarith
  qed
  then show ?thesis using t run by (simp add: mmu_sample_pages page_addr_def)
qed

text \<open>
  The value that is returned: an explicit address already contains the offset in the page, which is added once more.
\<close>

lemma aarch64_map_result:
  assumes "aarch64_map env v p sz flags st = Inr (res, st')" and "hdr_virtual env"
  shows "res = (if v = - 1 then map_free_vaddr st else v) + (p AND page_mask env)"
    and "v \<noteq> - 1 \<Longrightarrow> v AND page_mask env = p AND page_mask env"
  using assms by (auto simp: aarch64_map_def Let_def split: if_splits)

end
