(* ===== verification/Clock.thy ===== *)
theory Clock
  imports Prelude "HOL-Library.Signed_Division"
begin

text \<open>
  Calendar and timer arithmetic of the startup library: \<open>gmtime.c\<close>, \<open>calc_time_t.c\<close>, \<open>bcd2bin.c\<close>,
  \<open>invert_timer_freq.c\<close>, \<open>timer_tick2ns.c\<close>, \<open>timer_ns2tick.c\<close>.  A field of type \<open>int\<close> is a word read with \<open>sint\<close>, \<open>unsigned long\<close>
  and \<open>time_t\<close> have 64 bits on AArch64.
\<close>

section \<open>Broken-down time\<close>

record tm =
  tm_sec :: u32
  tm_min :: u32
  tm_hour :: u32
  tm_mday :: u32
  tm_mon :: u32
  tm_year :: u32
  tm_wday :: u32
  tm_yday :: u32

text \<open>\<open>mdays\<close> is a table of two rows; the row is chosen by a truth value.\<close>

definition mdays :: "bool \<Rightarrow> u64 list" where
  "mdays leap = (if leap then [31, 29, 31, 30, 31, 30, 31, 31, 30, 31, 30, 31]
                 else [31, 28, 31, 30, 31, 30, 31, 31, 30, 31, 30, 31])"

definition year_days :: "u64 \<Rightarrow> u64" where
  "year_days year = 365 + (if (year + 2) mod 4 = 0 then 1 else 0)"

lemma year_days_pos: "0 < unat (year_days y)"
  by (simp add: year_days_def)

text \<open>The loop over the years: the days left in the last year, and that year.\<close>

function year_loop :: "u64 \<Rightarrow> u64 \<Rightarrow> u64 \<times> u64" where
  "year_loop days year =
     (if year_days year > days then (days, year)
      else year_loop (days - year_days year) (year + 1))"
  by pat_completeness auto
termination year_loop
proof (relation "measure (\<lambda>(days, year). unat days)", simp)
  fix days year :: u64
  assume "\<not> days < year_days year"
  then show "((days - year_days year, year + 1), days, year) \<in> measure (\<lambda>(days, year). unat days)"
    using year_days_pos [of year] by (simp add: unat_sub not_less word_le_nat_alt)
qed

declare year_loop.simps [simp del]

text \<open>The loop over the months of one row of the table.\<close>

fun month_loop :: "u64 list \<Rightarrow> u64 \<Rightarrow> u64 \<Rightarrow> u64 \<times> u64" where
  "month_loop [] days mon = (days, mon)"
| "month_loop (t # ts) days mon = (if t > days then (days, mon) else month_loop ts (days - t) (mon + 1))"

text \<open>\<open>time_t\<close> is signed: the quotient is rounded towards zero before it is stored in an \<open>unsigned long\<close>.\<close>

definition gmtime :: "u64 \<Rightarrow> tm" where
  "gmtime timer =
     (let days = (of_int (sint timer sdiv 86400) :: u64);
          secs = (of_int (sint timer smod 86400) :: u64);
          (yday, year) = year_loop days 0;
          (mday, mon) = month_loop (mdays ((year + 2) mod 4 = 0)) yday 0
      in \<lparr>tm_sec = ucast (secs mod 60), tm_min = ucast (secs div 60 mod 60), tm_hour = ucast (secs div 60 div 60),
          tm_mday = ucast (mday + 1), tm_mon = ucast mon, tm_year = ucast (year + 70),
          tm_wday = ucast ((days + 4) mod 7), tm_yday = ucast yday\<rparr>)"

definition month_sec :: "u64 list" where
  "month_sec = [0, 2678400, 5097600, 7776000, 10368000, 13046400, 15638400, 18316800, 20995200, 23587200, 26265600, 28857600]"

definition SEC_PER_MIN :: u64 where "SEC_PER_MIN = 60"
definition SEC_PER_HOUR :: u64 where "SEC_PER_HOUR = 60 * SEC_PER_MIN"
definition SEC_PER_DAY :: u64 where "SEC_PER_DAY = 24 * SEC_PER_HOUR"

text \<open>A field of type \<open>int\<close> is sign extended when it meets an \<open>unsigned long\<close>.\<close>

definition calc_time_t :: "tm \<Rightarrow> u64 result" where
  "calc_time_t tm =
     (let year = tm_year tm - 70;
          sec = (ucast year * 365 + ucast (drop_bit 2 (year + 1))) * SEC_PER_DAY
      in if 0 \<le>s tm_mon tm \<and> (scast (tm_mon tm) :: u64) < of_nat (length month_sec) then
           let sec = sec + month_sec ! unat (tm_mon tm);
               year = tm_year tm + 1900;
               sec = (if 2 \<le>s tm_mon tm \<and> year mod 4 = 0 \<and> (year mod 100 \<noteq> 0 \<or> year mod 400 = 0)
                      then sec + SEC_PER_DAY else sec);
               sec = sec + scast (tm_mday tm - 1) * SEC_PER_DAY;
               sec = sec + scast (tm_hour tm) * SEC_PER_HOUR;
               sec = sec + scast (tm_min tm) * SEC_PER_MIN
           in Inr (sec + scast (tm_sec tm))
         else Inl Month_out_of_bounds)"

text \<open>Four packed decimal digits.\<close>

definition bcd2bin :: "u32 \<Rightarrow> u32" where
  "bcd2bin a = drop_bit 12 (a AND 0xf000) * 1000 + drop_bit 8 (a AND 0xf00) * 100 + drop_bit 4 (a AND 0xf0) * 10 + (a AND 0xf)"

section \<open>Timer period\<close>

text \<open>
  The period of a timer is \<open>period * 10 ^ scale\<close> seconds.  The loop computes the decimal digits of
  \<open>1 / freq\<close>; it stops when the division comes out even or the next digit might not fit.
\<close>

record qtime =
  timer_period :: u32
  timer_scale :: int

definition period_limit :: u32 where "period_limit = 0xffffffff div 10 - 10"

fun invert_loop :: "nat \<Rightarrow> u32 \<Rightarrow> u32 \<Rightarrow> u32 \<Rightarrow> int \<Rightarrow> qtime result" where
  "invert_loop 0 freq quot period scale = Inl Diverges"
| "invert_loop (Suc n) freq quot period scale =
     (let period = period * 10 + quot div freq
      in if period \<ge> period_limit then Inr \<lparr>timer_period = period, timer_scale = scale\<rparr>
         else if quot mod freq = 0 then Inr \<lparr>timer_period = period, timer_scale = scale\<rparr>
         else invert_loop n freq (quot mod freq * 10) period (scale - 1))"

text \<open>Twenty rounds are enough, see \<open>invert_timer_freq_digits\<close>.\<close>

definition invert_timer_freq :: "u32 \<Rightarrow> qtime result" where
  "invert_timer_freq freq =
     (if freq = 0 then Inl Timer_frequency_zero
      else if freq > 0xffffffff div 10 then invert_loop 20 (freq div 10) 1 0 (- 1)
      else invert_loop 20 freq 1 0 0)"

text \<open>
  The loop of \<open>timer_tick2ns\<close> with \<open>n\<close> rounds to go, then the multiplication for a negative power.
\<close>

definition tick_product :: "u64 \<Rightarrow> u64 \<Rightarrow> u64 \<Rightarrow> u64 result" where
  "tick_product period ticks ns =
     (if ns \<noteq> 0 then Inr ns
      else if period = 0 then Inl Divide_by_zero
      else if period * ticks div period \<noteq> ticks then Inr 0
      else Inr (period * ticks))"

primrec tick_loop :: "nat \<Rightarrow> u64 \<Rightarrow> u64 \<Rightarrow> u64 \<Rightarrow> u64 result" where
  "tick_loop 0 period ticks ns = tick_product period ticks ns"
| "tick_loop (Suc n) period ticks ns =
     bind_result (tick_product period ticks ns) (\<lambda>ns. tick_loop n (period div 10) ticks (ns div 10))"

definition timer_tick2ns :: "qtime \<Rightarrow> u64 \<Rightarrow> u64 result" where
  "timer_tick2ns q ticks =
     (let pw = (- 9) - timer_scale q
      in bind_result (tick_loop (nat pw) (ucast (timer_period q)) ticks 0) (\<lambda>ns.
           Inr (ns * 10 ^ nat (- pw))))"

definition timer_ns2tick :: "qtime \<Rightarrow> u64 \<Rightarrow> u64 result" where
  "timer_ns2tick q ns =
     bind_result (timer_tick2ns q 1) (\<lambda>ticks_2_ns.
       Inr (if ticks_2_ns \<noteq> 0 then ns div ticks_2_ns else 0xFFFFFFFF))"

end
