(* ===== verification/Clock_Props.thy ===== *)
theory Clock_Props
  imports Clock
begin

text \<open>
  Properties of \<open>Clock\<close>: broken-down times are well formed and convert back, and the
  period and tick conversions are the exact quotients.
\<close>

section \<open>The years\<close>

text \<open>Days between the first of January 1970 and that of \<open>1970 + n\<close>, counting every fourth year as a leap year.\<close>

definition year_start :: "nat \<Rightarrow> nat" where
  "year_start n = 365 * n + (n + 1) div 4"

definition leap :: "nat \<Rightarrow> bool" where
  "leap n \<longleftrightarrow> (n + 2) mod 4 = 0"

definition year_length :: "nat \<Rightarrow> nat" where
  "year_length n = (if leap n then 366 else 365)"

lemma year_start_Suc: "year_start (Suc n) = year_start n + year_length n"
proof -
  have "(n + 2) div 4 = (n + 1) div 4 + (if (n + 2) mod 4 = 0 then 1 else 0)" by presburger
  then show ?thesis by (simp add: year_start_def year_length_def leap_def)
qed

lemma leap_word:
  assumes "unat (y :: u64) < 2 ^ 63"
  shows "(y + 2) mod 4 = 0 \<longleftrightarrow> leap (unat y)"
proof -
  have "unat (y + 2) = unat y + 2" using assms by (subst unat_add_lem [THEN iffD1]) auto
  then show ?thesis by (simp add: leap_def word_eq_iff_unsigned unat_mod flip: unat_eq_0_iff)
qed

lemma year_days_nat:
  assumes "unat y < 2 ^ 63"
  shows "unat (year_days y) = year_length (unat y)"
  by (simp add: year_days_def year_length_def leap_word [OF assms])

lemma year_loop_spec:
  assumes "365 * unat y + unat d < 2 ^ 62"
  shows "\<exists>d' y'. year_loop d y = (d', y') \<and> year_start (unat y') + unat d' = year_start (unat y) + unat d
    \<and> unat d' < year_length (unat y') \<and> unat y' \<le> unat y + unat d"
  using assms
proof (induction d y rule: year_loop.induct)
  case (1 d y)
  have y: "unat y < 2 ^ 63" using "1.prems" by simp
  note len = year_days_nat [OF y]
  show ?case
  proof (cases "year_days y > d")
    case True
    then show ?thesis using len by (simp add: year_loop.simps [of d y] word_less_nat_alt)
  next
    case False
    have le: "year_length (unat y) \<le> unat d" using False len by (simp add: not_less word_le_nat_alt)
    have l: "365 \<le> year_length (unat y)" by (simp add: year_length_def)
    have d: "unat (d - year_days y) = unat d - year_length (unat y)"
      using False len by (simp add: unat_sub not_less)
    have s: "unat (y + 1) = Suc (unat y)" using y by (subst unat_add_lem [THEN iffD1]) auto
    have "365 * unat (y + 1) + unat (d - year_days y) < 2 ^ 62"
      using "1.prems" d s le l by simp
    from "1.IH" [OF False this] obtain d' y' where "year_loop (d - year_days y) (y + 1) = (d', y')"
      "year_start (unat y') + unat d' = year_start (unat (y + 1)) + unat (d - year_days y)"
      "unat d' < year_length (unat y')" "unat y' \<le> unat (y + 1) + unat (d - year_days y)"
      by blast
    then show ?thesis using False le d s l
      by (auto simp: year_loop.simps [of d y] year_start_Suc)
  qed
qed

section \<open>The months\<close>

lemma month_loop_spec:
  assumes "unat d < sum_list (map unat ts)" and "unat m + length ts < 2 ^ 62"
  shows "\<exists>k d'. month_loop ts d m = (d', m + of_nat k) \<and> k < length ts
    \<and> sum_list (map unat (take k ts)) + unat d' = unat d \<and> unat d' < unat (ts ! k)"
  using assms
proof (induction ts d m rule: month_loop.induct)
  case (2 t ts d m)
  show ?case
  proof (cases "t > d")
    case True
    then show ?thesis by (intro exI [of _ 0] exI [of _ d]) (simp add: word_less_nat_alt)
  next
    case False
    have d: "unat (d - t) = unat d - unat t" "unat t \<le> unat d"
      using False by (simp_all add: unat_sub not_less word_le_nat_alt)
    have m: "unat (m + 1) = Suc (unat m)" using "2.prems"(2) by (subst unat_add_lem [THEN iffD1]) auto
    have "unat (d - t) < sum_list (map unat ts)" "unat (m + 1) + length ts < 2 ^ 62"
      using "2.prems" d m by simp_all
    from "2.IH" [OF False this] obtain k d' where
      "month_loop ts (d - t) (m + 1) = (d', m + 1 + of_nat k)" "k < length ts"
      "sum_list (map unat (take k ts)) + unat d' = unat (d - t)" "unat d' < unat (ts ! k)"
      by blast
    then show ?thesis using False d
      by (intro exI [of _ "Suc k"] exI [of _ d']) (simp add: algebra_simps)
  qed
qed simp

lemma mdays_simps: "length (mdays b) = 12" "sum_list (map unat (mdays b)) = (if b then 366 else 365)"
  by (simp_all add: mdays_def)

definition month_start :: "bool \<Rightarrow> nat \<Rightarrow> nat" where
  "month_start b k = sum_list (map unat (take k (mdays b)))"

section \<open>Fields of a broken-down time\<close>

text \<open>
  The time \<open>t\<close> is the second \<open>s\<close> of the day with index \<open>d\<close> of month \<open>m\<close> in the year \<open>1970 + y\<close>.
\<close>

definition time_parts :: "nat \<Rightarrow> nat \<Rightarrow> nat \<Rightarrow> nat \<Rightarrow> nat \<Rightarrow> bool" where
  "time_parts t y m d s \<longleftrightarrow> m < 12 \<and> d < unat (mdays (leap y) ! m) \<and> s < 86400
     \<and> t = 86400 * (year_start y + month_start (leap y) m + d) + s"

lemma ucast_32: "(ucast (x :: u64) :: u32) = of_nat (unat x)"
  by (simp add: of_nat_unat)

lemma sint_small:
  assumes "unat (t :: u64) < 2 ^ 63"
  shows "sint t = int (unat t)"
proof -
  have "int (unat t) < int (2 ^ 63)" using assms by (simp only: of_nat_less_iff)
  then have "uint t < 2 ^ 63" by simp
  moreover have "0 \<le> uint t" by simp
  ultimately have "signed_take_bit 63 (uint t) = uint t"
    by (intro signed_take_bit_int_eq_self) linarith+
  then show ?thesis unfolding sint_uint by simp
qed

lemma signed_nonneg:
  assumes "0 \<le> (x :: int)"
  shows "x sdiv 86400 = x div 86400" "x smod 86400 = x mod 86400"
  using assms by (auto simp: signed_divide_int_def signed_modulo_int_def sgn_if)

lemma unat_numeral_86400: "unat (86400 :: u64) = 86400"
  by simp

lemma small_division:
  assumes "sint t = int (unat (t :: u64))"
  shows "(of_int (sint t sdiv 86400) :: u64) = t div 86400" "(of_int (sint t smod 86400) :: u64) = t mod 86400"
proof -
  have q: "int (unat t) sdiv 86400 = int (unat t div 86400)" "int (unat t) smod 86400 = int (unat t mod 86400)"
    by (simp_all add: signed_nonneg zdiv_int zmod_int)
  show "(of_int (sint t sdiv 86400) :: u64) = t div 86400" "(of_int (sint t smod 86400) :: u64) = t mod 86400"
    unfolding assms q of_int_of_nat_eq
    by (metis of_nat_unat ucast_id unat_div unat_numeral_86400 unat_mod)+
qed

lemma month_at_most_31:
  assumes "k < 12"
  shows "unat (mdays b ! k) \<le> 31"
proof -
  have "\<forall>x \<in> set (mdays b). unat x \<le> 31" by (simp add: mdays_def)
  then show ?thesis using assms by (simp add: mdays_simps)
qed

lemma gmtime_parts:
  assumes "unat t < 2 ^ 55"
  shows "\<exists>y m d s. time_parts (unat t) y m d s \<and> y < 2 ^ 39
    \<and> gmtime t = \<lparr>tm_sec = of_nat (s mod 60), tm_min = of_nat (s div 60 mod 60), tm_hour = of_nat (s div 60 div 60),
        tm_mday = of_nat (d + 1), tm_mon = of_nat m, tm_year = of_nat (y + 70),
        tm_wday = of_nat ((unat t div 86400 + 4) mod 7), tm_yday = of_nat (month_start (leap y) m + d)\<rparr>"
proof -
  define D where "D = t div 86400"
  define S where "S = t mod 86400"
  have DS: "unat D = unat t div 86400" "unat S = unat t mod 86400"
    by (simp_all add: D_def S_def unat_div unat_mod)
  have t: "sint t = int (unat t)" using assms by (intro sint_small) simp
  have days: "(of_int (sint t sdiv 86400) :: u64) = D" "(of_int (sint t smod 86400) :: u64) = S"
    using small_division [OF t] by (simp_all add: D_def S_def)
  have D: "unat D < 2 ^ 39" using assms DS by (simp add: less_mult_imp_div_less)
  obtain N Y where y: "year_loop D 0 = (N, Y)" "year_start (unat Y) + unat N = unat D"
    "unat N < year_length (unat Y)" "unat Y \<le> unat D"
    using year_loop_spec [of 0 D] D by (auto simp: year_start_def)
  have lp: "((Y + 2) mod 4 = 0) = leap (unat Y)" by (rule leap_word) (use y D in simp)
  obtain m d where m: "month_loop (mdays (leap (unat Y))) N 0 = (d, of_nat m)" "m < 12"
    "month_start (leap (unat Y)) m + unat d = unat N" "unat d < unat (mdays (leap (unat Y)) ! m)"
    using month_loop_spec [of N "mdays (leap (unat Y))" 0] y(3)
    by (auto simp: mdays_simps year_length_def month_start_def)
  have parts: "time_parts (unat t) (unat Y) m (unat d) (unat S)"
  proof -
    have "unat t = 86400 * unat D + unat S" using mult_div_mod_eq [of 86400 "unat t"] DS by simp
    moreover have "unat D = year_start (unat Y) + month_start (leap (unat Y)) m + unat d"
      using y(2) m(3) by simp
    ultimately show ?thesis using m(2,4) DS by (simp add: time_parts_def)
  qed
  have d1: "unat (d + 1) = unat d + 1"
    using m(2,4) month_at_most_31 [of m "leap (unat Y)"] by (subst unat_add_lem [THEN iffD1]) auto
  have y70: "unat (Y + 70) = unat Y + 70"
    using y(4) D by (subst unat_add_lem [THEN iffD1]) auto
  have w: "unat ((D + 4) mod 7) = (unat t div 86400 + 4) mod 7"
    using D DS by (simp add: unat_mod) (subst unat_add_lem [THEN iffD1], auto)
  have "gmtime t = \<lparr>tm_sec = of_nat (unat S mod 60), tm_min = of_nat (unat S div 60 mod 60), tm_hour = of_nat (unat S div 60 div 60),
        tm_mday = of_nat (unat d + 1), tm_mon = of_nat m, tm_year = of_nat (unat Y + 70),
        tm_wday = of_nat ((unat t div 86400 + 4) mod 7), tm_yday = of_nat (month_start (leap (unat Y)) m + unat d)\<rparr>"
    unfolding gmtime_def days Let_def y(1) prod.case lp m(1) ucast_32 d1 y70 w m(3)
    using m(2) by (simp add: unat_mod unat_div unat_of_nat)
  with parts y(4) D show ?thesis by (meson order_le_less_trans)
qed

definition tm_ok :: "tm \<Rightarrow> bool" where
  "tm_ok tm \<longleftrightarrow> tm_sec tm < 60 \<and> tm_min tm < 60 \<and> tm_hour tm < 24 \<and> tm_mon tm < 12 \<and> tm_wday tm < 7
     \<and> 1 \<le> unat (tm_mday tm) \<and> unat (tm_mday tm) \<le> unat (mdays (leap (unat (tm_year tm) - 70)) ! unat (tm_mon tm))
     \<and> unat (tm_yday tm) + 1 = month_start (leap (unat (tm_year tm) - 70)) (unat (tm_mon tm)) + unat (tm_mday tm)"

lemma month_start_bound: "m < 12 \<Longrightarrow> month_start b m \<le> 335"
proof -
  assume "m < 12"
  have "\<forall>m \<in> {..<12}. month_start b m \<le> 335" by (cases b) (simp_all add: month_start_def mdays_def lessThan_nat_numeral lessThan_Suc)
  with \<open>m < 12\<close> show ?thesis by blast
qed

text \<open>Every field in its range, and the time by the code's own count, in which every fourth year is a leap year.\<close>

lemma gmtime_fields:
  assumes "unat t < 2 ^ 55"
  shows "tm_ok (gmtime t)
    \<and> unat t = 86400 * (year_start (unat (tm_year (gmtime t)) - 70) + unat (tm_yday (gmtime t)))
        + 3600 * unat (tm_hour (gmtime t)) + 60 * unat (tm_min (gmtime t)) + unat (tm_sec (gmtime t))
    \<and> unat (tm_wday (gmtime t)) = (unat t div 86400 + 4) mod 7 \<and> 70 \<le> unat (tm_year (gmtime t))"
proof -
  obtain y m d s where p: "time_parts (unat t) y m d s" "y < 2 ^ 39"
    and g: "gmtime t = \<lparr>tm_sec = of_nat (s mod 60), tm_min = of_nat (s div 60 mod 60), tm_hour = of_nat (s div 60 div 60),
        tm_mday = of_nat (d + 1), tm_mon = of_nat m, tm_year = of_nat (y + 70),
        tm_wday = of_nat ((unat t div 86400 + 4) mod 7), tm_yday = of_nat (month_start (leap y) m + d)\<rparr>"
    using gmtime_parts [OF assms] by blast
  have b: "m < 12" "d < 31" "s < 86400" "d < unat (mdays (leap y) ! m)"
    using p(1) month_at_most_31 [of m "leap y"] by (auto simp: time_parts_def)
  have "365 * y \<le> year_start y" by (simp add: year_start_def)
  then have "86400 * (365 * y) \<le> unat t" using p(1) by (auto simp: time_parts_def)
  then have y: "y + 70 < 2 ^ 32" using assms by simp
  have u: "unat (tm_year (gmtime t)) = y + 70" "unat (tm_mon (gmtime t)) = m" "unat (tm_mday (gmtime t)) = d + 1"
    "unat (tm_hour (gmtime t)) = s div 60 div 60" "unat (tm_min (gmtime t)) = s div 60 mod 60"
    "unat (tm_sec (gmtime t)) = s mod 60" "unat (tm_yday (gmtime t)) = month_start (leap y) m + d"
    "unat (tm_wday (gmtime t)) = (unat t div 86400 + 4) mod 7"
    using b y month_start_bound [of m "leap y"] unfolding g tm.simps
    by (intro unat_small_nat; simp)+
  have h: "s div 60 div 60 < 24" using b(3) by (simp add: less_mult_imp_div_less)
  have "s = 60 * (s div 60) + s mod 60" "s div 60 = 60 * (s div 60 div 60) + s div 60 mod 60"
    by (simp_all only: mult_div_mod_eq)
  then have "s = 3600 * (s div 60 div 60) + 60 * (s div 60 mod 60) + s mod 60" by linarith
  moreover have "unat t = 86400 * (year_start y + (month_start (leap y) m + d)) + s"
    using p(1) by (simp add: time_parts_def)
  moreover have "tm_ok (gmtime t)"
    unfolding tm_ok_def word_less_nat_alt u using b h by simp
  ultimately show ?thesis unfolding u by simp
qed

text \<open>
  The Gregorian calendar: every fourth year is a leap year, but of the full centuries only every fourth.  Months count from 0, days from 1; the
  days are those since the first of January 1970, a Thursday.
\<close>

definition civil_leap :: "nat \<Rightarrow> bool" where
  "civil_leap y \<longleftrightarrow> 4 dvd y \<and> (\<not> 100 dvd y \<or> 400 dvd y)"

definition civil_months :: "nat \<Rightarrow> nat list" where
  "civil_months y = [31, if civil_leap y then 29 else 28, 31, 30, 31, 30, 31, 31, 30, 31, 30, 31]"

definition civil_days :: "nat \<Rightarrow> nat \<Rightarrow> nat \<Rightarrow> nat" where
  "civil_days y m d = sum_list (map (\<lambda>i. if civil_leap i then 366 else 365) [1970..<y]) + sum_list (take m (civil_months y)) + (d - 1)"

definition civil_date :: "nat \<Rightarrow> nat \<Rightarrow> nat \<Rightarrow> bool" where
  "civil_date y m d \<longleftrightarrow> 1970 \<le> y \<and> m < 12 \<and> 1 \<le> d \<and> d \<le> civil_months y ! m"

lemma civil_leap_until_2100: "n < 130 \<Longrightarrow> civil_leap (1970 + n) \<longleftrightarrow> leap n"
proof -
  assume n: "n < 130"
  have c: "400 dvd 1970 + n" if h: "100 dvd 1970 + n"
  proof -
    from h obtain k where k: "1970 + n = 100 * k" by (elim dvdE)
    with n have "k = 20" by linarith
    with k show ?thesis by simp
  qed
  have "4 dvd 1970 + n \<longleftrightarrow> (n + 2) mod 4 = 0" by presburger
  with c show ?thesis unfolding civil_leap_def leap_def by argo
qed

lemma civil_years: "n \<le> 130 \<Longrightarrow> sum_list (map (\<lambda>i. if civil_leap i then 366 else 365) [1970..<1970 + n]) = year_start n"
proof (induction n)
  case (Suc n)
  have up: "[1970..<1970 + Suc n] = [1970..<1970 + n] @ [1970 + n]" unfolding add_Suc_right by (rule upt_Suc_append) simp
  have "(if civil_leap (1970 + n) then 366 else 365) = year_length n" using civil_leap_until_2100 [of n] Suc.prems by (simp add: year_length_def)
  then show ?case unfolding up map_append sum_list_append year_start_Suc using Suc by simp
qed (simp add: year_start_def)

lemma civil_month_lengths: "civil_months y = map unat (mdays (civil_leap y))"
  by (simp add: civil_months_def mdays_def)

lemma month_start_two: "2 \<le> m \<Longrightarrow> m < 12 \<Longrightarrow> 60 \<le> month_start True m"
proof -
  assume m: "2 \<le> m" "m < 12"
  have "\<forall>m \<in> {..<12}. 2 \<le> m \<longrightarrow> 60 \<le> month_start True m" by (simp add: month_start_def mdays_def lessThan_nat_numeral lessThan_Suc)
  with m show ?thesis by blast
qed

text \<open>Up to the 28th of February 2100 the two calendars are the same.\<close>

lemma civil_same:
  assumes "m < 12" and "d < unat (mdays (leap y) ! m)" and "year_start y + month_start (leap y) m + d < 47541"
  shows "civil_date (1970 + y) m (d + 1) \<and> civil_days (1970 + y) m (d + 1) = year_start y + month_start (leap y) m + d"
proof -
  have "y \<le> 130"
  proof (rule ccontr)
    assume "\<not> y \<le> 130"
    then have "365 * y \<ge> 365 * 131" "(y + 1) div 4 \<ge> 33" by simp_all
    then show False using assms(3) by (simp add: year_start_def)
  qed
  then consider (old) "y < 130" | (last) "y = 130" by linarith
  then show ?thesis
  proof cases
    case old
    have l: "civil_leap (1970 + y) = leap y" using old by (rule civil_leap_until_2100)
    have n: "map unat (mdays b) ! m = unat (mdays b ! m)" for b using assms(1) by (simp add: mdays_simps)
    show ?thesis using assms(1,2) old civil_years [of y]
      by (simp add: civil_date_def civil_days_def civil_month_lengths l n month_start_def take_map)
  next
    case last
    have l: "leap y" "\<not> civil_leap (1970 + y)" by (simp_all add: last leap_def civil_leap_def)
    have ys: "year_start y = 47482" by (simp add: last year_start_def)
    have "m < 2" using month_start_two [of m] assms(1,3) l(1) ys by (cases "m < 2") simp_all
    then consider "m = 0" | "m = 1" by linarith
    then show ?thesis
    proof cases
      case 1
      then show ?thesis using assms(2) ys civil_years [of y] l last
        by (simp add: civil_date_def civil_days_def civil_months_def month_start_def mdays_def)
    next
      case 2
      then have "d < 28" using assms(3) l(1) ys by (simp add: month_start_def mdays_def)
      then show ?thesis using 2 ys civil_years [of y] l last
        by (simp add: civil_date_def civil_days_def civil_months_def month_start_def mdays_def)
    qed
  qed
qed

lemma day_split: "b < 86400 \<Longrightarrow> (86400 * a + b) div 86400 = (a :: nat)"
  by simp

lemma civil_of_days:
  assumes m: "m < 12" and d: "1 \<le> d" "d \<le> unat (mdays (leap n) ! m)" and yd: "yd + 1 = month_start (leap n) m + d"
    and lt: "year_start n + yd < 47541"
  shows "civil_date (1970 + n) m d" and "civil_days (1970 + n) m d = year_start n + yd" and "civil_days (1970 + n) 0 1 = year_start n"
proof -
  have e: "year_start n + month_start (leap n) m + (d - 1) = year_start n + yd" using d(1) yd by linarith
  have e': "d - 1 + 1 = d" using d(1) by linarith
  have "d - 1 < unat (mdays (leap n) ! m)" using d by linarith
  note c = civil_same [OF m this, unfolded e e', OF lt]
  show "civil_date (1970 + n) m d" by (rule conjunct1 [OF c])
  show "civil_days (1970 + n) m d = year_start n + yd" by (rule conjunct2 [OF c])
  have z: "(0 :: nat) < unat (mdays (leap n) ! 0)" by (simp add: mdays_def)
  have z': "year_start n + month_start (leap n) 0 + 0 = year_start n" by (simp add: month_start_def)
  have "year_start n < 47541" using lt by linarith
  note c0 = civil_same [OF _ z, unfolded z', OF _ this]
  have "civil_days (1970 + n) 0 (0 + 1) = year_start n" by (rule conjunct2 [OF c0]) simp
  then show "civil_days (1970 + n) 0 1 = year_start n" unfolding add_0 .
qed

text \<open>C39: For every time up to the year 2^30 the fields of \<open>gmtime\<close> are in their ranges, and up to the end of the 28th of
  February 2100 they are the date and time of the Gregorian calendar: the date exists, it lies as many days after the first of January 1970
  as the time has full days, hours, minutes and seconds make up the rest, the weekday and the day of the year are those of that date.  From then on \<open>gmtime\<close> is
  off, as it takes every fourth year for a leap year: the next day it returns is the 29th of February 2100.\<close>

theorem gmtime_well_formed:
  assumes "unat t < 2 ^ 55"
  defines "g \<equiv> gmtime t"
  defines "y \<equiv> 1900 + unat (tm_year g)" and "m \<equiv> unat (tm_mon g)" and "d \<equiv> unat (tm_mday g)"
  shows "tm_sec g < 60 \<and> tm_min g < 60 \<and> tm_hour g < 24 \<and> m < 12 \<and> 1 \<le> d \<and> d \<le> 31 \<and> tm_yday g < 366 \<and> tm_wday g < 7
    \<and> (unat t < 4107542400 \<longrightarrow> civil_date y m d
         \<and> unat t = 86400 * civil_days y m d + 3600 * unat (tm_hour g) + 60 * unat (tm_min g) + unat (tm_sec g)
         \<and> unat (tm_wday g) = (civil_days y m d + 4) mod 7
         \<and> unat (tm_yday g) = civil_days y m d - civil_days y 0 1)"
proof -
  from gmtime_fields [OF assms(1)] have f: "tm_ok g"
    and t: "unat t = 86400 * (year_start (unat (tm_year g) - 70) + unat (tm_yday g))
        + 3600 * unat (tm_hour g) + 60 * unat (tm_min g) + unat (tm_sec g)"
    and w: "unat (tm_wday g) = (unat t div 86400 + 4) mod 7" and l: "70 \<le> unat (tm_year g)"
    unfolding g_def by blast+
  define n where "n = unat (tm_year g) - 70"
  have y: "y = 1970 + n" unfolding y_def n_def using l by linarith
  from f have ok: "m < 12" "1 \<le> d" "d \<le> unat (mdays (leap n) ! m)" "unat (tm_yday g) + 1 = month_start (leap n) m + d"
    and r: "tm_sec g < 60" "tm_min g < 60" "tm_hour g < 24" "tm_wday g < 7"
    unfolding tm_ok_def m_def d_def n_def by (simp_all add: word_less_nat_alt)
  have d: "d \<le> 31" "unat (tm_yday g) < 366"
    using ok month_at_most_31 [OF ok(1), of "leap n"] month_start_bound [OF ok(1), of "leap n"] by linarith+
  then have yd: "tm_yday g < 366" by (simp add: word_less_nat_alt)
  have "unat (tm_sec g) < 60" "unat (tm_min g) < 60" "unat (tm_hour g) < 24" using r by (simp_all add: word_less_nat_alt)
  then have b: "3600 * unat (tm_hour g) + 60 * unat (tm_min g) + unat (tm_sec g) < 86400" by linarith
  have q: "unat t div 86400 = year_start n + unat (tm_yday g)" unfolding t n_def [symmetric] add.assoc [of "86400 * _"] by (rule day_split [OF b])
  have late: "civil_date y m d
         \<and> unat t = 86400 * civil_days y m d + 3600 * unat (tm_hour g) + 60 * unat (tm_min g) + unat (tm_sec g)
         \<and> unat (tm_wday g) = (civil_days y m d + 4) mod 7
         \<and> unat (tm_yday g) = civil_days y m d - civil_days y 0 1" if "unat t < 4107542400"
  proof -
    have lt: "year_start n + unat (tm_yday g) < 47541" using that unfolding q [symmetric] by (simp add: less_mult_imp_div_less)
    note c = civil_of_days [OF ok lt, folded y]
    show ?thesis unfolding c(2,3) using c(1) t w unfolding q n_def [symmetric] by (intro conjI) simp_all
  qed
  show ?thesis
    by (rule conjI [OF r(1) conjI [OF r(2) conjI [OF r(3) conjI [OF ok(1) conjI [OF ok(2) conjI [OF d(1) conjI [OF yd conjI [OF r(4)]]]]]]]])
      (rule impI, rule late)
qed

section \<open>Back to seconds\<close>

lemma month_sec_days:
  assumes "m < 12"
  shows "month_sec ! m = 86400 * of_nat (month_start False m)"
    "month_start True m = month_start False m + (if 2 \<le> m then 1 else 0)"
proof -
  have "\<forall>m \<in> {..<12}. month_sec ! m = 86400 * of_nat (month_start False m)"
    "\<forall>m \<in> {..<12}. month_start True m = month_start False m + (if 2 \<le> m then 1 else 0)"
    by (simp_all add: month_start_def mdays_def month_sec_def lessThan_nat_numeral lessThan_Suc)
  with assms show "month_sec ! m = 86400 * of_nat (month_start False m)"
    "month_start True m = month_start False m + (if 2 \<le> m then 1 else 0)" by blast+
qed

text \<open>The two functions treat the years 2100, 2200, 2300, 2500 and so on differently.\<close>

definition century_rule :: "nat \<Rightarrow> nat \<Rightarrow> bool" where
  "century_rule year mon \<longleftrightarrow> 2 \<le> mon \<and> year mod 100 = 0 \<and> year mod 400 \<noteq> 0"

lemma word_zero_iff: "x = 0 \<longleftrightarrow> unat (x :: u32) = 0"
  by (simp add: unat_eq_0_iff)

lemma unat_numerals: "unat (4 :: u32) = 4" "unat (100 :: u32) = 100" "unat (400 :: u32) = 400"
  by simp_all

lemma calc_parts:
  assumes "time_parts t y m d s" and "y < 2 ^ 31 - 2000"
  shows "calc_time_t \<lparr>tm_sec = of_nat (s mod 60), tm_min = of_nat (s div 60 mod 60), tm_hour = of_nat (s div 60 div 60),
      tm_mday = of_nat (d + 1), tm_mon = of_nat m, tm_year = of_nat (y + 70), tm_wday = wd, tm_yday = yd\<rparr>
    = Inr (of_nat t - (if century_rule (y + 1970) m then 86400 else 0))"
proof -
  have b: "m < 12" "d < 31" "s < 86400"
    using assms(1) month_at_most_31 [of m "leap y"] by (auto simp: time_parts_def)
  have h: "s div 60 div 60 < 24" using b(3) by (simp add: less_mult_imp_div_less)
  have y70: "of_nat (y + 70) - 70 = (of_nat y :: u32)" by simp
  have y1900: "of_nat (y + 70) + 1900 = (of_nat (y + 1970) :: u32)" by simp
  have y32: "y + 1970 < 2 ^ 32" using assms(2) by simp
  have ym: "(of_nat (y + 1970) :: u32) mod 4 = 0 \<longleftrightarrow> leap y" "(of_nat (y + 1970) :: u32) mod 100 = 0 \<longleftrightarrow> (y + 1970) mod 100 = 0"
    "(of_nat (y + 1970) :: u32) mod 400 = 0 \<longleftrightarrow> (y + 1970) mod 400 = 0"
    unfolding word_zero_iff unat_mod unat_numerals unat_small_nat [OF y32] leap_def by presburger+
  have q: "(ucast (drop_bit 2 (of_nat y + 1 :: u32)) :: u64) = of_nat ((y + 1) div 4)"
  proof -
    have "of_nat y + 1 = (of_nat (y + 1) :: u32)" by simp
    moreover have "unat (drop_bit 2 (of_nat (y + 1) :: u32)) = (y + 1) div 4"
      using unat_small_nat [of "y + 1"] assms(2) unfolding drop_bit_eq_div unat_div by simp
    ultimately show ?thesis by (metis of_nat_unat)
  qed
  have m: "0 \<le>s (of_nat m :: u32)" "2 \<le>s (of_nat m :: u32) \<longleftrightarrow> 2 \<le> m" "unat (of_nat m :: u32) = m"
    "(of_nat m :: u64) < of_nat (length month_sec)"
    using b(1) by (simp_all add: word_sle_eq sint_of_nat32 unat_small_nat month_sec_def word_less_nat_alt unat_of_nat)
  have d1: "of_nat (d + 1) - 1 = (of_nat d :: u32)" by simp
  have fields: "(ucast (of_nat y :: u32) :: u64) = of_nat y" "(scast (of_nat d :: u32) :: u64) = of_nat d"
    "(scast (of_nat (s div 60 div 60) :: u32) :: u64) = of_nat (s div 60 div 60)"
    "(scast (of_nat (s div 60 mod 60) :: u32) :: u64) = of_nat (s div 60 mod 60)"
    "(scast (of_nat (s mod 60) :: u32) :: u64) = of_nat (s mod 60)" "(scast (of_nat m :: u32) :: u64) = of_nat m"
    using assms(2) b h by (intro ucast_of_nat32 scast_of_nat32; simp)+
  define e where "e = (if 2 \<le> m \<and> leap y \<and> ((y + 1970) mod 100 \<noteq> 0 \<or> (y + 1970) mod 400 = 0) then 1 else 0 :: nat)"
  have sec: "calc_time_t \<lparr>tm_sec = of_nat (s mod 60), tm_min = of_nat (s div 60 mod 60), tm_hour = of_nat (s div 60 div 60),
      tm_mday = of_nat (d + 1), tm_mon = of_nat m, tm_year = of_nat (y + 70), tm_wday = wd, tm_yday = yd\<rparr>
    = Inr (of_nat (86400 * (365 * y + (y + 1) div 4 + month_start False m + e + d)
        + 3600 * (s div 60 div 60) + 60 * (s div 60 mod 60) + s mod 60))"
    unfolding calc_time_t_def Let_def tm.simps y70 y1900 d1 fields q m ym month_sec_days(1) [OF b(1)]
    by (cases "2 \<le> m \<and> leap y \<and> ((y + 1970) mod 100 \<noteq> 0 \<or> (y + 1970) mod 400 = 0)")
      (auto simp: m ym e_def SEC_PER_DAY_def SEC_PER_HOUR_def SEC_PER_MIN_def algebra_simps)
  have c: "century_rule (y + 1970) m \<longleftrightarrow> 2 \<le> m \<and> leap y \<and> \<not> ((y + 1970) mod 100 \<noteq> 0 \<or> (y + 1970) mod 400 = 0)"
    unfolding century_rule_def leap_def by presburger
  have "s = 60 * (s div 60) + s mod 60" "s div 60 = 60 * (s div 60 div 60) + s div 60 mod 60"
    by (simp_all only: mult_div_mod_eq)
  then have "s = 3600 * (s div 60 div 60) + 60 * (s div 60 mod 60) + s mod 60" by linarith
  moreover have "month_start (leap y) m = month_start False m + e + (if century_rule (y + 1970) m then 1 else 0)"
    using month_sec_days(2) [OF b(1)] by (cases "leap y") (auto simp: e_def c)
  ultimately have "t = 86400 * (365 * y + (y + 1) div 4 + month_start False m + e + d)
        + 3600 * (s div 60 div 60) + 60 * (s div 60 mod 60) + s mod 60 + (if century_rule (y + 1970) m then 86400 else 0)"
    using assms(1) by (simp add: time_parts_def year_start_def)
  then show ?thesis unfolding sec by simp
qed

text \<open>C38: Converting a time to calendar form and back gives the time again, for every time up to the year 2^30,
  except from March to December of the years 2100, 2200, 2300, 2500 and so on, where \<open>calc_time_t\<close> leaves out a leap
  day that \<open>gmtime\<close> counts and the result is one day early.\<close>

theorem gmtime_calc_roundtrip:
  assumes "unat t < 2 ^ 55"
  shows "calc_time_t (gmtime t)
    = Inr (if century_rule (unat (tm_year (gmtime t)) + 1900) (unat (tm_mon (gmtime t))) then t - 86400 else t)"
proof -
  obtain y m d s where p: "time_parts (unat t) y m d s" "y < 2 ^ 39"
    and g: "gmtime t = \<lparr>tm_sec = of_nat (s mod 60), tm_min = of_nat (s div 60 mod 60), tm_hour = of_nat (s div 60 div 60),
        tm_mday = of_nat (d + 1), tm_mon = of_nat m, tm_year = of_nat (y + 70),
        tm_wday = of_nat ((unat t div 86400 + 4) mod 7), tm_yday = of_nat (month_start (leap y) m + d)\<rparr>"
    using gmtime_parts [OF assms] by blast
  have "365 * y \<le> year_start y" by (simp add: year_start_def)
  then have "86400 * (365 * y) \<le> unat t" using p(1) by (auto simp: time_parts_def)
  then have y: "y < 2 ^ 31 - 2000" using assms by simp
  then have "unat (of_nat (y + 70) :: u32) = y + 70" "unat (of_nat m :: u32) = m"
    using p(1) by (intro unat_small_nat; simp add: time_parts_def)+
  then show ?thesis using calc_parts [OF p(1) y] unfolding g by (simp add: add.commute)
qed

text \<open>The 29th of February 2024, and the day \<open>gmtime\<close> takes for the first of March 2100.\<close>

theorem gmtime_calc_roundtrip_witness:
  "calc_time_t (gmtime 1709210096) = Inr 1709210096 \<and> calc_time_t (gmtime 4107628800) = Inr (4107628800 - 86400)"
proof -
  have "tm_year (gmtime 1709210096) = 124" "tm_year (gmtime 4107628800) = 200" "tm_mon (gmtime 4107628800) = 2"
    by code_simp+
  then show ?thesis using gmtime_calc_roundtrip [of 1709210096] gmtime_calc_roundtrip [of 4107628800]
    by (simp add: century_rule_def)
qed

text \<open>A Thursday, the 29th of February 2024, and the day after the 28th of February 2100.\<close>

theorem gmtime_well_formed_witness:
  "civil_date 2024 1 29 \<and> civil_days 2024 1 29 = 19782 \<and> unat (tm_wday (gmtime 1709210096)) = 4
     \<and> unat (tm_mday (gmtime 4107542400)) = 29 \<and> tm_wday (gmtime 4107542400) < 7"
proof -
  have v: "tm_year (gmtime 1709210096) = 124" "tm_mon (gmtime 1709210096) = 1" "tm_mday (gmtime 1709210096) = 29"
    "tm_hour (gmtime 1709210096) = 12" "tm_min (gmtime 1709210096) = 34" "tm_sec (gmtime 1709210096) = 56" by code_simp+
  have l: "tm_mday (gmtime 4107542400) = 29" by code_simp
  have "unat (1709210096 :: u64) < 2 ^ 55" "unat (1709210096 :: u64) < 4107542400" "unat (4107542400 :: u64) < 2 ^ 55" by simp_all
  from gmtime_well_formed [OF this(1)] gmtime_well_formed [OF this(3)] this(2) show ?thesis by (simp add: v l)
qed

section \<open>The timer period\<close>

text \<open>One round of the division.\<close>

lemma invert_step:
  fixes f p q :: u32
  assumes "0 < unat f" and "unat f \<le> 429496729" and "10 ^ j = 10 * unat p * unat f + unat q" and "unat p < 429496719"
    and "unat q < 10 * unat f"
  defines "p' \<equiv> p * 10 + q div f"
  shows "unat p' = 10 ^ j div unat f" and "unat (q mod f) = 10 ^ j mod unat f" and "unat (q mod f * 10) = 10 * (10 ^ j mod unat f)"
proof -
  have "unat q div unat f < 10" using assms(5) by (simp add: less_mult_imp_div_less)
  then have d: "unat q div unat f \<le> 9" by linarith
  have m: "unat (p * 10) = unat p * 10" using assms(4) by (subst unat_mult_lem [THEN iffD1]) simp_all
  have "unat (p * 10) + unat (q div f) < 2 ^ 32" using d m assms(4) by (simp add: unat_div)
  then have "unat p' = unat p * 10 + unat q div unat f" unfolding p'_def
    using m by (simp add: unat_add_lem [THEN iffD1] unat_div)
  moreover have "10 ^ j div unat f = unat p * 10 + unat q div unat f"
    using assms(1) unfolding assms(3) by (simp add: mult.commute mult.left_commute)
  ultimately show "unat p' = 10 ^ j div unat f" by simp
  show r: "unat (q mod f) = 10 ^ j mod unat f" unfolding assms(3) by (simp add: unat_mod)
  have "10 ^ j mod unat f < unat f" using assms(1) by simp
  then have "unat (q mod f) * unat (10 :: u32) < 2 ^ 32" using r assms(2) by simp
  then show "unat (q mod f * 10) = 10 * (10 ^ j mod unat f)"
    using r by (simp add: unat_mult_lem [THEN iffD1])
qed

lemma scale_division: "a = b * c + r \<Longrightarrow> 10 * a = 10 * b * c + 10 * (r :: nat)"
  by simp

lemma invert_loop_spec:
  fixes f p q :: u32
  assumes "0 < unat f" and "unat f \<le> 429496729" and "10 ^ j = 10 * unat p * unat f + unat q" and "unat p < 429496719"
    and "unat q < 10 * unat f" and "19 \<le> n + j"
  shows "\<exists>k P. invert_loop n f q p s = Inr \<lparr>timer_period = P, timer_scale = s - int k\<rparr>
    \<and> unat P = 10 ^ (j + k) div unat f \<and> (10 ^ (j + k) mod unat f = 0 \<or> 429496719 \<le> unat P)"
  using assms
proof (induction n arbitrary: j p q s)
  case 0
  have "unat p * unat f \<le> 429496718 * 429496729" using 0 by (intro mult_mono) auto
  then have "10 ^ j < 10 * (429496718 * 429496729) + 10 * (429496729 :: nat)" using 0 by linarith
  moreover have "(10 :: nat) ^ 19 \<le> 10 ^ j" using 0 by (intro power_increasing) auto
  ultimately show ?case by simp
next
  case (Suc n)
  define P where "P = p * 10 + q div f"
  note step = invert_step [OF Suc.prems(1-5), folded P_def]
  have lim: "P \<ge> period_limit \<longleftrightarrow> 429496719 \<le> unat P" by (simp add: period_limit_def word_le_nat_alt)
  have zero: "q mod f = 0 \<longleftrightarrow> 10 ^ j mod unat f = 0" using step(2) by (simp flip: unat_eq_0_iff)
  show ?case
  proof (cases "429496719 \<le> unat P \<or> 10 ^ j mod unat f = 0")
    case True
    then have "invert_loop (Suc n) f q p s = Inr \<lparr>timer_period = P, timer_scale = s\<rparr>"
      by (auto simp: Let_def lim zero simp flip: P_def)
    then show ?thesis using True step(1) by (intro exI [of _ 0] exI [of _ P]) auto
  next
    case False
    have rec: "invert_loop (Suc n) f q p s = invert_loop n f (q mod f * 10) P (s - 1)"
      using False by (simp add: Let_def lim zero flip: P_def)
    have "10 ^ Suc j = 10 * unat P * unat f + unat (q mod f * 10)"
      unfolding step(1,3) power_Suc by (rule scale_division) simp
    moreover have "10 ^ j mod unat f < unat f" using Suc.prems(1) by simp
    ultimately obtain k P' where "invert_loop n f (q mod f * 10) P (s - 1) = Inr \<lparr>timer_period = P', timer_scale = s - 1 - int k\<rparr>"
      "unat P' = 10 ^ (Suc j + k) div unat f" "10 ^ (Suc j + k) mod unat f = 0 \<or> 429496719 \<le> unat P'"
      using Suc.IH [of "Suc j" P "q mod f * 10" "s - 1"] Suc.prems False step(3) by auto
    then show ?thesis unfolding rec by (intro exI [of _ "Suc k"] exI [of _ P']) auto
  qed
qed

text \<open>How far a period of \<open>p\<close> over ten to the power \<open>k\<close> is from one over the frequency.\<close>

lemma period_error:
  fixes p f r freq :: nat
  assumes p: "p = 10 ^ k div f" and f: "0 < f" and exact: "10 ^ k mod f = 0 \<or> 429496719 \<le> p"
  shows "42949672 * (10 ^ k - p * f) \<le> 10 ^ k" and "p * f \<le> 10 ^ k"
proof -
  have split: "10 ^ k = p * f + 10 ^ k mod f" unfolding p by simp
  then show le: "p * f \<le> 10 ^ k" by linarith
  show "42949672 * (10 ^ k - p * f) \<le> 10 ^ k"
  proof (cases "10 ^ k mod f = 0")
    case False
    have "10 ^ k mod f \<le> f" using f by (simp add: order_less_imp_le)
    then have "42949672 * (10 ^ k - p * f) \<le> 42949672 * f" using split by (intro mult_le_mono2) linarith
    also have "\<dots> \<le> p * f" using exact False by (intro mult_le_mono1) linarith
    finally show ?thesis using le by linarith
  qed (use split in simp)
qed

lemma period_error_tenth:
  fixes p f r freq :: nat
  assumes p: "p = 10 ^ k div f" and f: "42949673 \<le> f" and exact: "10 ^ k mod f = 0 \<or> 429496719 \<le> p" and freq: "freq div 10 = f"
  shows "42949672 * (10 ^ (k + 1) - p * freq) \<le> 10 ^ (k + 1)" and "42949672 * (p * freq - 10 ^ (k + 1)) \<le> 10 ^ (k + 1)"
proof -
  have f0: "0 < f" using f by simp
  note e = period_error [OF p f0 exact]
  have lo: "10 * f \<le> freq" and hi: "freq \<le> 10 * f + 10" using freq by linarith+
  have "p * (10 * f) \<le> p * freq" using lo by (rule mult_le_mono2)
  moreover have "10 * (10 ^ k - p * f) = 10 ^ (k + 1) - p * (10 * f)" by (simp add: diff_mult_distrib2)
  ultimately have "10 ^ (k + 1) - p * freq \<le> 10 * (10 ^ k - p * f)" by (simp only: diff_le_mono2)
  then show "42949672 * (10 ^ (k + 1) - p * freq) \<le> 10 ^ (k + 1)" using e(1) by simp
  have "p * freq \<le> p * (10 * f + 10)" using hi by (rule mult_le_mono2)
  then have "p * freq - 10 ^ (k + 1) \<le> 10 * p" using e(2) by (simp add: algebra_simps)
  then have "42949672 * (p * freq - 10 ^ (k + 1)) \<le> 42949672 * (10 * p)" by (rule mult_le_mono2)
  also have "\<dots> \<le> 10 * (p * f)"
  proof -
    have "p * 42949673 \<le> p * f" using f by (rule mult_le_mono2)
    then show ?thesis by linarith
  qed
  also have "\<dots> \<le> 10 * 10 ^ k" using e(2) by (rule mult_le_mono2)
  finally show "42949672 * (p * freq - 10 ^ (k + 1)) \<le> 10 ^ (k + 1)" by (simp only: power_add power_one_right mult.commute)
qed

text \<open>C40: For every frequency but zero the loop of \<open>invert_timer_freq\<close> ends, and the period it finds is one over the frequency with an error
  below one part in 42949672.  Up to 429496729 Hz it holds the leading digits, \<open>period = 10 ^ k div freq\<close>, and stops when they
  are exact or when they have come to 429496719, the value from which on a further digit might not fit; that is not always the most that fits.  Above
  that frequency they are the digits of one over a tenth of the frequency, rounded down.\<close>

theorem invert_timer_freq_digits:
  assumes "freq \<noteq> 0"
  shows "\<exists>k q. invert_timer_freq freq = Inr q \<and> timer_scale q = - int k
    \<and> (let p = unat (timer_period q); f = unat freq; big = 429496729 < f
       in 42949672 * \<bar>int (p * f) - 10 ^ k\<bar> \<le> 10 ^ k
        \<and> p = (if big then 10 ^ (k - 1) div (f div 10) else 10 ^ k div f)
        \<and> ((if big then 10 ^ (k - 1) mod (f div 10) else 10 ^ k mod f) = 0 \<or> 429496719 \<le> p))"
proof -
  have dist: "42949672 * \<bar>int a - 10 ^ k\<bar> \<le> 10 ^ k" if "42949672 * (10 ^ k - a) \<le> (10 :: nat) ^ k" "42949672 * (a - 10 ^ k) \<le> (10 :: nat) ^ k" for a k
  proof -
    have e: "\<bar>int a - 10 ^ k\<bar> = int (10 ^ k - a) \<or> \<bar>int a - 10 ^ k\<bar> = int (a - 10 ^ k)"
      by (cases "a \<le> 10 ^ k") (simp_all add: of_nat_diff)
    have "int (42949672 * (10 ^ k - a)) \<le> int (10 ^ k)" "int (42949672 * (a - 10 ^ k)) \<le> int (10 ^ k)" using that by (simp_all only: of_nat_le_iff)
    then show ?thesis using e by auto
  qed
  show ?thesis
  proof (cases "429496729 < unat freq")
    case True
    have u: "unat (freq div 10) = unat freq div 10" by (simp add: unat_div)
    have "unat freq < 2 ^ LENGTH(32)" by (rule unsigned_less)
    then have f: "0 < unat (freq div 10)" "unat (freq div 10) \<le> 429496729" "42949673 \<le> unat freq div 10" using True u by simp_all
    have "\<not> freq \<le> 429496729" using True by (simp add: word_le_nat_alt)
    then obtain k P where r: "invert_timer_freq freq = Inr \<lparr>timer_period = P, timer_scale = - 1 - int k\<rparr>"
      "unat P = 10 ^ k div (unat freq div 10)" "10 ^ k mod (unat freq div 10) = 0 \<or> 429496719 \<le> unat P"
      using invert_loop_spec [OF f(1,2), of 0 0 1 20 "- 1"] f assms u by (auto simp: invert_timer_freq_def Let_def not_le)
    note e = dist [OF period_error_tenth [OF r(2) f(3) r(3) refl]]
    have "- 1 - int k = - int (k + 1)" by simp
    from r(1) [unfolded this] e r(2,3) show ?thesis
      by (intro exI [of _ "k + 1"] exI [of _ "\<lparr>timer_period = P, timer_scale = - int (k + 1)\<rparr>"])
        (simp only: Let_def qtime.simps True if_True add_diff_cancel_right' simp_thms)
  next
    case False
    have f: "0 < unat freq" "unat freq \<le> 429496729" using False assms by (simp_all add: unat_gt_0)
    have "freq \<le> 429496729" using f by (simp add: word_le_nat_alt)
    then have run: "invert_timer_freq freq = invert_loop 20 freq 1 0 0" using assms by (simp add: invert_timer_freq_def flip: not_le)
    have "\<exists>k P. invert_loop 20 freq 1 0 0 = Inr \<lparr>timer_period = P, timer_scale = - int k\<rparr>
      \<and> unat P = 10 ^ k div unat freq \<and> (10 ^ k mod unat freq = 0 \<or> 429496719 \<le> unat P)"
      using invert_loop_spec [OF f, of 0 0 1 20 0] f by simp
    then obtain k P where r: "invert_timer_freq freq = Inr \<lparr>timer_period = P, timer_scale = - int k\<rparr>"
      "unat P = 10 ^ k div unat freq" "10 ^ k mod unat freq = 0 \<or> 429496719 \<le> unat P" unfolding run [symmetric] by (elim exE conjE) (rule that)
    note pe = period_error [OF r(2) f(1) r(3)]
    have "42949672 * (unat P * unat freq - 10 ^ k) \<le> (10 :: nat) ^ k" using pe(2) by simp
    note e = dist [OF pe(1) this]
    from r(1) e r(2,3) show ?thesis
      by (intro exI [of _ k] exI [of _ "\<lparr>timer_period = P, timer_scale = - int k\<rparr>"]) (simp only: Let_def qtime.simps False if_False simp_thms)
  qed
qed

text \<open>The counter of the board, and a frequency for which one more digit would still have fitted.\<close>

theorem invert_timer_freq_digits_witness:
  "(\<exists>k q. invert_timer_freq 54000000 = Inr q \<and> timer_scale q = - int k \<and> unat (timer_period q) = 10 ^ k div 54000000)
     \<and> (\<exists>k q. invert_timer_freq 232830644 = Inr q \<and> timer_scale q = - int k \<and> unat (timer_period q) = 10 ^ k div 232830644)
     \<and> (10 :: nat) ^ 18 div 232830644 < 2 ^ 32"
  using invert_timer_freq_digits [of 54000000] invert_timer_freq_digits [of 232830644] by (auto simp: Let_def)

section \<open>Ticks\<close>

lemma tick_loop_zero: "tick_loop n 0 ticks 0 = Inl Divide_by_zero"
  by (cases n) (simp_all add: tick_product_def)

lemma tick_loop_spec:
  assumes "period \<le> ns"
  shows "tick_loop n period ticks ns = (if 10 ^ n \<le> unat ns then Inr (of_nat (unat ns div 10 ^ n)) else Inl Divide_by_zero)"
  using assms
proof (induction n arbitrary: period ns)
  case 0
  show ?case
  proof (cases "ns = 0")
    case True
    then show ?thesis using 0 by (simp add: tick_product_def)
  next
    case False
    then have "1 \<le> unat ns" by (simp add: unat_gt_0 Suc_le_eq)
    then show ?thesis using False by (simp add: tick_product_def)
  qed
next
  case (Suc n)
  show ?case
  proof (cases "ns = 0")
    case True
    then show ?thesis using Suc.prems tick_loop_zero [of "Suc n" ticks] by simp
  next
    case False
    have le: "period div 10 \<le> ns div 10" using Suc.prems by (simp add: word_le_nat_alt unat_div div_le_mono)
    have u: "unat (ns div 10) = unat ns div 10" by (simp add: unat_div)
    have iff: "10 ^ n \<le> unat ns div 10 \<longleftrightarrow> 10 ^ Suc n \<le> unat ns" by (simp add: less_eq_div_iff_mult_less_eq mult.commute)
    have quot: "unat ns div 10 div 10 ^ n = unat ns div 10 ^ Suc n" by (simp only: power_Suc div_mult2_eq)
    have "tick_loop (Suc n) period ticks ns = tick_loop n (period div 10) ticks (ns div 10)"
      using False by (simp add: tick_product_def)
    then show ?thesis unfolding Suc.IH [OF le] u iff quot .
  qed
qed

text \<open>With a scale of at most -9 and a product that fits 64 bits, \<open>timer_tick2ns\<close> returns the exact number of
  nanoseconds, rounded down, when that is at least one; when the ticks last less than a nanosecond it divides by zero.\<close>

theorem timer_tick2ns_exact:
  assumes "timer_scale q \<le> - 9" and "timer_period q \<noteq> 0" and "ticks \<noteq> 0" and "unat (timer_period q) * unat ticks < 2 ^ 64"
  shows "timer_tick2ns q ticks =
    (let total = unat (timer_period q) * unat ticks; unit = 10 ^ nat (- 9 - timer_scale q)
     in if unit \<le> total then Inr (of_nat (total div unit)) else Inl Divide_by_zero)"
proof -
  define n where "n = nat (- 9 - timer_scale q)"
  define p where "p = (ucast (timer_period q) :: u64)"
  have "unat (timer_period q) < 2 ^ LENGTH(32)" by (rule unsigned_less)
  then have up: "unat p = unat (timer_period q)" by (simp add: p_def unsigned_ucast_eq take_bit_nat_eq_self_iff)
  have m: "unat (p * ticks) = unat p * unat ticks" using assms(4) up by (simp add: unat_mult_lem [THEN iffD1])
  have pos: "p \<noteq> 0" "0 < unat ticks" using assms(2,3) up by (metis unat_eq_0_iff, simp add: unat_gt_0)
  have le: "p \<le> p * ticks" using m pos by (simp add: word_le_nat_alt)
  have "0 < unat p" using pos(1) by (simp add: unat_gt_0)
  then have "unat (p * ticks div p) = unat ticks" unfolding unat_div m by simp
  then have "p * ticks div p = ticks" by (rule word_unat_eq_iff [THEN iffD2])
  then have "tick_product p ticks 0 = Inr (p * ticks)" "tick_product p ticks (p * ticks) = Inr (p * ticks)"
    using pos le by (auto simp: tick_product_def)
  then have "tick_loop n p ticks 0 = tick_loop n p ticks (p * ticks)" by (cases n) simp_all
  moreover have "nat (- (- 9 - timer_scale q)) = 0" using assms(1) by simp
  ultimately show ?thesis using tick_loop_spec [OF le, of n ticks] m up
    by (simp add: timer_tick2ns_def Let_def flip: n_def p_def)
qed

theorem timer_tick2ns_exact_witness:
  "timer_tick2ns \<lparr>timer_period = 1851851851, timer_scale = -17\<rparr> 54000000 = Inr 999999999
    \<and> timer_tick2ns \<lparr>timer_period = 25, timer_scale = -11\<rparr> 1 = Inl Divide_by_zero"
  using timer_tick2ns_exact [of "\<lparr>timer_period = 1851851851, timer_scale = -17\<rparr>" 54000000]
    timer_tick2ns_exact [of "\<lparr>timer_period = 25, timer_scale = -11\<rparr>" 1]
  by (simp add: Let_def)

end
