(* ===== verification/Text_Props.thy ===== *)
theory Text_Props
  imports Text
begin

text \<open>
  Properties of \<open>Text\<close>: printed numbers are read back, \<open>getopt\<close> finds the options a plain recursive
  description of the command line gives, and the boot arguments are edited as a list of strings.
\<close>

section \<open>Digits\<close>

definition digit :: "nat \<Rightarrow> u8 \<Rightarrow> bool" where
  "digit b c \<longleftrightarrow> radix_value c < int b"

definition horner :: "nat \<Rightarrow> nat \<Rightarrow> u8 list \<Rightarrow> nat" where
  "horner b v ds = foldl (\<lambda>v c. v * b + nat (radix_value c)) v ds"

lemma horner_simps [simp]: "horner b v [] = v" "horner b v (c # ds) = horner b (v * b + nat (radix_value c)) ds"
  "horner b v (ds @ es) = horner b (horner b v ds) es"
  by (simp_all add: horner_def)

lemma radix_value_range: "0 \<le> radix_value c" "radix_value c \<le> 37"
  unfolding radix_value_def by (auto simp: word_le_def split: if_splits)

text \<open>The loop reads the digits in front; the value is their value modulo 2^64.\<close>

lemma digit_loop_value:
  assumes "b \<le> 37"
  shows "digit_loop (int b) (of_nat v) p = Inr (of_nat (horner b v (takeWhile (digit b) p)), dropWhile (digit b) p)"
proof (induction p arbitrary: v)
  case (Cons c p)
  show ?case
  proof (cases "digit b c")
    case True
    have "of_nat v * of_int (int b) + of_int (radix_value c) = (of_nat (v * b + nat (radix_value c)) :: u64)"
      using radix_value_range(1) [of c] by (simp add: of_nat_nat)
    then show ?thesis using True Cons.IH [of "v * b + nat (radix_value c)"] by (simp add: Let_def digit_def)
  next
    case False
    then show ?thesis by (simp add: Let_def digit_def)
  qed
qed (use assms in simp)

lemma digit_char:
  assumes "k < 16"
  shows "radix_value (digit_chars ! k) = int k" "digit_chars ! k \<noteq> 0" "digit_chars ! k \<noteq> 0x0a"
proof -
  have "\<forall>k \<in> {..<16}. radix_value (digit_chars ! k) = int k \<and> digit_chars ! k \<noteq> 0 \<and> digit_chars ! k \<noteq> 0x0a"
    by code_simp
  with assms show "radix_value (digit_chars ! k) = int k" "digit_chars ! k \<noteq> 0" "digit_chars ! k \<noteq> 0x0a" by blast+
qed

definition numeral_of :: "nat \<Rightarrow> nat \<Rightarrow> u8 list \<Rightarrow> bool" where
  "numeral_of b v ds \<longleftrightarrow> ds \<noteq> [] \<and> (\<forall>c \<in> set ds. digit b c \<and> c \<noteq> 0 \<and> c \<noteq> 0x0a) \<and> horner b 0 ds = v"

lemma digits_back_numeral:
  assumes "2 \<le> unat r" and "unat r \<le> 16" and "unat v < unat r ^ n" and "0 < n"
  shows "\<exists>ds. digits_back n v r acc = Inr (ds @ acc) \<and> numeral_of (unat r) (unat v) ds
    \<and> (\<forall>k>0. unat v < unat r ^ k \<longrightarrow> length ds \<le> k)"
  using assms(3,4)
proof (induction n arbitrary: v acc)
  case (Suc n)
  define d where "d = digit_chars ! unat (v mod r)"
  have r0: "r \<noteq> 0" using assms(1) by auto
  have m: "unat (v mod r) = unat v mod unat r" "unat v mod unat r < 16" "unat v mod unat r < unat r"
    using assms(1,2) by (simp_all add: unat_mod order_less_le_trans [OF mod_less_divisor])
  then have dv: "radix_value d = int (unat v mod unat r)" "d \<noteq> 0" "d \<noteq> 0x0a"
    unfolding d_def m(1) using digit_char [of "unat v mod unat r"] by simp_all
  have dd: "digit (unat r) d" "nat (radix_value d) = unat v mod unat r"
    unfolding digit_def dv(1) of_nat_less_iff nat_int using m(3) by simp_all
  have q: "unat (v div r) = unat v div unat r" by (simp add: unat_div)
  have step: "digits_back (Suc n) v r acc = (if v div r = 0 then Inr (d # acc) else digits_back n (v div r) r (d # acc))"
    using r0 m(1,2) by (simp add: Let_def d_def digit_chars_def str_def)
  show ?case
  proof (cases "v div r = 0")
    case True
    then have "unat v div unat r = 0" using q by simp
    then have "unat v mod unat r = unat v" using assms(1) by (simp add: div_eq_0_iff)
    then show ?thesis using True dv dd unfolding step
      by (intro exI [of _ "[d]"]) (auto simp: numeral_of_def)
  next
    case False
    then have q0: "0 < unat v div unat r" using q by (simp add: unat_gt_0 flip: q)
    have "unat (v div r) < unat r ^ n" using Suc.prems(1) assms(1) q by (simp add: less_mult_imp_div_less mult.commute)
    moreover from this have "0 < n" using q0 q by (cases n) auto
    ultimately obtain ds where ds: "digits_back n (v div r) r (d # acc) = Inr (ds @ d # acc)"
      "numeral_of (unat r) (unat v div unat r) ds" "\<forall>k>0. unat v div unat r < unat r ^ k \<longrightarrow> length ds \<le> k"
      using Suc.IH [of "v div r" "d # acc"] q by auto
    have "numeral_of (unat r) (unat v) (ds @ [d])"
      using ds(2) dv dd by (auto simp: numeral_of_def)
    moreover have "length (ds @ [d]) \<le> k" if "0 < k" "unat v < unat r ^ k" for k
    proof (cases "k = 1")
      case True
      then show ?thesis using that q0 assms(1) by (simp add: div_eq_0_iff)
    next
      case False
      with that obtain j where j: "k = Suc j" "0 < j" by (cases k) auto
      then have "unat v div unat r < unat r ^ j" using that by (simp add: less_mult_imp_div_less mult.commute)
      then show ?thesis using ds(3) j by auto
    qed
    ultimately show ?thesis using False ds(1) unfolding step
      by (intro exI [of _ "ds @ [d]"]) auto
  qed
qed simp

text \<open>A number ends where no digit and no \<open>x\<close> follows.\<close>

definition ends_number :: "nat \<Rightarrow> u8 list \<Rightarrow> bool" where
  "ends_number b rest \<longleftrightarrow> \<not> digit b (at0 rest) \<and> at0 rest \<noteq> of_char CHR ''x'' \<and> at0 rest \<noteq> of_char CHR ''X''"

lemma ends_number_Nil [simp]: "b \<le> 37 \<Longrightarrow> ends_number b []"
  by (simp add: ends_number_def digit_def radix_value_def)

lemma x_no_digit: "b \<le> 16 \<Longrightarrow> \<not> digit b (of_char CHR ''x'')" "b \<le> 16 \<Longrightarrow> \<not> digit b (of_char CHR ''X'')"
  by (simp_all add: digit_def radix_value_def)

lemma no_hexstr:
  assumes "numeral_of b v ds" and "ends_number b rest" and "b \<le> 16"
  shows "\<not> hexstr (ds @ rest)"
proof -
  obtain c es where ds: "ds = c # es" using assms(1) by (cases ds) (auto simp: numeral_of_def)
  show ?thesis
  proof (cases es)
    case Nil
    then show ?thesis using assms(2) ds by (simp add: hexstr_def ends_number_def)
  next
    case (Cons d fs)
    then have "digit b d" using assms(1) ds by (simp add: numeral_of_def)
    then show ?thesis using x_no_digit [OF assms(3)] ds Cons by (auto simp: hexstr_def)
  qed
qed

lemma strtopaddr_numeral:
  assumes "numeral_of b v ds" and "ends_number b rest" and "0 < b" and "b \<le> 16"
  shows "strtopaddr (ds @ rest) (int b) = Inr (of_nat v, rest)"
proof -
  have all: "\<forall>c \<in> set ds. digit b c" "ds \<noteq> []" "horner b 0 ds = v" using assms(1) by (simp_all add: numeral_of_def)
  have rest: "takeWhile (digit b) rest = []" "dropWhile (digit b) rest = rest"
    using assms(2,4) by (cases rest; simp add: ends_number_def)+
  have "digit_loop (int b) 0 (ds @ rest) = Inr (of_nat v, rest)"
    using digit_loop_value [of b 0 "ds @ rest"] assms(4) all(1,3) rest by simp
  then show ?thesis using no_hexstr [OF assms(1,2,4)] assms(3) all(2)
    by (simp add: strtopaddr_def Let_def)
qed

lemma ultoa_numeral:
  assumes "2 \<le> b" and "b \<le> 16" and "unat v < b ^ 32"
  shows "\<exists>ds. ultoa_end v (of_nat b) = Inr ds \<and> numeral_of b (unat v) ds"
proof -
  have r: "(scast (of_nat b :: u32) :: u64) = of_nat b" using assms(2) by (intro scast_of_nat32) simp
  have u: "unat (of_nat b :: u64) = b" using assms(2) by (simp add: unat_of_nat)
  obtain ds where "digits_back 32 v (of_nat b) [] = Inr (ds @ [])" "numeral_of b (unat v) ds"
    using digits_back_numeral [of "of_nat b" v 32 "[]"] assms unfolding u by auto
  then show ?thesis unfolding ultoa_end_def r
    by (intro exI [of _ ds]) (auto simp: numeral_of_def takeWhile_eq_all_conv)
qed

text \<open>A number written by \<open>ultoa_end\<close> in a radix from 2 to 16 is read back by \<open>strtoul\<close> in that radix: the value
  is the same and reading stops exactly behind the digits, whatever other text follows.\<close>

theorem ultoa_strtoul_roundtrip:
  assumes "2 \<le> b" and "b \<le> 16" and "unat v < b ^ 32" and "ends_number b rest"
  shows "\<exists>ds. ultoa_end v (of_nat b) = Inr ds \<and> strtoul (ds @ rest) (int b) = Inr (v, rest)"
proof -
  obtain ds where ds: "ultoa_end v (of_nat b) = Inr ds" "numeral_of b (unat v) ds"
    using ultoa_numeral [OF assms(1-3)] by blast
  have "strtoul (ds @ rest) (int b) = Inr (of_nat (unat v), rest)"
    unfolding strtoul_def using strtopaddr_numeral [OF ds(2) assms(4)] assms(1,2) by simp
  then show ?thesis using ds(1) by simp
qed

theorem ultoa_strtoul_roundtrip_witness:
  "\<exists>ds. ultoa_end 0xfe804000 16 = Inr ds \<and> strtoul (ds @ str '',irq'') 16 = Inr (0xfe804000, str '',irq'')"
proof -
  have "ends_number 16 (str '',irq'')" by (simp add: ends_number_def digit_def radix_value_def str_def)
  then show ?thesis using ultoa_strtoul_roundtrip [of 16 "0xfe804000" "str '',irq''"] by simp
qed

section \<open>Printed numbers\<close>

lemma one_char_digits: "0x0a \<notin> set ds \<Longrightarrow> concat (map one_char ds) = ds"
  by (induction ds) (auto simp: one_char_def)

lemma print_number_numeral:
  assumes "b \<in> {10, 16}" and "unat num < b ^ dig \<or> dig = 0"
  shows "\<exists>out. print_number num dig (of_nat b) = Inr out \<and> numeral_of b (unat num) out \<and> concat (map one_char out) = out
    \<and> (dig \<noteq> 0 \<longrightarrow> length out = dig)"
proof -
  have u: "unat (of_nat b :: u64) = b" using assms(1) by auto
  have "unat num < 2 ^ LENGTH(64)" by (rule unsigned_less)
  moreover have "2 ^ LENGTH(64) \<le> b ^ 63" using assms(1) by auto
  ultimately have "unat num < b ^ 63" by linarith
  then obtain ds where ds: "digits_back 63 num (of_nat b) [] = Inr (ds @ [])" "numeral_of b (unat num) ds"
    "\<forall>k>0. unat num < b ^ k \<longrightarrow> length ds \<le> k"
    using digits_back_numeral [of "of_nat b" num 63 "[]"] assms(1) unfolding u by auto
  define out where "out = replicate (dig - length ds) (of_char CHR ''0'') @ ds"
  have z: "radix_value (of_char CHR ''0'') = 0" "horner b 0 (replicate k (of_char CHR ''0'')) = 0" for k
    by (induction k) (simp_all add: radix_value_def)
  have "numeral_of b (unat num) out"
    using ds(2) z assms(1) unfolding numeral_of_def out_def by (auto simp: digit_def)
  moreover from this have "concat (map one_char out) = out"
    by (intro one_char_digits) (auto simp: numeral_of_def)
  moreover have "dig \<noteq> 0 \<longrightarrow> length out = dig" using ds(3) assms(2) by (auto simp: out_def)
  ultimately show ?thesis using ds(1) by (intro exI [of _ out]) (simp add: print_number_def out_def)
qed

lemma vmsg_unsigned:
  assumes "conversion_of d = Conv_unsigned dig (of_nat b)" and "b \<in> {10, 16}" and "unat n < b ^ dig \<or> dig = 0"
  shows "\<exists>out. vmsg [of_char CHR ''%'', d] [Arg_unsigned n] = Inr out \<and> strtoul out (int b) = Inr (ucast n, [])
    \<and> (dig \<noteq> 0 \<longrightarrow> length out = dig)"
proof -
  have u: "unat (ucast n :: u64) = unat n" by (simp add: unsigned_ucast_eq take_bit_nat_eq_self_iff order_less_trans [OF unsigned_less])
  obtain out where o: "print_number (ucast n) dig (of_nat b) = Inr out" "numeral_of b (unat n) out"
    "concat (map one_char out) = out" "dig \<noteq> 0 \<longrightarrow> length out = dig"
    using print_number_numeral [of b "ucast n" dig] assms(2,3) unfolding u by blast
  have "strtopaddr (out @ []) (int b) = Inr (of_nat (unat n), [])"
    using assms(2) by (intro strtopaddr_numeral [OF o(2)]) auto
  then show ?thesis using assms(1) o(1,3,4) by (simp add: strtoul_def)
qed

lemma vmsg_long:
  assumes "conversion_of d = Conv_long 16 16"
  shows "\<exists>out. vmsg [of_char CHR ''%'', d] [Arg_long n] = Inr out \<and> strtoul out 16 = Inr (n, []) \<and> length out = 16"
proof -
  have "unat n < 2 ^ LENGTH(64)" by (rule unsigned_less)
  then obtain out where o: "print_number n 16 (of_nat 16) = Inr out" "numeral_of 16 (unat n) out"
    "concat (map one_char out) = out" "length out = 16"
    using print_number_numeral [of 16 n 16] by auto
  have "strtopaddr (out @ []) (int 16) = Inr (of_nat (unat n), [])"
    by (intro strtopaddr_numeral [OF o(2)]) auto
  then show ?thesis using assms o(1,3,4) by (simp add: strtoul_def)
qed

text \<open>C37: \<open>kprintf\<close> prints every number so that \<open>strtoul\<close> reads it back in the radix of the conversion: \<open>%u\<close> without
  leading zeros to fill, \<open>%x\<close> with exactly 8 and \<open>%L\<close> with exactly 16 hexadecimal digits.\<close>

theorem kprintf_strtoul_roundtrip:
  "(\<exists>out. vmsg (str ''%u'') [Arg_unsigned n] = Inr out \<and> strtoul out 10 = Inr (ucast n, []))
   \<and> (\<exists>out. vmsg (str ''%x'') [Arg_unsigned n] = Inr out \<and> strtoul out 16 = Inr (ucast n, []) \<and> length out = 8)
   \<and> (\<exists>out. vmsg (str ''%L'') [Arg_long m] = Inr out \<and> strtoul out 16 = Inr (m, []) \<and> length out = 16)"
proof -
  have "unat n < 2 ^ LENGTH(32)" by (rule unsigned_less)
  then have "unat n < 16 ^ 8" by simp
  then show ?thesis
    using vmsg_unsigned [of "of_char CHR ''u''" 0 10 n] vmsg_unsigned [of "of_char CHR ''x''" 8 16 n] vmsg_long [of "of_char CHR ''L''" m]
    by (simp add: conversion_of_def str_def)
qed

section \<open>The end of the buffer\<close>

text \<open>\<open>ksnprintf\<close> writes behind a buffer of \<open>num\<close> bytes exactly when the output has \<open>num\<close> characters or more: it
  stores \<open>num\<close> of them and then the final zero.  With shorter output the buffer holds the whole output and the zero.\<close>

theorem ksnprintf_overruns:
  assumes "vmsg fmt args = Inr out" and "length buff = num"
  shows "if num \<le> length out then ksnprintf buff num fmt args = Inl Out_of_bounds
    else \<exists>rest. ksnprintf buff num fmt args = Inr (out @ 0 # rest) \<and> length (out @ 0 # rest) = num"
  using assms by (auto simp: ksnprintf_def store_string_def)

theorem ksnprintf_overruns_witness:
  "ksnprintf (replicate 4 0) 4 (str ''%u'') [Arg_unsigned 1234] = Inl Out_of_bounds
   \<and> (\<exists>rest. ksnprintf (replicate 5 0) 5 (str ''%u'') [Arg_unsigned 1234] = Inr (str ''1234'' @ 0 # rest))"
proof -
  have "vmsg (str ''%u'') [Arg_unsigned 1234] = Inr (str ''1234'')" by code_simp
  from ksnprintf_overruns [OF this, of "replicate 4 0" 4] ksnprintf_overruns [OF this, of "replicate 5 0" 5]
  show ?thesis by (auto simp: str_def)
qed

section \<open>Options\<close>

text \<open>
  What the command line means: a word that begins with a minus sign and has more characters is a cluster of
  options; an option that wants an argument takes the rest of its word or else the next word; the
  options end at the first other word, or at a second minus sign.  \<open>cs\<close> is the rest of the current cluster.
\<close>

fun parse_opts :: "u8 list \<Rightarrow> u8 list \<Rightarrow> u8 list list \<Rightarrow> (int \<times> u8 list) list" where
  "parse_opts opts [] [] = []"
| "parse_opts opts [] (a # args) =
     (if at0 a = of_char CHR ''-'' \<and> tl a \<noteq> [] then parse_opts opts (tl a) args else [])"
| "parse_opts opts (c # cs) args =
     (if c = of_char CHR ''-'' then []
      else case find_opt c opts of
        [] \<Rightarrow> (of_char CHR ''?'', c # cs) # parse_opts opts [] args
      | _ # after \<Rightarrow>
          if at0 after \<noteq> of_char CHR '':'' then (uint c, c # cs) # parse_opts opts cs args
          else if cs \<noteq> [] then (uint c, cs) # parse_opts opts [] args
          else case args of
            [] \<Rightarrow> [(of_char CHR ''?'', [c])]
          | a # rest \<Rightarrow> (uint c, a) # parse_opts opts [] rest)"

text \<open>Calling \<open>getopt\<close> until it returns -1, with the option and \<open>optarg\<close> of each call.\<close>

primrec getopt_all :: "nat \<Rightarrow> u8 list list \<Rightarrow> u8 list \<Rightarrow> getopt_state \<Rightarrow> (int \<times> u8 list) list option" where
  "getopt_all 0 argv opts st = None"
| "getopt_all (Suc n) argv opts st =
     (let (c, st) = getopt argv opts st
      in if c = - 1 then Some []
         else map_option ((#) (c, optarg st)) (getopt_all n argv opts st))"

definition weight :: "u8 list \<Rightarrow> u8 list list \<Rightarrow> nat" where
  "weight cs args = length cs + sum_list (map (\<lambda>a. length a + 1) args)"

definition getopt_at :: "u8 list list \<Rightarrow> getopt_state \<Rightarrow> u8 list \<Rightarrow> u8 list list \<Rightarrow> bool" where
  "getopt_at argv st cs args \<longleftrightarrow> 0 < optind st \<and>
     (if cs = [] then last_optind st < optind st \<and> args = drop (optind st) argv
      else last_optind st = optind st \<and> optind st < length argv \<and> go_cp st = cs \<and> args = drop (Suc (optind st)) argv)"

lemma find_opt_hd: "c \<noteq> 0 \<Longrightarrow> find_opt c opts = x # after \<Longrightarrow> x = c"
  by (induction c opts rule: find_opt.induct) (auto split: if_splits)

lemma drop_Cons_iff: "a # args = drop i xs \<longleftrightarrow> i < length xs \<and> a = xs ! i \<and> args = drop (Suc i) xs"
  by (metis Cons_nth_drop_Suc drop_eq_Nil list.distinct(1) list.inject not_le)

lemma getopt_fresh:
  assumes "getopt_at argv st [] (a # args)" and "at0 a = of_char CHR ''-''" and "tl a \<noteq> []" and "0 \<notin> set a"
  shows "getopt_at argv (st\<lparr>go_cp := tl a, last_optind := optind st\<rparr>) (tl a) args
    \<and> getopt argv opts st = getopt argv opts (st\<lparr>go_cp := tl a, last_optind := optind st\<rparr>)"
proof -
  have "at0 (tl a) \<noteq> 0" using assms(3,4) by (cases a; cases "tl a") auto
  then show ?thesis using assms by (auto simp: getopt_at_def getopt_def Let_def drop_Cons_iff)
qed

lemma getopt_all_parse:
  assumes "getopt_at argv st cs args" and "0 \<notin> set cs" and "\<forall>a \<in> set args. 0 \<notin> set a" and "weight cs args < n"
  shows "getopt_all n argv opts st = Some (parse_opts opts cs args)"
  using assms
proof (induction opts cs args arbitrary: n st rule: parse_opts.induct)
  case (1 opts)
  then show ?case by (cases n) (auto simp: getopt_at_def getopt_def Let_def)
next
  case (2 opts a args)
  then obtain k where n: "n = Suc k" by (cases n) auto
  show ?case
  proof (cases "at0 a = of_char CHR ''-'' \<and> tl a \<noteq> []")
    case True
    define st' where "st' = st\<lparr>go_cp := tl a, last_optind := optind st\<rparr>"
    have f: "getopt_at argv st' (tl a) args" "getopt argv opts st = getopt argv opts st'"
      using getopt_fresh [OF "2.prems"(1), of opts] True "2.prems"(3) by (auto simp: st'_def)
    have "0 \<notin> set (tl a)" using "2.prems"(3) by (cases a) auto
    moreover have "weight (tl a) args < n" using "2.prems"(4) by (cases a) (auto simp: weight_def)
    ultimately have "getopt_all n argv opts st' = Some (parse_opts opts (tl a) args)"
      using "2.IH" [OF True f(1)] "2.prems"(3) by simp
    then show ?thesis using True f(2) n by simp
  next
    case False
    have "at0 (tl a) = 0" if "tl a = []" using that by simp
    then show ?thesis using False "2.prems"(1) n
      by (auto simp: getopt_at_def getopt_def Let_def drop_Cons_iff)
  qed
next
  case (3 opts c cs args)
  then obtain k where n: "n = Suc k" by (cases n) auto
  have c: "c \<noteq> 0" "0 \<notin> set cs" using "3.prems"(2) by auto
  have st: "last_optind st = optind st" "optind st < length argv" "go_cp st = c # cs" "0 < optind st"
    "args = drop (Suc (optind st)) argv"
    using "3.prems"(1) by (auto simp: getopt_at_def)
  have go: "getopt argv opts st = (if c = of_char CHR ''-'' then (- 1, st\<lparr>optind := optind st + 1\<rparr>) else getopt_option argv opts st)"
    using st by (simp add: getopt_def Let_def)
  have pos: "uint c \<noteq> - 1" using uint_ge_0 [of c] by linarith
  have le: "weight [] args \<le> k" "weight cs args < k" using "3.prems"(4) n by (simp_all add: weight_def)
  show ?case
  proof (cases "c = of_char CHR ''-''")
    case True
    then show ?thesis using go n by simp
  next
    case False
    show ?thesis
    proof (cases "find_opt c opts")
      case Nil
      define st' where "st' = st\<lparr>optarg := c # cs, optind := optind st + 1\<rparr>"
      have g: "getopt argv opts st = (of_char CHR ''?'', st')"
        using go False Nil st by (simp add: getopt_option_def Let_def st'_def)
      have "getopt_at argv st' [] args" using st by (simp add: getopt_at_def st'_def)
      from "3.IH"(1) [OF False Nil this] "3.prems"(3,4) n
      have "getopt_all k argv opts st' = Some (parse_opts opts [] args)" by (simp add: weight_def)
      then show ?thesis using g n False Nil by (simp add: st'_def)
    next
      case (Cons x after)
      have x: "x = c" using find_opt_hd [OF c(1) Cons] .
      have run: "getopt_all n argv opts st = Some (parse_opts opts (c # cs) args)"
        if "getopt argv opts st = (i, st')" "i \<noteq> - 1" "getopt_all k argv opts st' = Some ps"
          "parse_opts opts (c # cs) args = (i, optarg st') # ps" for i st' ps
        using that n by simp
      have wants: "at0 (tl (find_opt c opts)) = at0 after" by (simp add: Cons)
      show ?thesis
      proof (cases "at0 after = of_char CHR '':''")
        case no: False
        define st' where "st' = st\<lparr>optarg := c # cs, optind := (if cs = [] then optind st + 1 else optind st), go_cp := cs\<rparr>"
        have g: "getopt argv opts st = (uint c, st')"
          using go False Cons st no c x by (cases cs) (simp_all add: getopt_option_def Let_def st'_def)
        have "getopt_at argv st' cs args" using st by (simp add: getopt_at_def st'_def)
        from "3.IH"(2) [OF False Cons no this c(2)] "3.prems"(3) le(2)
        have "getopt_all k argv opts st' = Some (parse_opts opts cs args)" by simp
        then show ?thesis using False Cons no by (intro run [OF g pos]) (simp_all add: st'_def)
      next
        case yes: True
        show ?thesis
        proof (cases "cs = []")
          case False': False
          define st' where "st' = st\<lparr>optarg := cs, optind := optind st + 1, go_cp := cs\<rparr>"
          have g: "getopt argv opts st = (uint c, st')"
            using go False Cons st yes c x False' by (cases cs) (simp_all add: getopt_option_def Let_def st'_def)
          have "getopt_at argv st' [] args" using st by (simp add: getopt_at_def st'_def)
          moreover have "weight [] args < k" using le(2) False' by (cases cs) (simp_all add: weight_def)
          ultimately have "getopt_all k argv opts st' = Some (parse_opts opts [] args)"
            using "3.IH"(3) [OF False Cons _ False'] yes "3.prems"(3) by simp
          then show ?thesis using False Cons yes False' by (intro run [OF g pos]) (simp_all add: st'_def)
        next
          case True': True
          show ?thesis
          proof (cases args)
            case Nil
            define st' where "st' = st\<lparr>optarg := [c], optind := optind st + 1, go_cp := []\<rparr>"
            have e: "\<not> Suc (optind st) < length argv" using st(5) Nil by simp
            then have g: "getopt argv opts st = (of_char CHR ''?'', st')"
              using go False Cons st yes c x True' by (simp add: getopt_option_def Let_def st'_def)
            obtain j where "k = Suc j" using le(2) by (cases k) auto
            then have "getopt_all k argv opts st' = Some []" using e by (simp add: getopt_def st'_def)
            then show ?thesis using False Cons yes True' Nil by (intro run [OF g]) (simp_all add: st'_def)
          next
            case args: (Cons a rest)
            define st' where "st' = st\<lparr>optarg := a, optind := optind st + 2, go_cp := []\<rparr>"
            have e: "Suc (optind st) < length argv" "argv ! Suc (optind st) = a" "rest = drop (optind st + 2) argv"
              using st(5) args by (auto simp: drop_Cons_iff)
            then have g: "getopt argv opts st = (uint c, st')"
              using go False Cons st yes c x True' by (simp add: getopt_option_def Let_def st'_def)
            have "getopt_at argv st' [] rest" using st e by (simp add: getopt_at_def st'_def)
            moreover have "weight [] rest < k" using le(1) args by (simp add: weight_def)
            ultimately have "getopt_all k argv opts st' = Some (parse_opts opts [] rest)"
              using "3.IH"(4) [OF False Cons _ _ args] yes True' "3.prems"(3) args by simp
            then show ?thesis using False Cons yes True' args by (intro run [OF g pos]) (simp_all add: st'_def)
          qed
        qed
      qed
    qed
  qed
qed

text \<open>C35: Calling \<open>getopt\<close> until it returns -1 ends and yields exactly the options and arguments that the recursive
  description \<open>parse_opts\<close> reads off the words behind the program name: clusters, arguments in the same or the next
  word, unknown options and missing arguments.\<close>

theorem getopt_parses:
  assumes "optind st = 0" and "\<forall>a \<in> set argv. 0 \<notin> set a" and "sum_list (map (\<lambda>a. length a + 1) argv) < n"
  shows "getopt_all n argv opts st = Some (parse_opts opts [] (tl argv))"
proof -
  define st' where "st' = st\<lparr>optind := 1, last_optind := 0\<rparr>"
  have "getopt argv opts st = getopt argv opts st'" using assms(1) by (simp add: getopt_def st'_def)
  then have "getopt_all n argv opts st = getopt_all n argv opts st'" by (cases n) simp_all
  moreover have "getopt_at argv st' [] (tl argv)" by (simp add: getopt_at_def st'_def drop_Suc)
  moreover have "\<forall>a \<in> set (tl argv). 0 \<notin> set a" "weight [] (tl argv) < n"
    using assms(2,3) by (cases argv; simp add: weight_def)+
  ultimately show ?thesis using getopt_all_parse by simp
qed

theorem getopt_parses_witness:
  "getopt_all 40 [str ''startup'', str ''-vvr'', str ''1M,64K'', str ''-P4'', str ''image'', str ''-v''] (str ''vr:P:'')
     \<lparr>optind = 0, last_optind = 0, go_cp = [], optarg = []\<rparr>
   = Some [(of_char CHR ''v'', str ''vvr''), (of_char CHR ''v'', str ''vr''), (of_char CHR ''r'', str ''1M,64K''), (of_char CHR ''P'', str ''4'')]"
proof -
  define argv where "argv = [str ''startup'', str ''-vvr'', str ''1M,64K'', str ''-P4'', str ''image'', str ''-v'']"
  have "\<forall>a \<in> set argv. 0 \<notin> set a" "sum_list (map (\<lambda>a. length a + 1) argv) < 40"
    by (simp_all add: argv_def str_def)
  moreover have "parse_opts (str ''vr:P:'') [] (tl argv)
    = [(of_char CHR ''v'', str ''vvr''), (of_char CHR ''v'', str ''vr''), (of_char CHR ''r'', str ''1M,64K''), (of_char CHR ''P'', str ''4'')]"
    unfolding argv_def by code_simp
  ultimately show ?thesis
    using getopt_parses [of "\<lparr>optind = 0, last_optind = 0, go_cp = [], optarg = []\<rparr>" argv 40 "str ''vr:P:''"]
    by (simp add: argv_def)
qed

section \<open>Boot arguments\<close>

definition packed_args :: "u8 list list \<Rightarrow> u8 list" where
  "packed_args ss = concat (map (\<lambda>s. s @ [0]) ss)"

lemma packed_args_simps [simp]: "packed_args [] = []" "packed_args (s # ss) = s @ 0 # packed_args ss"
  "packed_args (ss @ ts) = packed_args ss @ packed_args ts"
  by (simp_all add: packed_args_def)

lemma strlen_at_string: "0 \<notin> set s \<Longrightarrow> strlen_at (pre @ s @ 0 # post) (length pre) = Inr (length s)"
proof -
  assume s: "0 \<notin> set s"
  then have "takeWhile (\<lambda>c. c \<noteq> 0) (s @ 0 # post) = s" by (induction s) auto
  then show ?thesis by (simp add: strlen_at_def)
qed

lemma skip_strings_packed:
  "\<forall>s \<in> set ss. 0 \<notin> set s \<Longrightarrow> skip_strings (length ss) (pre @ packed_args ss @ post) (length pre)
     = Inr (length pre + length (packed_args ss))"
proof (induction ss arbitrary: pre)
  case (Cons s ss)
  have "skip_strings (length ss) ((pre @ s @ [0]) @ packed_args ss @ post) (length (pre @ s @ [0]))
     = Inr (length (pre @ s @ [0]) + length (packed_args ss))"
    using Cons.prems by (intro Cons.IH) simp
  then show ?case using strlen_at_string [of s pre "packed_args ss @ post"] Cons.prems by simp
qed simp

definition before_first :: "u8 list option \<Rightarrow> u8 list list \<Rightarrow> u8 list list" where
  "before_first old ss = takeWhile (\<lambda>s. Some s \<noteq> old) ss"

lemma find_string_packed:
  "\<forall>s \<in> set ss. 0 \<notin> set s \<Longrightarrow> find_string (length ss) (pre @ packed_args ss @ post) old (length pre)
     = Inr (length pre + length (packed_args (before_first old ss)),
            (case old of None \<Rightarrow> None | Some s \<Rightarrow> if s \<in> set ss then Some (length s + 1) else None))"
proof (induction ss arbitrary: pre)
  case (Cons s ss)
  have len: "strlen_at (pre @ s @ 0 # packed_args ss @ post) (length pre) = Inr (length s)"
    using Cons.prems by (intro strlen_at_string) simp
  show ?case
  proof (cases "old = Some s")
    case True
    then show ?thesis using len by (simp add: before_first_def)
  next
    case False
    have "find_string (length ss) ((pre @ s @ [0]) @ packed_args ss @ post) old (length (pre @ s @ [0]))
       = Inr (length (pre @ s @ [0]) + length (packed_args (before_first old ss)),
              (case old of None \<Rightarrow> None | Some s \<Rightarrow> if s \<in> set ss then Some (length s + 1) else None))"
      using Cons.prems by (intro Cons.IH) simp
    then show ?thesis using len False by (auto simp: before_first_def split: option.splits)
  qed
qed (simp add: before_first_def split: option.splits)

text \<open>Moving the bytes behind \<open>B\<close> and storing \<open>S\<close> in its place.\<close>

lemma splice:
  assumes "m = A @ B @ C @ R" and "length A + length S + length C \<le> length m" and "length S \<le> length A + length B"
  defines "src \<equiv> int (length A) - (int (length S) - int (length B))"
  shows "\<exists>M R'. move_bytes m (length A) src (int (length (A @ B @ C)) - src) = Inr M
    \<and> length M = length m \<and> take (length A) M @ S @ drop (length A + length S) M = A @ S @ C @ R'
    \<and> (S = [] \<longrightarrow> M = A @ C @ R')"
proof -
  define n where "n = length S + length C"
  define k where "k = length A + length B - length S"
  have src: "src = int k" using assms(3) by (simp add: src_def k_def)
  have len: "int (length (A @ B @ C)) - int k = int n" unfolding src [symmetric] by (simp add: src_def n_def)
  define M where "M = A @ take n (drop k m) @ drop (length A + n) m"
  have "k + n = length A + length B + length C" using assms(3) by (simp add: k_def n_def)
  then have "int k + int n \<le> int (length m)" by (simp add: assms(1))
  moreover have "int (length A) + int n \<le> int (length m)" using assms(2) by (simp add: n_def)
  moreover have "take (length A) m = A" by (simp add: assms(1))
  ultimately have mv: "move_bytes m (length A) src (int (length (A @ B @ C)) - src) = Inr M"
    unfolding src len move_bytes_def M_def by simp
  have "take n (drop k m) = take (length S) (drop k m) @ take (length C) (drop (k + length S) m)"
    unfolding n_def take_add drop_drop by (simp only: add.commute)
  also have "take (length C) (drop (k + length S) m) = C" using assms(3) by (simp add: k_def assms(1))
  finally have t: "take n (drop k m) = take (length S) (drop k m) @ C" .
  have "length (take (length S) (drop k m)) = length S" using assms(3) by (simp add: k_def assms(1))
  then obtain T where "take n (drop k m) = T @ C" "length T = length S" using t by blast
  then have M2: "M = A @ T @ C @ drop (length A + n) m" and T: "length T = length S" by (simp_all add: M_def)
  have lm: "length M = length m" using assms(2) by (simp add: M2 T n_def)
  show ?thesis using mv lm T by (intro exI [of _ M] exI [of _ "drop (length A + n) m"]) (auto simp: M2)
qed

text \<open>The edited list: the first string equal to \<open>old\<close> is replaced or removed, without \<open>old\<close> the new one is added.\<close>

definition opt_list :: "'a option \<Rightarrow> 'a list" where
  "opt_list x = (case x of None \<Rightarrow> [] | Some s \<Rightarrow> [s])"

definition from_first :: "u8 list option \<Rightarrow> u8 list list \<Rightarrow> u8 list list" where
  "from_first old ss = dropWhile (\<lambda>s. Some s \<noteq> old) ss"

definition edited :: "u8 list option \<Rightarrow> u8 list option \<Rightarrow> u8 list list \<Rightarrow> u8 list list" where
  "edited old new ss = before_first old ss @ opt_list new @ tl (from_first old ss)"

text \<open>A string that is longer than the one it replaces is made room for by a move from further in front: that is still inside the structure.\<close>

definition room_before :: "u8 list list \<Rightarrow> u8 list list \<Rightarrow> u8 list option \<Rightarrow> u8 list option \<Rightarrow> bool" where
  "room_before pss ss old new \<longleftrightarrow> length (packed_args (opt_list new))
     \<le> 8 + length (packed_args pss) + length (packed_args (before_first old ss)) + length (packed_args (opt_list old))"

lemma split_first: "before_first old ss @ from_first old ss = ss"
  by (simp add: before_first_def from_first_def)

lemma from_first_cases:
  "old = None \<Longrightarrow> from_first old ss = []"
  "old = Some s \<Longrightarrow> s \<in> set ss \<Longrightarrow> from_first old ss = s # tl (from_first old ss)"
  by (induction ss) (auto simp: from_first_def)

lemma scast_count: "n < 128 \<Longrightarrow> unat (scast (of_nat n :: u8) :: u32) = n"
proof -
  assume n: "n < 128"
  then have "uint (of_nat n :: u8) = int n" by (simp add: take_bit_nat_eq_self_iff unsigned_of_nat take_bit_int_eq_self_iff)
  moreover have "signed_take_bit 7 (int n) = int n" using n by (intro signed_take_bit_int_eq_self) simp_all
  ultimately have "sint (of_nat n :: u8) = int n" unfolding sint_uint by simp
  then have "(scast (of_nat n :: u8) :: u32) = of_nat n" by (metis of_int_of_nat_eq of_int_sint)
  then show ?thesis using n by (simp add: unat_of_nat)
qed

definition size_pair :: "nat \<Rightarrow> u8 list" where
  "size_pair n = [of_nat n, of_nat (n div 256)]"

lemma size_pair_value:
  "n < 65536 \<Longrightarrow> uint (of_nat n :: u8) + 256 * uint (of_nat (n div 256) :: u8) = int n"
proof -
  assume n: "n < 65536"
  have "uint (of_nat n :: u8) = int (n mod 256)" by (simp add: unsigned_of_nat take_bit_eq_mod zmod_int)
  moreover have "uint (of_nat (n div 256) :: u8) = int (n div 256)" using n
    by (simp add: unsigned_of_nat take_bit_eq_mod zmod_int zdiv_int)
  ultimately show ?thesis by (simp add: zmod_int zdiv_int)
qed

lemma store_size:
  assumes "n < 65536"
  shows "(ucast ((of_nat n :: u32) AND 0xff) :: u8) = of_nat n" "(ucast (drop_bit 8 (of_nat n :: u32)) :: u8) = of_nat (n div 256)"
proof -
  have u: "unat (of_nat n :: u32) = n" using assms by (intro unat_small_nat) simp
  have "(of_nat n :: u32) AND 0xff = take_bit 8 (of_nat n)" by (simp add: take_bit_eq_mask mask_eq_exp_minus_1)
  then have "unat ((of_nat n :: u32) AND 0xff) = n mod 256" using u by (simp only: unsigned_take_bit_eq) (simp add: take_bit_eq_mod)
  then have "(ucast ((of_nat n :: u32) AND 0xff) :: u8) = of_nat (n mod 256)" by (metis of_nat_unat)
  also have "\<dots> = of_nat n" unfolding word_unat_eq_iff unat_of_nat by simp
  finally show "(ucast ((of_nat n :: u32) AND 0xff) :: u8) = of_nat n" .
  have "unat (drop_bit 8 (of_nat n :: u32)) = n div 256" using u by (simp only: unsigned_drop_bit_eq u) (use assms in \<open>simp add: drop_bit_eq_div take_bit_nat_eq_self\<close>)
  then show "(ucast (drop_bit 8 (of_nat n :: u32)) :: u8) = of_nat (n div 256)" by (metis of_nat_unat)
qed

lemma do_adjust_spec:
  assumes m: "m = size_pair sz @ cs @ shdr @ packed_args pss @ packed_args ss @ post @ room"
    and len: "length cs = 2" "length shdr = 4" "count \<in> {2, 3}" "unat start = length pss"
    and cnt: "cs ! (count - 2) = of_nat (length ss)" "length ss < 128"
    and size: "sz = 8 + length (packed_args pss) + length (packed_args ss) + length post" "sz < 65536"
    and str: "\<forall>s \<in> set pss \<union> set ss. 0 \<notin> set s"
    and both: "old \<noteq> None \<or> new \<noteq> None"
    and new: "sz' = 8 + length (packed_args pss) + length (packed_args (edited old new ss)) + length post"
      "sz' < 65536" "sz' \<le> length m"
    and fore: "room_before pss ss old new"
  shows "if old \<noteq> None \<and> the old \<notin> set ss then do_adjust m old new start count = Inr (False, m)
    else \<exists>room'. do_adjust m old new start count = Inr (True, size_pair sz'
       @ cs[count - 2 := of_nat (length (edited old new ss))] @ shdr @ packed_args pss @ packed_args (edited old new ss) @ post @ room')
     \<and> length (packed_args (edited old new ss)) + length room' = length (packed_args ss) + length room"
proof -
  define hd8 where "hd8 = size_pair sz @ cs @ shdr"
  have h8: "length hd8 = 8" by (simp add: hd8_def size_pair_def len)
  have mc: "m ! count = of_nat (length ss)"
    using cnt(1) len by (auto simp: m size_pair_def nth_append)
  have mh: "m = hd8 @ packed_args pss @ packed_args ss @ post @ room" by (simp add: m hd8_def)
  have mp: "m = (hd8 @ packed_args pss) @ packed_args ss @ post @ room" by (simp add: mh)
  have lp: "length (hd8 @ packed_args pss) = 8 + length (packed_args pss)" by (simp add: h8)
  have skip: "skip_strings (unat start) m 8 = Inr (8 + length (packed_args pss))"
    using skip_strings_packed [of pss hd8 "packed_args ss @ post @ room"] str unfolding len(4) mh h8 by simp
  have find: "find_string (unat (scast (of_nat (length ss) :: u8) :: u32)) m old (8 + length (packed_args pss))
     = Inr (8 + length (packed_args pss) + length (packed_args (before_first old ss)),
            (case old of None \<Rightarrow> None | Some s \<Rightarrow> if s \<in> set ss then Some (length s + 1) else None))"
    using find_string_packed [of ss "hd8 @ packed_args pss" "post @ room" old] str
    unfolding scast_count [OF cnt(2)] mp lp by blast
  show ?thesis
  proof (cases "old \<noteq> None \<and> the old \<notin> set ss")
    case True
    then show ?thesis by (auto simp: do_adjust_def Let_def skip find mc)
  next
    case False
    define A where "A = hd8 @ packed_args pss @ packed_args (before_first old ss)"
    define B where "B = (case old of None \<Rightarrow> [] | Some s \<Rightarrow> s @ [0])"
    define C where "C = packed_args (tl (from_first old ss)) @ post"
    define S where "S = packed_args (opt_list new)"
    define A' where "A' = (if new = None then A[count := A ! count - 1] else if old = None then A[count := A ! count + 1] else A)"
    have BC: "packed_args (from_first old ss) = B @ packed_args (tl (from_first old ss))"
      using False from_first_cases(1) [of old ss] from_first_cases(2) [of old _ ss]
      unfolding B_def by (cases old) (auto, metis packed_args_simps(2))
    have pss: "packed_args ss = packed_args (before_first old ss) @ packed_args (from_first old ss)"
      by (metis packed_args_simps(3) split_first)
    have mABC: "m = A @ B @ C @ room" unfolding mh pss BC by (simp add: A_def C_def)
    have lA: "length A' = length A" "count < length A" "8 \<le> length A" using h8 len(3) by (auto simp: A'_def A_def)
    define m' where "m' = A' @ B @ C @ room"
    have upd: "(if new = None then m[count := m ! count - 1] else if old = None then m[count := m ! count + 1] else m) = m'"
      unfolding m'_def A'_def mABC using lA(2) by (simp add: list_update_append nth_append)
    have szs: "sz = length (A @ B @ C)" "sz' = length A' + length S + length C"
      using size(1) new(1) BC lA(1) h8
      by (simp_all add: A_def C_def S_def pss edited_def)
    have lm: "length m' = length m" by (simp add: m'_def mABC lA)
    have SB: "length S \<le> length A' + length B"
    proof -
      have "length (packed_args (opt_list old)) = length B" by (simp add: B_def opt_list_def split: option.splits)
      then show ?thesis using fore lA(1) h8 by (simp add: room_before_def A_def S_def)
    qed
    define src where "src = int (length A') - (int (length S) - int (length B))"
    obtain M R' where mv: "move_bytes m' (length A') src (int sz - src) = Inr M" "length M = length m'"
        "take (length A') M @ S @ drop (length A' + length S) M = A' @ S @ C @ R'" "S = [] \<longrightarrow> M = A' @ C @ R'"
      using splice [OF m'_def, of S] new(3) szs lm lA(1) SB unfolding src_def by auto
    have edit: "(case new of None \<Rightarrow> Inr M | Some s \<Rightarrow> copy_bytes M (length A') (s @ [0])) = Inr (A' @ S @ C @ R')"
    proof (cases new)
      case None
      then show ?thesis using mv(4) by (simp add: S_def opt_list_def)
    next
      case (Some s)
      then have "S = s @ [0]" by (simp add: S_def opt_list_def)
      moreover have "length A' + length S \<le> length M" using mv(2) lm new(3) szs by simp
      ultimately show ?thesis using mv(3) Some by (simp add: copy_bytes_def)
    qed
    have "length (A' @ S @ C @ R') = length (take (length A') M @ S @ drop (length A' + length S) M)" using mv(3) by simp
    also have "\<dots> = length m" using mv(2) lm new(3) szs by simp
    finally have lR: "length (A' @ S @ C @ R') = length m" .
    define cs' where "cs' = cs[count - 2 := of_nat (length (edited old new ss))]"
    have A': "A' = size_pair sz @ cs' @ shdr @ packed_args pss @ packed_args (before_first old ss)"
    proof -
      have "A = size_pair sz @ cs @ shdr @ packed_args pss @ packed_args (before_first old ss)" by (simp add: A_def hd8_def)
      then have up: "A[count := x] = size_pair sz @ cs[count - 2 := x] @ shdr @ packed_args pss @ packed_args (before_first old ss)" for x
        using len by (auto simp: size_pair_def list_update_append)
      have Ac: "A ! count = of_nat (length ss)" using mc lA(2) by (simp add: mABC nth_append)
      have "old \<noteq> None \<Longrightarrow> length ss = length (before_first old ss) + Suc (length (tl (from_first old ss)))"
        using False from_first_cases(2) [of old _ ss] split_first [of old ss] by (metis length_Cons length_append option.collapse)
      moreover have "old = None \<Longrightarrow> length ss = length (before_first old ss) \<and> from_first old ss = []"
        using from_first_cases(1) [of old ss] split_first [of old ss] by (metis append_Nil2)
      ultimately have n: "length ss = length (before_first old ss) + (if old = None then 0 else Suc (length (tl (from_first old ss))))"
        "old = None \<Longrightarrow> from_first old ss = []" by auto
      have self: "A[count := of_nat (length ss)] = A" using Ac by (metis list_update_id)
      show ?thesis
        using both n up self unfolding A'_def cs'_def Ac edited_def opt_list_def
        by (cases old; cases new) (auto simp: add.commute)
    qed
    have T: "uint (m' ! 0) + 256 * uint (m' ! 1) = int sz"
      using size_pair_value [OF size(2)] by (simp add: m'_def A' size_pair_def)
    have pos: "length A' = 8 + length (packed_args pss) + length (packed_args (before_first old ss))"
      using lA(1) h8 by (simp add: A_def)
    have diff: "int sz + (int (length S) - int (length B)) = int sz'" using szs lA(1) by simp
    have fnd: "(case old of None \<Rightarrow> None | Some s \<Rightarrow> if s \<in> set ss then Some (length s + 1) else None) = (if old = None then None else Some (length B))"
      using False by (auto simp: B_def split: option.splits)
    have lB: "(case (if old = None then None else Some (length B)) of None \<Rightarrow> 0 | Some n \<Rightarrow> n) = length B"
      by (simp add: B_def)
    have lS: "(case new of None \<Rightarrow> 0 | Some s \<Rightarrow> length s + 1) = length S"
      by (simp add: S_def opt_list_def split: option.splits)
    have c: "\<not> ((if old = None then None else Some (length B)) = None \<and> old \<noteq> None)" by simp
    have run: "do_adjust m old new start count = Inr (True, (A' @ S @ C @ R')[0 := of_nat sz', 1 := of_nat (sz' div 256)])"
      unfolding do_adjust_def Let_def mc skip bind_result_Inr find prod.case fnd if_not_P [OF c] lB lS upd [unfolded mc] T pos [symmetric]
      unfolding src_def [symmetric] mv(1) bind_result_Inr edit diff of_int_of_nat_eq store_size [OF new(2)] by (rule refl)
    have "(A' @ S @ C @ R')[0 := of_nat sz', 1 := of_nat (sz' div 256)]
      = size_pair sz' @ cs' @ shdr @ packed_args pss @ packed_args (edited old new ss) @ post @ R'"
      by (simp add: A' size_pair_def edited_def S_def C_def)
    moreover have "length (packed_args (edited old new ss)) + length R' = length (packed_args ss) + length room"
      using lR mABC lA(1) BC by (simp add: S_def C_def edited_def pss)
    ultimately show ?thesis using False run unfolding cs'_def by auto
  qed
qed

text \<open>
  A structure with the arguments \<open>args\<close>, the environment \<open>env\<close>, the bytes \<open>post\<close> behind them (the 64-bit header
  address, when there is one), and memory behind the structure.
\<close>

definition bootargs :: "u8 list \<Rightarrow> u8 list \<Rightarrow> u8 list list \<Rightarrow> u8 list list \<Rightarrow> u8 list \<Rightarrow> bool" where
  "bootargs m shdr args env post \<longleftrightarrow>
     (\<exists>room. m = size_pair (8 + length (packed_args args) + length (packed_args env) + length post)
        @ [of_nat (length args), of_nat (length env)] @ shdr @ packed_args args @ packed_args env @ post @ room)
     \<and> length shdr = 4 \<and> length args < 128 \<and> length env < 128 \<and> (\<forall>s \<in> set args \<union> set env. 0 \<notin> set s)
     \<and> 8 + length (packed_args args) + length (packed_args env) + length post < 65536"

text \<open>The edit can be stored: the counts stay below 128, the size below 64 KiB and within the memory.\<close>

definition edit_fits :: "u8 list \<Rightarrow> u8 list option \<Rightarrow> u8 list option \<Rightarrow> u8 list list \<Rightarrow> u8 list list \<Rightarrow> u8 list \<Rightarrow> bool" where
  "edit_fits m old new args env post \<longleftrightarrow> (old \<noteq> None \<or> new \<noteq> None) \<and> 0 \<notin> set (concat (opt_list new))
     \<and> length args < 128 \<and> length env < 128
     \<and> 8 + length (packed_args args) + length (packed_args env) + length post < 65536
     \<and> 8 + length (packed_args args) + length (packed_args env) + length post \<le> length m"

lemma set_edited: "set (edited old new ss) \<subseteq> set ss \<union> set (opt_list new)"
  unfolding edited_def before_first_def from_first_def
  by (auto dest: set_takeWhileD) (metis list.set_sel(2) list.sel(2) set_dropWhileD)

lemma edited_strings:
  "\<forall>s \<in> set ss. 0 \<notin> set s \<Longrightarrow> 0 \<notin> set (concat (opt_list new)) \<Longrightarrow> \<forall>s \<in> set (edited old new ss). 0 \<notin> set s"
  using set_edited [of old new ss] by (auto simp: opt_list_def split: option.splits)

lemma arg_adjust_spec:
  assumes "bootargs m shdr args env post" and "edit_fits m old new (edited old new args) env post" and "room_before [] args old new"
    and "\<not> (old \<noteq> None \<and> the old \<notin> set args)"
  shows "\<exists>m'. bootstrap_arg_adjust m old new = Inr (True, m')
    \<and> bootargs m' shdr (edited old new args) env post \<and> length m' = length m"
proof -
  let ?n = "8 + length (packed_args args) + length (packed_args env) + length post"
  let ?n' = "8 + length (packed_args (edited old new args)) + length (packed_args env) + length post"
  obtain room where m: "m = size_pair ?n @ [of_nat (length args), of_nat (length env)] @ shdr @ packed_args [] @ packed_args args
      @ (packed_args env @ post) @ room" and b: "length shdr = 4" "length args < 128" "length env < 128"
    "\<forall>s \<in> set args \<union> set env. 0 \<notin> set s" "?n < 65536"
    using assms(1) by (auto simp: bootargs_def)
  note fit = assms(2) [unfolded edit_fits_def]
  obtain room' where r: "do_adjust m old new 0 2 = Inr (True, size_pair ?n' @ [of_nat (length args), of_nat (length env)]
      [2 - 2 := of_nat (length (edited old new args))] @ shdr @ packed_args [] @ packed_args (edited old new args)
      @ (packed_args env @ post) @ room')"
    "length (packed_args (edited old new args)) + length room' = length (packed_args args) + length room"
    using do_adjust_spec [OF m, of 2 0 old new ?n'] b fit assms(3,4) by auto
  define m' where "m' = size_pair ?n' @ [of_nat (length (edited old new args)), of_nat (length env)] @ shdr
      @ packed_args (edited old new args) @ packed_args env @ post @ room'"
  have "\<forall>s \<in> set (edited old new args). 0 \<notin> set s" using edited_strings [of args new old] b(4) fit by blast
  then have "bootargs m' shdr (edited old new args) env post"
    unfolding bootargs_def using b fit by (intro conjI exI [of _ room']) (simp_all add: m'_def ball_Un)
  moreover have "length m' = length m" using r(2) by (simp add: m m'_def size_pair_def)
  moreover have "bootstrap_arg_adjust m old new = Inr (True, m')"
    unfolding bootstrap_arg_adjust_def r(1) by (simp add: m'_def)
  ultimately show ?thesis by blast
qed

lemma env_adjust_spec:
  assumes "bootargs m shdr args env post" and "edit_fits m old new args (edited old new env) post" and "room_before args env old new"
    and "\<not> (old \<noteq> None \<and> the old \<notin> set env)"
  shows "\<exists>m'. bootstrap_env_adjust m old new = Inr (True, m')
    \<and> bootargs m' shdr args (edited old new env) post \<and> length m' = length m"
proof -
  let ?n = "8 + length (packed_args args) + length (packed_args env) + length post"
  let ?n' = "8 + length (packed_args args) + length (packed_args (edited old new env)) + length post"
  obtain room where m: "m = size_pair ?n @ [of_nat (length args), of_nat (length env)] @ shdr @ packed_args args @ packed_args env
      @ post @ room" and b: "length shdr = 4" "length args < 128" "length env < 128"
    "\<forall>s \<in> set args \<union> set env. 0 \<notin> set s" "?n < 65536"
    using assms(1) by (auto simp: bootargs_def)
  note fit = assms(2) [unfolded edit_fits_def]
  have "m ! 2 = of_nat (length args)" by (simp add: m size_pair_def)
  then have st: "unat (scast (m ! 2) :: u32) = length args" using scast_count [OF b(2)] by simp
  obtain room' where r: "do_adjust m old new (scast (m ! 2)) 3 = Inr (True, size_pair ?n' @ [of_nat (length args), of_nat (length env)]
      [3 - 2 := of_nat (length (edited old new env))] @ shdr @ packed_args args @ packed_args (edited old new env)
      @ post @ room')"
    "length (packed_args (edited old new env)) + length room' = length (packed_args env) + length room"
    using do_adjust_spec [OF m _ b(1) _ st, of 3 old new ?n'] b fit assms(3,4) by auto
  define m' where "m' = size_pair ?n' @ [of_nat (length args), of_nat (length (edited old new env))] @ shdr
      @ packed_args args @ packed_args (edited old new env) @ post @ room'"
  have "\<forall>s \<in> set (edited old new env). 0 \<notin> set s" using edited_strings [of env new old] b(4) fit by blast
  then have "bootargs m' shdr args (edited old new env) post"
    unfolding bootargs_def using b fit by (intro conjI exI [of _ room']) (simp_all add: m'_def ball_Un)
  moreover have "length m' = length m" using r(2) by (simp add: m m'_def size_pair_def)
  moreover have "bootstrap_env_adjust m old new = Inr (True, m')"
    unfolding bootstrap_env_adjust_def r(1) by (simp add: m'_def)
  ultimately show ?thesis by blast
qed

text \<open>A string that is not in the list changes nothing.\<close>

lemma arg_adjust_missing:
  assumes "bootargs m shdr args env post" and "old \<notin> set args"
  shows "bootstrap_arg_adjust m (Some old) new = Inr (False, m)"
proof -
  let ?h = "size_pair (8 + length (packed_args args) + length (packed_args env) + length post) @ [of_nat (length args), of_nat (length env)] @ shdr"
  obtain room where m: "m = ?h @ packed_args args @ (packed_args env @ post @ room)"
    and b: "length shdr = 4" "length args < 128" "\<forall>s \<in> set args. 0 \<notin> set s"
    using assms(1) by (auto simp: bootargs_def)
  have c: "m ! 2 = of_nat (length args)" by (simp add: m size_pair_def)
  have "length ?h = 8" using b(1) by (simp add: size_pair_def)
  then have "find_string (length args) m (Some old) 8 = Inr (8 + length (packed_args (before_first (Some old) args)), None)"
    using find_string_packed [OF b(3), of ?h "packed_args env @ post @ room" "Some old"] assms(2) unfolding m [symmetric] by simp
  then show ?thesis by (simp add: bootstrap_arg_adjust_def do_adjust_def Let_def c scast_count [OF b(2)])
qed

lemma env_adjust_missing:
  assumes "bootargs m shdr args env post" and "old \<notin> set env"
  shows "bootstrap_env_adjust m (Some old) new = Inr (False, m)"
proof -
  let ?h = "size_pair (8 + length (packed_args args) + length (packed_args env) + length post) @ [of_nat (length args), of_nat (length env)] @ shdr"
  obtain room where m: "m = ?h @ packed_args args @ packed_args env @ (post @ room)"
    and b: "length shdr = 4" "length args < 128" "length env < 128" "\<forall>s \<in> set args. 0 \<notin> set s" "\<forall>s \<in> set env. 0 \<notin> set s"
    using assms(1) by (auto simp: bootargs_def)
  have c: "m ! 2 = of_nat (length args)" "m ! 3 = of_nat (length env)" by (simp_all add: m size_pair_def)
  have h8: "length ?h = 8" using b(1) by (simp add: size_pair_def)
  have skip: "skip_strings (length args) m 8 = Inr (8 + length (packed_args args))"
    using skip_strings_packed [OF b(4), of ?h "packed_args env @ post @ room"] unfolding m [symmetric] h8 .
  have m': "m = (?h @ packed_args args) @ packed_args env @ (post @ room)" by (simp add: m)
  have l: "length (?h @ packed_args args) = 8 + length (packed_args args)" using h8 by simp
  have "find_string (length env) m (Some old) (8 + length (packed_args args))
      = Inr (8 + length (packed_args args) + length (packed_args (before_first (Some old) env)), None)"
    using find_string_packed [OF b(5), of "?h @ packed_args args" "post @ room" "Some old"] assms(2) unfolding m' [symmetric] l by simp
  then show ?thesis
    by (simp add: bootstrap_env_adjust_def do_adjust_def Let_def c skip scast_count [OF b(2)] scast_count [OF b(3)])
qed

text \<open>C36: \<open>bootstrap_arg_adjust\<close> and \<open>bootstrap_env_adjust\<close> edit the boot arguments as two lists of strings.  Each adds the new string at
  the end of its own list, or replaces the first string there equal to the old one, or removes it when there is no new one; the other
  list, the header address and the bytes behind the strings are kept, the counts and the size are right again.  An old string that is not in
  the list, whatever the other list holds, is reported and changes nothing.  An edit needs the new counts and size to be
  representable, the memory to hold it, and, when it makes the list longer, the bytes moved to start inside the structure.\<close>

theorem bootstrap_adjust_edits:
  assumes "bootargs m shdr args env post"
  shows "(if old \<noteq> None \<and> the old \<notin> set args then bootstrap_arg_adjust m old new = Inr (False, m)
      else edit_fits m old new (edited old new args) env post \<and> room_before [] args old new \<longrightarrow>
        (\<exists>m'. bootstrap_arg_adjust m old new = Inr (True, m') \<and> bootargs m' shdr (edited old new args) env post \<and> length m' = length m))
    \<and> (if old \<noteq> None \<and> the old \<notin> set env then bootstrap_env_adjust m old new = Inr (False, m)
      else edit_fits m old new args (edited old new env) post \<and> room_before args env old new \<longrightarrow>
        (\<exists>m'. bootstrap_env_adjust m old new = Inr (True, m') \<and> bootargs m' shdr args (edited old new env) post \<and> length m' = length m))"
proof (intro conjI)
  show "if old \<noteq> None \<and> the old \<notin> set args then bootstrap_arg_adjust m old new = Inr (False, m)
      else edit_fits m old new (edited old new args) env post \<and> room_before [] args old new \<longrightarrow>
        (\<exists>m'. bootstrap_arg_adjust m old new = Inr (True, m') \<and> bootargs m' shdr (edited old new args) env post \<and> length m' = length m)"
    using arg_adjust_missing [OF assms] arg_adjust_spec [OF assms] by (cases old) (simp_all split: if_splits)
  show "if old \<noteq> None \<and> the old \<notin> set env then bootstrap_env_adjust m old new = Inr (False, m)
      else edit_fits m old new args (edited old new env) post \<and> room_before args env old new \<longrightarrow>
        (\<exists>m'. bootstrap_env_adjust m old new = Inr (True, m') \<and> bootargs m' shdr args (edited old new env) post \<and> length m' = length m)"
    using env_adjust_missing [OF assms] env_adjust_spec [OF assms] by (cases old) (simp_all split: if_splits)
qed

definition sample_bootargs :: "u8 list" where
  "sample_bootargs = size_pair 21 @ [2, 1] @ [0, 0, 0x08, 0] @ packed_args [str ''sh'', str ''-v''] @ packed_args [str ''TERM=a''] @ replicate 11 0"

text \<open>An argument that is not in the environment is replaced by a longer one; looking for it in the environment changes nothing.\<close>

theorem bootstrap_adjust_edits_witness:
  "(\<exists>m'. bootstrap_arg_adjust sample_bootargs (Some (str ''-v'')) (Some (str ''-vvv'')) = Inr (True, m')
      \<and> bootargs m' [0, 0, 0x08, 0] [str ''sh'', str ''-vvv''] [str ''TERM=a''] [])
   \<and> bootstrap_env_adjust sample_bootargs (Some (str ''-v'')) (Some (str ''-vvv'')) = Inr (False, sample_bootargs)"
proof -
  let ?o = "Some (str ''-v'')" and ?n = "Some (str ''-vvv'')"
  have b: "bootargs sample_bootargs [0, 0, 0x08, 0] [str ''sh'', str ''-v''] [str ''TERM=a''] []"
    by (simp add: bootargs_def sample_bootargs_def size_pair_def str_def)
  have e: "edited ?o ?n [str ''sh'', str ''-v''] = [str ''sh'', str ''-vvv'']"
    by (simp add: edited_def before_first_def from_first_def opt_list_def str_def)
  have f: "edit_fits sample_bootargs ?o ?n [str ''sh'', str ''-vvv''] [str ''TERM=a''] []" "room_before [] [str ''sh'', str ''-v''] ?o ?n"
    by (simp_all add: edit_fits_def room_before_def before_first_def sample_bootargs_def size_pair_def str_def opt_list_def)
  have "str ''-v'' \<in> set [str ''sh'', str ''-v'']" "str ''-v'' \<notin> set [str ''TERM=a'']" by (simp_all add: str_def)
  then show ?thesis using bootstrap_adjust_edits [OF b, of ?o ?n] e f by auto
qed

text \<open>A first argument of more than eight bytes is made room for from before the structure.\<close>

lemma bootstrap_long_first_argument:
  "bootstrap_arg_adjust (size_pair 8 @ [0, 0] @ [0, 0, 0x08, 0] @ replicate 40 0) None (Some (str ''-v --memory'')) = Inl Out_of_bounds"
  by code_simp

end
