(* ===== verification/Hwi.thy ===== *)
theory Hwi
  imports Ram
begin

text \<open>
  The hardware information section of the system page: \<open>startup/lib/hwi_*.c\<close>, \<open>hwidev_*.c\<close>, \<open>hwibus_*.c\<close>,
  \<open>hwitag_*.c\<close>.  The section is a sequence of tags, each beginning with its size and the offset of its name in the
  string table; an item is a tag that also counts the words of all tags up to the next item.  The layout of the
  tags (\<open>hw/sysinfo.h\<close>) and the search functions of libc are not part of the repository; they are the
  fields of \<open>hwi_abi\<close>.
\<close>

section \<open>State and layout\<close>

datatype tag_kind =
    Tag_pad | Tag_bus | Tag_group | Tag_device | Tag_synonym | Tag_location | Tag_irq | Tag_irqrange | Tag_inputclk
  | Tag_busattr | Tag_errata | Tag_dma | Tag_dll | Tag_optstr | Tag_nicaddr | Tag_nicphyaddr | Tag_regname | Tag_nanospin

datatype tag_field =
    F_size | F_name | F_itemsize | F_itemname | F_owner | F_kids
  | F_pnpid | F_real | F_base | F_len | F_regshift | F_addrspace | F_vector | F_range_irq | F_range_num | F_clk | F_div
  | F_speed | F_width | F_addr | F_flags | F_errata | F_chnl | F_dll | F_optstr | F_nic_len | F_nic_addr | F_phyaddr
  | F_regname | F_regoffset | F_loop_time | F_overhead

text \<open>The macros for the names of common items.\<close>

datatype item_name =
    ITEM_ROOT_HW | ITEM_BUS_UNKNOWN | ITEM_DEVCLASS_RTC | ITEM_DEVCLASS_MISC | ITEM_BUS_CAN | ITEM_BUS_I2C | ITEM_BUS_PCI
  | ITEM_BUS_SDIO | ITEM_BUS_SPI | ITEM_BUS_USB

text \<open>
  \<open>tag_name\<close>, \<open>tag_size\<close> and \<open>tag_align\<close> are what \<open>HWI_TAG_INFO\<close> expands to; a field lies \<open>field_pos\<close> bytes
  behind the start of its tag and has \<open>field_bytes\<close> bytes.  \<open>find_item\<close> and \<open>find_tag\<close> search the bytes of the
  section and of the string table.
\<close>

record hwi_abi =
  tag_name :: "tag_kind \<Rightarrow> u8 list"
  tag_size :: "tag_kind \<Rightarrow> u32"
  tag_align :: "tag_kind \<Rightarrow> u32"
  prefix_size :: u32
  field_pos :: "tag_field \<Rightarrow> nat"
  field_bytes :: "tag_field \<Rightarrow> nat"
  item_str :: "item_name \<Rightarrow> u8 list"
  HWI_NULL_OFF :: u32
  AS_NULL_OFF :: u32
  HWI_ILLEGAL_VECTOR :: u32
  find_item :: "u8 list \<Rightarrow> u8 list \<Rightarrow> u32 \<Rightarrow> u8 list list \<Rightarrow> u32"
  find_tag :: "u8 list \<Rightarrow> u8 list \<Rightarrow> u32 \<Rightarrow> u8 list \<Rightarrow> u32 \<Rightarrow> u32 option \<times> u32"

text \<open>\<open>offset\<close> and \<open>last_item\<close> of \<open>hwi_alloc.c\<close>: the end of the tags and the start of the last item.\<close>

record hwi_state = ram_state +
  hw_offset :: u32
  hw_last :: u32

section \<open>Fields\<close>

definition hw_bytes :: "'a hwi_state_scheme \<Rightarrow> u8 list" where
  "hw_bytes st = sect_bytes (page st) Sec_hwinfo"

definition put_hw :: "nat \<Rightarrow> u8 list \<Rightarrow> 'a hwi_state_scheme \<Rightarrow> 'a hwi_state_scheme" where
  "put_hw i xs st = st\<lparr>page := put_bytes (sect_p (sections (page st) Sec_hwinfo) + i) xs (page st)\<rparr>"

definition get_field :: "hwi_abi \<Rightarrow> u32 \<Rightarrow> tag_field \<Rightarrow> 'a hwi_state_scheme \<Rightarrow> u64" where
  "get_field ha tag f st = le_value (take (field_bytes ha f) (drop (unat tag + field_pos ha f) (hw_bytes st)))"

definition set_field :: "hwi_abi \<Rightarrow> u32 \<Rightarrow> tag_field \<Rightarrow> u64 \<Rightarrow> 'a hwi_state_scheme \<Rightarrow> 'a hwi_state_scheme" where
  "set_field ha tag f v st = put_hw (unat tag + field_pos ha f) (le_bytes (field_bytes ha f) v) st"

definition hwi_find_item :: "hwi_abi \<Rightarrow> u32 \<Rightarrow> u8 list list \<Rightarrow> 'a hwi_state_scheme \<Rightarrow> u32" where
  "hwi_find_item ha start names st = find_item ha (hw_bytes st) (sect_bytes (page st) Sec_strings) start names"

definition hwi_tag_find :: "hwi_abi \<Rightarrow> u32 \<Rightarrow> tag_kind \<Rightarrow> u32 \<Rightarrow> 'a hwi_state_scheme \<Rightarrow> u32 option \<times> u32" where
  "hwi_tag_find ha off k idx st = find_tag ha (hw_bytes st) (sect_bytes (page st) Sec_strings) off (tag_name ha k) idx"

section \<open>Allocating tags\<close>

text \<open>The part of \<open>hwi_alloc_tag\<close> behind the alignment; the result is the offset of the tag.\<close>

definition hwi_room :: "u32 \<Rightarrow> u32 \<Rightarrow> syspage \<Rightarrow> syspage result" where
  "hwi_room need off pg =
     (let spare = sect_size (sections pg Sec_hwinfo) - off
      in if need > spare then grow_syspage_section Sec_hwinfo (ucast (ROUND (ucast (need - spare)) 128)) pg
         else Inr pg)"

definition place_tag :: "hwi_abi \<Rightarrow> u8 list \<Rightarrow> u32 \<Rightarrow> 'a hwi_state_scheme \<Rightarrow> (u32 \<times> 'a hwi_state_scheme) result" where
  "place_tag ha name sz st =
     bind_result (add_string name (page st)) (\<lambda>(name_off, pg).
     bind_result (hwi_room (sz + prefix_size ha) (hw_offset st) pg) (\<lambda>pg.
       let st = st\<lparr>page := pg\<rparr>;
           tag = hw_offset st;
           st = set_field ha (hw_last st) F_itemsize (get_field ha (hw_last st) F_itemsize st + ucast (sz div 4)) st;
           st = set_field ha tag F_size (ucast (sz div 4)) st;
           st = set_field ha tag F_name (of_nat name_off) st
       in Inr (tag, st\<lparr>hw_offset := tag + sz\<rparr>)))"

definition misaligned :: "u32 \<Rightarrow> u32 \<Rightarrow> bool" where
  "misaligned off align \<longleftrightarrow> (ucast (ROUND (ucast off) (ucast align) - ucast off) :: u32) \<noteq> 0"

text \<open>
  \<open>align_tag\<close> allocates one pad tag when the offset is not aligned, and the allocation of the pad tag aligns in turn
  for the pad; the first argument bounds the depth.
\<close>

primrec hwi_alloc_tag_n ::
    "nat \<Rightarrow> hwi_abi \<Rightarrow> u8 list \<Rightarrow> u32 \<Rightarrow> u32 \<Rightarrow> 'a hwi_state_scheme \<Rightarrow> (u32 \<times> 'a hwi_state_scheme) result" where
  "hwi_alloc_tag_n 0 ha name sz align st = Inl Diverges"
| "hwi_alloc_tag_n (Suc n) ha name sz align st =
     (if misaligned (hw_offset st) align
      then bind_result (hwi_alloc_tag_n n ha (tag_name ha Tag_pad) (tag_size ha Tag_pad) (tag_align ha Tag_pad) st)
             (\<lambda>(_, st). place_tag ha name sz st)
      else place_tag ha name sz st)"

definition hwi_alloc_tag ::
    "hwi_abi \<Rightarrow> u8 list \<Rightarrow> u32 \<Rightarrow> u32 \<Rightarrow> 'a hwi_state_scheme \<Rightarrow> (u32 \<times> 'a hwi_state_scheme) result" where
  "hwi_alloc_tag ha = hwi_alloc_tag_n 2 ha"

definition align_tag :: "hwi_abi \<Rightarrow> u32 \<Rightarrow> 'a hwi_state_scheme \<Rightarrow> 'a hwi_state_scheme result" where
  "align_tag ha align st =
     (if misaligned (hw_offset st) align
      then bind_result (hwi_alloc_tag ha (tag_name ha Tag_pad) (tag_size ha Tag_pad) (tag_align ha Tag_pad) st)
             (\<lambda>(_, st). Inr st)
      else Inr st)"

definition hwi_alloc_item ::
    "hwi_abi \<Rightarrow> u8 list \<Rightarrow> u32 \<Rightarrow> u32 \<Rightarrow> u8 list \<Rightarrow> u32 \<Rightarrow> 'a hwi_state_scheme \<Rightarrow> (u32 \<times> 'a hwi_state_scheme) result" where
  "hwi_alloc_item ha name sz align itemname owner st =
     bind_result (add_string itemname (page st)) (\<lambda>(saved_in, pg).
     bind_result (align_tag ha align (st\<lparr>page := pg\<rparr>)) (\<lambda>st.
     bind_result (hwi_alloc_tag ha name sz align (st\<lparr>hw_last := hw_offset st\<rparr>)) (\<lambda>(tag, st).
       let st = set_field ha tag F_itemname (of_nat saved_in) st;
           st = set_field ha tag F_owner (ucast owner) st;
           st = (if owner \<noteq> HWI_NULL_OFF ha then set_field ha owner F_kids (get_field ha owner F_kids st + 1) st else st)
       in Inr (tag, st))))"

text \<open>\<open>HWI_TAG_INFO(k)\<close> as arguments.\<close>

definition alloc_kind :: "hwi_abi \<Rightarrow> tag_kind \<Rightarrow> 'a hwi_state_scheme \<Rightarrow> (u32 \<times> 'a hwi_state_scheme) result" where
  "alloc_kind ha k = hwi_alloc_tag ha (tag_name ha k) (tag_size ha k) (tag_align ha k)"

definition alloc_item_kind ::
    "hwi_abi \<Rightarrow> tag_kind \<Rightarrow> u8 list \<Rightarrow> u32 \<Rightarrow> 'a hwi_state_scheme \<Rightarrow> (u32 \<times> 'a hwi_state_scheme) result" where
  "alloc_item_kind ha k = hwi_alloc_item ha (tag_name ha k) (tag_size ha k) (tag_align ha k)"

text \<open>
  \<open>hwi_grow_tag\<close>: its parameter hides the variable \<open>offset\<close>, so that the end of the tags stays where it was; the
  section grows although it may have room.  The result is the offset of the tag.
\<close>

definition hwi_grow_tag :: "hwi_abi \<Rightarrow> u32 \<Rightarrow> u32 \<Rightarrow> 'a hwi_state_scheme \<Rightarrow> (u32 \<times> 'a hwi_state_scheme) result" where
  "hwi_grow_tag ha off sz st =
     bind_result (grow_syspage_section Sec_hwinfo sz (page st)) (\<lambda>pg.
       let st = st\<lparr>page := pg\<rparr>;
           st = set_field ha (hw_last st) F_itemsize (get_field ha (hw_last st) F_itemsize st + ucast (sz div 4)) st;
           st = set_field ha off F_size (get_field ha off F_size st + ucast (sz div 4)) st
       in Inr (off, st))"

section \<open>Adding tags\<close>

text \<open>\<open>foldM f xs st\<close> runs \<open>f x\<close> for each element of the list.\<close>

primrec foldM :: "('x \<Rightarrow> 's \<Rightarrow> 's result) \<Rightarrow> 'x list \<Rightarrow> 's \<Rightarrow> 's result" where
  "foldM f [] st = Inr st"
| "foldM f (x # xs) st = bind_result (f x st) (foldM f xs)"

text \<open>Allocating a tag and setting fields of it, the form of all the functions here.\<close>

definition set_fields :: "hwi_abi \<Rightarrow> u32 \<Rightarrow> (tag_field \<times> u64) list \<Rightarrow> 'a hwi_state_scheme \<Rightarrow> 'a hwi_state_scheme" where
  "set_fields ha tag fvs st = fold (\<lambda>(f, v). set_field ha tag f v) fvs st"

definition add_tag :: "hwi_abi \<Rightarrow> tag_kind \<Rightarrow> (tag_field \<times> u64) list \<Rightarrow> 'a hwi_state_scheme \<Rightarrow> 'a hwi_state_scheme result" where
  "add_tag ha k fvs st = bind_result (alloc_kind ha k st) (\<lambda>(tag, st). Inr (set_fields ha tag fvs st))"

definition hwitag_add_location :: "hwi_abi \<Rightarrow> u64 \<Rightarrow> u32 \<Rightarrow> u16 \<Rightarrow> u16 \<Rightarrow> 'a hwi_state_scheme \<Rightarrow> 'a hwi_state_scheme result" where
  "hwitag_add_location ha base len reg_shift addr_space =
     add_tag ha Tag_location [(F_base, base), (F_len, ucast len), (F_regshift, ucast reg_shift), (F_addrspace, ucast addr_space)]"

definition hwitag_add_irq :: "hwi_abi \<Rightarrow> u32 \<Rightarrow> 'a hwi_state_scheme \<Rightarrow> 'a hwi_state_scheme result" where
  "hwitag_add_irq ha vector = add_tag ha Tag_irq [(F_vector, ucast vector)]"

definition hwitag_add_irqrange :: "hwi_abi \<Rightarrow> u32 \<Rightarrow> u32 \<Rightarrow> 'a hwi_state_scheme \<Rightarrow> 'a hwi_state_scheme result" where
  "hwitag_add_irqrange ha start_vector num =
     add_tag ha Tag_irqrange [(F_range_irq, ucast start_vector), (F_range_num, ucast num)]"

definition hwitag_add_inputclk :: "hwi_abi \<Rightarrow> u32 \<Rightarrow> u32 \<Rightarrow> 'a hwi_state_scheme \<Rightarrow> 'a hwi_state_scheme result" where
  "hwitag_add_inputclk ha clk dv = add_tag ha Tag_inputclk [(F_clk, ucast clk), (F_div, ucast dv)]"

text \<open>The fields of \<open>struct hwi_busattr\<close>; a NULL pointer leaves zeros.\<close>

record busattr =
  ba_speed :: u32
  ba_width :: u32
  ba_addr :: u32
  ba_flags :: u32

definition busattr_fields :: "busattr \<Rightarrow> (tag_field \<times> u64) list" where
  "busattr_fields a = [(F_speed, ucast (ba_speed a)), (F_width, ucast (ba_width a)), (F_addr, ucast (ba_addr a)), (F_flags, ucast (ba_flags a))]"

definition hwitag_add_busattr :: "hwi_abi \<Rightarrow> busattr option \<Rightarrow> 'a hwi_state_scheme \<Rightarrow> 'a hwi_state_scheme result" where
  "hwitag_add_busattr ha attr =
     add_tag ha Tag_busattr (busattr_fields (case attr of None \<Rightarrow> \<lparr>ba_speed = 0, ba_width = 0, ba_addr = 0, ba_flags = 0\<rparr> | Some a \<Rightarrow> a))"

definition hwitag_add_nicaddr :: "hwi_abi \<Rightarrow> u8 list \<Rightarrow> 'a hwi_state_scheme \<Rightarrow> 'a hwi_state_scheme result" where
  "hwitag_add_nicaddr ha addr st =
     (let len = (of_nat (length addr) :: u32);
          sz = of_nat (field_pos ha F_nic_addr) + len
      in bind_result (hwi_alloc_tag ha (tag_name ha Tag_nicaddr) (ucast (ROUND (ucast sz) 4)) (tag_align ha Tag_nicaddr) st) (\<lambda>(tag, st).
           Inr (put_hw (unat tag + field_pos ha F_nic_addr) addr (set_field ha tag F_nic_len (ucast len) st))))"

definition hwitag_add_nicphyaddr :: "hwi_abi \<Rightarrow> u32 \<Rightarrow> 'a hwi_state_scheme \<Rightarrow> 'a hwi_state_scheme result" where
  "hwitag_add_nicphyaddr ha addr = add_tag ha Tag_nicphyaddr [(F_phyaddr, ucast addr)]"

text \<open>Tags that refer to a string store it first.\<close>

definition add_string_tag ::
    "hwi_abi \<Rightarrow> tag_kind \<Rightarrow> u8 list \<Rightarrow> (u64 \<Rightarrow> (tag_field \<times> u64) list) \<Rightarrow> 'a hwi_state_scheme \<Rightarrow> 'a hwi_state_scheme result" where
  "add_string_tag ha k name fvs st =
     bind_result (add_string name (page st)) (\<lambda>(string_idx, pg).
       add_tag ha k (fvs (of_nat string_idx)) (st\<lparr>page := pg\<rparr>))"

definition hwitag_add_regname :: "hwi_abi \<Rightarrow> u8 list \<Rightarrow> u32 \<Rightarrow> 'a hwi_state_scheme \<Rightarrow> 'a hwi_state_scheme result" where
  "hwitag_add_regname ha name regoffset =
     add_string_tag ha Tag_regname name (\<lambda>idx. [(F_regname, idx), (F_regoffset, ucast regoffset)])"

definition hwitag_add_dll :: "hwi_abi \<Rightarrow> u8 list \<Rightarrow> 'a hwi_state_scheme \<Rightarrow> 'a hwi_state_scheme result" where
  "hwitag_add_dll ha dll = add_string_tag ha Tag_dll dll (\<lambda>idx. [(F_dll, idx)])"

definition hwitag_add_optstr :: "hwi_abi \<Rightarrow> u8 list \<Rightarrow> 'a hwi_state_scheme \<Rightarrow> 'a hwi_state_scheme result" where
  "hwitag_add_optstr ha string = add_string_tag ha Tag_optstr string (\<lambda>idx. [(F_optstr, idx)])"

definition hwitag_add_errata :: "hwi_abi \<Rightarrow> u32 \<Rightarrow> 'a hwi_state_scheme \<Rightarrow> 'a hwi_state_scheme result" where
  "hwitag_add_errata ha num = add_tag ha Tag_errata [(F_errata, ucast num)]"

definition hwitag_add_dma :: "hwi_abi \<Rightarrow> u32 \<Rightarrow> 'a hwi_state_scheme \<Rightarrow> 'a hwi_state_scheme result" where
  "hwitag_add_dma ha chnl = add_tag ha Tag_dma [(F_chnl, ucast chnl)]"

section \<open>Attributes of devices and buses\<close>

record hwiattr =
  at_base :: u64
  at_len :: u32
  at_regshift :: u16
  at_addrspace :: u16
  at_dll :: "u8 list option"
  at_optstr :: "u8 list option"
  num_irq :: nat
  num_errata :: nat
  num_dma :: nat

definition opt_tag :: "('x \<Rightarrow> 's \<Rightarrow> 's result) \<Rightarrow> 'x option \<Rightarrow> 's \<Rightarrow> 's result" where
  "opt_tag f x st = (case x of None \<Rightarrow> Inr st | Some x \<Rightarrow> f x st)"

definition repeatM :: "nat \<Rightarrow> ('s \<Rightarrow> 's result) \<Rightarrow> 's \<Rightarrow> 's result" where
  "repeatM n f = foldM (\<lambda>_. f) [0..<n]"

definition hwitag_add_common :: "hwi_abi \<Rightarrow> 'b hwiattr_scheme \<Rightarrow> 'a hwi_state_scheme \<Rightarrow> 'a hwi_state_scheme result" where
  "hwitag_add_common ha attr st =
     bind_result (hwitag_add_location ha (at_base attr) (at_len attr) (at_regshift attr) (at_addrspace attr) st) (\<lambda>st.
     bind_result (repeatM (num_irq attr) (hwitag_add_irq ha (HWI_ILLEGAL_VECTOR ha)) st) (\<lambda>st.
     bind_result (opt_tag (hwitag_add_dll ha) (at_dll attr) st) (\<lambda>st.
     bind_result (opt_tag (hwitag_add_optstr ha) (at_optstr attr) st) (\<lambda>st.
     bind_result (repeatM (num_errata attr) (hwitag_add_errata ha 0) st) (\<lambda>st.
       repeatM (num_dma attr) (hwitag_add_dma ha 0) st)))))"

section \<open>Adding devices and buses\<close>

definition hwi_default :: "hwi_abi \<Rightarrow> 'a hwi_state_scheme \<Rightarrow> 'a hwi_state_scheme result" where
  "hwi_default ha st =
     bind_result (alloc_item_kind ha Tag_group (item_str ha ITEM_ROOT_HW) (HWI_NULL_OFF ha) st) (\<lambda>(tag, st).
     bind_result (alloc_item_kind ha Tag_bus (item_str ha ITEM_BUS_UNKNOWN) tag st) (\<lambda>(_, st). Inr st))"

text \<open>\<open>init_syspage_memory\<close> as a whole, with the sizes of the structures as in \<open>init_sections\<close>.\<close>

definition init_syspage_memory :: "hwi_abi \<Rightarrow> u32 \<Rightarrow> u32 \<Rightarrow> u32 \<Rightarrow> 'a hwi_state_scheme \<Rightarrow> 'a hwi_state_scheme result" where
  "init_syspage_memory ha spsize0 callout_sz mx st =
     bind_result (init_sections spsize0 callout_sz (prefix_size ha) mx) (\<lambda>pg. hwi_default ha (st\<lparr>page := pg\<rparr>))"

definition hwi_add_device ::
    "hwi_abi \<Rightarrow> u8 list \<Rightarrow> u8 list \<Rightarrow> u8 list \<Rightarrow> u32 \<Rightarrow> 'a hwi_state_scheme \<Rightarrow> 'a hwi_state_scheme result" where
  "hwi_add_device ha bname cname dname pnp st =
     (let bus = hwi_find_item ha (HWI_NULL_OFF ha) [bname] st
      in bind_result
           (if bus = HWI_NULL_OFF ha
            then alloc_item_kind ha Tag_bus bname (hwi_find_item ha (HWI_NULL_OFF ha) [item_str ha ITEM_ROOT_HW] st) st
            else Inr (bus, st)) (\<lambda>(bus, st).
         let cls = hwi_find_item ha (HWI_NULL_OFF ha) [bname, cname] st
         in bind_result
              (if cls = HWI_NULL_OFF ha then alloc_item_kind ha Tag_group cname bus st else Inr (cls, st)) (\<lambda>(cls, st).
            bind_result (alloc_item_kind ha Tag_device dname cls st) (\<lambda>(tag, st).
              Inr (set_field ha tag F_pnpid (ucast pnp) st)))))"

definition hwibus_add :: "hwi_abi \<Rightarrow> u8 list \<Rightarrow> u32 \<Rightarrow> 'a hwi_state_scheme \<Rightarrow> (u32 \<times> 'a hwi_state_scheme) result" where
  "hwibus_add ha bus_name parent st =
     (let parent = (if parent \<noteq> HWI_NULL_OFF ha then parent
                    else hwi_find_item ha (HWI_NULL_OFF ha) [item_str ha ITEM_ROOT_HW] st)
      in if parent \<noteq> HWI_NULL_OFF ha then alloc_item_kind ha Tag_bus bus_name parent st
         else Inr (HWI_NULL_OFF ha, st))"

definition hwidev_add :: "hwi_abi \<Rightarrow> u8 list \<Rightarrow> u32 \<Rightarrow> u32 \<Rightarrow> 'a hwi_state_scheme \<Rightarrow> (u32 \<times> 'a hwi_state_scheme) result" where
  "hwidev_add ha device_name pnp bus st =
     (let bus = (if bus \<noteq> HWI_NULL_OFF ha then bus
                 else hwi_find_item ha (HWI_NULL_OFF ha) [item_str ha ITEM_ROOT_HW, item_str ha ITEM_BUS_UNKNOWN] st)
      in if bus \<noteq> HWI_NULL_OFF ha then
           bind_result (alloc_item_kind ha Tag_device device_name bus st) (\<lambda>(tag, st).
             Inr (tag, set_field ha tag F_pnpid (ucast pnp) st))
         else Inr (HWI_NULL_OFF ha, st))"

definition hwi_add_synonym :: "hwi_abi \<Rightarrow> u32 \<Rightarrow> u8 list \<Rightarrow> 'a hwi_state_scheme \<Rightarrow> (u32 \<times> 'a hwi_state_scheme) result" where
  "hwi_add_synonym ha hwi_off synonym_name st =
     (let owner = hwi_find_item ha (HWI_NULL_OFF ha) [item_str ha ITEM_ROOT_HW] st
      in if hwi_off = HWI_NULL_OFF ha \<or> owner = HWI_NULL_OFF ha then Inr (HWI_NULL_OFF ha, st)
         else bind_result (alloc_item_kind ha Tag_synonym synonym_name owner st) (\<lambda>(tag, st).
                Inr (tag, set_field ha tag F_real (ucast hwi_off) st)))"

text \<open>Tags of a device or bus that has just been added, unless that failed or there are no attributes.\<close>

definition with_attr ::
    "hwi_abi \<Rightarrow> 'b hwiattr_scheme option \<Rightarrow> ('b hwiattr_scheme \<Rightarrow> 'a hwi_state_scheme \<Rightarrow> 'a hwi_state_scheme result)
      \<Rightarrow> u32 \<times> 'a hwi_state_scheme \<Rightarrow> (u32 \<times> 'a hwi_state_scheme) result" where
  "with_attr ha attr f = (\<lambda>(hwi_off, st).
     case attr of
       None \<Rightarrow> Inr (hwi_off, st)
     | Some a \<Rightarrow>
         if hwi_off = HWI_NULL_OFF ha then Inr (hwi_off, st)
         else bind_result (hwitag_add_common ha a st) (\<lambda>st.
              bind_result (f a st) (\<lambda>st. Inr (hwi_off, st))))"

record clk_attr = hwiattr +
  num_clks :: nat

record bus_attr = clk_attr +
  num_busattr :: nat

record can_attr = clk_attr +
  num_memaddr :: nat

record pci_attr = hwiattr +
  num_irqblks :: nat
  pci_num_busattr :: nat

record enet_attr = clk_attr +
  at_mac :: "u8 list"
  num_phys :: nat

record rtc_attr = hwiattr +
  centreg_name :: "u8 list option"
  centreg_offset :: u16

definition add_clks :: "hwi_abi \<Rightarrow> 'b clk_attr_scheme \<Rightarrow> 'a hwi_state_scheme \<Rightarrow> 'a hwi_state_scheme result" where
  "add_clks ha a = repeatM (num_clks a) (hwitag_add_inputclk ha 0 1)"

definition add_busattrs :: "hwi_abi \<Rightarrow> 'b bus_attr_scheme \<Rightarrow> 'a hwi_state_scheme \<Rightarrow> 'a hwi_state_scheme result" where
  "add_busattrs ha a st = bind_result (add_clks ha a st) (repeatM (num_busattr a) (hwitag_add_busattr ha None))"

definition hwibus_add_i2c :: "hwi_abi \<Rightarrow> u32 \<Rightarrow> bus_attr option \<Rightarrow> 'a hwi_state_scheme \<Rightarrow> (u32 \<times> 'a hwi_state_scheme) result" where
  "hwibus_add_i2c ha parent attr st =
     bind_result (hwibus_add ha (item_str ha ITEM_BUS_I2C) parent st) (with_attr ha attr (add_busattrs ha))"

definition hwibus_add_spi :: "hwi_abi \<Rightarrow> u32 \<Rightarrow> bus_attr option \<Rightarrow> 'a hwi_state_scheme \<Rightarrow> (u32 \<times> 'a hwi_state_scheme) result" where
  "hwibus_add_spi ha parent attr st =
     bind_result (hwibus_add ha (item_str ha ITEM_BUS_SPI) parent st) (with_attr ha attr (add_busattrs ha))"

definition hwibus_add_sdio :: "hwi_abi \<Rightarrow> u32 \<Rightarrow> bus_attr option \<Rightarrow> 'a hwi_state_scheme \<Rightarrow> (u32 \<times> 'a hwi_state_scheme) result" where
  "hwibus_add_sdio ha parent attr st =
     bind_result (hwibus_add ha (item_str ha ITEM_BUS_SDIO) parent st) (with_attr ha attr (add_busattrs ha))"

definition hwibus_add_can :: "hwi_abi \<Rightarrow> u32 \<Rightarrow> can_attr option \<Rightarrow> 'a hwi_state_scheme \<Rightarrow> (u32 \<times> 'a hwi_state_scheme) result" where
  "hwibus_add_can ha parent attr st =
     bind_result (hwibus_add ha (item_str ha ITEM_BUS_CAN) parent st) (with_attr ha attr (\<lambda>a st.
       bind_result (add_clks ha a st) (repeatM (num_memaddr a) (hwitag_add_location ha 0 0 0 0))))"

definition hwibus_add_pci :: "hwi_abi \<Rightarrow> u32 \<Rightarrow> pci_attr option \<Rightarrow> 'a hwi_state_scheme \<Rightarrow> (u32 \<times> 'a hwi_state_scheme) result" where
  "hwibus_add_pci ha parent attr st =
     bind_result (hwibus_add ha (item_str ha ITEM_BUS_PCI) parent st) (with_attr ha attr (\<lambda>a st.
       bind_result (repeatM (num_irqblks a) (hwitag_add_irqrange ha (HWI_ILLEGAL_VECTOR ha) 0) st)
         (repeatM (pci_num_busattr a) (hwitag_add_busattr ha None))))"

definition hwibus_add_usb :: "hwi_abi \<Rightarrow> u32 \<Rightarrow> hwiattr option \<Rightarrow> 'a hwi_state_scheme \<Rightarrow> (u32 \<times> 'a hwi_state_scheme) result" where
  "hwibus_add_usb ha parent attr st =
     bind_result (hwibus_add ha (item_str ha ITEM_BUS_USB) parent st) (with_attr ha attr (\<lambda>a. Inr))"

text \<open>The device classes of \<open>sys/hwinfo.h\<close>.\<close>

definition hwi_devclass_UART :: u32 where "hwi_devclass_UART = 1"
definition hwi_devclass_ENET :: u32 where "hwi_devclass_ENET = 2"
definition hwi_devclass_RTC :: u32 where "hwi_devclass_RTC = 3"
definition hwi_devclass_DMA :: u32 where "hwi_devclass_DMA = 4"
definition hwi_devclass_TIMER :: u32 where "hwi_devclass_TIMER = 7"

definition hwidev_add_uart ::
    "hwi_abi \<Rightarrow> u8 list \<Rightarrow> clk_attr option \<Rightarrow> u32 \<Rightarrow> 'a hwi_state_scheme \<Rightarrow> (u32 \<times> 'a hwi_state_scheme) result" where
  "hwidev_add_uart ha name attr bus st = bind_result (hwidev_add ha name hwi_devclass_UART bus st) (with_attr ha attr (add_clks ha))"

definition hwidev_add_timer ::
    "hwi_abi \<Rightarrow> u8 list \<Rightarrow> clk_attr option \<Rightarrow> u32 \<Rightarrow> 'a hwi_state_scheme \<Rightarrow> (u32 \<times> 'a hwi_state_scheme) result" where
  "hwidev_add_timer ha name attr bus st = bind_result (hwidev_add ha name hwi_devclass_TIMER bus st) (with_attr ha attr (add_clks ha))"

definition hwidev_add_dma ::
    "hwi_abi \<Rightarrow> u8 list \<Rightarrow> hwiattr option \<Rightarrow> u32 \<Rightarrow> 'a hwi_state_scheme \<Rightarrow> (u32 \<times> 'a hwi_state_scheme) result" where
  "hwidev_add_dma ha name attr bus st = bind_result (hwidev_add ha name hwi_devclass_DMA bus st) (with_attr ha attr (\<lambda>a. Inr))"

definition hwidev_add_rtc ::
    "hwi_abi \<Rightarrow> u8 list \<Rightarrow> rtc_attr option \<Rightarrow> u32 \<Rightarrow> 'a hwi_state_scheme \<Rightarrow> (u32 \<times> 'a hwi_state_scheme) result" where
  "hwidev_add_rtc ha name attr bus st =
     bind_result (hwidev_add ha name hwi_devclass_RTC bus st) (with_attr ha attr (\<lambda>a.
       opt_tag (\<lambda>n. hwitag_add_regname ha n (ucast (centreg_offset a))) (centreg_name a)))"

definition hwidev_add_enet ::
    "hwi_abi \<Rightarrow> u8 list \<Rightarrow> enet_attr option \<Rightarrow> u32 \<Rightarrow> 'a hwi_state_scheme \<Rightarrow> (u32 \<times> 'a hwi_state_scheme) result" where
  "hwidev_add_enet ha name attr bus st =
     bind_result (hwidev_add ha name hwi_devclass_ENET bus st) (with_attr ha attr (\<lambda>a st.
       bind_result (foldM (\<lambda>i. hwitag_add_nicphyaddr ha (of_nat i)) [0..<num_phys a] st) (\<lambda>st.
       bind_result (add_clks ha a st) (\<lambda>st.
         if at_mac a \<noteq> replicate 6 0 then hwitag_add_nicaddr ha (at_mac a) st else Inr st))))"

section \<open>Setting tags\<close>

text \<open>The tag with index \<open>idx\<close> of the kind among those of the device; the functions say whether it was found.\<close>

definition set_tag ::
    "hwi_abi \<Rightarrow> tag_kind \<Rightarrow> u32 \<Rightarrow> u32 \<Rightarrow> (tag_field \<times> u64) list \<Rightarrow> 'a hwi_state_scheme \<Rightarrow> bool \<times> 'a hwi_state_scheme" where
  "set_tag ha k hwi_off idx fvs st =
     (case fst (hwi_tag_find ha hwi_off k idx st) of
        None \<Rightarrow> (False, st)
      | Some tag \<Rightarrow> (True, set_fields ha tag fvs st))"

definition hwitag_set_ivec :: "hwi_abi \<Rightarrow> u32 \<Rightarrow> u32 \<Rightarrow> u32 \<Rightarrow> 'a hwi_state_scheme \<Rightarrow> bool \<times> 'a hwi_state_scheme" where
  "hwitag_set_ivec ha off idx vector = set_tag ha Tag_irq off idx [(F_vector, ucast vector)]"

definition hwitag_set_dma :: "hwi_abi \<Rightarrow> u32 \<Rightarrow> u32 \<Rightarrow> u32 \<Rightarrow> 'a hwi_state_scheme \<Rightarrow> bool \<times> 'a hwi_state_scheme" where
  "hwitag_set_dma ha off idx chnl = set_tag ha Tag_dma off idx [(F_chnl, ucast chnl)]"

definition hwitag_set_errata :: "hwi_abi \<Rightarrow> u32 \<Rightarrow> u32 \<Rightarrow> u32 \<Rightarrow> 'a hwi_state_scheme \<Rightarrow> bool \<times> 'a hwi_state_scheme" where
  "hwitag_set_errata ha off idx errata = set_tag ha Tag_errata off idx [(F_errata, ucast errata)]"

definition hwitag_set_phyaddr :: "hwi_abi \<Rightarrow> u32 \<Rightarrow> u32 \<Rightarrow> u32 \<Rightarrow> 'a hwi_state_scheme \<Rightarrow> bool \<times> 'a hwi_state_scheme" where
  "hwitag_set_phyaddr ha off idx phy_addr = set_tag ha Tag_nicphyaddr off idx [(F_phyaddr, ucast phy_addr)]"

definition hwitag_set_ivecrange :: "hwi_abi \<Rightarrow> u32 \<Rightarrow> u32 \<Rightarrow> u32 \<Rightarrow> u32 \<Rightarrow> 'a hwi_state_scheme \<Rightarrow> bool \<times> 'a hwi_state_scheme" where
  "hwitag_set_ivecrange ha off idx start_vector num =
     set_tag ha Tag_irqrange off idx [(F_range_irq, ucast start_vector), (F_range_num, ucast num)]"

definition hwitag_set_inputclk :: "hwi_abi \<Rightarrow> u32 \<Rightarrow> u32 \<Rightarrow> u32 \<Rightarrow> u32 \<Rightarrow> 'a hwi_state_scheme \<Rightarrow> bool \<times> 'a hwi_state_scheme" where
  "hwitag_set_inputclk ha off idx clk dv = set_tag ha Tag_inputclk off idx [(F_clk, ucast clk), (F_div, ucast dv)]"

definition hwitag_set_busattr :: "hwi_abi \<Rightarrow> u32 \<Rightarrow> u32 \<Rightarrow> busattr \<Rightarrow> 'a hwi_state_scheme \<Rightarrow> bool \<times> 'a hwi_state_scheme" where
  "hwitag_set_busattr ha off idx attr = set_tag ha Tag_busattr off idx (busattr_fields attr)"

text \<open>As many bytes are copied as the tag says, whatever the length of the array given.\<close>

definition hwitag_set_nicaddr :: "hwi_abi \<Rightarrow> u32 \<Rightarrow> u32 \<Rightarrow> u8 list \<Rightarrow> 'a hwi_state_scheme \<Rightarrow> (bool \<times> 'a hwi_state_scheme) result" where
  "hwitag_set_nicaddr ha off idx nic_addr st =
     (case fst (hwi_tag_find ha off Tag_nicaddr idx st) of
        None \<Rightarrow> Inr (False, st)
      | Some tag \<Rightarrow>
          let len = unat (get_field ha tag F_nic_len st)
          in if len > length nic_addr then Inl Out_of_bounds
             else Inr (True, put_hw (unat tag + field_pos ha F_nic_addr) (take len nic_addr) st))"

text \<open>
  \<open>hwitag_set_avail_ivec\<close> looks for a tag whose vector is still free; a non-negative index is the only one tried.
  The search function moves the index on, so the number of rounds is at most the number of tags.
\<close>

primrec avail_ivec_loop :: "nat \<Rightarrow> hwi_abi \<Rightarrow> u32 \<Rightarrow> bool \<Rightarrow> u32 \<Rightarrow> u32 \<Rightarrow> 'a hwi_state_scheme \<Rightarrow> (u32 \<times> 'a hwi_state_scheme) result" where
  "avail_ivec_loop 0 ha off one idx vector st = Inl Diverges"
| "avail_ivec_loop (Suc n) ha off one idx vector st =
     (case hwi_tag_find ha off Tag_irq idx st of
        (None, _) \<Rightarrow> Inr (- 1, st)
      | (Some tag, idx) \<Rightarrow>
          if get_field ha tag F_vector st = ucast (HWI_ILLEGAL_VECTOR ha)
          then Inr (idx - 1, set_field ha tag F_vector (ucast vector) st)
          else if one then Inr (- 1, st)
          else avail_ivec_loop n ha off one idx vector st)"

definition hwitag_set_avail_ivec :: "hwi_abi \<Rightarrow> u32 \<Rightarrow> int \<Rightarrow> u32 \<Rightarrow> 'a hwi_state_scheme \<Rightarrow> (u32 \<times> 'a hwi_state_scheme) result" where
  "hwitag_set_avail_ivec ha off ivec_idx vector st =
     avail_ivec_loop (Suc (length (hw_bytes st))) ha off (ivec_idx \<ge> 0) (if ivec_idx < 0 then 0 else of_int ivec_idx) vector st"

section \<open>Older functions\<close>

definition hwi_add_nanospin :: "hwi_abi \<Rightarrow> u64 \<Rightarrow> u64 \<Rightarrow> 'a hwi_state_scheme \<Rightarrow> 'a hwi_state_scheme result" where
  "hwi_add_nanospin ha hundred_loop_time overhead st =
     bind_result (hwi_add_device ha (item_str ha ITEM_BUS_UNKNOWN) (item_str ha ITEM_DEVCLASS_MISC) (cs ''nanospin_calibrate'') 0 st)
       (add_tag ha Tag_nanospin [(F_loop_time, hundred_loop_time), (F_overhead, overhead)])"

text \<open>The offset of an address space entry as the sources count it.\<close>

definition as_offset :: "hwi_abi \<Rightarrow> as_abi \<Rightarrow> nat option \<Rightarrow> u32" where
  "as_offset ha as e = (case e of None \<Rightarrow> AS_NULL_OFF ha | Some i \<Rightarrow> of_nat i * asinfo_entry_size as)"

definition hwi_add_rtc ::
    "hwi_abi \<Rightarrow> as_abi \<Rightarrow> u8 list \<Rightarrow> paddr_t \<Rightarrow> u32 \<Rightarrow> u32 \<Rightarrow> bool \<Rightarrow> int \<Rightarrow> 'a hwi_state_scheme \<Rightarrow> 'a hwi_state_scheme result" where
  "hwi_add_rtc ha as name base reg_shift len mmap cent_reg st =
     bind_result (hwi_add_device ha (item_str ha ITEM_BUS_UNKNOWN) (item_str ha ITEM_DEVCLASS_RTC) name 0 st) (\<lambda>st.
     bind_result (hwitag_add_location ha base (push_bit (unat reg_shift) len) (ucast reg_shift)
        (ucast (as_offset ha as (hwi_find_as base mmap st))) st) (\<lambda>st.
       if cent_reg \<noteq> - 1 then add_tag ha Tag_regname [(F_regname, 0), (F_regoffset, of_int cent_reg)] st
       else Inr st))"

definition aarch64_hwi_add_ppi :: "hwi_abi \<Rightarrow> u8 list \<Rightarrow> u32 \<Rightarrow> 'a hwi_state_scheme \<Rightarrow> 'a hwi_state_scheme result" where
  "aarch64_hwi_add_ppi ha name vector st =
     (let cls = hwi_find_item ha (HWI_NULL_OFF ha) [cs ''ppi''] st
      in bind_result
           (if cls = HWI_NULL_OFF ha
            then alloc_item_kind ha Tag_group (cs ''ppi'') (hwi_find_item ha (HWI_NULL_OFF ha) [item_str ha ITEM_ROOT_HW] st) st
            else Inr (cls, st)) (\<lambda>(cls, st).
         bind_result (alloc_item_kind ha Tag_device name cls st) (\<lambda>(tag, st).
           hwitag_add_irq ha vector (set_field ha tag F_pnpid 0 st))))"

end
