(* ===== verification/Hwi_Props.thy ===== *)
theory Hwi_Props
  imports Hwi
begin

text \<open>
  Properties of \<open>Hwi\<close>: the tags form a chain that is walked by their sizes, whatever is allocated; a new tag is
  zero but for its size and name; an item counts the words of its tags.
\<close>

section \<open>Sixteen-bit fields\<close>

definition get16 :: "u8 list \<Rightarrow> nat \<Rightarrow> nat" where
  "get16 bs p = unat (le_value (take 2 (drop p bs)))"

definition splice :: "nat \<Rightarrow> u8 list \<Rightarrow> u8 list \<Rightarrow> u8 list" where
  "splice p xs bs = take p bs @ xs @ drop (p + length xs) bs"

lemma length_splice [simp]: "p + length xs \<le> length bs \<Longrightarrow> length (splice p xs bs) = length bs"
  by (simp add: splice_def)

lemma nth_splice:
  assumes "p + length xs \<le> length bs" and "i < length bs"
  shows "splice p xs bs ! i = (if p \<le> i \<and> i < p + length xs then xs ! (i - p) else bs ! i)"
  using assms by (auto simp: splice_def nth_append)

lemma le_bytes_2: "le_bytes 2 v = [ucast v, ucast (drop_bit 8 v)]"
  by (simp add: le_bytes_def numeral_2_eq_2)

lemma take_2_drop: "p + 2 \<le> length bs \<Longrightarrow> take 2 (drop p bs) = [bs ! p, bs ! Suc p]"
  by (simp add: numeral_2_eq_2 take_Suc_conv_app_nth)

lemma le_value_2: "unat (le_value [a, b]) = unat a + 256 * unat b"
proof -
  have "ucast a AND push_bit 8 (ucast b) = (0 :: u64)" by (rule bit_word_eqI) (auto simp: bit_simps dest: bit_imp_le_length)
  then have "le_value [a, b] = ucast a + push_bit 8 (ucast b :: u64)"
    by (simp add: disjunctive_add [symmetric] bit_eq_iff bit_simps)
  moreover have ab: "unat (ucast a :: u64) = unat a" "unat (ucast b :: u64) = unat b" "unat a < 256" "unat b < 256"
    using unsigned_less [of a] unsigned_less [of b]
    by (simp_all add: unsigned_ucast_eq take_bit_nat_eq_self_iff order_less_trans [OF unsigned_less])
  moreover have "unat (push_bit 8 (ucast b :: u64)) = 256 * unat b"
    using ab by (simp add: push_bit_eq_mult unat_mult_lem [THEN iffD1] mult.commute)
  ultimately show ?thesis by (simp add: unat_add_lem [THEN iffD1])
qed

lemma get16_nth: "p + 2 \<le> length bs \<Longrightarrow> get16 bs p = unat (bs ! p) + 256 * unat (bs ! Suc p)"
  by (simp add: get16_def take_2_drop le_value_2 del: le_value.simps)

lemma get16_splice_other:
  assumes "q + length xs \<le> length bs" and "p + 2 \<le> length bs" and "p + 2 \<le> q \<or> q + length xs \<le> p"
  shows "get16 (splice q xs bs) p = get16 bs p"
  using assms by (auto simp: get16_nth nth_splice)

lemma get16_put:
  assumes "p + 2 \<le> length bs"
  shows "get16 (splice p (le_bytes 2 v) bs) p = unat v mod 65536"
proof -
  have "unat (ucast v :: u8) = unat v mod 256" by (simp add: unsigned_ucast_eq take_bit_eq_mod)
  moreover have "unat (ucast (drop_bit 8 v) :: u8) = unat v div 256 mod 256"
    by (simp add: unsigned_ucast_eq take_bit_eq_mod drop_bit_eq_div unat_div)
  moreover have "unat v mod 65536 = unat v mod 256 + 256 * (unat v div 256 mod 256)"
    using mod_mult2_eq [of "unat v" 256 256] by simp
  ultimately show ?thesis using assms by (simp add: get16_nth nth_splice le_bytes_2)
qed

lemma unat_u8: "unat (x :: u8) < 256"
proof -
  have "unat x < 2 ^ LENGTH(8)" by (rule unsigned_less)
  then show ?thesis by simp
qed

lemma get16_less: "p + 2 \<le> length bs \<Longrightarrow> get16 bs p < 65536"
  using unat_u8 [of "bs ! p"] unat_u8 [of "bs ! Suc p"] by (simp add: get16_nth)

section \<open>Chains of tags\<close>

definition tag_bytes :: "u8 list \<Rightarrow> nat \<Rightarrow> nat" where
  "tag_bytes bs o' = 4 * get16 bs o'"

text \<open>The offsets are those reached from \<open>s\<close> by the sizes stored, and the last tag ends at \<open>e\<close>.\<close>

fun chain :: "u8 list \<Rightarrow> nat \<Rightarrow> nat list \<Rightarrow> nat \<Rightarrow> bool" where
  "chain bs s [] e \<longleftrightarrow> s = e"
| "chain bs s (p # ps) e \<longleftrightarrow> p = s \<and> 0 < tag_bytes bs s \<and> chain bs (s + tag_bytes bs s) ps e"

lemma chain_cong: "\<forall>p \<in> set ps. get16 bs' p = get16 bs p \<Longrightarrow> chain bs' s ps e = chain bs s ps e"
  by (induction ps arbitrary: s) (auto simp: tag_bytes_def)

lemma chain_snoc: "chain bs s ps m \<Longrightarrow> 0 < tag_bytes bs m \<Longrightarrow> chain bs s (ps @ [m]) (m + tag_bytes bs m)"
  by (induction ps arbitrary: s) auto

lemma chain_bounds: "chain bs s ps e \<Longrightarrow> s \<le> e \<and> (\<forall>p \<in> set ps. s \<le> p \<and> p + tag_bytes bs p \<le> e \<and> 4 \<le> tag_bytes bs p)"
proof (induction ps arbitrary: s)
  case (Cons p ps)
  then have "s + tag_bytes bs s \<le> e \<and> (\<forall>q \<in> set ps. s + tag_bytes bs s \<le> q \<and> q + tag_bytes bs q \<le> e \<and> 4 \<le> tag_bytes bs q)"
    by auto
  then show ?case using Cons.prems by (fastforce simp: tag_bytes_def)
qed simp

lemma chain_apart:
  "chain bs s ps e \<Longrightarrow> p \<in> set ps \<Longrightarrow> q \<in> set ps \<Longrightarrow> p \<noteq> q \<Longrightarrow> p + tag_bytes bs p \<le> q \<or> q + tag_bytes bs q \<le> p"
proof (induction ps arbitrary: s)
  case (Cons r ps)
  then show ?case using chain_bounds [of bs "s + tag_bytes bs s" ps e] by auto
qed simp

section \<open>The section in the page\<close>

text \<open>The documented layout: sizes and names of tags, and the counts of items, are 16-bit fields at the start.\<close>

definition layout_ok :: "hwi_abi \<Rightarrow> bool" where
  "layout_ok ha \<longleftrightarrow> prefix_size ha = 4
     \<and> field_pos ha F_size = 0 \<and> field_pos ha F_name = 2 \<and> field_pos ha F_itemsize = 4
     \<and> field_pos ha F_itemname = 6 \<and> field_pos ha F_owner = 8 \<and> field_pos ha F_kids = 10
     \<and> (\<forall>f \<in> {F_size, F_name, F_itemsize, F_itemname, F_owner, F_kids}. field_bytes ha f = 2)"

lemma layoutD:
  assumes "layout_ok ha"
  shows "prefix_size ha = 4" "field_pos ha F_size = 0" "field_pos ha F_name = 2" "field_pos ha F_itemsize = 4"
    "field_pos ha F_itemname = 6" "field_pos ha F_owner = 8" "field_pos ha F_kids = 10"
    "field_bytes ha F_size = 2" "field_bytes ha F_name = 2" "field_bytes ha F_itemsize = 2"
    "field_bytes ha F_itemname = 2" "field_bytes ha F_owner = 2" "field_bytes ha F_kids = 2"
  using assms by (simp_all add: layout_ok_def)

text \<open>What an allocation leaves of the rest: the page is well formed, strings keep their offsets, other sections their bytes.\<close>

definition page_ext :: "syspage \<Rightarrow> syspage \<Rightarrow> bool" where
  "page_ext pg pg' \<longleftrightarrow> st_inv pg' \<and> strings_end pg \<le> strings_end pg'
     \<and> (\<forall>o' < strings_end pg. hwi_find_string pg' o' = hwi_find_string pg o')
     \<and> (\<forall>t. t \<noteq> Sec_strings \<and> t \<noteq> Sec_hwinfo \<longrightarrow> sect_bytes pg' t = sect_bytes pg t)"

lemma page_ext_refl: "st_inv pg \<Longrightarrow> page_ext pg pg"
  by (simp add: page_ext_def)

lemma page_ext_trans: "page_ext a b \<Longrightarrow> page_ext b c \<Longrightarrow> page_ext a c"
  by (auto simp: page_ext_def)

text \<open>Only the bytes of the section are different.\<close>

lemma page_ext_hw:
  assumes "st_inv pg" and "sp_inv pg'" and "\<And>t. t \<noteq> Sec_hwinfo \<Longrightarrow> sect_bytes pg' t = sect_bytes pg t"
  shows "page_ext pg pg'"
proof -
  have "sect_bytes pg' Sec_strings = sect_bytes pg Sec_strings" by (intro assms(3)) simp
  then show ?thesis using assms by (auto simp: page_ext_def st_inv_def strings_end_def hwi_find_string_def)
qed

lemma put_hw_effect:
  assumes "st_inv (page st)" and "i + length xs \<le> length (hw_bytes st)"
  shows "hw_bytes (put_hw i xs st) = splice i xs (hw_bytes st)" "page_ext (page st) (page (put_hw i xs st))"
    "hw_offset (put_hw i xs st) = hw_offset st" "hw_last (put_hw i xs st) = hw_last st"
proof -
  have inv: "sp_inv (page st)" using assms(1) by (simp add: st_inv_def)
  have fits: "i + length xs \<le> unat (sect_size (sections (page st) Sec_hwinfo))"
    using assms(2) length_sect_bytes [OF inv] by (simp add: hw_bytes_def)
  note put = put_bytes_section [OF inv fits]
  show "hw_bytes (put_hw i xs st) = splice i xs (hw_bytes st)"
    using put(3) by (simp add: hw_bytes_def put_hw_def splice_def)
  show "page_ext (page st) (page (put_hw i xs st))"
    using page_ext_hw [OF assms(1) put(1,2)] by (simp add: put_hw_def)
qed (simp_all add: put_hw_def)

lemma unat_round128_u32:
  assumes "unat (n :: u32) \<le> 2 ^ 20"
  shows "unat n \<le> unat (ucast (ROUND (ucast n) 128) :: u32)" "unat (ucast (ROUND (ucast n) 128) :: u32) \<le> 2 ^ 30"
  using unat_round128 [OF assms] by (simp_all add: of_nat_unat)

lemma hwi_room_spec:
  assumes "st_inv pg" and "unat off \<le> length (sect_bytes pg Sec_hwinfo)" and "unat need \<le> 2 ^ 20"
    and "hwi_room need off pg = Inr pg'"
  shows "page_ext pg pg'" "\<exists>n. sect_bytes pg' Sec_hwinfo = sect_bytes pg Sec_hwinfo @ replicate n 0"
    "unat off + unat need \<le> length (sect_bytes pg' Sec_hwinfo)"
proof -
  let ?sz = "sect_size (sections pg Sec_hwinfo)"
  have inv: "sp_inv pg" using assms(1) by (simp add: st_inv_def)
  have len: "length (sect_bytes pg Sec_hwinfo) = unat ?sz" by (rule length_sect_bytes [OF inv])
  then have spare: "unat (?sz - off) = unat ?sz - unat off"
    using assms(2) by (simp add: unat_sub word_le_nat_alt)
  have "page_ext pg pg' \<and> (\<exists>n. sect_bytes pg' Sec_hwinfo = sect_bytes pg Sec_hwinfo @ replicate n 0)
    \<and> unat off + unat need \<le> length (sect_bytes pg' Sec_hwinfo)"
  proof (cases "need > ?sz - off")
    case True
    define add where "add = (ucast (ROUND (ucast (need - (?sz - off))) 128) :: u32)"
    have g: "grow_syspage_section Sec_hwinfo add pg = Inr pg'"
      using assms(4) True by (simp add: hwi_room_def Let_def add_def)
    have d: "unat (need - (?sz - off)) = unat need - (unat ?sz - unat off)"
      using True spare by (simp add: unat_sub word_less_nat_alt word_le_nat_alt)
    have small: "unat add \<le> 2 ^ 30" "unat need - (unat ?sz - unat off) \<le> unat add"
      using unat_round128_u32 [of "need - (?sz - off)"] assms(3) d unfolding add_def by simp_all
    have z: "sect_bytes pg' Sec_hwinfo = sect_bytes pg Sec_hwinfo @ replicate (unat (round8 add)) 0"
      by (rule grow_appends_zeros [OF g small(1) inv])
    have "page_ext pg pg'"
      using page_ext_hw [OF assms(1) grow_keeps_inv [OF g small(1) inv]] grow_keeps_others [OF g small(1) inv] by blast
    then show ?thesis using z small(2) round8_bounds(1) [OF small(1)] len assms(2) by auto
  next
    case False
    then have "pg' = pg" using assms(4) by (simp add: hwi_room_def Let_def)
    then show ?thesis using False assms(1,2) page_ext_refl spare len
      by (auto simp: word_le_nat_alt not_less intro: exI [of _ 0])
  qed
  then show "page_ext pg pg'" "\<exists>n. sect_bytes pg' Sec_hwinfo = sect_bytes pg Sec_hwinfo @ replicate n 0"
    "unat off + unat need \<le> length (sect_bytes pg' Sec_hwinfo)" by blast+
qed

section \<open>Placing a tag\<close>

text \<open>The tags start at the offsets \<open>ps\<close>, the bytes behind them are zero and have room for the prefix that ends the list.\<close>

definition hw_chain :: "'a hwi_state_scheme \<Rightarrow> nat list \<Rightarrow> bool" where
  "hw_chain st ps \<longleftrightarrow> st_inv (page st) \<and> chain (hw_bytes st) 0 ps (unat (hw_offset st))
     \<and> unat (hw_offset st) + 4 \<le> length (hw_bytes st)
     \<and> (\<forall>i. unat (hw_offset st) \<le> i \<and> i < length (hw_bytes st) \<longrightarrow> hw_bytes st ! i = 0)"

definition size_ok :: "u32 \<Rightarrow> bool" where
  "size_ok sz \<longleftrightarrow> 4 dvd unat sz \<and> 4 \<le> unat sz \<and> unat sz < 2 ^ 18"

definition name_ok :: "u8 list \<Rightarrow> bool" where
  "name_ok name \<longleftrightarrow> c_string name \<and> length name \<le> 2 ^ 16"

text \<open>The tag that counts the words of the new one: one of the chain that is long enough, or the new tag itself.\<close>

definition count_ok :: "'a hwi_state_scheme \<Rightarrow> nat list \<Rightarrow> u32 \<Rightarrow> bool" where
  "count_ok st ps sz \<longleftrightarrow> (if hw_last st = hw_offset st then 6 \<le> unat sz
     else unat (hw_last st) \<in> set ps \<and> 6 \<le> tag_bytes (hw_bytes st) (unat (hw_last st)))"

lemma hw_length: "st_inv (page st) \<Longrightarrow> length (hw_bytes st) \<le> 2 ^ 30"
  using sp_inv_limit [of "page st"] sp_inv_bottom [of "page st" Sec_hwinfo] length_sect_bytes [of "page st" Sec_hwinfo]
  by (simp add: st_inv_def hw_bytes_def sect_bottom_def)

lemma get16_zero:
  "p + 2 \<le> length bs \<Longrightarrow> \<forall>i. e \<le> i \<and> i < length bs \<longrightarrow> bs ! i = 0 \<Longrightarrow> e \<le> p \<Longrightarrow> get16 bs p = 0"
  by (simp add: get16_nth)

lemma get_field_16:
  assumes "field_bytes ha f = 2"
  shows "unat (get_field ha tag f st) = get16 (hw_bytes st) (unat tag + field_pos ha f)"
  by (simp add: get_field_def get16_def assms)

text \<open>Three fields are written: the count of the item, then size and name of the tag at the end.\<close>

lemma write_tag:
  fixes v :: u64 and st :: "'a hwi_state_scheme"
  assumes lay: "layout_ok ha" and c: "hw_chain st ps" and cnt: "count_ok st ps sz" and sz: "size_ok sz"
    and room: "unat (hw_offset st) + unat sz + 4 \<le> length (hw_bytes st)"
  defines "e \<equiv> hw_offset st" and "L \<equiv> unat (hw_last st)"
  defines "st1 \<equiv> set_field ha (hw_last st) F_itemsize (get_field ha (hw_last st) F_itemsize st + ucast (sz div 4)) st"
  defines "st2 \<equiv> set_field ha e F_size (ucast (sz div 4)) st1"
  defines "st3 \<equiv> set_field ha e F_name v st2"
  defines "st4 \<equiv> st3\<lparr>hw_offset := e + sz\<rparr>"
  shows "hw_chain st4 (ps @ [unat e])" "hw_offset st4 = e + sz" "unat (hw_offset st4) = unat e + unat sz" "hw_last st4 = hw_last st"
    "page_ext (page st) (page st4)" "tag_bytes (hw_bytes st4) (unat e) = unat sz" "get16 (hw_bytes st4) (unat e + 2) = unat v mod 65536"
    "get16 (hw_bytes st4) (L + 4) = (get16 (hw_bytes st) (L + 4) + unat sz div 4) mod 65536"
    "\<And>q. q + 2 \<le> unat e \<Longrightarrow> q + 2 \<le> L + 4 \<or> L + 6 \<le> q \<Longrightarrow> get16 (hw_bytes st4) q = get16 (hw_bytes st) q"
    "length (hw_bytes st4) = length (hw_bytes st)"
proof -
  note lay = layoutD [OF lay]
  let ?bs = "hw_bytes st" and ?e = "unat e"
  have inv: "st_inv (page st)" and ch: "chain ?bs 0 ps ?e" and zero: "\<forall>i. ?e \<le> i \<and> i < length ?bs \<longrightarrow> ?bs ! i = 0"
    using c by (simp_all add: hw_chain_def e_def)
  have s: "4 \<le> unat sz" "unat sz < 2 ^ 18" "4 * (unat sz div 4) = unat sz" using sz by (auto simp: size_ok_def)
  have L: "L + 6 \<le> ?e + unat sz" "L = ?e \<or> L + 6 \<le> ?e"
    using cnt chain_bounds [OF ch] by (auto simp: count_ok_def L_def e_def split: if_splits)
  have w1: "hw_bytes st1 = splice (L + 4) (le_bytes 2 (get_field ha (hw_last st) F_itemsize st + ucast (sz div 4))) ?bs"
    "page_ext (page st) (page st1)" "hw_offset st1 = e" "hw_last st1 = hw_last st"
    using put_hw_effect [OF inv, of "L + 4" "le_bytes 2 (get_field ha (hw_last st) F_itemsize st + ucast (sz div 4))"] room L lay
    by (simp_all add: st1_def set_field_def L_def e_def)
  have len1: "length (hw_bytes st1) = length ?bs" using w1(1) room L by (simp add: e_def)
  have inv1: "st_inv (page st1)" using w1(2) by (simp add: page_ext_def)
  have w2: "hw_bytes st2 = splice ?e (le_bytes 2 (ucast (sz div 4))) (hw_bytes st1)"
    "page_ext (page st1) (page st2)" "hw_offset st2 = e" "hw_last st2 = hw_last st"
    using put_hw_effect [OF inv1, of ?e "le_bytes 2 (ucast (sz div 4))"] room lay len1 w1(3,4) s
    by (simp_all add: st2_def set_field_def e_def)
  have len2: "length (hw_bytes st2) = length ?bs" using w2(1) room len1 s by (simp add: e_def)
  have inv2: "st_inv (page st2)" using w2(2) by (simp add: page_ext_def)
  have w3: "hw_bytes st3 = splice (?e + 2) (le_bytes 2 v) (hw_bytes st2)"
    "page_ext (page st2) (page st3)" "hw_offset st3 = e" "hw_last st3 = hw_last st"
    using put_hw_effect [OF inv2, of "?e + 2" "le_bytes 2 v"] room lay len2 w2(3,4) s
    by (simp_all add: st3_def set_field_def e_def)
  have b4: "hw_bytes st4 = hw_bytes st3" "page st4 = page st3" by (simp_all add: st4_def hw_bytes_def)
  show len: "length (hw_bytes st4) = length ?bs" using w3(1) len2 room s by (simp add: b4 e_def)
  show ext: "page_ext (page st) (page st4)" unfolding b4 using page_ext_trans [OF page_ext_trans [OF w1(2) w2(2)] w3(2)] .
  show "hw_offset st4 = e + sz" "hw_last st4 = hw_last st" using w3(4) by (simp_all add: st4_def)
  show off: "unat (hw_offset st4) = ?e + unat sz"
    using room hw_length [OF inv] by (simp add: st4_def e_def unat_add_u32)
  have sz4: "unat (sz div 4) = unat sz div 4" "unat sz div 4 < 65536" using s by (simp_all add: unat_div)
  then have uc: "unat (ucast (sz div 4) :: u64) = unat sz div 4"
    by (simp add: unsigned_ucast_eq take_bit_nat_eq_self_iff)
  have fits: "q + 2 \<le> length ?bs" if "q + 2 \<le> ?e + unat sz + 4" for q using that room by (simp add: e_def)
  show tagsz: "tag_bytes (hw_bytes st4) ?e = unat sz"
    using get16_put [of ?e "hw_bytes st1" "ucast (sz div 4)"] get16_splice_other [of "?e + 2" "le_bytes 2 v" "hw_bytes st2" ?e]
      len1 len2 fits uc sz4 s
    by (simp add: b4 w3(1) w2(1) tag_bytes_def)
  show "get16 (hw_bytes st4) (?e + 2) = unat v mod 65536"
    using get16_put [of "?e + 2" "hw_bytes st2" v] len2 fits s by (simp add: b4 w3(1))
  show keep: "get16 (hw_bytes st4) q = get16 ?bs q" if q: "q + 2 \<le> ?e" "q + 2 \<le> L + 4 \<or> L + 6 \<le> q" for q
  proof -
    have "get16 (hw_bytes st1) q = get16 ?bs q" unfolding w1(1)
      by (rule get16_splice_other) (use q fits [of q] fits [of "L + 4"] L in auto)
    moreover have "get16 (hw_bytes st2) q = get16 (hw_bytes st1) q" unfolding w2(1)
      by (rule get16_splice_other) (use q len1 fits [of q] fits [of ?e] in auto)
    moreover have "get16 (hw_bytes st3) q = get16 (hw_bytes st2) q" unfolding w3(1)
      by (rule get16_splice_other) (use q len2 fits [of q] fits [of "?e + 2"] s in auto)
    ultimately show ?thesis by (simp add: b4)
  qed
  have old: "unat (get_field ha (hw_last st) F_itemsize st) = get16 ?bs (L + 4)" "get16 ?bs (L + 4) < 65536"
    using get_field_16 [of ha F_itemsize "hw_last st" st] get16_less [of "L + 4" ?bs] fits [of "L + 4"] L lay
    by (simp_all add: L_def)
  then have "unat (get_field ha (hw_last st) F_itemsize st + ucast (sz div 4)) = get16 ?bs (L + 4) + unat sz div 4"
    using uc sz4 by (subst unat_add_lem [THEN iffD1]) auto
  then have "get16 (hw_bytes st1) (L + 4) = (get16 ?bs (L + 4) + unat sz div 4) mod 65536"
    unfolding w1(1) using get16_put [of "L + 4" ?bs] fits [of "L + 4"] L by simp
  moreover have "get16 (hw_bytes st2) (L + 4) = get16 (hw_bytes st1) (L + 4)" unfolding w2(1)
    by (rule get16_splice_other) (use len1 fits [of "L + 4"] fits [of ?e] L in auto)
  moreover have "get16 (hw_bytes st3) (L + 4) = get16 (hw_bytes st2) (L + 4)" unfolding w3(1)
    by (rule get16_splice_other) (use len2 fits [of "L + 4"] fits [of "?e + 2"] L s in auto)
  ultimately show "get16 (hw_bytes st4) (L + 4) = (get16 ?bs (L + 4) + unat sz div 4) mod 65536" by (simp add: b4)
  have same: "get16 (hw_bytes st4) p = get16 ?bs p" if p: "p \<in> set ps" for p
  proof (rule keep)
    have pb: "p + tag_bytes ?bs p \<le> ?e" "4 \<le> tag_bytes ?bs p" using chain_bounds [OF ch] p by auto
    then show "p + 2 \<le> ?e" by linarith
    show "p + 2 \<le> L + 4 \<or> L + 6 \<le> p"
    proof (cases "p = L \<or> L = ?e")
      case False
      then have "L \<in> set ps" "6 \<le> tag_bytes ?bs L" using cnt by (auto simp: count_ok_def L_def e_def split: if_splits)
      then show ?thesis using chain_apart [OF ch p, of L] False pb by auto
    qed (use pb in auto)
  qed
  then have "chain (hw_bytes st4) 0 ps ?e" using ch chain_cong [of ps "hw_bytes st4" ?bs 0 ?e] by simp
  then have "chain (hw_bytes st4) 0 (ps @ [?e]) (?e + unat sz)"
    using chain_snoc [of "hw_bytes st4" 0 ps ?e] tagsz s by simp
  moreover have "hw_bytes st4 ! i = 0" if i: "?e + unat sz \<le> i" "i < length (hw_bytes st4)" for i
    using i zero len len1 len2 L s fits [of "L + 4"] fits [of ?e] fits [of "?e + 2"]
    by (simp add: b4 w3(1) w2(1) w1(1) nth_splice)
  moreover have "st_inv (page st4)" using ext by (simp add: page_ext_def)
  ultimately show "hw_chain st4 (ps @ [?e])" using off room len by (simp add: hw_chain_def e_def)
qed

text \<open>A longer section, with zeros at its end, has the same tags.\<close>

lemma get16_append: "p + 2 \<le> length bs \<Longrightarrow> get16 (bs @ xs) p = get16 bs p"
  by (simp add: get16_nth nth_append)

lemma hw_chain_grow:
  assumes c: "hw_chain st ps" and ext: "page_ext (page st) pg" and bytes: "sect_bytes pg Sec_hwinfo = hw_bytes st @ replicate n 0"
  shows "hw_chain (st\<lparr>page := pg\<rparr>) ps" "hw_bytes (st\<lparr>page := pg\<rparr>) = hw_bytes st @ replicate n 0"
    "count_ok st ps sz \<Longrightarrow> count_ok (st\<lparr>page := pg\<rparr>) ps sz"
proof -
  show b: "hw_bytes (st\<lparr>page := pg\<rparr>) = hw_bytes st @ replicate n 0" using bytes by (simp add: hw_bytes_def)
  have ch: "chain (hw_bytes st) 0 ps (unat (hw_offset st))" "unat (hw_offset st) + 4 \<le> length (hw_bytes st)"
    using c by (simp_all add: hw_chain_def)
  have same: "get16 (hw_bytes st @ replicate n 0) p = get16 (hw_bytes st) p" if "p \<in> set ps" for p
  proof (rule get16_append)
    have "p + tag_bytes (hw_bytes st) p \<le> unat (hw_offset st)" "4 \<le> tag_bytes (hw_bytes st) p"
      using chain_bounds [OF ch(1)] that by auto
    then show "p + 2 \<le> length (hw_bytes st)" using ch(2) by linarith
  qed
  then have "chain (hw_bytes st @ replicate n 0) 0 ps (unat (hw_offset st))"
    using ch(1) chain_cong [of ps "hw_bytes st @ replicate n 0" "hw_bytes st"] by blast
  then show "hw_chain (st\<lparr>page := pg\<rparr>) ps"
    using c ext unfolding hw_chain_def b by (auto simp: page_ext_def nth_append)
  show "count_ok st ps sz \<Longrightarrow> count_ok (st\<lparr>page := pg\<rparr>) ps sz"
    using same by (auto simp: count_ok_def b tag_bytes_def split: if_splits)
qed

text \<open>\<open>place_tag\<close> from a well-formed section.\<close>

definition placed :: "hwi_abi \<Rightarrow> u8 list \<Rightarrow> u32 \<Rightarrow> u32 \<Rightarrow> 'a hwi_state_scheme \<Rightarrow> 'a hwi_state_scheme \<Rightarrow> bool" where
  "placed ha name sz tag st st' \<longleftrightarrow> unat (hw_offset st') = unat tag + unat sz \<and> hw_last st' = hw_last st
     \<and> page_ext (page st) (page st') \<and> tag_bytes (hw_bytes st') (unat tag) = unat sz
     \<and> (\<exists>off. get16 (hw_bytes st') (unat tag + 2) = off mod 65536 \<and> hwi_find_string (page st') off = name \<and> off < strings_end (page st'))
     \<and> get16 (hw_bytes st') (unat (hw_last st) + 4) =
         ((if hw_last st = tag then 0 else get16 (hw_bytes st) (unat (hw_last st) + 4)) + unat sz div 4) mod 65536
     \<and> (\<forall>q. q + 2 \<le> unat tag \<longrightarrow> q + 2 \<le> unat (hw_last st) + 4 \<or> unat (hw_last st) + 6 \<le> q
         \<longrightarrow> get16 (hw_bytes st') q = get16 (hw_bytes st) q)"

lemma place_tag_spec:
  fixes st :: "'a hwi_state_scheme"
  assumes lay: "layout_ok ha" and c: "hw_chain st ps" and cnt: "count_ok st ps sz" and sz: "size_ok sz" and name: "name_ok name"
    and run: "place_tag ha name sz st = Inr (tag, st')"
  shows "tag = hw_offset st" "hw_chain st' (ps @ [unat tag])" "placed ha name sz tag st st'"
proof -
  have inv: "st_inv (page st)" and ch: "chain (hw_bytes st) 0 ps (unat (hw_offset st))" and o4: "unat (hw_offset st) + 4 \<le> length (hw_bytes st)"
    using c by (simp_all add: hw_chain_def)
  have nm: "c_string name" "length name + 2 \<le> 2 ^ 20" using name by (simp_all add: name_ok_def)
  have szb: "unat sz < 2 ^ 18" "unat (sz + prefix_size ha) = unat sz + 4"
    using sz layoutD(1) [OF lay] by (simp_all add: size_ok_def unat_add_u32)
  then have sz16: "unat sz div 4 < 65536" by (simp add: less_mult_imp_div_less)
  obtain name_off pg1 pg2 where add: "add_string name (page st) = Inr (name_off, pg1)"
    and room: "hwi_room (sz + prefix_size ha) (hw_offset st) pg1 = Inr pg2"
    using run by (auto simp: place_tag_def)
  note str = add_string_inv [OF inv nm add] add_string_find [OF inv nm add]
  have h1: "sect_bytes pg1 Sec_hwinfo = hw_bytes st" using str(2) by (simp add: hw_bytes_def)
  have e1: "page_ext (page st) pg1" using str by (auto simp: page_ext_def)
  have "unat (hw_offset st) \<le> length (sect_bytes pg1 Sec_hwinfo)" "unat (sz + prefix_size ha) \<le> 2 ^ 20"
    using h1 o4 szb by simp_all
  note rm = hwi_room_spec [OF str(1) this room]
  obtain n where h2: "sect_bytes pg2 Sec_hwinfo = hw_bytes st @ replicate n 0" using rm(2) h1 by auto
  have e2: "page_ext (page st) pg2" by (rule page_ext_trans [OF e1 rm(1)])
  define st0 where "st0 = st\<lparr>page := pg2\<rparr>"
  note g = hw_chain_grow [OF c e2 h2, folded st0_def]
  have st0: "hw_offset st0 = hw_offset st" "hw_last st0 = hw_last st" "page st0 = pg2" by (simp_all add: st0_def)
  have room0: "unat (hw_offset st0) + unat sz + 4 \<le> length (hw_bytes st0)"
    using rm(3) szb by (simp add: g(2) st0 h2)
  note w = write_tag [OF lay g(1) g(3) [OF cnt] sz room0, where v = "of_nat name_off", unfolded st0]
  show t: "tag = hw_offset st" using run add room by (auto simp: place_tag_def Let_def)
  have st': "st' = (set_field ha (hw_offset st) F_name (of_nat name_off) (set_field ha (hw_offset st) F_size (ucast (sz div 4))
       (set_field ha (hw_last st) F_itemsize (get_field ha (hw_last st) F_itemsize st0 + ucast (sz div 4)) st0)))\<lparr>hw_offset := hw_offset st + sz\<rparr>"
    using run add room by (auto simp: place_tag_def Let_def st0_def)
  note w = w [folded st']
  show "hw_chain st' (ps @ [unat tag])" using w(1) t by simp
  have nof: "unat (of_nat name_off :: u64) mod 65536 = name_off mod 65536"
    by (simp add: unat_of_nat mod_mod_cancel)
  have fs: "hwi_find_string (page st') name_off = name" "name_off < strings_end (page st')"
    using str(3,4) rm(1) w(5) by (auto simp: page_ext_def)
  have old: "get16 (hw_bytes st0) q = get16 (hw_bytes st) q" if "q + 2 \<le> length (hw_bytes st)" for q
    using that by (simp add: g(2) get16_append)
  have cnt': "get16 (hw_bytes st0) (unat (hw_last st) + 4) = (if hw_last st = tag then 0 else get16 (hw_bytes st) (unat (hw_last st) + 4))"
  proof (cases "hw_last st = tag")
    case True
    have "\<forall>i. unat (hw_offset st) \<le> i \<and> i < length (hw_bytes st0) \<longrightarrow> hw_bytes st0 ! i = 0"
      using g(1) by (simp add: hw_chain_def st0)
    moreover have "6 \<le> unat sz" using cnt True t by (simp add: count_ok_def)
    ultimately show ?thesis using True t room0 st0(1) get16_zero [of "unat (hw_offset st) + 4" "hw_bytes st0" "unat (hw_offset st)"] by simp
  next
    case False
    then have "unat (hw_last st) \<in> set ps" "6 \<le> tag_bytes (hw_bytes st) (unat (hw_last st))" using cnt t by (simp_all add: count_ok_def)
    then have "unat (hw_last st) + 6 \<le> unat (hw_offset st)" using chain_bounds [OF ch] by fastforce
    then show ?thesis using False o4 by (simp add: old)
  qed
  show "placed ha name sz tag st st'"
    unfolding placed_def t
  proof (intro conjI allI impI)
    show "page_ext (page st) (page st')" using page_ext_trans [OF e2 w(5)] .
    show "\<exists>off. get16 (hw_bytes st') (unat (hw_offset st) + 2) = off mod 65536 \<and> hwi_find_string (page st') off = name \<and> off < strings_end (page st')"
      using w(7) fs nof by auto
    show "get16 (hw_bytes st') (unat (hw_last st) + 4) =
         ((if hw_last st = hw_offset st then 0 else get16 (hw_bytes st) (unat (hw_last st) + 4)) + unat sz div 4) mod 65536"
      using w(8) cnt' t by simp
    show "get16 (hw_bytes st') q = get16 (hw_bytes st) q"
      if "q + 2 \<le> unat (hw_offset st)" "q + 2 \<le> unat (hw_last st) + 4 \<or> unat (hw_last st) + 6 \<le> q" for q
      using w(9) [OF that] old [of q] that(1) o4 by simp
  qed (use w(3,4,6) in simp_all)
qed

section \<open>Setting a field\<close>

text \<open>The 16-bit fields in front of the end of the tags are kept, except those that overlap a place of \<open>C\<close>.\<close>

definition fields_kept :: "'a hwi_state_scheme \<Rightarrow> 'a hwi_state_scheme \<Rightarrow> nat set \<Rightarrow> bool" where
  "fields_kept st st' C \<longleftrightarrow> (\<forall>q. q + 2 \<le> unat (hw_offset st) \<longrightarrow> (\<forall>c \<in> C. q + 2 \<le> c \<or> c + 2 \<le> q)
     \<longrightarrow> get16 (hw_bytes st') q = get16 (hw_bytes st) q)"

lemma fields_kept_refl: "fields_kept st st C"
  by (simp add: fields_kept_def)

lemma fields_keptD:
  "fields_kept st st' C \<Longrightarrow> q + 2 \<le> unat (hw_offset st) \<Longrightarrow> \<forall>c \<in> C. q + 2 \<le> c \<or> c + 2 \<le> q
    \<Longrightarrow> get16 (hw_bytes st') q = get16 (hw_bytes st) q"
  by (simp add: fields_kept_def)

lemma fields_kept_trans:
  "fields_kept a b C \<Longrightarrow> fields_kept b c D \<Longrightarrow> unat (hw_offset a) \<le> unat (hw_offset b) \<Longrightarrow> C \<union> D \<subseteq> E \<Longrightarrow> fields_kept a c E"
  by (fastforce simp: fields_kept_def)

lemma set_field_spec:
  fixes st :: "'a hwi_state_scheme"
  assumes c: "hw_chain st ps" and p: "unat tag \<in> set ps" and d: "4 \<le> field_pos ha f"
    and fits: "field_pos ha f + field_bytes ha f \<le> tag_bytes (hw_bytes st) (unat tag)"
  defines "at \<equiv> unat tag + field_pos ha f"
  shows "hw_chain (set_field ha tag f v st) ps" "page_ext (page st) (page (set_field ha tag f v st))"
    "hw_offset (set_field ha tag f v st) = hw_offset st" "hw_last (set_field ha tag f v st) = hw_last st"
    "\<And>q. q + 2 \<le> length (hw_bytes st) \<Longrightarrow> q + 2 \<le> at \<or> at + field_bytes ha f \<le> q
      \<Longrightarrow> get16 (hw_bytes (set_field ha tag f v st)) q = get16 (hw_bytes st) q"
    "field_bytes ha f = 2 \<Longrightarrow> get16 (hw_bytes (set_field ha tag f v st)) at = unat v mod 65536"
proof -
  let ?bs = "hw_bytes st" and ?st = "set_field ha tag f v st"
  have inv: "st_inv (page st)" and ch: "chain ?bs 0 ps (unat (hw_offset st))" and o4: "unat (hw_offset st) + 4 \<le> length ?bs"
    and zero: "\<forall>i. unat (hw_offset st) \<le> i \<and> i < length ?bs \<longrightarrow> ?bs ! i = 0"
    using c by (simp_all add: hw_chain_def)
  have pb: "unat tag + tag_bytes ?bs (unat tag) \<le> unat (hw_offset st)" using chain_bounds [OF ch] p by auto
  then have room: "at + length (le_bytes (field_bytes ha f) v) \<le> length ?bs" using fits o4 by (simp add: at_def)
  note w = put_hw_effect [OF inv room]
  show ext: "page_ext (page st) (page ?st)" using w(2) by (simp add: set_field_def at_def)
  have b: "hw_bytes ?st = splice at (le_bytes (field_bytes ha f) v) ?bs" using w(1) by (simp add: set_field_def at_def)
  show o': "hw_offset ?st = hw_offset st" "hw_last ?st = hw_last st" using w(3,4) by (simp_all add: set_field_def at_def)
  show keep: "get16 (hw_bytes ?st) q = get16 ?bs q" if "q + 2 \<le> length ?bs" "q + 2 \<le> at \<or> at + field_bytes ha f \<le> q" for q
    unfolding b by (rule get16_splice_other) (use that room in auto)
  show "field_bytes ha f = 2 \<Longrightarrow> get16 (hw_bytes ?st) at = unat v mod 65536"
    unfolding b using get16_put [of at ?bs v] room by simp
  have "get16 (hw_bytes ?st) q = get16 ?bs q" if q: "q \<in> set ps" for q
  proof (rule keep)
    have qb: "q + tag_bytes ?bs q \<le> unat (hw_offset st)" "4 \<le> tag_bytes ?bs q" using chain_bounds [OF ch] q by auto
    then show "q + 2 \<le> length ?bs" using o4 by linarith
    show "q + 2 \<le> at \<or> at + field_bytes ha f \<le> q"
      using chain_apart [OF ch p q] qb fits d by (cases "unat tag = q") (auto simp: at_def)
  qed
  then have "chain (hw_bytes ?st) 0 ps (unat (hw_offset st))" using ch chain_cong [of ps "hw_bytes ?st" ?bs] by blast
  moreover have "hw_bytes ?st ! i = 0" if "unat (hw_offset st) \<le> i" "i < length (hw_bytes ?st)" for i
    using that zero pb fits room unfolding b by (auto simp: nth_splice at_def)
  moreover have "st_inv (page ?st)" using ext by (simp add: page_ext_def)
  ultimately show "hw_chain ?st ps" using o4 room b by (simp add: hw_chain_def o'(1))
qed

section \<open>Allocating\<close>

text \<open>The last item counts the words of its tags, up to the end.\<close>

definition hw_inv :: "'a hwi_state_scheme \<Rightarrow> nat list \<Rightarrow> bool" where
  "hw_inv st ps \<longleftrightarrow> hw_chain st ps
     \<and> (if ps = [] then hw_last st = 0
        else unat (hw_last st) \<in> set ps \<and> 6 \<le> tag_bytes (hw_bytes st) (unat (hw_last st))
          \<and> get16 (hw_bytes st) (unat (hw_last st) + 4) = (unat (hw_offset st) - unat (hw_last st)) div 4 mod 65536)"

text \<open>A pad is a bare prefix.\<close>

definition pad_ok :: "hwi_abi \<Rightarrow> bool" where
  "pad_ok ha \<longleftrightarrow> tag_size ha Tag_pad = 4 \<and> tag_align ha Tag_pad = 4 \<and> name_ok (tag_name ha Tag_pad)"

definition tag_named :: "'a hwi_state_scheme \<Rightarrow> nat \<Rightarrow> u8 list \<Rightarrow> bool" where
  "tag_named st p name \<longleftrightarrow>
     (\<exists>off. get16 (hw_bytes st) (p + 2) = off mod 65536 \<and> hwi_find_string (page st) off = name \<and> off < strings_end (page st))"

lemma tag_named_ext:
  "tag_named st p name \<Longrightarrow> page_ext (page st) (page st') \<Longrightarrow> get16 (hw_bytes st') (p + 2) = get16 (hw_bytes st) (p + 2)
    \<Longrightarrow> tag_named st' p name"
  by (fastforce simp: tag_named_def page_ext_def)

lemma chain_dvd: "chain bs s ps e \<Longrightarrow> 4 dvd s \<Longrightarrow> 4 dvd e \<and> (\<forall>p \<in> set ps. 4 dvd p)"
proof (induction ps arbitrary: s)
  case (Cons p ps)
  have "4 dvd s + tag_bytes bs s" using Cons.prems by (simp add: tag_bytes_def)
  then show ?case using Cons by auto
qed simp

lemma misaligned_iff:
  assumes "align \<in> {4, 8}" and "unat (off :: u32) \<le> 2 ^ 30"
  shows "misaligned off align \<longleftrightarrow> \<not> unat align dvd unat off"
proof -
  have "\<exists>k \<in> {2 :: nat, 3}. unat align = 2 ^ k \<and> (ucast align :: u64) = 2 ^ k" using assms(1) by auto
  then obtain k :: nat where k: "k \<in> {2, 3}" "unat align = 2 ^ k" "(ucast align :: u64) = 2 ^ k" by blast
  have uo: "unat (ucast off :: u64) = unat off"
    using assms(2) by (simp add: unsigned_ucast_eq take_bit_nat_eq_self_iff)
  have r: "unat (ROUND (ucast off) (2 ^ k)) = (unat off + (2 ^ k - 1)) div 2 ^ k * 2 ^ k"
    using unat_ROUND [of k "ucast off"] k(1) assms(2) uo by auto
  moreover have le: "unat off \<le> (unat off + (2 ^ k - 1)) div 2 ^ k * 2 ^ k" "(unat off + (2 ^ k - 1)) div 2 ^ k * 2 ^ k < unat off + 2 ^ k"
    by (rule round_up_ge round_up_less, simp)+
  ultimately have d: "unat (ROUND (ucast off) (2 ^ k) - ucast off) = (unat off + (2 ^ k - 1)) div 2 ^ k * 2 ^ k - unat off"
    using uo by (simp add: unat_sub word_le_nat_alt)
  have "unat (ucast (ROUND (ucast off) (2 ^ k) - ucast off) :: u32) = (unat off + (2 ^ k - 1)) div 2 ^ k * 2 ^ k - unat off"
    using d le k(1) by (auto simp: unsigned_ucast_eq take_bit_nat_eq_self_iff)
  then have "misaligned off align \<longleftrightarrow> (unat off + (2 ^ k - 1)) div 2 ^ k * 2 ^ k - unat off \<noteq> 0"
    unfolding misaligned_def k(3) by (metis unat_eq_zero)
  also have "\<dots> \<longleftrightarrow> \<not> 2 ^ k dvd unat off" using k(1) le by auto presburger+
  finally show ?thesis by (simp add: k(2))
qed

text \<open>What one allocated tag is, and what it leaves of the section; the place of the count of the old item may differ.\<close>

definition tag_added ::
    "u8 list \<Rightarrow> u32 \<Rightarrow> 'a hwi_state_scheme \<Rightarrow> nat list \<Rightarrow> nat \<Rightarrow> 'a hwi_state_scheme \<Rightarrow> nat list \<Rightarrow> bool" where
  "tag_added name sz st ps p st' ps' \<longleftrightarrow> hw_inv st' ps'
     \<and> (ps' = ps @ [p] \<or> (\<exists>pad. ps' = ps @ [pad, p] \<and> tag_bytes (hw_bytes st') pad = 4))
     \<and> tag_bytes (hw_bytes st') p = unat sz \<and> tag_named st' p name
     \<and> page_ext (page st) (page st') \<and> unat (hw_offset st) \<le> p \<and> unat (hw_offset st') = p + unat sz"

lemma hw_inv_chain: "hw_inv st ps \<Longrightarrow> hw_chain st ps"
  by (simp add: hw_inv_def)

lemma hw_inv_offset:
  assumes "hw_inv st ps"
  shows "4 dvd unat (hw_offset st)" "unat (hw_offset st) \<le> 2 ^ 30" "ps = [] \<Longrightarrow> hw_offset st = 0"
proof -
  have c: "st_inv (page st)" "chain (hw_bytes st) 0 ps (unat (hw_offset st))" "unat (hw_offset st) + 4 \<le> length (hw_bytes st)"
    using hw_inv_chain [OF assms] by (simp_all add: hw_chain_def)
  show "4 dvd unat (hw_offset st)" using chain_dvd [OF c(2)] by simp
  show "unat (hw_offset st) \<le> 2 ^ 30" using hw_length [OF c(1)] c(3) by simp
  show "ps = [] \<Longrightarrow> hw_offset st = 0" using c(2) by (auto simp: unat_eq_zero)
qed

lemma place_tag_inv:
  fixes st :: "'a hwi_state_scheme"
  assumes lay: "layout_ok ha" and c: "hw_chain st ps" and sz: "size_ok sz" and name: "name_ok name"
    and last: "if hw_last st = hw_offset st then 6 \<le> unat sz else hw_inv st ps \<and> ps \<noteq> []"
    and run: "place_tag ha name sz st = Inr (tag, st')"
  shows "tag = hw_offset st" "tag_added name sz st ps (unat tag) st' (ps @ [unat tag])" "hw_last st' = hw_last st"
    "fields_kept st st' {unat (hw_last st) + 4}"
proof -
  have cnt: "count_ok st ps sz" using last by (auto simp: count_ok_def hw_inv_def split: if_splits)
  note p = place_tag_spec [OF lay c cnt sz name run]
  show t: "tag = hw_offset st" and l: "hw_last st' = hw_last st" using p(1,3) by (simp_all add: placed_def)
  have k: "get16 (hw_bytes st') q = get16 (hw_bytes st) q"
    if "q + 2 \<le> unat tag" "q + 2 \<le> unat (hw_last st) + 4 \<or> unat (hw_last st) + 6 \<le> q" for q
    using p(3) that unfolding placed_def by blast
  then show "fields_kept st st' {unat (hw_last st) + 4}" by (simp add: fields_kept_def t)
  have ch: "chain (hw_bytes st) 0 ps (unat tag)" using c t by (simp add: hw_chain_def)
  have sz4: "4 \<le> unat sz" "4 dvd unat sz" using sz by (simp_all add: size_ok_def)
  have off: "unat (hw_offset st') = unat tag + unat sz" using p(3) by (simp add: placed_def)
  have count: "get16 (hw_bytes st') (unat (hw_last st) + 4) =
      ((if hw_last st = tag then 0 else get16 (hw_bytes st) (unat (hw_last st) + 4)) + unat sz div 4) mod 65536"
    using p(3) by (simp add: placed_def)
  have "hw_inv st' (ps @ [unat tag])"
  proof (cases "hw_last st = tag")
    case True
    then show ?thesis using p(2,3) last count off t by (simp add: hw_inv_def placed_def)
  next
    case False
    let ?L = "unat (hw_last st)"
    have L: "?L \<in> set ps" "6 \<le> tag_bytes (hw_bytes st) ?L" "get16 (hw_bytes st) (?L + 4) = (unat tag - ?L) div 4 mod 65536"
      using last False t by (auto simp: hw_inv_def split: if_splits)
    have b: "?L + tag_bytes (hw_bytes st) ?L \<le> unat tag" using chain_bounds [OF ch] L by auto
    have "get16 (hw_bytes st') ?L = get16 (hw_bytes st) ?L" by (rule k) (use b L in auto)
    moreover have "get16 (hw_bytes st') (?L + 4) = (unat tag + unat sz - ?L) div 4 mod 65536"
    proof -
      have "(unat tag - ?L) div 4 + unat sz div 4 = (unat tag - ?L + unat sz) div 4" using sz4(2) by (simp add: div_plus_div_distrib_dvd_right)
      moreover have "unat tag - ?L + unat sz = unat tag + unat sz - ?L" using b by simp
      ultimately show ?thesis using count False L(3) by (simp add: mod_add_left_eq)
    qed
    ultimately show ?thesis using p(2) L l off by (simp add: hw_inv_def tag_bytes_def)
  qed
  then show "tag_added name sz st ps (unat tag) st' (ps @ [unat tag])"
    using p(3) t off by (simp add: tag_added_def placed_def tag_named_def)
qed

definition align_ok :: "u32 \<Rightarrow> bool" where
  "align_ok align \<longleftrightarrow> align \<in> {4, 8}"

lemma aligned_offset:
  assumes "hw_inv st ps" and "align_ok align"
  shows "misaligned (hw_offset st) align \<longleftrightarrow> \<not> unat align dvd unat (hw_offset st)"
    and "\<not> misaligned (hw_offset st) 4" and "ps = [] \<Longrightarrow> \<not> misaligned (hw_offset st) align"
  using misaligned_iff [of align "hw_offset st"] misaligned_iff [of 4 "hw_offset st"] hw_inv_offset [OF assms(1)] assms(2)
  by (simp_all add: align_ok_def)

lemma last_is_old:
  assumes "hw_inv st ps" and "ps \<noteq> []"
  shows "hw_last st \<noteq> hw_offset st" "unat (hw_last st) \<in> set ps" "unat (hw_last st) + 6 \<le> unat (hw_offset st)"
proof -
  have L: "unat (hw_last st) \<in> set ps" "6 \<le> tag_bytes (hw_bytes st) (unat (hw_last st))"
    using assms by (auto simp: hw_inv_def)
  moreover have "chain (hw_bytes st) 0 ps (unat (hw_offset st))" using assms(1) by (simp add: hw_inv_def hw_chain_def)
  ultimately show "unat (hw_last st) \<in> set ps" "unat (hw_last st) + 6 \<le> unat (hw_offset st)"
    using chain_bounds by fastforce+
  then show "hw_last st \<noteq> hw_offset st" by auto
qed

text \<open>The pad that aligns the next tag, behind at least one item.\<close>

lemma place_pad:
  assumes lay: "layout_ok ha" and pad: "pad_ok ha" and inv: "hw_inv st ps" and ne: "ps \<noteq> []"
    and al: "misaligned (hw_offset st) align" "align_ok align"
    and run: "place_tag ha (tag_name ha Tag_pad) (tag_size ha Tag_pad) st = Inr (tag, st')"
  shows "hw_inv st' (ps @ [unat (hw_offset st)])" "tag_bytes (hw_bytes st') (unat (hw_offset st)) = 4" "hw_last st' = hw_last st"
    "page_ext (page st) (page st')" "fields_kept st st' {unat (hw_last st) + 4}"
    "unat (hw_offset st') = unat (hw_offset st) + 4" "\<not> misaligned (hw_offset st') align"
proof -
  note pd = pad [unfolded pad_ok_def]
  have sz: "size_ok (tag_size ha Tag_pad)" "name_ok (tag_name ha Tag_pad)" using pd by (simp_all add: size_ok_def)
  have old: "if hw_last st = hw_offset st then 6 \<le> unat (tag_size ha Tag_pad) else hw_inv st ps \<and> ps \<noteq> []"
    using last_is_old(1) [OF inv ne] inv ne by simp
  note p = place_tag_inv [OF lay hw_inv_chain [OF inv] sz old run]
  show inv': "hw_inv st' (ps @ [unat (hw_offset st)])" and "tag_bytes (hw_bytes st') (unat (hw_offset st)) = 4"
    "hw_last st' = hw_last st" "page_ext (page st) (page st')" "fields_kept st st' {unat (hw_last st) + 4}"
    and o': "unat (hw_offset st') = unat (hw_offset st) + 4"
    using p pd by (simp_all add: tag_added_def)
  have "\<not> unat align dvd unat (hw_offset st)" "4 dvd unat (hw_offset st)"
    using al aligned_offset(1) [OF inv al(2)] hw_inv_offset(1) [OF inv] by auto
  then have "unat align dvd unat (hw_offset st')" using al(2) unfolding o' align_ok_def by auto presburger
  then show "\<not> misaligned (hw_offset st') align" using aligned_offset(1) [OF inv' al(2)] by simp
qed

lemma hwi_alloc_tag_spec:
  fixes st :: "'a hwi_state_scheme"
  assumes lay: "layout_ok ha" and pad: "pad_ok ha" and inv: "hw_inv st ps" and ne: "ps \<noteq> []"
    and sz: "size_ok sz" and name: "name_ok name" and al: "align_ok align"
    and run: "hwi_alloc_tag ha name sz align st = Inr (tag, st')"
  shows "\<exists>ps'. tag_added name sz st ps (unat tag) st' ps' \<and> unat align dvd unat tag \<and> hw_last st' = hw_last st
    \<and> fields_kept st st' {unat (hw_last st) + 4}"
proof (cases "misaligned (hw_offset st) align")
  case False
  then have pl: "place_tag ha name sz st = Inr (tag, st')" using run by (simp add: hwi_alloc_tag_def numeral_2_eq_2)
  have old: "if hw_last st = hw_offset st then 6 \<le> unat sz else hw_inv st ps \<and> ps \<noteq> []"
    using last_is_old(1) [OF inv ne] inv ne by simp
  show ?thesis
    using place_tag_inv [OF lay hw_inv_chain [OF inv] sz name old pl] aligned_offset(1) [OF inv al] False by blast
next
  case True
  obtain t1 st1 where p1: "place_tag ha (tag_name ha Tag_pad) (tag_size ha Tag_pad) st = Inr (t1, st1)"
    and p2: "place_tag ha name sz st1 = Inr (tag, st')"
    using run True aligned_offset(2) [OF inv al] pad by (auto simp: hwi_alloc_tag_def numeral_2_eq_2 pad_ok_def)
  let ?pad = "unat (hw_offset st)"
  note a = place_pad [OF lay pad inv ne True al p1]
  have ne1: "ps @ [?pad] \<noteq> []" by simp
  have old: "if hw_last st1 = hw_offset st1 then 6 \<le> unat sz else hw_inv st1 (ps @ [?pad]) \<and> ps @ [?pad] \<noteq> []"
    using last_is_old(1) [OF a(1) ne1] a(1) by simp
  note b = place_tag_inv [OF lay hw_inv_chain [OF a(1)] sz name old p2]
  have "unat (hw_last st) + 6 \<le> ?pad" by (rule last_is_old(3) [OF inv ne])
  then have "get16 (hw_bytes st') ?pad = get16 (hw_bytes st1) ?pad"
    using b(4) a(3,6) by (simp add: fields_kept_def)
  then have "tag_bytes (hw_bytes st') ?pad = 4" using a(2) by (simp add: tag_bytes_def)
  then have "tag_added name sz st ps (unat tag) st' (ps @ [?pad, unat tag])"
    using b(2) a(4,6) page_ext_trans by (auto simp: tag_added_def)
  moreover have "unat align dvd unat tag" using b(1) a(7) aligned_offset(1) [OF a(1) al] by simp
  moreover have "fields_kept st st' {unat (hw_last st) + 4}"
    using fields_kept_trans [OF a(5) b(4)] a(3,6) by simp
  ultimately show ?thesis using a(3) b(3) by auto
qed

text \<open>Fields behind the counts are written without harm.\<close>

lemma set_field_inv:
  fixes st :: "'a hwi_state_scheme" and v :: u64
  assumes inv: "hw_inv st ps" and p: "unat tag \<in> set ps" and d: "6 \<le> field_pos ha f" and two: "field_bytes ha f = 2"
    and fits: "field_pos ha f + 2 \<le> tag_bytes (hw_bytes st) (unat tag)"
  defines "st' \<equiv> set_field ha tag f v st" and "at \<equiv> unat tag + field_pos ha f"
  shows "hw_inv st' ps" "page_ext (page st) (page st')" "hw_offset st' = hw_offset st" "hw_last st' = hw_last st"
    "fields_kept st st' {at}" "get16 (hw_bytes st') at = unat v mod 65536"
    "\<And>q. q \<in> set ps \<Longrightarrow> get16 (hw_bytes st') q = get16 (hw_bytes st) q \<and> get16 (hw_bytes st') (q + 2) = get16 (hw_bytes st) (q + 2)"
proof -
  have c: "hw_chain st ps" by (rule hw_inv_chain [OF inv])
  have ch: "chain (hw_bytes st) 0 ps (unat (hw_offset st))" and o4: "unat (hw_offset st) + 4 \<le> length (hw_bytes st)"
    using c by (simp_all add: hw_chain_def)
  have d4: "4 \<le> field_pos ha f" using d by simp
  note w = set_field_spec [OF c p d4 fits [folded two], where v = v, folded st'_def at_def]
  show "page_ext (page st) (page st')" "hw_offset st' = hw_offset st" "hw_last st' = hw_last st" "get16 (hw_bytes st') at = unat v mod 65536"
    using w(2,3,4,6) two by simp_all
  show "fields_kept st st' {at}" using w(5) two o4 by (simp add: fields_kept_def)
  have keep: "get16 (hw_bytes st') (q + i) = get16 (hw_bytes st) (q + i)"
    if q: "q \<in> set ps" "i + 2 \<le> tag_bytes (hw_bytes st) q" "i \<le> 4" for q i
  proof (rule w(5))
    have qb: "q + tag_bytes (hw_bytes st) q \<le> unat (hw_offset st)" using chain_bounds [OF ch] q by auto
    then show "q + i + 2 \<le> length (hw_bytes st)" using o4 q(2) by linarith
    show "q + i + 2 \<le> at \<or> at + field_bytes ha f \<le> q + i"
      using chain_apart [OF ch p q(1)] q fits d two by (cases "unat tag = q") (auto simp: at_def)
  qed
  have four: "4 \<le> tag_bytes (hw_bytes st) q" if "q \<in> set ps" for q using chain_bounds [OF ch] that by auto
  show two': "get16 (hw_bytes st') q = get16 (hw_bytes st) q \<and> get16 (hw_bytes st') (q + 2) = get16 (hw_bytes st) (q + 2)"
    if "q \<in> set ps" for q using keep [of q 0] keep [of q 2] four [of q] that by simp
  show "hw_inv st' ps"
    using inv w(1) keep [of "unat (hw_last st)" 4] two' [of "unat (hw_last st)"]
    by (auto simp: hw_inv_def w(3,4) tag_bytes_def)
qed

lemma tag_added_field:
  fixes st :: "'a hwi_state_scheme"
  assumes a: "tag_added name sz st ps p st' ps'" and q: "unat tag \<in> set ps'" and d: "6 \<le> field_pos ha f" and two: "field_bytes ha f = 2"
    and fits: "field_pos ha f + 2 \<le> tag_bytes (hw_bytes st') (unat tag)"
  shows "tag_added name sz st ps p (set_field ha tag f v st') ps'"
proof -
  have inv: "hw_inv st' ps'" using a by (simp add: tag_added_def)
  note w = set_field_inv [OF inv q d two fits, where v = v]
  show ?thesis
    using a w(1) w(7) page_ext_trans [OF _ w(2)] tag_named_ext [OF _ w(2)] w(3)
    unfolding tag_added_def by (auto simp: tag_bytes_def)
qed

lemma hw_inv_page:
  assumes inv: "hw_inv st ps" and ext: "page_ext (page st) pg" and bytes: "sect_bytes pg Sec_hwinfo = hw_bytes st"
  shows "hw_inv (st\<lparr>page := pg\<rparr>) ps" "hw_bytes (st\<lparr>page := pg\<rparr>) = hw_bytes st"
proof -
  have z: "sect_bytes pg Sec_hwinfo = hw_bytes st @ replicate 0 0" using bytes by simp
  show "hw_bytes (st\<lparr>page := pg\<rparr>) = hw_bytes st" using bytes by (simp add: hw_bytes_def)
  then show "hw_inv (st\<lparr>page := pg\<rparr>) ps"
    using hw_chain_grow(1) [OF hw_inv_chain [OF inv] ext z] inv by (auto simp: hw_inv_def)
qed

text \<open>Alignment in front of an item: at most one pad, counted by the item before it.\<close>

lemma align_tag_spec:
  assumes lay: "layout_ok ha" and pad: "pad_ok ha" and inv: "hw_inv st ps" and al: "align_ok align"
    and run: "align_tag ha align st = Inr st'"
  shows "\<exists>ps'. hw_inv st' ps' \<and> (ps' = ps \<or> (\<exists>q. ps' = ps @ [q] \<and> tag_bytes (hw_bytes st') q = 4)) \<and> hw_last st' = hw_last st
    \<and> \<not> misaligned (hw_offset st') align \<and> page_ext (page st) (page st') \<and> fields_kept st st' {unat (hw_last st) + 4}
    \<and> unat (hw_offset st) \<le> unat (hw_offset st')"
proof (cases "misaligned (hw_offset st) align")
  case False
  then show ?thesis using run inv hw_inv_chain [OF inv]
    by (auto simp: align_tag_def hw_chain_def page_ext_refl fields_kept_refl)
next
  case True
  then have ne: "ps \<noteq> []" using aligned_offset(3) [OF inv al] by blast
  obtain t where "place_tag ha (tag_name ha Tag_pad) (tag_size ha Tag_pad) st = Inr (t, st')"
    using run True aligned_offset(2) [OF inv al] pad by (auto simp: align_tag_def hwi_alloc_tag_def numeral_2_eq_2 pad_ok_def)
  then show ?thesis using place_pad [OF lay pad inv ne True al] by fastforce
qed

text \<open>The fields of an item: the name within the tree, the owner, and one more child of the owner.\<close>

definition item_fields :: "u8 list \<Rightarrow> u32 \<Rightarrow> u32 \<Rightarrow> nat \<Rightarrow> 'a hwi_state_scheme \<Rightarrow> 'a hwi_state_scheme \<Rightarrow> bool" where
  "item_fields itemname owner null p st st' \<longleftrightarrow>
     (\<exists>off. get16 (hw_bytes st') (p + 6) = off mod 65536 \<and> hwi_find_string (page st') off = itemname)
     \<and> get16 (hw_bytes st') (p + 8) = unat owner mod 65536
     \<and> (owner \<noteq> null \<longrightarrow> get16 (hw_bytes st') (unat owner + 10) = (get16 (hw_bytes st) (unat owner + 10) + 1) mod 65536)"

definition owner_ok :: "hwi_abi \<Rightarrow> u32 \<Rightarrow> 'a hwi_state_scheme \<Rightarrow> nat list \<Rightarrow> bool" where
  "owner_ok ha owner st ps \<longleftrightarrow>
     owner = HWI_NULL_OFF ha \<or> unat owner \<in> set ps \<and> 12 \<le> tag_bytes (hw_bytes st) (unat owner)"

lemma unat_ucast_u32_64: "unat (ucast (x :: u32) :: u64) = unat x"
proof -
  have "unat x < 2 ^ LENGTH(32)" by (rule unsigned_less)
  then show ?thesis by (simp add: unsigned_ucast_eq take_bit_nat_eq_self_iff)
qed

lemma u16_inc: "get16 bs q < 65536 \<Longrightarrow> unat (v :: u64) = get16 bs q \<Longrightarrow> unat (v + 1) mod 65536 = (get16 bs q + 1) mod 65536"
  by (subst unat_add_lem [THEN iffD1]) auto

text \<open>The end of \<open>hwi_alloc_item\<close>.\<close>

lemma item_fields_written:
  fixes st :: "'a hwi_state_scheme"
  assumes lay: "layout_ok ha" and inv: "hw_inv st ps" and added: "tag_added name sz st ps (unat tag) st2 ps'"
    and l2: "hw_last st2 = tag" and sz: "12 \<le> unat sz" and own: "owner_ok ha owner st ps"
    and k2: "fields_kept st st2 {unat (hw_last st) + 4}"
    and f2: "hwi_find_string (page st2) name_off = itemname" "name_off < strings_end (page st2)"
    and fin: "st' = (let st = set_field ha tag F_itemname (of_nat name_off) st2;
           st = set_field ha tag F_owner (ucast owner) st
       in if owner \<noteq> HWI_NULL_OFF ha then set_field ha owner F_kids (get_field ha owner F_kids st + 1) st else st)"
  shows "tag_added name sz st ps (unat tag) st' ps' \<and> hw_last st' = tag
    \<and> item_fields itemname owner (HWI_NULL_OFF ha) (unat tag) st st'
    \<and> fields_kept st st' ({unat (hw_last st) + 4} \<union> (if owner = HWI_NULL_OFF ha then {} else {unat owner + 10}))"
proof -
  note lays = layoutD [OF lay]
  let ?t = "unat tag" and ?o = "unat owner" and ?C = "{unat (hw_last st) + 4}"
  define x1 where "x1 = set_field ha tag F_itemname (of_nat name_off) st2"
  define x2 where "x2 = set_field ha tag F_owner (ucast owner) x1"
  have ad: "hw_inv st2 ps'" "?t \<in> set ps'" "set ps \<subseteq> set ps'" "tag_bytes (hw_bytes st2) ?t = unat sz"
    "unat (hw_offset st) \<le> ?t" "unat (hw_offset st2) = ?t + unat sz" "page_ext (page st) (page st2)"
    using added by (auto simp: tag_added_def)
  have room1: "field_pos ha F_itemname + 2 \<le> tag_bytes (hw_bytes st2) ?t" "6 \<le> field_pos ha F_itemname"
    using sz ad(4) lays by simp_all
  note w1 = set_field_inv [OF ad(1,2) room1(2) lays(11) room1(1), where v = "of_nat name_off", folded x1_def]
  have tb1: "tag_bytes (hw_bytes x1) p = tag_bytes (hw_bytes st2) p" if "p \<in> set ps'" for p using w1(7) that by (simp add: tag_bytes_def)
  have room2: "field_pos ha F_owner + 2 \<le> tag_bytes (hw_bytes x1) ?t" "6 \<le> field_pos ha F_owner"
    using sz ad(2,4) lays tb1 by simp_all
  note w2 = set_field_inv [OF w1(1) ad(2) room2(2) lays(12) room2(1), where v = "ucast owner", folded x2_def]
  have tb2: "tag_bytes (hw_bytes x2) p = tag_bytes (hw_bytes st2) p" if "p \<in> set ps'" for p
    using w2(7) tb1 that by (simp add: tag_bytes_def)
  have a1: "tag_added name sz st ps ?t x1 ps'" unfolding x1_def by (rule tag_added_field [OF added ad(2) room1(2) lays(11) room1(1)])
  have a2: "tag_added name sz st ps ?t x2 ps'" unfolding x2_def by (rule tag_added_field [OF a1 ad(2) room2(2) lays(12) room2(1)])
  have kx: "get16 (hw_bytes x2) q = get16 (hw_bytes st2) q" if "q + 2 \<le> ?t + 6 \<or> ?t + 10 \<le> q" "q + 2 \<le> ?t + unat sz" for q
    using fields_keptD [OF w1(5), of q] fields_keptD [OF w2(5), of q] w1(3) ad(6) that lays by auto
  have o0: "unat (hw_offset st) \<le> ?t" by (rule ad(5))
  have kept2: "fields_kept st x2 ?C" using k2 kx o0 by (simp add: fields_kept_def)
  have nm2: "get16 (hw_bytes x2) (?t + 6) = name_off mod 65536"
    using fields_keptD [OF w2(5), of "?t + 6"] w1(6) w1(3) ad(6) sz lays by (simp add: unat_of_nat mod_mod_cancel)
  have ow2: "get16 (hw_bytes x2) (?t + 8) = ?o mod 65536"
    using w2(6) lays unat_ucast_u32_64 [of owner] by simp
  have fs2: "hwi_find_string (page x2) name_off = itemname" "name_off < strings_end (page x2)"
    using f2 w1(2) w2(2) by (auto simp: page_ext_def)
  show ?thesis
  proof (cases "owner = HWI_NULL_OFF ha")
    case True
    then have "st' = x2" using fin by (simp add: x1_def x2_def Let_def)
    then show ?thesis using a2 w1(4) w2(4) l2 True nm2 ow2 fs2(1) kept2 by (auto simp: item_fields_def)
  next
    case False
    then have ops: "?o \<in> set ps" "12 \<le> tag_bytes (hw_bytes st) ?o" using own by (auto simp: owner_ok_def)
    have ch: "chain (hw_bytes st) 0 ps (unat (hw_offset st))" using hw_inv_chain [OF inv] by (simp add: hw_chain_def)
    have oend: "?o + 12 \<le> unat (hw_offset st)" using chain_bounds [OF ch] ops by fastforce
    have "ps \<noteq> []" using ops by auto
    then have L: "unat (hw_last st) \<in> set ps" "6 \<le> tag_bytes (hw_bytes st) (unat (hw_last st))"
      using inv by (auto simp: hw_inv_def)
    have ap: "?o = unat (hw_last st) \<or> ?o + 12 \<le> unat (hw_last st) \<or> unat (hw_last st) + 6 \<le> ?o"
      using chain_apart [OF ch ops(1) L(1)] ops(2) L(2) by linarith
    have "get16 (hw_bytes x2) ?o = get16 (hw_bytes st) ?o"
      by (rule fields_keptD [OF kept2]) (use ap oend in auto)
    then have "tag_bytes (hw_bytes x2) ?o = tag_bytes (hw_bytes st) ?o" by (simp add: tag_bytes_def)
    then have room3: "field_pos ha F_kids + 2 \<le> tag_bytes (hw_bytes x2) ?o" "6 \<le> field_pos ha F_kids"
      using ops(2) lays by simp_all
    have in3: "?o \<in> set ps'" using ops ad(3) by blast
    note w3 = set_field_inv [OF w2(1) in3 room3(2) lays(13) room3(1), where v = "get_field ha owner F_kids x2 + 1"]
    have st': "st' = set_field ha owner F_kids (get_field ha owner F_kids x2 + 1) x2"
      using False fin by (simp add: x1_def x2_def Let_def)
    note w3 = w3 [folded st']
    have a3: "tag_added name sz st ps ?t st' ps'" unfolding st' by (rule tag_added_field [OF a2 in3 room3(2) lays(13) room3(1)])
    have x2off: "unat (hw_offset x2) = ?t + unat sz" using a2 by (simp add: tag_added_def)
    have far: "get16 (hw_bytes st') (?t + i) = get16 (hw_bytes x2) (?t + i)" if "i + 2 \<le> unat sz" for i
      by (rule fields_keptD [OF w3(5)]) (use that x2off oend o0 lays in auto)
    have "get16 (hw_bytes x2) (?o + 10) = get16 (hw_bytes st) (?o + 10)"
      by (rule fields_keptD [OF kept2]) (use ap oend in auto)
    moreover have "unat (get_field ha owner F_kids x2) = get16 (hw_bytes x2) (?o + 10)"
      using get_field_16 [OF lays(13)] lays by simp
    moreover have "get16 (hw_bytes x2) (?o + 10) < 65536"
    proof (rule get16_less)
      have "unat (hw_offset x2) + 4 \<le> length (hw_bytes x2)" using w2(1) by (simp add: hw_inv_def hw_chain_def)
      then show "?o + 10 + 2 \<le> length (hw_bytes x2)" using x2off oend o0 by simp
    qed
    ultimately have kids: "get16 (hw_bytes st') (?o + 10) = (get16 (hw_bytes st) (?o + 10) + 1) mod 65536"
      using w3(6) u16_inc lays by simp
    have "hwi_find_string (page st') name_off = itemname" using fs2 w3(2) by (auto simp: page_ext_def)
    then have "item_fields itemname owner (HWI_NULL_OFF ha) ?t st st'"
      using nm2 ow2 kids far [of 6] far [of 8] sz by (auto simp: item_fields_def)
    moreover have "fields_kept st st' (?C \<union> {?o + 10})"
      by (rule fields_kept_trans [OF kept2 w3(5)]) (use x2off o0 lays in auto)
    ultimately show ?thesis using a3 w1(4) w2(4) w3(4) l2 False by simp
  qed
qed

lemma hwi_alloc_item_spec:
  fixes st :: "'a hwi_state_scheme"
  assumes lay: "layout_ok ha" and pad: "pad_ok ha" and inv: "hw_inv st ps" and al: "align_ok align"
    and sz: "size_ok sz" "12 \<le> unat sz" and nm: "name_ok name" "name_ok itemname" and own: "owner_ok ha owner st ps"
    and run: "hwi_alloc_item ha name sz align itemname owner st = Inr (tag, st')"
  shows "\<exists>ps'. tag_added name sz st ps (unat tag) st' ps' \<and> unat align dvd unat tag \<and> hw_last st' = tag
    \<and> item_fields itemname owner (HWI_NULL_OFF ha) (unat tag) st st'
    \<and> fields_kept st st' ({unat (hw_last st) + 4} \<union> (if owner = HWI_NULL_OFF ha then {} else {unat owner + 10}))"
proof -
  note lays = layoutD [OF lay]
  have ipage: "st_inv (page st)" using hw_inv_chain [OF inv] by (simp add: hw_chain_def)
  have inm: "c_string itemname" "length itemname + 2 \<le> 2 ^ 20" using nm(2) by (simp_all add: name_ok_def)
  obtain saved_in pg st1 st2 where add: "add_string itemname (page st) = Inr (saved_in, pg)"
    and alg: "align_tag ha align (st\<lparr>page := pg\<rparr>) = Inr st1"
    and tg: "hwi_alloc_tag ha name sz align (st1\<lparr>hw_last := hw_offset st1\<rparr>) = Inr (tag, st2)"
    and fin: "st' = (let st = set_field ha tag F_itemname (of_nat saved_in) st2;
           st = set_field ha tag F_owner (ucast owner) st
       in if owner \<noteq> HWI_NULL_OFF ha then set_field ha owner F_kids (get_field ha owner F_kids st + 1) st else st)"
    using run by (auto simp: hwi_alloc_item_def Let_def)
  note str = add_string_inv [OF ipage inm add] add_string_find [OF ipage inm add]
  have h0: "sect_bytes pg Sec_hwinfo = hw_bytes st" using str(2) by (simp add: hw_bytes_def)
  have e0: "page_ext (page st) pg" using str by (auto simp: page_ext_def)
  note i0 = hw_inv_page [OF inv e0 h0]
  obtain ps1 where a: "hw_inv st1 ps1" "ps1 = ps \<or> (\<exists>q. ps1 = ps @ [q] \<and> tag_bytes (hw_bytes st1) q = 4)"
    "hw_last st1 = hw_last st" "\<not> misaligned (hw_offset st1) align" "page_ext pg (page st1)"
    "fields_kept st st1 {unat (hw_last st) + 4}" "unat (hw_offset st) \<le> unat (hw_offset st1)"
    using align_tag_spec [OF lay pad i0(1) al alg] i0(2) by (auto simp: fields_kept_def)
  let ?st1 = "st1\<lparr>hw_last := hw_offset st1\<rparr>"
  have c1: "hw_chain ?st1 ps1" using hw_inv_chain [OF a(1)] by (simp add: hw_chain_def hw_bytes_def)
  have pl: "place_tag ha name sz ?st1 = Inr (tag, st2)" using tg a(4) by (simp add: hwi_alloc_tag_def numeral_2_eq_2)
  have last: "if hw_last ?st1 = hw_offset ?st1 then 6 \<le> unat sz else hw_inv ?st1 ps1 \<and> ps1 \<noteq> []" using sz by simp
  note b = place_tag_inv [OF lay c1 sz(1) nm(1) last pl]
  have t: "tag = hw_offset st1" using b(1) by simp
  have hb: "hw_bytes ?st1 = hw_bytes st1" by (simp add: hw_bytes_def)
  have k1: "fields_kept st1 st2 {}" using b(4) by (simp add: fields_kept_def hb)
  have k2: "fields_kept st st2 {unat (hw_last st) + 4}" using fields_kept_trans [OF a(6) k1] a(7) by simp
  have "get16 (hw_bytes st2) q = get16 (hw_bytes st1) q" if "q \<in> set ps1" for q
  proof -
    have "chain (hw_bytes st1) 0 ps1 (unat (hw_offset st1))" using hw_inv_chain [OF a(1)] by (simp add: hw_chain_def)
    then have "q + tag_bytes (hw_bytes st1) q \<le> unat (hw_offset st1)" "4 \<le> tag_bytes (hw_bytes st1) q"
      using chain_bounds that by auto
    then have "q + 2 \<le> unat (hw_offset st1)" by linarith
    then show ?thesis using k1 by (simp add: fields_kept_def)
  qed
  then have "ps1 = ps \<or> (\<exists>q. ps1 = ps @ [q] \<and> tag_bytes (hw_bytes st2) q = 4)" using a(2) by (auto simp: tag_bytes_def)
  moreover have "page_ext (page st) (page st2)"
    using page_ext_trans [OF e0 page_ext_trans [OF a(5)]] b(2) by (simp add: tag_added_def)
  ultimately have added: "tag_added name sz st ps (unat tag) st2 (ps1 @ [unat tag])"
    using b(2) a(7) t by (auto simp: tag_added_def)
  have l2: "hw_last st2 = tag" using b(3) t by simp
  have dvd: "unat align dvd unat tag" using aligned_offset(1) [OF a(1) al] a(4) t by simp
  have p2: "page_ext pg (page st2)" using page_ext_trans [OF a(5)] b(2) by (simp add: tag_added_def)
  then have f2: "hwi_find_string (page st2) saved_in = itemname" "saved_in < strings_end (page st2)"
    using str(3,4) by (auto simp: page_ext_def)
  show ?thesis
    using item_fields_written [OF lay inv added l2 sz(2) own k2 f2 fin] added l2 dvd by blast
qed

section \<open>What an allocation promises\<close>

text \<open>C34: Allocating an item with \<open>hwi_alloc_item\<close> keeps the hardware information section well formed: the tags, walked
  by their sizes, are those there were, at most one pad, and the new one, which is aligned and carries its name; the new
  item becomes the last one and counts its own words, its name in the tree and its owner are stored, the owner has one more
  child, no other field of an older tag changes, the strings keep their offsets and the other sections their bytes.\<close>

theorem hwi_alloc_item_chain:
  assumes "layout_ok ha" and "pad_ok ha" and "hw_inv st ps" and "align_ok align" and "size_ok sz" and "12 \<le> unat sz"
    and "name_ok name" and "name_ok itemname" and "owner_ok ha owner st ps"
    and "hwi_alloc_item ha name sz align itemname owner st = Inr (tag, st')"
  shows "\<exists>ps'. tag_added name sz st ps (unat tag) st' ps' \<and> unat align dvd unat tag \<and> hw_last st' = tag
    \<and> item_fields itemname owner (HWI_NULL_OFF ha) (unat tag) st st'
    \<and> fields_kept st st' ({unat (hw_last st) + 4} \<union> (if owner = HWI_NULL_OFF ha then {} else {unat owner + 10}))"
  using hwi_alloc_item_spec assms by blast

text \<open>An ABI with the documented layout, and a page with an empty section, for the concrete runs.\<close>

definition doc_abi :: hwi_abi where
  "doc_abi = \<lparr>tag_name = (\<lambda>k. if k = Tag_pad then cs ''P'' else cs ''d''),
     tag_size = (\<lambda>k. if k = Tag_pad then 4 else 16), tag_align = (\<lambda>_. 4), prefix_size = 4,
     field_pos = (\<lambda>f. if f = F_size then 0 else if f = F_name then 2 else if f = F_itemsize then 4 else if f = F_itemname then 6
        else if f = F_owner then 8 else if f = F_kids then 10 else 12),
     field_bytes = (\<lambda>f. if f = F_pnpid then 4 else 2), item_str = (\<lambda>_. cs ''h''),
     HWI_NULL_OFF = 65535, AS_NULL_OFF = 65535, HWI_ILLEGAL_VECTOR = 65535,
     find_item = (\<lambda>_ _ _ _. 65535), find_tag = (\<lambda>_ _ _ _ idx. (None, idx))\<rparr>"

definition hw_page :: syspage where
  "hw_page = \<lparr>total_size = 32, max_size = 1024,
     sections = (\<lambda>_. \<lparr>sect_p = 32, sect_size = 0\<rparr>)
       (Sec_syspage := \<lparr>sect_p = 0, sect_size = 16\<rparr>, Sec_strings := \<lparr>sect_p = 16, sect_size = 8\<rparr>,
        Sec_hwinfo := \<lparr>sect_p = 24, sect_size = 8\<rparr>),
     bytes = replicate 32 0, fixed_size = 16, patch_data = []\<rparr>"

definition hw_st :: hwi_state where
  "hw_st = \<lparr>page = hw_page, asinfo = [], ram_list = [], avoid_list = [], avoid_set = True, ws_early_next = 0, sysram_added = True,
     temp_syspage = 0, watch_list = [], watch_calls = [], mem = (\<lambda>_. 0), hw_offset = 0, hw_last = 0\<rparr>"

lemma doc_abi_ok: "layout_ok doc_abi" "pad_ok doc_abi" "name_ok (cs ''d'')" "name_ok (cs ''u'')" "align_ok 8" "size_ok 16"
  "owner_ok doc_abi 65535 st ps"
  by (auto simp: layout_ok_def pad_ok_def doc_abi_def name_ok_def c_string_def cs_def align_ok_def size_ok_def owner_ok_def)

lemma hw_st_inv: "hw_inv hw_st []"
proof -
  have "table_of [] 8 (sect_bytes hw_page Sec_strings)" by (simp add: table_of_def hw_page_def sect_bytes_def)
  moreover have "sp_inv hw_page" by (auto simp: sp_inv_def hw_page_def sect_bottom_def disjoint_sects_def)
  ultimately have "st_inv hw_page" unfolding st_inv_def by blast
  then show ?thesis by (simp add: hw_inv_def hw_chain_def hw_st_def hw_bytes_def) (simp add: hw_page_def sect_bytes_def)
qed

lemma hw_st_run:
  "is_ok (bind_result (hwi_alloc_item doc_abi (cs ''d'') 16 8 (cs ''u'') 65535 hw_st)
     (\<lambda>(_, st). hwi_alloc_tag doc_abi (cs ''d'') 16 8 st))"
  by code_simp

lemma hw_st_runs:
  obtains tag st1 tag' st2 where "hwi_alloc_item doc_abi (cs ''d'') 16 8 (cs ''u'') 65535 hw_st = Inr (tag, st1)"
    and "hwi_alloc_tag doc_abi (cs ''d'') 16 8 st1 = Inr (tag', st2)"
  using hw_st_run by (auto elim!: is_okE)

theorem hwi_alloc_item_chain_witness:
  "\<exists>tag st' ps'. hwi_alloc_item doc_abi (cs ''d'') 16 8 (cs ''u'') 65535 hw_st = Inr (tag, st')
     \<and> tag_added (cs ''d'') 16 hw_st [] (unat tag) st' ps' \<and> hw_last st' = tag
     \<and> item_fields (cs ''u'') 65535 65535 (unat tag) hw_st st'"
proof -
  obtain tag st1 where r: "hwi_alloc_item doc_abi (cs ''d'') 16 8 (cs ''u'') 65535 hw_st = Inr (tag, st1)" by (rule hw_st_runs)
  have n: "HWI_NULL_OFF doc_abi = 65535" by (simp add: doc_abi_def)
  show ?thesis
    using hwi_alloc_item_chain [OF doc_abi_ok(1,2) hw_st_inv doc_abi_ok(5,6) _ doc_abi_ok(3,4,7) r] r unfolding n by auto
qed

text \<open>\<open>hwi_alloc_tag\<close> appends a tag to the last item: behind at most one pad, on the alignment asked for, with its
  size and name; the item counts the words of the tag and the pad, and every other field of the older tags, the strings
  and the other sections stay as they are.\<close>

theorem hwi_alloc_tag_chain:
  assumes "layout_ok ha" and "pad_ok ha" and "hw_inv st ps" and "ps \<noteq> []" and "size_ok sz" and "name_ok name" and "align_ok align"
    and "hwi_alloc_tag ha name sz align st = Inr (tag, st')"
  shows "\<exists>ps'. tag_added name sz st ps (unat tag) st' ps' \<and> unat align dvd unat tag \<and> hw_last st' = hw_last st
    \<and> fields_kept st st' {unat (hw_last st) + 4}"
  using hwi_alloc_tag_spec assms by blast

theorem hwi_alloc_tag_chain_witness:
  "\<exists>(st1 :: hwi_state) tag st2 ps ps'. hwi_alloc_tag doc_abi (cs ''d'') 16 8 st1 = Inr (tag, st2) \<and> hw_inv st1 ps \<and> ps \<noteq> []
     \<and> tag_added (cs ''d'') 16 st1 ps (unat tag) st2 ps' \<and> hw_last st2 = hw_last st1"
proof -
  obtain t st1 tag st2 where r: "hwi_alloc_item doc_abi (cs ''d'') 16 8 (cs ''u'') 65535 hw_st = Inr (t, st1)"
    "hwi_alloc_tag doc_abi (cs ''d'') 16 8 st1 = Inr (tag, st2)" by (rule hw_st_runs)
  obtain ps where "tag_added (cs ''d'') 16 hw_st [] (unat t) st1 ps"
    using hwi_alloc_item_spec [OF doc_abi_ok(1,2) hw_st_inv doc_abi_ok(5,6) _ doc_abi_ok(3,4,7) r(1)] by auto
  then have i: "hw_inv st1 ps" "ps \<noteq> []" by (auto simp: tag_added_def)
  show ?thesis using hwi_alloc_tag_chain [OF doc_abi_ok(1,2) i doc_abi_ok(6,3,5) r(2)] r i by blast
qed

text \<open>Growing a tag moves its end but not the end of the tags, so that the next tag is placed inside it.\<close>

lemma hwi_grow_tag_overlaps:
  assumes "hwi_grow_tag ha off sz st = Inr (t, st')"
  shows "hw_offset st' = hw_offset st"
  using assms by (auto simp: hwi_grow_tag_def Let_def set_field_def put_hw_def)

end
