(* ===== verification/Spec2Isabelle.thy ===== *)
theory Spec2Isabelle
  imports Ram_Props Board_Props Dma_Calls Sdio_Cmd_Props Sdhci_Props I2c_Props Spi_Dma Mmu_Props Clock_Props Text_Props Hwi_Props
begin

text \<open>
  Verification development for the Raspberry Pi 4 board support package (directory \<open>src/src\<close>; file
  names below are relative to \<open>src/src/hardware\<close> unless they begin with \<open>lib/dma\<close>).

  \<^bold>\<open>The program.\<close>  The package has two halves.  The \<^emph>\<open>startup\<close> program runs alone on the bare
  machine: it finds the RAM, describes the machine in the \<^emph>\<open>system page\<close>, and passes control
  to the kernel.  It never frees memory, has no threads, and stops with \<open>crash()\<close> on an error.  The
  \<^emph>\<open>drivers and libraries\<close> run later as processes: the DMA library, and the block driver of SD
  and MMC devices with its host controller module, serial, I2C and SPI drivers, small tools.

  In the startup program, \<open>add_ram\<close> is where the parts meet.  It records the range in the address space
  table, whose entries carry names kept in the string table; both tables are sections of the
  temporary system page and grow inside it, which moves the sections behind them; then the range
  goes into the free list of \<open>ram.c\<close>, the boot image is taken out, and the page itself is placed in
  the RAM just added.  In the SD/MMC driver the cards of \<open>mmc.c\<close> and \<open>sd.c\<close> issue every command through
  \<open>_sdio_send_cmd\<close> of \<open>base.c\<close>, which passes it to the host controller; the interrupt handler of
  \<open>sdhci.c\<close> completes it.

  \<^bold>\<open>Conventions.\<close>  C integers are words of their width (\<open>u8\<close>, \<open>u32\<close>, \<open>u64\<close>, \<open>paddr_t\<close>), so
  sums, products and shifts wrap as they do in C.  Structures are records, arrays and linked lists are
  lists, memory is a list of bytes (system page) or a function of the address.  A \<open>crash()\<close>, an access
  out of an array, a null dereference or a division by zero is a left value \<open>Inl\<close> of \<open>'a result\<close>,
  with one constructor of \<open>error\<close> for each; an \<open>errno\<close> result is a value \<open>Fail e\<close> of \<open>'a ret\<close>, which
  execution continues from.  Loops are structural recursions where the data shrinks,
  functions with a measure where a number does (\<open>adma_entry\<close>), and otherwise recursions on a number of
  rounds, see below.  Facts of headers that are not in the repository (layout and flags of
  \<open>sys/syspage.h\<close>) and the answers of the hardware, the operating system and the card are
  parameters: \<open>as_abi\<close>, \<open>ram_env\<close>, \<open>dma_os\<close>, \<open>hw\<close>, \<open>sd_env\<close>.  A register read is a function of the
  register and of the number of accesses made so far, so that no property depends on a register
  keeping its value.

  \<^bold>\<open>Theories.\<close>

  \<open>Prelude\<close>: the integer types, errors and their composition, the rounding macros of \<open>startup.h\<close>,
  lemmas on words, lists and masks; \<open>to_nat\<close> collects the facts that take a word statement to natural
  numbers, \<open>model_defs\<close> the definitions proofs unfold.

  \<open>Syspage\<close>: \<open>startup/lib/syspage_memory.c\<close>, \<open>aarch64/cpu_syspage_memory.c\<close> and the relocation table of
  \<open>callouts.c\<close>.  The state is
  \<open>syspage\<close>, the page as one list of bytes with the offset and size of each section; the two members of the
  header that growing reads and writes, \<open>total_size\<close> and \<open>size\<close>, are fields beside it, since the layout of
  the header is not in the repository.  Invariant:
  sections lie inside the page and do not overlap.  Growing a section keeps the invariant, every
  other section's bytes, and the bytes that relocated owners designate; it fails exactly at the limit.

  \<open>Strings_Table\<close>: \<open>startup/lib/strings.c\<close>, on those bytes.  A table is well formed when it is the
  concatenation of its strings with a final zero.  A string added is read back at the offset
  returned, is not stored twice, and other strings keep their offsets.  The locale \<open>section_store\<close>
  states what a client of the page may rely on and is interpreted on the page.

  \<open>Asinfo\<close>: \<open>startup/lib/as_*.c\<close>, \<open>hwi_find_as.c\<close>, \<open>aarch64/as_default.c\<close>: the address space table and
  its queries, and \<open>as_add_containing\<close>, which splits a range over the entries that contain it.

  \<open>Ram\<close>: all of \<open>startup/lib/ram.c\<close>.  The state extends the page by the free list, the avoid list and the
  working storage.  \<open>Ram_List\<close> gives the free list its meaning as a set of addresses and shows that
  insertion and removal are union and difference; \<open>Ram_Alloc\<close> shows what the searches find and take.  \<open>Ram_Pool\<close>:
  the locale \<open>memory_pool\<close> shows that the ranges handed out by any sequence of requests are disjoint; it is interpreted
  on the free list and on the early working storage behind the boot image, from which \<open>ws_alloc\<close> takes
  whenever the free list is empty.  \<open>Ram_Props\<close> states the properties, with runs on a small machine.

  \<open>Hwi\<close>: \<open>startup/lib/hwi_*.c\<close>, \<open>hwibus_*.c\<close>, \<open>hwidev_*.c\<close>, \<open>hwitag_*.c\<close>: the tags and items of the hardware information
  section as bytes of the page, and \<open>init_syspage_memory\<close> as a whole, which ends with \<open>hwi_default\<close>.  The layout of the
  tags and the searches of libc are the parameter \<open>hwi_abi\<close>.  \<open>Hwi_Props\<close>: the section stays a chain of
  tags, and what allocating an item adds to it.

  \<open>Mmu\<close>: \<open>startup/lib/aarch64/aarch64_map.c\<close>, \<open>init_mmu.c\<close> and the functions around them: page tables as words in
  memory, their construction, \<open>TCR_EL1\<close>.  \<open>Mmu_Props\<close>: a walk of the tables as the hardware does it finds the
  translation asked for, and which descriptors a mapping writes.

  \<open>Text\<close>: \<open>startup/lib\<close>: \<open>kprintf.c\<close>, \<open>ultoa_end.c\<close>, \<open>strtoul.c\<close>, \<open>strtopaddr.c\<close>, \<open>getsize.c\<close>, \<open>getopt.c\<close> and
  \<open>bootstrap_cmdline.c\<close>.  Strings are the bytes from a pointer on, and a read or write outside of them, in front of
  the structure as well as behind it, is an error.  \<open>Text_Props\<close>: printing and reading of numbers are inverse,
  \<open>getopt\<close> is a recursive parse of the arguments, and the editing of boot arguments is that of two lists.

  \<open>Clock\<close>: \<open>gmtime.c\<close>, \<open>calc_time_t.c\<close>, BCD, \<open>invert_timer_freq.c\<close> and the conversion of ticks.  \<open>Clock_Props\<close>: the
  two calendar functions are inverse but for the centuries, \<open>gmtime\<close> agrees with the Gregorian calendar until the
  28th of February 2100, and how exact the period of a timer is.

  \<open>Board\<close>: \<open>startup/boards/bcm2711\<close>: the mailbox to the VideoCore, detection of RAM, revision codes, pins, watchdog,
  start of the processors, mini UART, arguments of the firmware.  What the VideoCore answers is the parameter
  \<open>vc\<close>.  \<open>Board_Props\<close>: after \<open>bcm2711_init_raminfo\<close> the free list is the RAM announced by the revision code less
  the boot image and the memory of the VideoCore; \<open>init_board\<close> gives each pin the last entry of the tables for it.

  \<open>Dma\<close>: \<open>lib/dma/bcm2711/bcm2711_dmac.c\<close> and \<open>sync.c\<close>: the three kinds of channels, checking and set-up
  of a transfer, start, abort, completion, attaching and releasing, and the mappings shared by
  processes.  \<open>Dma_Chain\<close>: the control blocks form the chain the engine walks; the locale
  \<open>dma_engine\<close> has the walk as a client of the block format and is interpreted on both formats.
  \<open>Dma_Calls\<close>: contents of the blocks, sequences of calls, isolation of channels, the busy
  protocol, counting of users.

  \<open>Sdio_Consts\<close>, \<open>Sdio_Card\<close>: \<open>devb/sdmmc/sdiodi/base.c\<close>, \<open>mmc.c\<close>, \<open>sd.c\<close>: extraction of register fields,
  the parsers of CID, CSD, EXT\_CSD, SCR and status registers, timing and drive strength
  negotiation, erase groups and timeouts.  \<open>Sdio_Props\<close>: fields are the arithmetic bit fields, capacities
  and speeds are the announced ones.

  \<open>Sdio_Cmd\<close>: the command layer of the same files: one pass, the retry loop, the commands before
  and after, waiting for the card, partition switching, cache, erase.  \<open>Sdio_Cmd_Props\<close>: how often and
  when a command is issued, what it leaves of the host's capabilities, and which sectors an erase
  names.  The locale \<open>bus_relation\<close> proves once that a relation kept by one command is kept by every
  operation built of commands; it is interpreted on the capabilities and on the command log.

  \<open>Sdhci_Consts\<close>, \<open>Sdhci\<close>, \<open>Sdhci_Ctl\<close>: \<open>devb/sdmmc/sdiodi/hc/sdhci.c\<close>: waiting and reset, command issue,
  transfers by the processor, ADMA2 and SDMA, the interrupt handler; power, clock, timing,
  voltage, tuning, capabilities.  \<open>Sdhci_Props\<close>: the descriptor table describes the bytes of the scatter
  list, the clock divider is the best one, completion is reported with the right status.

  \<open>Port\<close>: the registers of the two serial bus drivers.  A history lists the accesses made so far; a read
  is answered by a function of the register and the history, so the device may answer anything; \<open>written\<close>
  and \<open>fetched\<close> are what went to and came from one register.

  \<open>I2c\<close>: \<open>i2c/bcm2711\<close>: transfers, the interrupt thread, the waiting caller, options, address and speed.  The
  set-up of a transfer is one step; after it each pass of the interrupt thread and each event of the
  caller (beginning to wait, time-out, failure, a spurious wake-up of the condition variable) is one step of \<open>i2c_step\<close>,
  in any order.  \<open>I2c_Props\<close>:
  the locale \<open>i2c_transfer\<close> carries an invariant of one pass over every run and is interpreted on sending
  and on receiving; what goes over the bus, when the result is lost, which speeds work.  The controller is assumed to
  end a transfer by the lower 16 bits of the number the driver wrote to its length register, not by the length asked for.

  \<open>Spi\<close>: \<open>spi/bcm2711\<close>: configuration, transfers by interrupt and by DMA, set-up.  \<open>Spi_Props\<close>: transfers by
  interrupt and the clock.  \<open>Spi_Dma\<close>: the driver as a client of the DMA library through the locale
  \<open>dma_provider\<close>, interpreted on the model of that library.

  \<^bold>\<open>Bounds and fuel.\<close>  The loop of \<open>alloc_ram\<close> that edits the list in place gets two rounds per
  entry and two more; a round removes an entry, moves on, or splits an entry, which happens at most once per
  entry since the halves no longer meet the range; \<open>Ram_List\<close> proves that it ends within that number.
  The loops of \<open>as_add_containing\<close> get one round per entry not yet looked at.  The polling loops of the
  drivers (\<open>waitmask\<close>, the wait for the card status, the abort of a DMA channel, retries) are bounded in
  the sources, and the model has the same bounds.  The list of scatter entries given to the processor
  transfer is finite.  The loops of the SPI driver that fill and drain the FIFO get one round per byte and one
  more, which \<open>Spi_Props\<close> proves to be enough.  \<open>invert_timer_freq\<close> gets 20 rounds, as each makes the period ten times
  larger and it must fit 32 bits; the digits of a number get as many slots as the buffer has; \<open>hwi_alloc_tag\<close>, which calls itself for a pad, gets
  a depth of 2, as a pad needs no pad; the arguments of the firmware get one round per byte of the line
  and one more.  The waits of the mailbox and of the mini UART have no bound in the sources: their
  number of rounds is the field \<open>spins\<close> of the environment, and a property of them speaks of runs that end.  A \<open>Diverges\<close> value marks the places where a wrong count would make the
  C loop run on; the properties exclude it or state it.

  \<^bold>\<open>Environment.\<close>  Hypotheses of the properties about parameters are the documented behaviour of what
  is outside of the repository, e.g. that a buffer of the DMA allocator lies below 1 GiB and is
  32-byte aligned, or that the address space flags are distinct bits.  Each property with a hypothesis
  is followed by a theorem that applies it to a concrete state.

  \<^bold>\<open>Where the code does not do what it means to.\<close>  The model follows the code: the clearing of memory above
  4 GiB through a 32-bit pointer, working storage handed out after exhaustion, the clean-up after a
  failed first \<open>dma_init\<close>, sector counts that wrap, an error overwritten by a later status, automatic
  commands left off after a removal, the late limit test of the descriptor table and the completion lost
  when two interrupt bits arrive together, the lost wake-up, the spurious wake-up and the late writes of the I2C driver, the
  shared clock, the short receive and the wrapping time-out of the SPI driver, the bytes in front of the boot arguments, the 29th of February
  2100 and the first firmware argument without its end are proved of the model.

  \<^bold>\<open>Not modelled.\<close>  In the parts above: the final write-out of the system page and the installation of
  callouts (copies of machine code), log messages, delays, resource database entries, option
  parsing, threads and locking of the SD driver, its initialisation sequences and the RPMB partition.
  Other parts: the CAM side of the SD driver, the serial drivers, device tree and firmware access work on
  structures and libraries that are not in the repository; the callouts, the start-up and cache
  code are assembler; decompressors are third-party; CPU tables, the tables of interrupts and addresses of the board and the tools are data
  or register I/O.

  \<^bold>\<open>Left to do.\<close>  The initialisation sequences of \<open>mmc.c\<close> and \<open>sd.c\<close>, the set-up of the interrupt controllers, the
  drivers of the clock chips, the ELF loader and the final write-out of the system page.
\<close>

end
